(* ===== verification/Gecko_Prelude.thy ===== *)
theory Gecko_Prelude
  imports Main "HOL-Library.Word"
begin

unbundle bit_operations_syntax

text \<open>
  Shared vocabulary of the development: the machine integer types the kernel
  uses, little-endian loads from byte-addressed memory, and the generic facts
  about words, bits and lists that several component theories rely on.
\<close>

section \<open>Machine integers\<close>

type_synonym u8 = "8 word"
type_synonym u16 = "16 word"
type_synonym u32 = "32 word"
type_synonym u64 = "64 word"

named_theorems gecko_bits \<open>bit-level facts about single-bit updates of words\<close>
named_theorems gecko_wf \<open>preservation of the components' invariants\<close>

section \<open>Byte-addressed memory\<close>

text \<open>RAM as the kernel sees it through a byte pointer, and the little-endian
  loads that a cast to \<open>uint16_t *\<close>, \<open>uint32_t *\<close> or \<open>uint64_t *\<close> performs.\<close>

type_synonym ram = "u64 \<Rightarrow> u8"

definition load16 :: "ram \<Rightarrow> u64 \<Rightarrow> u16" where
  "load16 m a = ucast (m a) OR push_bit 8 (ucast (m (a + 1)))"

definition load32 :: "ram \<Rightarrow> u64 \<Rightarrow> u32" where
  "load32 m a = ucast (load16 m a) OR push_bit 16 (ucast (load16 m (a + 2)))"

definition load64 :: "ram \<Rightarrow> u64 \<Rightarrow> u64" where
  "load64 m a = ucast (load32 m a) OR push_bit 32 (ucast (load32 m (a + 4)))"

section \<open>Single bits of words\<close>

lemma bit_set_single [gecko_bits]:
  fixes w :: "'a::len word"
  shows "bit (w OR 2 ^ n) m \<longleftrightarrow> bit w m \<or> (m = n \<and> n < LENGTH('a))"
  by (auto simp: bit_simps)

lemma bit_clear_single [gecko_bits]:
  fixes w :: "'a::len word"
  shows "bit (w AND NOT (2 ^ n)) m \<longleftrightarrow> bit w m \<and> m \<noteq> n"
  by (auto simp: bit_simps dest: bit_imp_le_length)

lemma word_test_single [gecko_bits]:
  fixes w :: "'a::len word"
  shows "w AND 2 ^ n = 0 \<longleftrightarrow> \<not> bit w n"
proof
  assume "w AND 2 ^ n = 0"
  then have "\<not> bit (w AND 2 ^ n) n" by simp
  then show "\<not> bit w n" by (auto simp: bit_simps dest: bit_imp_le_length)
next
  assume "\<not> bit w n"
  then show "w AND 2 ^ n = 0"
    by (intro bit_eqI) (auto simp: bit_simps)
qed

lemma word_eq_bits:
  fixes v w :: "'a::len word"
  shows "v = w \<longleftrightarrow> (\<forall>n. bit v n = bit w n)"
  by (metis bit_word_eqI)

lemma word_all_ones_iff:
  fixes w :: "'a::len word"
  shows "w = - 1 \<longleftrightarrow> (\<forall>j < LENGTH('a). bit w j)"
  by (auto simp: bit_eq_iff)

section \<open>Words and naturals\<close>

lemma unat_div_numeral [simp]:
  fixes x :: "'a::len word"
  shows "unat (x div y) = unat x div unat y"
  by (simp add: unat_div)

lemma unat_of_nat_small: "n < 2 ^ LENGTH('a) \<Longrightarrow> unat (of_nat n :: 'a::len word) = n"
  by (simp add: unat_of_nat take_bit_nat_eq_self)

lemma unat_ucast_up [simp]:
  fixes x :: "'a::len word"
  shows "LENGTH('a) \<le> LENGTH('b::len) \<Longrightarrow> unat (ucast x :: 'b word) = unat x"
  by (simp add: unsigned_ucast_eq) (metis less_le_trans take_bit_nat_eq_self unsigned_less
      one_less_numeral_iff power_increasing_iff semiring_norm(76))

lemma unat_drop_bit:
  fixes x :: "'a::len word"
  shows "unat (drop_bit n x) = unat x div 2 ^ n"
  using unsigned_less [of x, where 'a = nat]
  by (simp only: unsigned_drop_bit_eq take_bit_nat_eq_self) (simp add: drop_bit_eq_div)

lemma scast_of_nat_small:
  assumes "b < 2 ^ 31"
  shows "(scast (of_nat b :: u32) :: u64) = of_nat b"
proof -
  have "sint (of_nat b :: u32) = int b"
    using assms by (simp add: signed_of_nat signed_take_bit_int_eq_self)
  then show ?thesis by (simp add: scast_eq)
qed

lemma unat_scast_small:
  fixes x :: u32
  assumes "unat x < 2 ^ 31"
  shows "unat (scast x :: u64) = unat x"
  using scast_of_nat_small [OF assms] assms by (simp add: unat_of_nat_small)

lemma and_not_mask:
  fixes w :: "'a::len word"
  shows "w AND NOT (mask n) = push_bit n (drop_bit n w)"
  unfolding word_eq_bits bit_and_iff bit_not_iff bit_push_bit_iff bit_drop_bit_eq bit_mask_iff
  by (auto dest: bit_imp_le_length)

lemma unat_push_drop_bit:
  fixes w :: "'a::len word"
  shows "unat (push_bit n (drop_bit n w)) = unat w div 2 ^ n * 2 ^ n"
proof -
  have "unat w div 2 ^ n * 2 ^ n \<le> unat w" by simp
  also have "\<dots> < 2 ^ LENGTH('a)" using unsigned_less [of w, where 'a = nat] .
  finally have small: "2 ^ n * (unat w div 2 ^ n) < 2 ^ LENGTH('a)" by (simp add: mult.commute)
  have "unat (push_bit n (drop_bit n w)) = take_bit LENGTH('a) (2 ^ n * (unat w div 2 ^ n))"
    unfolding unsigned_push_bit_eq unat_drop_bit by (simp add: push_bit_eq_mult mult.commute)
  with small show ?thesis by (simp add: take_bit_nat_eq_self mult.commute)
qed

lemma unat_ucast_down:
  fixes w :: "'a::len word"
  assumes "unat w < 2 ^ LENGTH('b::len)"
  shows "unat (ucast w :: 'b word) = unat w"
  using assms by (simp add: unsigned_ucast_eq take_bit_nat_eq_self)

lemma unat_add_small: "unat (a :: 'a::len word) + unat b < 2 ^ LENGTH('a) \<Longrightarrow> unat (a + b) = unat a + unat b"
  by (simp add: unat_add_lem)

lemma unat_mult_small: "unat (a :: 'a::len word) * unat b < 2 ^ LENGTH('a) \<Longrightarrow> unat (a * b) = unat a * unat b"
  by (simp add: unat_mult_lem)

lemma block_index_split:
  fixes b c :: nat
  shows "b div 32 = c div 32 \<and> b mod 32 = c mod 32 \<longleftrightarrow> b = c"
  by (metis div_mult_mod_eq)

section \<open>Lists\<close>

lemma find_upt_Some_iff:
  "find P [0..<n] = Some b \<longleftrightarrow> b < n \<and> P b \<and> (\<forall>c < b. \<not> P c)"
  by (auto simp: find_Some_iff)

lemma find_upt_None_iff: "find P [0..<n] = None \<longleftrightarrow> (\<forall>c < n. \<not> P c)"
  by (auto simp: find_None_iff)

lemma find_append:
  "find P (xs @ ys) = (case find P xs of None \<Rightarrow> find P ys | Some x \<Rightarrow> Some x)"
  by (induction xs) auto

lemma find_upt_SomeD:
  "find P [a..<b] = Some c \<Longrightarrow> P c \<and> a \<le> c \<and> c < b \<and> (\<forall>i. a \<le> i \<and> i < c \<longrightarrow> \<not> P i)"
proof (induction "b - a" arbitrary: a)
  case (Suc n)
  then have ab: "[a..<b] = a # [Suc a..<b]" by (simp add: upt_conv_Cons)
  show ?case
  proof (cases "P a")
    case False
    then have "find P [Suc a..<b] = Some c" using Suc.prems ab by simp
    then have "P c \<and> Suc a \<le> c \<and> c < b \<and> (\<forall>i. Suc a \<le> i \<and> i < c \<longrightarrow> \<not> P i)"
      using Suc.hyps(1) [of "Suc a"] Suc.hyps(2) by simp
    then show ?thesis using False by (metis Suc_leD Suc_leI le_neq_implies_less)
  qed (use Suc.prems Suc.hyps(2) ab in auto)
qed simp

lemma unat_u8_less: "unat (b :: u8) < 256" using unsigned_less [of b, where ?'a = nat] by simp
lemma unat_u16_less: "unat (b :: u16) < 65536" using unsigned_less [of b, where ?'a = nat] by simp
lemma unat_u32_less: "unat (b :: u32) < 2 ^ 32" using unsigned_less [of b, where ?'a = nat] by simp

end
