(* ===== verification/Gk_State.thy ===== *)
theory Gk_State
  imports Gecko_Prelude
begin

text \<open>
  The data model of the GK scripting language (\<open>include/gk/gk.h\<close>): tokens, syntax-tree nodes,
  values, variables, functions and the interpreter state. C strings are lists of non-NUL characters;
  an array with its element count is a list; the 32-bit \<open>int\<close> is a word whose arithmetic wraps around.
\<close>

abbreviation (input) GK_MAX_TOKENS :: nat where "GK_MAX_TOKENS \<equiv> 2048"
abbreviation (input) GK_MAX_NODES :: nat where "GK_MAX_NODES \<equiv> 2048"
abbreviation (input) GK_MAX_VARS :: nat where "GK_MAX_VARS \<equiv> 128"
abbreviation (input) GK_MAX_FUNCS :: nat where "GK_MAX_FUNCS \<equiv> 64"
abbreviation (input) GK_MAX_PARAMS :: nat where "GK_MAX_PARAMS \<equiv> 8"
abbreviation (input) GK_MAX_CALL_DEPTH :: nat where "GK_MAX_CALL_DEPTH \<equiv> 32"
abbreviation (input) GK_MAX_STR :: nat where "GK_MAX_STR \<equiv> 256"
abbreviation (input) GK_MAX_CHILDREN :: nat where "GK_MAX_CHILDREN \<equiv> 64"

datatype TokenType =
  TOK_INT | TOK_STR | TOK_IDENT
| TOK_PLUS | TOK_MINUS | TOK_STAR | TOK_SLASH | TOK_PERCENT
| TOK_EQ | TOK_NEQ | TOK_LT | TOK_LE | TOK_GT | TOK_GE
| TOK_AND | TOK_OR | TOK_NOT
| TOK_ASSIGN
| TOK_LPAREN | TOK_RPAREN | TOK_COMMA | TOK_COLON
| TOK_IF | TOK_ELIF | TOK_ELSE
| TOK_WHILE | TOK_FOR | TOK_IN
| TOK_DEF | TOK_RETURN
| TOK_BREAK | TOK_CONTINUE
| TOK_TRUE | TOK_FALSE
| TOK_NEWLINE | TOK_INDENT | TOK_DEDENT
| TOK_EOF

record Token =
  tok_type :: TokenType
  tok_int :: u32
  tok_str :: string
  tok_line :: nat

datatype NodeType =
  NODE_INT | NODE_STR | NODE_BOOL | NODE_VAR | NODE_ASSIGN | NODE_BINOP | NODE_UNOP
| NODE_CALL | NODE_IF | NODE_WHILE | NODE_FOR | NODE_DEF | NODE_RETURN | NODE_BREAK
| NODE_CONTINUE | NODE_BLOCK | NODE_PRINT | NODE_RANGE | NODE_INPUT | NODE_INT_CAST

record Node =
  node_type :: NodeType
  node_line :: nat
  node_int :: u32
  node_str :: string
  node_op :: TokenType
  children :: "int list"

text \<open>A \<open>Value\<close> is a type tag with the one field that the tag selects.\<close>

datatype gk_value = VAL_INT u32 | VAL_STR string | VAL_BOOL bool | VAL_NONE

record Var =
  var_name :: string
  var_val :: gk_value
  var_scope :: nat

record FuncDef =
  fun_name :: string
  params :: "string list"
  body_node :: int

text \<open>The interpreter state. \<open>out\<close> collects the strings passed to \<open>gk_print\<close>, newest first;
  \<open>in_lines\<close> are the lines that the calls of \<open>input\<close> deliver, \<open>in_pos\<close> counts those calls.\<close>

record GkState =
  nodes :: "Node list"
  tokens :: "Token list"
  tok_pos :: nat
  vars :: "Var list"
  funcs :: "FuncDef list"
  call_depth :: nat
  returning :: bool
  breaking :: bool
  continuing :: bool
  return_val :: gk_value
  gk_error :: string
  out :: "string list"
  in_lines :: "nat \<Rightarrow> string"
  in_pos :: nat

definition set_error :: "string \<Rightarrow> GkState \<Rightarrow> GkState" where
  "set_error msg s = s\<lparr>gk_error := msg\<rparr>"

definition gk_print :: "string \<Rightarrow> GkState \<Rightarrow> GkState" where
  "gk_print str s = s\<lparr>out := str # out s\<rparr>"

end
