(* ===== verification/Gk_Lexer.thy ===== *)
theory Gk_Lexer
  imports Gk_State
begin

text \<open>
  The GK lexer (\<open>kernel/gk/gk_lexer.c\<close>). The position in the source is the suffix still to be
  read. \<open>gk_lex\<close> has the value \<open>None\<close> where the C code would write past the 64 entries of the indentation
  stack.
\<close>

section \<open>Characters and tokens\<close>

definition is_digit :: "char \<Rightarrow> bool" where
  "is_digit c \<longleftrightarrow> 48 \<le> (of_char c :: nat) \<and> (of_char c :: nat) \<le> 57"

definition is_alpha :: "char \<Rightarrow> bool" where
  "is_alpha c \<longleftrightarrow> 97 \<le> (of_char c :: nat) \<and> (of_char c :: nat) \<le> 122 \<or>
     65 \<le> (of_char c :: nat) \<and> (of_char c :: nat) \<le> 90 \<or> c = CHR ''_''"

definition is_alnum :: "char \<Rightarrow> bool" where
  "is_alnum c \<longleftrightarrow> is_alpha c \<or> is_digit c"

definition is_space :: "char \<Rightarrow> bool" where
  "is_space c \<longleftrightarrow> c = CHR '' '' \<or> c = CHR 0x09"

definition digit_val :: "char \<Rightarrow> u32" where
  "digit_val c = of_nat (of_char c) - 48"

definition KEYWORDS :: "(string \<times> TokenType) list" where
  "KEYWORDS = [(''if'', TOK_IF), (''elif'', TOK_ELIF), (''else'', TOK_ELSE), (''while'', TOK_WHILE),
     (''for'', TOK_FOR), (''in'', TOK_IN), (''def'', TOK_DEF), (''return'', TOK_RETURN),
     (''break'', TOK_BREAK), (''continue'', TOK_CONTINUE), (''and'', TOK_AND), (''or'', TOK_OR),
     (''not'', TOK_NOT), (''True'', TOK_TRUE), (''False'', TOK_FALSE)]"

definition keyword :: "string \<Rightarrow> TokenType" where
  "keyword buf = (case map_of KEYWORDS buf of None \<Rightarrow> TOK_IDENT | Some t \<Rightarrow> t)"

definition push_token :: "Token \<Rightarrow> GkState \<Rightarrow> bool \<times> GkState" where
  "push_token t s =
     (if GK_MAX_TOKENS \<le> length (tokens s) then (False, set_error ''too many tokens'' s)
      else (True, s\<lparr>tokens := tokens s @ [t]\<rparr>))"

definition emit :: "TokenType \<Rightarrow> nat \<Rightarrow> GkState \<Rightarrow> bool \<times> GkState" where
  "emit t line = push_token \<lparr>tok_type = t, tok_int = 0, tok_str = [], tok_line = line\<rparr>"

definition emit_int :: "u32 \<Rightarrow> nat \<Rightarrow> GkState \<Rightarrow> bool \<times> GkState" where
  "emit_int v line = push_token \<lparr>tok_type = TOK_INT, tok_int = v, tok_str = [], tok_line = line\<rparr>"

definition emit_str :: "TokenType \<Rightarrow> string \<Rightarrow> nat \<Rightarrow> GkState \<Rightarrow> bool \<times> GkState" where
  "emit_str t str line = push_token \<lparr>tok_type = t, tok_int = 0, tok_str = str, tok_line = line\<rparr>"

section \<open>One token\<close>

fun lex_int :: "u32 \<Rightarrow> string \<Rightarrow> u32 \<times> string" where
  "lex_int v [] = (v, [])"
| "lex_int v (c # cs) = (if is_digit c then lex_int (v * 10 + digit_val c) cs else (v, c # cs))"

definition escape :: "char \<Rightarrow> char" where
  "escape c = (if c = CHR ''n'' then CHR 0x0A else if c = CHR ''t'' then CHR 0x09 else c)"

fun lex_str :: "char \<Rightarrow> string \<Rightarrow> string \<Rightarrow> string \<times> string" where
  "lex_str quote buf [] = (buf, [])"
| "lex_str quote buf [c] = (if c = quote then (buf, [c]) else (buf @ [c], []))"
| "lex_str quote buf (c # d # cs) =
     (if c = quote then (buf, c # d # cs)
      else if c = CHR 0x5C
      then (if GK_MAX_STR - 1 \<le> length buf + 1 then (buf @ [escape d], cs)
            else lex_str quote (buf @ [escape d]) cs)
      else (if GK_MAX_STR - 1 \<le> length buf + 1 then (buf @ [c], d # cs)
            else lex_str quote (buf @ [c]) (d # cs)))"

fun lex_ident :: "string \<Rightarrow> string \<Rightarrow> string \<times> string" where
  "lex_ident buf [] = (buf, [])"
| "lex_ident buf (c # cs) =
     (if is_alnum c \<and> length buf < 63 then lex_ident (buf @ [c]) cs else (buf, c # cs))"

definition single_op :: "char \<Rightarrow> TokenType option" where
  "single_op c =
     map_of [(CHR ''+'', TOK_PLUS), (CHR ''-'', TOK_MINUS), (CHR ''*'', TOK_STAR),
       (CHR ''/'', TOK_SLASH), (CHR ''%'', TOK_PERCENT), (CHR ''<'', TOK_LT), (CHR ''>'', TOK_GT),
       (CHR ''='', TOK_ASSIGN), (CHR ''('', TOK_LPAREN), (CHR '')'', TOK_RPAREN),
       (CHR '','', TOK_COMMA), (CHR '':'', TOK_COLON)] c"

definition double_op :: "char \<Rightarrow> TokenType option" where
  "double_op c =
     map_of [(CHR ''='', TOK_EQ), (CHR ''!'', TOK_NEQ), (CHR ''<'', TOK_LE), (CHR ''>'', TOK_GE)] c"

text \<open>The token at \<open>c # cs\<close>: whether lexing goes on, the rest, and the new state. The results of
  \<open>emit\<close> for operators are ignored, as in the source.\<close>

definition lex_token :: "nat \<Rightarrow> char \<Rightarrow> string \<Rightarrow> GkState \<Rightarrow> bool \<times> string \<times> GkState" where
  "lex_token line c cs s =
     (if is_space c then (True, cs, s)
      else if c = CHR ''#'' then (True, dropWhile (\<lambda>x. x \<noteq> CHR 0x0A) (c # cs), s)
      else if is_digit c
      then (case lex_int 0 (c # cs) of (v, r) \<Rightarrow> case emit_int v line s of (ok, s') \<Rightarrow> (ok, r, s'))
      else if c = CHR 0x22 \<or> c = CHR 0x27
      then (case lex_str c [] cs of (buf, r) \<Rightarrow>
              case emit_str TOK_STR buf line s of (ok, s') \<Rightarrow> (ok, tl r, s'))
      else if is_alpha c
      then (case lex_ident [] (c # cs) of (buf, r) \<Rightarrow>
              case emit_str (keyword buf) buf line s of (ok, s') \<Rightarrow> (ok, r, s'))
      else if cs \<noteq> [] \<and> hd cs = CHR ''='' \<and> double_op c \<noteq> None
      then (True, tl cs, snd (emit (the (double_op c)) line s))
      else case single_op c of
             None \<Rightarrow> (False, c # cs, set_error ''Unk'' s)
           | Some t \<Rightarrow> (True, cs, snd (emit t line s)))"

lemma lex_int_length: "length (snd (lex_int v cs)) \<le> length cs"
  by (induction v cs rule: lex_int.induct) auto

lemma lex_str_length: "length (snd (lex_str q buf cs)) \<le> length cs"
  by (induction q buf cs rule: lex_str.induct) auto

lemma lex_ident_length: "length (snd (lex_ident buf cs)) \<le> length cs"
  by (induction buf cs rule: lex_ident.induct) auto

lemma lex_token_length:
  assumes "lex_token line c cs s = (True, r, s')"
  shows "length r \<le> length cs"
proof -
  have d: "length (dropWhile P cs) \<le> length cs" for P
    by (simp add: length_dropWhile_le)
  have i: "is_digit c \<Longrightarrow> length (snd (lex_int 0 (c # cs))) \<le> length cs"
    using lex_int_length [of "digit_val c" cs] by simp
  have a: "is_alpha c \<Longrightarrow> length (snd (lex_ident [] (c # cs))) \<le> length cs"
    using lex_ident_length [of "[c]" cs] by (simp add: is_alnum_def)
  have "length (tl (snd (lex_str c [] cs))) \<le> length cs"
    using lex_str_length [of c "[]" cs] by simp
  then show ?thesis
    using assms d i a unfolding lex_token_def
    by (auto split: if_splits prod.splits option.splits)
qed

section \<open>Lines and indentation\<close>

text \<open>The tokens up to the end of the line.\<close>

function lex_line :: "nat \<Rightarrow> string \<Rightarrow> GkState \<Rightarrow> bool \<times> string \<times> GkState" where
  "lex_line line [] s = (True, [], s)"
| "lex_line line (c # cs) s =
     (if c = CHR 0x0A then (True, c # cs, s)
      else case lex_token line c cs s of
             (ok, r, s') \<Rightarrow> if ok then lex_line line r s' else (False, r, s'))"
  by pat_completeness auto
termination
  by (relation "measure (\<lambda>(line, cs, s). length cs)") (auto simp: less_Suc_eq_le dest: lex_token_length [OF sym])

fun dedent :: "nat \<Rightarrow> nat \<Rightarrow> nat list \<Rightarrow> GkState \<Rightarrow> bool \<times> nat list \<times> GkState" where
  "dedent line ind [] s = (True, [], s)"
| "dedent line ind (x # st) s =
     (if ind < x
      then (case emit TOK_DEDENT line s of
              (ok, s') \<Rightarrow> if ok then dedent line ind st s' else (False, st, s'))
      else (True, x # st, s))"

text \<open>The indentation of a line against the stack (innermost first, at the bottom 0).\<close>

definition lex_indent ::
  "nat \<Rightarrow> nat \<Rightarrow> nat list \<Rightarrow> GkState \<Rightarrow> (bool \<times> nat list \<times> GkState) option" where
  "lex_indent line ind st s =
     (if hd st < ind
      then (if 64 \<le> length st then None
            else case emit TOK_INDENT line s of (ok, s') \<Rightarrow> Some (ok, ind # st, s'))
      else Some (dedent line ind st s))"

definition count_indent :: "string \<Rightarrow> nat \<times> string" where
  "count_indent cs =
     (let sp = takeWhile (\<lambda>c. c = CHR '' '') cs;
          r = dropWhile (\<lambda>c. c = CHR '' '') cs;
          tb = takeWhile (\<lambda>c. c = CHR 0x09) r
      in (length sp + 4 * length tb, dropWhile (\<lambda>c. c = CHR 0x09) r))"

fun final_dedents :: "nat \<Rightarrow> nat list \<Rightarrow> GkState \<Rightarrow> bool \<times> GkState" where
  "final_dedents line [] s = (True, s)"
| "final_dedents line [b] s = (True, s)"
| "final_dedents line (x # y # st) s =
     (case emit TOK_DEDENT line s of
        (ok, s') \<Rightarrow> if ok then final_dedents line (y # st) s' else (False, s'))"

lemma count_indent_length: "length (snd (count_indent cs)) \<le> length cs"
  unfolding count_indent_def Let_def
  by (metis length_dropWhile_le order_trans snd_conv)

lemma lex_line_length:
  "lex_line line cs s = (True, r, s') \<Longrightarrow> cs \<noteq> [] \<Longrightarrow> hd cs \<noteq> CHR 0x0A \<Longrightarrow> length r < length cs"
proof -
  have le: "lex_line line cs s = (True, r, s') \<Longrightarrow> length r \<le> length cs" for cs s
  proof (induction line cs s rule: lex_line.induct)
    case (2 line c cs s)
    show ?case
    proof (cases "c = CHR 0x0A")
      case True
      with 2 show ?thesis by simp
    next
      case False
      obtain ok q s1 where t: "lex_token line c cs s = (ok, q, s1)" by (cases "lex_token line c cs s")
      with False 2 have "ok" "lex_line line q s1 = (True, r, s')" by (auto split: if_splits)
      with 2 t False lex_token_length [of line c cs s q s1] show ?thesis by fastforce
    qed
  qed simp
  assume a: "lex_line line cs s = (True, r, s')" "cs \<noteq> []" "hd cs \<noteq> CHR 0x0A"
  then obtain c cs' where cs: "cs = c # cs'" "c \<noteq> CHR 0x0A" by (cases cs) auto
  obtain ok q s1 where t: "lex_token line c cs' s = (ok, q, s1)" by (cases "lex_token line c cs' s")
  with cs a have "ok" "lex_line line q s1 = (True, r, s')" by (auto split: if_splits)
  with t cs lex_token_length [of line c cs' s q s1] le [of q s1] show ?thesis by fastforce
qed

lemma blank_line_less:
  "count_indent cs = (ind, r) \<Longrightarrow> dropWhile P r = nl # r' \<Longrightarrow> length r' < length cs"
  using count_indent_length [of cs] length_dropWhile_le [of P r] by simp

lemma token_line_less:
  "count_indent cs = (ind, r) \<Longrightarrow> r \<noteq> [] \<Longrightarrow> hd r \<noteq> CHR 0x0A \<Longrightarrow>
     lex_line line r s1 = (True, nl # r', s2) \<Longrightarrow> length r' < length cs"
  using count_indent_length [of cs] lex_line_length [of line r s1 "nl # r'" s2] by simp

function lex_lines :: "nat \<Rightarrow> nat list \<Rightarrow> string \<Rightarrow> GkState \<Rightarrow> (bool \<times> GkState) option" where
  "lex_lines line st [] s =
     (case final_dedents line st s of
        (ok, s') \<Rightarrow> Some (if ok then emit TOK_EOF line s' else (False, s')))"
| "lex_lines line st (c # cs) s =
     (case count_indent (c # cs) of (ind, r) \<Rightarrow>
        if r = [] \<or> hd r = CHR 0x0A \<or> hd r = CHR ''#''
        then (case dropWhile (\<lambda>x. x \<noteq> CHR 0x0A) r of
                [] \<Rightarrow> lex_lines line st [] s
              | nl # r' \<Rightarrow> lex_lines (line + 1) st r' s)
        else (case lex_indent line ind st s of
                None \<Rightarrow> None
              | Some (ok, st', s1) \<Rightarrow>
                  if \<not> ok then Some (False, s1)
                  else (case lex_line line r s1 of
                          (ok, r', s2) \<Rightarrow>
                            if \<not> ok then Some (False, s2)
                            else (case emit TOK_NEWLINE line s2 of
                                    (ok, s3) \<Rightarrow>
                                      if \<not> ok then Some (False, s3)
                                      else (case r' of
                                              [] \<Rightarrow> lex_lines line st' [] s3
                                            | nl # r'' \<Rightarrow> lex_lines (line + 1) st' r'' s3)))))"
  by pat_completeness auto
termination
proof (relation "measure (\<lambda>(line, st, cs, s). length cs)", goal_cases)
  case 3
  then show ?case by (auto dest: blank_line_less [OF sym])
next
  case 5
  then show ?case by (auto dest: token_line_less [OF sym _ _ sym])
qed auto

definition gk_lex :: "string \<Rightarrow> GkState \<Rightarrow> (bool \<times> GkState) option" where
  "gk_lex src s = lex_lines 1 [0] src (s\<lparr>tokens := [], tok_pos := 0\<rparr>)"

section \<open>What the lexer emits\<close>

definition occs :: "TokenType \<Rightarrow> Token list \<Rightarrow> nat" where
  "occs t ts = length (filter (\<lambda>x. tok_type x = t) ts)"

lemma occs_simps [simp]:
  "occs t [] = 0" "occs t (x # xs) = (if tok_type x = t then 1 else 0) + occs t xs"
  "occs t (xs @ ys) = occs t xs + occs t ys"
  by (simp_all add: occs_def)

text \<open>\<open>plain ts\<close>: no structural tokens among \<open>ts\<close>.\<close>

definition plain :: "Token list \<Rightarrow> bool" where
  "plain ts \<longleftrightarrow> occs TOK_EOF ts = 0 \<and> occs TOK_INDENT ts = 0 \<and> occs TOK_DEDENT ts = 0"

lemma push_tokenD:
  "push_token t s = (ok, s') \<Longrightarrow>
     (\<exists>ts. tokens s' = tokens s @ ts \<and> set ts \<subseteq> {t} \<and> (ok \<longrightarrow> ts = [t])) \<and>
     (length (tokens s) \<le> GK_MAX_TOKENS \<longrightarrow> length (tokens s') \<le> GK_MAX_TOKENS) \<and>
     tok_pos s' = tok_pos s \<and> nodes s' = nodes s"
  by (auto simp: push_token_def set_error_def split: if_splits)

lemma keyword_plain: "keyword b \<noteq> TOK_EOF" "keyword b \<noteq> TOK_INDENT" "keyword b \<noteq> TOK_DEDENT"
  by (auto simp: keyword_def KEYWORDS_def split: option.splits if_splits)

lemma op_plain:
  "single_op c = Some t \<Longrightarrow> t \<noteq> TOK_EOF \<and> t \<noteq> TOK_INDENT \<and> t \<noteq> TOK_DEDENT"
  "double_op c = Some t \<Longrightarrow> t \<noteq> TOK_EOF \<and> t \<noteq> TOK_INDENT \<and> t \<noteq> TOK_DEDENT"
  by (auto simp: single_op_def double_op_def split: if_splits)

definition lex_step :: "GkState \<Rightarrow> GkState \<Rightarrow> Token list \<Rightarrow> bool" where
  "lex_step s s' ts \<longleftrightarrow> tokens s' = tokens s @ ts \<and>
     (length (tokens s) \<le> GK_MAX_TOKENS \<longrightarrow> length (tokens s') \<le> GK_MAX_TOKENS) \<and>
     tok_pos s' = tok_pos s \<and> nodes s' = nodes s"

lemma lex_step_refl: "lex_step s s []"
  by (simp add: lex_step_def)

lemma lex_step_trans: "lex_step s s1 ts \<Longrightarrow> lex_step s1 s2 us \<Longrightarrow> lex_step s s2 (ts @ us)"
  by (auto simp: lex_step_def)

lemma push_token_step:
  assumes "push_token t s = (ok, s')"
  obtains ts where "lex_step s s' ts" "set ts \<subseteq> {t}" "ok \<Longrightarrow> ts = [t]"
  using push_tokenD [OF assms] by (auto simp: lex_step_def)

lemma plain_sub: "set ts \<subseteq> {t} \<Longrightarrow> tok_type t \<notin> {TOK_EOF, TOK_INDENT, TOK_DEDENT} \<Longrightarrow> plain ts"
  by (auto simp: plain_def occs_def filter_empty_conv)

lemma emit_plain_step:
  assumes "push_token t s = (ok, s')" "tok_type t \<notin> {TOK_EOF, TOK_INDENT, TOK_DEDENT}"
  shows "\<exists>ts. lex_step s s' ts \<and> plain ts"
  using assms by (metis push_token_step plain_sub)

lemma lex_token_step: "lex_token line c cs s = (ok, r, s') \<Longrightarrow> \<exists>ts. lex_step s s' ts \<and> plain ts"
proof -
  assume a: "lex_token line c cs s = (ok, r, s')"
  define G where "G x \<longleftrightarrow> (\<exists>ts. lex_step s x ts \<and> plain ts)" for x
  have e: "G (snd (push_token t s))" if "tok_type t \<notin> {TOK_EOF, TOK_INDENT, TOK_DEDENT}" for t
    unfolding G_def using emit_plain_step [OF _ that] by (metis prod.collapse)
  have "G (snd (emit_int v line s))" "G (snd (emit_str TOK_STR b line s))"
    "G (snd (emit_str (keyword b) b line s))" for v b
    using keyword_plain [of b] by (auto simp: emit_int_def emit_str_def intro!: e)
  moreover have "single_op c = Some t \<Longrightarrow> G (snd (emit t line s))"
    "double_op c = Some t \<Longrightarrow> G (snd (emit t line s))" for t
    using op_plain [of c t] by (auto simp: emit_def intro!: e)
  moreover have "G s" "G (set_error m s)" for m
    unfolding G_def by (rule exI [of _ "[]"]; simp add: lex_step_def plain_def set_error_def)+
  ultimately have "G (snd (snd (lex_token line c cs s)))"
    unfolding lex_token_def by (auto simp: case_prod_beta split: option.split)
  then show ?thesis by (simp add: a G_def)
qed

lemma lex_line_step: "lex_line line cs s = (ok, r, s') \<Longrightarrow> \<exists>ts. lex_step s s' ts \<and> plain ts"
proof (induction line cs s rule: lex_line.induct)
  case (1 line s)
  then show ?case by (auto simp: plain_def intro!: exI [of _ "[]"] lex_step_refl)
next
  case (2 line c cs s)
  obtain k q s1 where t: "lex_token line c cs s = (k, q, s1)" by (cases "lex_token line c cs s")
  then obtain ts where ts: "lex_step s s1 ts" "plain ts" using lex_token_step by blast
  show ?case
  proof (cases "c = CHR 0x0A \<or> \<not> k")
    case True
    then show ?thesis
      using 2 t ts by (auto simp: plain_def split: if_splits intro: exI [of _ "[]"] lex_step_refl)
  next
    case False
    have "lex_line line q s1 = (ok, r, s')" using False 2(2) t by simp
    then obtain us where us: "lex_step s1 s' us" "plain us" 
      using 2(1) [OF _ t [symmetric] refl] False by blast
    have "plain (ts @ us)" using ts us by (simp add: plain_def)
    with lex_step_trans [OF ts(1) us(1)] show ?thesis by blast
  qed
qed

lemma emit_step:
  assumes "emit t line s = (ok, s')"
  obtains x ts where "tok_type x = t" "lex_step s s' ts" "set ts \<subseteq> {x}" "ok \<Longrightarrow> ts = [x]"
  using push_token_step [OF assms [unfolded emit_def]] by (metis Token.select_convs(1))

lemma emit_ok: "emit t line s = (ok, s') \<Longrightarrow> ok \<Longrightarrow> \<exists>d. tok_type d = t \<and> lex_step s s' [d]"
  by (rule emit_step) blast+

lemma dedent_step:
  "dedent line ind st s = (True, st', s') \<Longrightarrow>
     \<exists>ts. lex_step s s' ts \<and> occs TOK_EOF ts = 0 \<and> occs TOK_INDENT ts = 0 \<and>
       length st = length st' + occs TOK_DEDENT ts \<and> (st \<noteq> [] \<longrightarrow> last st = 0 \<longrightarrow> st' \<noteq> [] \<and> last st' = 0)"
proof (induction line ind st s rule: dedent.induct)
  case (1 line ind s)
  then show ?case by (auto intro!: exI [of _ "[]"] lex_step_refl)
next
  case (2 line ind x st s)
  show ?case
  proof (cases "ind < x")
    case False
    with 2(2) show ?thesis by (auto intro!: exI [of _ "[]"] lex_step_refl)
  next
    case True
    obtain ok s1 where e: "emit TOK_DEDENT line s = (ok, s1)" by fastforce
    with True 2(2) have ok: "ok" "dedent line ind st s1 = (True, st', s')" by (auto split: if_splits)
    obtain d where d: "tok_type d = TOK_DEDENT" "lex_step s s1 [d]" using emit_ok e ok(1) by blast
    obtain ts where ts: "lex_step s1 s' ts" "occs TOK_EOF ts = 0" "occs TOK_INDENT ts = 0"
      "length st = length st' + occs TOK_DEDENT ts"
      "st \<noteq> [] \<longrightarrow> last st = 0 \<longrightarrow> st' \<noteq> [] \<and> last st' = 0"
      using 2(1) [OF True e [symmetric] ok] by (elim exE conjE) (rule that)
    show ?thesis
      using lex_step_trans [OF d(2) ts(1)] d(1) ts True
      by (intro exI [of _ "[d] @ ts"]) auto
  qed
qed

lemma lex_indent_step:
  assumes "lex_indent line ind st s = Some (True, st', s')" "st \<noteq> []" "last st = 0"
  shows "\<exists>ts. lex_step s s' ts \<and> occs TOK_EOF ts = 0 \<and>
       length st + occs TOK_INDENT ts = length st' + occs TOK_DEDENT ts \<and> st' \<noteq> [] \<and> last st' = 0"
proof (cases "hd st < ind")
  case True
  obtain ok s1 where e: "emit TOK_INDENT line s = (ok, s1)" by fastforce
  with True assms have ok: "ok" "st' = ind # st" "s1 = s'"
    by (auto simp: lex_indent_def split: if_splits)
  obtain d where d: "tok_type d = TOK_INDENT" "lex_step s s' [d]" using emit_ok [OF e ok(1)] ok(3) by blast
  then show ?thesis using ok assms by (intro exI [of _ "[d]"]) auto
next
  case False
  with assms have "dedent line ind st s = (True, st', s')" by (simp add: lex_indent_def)
  from dedent_step [OF this] assms show ?thesis by fastforce
qed

lemma final_dedents_step:
  "final_dedents line st s = (True, s') \<Longrightarrow> st \<noteq> [] \<Longrightarrow>
     \<exists>ts. lex_step s s' ts \<and> occs TOK_EOF ts = 0 \<and> occs TOK_INDENT ts = 0 \<and>
       length st = Suc (occs TOK_DEDENT ts)"
proof (induction line st s rule: final_dedents.induct)
  case (2 line b s)
  then show ?case by (auto intro!: exI [of _ "[]"] lex_step_refl)
next
  case (3 line x y st s)
  obtain ok s1 where e: "emit TOK_DEDENT line s = (ok, s1)" by fastforce
  with 3(2) have ok: "ok" "final_dedents line (y # st) s1 = (True, s')" by (auto split: if_splits)
  obtain d where d: "tok_type d = TOK_DEDENT" "lex_step s s1 [d]" using emit_ok e ok(1) by blast
  obtain ts where ts: "lex_step s1 s' ts" "occs TOK_EOF ts = 0" "occs TOK_INDENT ts = 0"
    "length (y # st) = Suc (occs TOK_DEDENT ts)"
    using 3(1) [OF e [symmetric]] ok by blast
  show ?case
    using lex_step_trans [OF d(2) ts(1)] d(1) ts by (intro exI [of _ "[d] @ ts"]) auto
qed simp

text \<open>The token stream of a whole source text: end of file exactly at the end, indentation
  tokens balanced.\<close>

definition lexed :: "nat \<Rightarrow> Token list \<Rightarrow> bool" where
  "lexed n ts \<longleftrightarrow> (\<exists>us e. ts = us @ [e] \<and> tok_type e = TOK_EOF \<and> occs TOK_EOF us = 0 \<and>
     n + occs TOK_INDENT us = Suc (occs TOK_DEDENT us))"

lemma lexed_prepend:
  "lexed m ts \<Longrightarrow> occs TOK_EOF us = 0 \<Longrightarrow> n + occs TOK_INDENT us = m + occs TOK_DEDENT us \<Longrightarrow>
     lexed n (us @ ts)"
  unfolding lexed_def by (elim exE conjE) (rule_tac x = "us @ usa" in exI, auto)

lemma lex_lines_step:
  "lex_lines line st cs s = Some (True, s') \<Longrightarrow> st \<noteq> [] \<Longrightarrow> last st = 0 \<Longrightarrow>
     \<exists>ts. lex_step s s' ts \<and> lexed (length st) ts"
proof (induction line st cs s rule: lex_lines.induct)
  case (1 line st s)
  obtain ok s1 where f: "final_dedents line st s = (ok, s1)" by fastforce
  with 1 have ok: "ok" and e: "emit TOK_EOF line s1 = (True, s')" by (auto split: if_splits)
  obtain ts where ts: "lex_step s s1 ts" "occs TOK_EOF ts = 0" "occs TOK_INDENT ts = 0"
    "length st = Suc (occs TOK_DEDENT ts)" 
    using final_dedents_step [of line st s s1] f ok 1(2) by auto
  obtain d where d: "tok_type d = TOK_EOF" "lex_step s1 s' [d]" using emit_ok [OF e] by auto
  have "lexed (length st) (ts @ [d])" using ts d by (auto simp: lexed_def)
  with lex_step_trans [OF ts(1) d(2)] show ?case by blast
next
  case (2 line st c cs s)
  obtain ind r where ci: "count_indent (c # cs) = (ind, r)" by fastforce
  show ?case
  proof (cases "r = [] \<or> hd r = CHR 0x0A \<or> hd r = CHR ''#''")
    case True
    then show ?thesis
      using 2 ci by (auto split: list.splits)
  next
    case False
    obtain ok st1 s1 where li: "lex_indent line ind st s = Some (ok, st1, s1)"
      using 2(5) ci False by (auto split: option.splits)
    then have ok: "ok" using 2(5) ci False by (auto split: if_splits)
    obtain k r' s2 where ll: "lex_line line r s1 = (k, r', s2)" by (cases "lex_line line r s1")
    obtain k' s3 where em: "emit TOK_NEWLINE line s2 = (k', s3)" by fastforce
    have k: "k" "k'" using 2(5) ci False li ok ll em by (auto split: if_splits)
    obtain a where a: "lex_step s s1 a" "occs TOK_EOF a = 0"
      "length st + occs TOK_INDENT a = length st1 + occs TOK_DEDENT a" "st1 \<noteq> []" "last st1 = 0"
      using lex_indent_step li ok 2(6,7) by metis
    obtain b where b: "lex_step s1 s2 b" "plain b" using lex_line_step [OF ll] by blast
    obtain n where n: "tok_type n = TOK_NEWLINE" "lex_step s2 s3 [n]" using emit_ok em k(2) by blast
    have step: "lex_step s s3 (a @ b @ [n])" using lex_step_trans a(1) b(1) n(2) by blast
    have "\<exists>ts. lex_step s3 s' ts \<and> lexed (length st1) ts"
    proof (cases r')
      case Nil
      then show ?thesis using 2 ci False li ok ll em k a(4,5) by auto
    next
      case (Cons nl r'')
      then show ?thesis using 2 ci False li ok ll em k a(4,5) by auto
    qed
    then obtain ts where ts: "lex_step s3 s' ts" "lexed (length st1) ts" by blast
    have "lexed (length st) ((a @ b @ [n]) @ ts)"
      using a b n by (intro lexed_prepend [OF ts(2)]) (auto simp: plain_def)
    with lex_step_trans [OF step ts(1)] show ?thesis by blast
  qed
qed

lemma gk_lex_lexed:
  assumes "gk_lex src s = Some (True, s')"
  shows "lexed 1 (tokens s')" "length (tokens s') \<le> GK_MAX_TOKENS" "tok_pos s' = 0"
proof -
  obtain ts where "lex_step (s\<lparr>tokens := [], tok_pos := 0\<rparr>) s' ts" "lexed 1 ts"
    using lex_lines_step [OF assms [unfolded gk_lex_def]] by auto
  then show "lexed 1 (tokens s')" "length (tokens s') \<le> GK_MAX_TOKENS" "tok_pos s' = 0"
    by (auto simp: lex_step_def)
qed

text \<open>C14. Whenever \<open>gk_lex\<close> accepts a source text, the token array holds at most
  \<open>GK_MAX_TOKENS\<close> tokens, ends with the only \<open>TOK_EOF\<close>, and has as many \<open>TOK_DEDENT\<close> as \<open>TOK_INDENT\<close>
  tokens, whatever the indentation of the text.\<close>

theorem gk_lex_balanced:
  assumes "gk_lex src s = Some (True, s')"
  shows "tokens s' \<noteq> [] \<and> tok_type (last (tokens s')) = TOK_EOF \<and>
     occs TOK_EOF (butlast (tokens s')) = 0 \<and>
     occs TOK_INDENT (tokens s') = occs TOK_DEDENT (tokens s') \<and>
     length (tokens s') \<le> GK_MAX_TOKENS \<and> tok_pos s' = 0"
  using gk_lex_lexed [OF assms] by (auto simp: lexed_def)

definition gk_start :: GkState where
  "gk_start = \<lparr>nodes = [], tokens = [], tok_pos = 0, vars = [], funcs = [], call_depth = 0,
     returning = False, breaking = False, continuing = False, return_val = VAL_NONE,
     gk_error = [], out = [], in_lines = (\<lambda>n. []), in_pos = 0\<rparr>"

definition sample_src :: string where
  "sample_src = ''if x >= 10:'' @ [CHR 0x0A] @ ''    print(x)'' @ [CHR 0x0A]"

lemma sample_lexes: "map_option fst (gk_lex sample_src gk_start) = Some True"
  by code_simp

theorem gk_lex_balanced_witness:
  "\<exists>s'. gk_lex sample_src gk_start = Some (True, s') \<and> tokens s' \<noteq> []"
proof -
  obtain s' where s': "gk_lex sample_src gk_start = Some (True, s')" using sample_lexes by auto
  with gk_lex_balanced [OF s'] show ?thesis by blast
qed

end
