(* ===== verification/Gk_Parser.thy ===== *)
theory Gk_Parser
  imports Gk_Lexer
begin

text \<open>
  The GK parser (\<open>kernel/gk/gk_parser.c\<close>): recursive descent into an array of nodes. A parsing
  function returns the index of the node it built, or -1 with the error message set. The functions that
  recurse through \<open>parse_expr\<close> or \<open>parse_stmt\<close> take that function as an argument, and the recursion is
  closed with a depth bound; loops are bounded by the number of tokens. \<open>None\<close> means that a bound was
  reached, which is proved not to happen.
\<close>

section \<open>Helpers\<close>

type_synonym parser = "GkState \<Rightarrow> (int \<times> GkState) option"

definition new_node :: "NodeType \<Rightarrow> nat \<Rightarrow> GkState \<Rightarrow> int \<times> GkState" where
  "new_node t line s =
     (if GK_MAX_NODES \<le> length (nodes s) then (- 1, set_error ''too many AST nodes'' s)
      else (int (length (nodes s)),
            s\<lparr>nodes := nodes s @ [\<lparr>node_type = t, node_line = line, node_int = 0, node_str = [],
                node_op = TOK_INT, children = []\<rparr>]\<rparr>))"

definition node_at :: "GkState \<Rightarrow> int \<Rightarrow> Node" where
  "node_at s n = nodes s ! nat n"

definition upd_node :: "int \<Rightarrow> (Node \<Rightarrow> Node) \<Rightarrow> GkState \<Rightarrow> GkState" where
  "upd_node n f s = s\<lparr>nodes := (nodes s)[nat n := f (node_at s n)]\<rparr>"

definition eof_token :: Token where
  "eof_token = \<lparr>tok_type = TOK_EOF, tok_int = 0, tok_str = [], tok_line = 0\<rparr>"

text \<open>The position never leaves the token array, which ends with \<open>TOK_EOF\<close>; the second branch
  only makes the function total.\<close>

definition peek :: "GkState \<Rightarrow> Token" where
  "peek s = (if tok_pos s < length (tokens s) then tokens s ! tok_pos s else eof_token)"

definition advance :: "GkState \<Rightarrow> GkState" where
  "advance s = (if tok_type (peek s) \<noteq> TOK_EOF then s\<lparr>tok_pos := tok_pos s + 1\<rparr> else s)"

definition check :: "TokenType \<Rightarrow> GkState \<Rightarrow> bool" where
  "check t s \<longleftrightarrow> tok_type (peek s) = t"

definition match_tok :: "TokenType \<Rightarrow> GkState \<Rightarrow> bool \<times> GkState" where
  "match_tok t s = (if check t s then (True, advance s) else (False, s))"

definition expect :: "TokenType \<Rightarrow> string \<Rightarrow> GkState \<Rightarrow> bool \<times> GkState" where
  "expect t msg s = (case match_tok t s of (ok, s') \<Rightarrow> (ok, if ok then s' else set_error msg s'))"

function skip_newlines :: "GkState \<Rightarrow> GkState" where
  "skip_newlines s = (if check TOK_NEWLINE s then skip_newlines (advance s) else s)"
  by pat_completeness auto
termination
  by (relation "measure (\<lambda>s. length (tokens s) - tok_pos s)")
    (auto simp: check_def advance_def peek_def eof_token_def split: if_splits)

declare skip_newlines.simps [simp del]

text \<open>\<open>int n = p (s); if (n < 0) return -1;\<close> and the same for \<open>new_node\<close> and \<open>expect\<close>.\<close>

definition parse_then :: "(int \<times> GkState) option \<Rightarrow> (int \<Rightarrow> parser) \<Rightarrow> (int \<times> GkState) option" where
  "parse_then r f =
     (case r of None \<Rightarrow> None | Some (n, s) \<Rightarrow> if n < 0 then Some (- 1, s) else f n s)"

definition new_node_then :: "NodeType \<Rightarrow> nat \<Rightarrow> GkState \<Rightarrow> (int \<Rightarrow> parser) \<Rightarrow> (int \<times> GkState) option" where
  "new_node_then t line s f = parse_then (Some (new_node t line s)) f"

definition expect_then :: "TokenType \<Rightarrow> string \<Rightarrow> GkState \<Rightarrow> parser \<Rightarrow> (int \<times> GkState) option" where
  "expect_then t msg s f = (case expect t msg s of (ok, s') \<Rightarrow> if ok then f s' else Some (- 1, s'))"

definition add_child :: "int \<Rightarrow> Node \<Rightarrow> Node" where
  "add_child c n = n\<lparr>children := children n @ [c]\<rparr>"

definition set_children :: "int list \<Rightarrow> Node \<Rightarrow> Node" where
  "set_children cs n = n\<lparr>children := cs\<rparr>"

definition bound :: "GkState \<Rightarrow> nat" where
  "bound s = Suc (length (tokens s))"

section \<open>Expressions\<close>

definition builtin :: "string \<Rightarrow> NodeType" where
  "builtin name =
     (if name = ''int'' then NODE_INT_CAST
      else if name = ''input'' then NODE_INPUT
      else if name = ''range'' then NODE_RANGE
      else if name = ''print'' then NODE_PRINT
      else NODE_CALL)"

fun parse_args :: "parser \<Rightarrow> nat \<Rightarrow> int \<Rightarrow> parser" where
  "parse_args pe 0 n s = None"
| "parse_args pe (Suc k) n s =
     (if \<not> check TOK_RPAREN s \<and> \<not> check TOK_EOF s
      then parse_then (pe s) (\<lambda>arg s.
        if GK_MAX_CHILDREN \<le> length (children (node_at s n))
        then Some (- 1, set_error ''too many arguments'' s)
        else (case match_tok TOK_COMMA (upd_node n (add_child arg) s) of
                (ok, s) \<Rightarrow> if ok then parse_args pe k n s else Some (n, s)))
      else Some (n, s))"

definition parse_primary :: "parser \<Rightarrow> parser" where
  "parse_primary pe s =
     (let t = peek s; line = tok_line t in
      if tok_type t = TOK_INT
      then new_node_then NODE_INT line (advance s) (\<lambda>n s.
        Some (n, upd_node n (\<lambda>x. x\<lparr>node_int := tok_int t\<rparr>) s))
      else if tok_type t = TOK_STR
      then new_node_then NODE_STR line (advance s) (\<lambda>n s.
        Some (n, upd_node n (\<lambda>x. x\<lparr>node_str := tok_str t\<rparr>) s))
      else if tok_type t = TOK_TRUE \<or> tok_type t = TOK_FALSE
      then new_node_then NODE_BOOL line (advance s) (\<lambda>n s.
        Some (n, upd_node n (\<lambda>x. x\<lparr>node_int := if tok_type t = TOK_TRUE then 1 else 0\<rparr>) s))
      else if tok_type t = TOK_IDENT
      then (let s = advance s in
        if check TOK_LPAREN s
        then new_node_then (builtin (tok_str t)) line (advance s) (\<lambda>n s.
          parse_then (parse_args pe (bound s) n (upd_node n (\<lambda>x. x\<lparr>node_str := tok_str t\<rparr>) s)) (\<lambda>_ s.
            expect_then TOK_RPAREN ''expected ')' after arguments'' s (\<lambda>s. Some (n, s))))
        else new_node_then NODE_VAR line s (\<lambda>n s.
          Some (n, upd_node n (\<lambda>x. x\<lparr>node_str := tok_str t\<rparr>) s)))
      else if tok_type t = TOK_LPAREN
      then parse_then (pe (advance s)) (\<lambda>n s.
        expect_then TOK_RPAREN ''expected ')''  s (\<lambda>s. Some (n, s)))
      else Some (- 1, set_error ''unexpected token in expression'' s))"

definition mk_unop :: "TokenType \<Rightarrow> nat \<Rightarrow> int \<Rightarrow> parser" where
  "mk_unop op line operand s =
     new_node_then NODE_UNOP line s (\<lambda>n s.
       Some (n, upd_node n (\<lambda>x. set_children [operand] (x\<lparr>node_op := op\<rparr>)) s))"

fun parse_unary :: "parser \<Rightarrow> nat \<Rightarrow> parser" where
  "parse_unary pe 0 s = None"
| "parse_unary pe (Suc k) s =
     (let line = tok_line (peek s) in
      if check TOK_MINUS s
      then parse_then (parse_unary pe k (advance s)) (mk_unop TOK_MINUS line)
      else if check TOK_NOT s
      then parse_then (parse_unary pe k (advance s)) (mk_unop TOK_NOT line)
      else parse_primary pe s)"

definition mk_binop :: "TokenType \<Rightarrow> nat \<Rightarrow> int \<Rightarrow> int \<Rightarrow> parser" where
  "mk_binop op line left right s =
     new_node_then NODE_BINOP line s (\<lambda>n s.
       Some (n, upd_node n (\<lambda>x. set_children [left, right] (x\<lparr>node_op := op\<rparr>)) s))"

text \<open>The loop of the five binary levels, which differ in their operators and in the level below.\<close>

fun binop_loop :: "TokenType list \<Rightarrow> parser \<Rightarrow> nat \<Rightarrow> int \<Rightarrow> parser" where
  "binop_loop ops sub 0 left s = None"
| "binop_loop ops sub (Suc k) left s =
     (if tok_type (peek s) \<in> set ops
      then (let op = tok_type (peek s); line = tok_line (peek s) in
        parse_then (sub (advance s)) (\<lambda>right s.
          parse_then (mk_binop op line left right s) (\<lambda>n s. binop_loop ops sub k n s)))
      else Some (left, s))"

definition parse_binop :: "TokenType list \<Rightarrow> parser \<Rightarrow> parser" where
  "parse_binop ops sub s = parse_then (sub s) (\<lambda>left s. binop_loop ops sub (bound s) left s)"

definition parse_mul :: "parser \<Rightarrow> parser" where
  "parse_mul pe = parse_binop [TOK_STAR, TOK_SLASH, TOK_PERCENT] (\<lambda>s. parse_unary pe (bound s) s)"

definition parse_add :: "parser \<Rightarrow> parser" where
  "parse_add pe = parse_binop [TOK_PLUS, TOK_MINUS] (parse_mul pe)"

definition parse_cmp :: "parser \<Rightarrow> parser" where
  "parse_cmp pe = parse_binop [TOK_EQ, TOK_NEQ, TOK_LT, TOK_LE, TOK_GT, TOK_GE] (parse_add pe)"

definition parse_and :: "parser \<Rightarrow> parser" where
  "parse_and pe = parse_binop [TOK_AND] (parse_cmp pe)"

definition parse_or :: "parser \<Rightarrow> parser" where
  "parse_or pe = parse_binop [TOK_OR] (parse_and pe)"

fun parse_expr_depth :: "nat \<Rightarrow> parser" where
  "parse_expr_depth 0 s = None"
| "parse_expr_depth (Suc k) s = parse_or (parse_expr_depth k) s"

definition parse_expr :: parser where
  "parse_expr s = parse_expr_depth (bound s) s"

section \<open>Statements\<close>

fun block_loop :: "parser \<Rightarrow> nat \<Rightarrow> int \<Rightarrow> parser" where
  "block_loop ps 0 block s = None"
| "block_loop ps (Suc k) block s =
     (if \<not> check TOK_DEDENT s \<and> \<not> check TOK_EOF s
      then parse_then (ps s) (\<lambda>st s.
        if GK_MAX_CHILDREN \<le> length (children (node_at s block))
        then Some (- 1, set_error ''block too large'' s)
        else block_loop ps k block (skip_newlines (upd_node block (add_child st) s)))
      else Some (block, snd (match_tok TOK_DEDENT s)))"

definition parse_block :: "parser \<Rightarrow> parser" where
  "parse_block ps s =
     (let line = tok_line (peek s) in
      expect_then TOK_INDENT ''expected indented block'' s (\<lambda>s.
        new_node_then NODE_BLOCK line s (\<lambda>block s.
          block_loop ps (bound s) block (skip_newlines s))))"

fun parse_params :: "nat \<Rightarrow> int \<Rightarrow> parser" where
  "parse_params 0 n s = None"
| "parse_params (Suc k) n s =
     (if \<not> check TOK_RPAREN s \<and> \<not> check TOK_EOF s
      then (let param = peek s in
        if tok_type param \<noteq> TOK_IDENT then Some (- 1, set_error ''expected parameter name'' s)
        else new_node_then NODE_VAR (tok_line param) (advance s) (\<lambda>pn s.
          case match_tok TOK_COMMA (upd_node n (add_child pn)
                 (upd_node pn (\<lambda>x. x\<lparr>node_str := tok_str param\<rparr>) s)) of
            (ok, s) \<Rightarrow> if ok then parse_params k n s else Some (n, s)))
      else Some (n, s))"

definition parse_return :: "nat \<Rightarrow> parser" where
  "parse_return line s =
     new_node_then NODE_RETURN line (advance s) (\<lambda>n s.
       if \<not> check TOK_NEWLINE s \<and> \<not> check TOK_EOF s
       then parse_then (parse_expr s) (\<lambda>expr s.
         Some (n, snd (match_tok TOK_NEWLINE (upd_node n (set_children [expr]) s))))
       else Some (n, snd (match_tok TOK_NEWLINE s)))"

definition parse_def :: "parser \<Rightarrow> nat \<Rightarrow> parser" where
  "parse_def ps line s =
     (let s = advance s; name = peek s in
      if tok_type name \<noteq> TOK_IDENT
      then Some (- 1, set_error (''expected function name after 'def'' @ [CHR 0x27]) s)
      else new_node_then NODE_DEF line (advance s) (\<lambda>n s.
        expect_then TOK_LPAREN ''expected '(' after function name''
          (upd_node n (\<lambda>x. x\<lparr>node_str := tok_str name\<rparr>) s) (\<lambda>s.
          parse_then (parse_params (bound s) n s) (\<lambda>_ s.
            expect_then TOK_RPAREN ''expected ')' after parameters'' s (\<lambda>s.
              expect_then TOK_COLON ''expected ':' after def'' s (\<lambda>s.
                parse_then (parse_block ps (snd (match_tok TOK_NEWLINE s))) (\<lambda>body s.
                  Some (n, upd_node n (add_child body) s))))))))"

text \<open>Condition (or iterable), colon, and block of \<open>if\<close>, \<open>while\<close> and \<open>for\<close>.\<close>

definition parse_head :: "parser \<Rightarrow> string \<Rightarrow> int \<Rightarrow> parser \<Rightarrow> parser" where
  "parse_head ps msg n f s =
     parse_then (parse_expr s) (\<lambda>cond s.
       expect_then TOK_COLON msg s (\<lambda>s.
         parse_then (parse_block ps (snd (match_tok TOK_NEWLINE s))) (\<lambda>body s.
           f (upd_node n (set_children [cond, body]) s))))"

definition parse_if :: "parser \<Rightarrow> nat \<Rightarrow> parser" where
  "parse_if ps line s =
     new_node_then NODE_IF line (advance s) (\<lambda>n.
       parse_head ps ''expected ':' after if condition'' n (\<lambda>s.
         let s = skip_newlines s in
         if check TOK_ELIF s
         then parse_then (ps s) (\<lambda>elif_node s. Some (n, upd_node n (add_child elif_node) s))
         else if check TOK_ELSE s
         then expect_then TOK_COLON ''expected ':' after else'' (advance s) (\<lambda>s.
           parse_then (parse_block ps (snd (match_tok TOK_NEWLINE s))) (\<lambda>else_body s.
             Some (n, upd_node n (add_child else_body) s)))
         else Some (n, s)))"

definition parse_while :: "parser \<Rightarrow> nat \<Rightarrow> parser" where
  "parse_while ps line s =
     new_node_then NODE_WHILE line (advance s) (\<lambda>n.
       parse_head ps ''expected ':' after while condition'' n (\<lambda>s. Some (n, s)))"

definition parse_for :: "parser \<Rightarrow> nat \<Rightarrow> parser" where
  "parse_for ps line s =
     (let s = advance s; var = peek s in
      if tok_type var \<noteq> TOK_IDENT
      then Some (- 1, set_error (''expected variable name after 'for'' @ [CHR 0x27]) s)
      else expect_then TOK_IN ''expected 'in' after for variable'' (advance s) (\<lambda>s.
        new_node_then NODE_FOR line s (\<lambda>n s.
          parse_head ps ''expected ':' after for iterable'' n (\<lambda>s. Some (n, s))
            (upd_node n (\<lambda>x. x\<lparr>node_str := tok_str var\<rparr>) s))))"

definition parse_assign :: "nat \<Rightarrow> parser" where
  "parse_assign line s =
     (let name = tok_str (peek s) in
      new_node_then NODE_ASSIGN line (advance (advance s)) (\<lambda>n s.
        parse_then (parse_expr (upd_node n (\<lambda>x. x\<lparr>node_str := name\<rparr>) s)) (\<lambda>expr s.
          Some (n, snd (match_tok TOK_NEWLINE (upd_node n (set_children [expr]) s))))))"

definition parse_stmt_body :: "parser \<Rightarrow> parser" where
  "parse_stmt_body ps s =
     (let t = peek s; line = tok_line t in
      if tok_type t = TOK_RETURN then parse_return line s
      else if tok_type t = TOK_BREAK
      then Some (new_node NODE_BREAK line (snd (match_tok TOK_NEWLINE (advance s))))
      else if tok_type t = TOK_CONTINUE
      then Some (new_node NODE_CONTINUE line (snd (match_tok TOK_NEWLINE (advance s))))
      else if tok_type t = TOK_DEF then parse_def ps line s
      else if tok_type t = TOK_IF \<or> tok_type t = TOK_ELIF then parse_if ps line s
      else if tok_type t = TOK_WHILE then parse_while ps line s
      else if tok_type t = TOK_FOR then parse_for ps line s
      else if tok_type t = TOK_IDENT \<and> tok_pos s + 1 < length (tokens s) \<and>
              tok_type (tokens s ! (tok_pos s + 1)) = TOK_ASSIGN
      then parse_assign line s
      else parse_then (parse_expr s) (\<lambda>expr s. Some (expr, snd (match_tok TOK_NEWLINE s))))"

fun parse_stmt_depth :: "nat \<Rightarrow> parser" where
  "parse_stmt_depth 0 s = None"
| "parse_stmt_depth (Suc k) s = parse_stmt_body (parse_stmt_depth k) s"

definition parse_stmt :: parser where
  "parse_stmt s = parse_stmt_depth (bound s) s"

fun top_loop :: "nat \<Rightarrow> int \<Rightarrow> parser" where
  "top_loop 0 root s = None"
| "top_loop (Suc k) root s =
     (if \<not> check TOK_EOF s
      then parse_then (parse_stmt s) (\<lambda>st s.
        if GK_MAX_CHILDREN \<le> length (children (node_at s root))
        then Some (- 1, set_error ''too many top-level statements'' s)
        else top_loop k root (skip_newlines (upd_node root (add_child st) s)))
      else Some (root, s))"

definition gk_parse :: parser where
  "gk_parse s =
     new_node_then NODE_BLOCK 0 (s\<lparr>nodes := [], tok_pos := 0\<rparr>) (\<lambda>root s.
       top_loop (bound s) root (skip_newlines s))"

end
