(* ===== verification/Gk_Interp.thy ===== *)
theory Gk_Interp
  imports Gk_Parser
begin

text \<open>
  The GK interpreter (\<open>kernel/gk/gk_interp.c\<close>): values, variables with their scopes, functions, and
  the evaluation of the node array. \<open>eval\<close> takes fuel because a script may loop for ever; \<open>None\<close> stands
  for an evaluation that does not finish within the fuel, or that traps in the one integer division that
  raises a processor exception.
\<close>

section \<open>Strings and values\<close>

definition strcat_s :: "string \<Rightarrow> string \<Rightarrow> string" where
  "strcat_s dst src = dst @ take (GK_MAX_STR - 1 - length dst) src"

text \<open>The digits the loop of \<open>int_to_str\<close> stores, least significant first.\<close>

fun dec_rev :: "nat \<Rightarrow> string" where
  "dec_rev n = (if n = 0 then [] else char_of (48 + n mod 10) # dec_rev (n div 10))"

declare dec_rev.simps [simp del]

text \<open>The loop runs while the \<open>int\<close> is positive: not at all for a value that is still negative
  after the negation.\<close>

definition int_to_str :: "u32 \<Rightarrow> string" where
  "int_to_str v =
     (if v = 0 then ''0''
      else let neg = sint v < 0;
               w = (if neg then - v else v);
               tmp = dec_rev (nat (sint w)) @ (if neg then ''-'' else [])
           in rev tmp)"

definition is_truthy :: "gk_value \<Rightarrow> bool" where
  "is_truthy v =
     (case v of VAL_BOOL b \<Rightarrow> b | VAL_INT i \<Rightarrow> i \<noteq> 0 | VAL_STR str \<Rightarrow> str \<noteq> [] | VAL_NONE \<Rightarrow> False)"

definition val_to_str :: "gk_value \<Rightarrow> string" where
  "val_to_str v =
     (case v of VAL_INT i \<Rightarrow> int_to_str i
      | VAL_BOOL b \<Rightarrow> if b then ''True'' else ''False''
      | VAL_STR str \<Rightarrow> str
      | VAL_NONE \<Rightarrow> ''None'')"

fun parse_digits :: "u32 \<Rightarrow> string \<Rightarrow> u32 option" where
  "parse_digits r [] = Some r"
| "parse_digits r (c # cs) =
     (if is_digit c then parse_digits (r * 10 + digit_val c) cs else None)"

definition int_cast :: "string \<Rightarrow> u32 option" where
  "int_cast str =
     (let neg = (str \<noteq> [] \<and> hd str = CHR ''-'');
          p = (if neg then tl str else str)
      in if p = [] then None
         else map_option (\<lambda>r. if neg then - r else r) (parse_digits 0 p))"

section \<open>Variables and functions\<close>

definition find_var :: "string \<Rightarrow> GkState \<Rightarrow> Var option" where
  "find_var name s = find (\<lambda>x. var_name x = name) (rev (vars s))"

text \<open>The search of \<open>set_var\<close> from the newest variable down to the first one of an outer
  scope, on the reversed variable list.\<close>

fun update_var :: "nat \<Rightarrow> string \<Rightarrow> gk_value \<Rightarrow> Var list \<Rightarrow> Var list option" where
  "update_var depth name v [] = None"
| "update_var depth name v (x # xs) =
     (if var_scope x < depth then None
      else if var_name x = name then Some (x\<lparr>var_val := v\<rparr> # xs)
      else map_option (Cons x) (update_var depth name v xs))"

definition set_var :: "string \<Rightarrow> gk_value \<Rightarrow> GkState \<Rightarrow> bool \<times> GkState" where
  "set_var name v s =
     (case update_var (call_depth s) name v (rev (vars s)) of
        Some xs \<Rightarrow> (True, s\<lparr>vars := rev xs\<rparr>)
      | None \<Rightarrow>
          if GK_MAX_VARS \<le> length (vars s) then (False, set_error ''too many variables'' s)
          else (True, s\<lparr>vars := vars s @ [\<lparr>var_name = name, var_val = v, var_scope = call_depth s\<rparr>]\<rparr>))"

definition pop_scope :: "GkState \<Rightarrow> GkState" where
  "pop_scope s = s\<lparr>vars := rev (dropWhile (\<lambda>x. call_depth s \<le> var_scope x) (rev (vars s)))\<rparr>"

definition find_func :: "string \<Rightarrow> GkState \<Rightarrow> FuncDef option" where
  "find_func name s = find (\<lambda>f. fun_name f = name) (funcs s)"

section \<open>Evaluation\<close>

type_synonym evaluator = "int \<Rightarrow> GkState \<Rightarrow> (gk_value \<times> GkState) option"

abbreviation has_error :: "GkState \<Rightarrow> bool" where
  "has_error s \<equiv> gk_error s \<noteq> []"

definition fail :: "string \<Rightarrow> GkState \<Rightarrow> (gk_value \<times> GkState) option" where
  "fail msg s = Some (VAL_NONE, set_error msg s)"

definition child :: "Node \<Rightarrow> nat \<Rightarrow> int" where
  "child n i = (if i < length (children n) then children n ! i else - 1)"

text \<open>\<open>Value v = eval (s, c); if (s->error[0]) return val_none ();\<close>\<close>

definition eval_then ::
  "evaluator \<Rightarrow> int \<Rightarrow> GkState \<Rightarrow> (gk_value \<Rightarrow> GkState \<Rightarrow> (gk_value \<times> GkState) option) \<Rightarrow>
     (gk_value \<times> GkState) option" where
  "eval_then ev c s f =
     (case ev c s of
        None \<Rightarrow> None
      | Some (v, s') \<Rightarrow> if has_error s' then Some (VAL_NONE, s') else f v s')"

text \<open>Division of \<open>int\<close> truncates towards zero.\<close>

definition c_div :: "u32 \<Rightarrow> u32 \<Rightarrow> u32" where
  "c_div a b = word_of_int (sgn (sint a) * sgn (sint b) * (\<bar>sint a\<bar> div \<bar>sint b\<bar>))"

definition c_mod :: "u32 \<Rightarrow> u32 \<Rightarrow> u32" where
  "c_mod a b = word_of_int (sgn (sint a) * (\<bar>sint a\<bar> mod \<bar>sint b\<bar>))"

definition div_traps :: "u32 \<Rightarrow> u32 \<Rightarrow> bool" where
  "div_traps a b \<longleftrightarrow> a = 0x80000000 \<and> b = - 1"

definition int_op :: "TokenType \<Rightarrow> u32 \<Rightarrow> u32 \<Rightarrow> GkState \<Rightarrow> (gk_value \<times> GkState) option" where
  "int_op op a b s =
     (case op of
        TOK_PLUS \<Rightarrow> Some (VAL_INT (a + b), s)
      | TOK_MINUS \<Rightarrow> Some (VAL_INT (a - b), s)
      | TOK_STAR \<Rightarrow> Some (VAL_INT (a * b), s)
      | TOK_SLASH \<Rightarrow>
          if b = 0 then fail ''division by zero'' s
          else if div_traps a b then None else Some (VAL_INT (c_div a b), s)
      | TOK_PERCENT \<Rightarrow>
          if b = 0 then fail ''modulo by zero'' s
          else if div_traps a b then None else Some (VAL_INT (c_mod a b), s)
      | TOK_LT \<Rightarrow> Some (VAL_BOOL (sint a < sint b), s)
      | TOK_LE \<Rightarrow> Some (VAL_BOOL (sint a \<le> sint b), s)
      | TOK_GT \<Rightarrow> Some (VAL_BOOL (sint a > sint b), s)
      | TOK_GE \<Rightarrow> Some (VAL_BOOL (sint a \<ge> sint b), s)
      | _ \<Rightarrow> fail ''unknown operator'' s)"

definition val_eq :: "gk_value \<Rightarrow> gk_value \<Rightarrow> bool" where
  "val_eq l r =
     (case (l, r) of
        (VAL_INT a, VAL_INT b) \<Rightarrow> a = b
      | (VAL_BOOL a, VAL_BOOL b) \<Rightarrow> a = b
      | (VAL_STR a, VAL_STR b) \<Rightarrow> a = b
      | _ \<Rightarrow> False)"

definition apply_binop :: "TokenType \<Rightarrow> gk_value \<Rightarrow> gk_value \<Rightarrow> GkState \<Rightarrow> (gk_value \<times> GkState) option" where
  "apply_binop op l r s =
     (case (op, l) of
        (TOK_PLUS, VAL_STR a) \<Rightarrow> Some (VAL_STR (strcat_s a (val_to_str r)), s)
      | _ \<Rightarrow>
          if op = TOK_EQ then Some (VAL_BOOL (val_eq l r), s)
          else if op = TOK_NEQ then Some (VAL_BOOL (\<not> val_eq l r), s)
          else (case (l, r) of
                  (VAL_INT a, VAL_INT b) \<Rightarrow> int_op op a b s
                | _ \<Rightarrow> fail ''operator requires integers'' s))"

definition eval_binop :: "evaluator \<Rightarrow> Node \<Rightarrow> GkState \<Rightarrow> (gk_value \<times> GkState) option" where
  "eval_binop ev n s =
     (if node_op n = TOK_AND
      then (case ev (child n 0) s of
              None \<Rightarrow> None
            | Some (l, s) \<Rightarrow>
                if \<not> is_truthy l then Some (VAL_BOOL False, s)
                else map_option (\<lambda>(r, s). (VAL_BOOL (is_truthy r), s)) (ev (child n 1) s))
      else if node_op n = TOK_OR
      then (case ev (child n 0) s of
              None \<Rightarrow> None
            | Some (l, s) \<Rightarrow>
                if is_truthy l then Some (VAL_BOOL True, s)
                else map_option (\<lambda>(r, s). (VAL_BOOL (is_truthy r), s)) (ev (child n 1) s))
      else eval_then ev (child n 0) s (\<lambda>l s.
             eval_then ev (child n 1) s (\<lambda>r s. apply_binop (node_op n) l r s)))"

fun eval_print :: "evaluator \<Rightarrow> int list \<Rightarrow> GkState \<Rightarrow> (gk_value \<times> GkState) option" where
  "eval_print ev [] s = Some (VAL_NONE, gk_print [CHR 0x0A] s)"
| "eval_print ev (c # cs) s =
     eval_then ev c s (\<lambda>v s.
       let s = gk_print (val_to_str v) s
       in eval_print ev cs (if cs \<noteq> [] then gk_print '' '' s else s))"

definition read_line :: "GkState \<Rightarrow> (gk_value \<times> GkState) option" where
  "read_line s =
     Some (VAL_STR (in_lines s (in_pos s)), gk_print [CHR 0x0A] (s\<lparr>in_pos := in_pos s + 1\<rparr>))"

definition eval_input :: "evaluator \<Rightarrow> Node \<Rightarrow> GkState \<Rightarrow> (gk_value \<times> GkState) option" where
  "eval_input ev n s =
     (if children n \<noteq> []
      then eval_then ev (child n 0) s (\<lambda>prompt s. read_line (gk_print (val_to_str prompt) s))
      else read_line s)"

definition eval_int_cast :: "evaluator \<Rightarrow> Node \<Rightarrow> GkState \<Rightarrow> (gk_value \<times> GkState) option" where
  "eval_int_cast ev n s =
     (if length (children n) \<noteq> 1 then fail ''int() takes exactly one argument'' s
      else eval_then ev (child n 0) s (\<lambda>v s.
        case v of
          VAL_INT i \<Rightarrow> Some (v, s)
        | VAL_STR str \<Rightarrow>
            (case int_cast str of
               None \<Rightarrow> fail ''int() invalid literal'' s
             | Some i \<Rightarrow> Some (VAL_INT i, s))
        | _ \<Rightarrow> fail ''int() requires a string or integer argument'' s))"

fun eval_block :: "evaluator \<Rightarrow> int list \<Rightarrow> gk_value \<Rightarrow> GkState \<Rightarrow> (gk_value \<times> GkState) option" where
  "eval_block ev [] res s = Some (res, s)"
| "eval_block ev (c # cs) res s =
     (case ev c s of
        None \<Rightarrow> None
      | Some (v, s) \<Rightarrow>
          if has_error s \<or> returning s \<or> breaking s \<or> continuing s then Some (v, s)
          else eval_block ev cs v s)"

definition eval_if :: "evaluator \<Rightarrow> Node \<Rightarrow> GkState \<Rightarrow> (gk_value \<times> GkState) option" where
  "eval_if ev n s =
     eval_then ev (child n 0) s (\<lambda>cond s.
       if is_truthy cond then ev (child n 1) s
       else if length (children n) = 3 then ev (child n 2) s
       else Some (VAL_NONE, s))"

fun eval_while :: "evaluator \<Rightarrow> nat \<Rightarrow> Node \<Rightarrow> gk_value \<Rightarrow> GkState \<Rightarrow> (gk_value \<times> GkState) option" where
  "eval_while ev 0 n res s = None"
| "eval_while ev (Suc k) n res s =
     (case ev (child n 0) s of
        None \<Rightarrow> None
      | Some (cond, s) \<Rightarrow>
          if has_error s \<or> \<not> is_truthy cond then Some (res, s)
          else (case ev (child n 1) s of
                  None \<Rightarrow> None
                | Some (r, s) \<Rightarrow>
                    if has_error s \<or> returning s then Some (r, s)
                    else if breaking s then Some (r, s\<lparr>breaking := False\<rparr>)
                    else eval_while ev k n r (s\<lparr>continuing := False\<rparr>)))"

fun for_loop :: "evaluator \<Rightarrow> nat \<Rightarrow> u32 \<Rightarrow> Node \<Rightarrow> gk_value \<Rightarrow> GkState \<Rightarrow> (gk_value \<times> GkState) option" where
  "for_loop ev 0 i n res s = Some (res, s)"
| "for_loop ev (Suc m) i n res s =
     (case set_var (node_str n) (VAL_INT i) s of
        (ok, s) \<Rightarrow>
          if \<not> ok then Some (VAL_NONE, s)
          else (case ev (child n 1) s of
                  None \<Rightarrow> None
                | Some (r, s) \<Rightarrow>
                    if has_error s \<or> returning s then Some (r, s)
                    else if breaking s then Some (r, s\<lparr>breaking := False\<rparr>)
                    else for_loop ev m (i + 1) n r (s\<lparr>continuing := False\<rparr>)))"

definition eval_for :: "evaluator \<Rightarrow> Node \<Rightarrow> GkState \<Rightarrow> (gk_value \<times> GkState) option" where
  "eval_for ev n s =
     (let iter = node_at s (child n 0) in
      if node_type iter = NODE_RANGE
      then (if children iter = [] then fail ''range() needs one argument'' s
            else eval_then ev (child iter 0) s (\<lambda>v s.
              case v of
                VAL_INT limit \<Rightarrow> for_loop ev (nat (sint limit)) 0 n VAL_NONE s
              | _ \<Rightarrow> fail ''range() argument must be integer'' s))
      else eval_then ev (child n 0) s (\<lambda>v s.
        case v of
          VAL_INT limit \<Rightarrow> for_loop ev (nat (sint limit)) 0 n VAL_NONE s
        | _ \<Rightarrow> fail ''for loop requires integer or range()'' s))"

definition eval_def :: "Node \<Rightarrow> GkState \<Rightarrow> (gk_value \<times> GkState) option" where
  "eval_def n s =
     (if GK_MAX_FUNCS \<le> length (funcs s) then fail ''too many function definitions'' s
      else Some (VAL_NONE,
        s\<lparr>funcs := funcs s @ [\<lparr>fun_name = node_str n,
             params = map (\<lambda>c. node_str (node_at s c)) (take GK_MAX_PARAMS (butlast (children n))),
             body_node = child n (length (children n) - 1)\<rparr>]\<rparr>))"

fun eval_args :: "evaluator \<Rightarrow> int list \<Rightarrow> GkState \<Rightarrow> (gk_value list \<times> GkState) option" where
  "eval_args ev [] s = Some ([], s)"
| "eval_args ev (c # cs) s =
     (case ev c s of
        None \<Rightarrow> None
      | Some (v, s) \<Rightarrow>
          if has_error s then Some ([], s)
          else map_option (\<lambda>(vs, s). (v # vs, s)) (eval_args ev cs s))"

fun bind_params :: "string list \<Rightarrow> gk_value list \<Rightarrow> GkState \<Rightarrow> bool \<times> GkState" where
  "bind_params (p # ps) (v # vs) s =
     (case set_var p v s of (ok, s) \<Rightarrow> if ok then bind_params ps vs s else (False, s))"
| "bind_params _ _ s = (True, s)"

definition call_body :: "evaluator \<Rightarrow> FuncDef \<Rightarrow> gk_value list \<Rightarrow> GkState \<Rightarrow> (gk_value \<times> GkState) option" where
  "call_body ev f args s =
     (case bind_params (params f) args (s\<lparr>call_depth := call_depth s + 1\<rparr>) of
        (ok, s) \<Rightarrow>
          if \<not> ok then Some (VAL_NONE, s\<lparr>call_depth := call_depth s - 1\<rparr>)
          else (case ev (body_node f) s of
                  None \<Rightarrow> None
                | Some (r, s) \<Rightarrow>
                    let res = (if returning s then return_val s else r);
                        s = pop_scope (s\<lparr>returning := False\<rparr>)
                    in Some (res, s\<lparr>call_depth := call_depth s - 1\<rparr>)))"

definition eval_call :: "evaluator \<Rightarrow> Node \<Rightarrow> GkState \<Rightarrow> (gk_value \<times> GkState) option" where
  "eval_call ev n s =
     (case find_func (node_str n) s of
        None \<Rightarrow> fail (strcat_s ''undefined function: '' (node_str n)) s
      | Some f \<Rightarrow>
          if length (children n) \<noteq> length (params f) then fail ''wrong number of arguments'' s
          else if GK_MAX_CALL_DEPTH \<le> call_depth s then fail ''max call depth exceeded'' s
          else (case eval_args ev (children n) s of
                  None \<Rightarrow> None
                | Some (args, s) \<Rightarrow>
                    if has_error s then Some (VAL_NONE, s) else call_body ev f args s))"

definition eval_return :: "evaluator \<Rightarrow> Node \<Rightarrow> GkState \<Rightarrow> (gk_value \<times> GkState) option" where
  "eval_return ev n s =
     (if children n \<noteq> []
      then eval_then ev (child n 0) s (\<lambda>v s. Some (v, s\<lparr>returning := True, return_val := v\<rparr>))
      else Some (VAL_NONE, s\<lparr>returning := True, return_val := VAL_NONE\<rparr>))"

definition eval_unop :: "evaluator \<Rightarrow> Node \<Rightarrow> GkState \<Rightarrow> (gk_value \<times> GkState) option" where
  "eval_unop ev n s =
     eval_then ev (child n 0) s (\<lambda>v s.
       if node_op n = TOK_MINUS
       then (case v of VAL_INT i \<Rightarrow> Some (VAL_INT (- i), s) | _ \<Rightarrow> fail ''unary minus requires integer'' s)
       else if node_op n = TOK_NOT then Some (VAL_BOOL (\<not> is_truthy v), s)
       else Some (VAL_NONE, s))"

definition eval_var :: "Node \<Rightarrow> GkState \<Rightarrow> (gk_value \<times> GkState) option" where
  "eval_var n s =
     (case find_var (node_str n) s of
        None \<Rightarrow> fail (strcat_s ''undefined variable: '' (node_str n)) s
      | Some x \<Rightarrow> Some (var_val x, s))"

definition eval_assign :: "evaluator \<Rightarrow> Node \<Rightarrow> GkState \<Rightarrow> (gk_value \<times> GkState) option" where
  "eval_assign ev n s =
     eval_then ev (child n 0) s (\<lambda>v s.
       case set_var (node_str n) v s of (ok, s) \<Rightarrow> Some (if ok then v else VAL_NONE, s))"

definition eval_node :: "evaluator \<Rightarrow> nat \<Rightarrow> Node \<Rightarrow> GkState \<Rightarrow> (gk_value \<times> GkState) option" where
  "eval_node ev k n s =
     (case node_type n of
        NODE_INT \<Rightarrow> Some (VAL_INT (node_int n), s)
      | NODE_STR \<Rightarrow> Some (VAL_STR (node_str n), s)
      | NODE_BOOL \<Rightarrow> Some (VAL_BOOL (node_int n \<noteq> 0), s)
      | NODE_VAR \<Rightarrow> eval_var n s
      | NODE_ASSIGN \<Rightarrow> eval_assign ev n s
      | NODE_UNOP \<Rightarrow> eval_unop ev n s
      | NODE_BINOP \<Rightarrow> eval_binop ev n s
      | NODE_PRINT \<Rightarrow> eval_print ev (children n) s
      | NODE_INPUT \<Rightarrow> eval_input ev n s
      | NODE_INT_CAST \<Rightarrow> eval_int_cast ev n s
      | NODE_BLOCK \<Rightarrow> eval_block ev (children n) VAL_NONE s
      | NODE_IF \<Rightarrow> eval_if ev n s
      | NODE_WHILE \<Rightarrow> eval_while ev k n VAL_NONE s
      | NODE_FOR \<Rightarrow> eval_for ev n s
      | NODE_DEF \<Rightarrow> eval_def n s
      | NODE_CALL \<Rightarrow> eval_call ev n s
      | NODE_RETURN \<Rightarrow> eval_return ev n s
      | NODE_BREAK \<Rightarrow> Some (VAL_NONE, s\<lparr>breaking := True\<rparr>)
      | NODE_CONTINUE \<Rightarrow> Some (VAL_NONE, s\<lparr>continuing := True\<rparr>)
      | NODE_RANGE \<Rightarrow> fail ''unknown node type'' s)"

fun eval :: "nat \<Rightarrow> evaluator" where
  "eval 0 i s = None"
| "eval (Suc k) i s =
     (if i < 0 \<or> has_error s then Some (VAL_NONE, s)
      else eval_node (\<lambda>j t. eval k j t) k (node_at s i) s)"

section \<open>Running a script\<close>

definition gk_init :: "GkState \<Rightarrow> GkState" where
  "gk_init s = s\<lparr>nodes := [], tokens := [], tok_pos := 0, vars := [], funcs := [], call_depth := 0,
     returning := False, breaking := False, continuing := False, gk_error := [], return_val := VAL_NONE\<rparr>"

definition report :: "string \<Rightarrow> GkState \<Rightarrow> GkState" where
  "report what s = gk_print [CHR 0x0A] (gk_print (gk_error s) (gk_print what s))"

definition gk_run :: "nat \<Rightarrow> string \<Rightarrow> GkState \<Rightarrow> (bool \<times> GkState) option" where
  "gk_run fuel src s =
     (case gk_lex src (s\<lparr>gk_error := [], returning := False, breaking := False, continuing := False\<rparr>) of
        None \<Rightarrow> None
      | Some (ok, s) \<Rightarrow>
          if \<not> ok then Some (False, report ''gk lex error: '' s)
          else (case gk_parse s of
                  None \<Rightarrow> None
                | Some (root, s) \<Rightarrow>
                    if root < 0 \<or> has_error s then Some (False, report ''gk parse error: '' s)
                    else (case eval fuel root s of
                            None \<Rightarrow> None
                          | Some (v, s) \<Rightarrow>
                              if has_error s then Some (False, report ''gk runtime error: '' s)
                              else Some (True, s))))"

end
