(* ===== verification/Gk_Parser_Props.thy ===== *)
theory Gk_Parser_Props
  imports Gk_Parser
begin

text \<open>
  The parser always returns: on a token array that ends with \<open>TOK_EOF\<close> it stays inside the array,
  consumes a token with every construct it accepts, builds nodes whose children are nodes of the array,
  and reports every rejection with a message. The rules below mirror the combinators of the parser.
\<close>

section \<open>Well-formed parser states\<close>

definition kids_ok :: "nat \<Rightarrow> Node \<Rightarrow> bool" where
  "kids_ok n x \<longleftrightarrow> (\<forall>c \<in> set (children x). 0 \<le> c \<and> c < int n)"

definition pwf :: "GkState \<Rightarrow> bool" where
  "pwf s \<longleftrightarrow> tok_pos s < length (tokens s) \<and> tok_type (last (tokens s)) = TOK_EOF \<and>
     length (nodes s) \<le> GK_MAX_NODES \<and> (\<forall>x \<in> set (nodes s). kids_ok (length (nodes s)) x)"

definition ext :: "GkState \<Rightarrow> GkState \<Rightarrow> bool" where
  "ext s s' \<longleftrightarrow> pwf s' \<and> tokens s' = tokens s \<and> tok_pos s \<le> tok_pos s' \<and>
     length (nodes s) \<le> length (nodes s')"

definition valid :: "int \<Rightarrow> GkState \<Rightarrow> bool" where
  "valid n s \<longleftrightarrow> 0 \<le> n \<and> n < int (length (nodes s))"

definition good :: "nat \<Rightarrow> GkState \<Rightarrow> (int \<times> GkState) option \<Rightarrow> bool" where
  "good d s r \<longleftrightarrow> (\<exists>n s'. r = Some (n, s') \<and> ext s s' \<and>
     (if n < 0 then n = - 1 \<and> gk_error s' \<noteq> [] else valid n s' \<and> d \<le> tok_pos s'))"

definition pok :: "nat \<Rightarrow> parser \<Rightarrow> bool" where
  "pok m p \<longleftrightarrow> (\<forall>s. pwf s \<longrightarrow> length (tokens s) \<le> tok_pos s + m \<longrightarrow> good (Suc (tok_pos s)) s (p s))"

named_theorems parsing \<open>rules for the parser's combinators\<close>

lemma ext_refl: "pwf s \<Longrightarrow> ext s s"
  by (simp add: ext_def)

lemma ext_trans: "ext s s1 \<Longrightarrow> ext s1 s2 \<Longrightarrow> ext s s2"
  by (simp add: ext_def)

lemma ext_pwf: "ext s s' \<Longrightarrow> pwf s'"
  by (simp add: ext_def)

lemma valid_ext: "valid n s \<Longrightarrow> ext s s' \<Longrightarrow> valid n s'"
  by (simp add: valid_def ext_def)

lemma kids_ok_mono: "kids_ok n x \<Longrightarrow> n \<le> m \<Longrightarrow> kids_ok m x"
  by (force simp: kids_ok_def)

lemma good_mono: "good d s r \<Longrightarrow> e \<le> d \<Longrightarrow> good e s r"
  by (fastforce simp: good_def)

lemma good_ext: "ext s s1 \<Longrightarrow> good d s1 r \<Longrightarrow> good d s r"
  unfolding good_def using ext_trans by blast

lemma good_Some: "ext s s' \<Longrightarrow> valid n s' \<Longrightarrow> d \<le> tok_pos s' \<Longrightarrow> good d s (Some (n, s'))"
  by (auto simp: good_def valid_def)

lemma good_error: "pwf s \<Longrightarrow> msg \<noteq> [] \<Longrightarrow> good d s (Some (- 1, set_error msg s))"
  by (auto simp: good_def ext_def set_error_def pwf_def)

lemma good_then:
  assumes "good d0 s r"
    and "\<And>n s'. ext s s' \<Longrightarrow> valid n s' \<Longrightarrow> d0 \<le> tok_pos s' \<Longrightarrow> good d s' (f n s')"
  shows "good d s (parse_then r f)"
proof -
  from assms(1) obtain n s' where r: "r = Some (n, s')" "ext s s'"
    and n: "if n < 0 then n = - 1 \<and> gk_error s' \<noteq> [] else valid n s' \<and> d0 \<le> tok_pos s'"
    unfolding good_def by blast
  show ?thesis
  proof (cases "n < 0")
    case True
    with r n show ?thesis by (auto simp: parse_then_def good_def)
  next
    case False
    with r n show ?thesis using good_ext [OF r(2) assms(2)] by (simp add: parse_then_def)
  qed
qed

lemma new_node_good:
  assumes "pwf s"
  shows "good (tok_pos s) s (Some (new_node t line s))"
proof (cases "GK_MAX_NODES \<le> length (nodes s)")
  case True
  with assms show ?thesis by (auto simp: new_node_def intro: good_error)
next
  case False
  with assms show ?thesis
    unfolding new_node_def
    by (auto simp: ext_def pwf_def valid_def kids_ok_def intro!: good_Some) force
qed

lemma good_new_node:
  assumes "pwf s"
    and "\<And>n s'. ext s s' \<Longrightarrow> valid n s' \<Longrightarrow> tok_pos s \<le> tok_pos s' \<Longrightarrow> good d s' (f n s')"
  shows "good d s (new_node_then t line s f)"
  unfolding new_node_then_def using new_node_good [OF assms(1)] assms(2) by (rule good_then)

lemma peek_in: "pwf s \<Longrightarrow> peek s = tokens s ! tok_pos s"
  by (simp add: peek_def pwf_def)

lemma advance_ext [parsing]: "pwf s \<Longrightarrow> ext s (advance s)"
proof -
  assume s: "pwf s"
  have "Suc (tok_pos s) < length (tokens s)" if "tok_type (peek s) \<noteq> TOK_EOF"
  proof (rule ccontr)
    assume "\<not> Suc (tok_pos s) < length (tokens s)"
    with s have "tokens s \<noteq> [] \<and> tok_pos s = length (tokens s) - 1" by (auto simp: pwf_def)
    then have "peek s = last (tokens s)" using s by (simp add: peek_in last_conv_nth)
    with s that show False by (simp add: pwf_def)
  qed
  with s show ?thesis by (auto simp: advance_def ext_def pwf_def)
qed

lemma advance_pos: "tok_type (peek s) \<noteq> TOK_EOF \<Longrightarrow> tok_pos (advance s) = Suc (tok_pos s)"
  by (simp add: advance_def)

lemma match_tok_ext [parsing]: "pwf s \<Longrightarrow> ext s (snd (match_tok t s))"
  by (simp add: match_tok_def advance_ext ext_refl)

lemma skip_newlines_ext [parsing]: "pwf s \<Longrightarrow> ext s (skip_newlines s)"
proof (induction s rule: skip_newlines.induct)
  case (1 s)
  then show ?case
    by (subst skip_newlines.simps) (auto intro: ext_refl ext_trans advance_ext ext_pwf)
qed

lemma upd_node_ext [parsing]:
  assumes "pwf s" "valid n s" "kids_ok (length (nodes s)) (f (node_at s n))"
  shows "ext s (upd_node n f s)"
  using assms by (auto simp: ext_def pwf_def upd_node_def dest!: set_update_subset_insert [THEN subsetD])

lemma node_at_kids: "pwf s \<Longrightarrow> valid n s \<Longrightarrow> kids_ok (length (nodes s)) (node_at s n)"
  by (auto simp: pwf_def valid_def node_at_def)

lemma kids_ok_simps [simp]:
  "kids_ok n (add_child c x) \<longleftrightarrow> kids_ok n x \<and> 0 \<le> c \<and> c < int n"
  "kids_ok n (set_children cs x) \<longleftrightarrow> (\<forall>c \<in> set cs. 0 \<le> c \<and> c < int n)"
  "kids_ok n (x\<lparr>node_str := str\<rparr>) = kids_ok n x" "kids_ok n (x\<lparr>node_int := v\<rparr>) = kids_ok n x"
  by (auto simp: kids_ok_def add_child_def set_children_def)

lemma upd_children_ext [parsing]:
  "pwf s \<Longrightarrow> valid n s \<Longrightarrow> valid c s \<Longrightarrow> ext s (upd_node n (add_child c) s)"
  "pwf s \<Longrightarrow> valid n s \<Longrightarrow> (\<And>c. c \<in> set cs \<Longrightarrow> valid c s) \<Longrightarrow> ext s (upd_node n (set_children cs) s)"
  "pwf s \<Longrightarrow> valid n s \<Longrightarrow> (\<And>c. c \<in> set cs \<Longrightarrow> valid c s) \<Longrightarrow>
     ext s (upd_node n (\<lambda>x. set_children cs (x\<lparr>node_op := op\<rparr>)) s)"
  "pwf s \<Longrightarrow> valid n s \<Longrightarrow> ext s (upd_node n (\<lambda>x. x\<lparr>node_str := str\<rparr>) s)"
  "pwf s \<Longrightarrow> valid n s \<Longrightarrow> ext s (upd_node n (\<lambda>x. x\<lparr>node_int := v\<rparr>) s)"
  by (intro upd_node_ext; simp add: node_at_kids; simp add: valid_def)+

lemma upd_node_pos [simp]: "tok_pos (upd_node n f s) = tok_pos s"
  by (simp add: upd_node_def)

lemma good_expect:
  assumes "pwf s" "msg \<noteq> []" "\<And>s'. ext s s' \<Longrightarrow> good d s' (f s')"
  shows "good d s (expect_then t msg s f)"
  using assms good_ext [OF advance_ext [OF assms(1)] assms(3) [OF advance_ext [OF assms(1)]]]
  by (auto simp: expect_then_def expect_def match_tok_def good_error)

text \<open>A parser run after more of the input is consumed.\<close>

lemma pok_good:
  assumes "pok m p" "ext s s'" "length (tokens s) \<le> tok_pos s' + m"
  shows "good (Suc (tok_pos s')) s' (p s')"
  using assms by (simp add: pok_def ext_def)

section \<open>Expressions\<close>

lemmas ext_intros = parsing ext_refl ext_pwf

lemma parse_args_good:
  assumes "pok m pe" "pwf s" "valid n s" "length (tokens s) < tok_pos s + k"
    "length (tokens s) \<le> tok_pos s + m"
  shows "good (tok_pos s) s (parse_args pe k n s)"
  using assms(2-)
proof (induction k arbitrary: s)
  case 0
  then show ?case by (simp add: pwf_def)
next
  case (Suc k)
  note s = Suc.prems
  show ?case
  proof (cases "check TOK_RPAREN s \<or> check TOK_EOF s")
    case True
    then show ?thesis using s by (auto intro!: good_Some ext_refl)
  next
    case False
    have "good (tok_pos s) s' (if GK_MAX_CHILDREN \<le> length (children (node_at s' n))
        then Some (- 1, set_error ''too many arguments'' s')
        else (case match_tok TOK_COMMA (upd_node n (add_child arg) s') of
                (ok, s) \<Rightarrow> if ok then parse_args pe k n s else Some (n, s)))"
      if e: "ext s s'" and a: "valid arg s'" and p: "Suc (tok_pos s) \<le> tok_pos s'" for arg s'
    proof -
      let ?u = "upd_node n (add_child arg) s'"
      have n': "valid n s'" using valid_ext [OF s(2) e] .
      have u: "ext s' ?u" by (rule upd_children_ext(1) [OF ext_pwf [OF e] n' a])
      obtain b s2 where m: "match_tok TOK_COMMA ?u = (b, s2)" by fastforce
      have e2: "ext ?u s2" using match_tok_ext [OF ext_pwf [OF u], of TOK_COMMA] m by simp
      have e3: "ext s' s2" by (rule ext_trans [OF u e2])
      have v2: "valid n s2" by (rule valid_ext [OF n' e3])
      have t: "tokens s2 = tokens s" "tok_pos s' \<le> tok_pos s2" using e e3 by (simp_all add: ext_def)
      have g: "good (tok_pos s2) s2 (parse_args pe k n s2)"
        by (rule Suc.IH [OF ext_pwf [OF e3] v2]) (use s(3,4) t p in auto)
      have "good (tok_pos s) s' (parse_args pe k n s2)"
        by (rule good_ext [OF e3 good_mono [OF g]]) (use t p in simp)
      moreover have "good (tok_pos s) s' (Some (n, s2))"
        using e3 v2 p by (intro good_Some) (auto simp: ext_def)
      ultimately show ?thesis
        using ext_pwf [OF e] by (auto simp: m intro: good_error)
    qed
    then have "good (tok_pos s) s (parse_then (pe s) (\<lambda>arg s.
        if GK_MAX_CHILDREN \<le> length (children (node_at s n))
        then Some (- 1, set_error ''too many arguments'' s)
        else (case match_tok TOK_COMMA (upd_node n (add_child arg) s) of
                (ok, s) \<Rightarrow> if ok then parse_args pe k n s else Some (n, s))))"
      by (rule good_then [OF pok_good [OF assms(1) ext_refl [OF s(1)] s(4)]])
    with False show ?thesis by simp
  qed
qed

lemma leaf_good:
  assumes "pwf s" "\<And>s n. pwf s \<Longrightarrow> valid n s \<Longrightarrow> ext s (upd_node n F s)"
  shows "good (tok_pos s) s (new_node_then t line s (\<lambda>n s. Some (n, upd_node n F s)))"
  using assms(1)
proof (rule good_new_node)
  fix n s' assume "ext s s'" "valid n s'" "tok_pos s \<le> tok_pos s'"
  then show "good (tok_pos s) s' (Some (n, upd_node n F s'))"
    using assms(2) [OF ext_pwf] by (intro good_Some) (auto intro: valid_ext)
qed

lemma good_step:
  assumes "pwf s" "tok_type (peek s) \<noteq> TOK_EOF" "good (tok_pos (advance s)) (advance s) r"
  shows "good (Suc (tok_pos s)) s r"
  using good_ext [OF advance_ext [OF assms(1)] assms(3)] by (simp add: advance_pos [OF assms(2)])

lemma call_good:
  assumes pe: "pok m pe" and s: "pwf s" "length (tokens s) \<le> tok_pos s + m"
  shows "good (tok_pos s) s (new_node_then t line s (\<lambda>n s.
          parse_then (parse_args pe (bound s) n (upd_node n (\<lambda>x. x\<lparr>node_str := str\<rparr>) s)) (\<lambda>_ s.
            expect_then TOK_RPAREN ''expected ')' after arguments'' s (\<lambda>s. Some (n, s)))))"
  using s(1)
proof (rule good_new_node)
  fix n s1 assume e: "ext s s1" and v: "valid n s1"
  let ?u = "upd_node n (\<lambda>x. x\<lparr>node_str := str\<rparr>) s1"
  have u: "ext s1 ?u" by (rule upd_children_ext(4) [OF ext_pwf [OF e] v])
  have v': "valid n ?u" by (rule valid_ext [OF v u])
  have g: "good (tok_pos ?u) ?u (parse_args pe (bound s1) n ?u)"
    using e s(2) ext_pwf [OF u] u v' by (intro parse_args_good [OF pe]) (auto simp: bound_def ext_def)
  have "good (tok_pos s) ?u (parse_then (parse_args pe (bound s1) n ?u) (\<lambda>_ s.
            expect_then TOK_RPAREN ''expected ')' after arguments'' s (\<lambda>s. Some (n, s))))"
    using g
  proof (rule good_then)
    fix n' s2 assume e2: "ext ?u s2"
    have "good (tok_pos s) s3 (Some (n, s3))" if "ext s2 s3" for s3
      using that e e2 u v' by (intro good_Some ext_refl)
        (auto intro: ext_pwf valid_ext simp: ext_def)
    then show "good (tok_pos s) s2 (expect_then TOK_RPAREN ''expected ')' after arguments'' s2 (\<lambda>s. Some (n, s)))"
      by (intro good_expect [OF ext_pwf [OF e2]]) auto
  qed
  then show "good (tok_pos s) s1 (parse_then (parse_args pe (bound s1) n ?u) (\<lambda>_ s.
            expect_then TOK_RPAREN ''expected ')' after arguments'' s (\<lambda>s. Some (n, s))))"
    by (rule good_ext [OF u])
qed

lemma paren_good:
  assumes pe: "pok m pe" and s: "pwf s" "length (tokens s) \<le> tok_pos s + m"
  shows "good (tok_pos s) s (parse_then (pe s) (\<lambda>n s.
        expect_then TOK_RPAREN ''expected ')''  s (\<lambda>s. Some (n, s))))"
  using pok_good [OF pe ext_refl [OF s(1)] s(2)]
proof (rule good_then)
  fix n s' assume e: "ext s s'" and v: "valid n s'"
  have "good (tok_pos s) s2 (Some (n, s2))" if "ext s' s2" for s2
    using that e v by (intro good_Some ext_refl) (auto intro: ext_pwf valid_ext simp: ext_def)
  then show "good (tok_pos s) s' (expect_then TOK_RPAREN ''expected ')'' s' (\<lambda>s. Some (n, s)))"
    by (intro good_expect [OF ext_pwf [OF e]]) auto
qed

lemma parse_primary_pok: "pok m pe \<Longrightarrow> pok (Suc m) (parse_primary pe)"
proof -
  assume pe: "pok m pe"
  have "good (Suc (tok_pos s)) s (parse_primary pe s)"
    if s: "pwf s" "length (tokens s) \<le> tok_pos s + Suc m" for s
  proof (cases "tok_type (peek s) = TOK_EOF")
    case True
    with s show ?thesis by (simp add: parse_primary_def good_error)
  next
    case False
    let ?a = "advance s"
    have a: "pwf ?a" "length (tokens ?a) \<le> tok_pos ?a + m" "tok_pos ?a = Suc (tok_pos s)"
      using advance_ext [OF s(1)] s advance_pos [OF False] by (auto simp: ext_def)
    have a2: "pwf (advance ?a)" "length (tokens (advance ?a)) \<le> tok_pos (advance ?a) + m"
      "ext ?a (advance ?a)"
      using advance_ext [OF a(1)] a by (auto simp: ext_def)
    have var: "good (tok_pos ?a) ?a (new_node_then t line (advance ?a) (\<lambda>n s.
          parse_then (parse_args pe (bound s) n (upd_node n (\<lambda>x. x\<lparr>node_str := str\<rparr>) s)) (\<lambda>_ s.
            expect_then TOK_RPAREN ''expected ')' after arguments'' s (\<lambda>s. Some (n, s)))))" for t line str
      using good_mono [OF good_ext [OF a2(3) call_good [OF pe a2(1,2)]]] a2(3) by (simp add: ext_def)
    show ?thesis
      unfolding parse_primary_def Let_def
      using leaf_good [OF a(1) upd_children_ext(4)] leaf_good [OF a(1) upd_children_ext(5)]
        paren_good [OF pe a(1,2)] var good_error [OF s(1)]
      by (auto intro!: good_step [OF s(1) False])
  qed
  then show ?thesis by (simp add: pok_def)
qed

lemma mk_node_good:
  assumes "pwf s" "\<And>c. c \<in> set cs \<Longrightarrow> valid c s"
  shows "good (tok_pos s) s (new_node_then t line s (\<lambda>n s.
       Some (n, upd_node n (\<lambda>x. set_children cs (x\<lparr>node_op := op\<rparr>)) s)))"
  using assms(1)
proof (rule good_new_node)
  fix n s' assume e: "ext s s'" and v: "valid n s'" and p: "tok_pos s \<le> tok_pos s'"
  have "ext s' (upd_node n (\<lambda>x. set_children cs (x\<lparr>node_op := op\<rparr>)) s')"
    using valid_ext [OF assms(2) e] by (rule upd_children_ext(3) [OF ext_pwf [OF e] v])
  then show "good (tok_pos s) s' (Some (n, upd_node n (\<lambda>x. set_children cs (x\<lparr>node_op := op\<rparr>)) s'))"
    using v p by (intro good_Some) (auto intro: valid_ext)
qed

lemma parse_unary_good:
  assumes "pok m (parse_primary pe)" "pwf s" "length (tokens s) < tok_pos s + k"
    "length (tokens s) \<le> tok_pos s + m"
  shows "good (Suc (tok_pos s)) s (parse_unary pe k s)"
  using assms(2-)
proof (induction k arbitrary: s)
  case 0
  then show ?case by (simp add: pwf_def)
next
  case (Suc k)
  note s = Suc.prems
  have op: "good (Suc (tok_pos s)) s (parse_then (parse_unary pe k (advance s)) (mk_unop t line))"
    if "tok_type (peek s) \<noteq> TOK_EOF" for t line
  proof -
    let ?a = "advance s"
    have e: "ext s ?a" and a: "tok_pos ?a = Suc (tok_pos s)" "tokens ?a = tokens s"
      using advance_ext [OF s(1)] advance_pos [OF that] by (simp_all add: ext_def)
    have g: "good (Suc (tok_pos ?a)) ?a (parse_unary pe k ?a)"
      by (rule Suc.IH [OF ext_pwf [OF e]]) (use a s(2,3) in auto)
    have "good (Suc (tok_pos s)) ?a (parse_then (parse_unary pe k ?a) (mk_unop t line))"
      using g
    proof (rule good_then)
      fix n s' assume "ext ?a s'" "valid n s'" "Suc (tok_pos ?a) \<le> tok_pos s'"
      then show "good (Suc (tok_pos s)) s' (mk_unop t line n s')"
        unfolding mk_unop_def
        by (intro good_mono [OF mk_node_good]) (use a in \<open>auto intro: ext_pwf\<close>)
    qed
    then show ?thesis by (rule good_ext [OF e])
  qed
  show ?case
    using op pok_good [OF assms(1) ext_refl [OF s(1)] s(3)] by (auto simp: check_def Let_def)
qed

lemma parse_unary_pok: "pok m (parse_primary pe) \<Longrightarrow> pok m (\<lambda>s. parse_unary pe (bound s) s)"
  unfolding pok_def [of m "\<lambda>s. parse_unary pe (bound s) s"]
  by (intro allI impI parse_unary_good) (simp_all add: bound_def)

lemma binop_loop_good:
  assumes "pok m sub" "pwf s" "valid left s" "length (tokens s) < tok_pos s + k"
    "length (tokens s) \<le> tok_pos s + m" "TOK_EOF \<notin> set ops"
  shows "good (tok_pos s) s (binop_loop ops sub k left s)"
  using assms(2-5)
proof (induction k arbitrary: s left)
  case 0
  then show ?case by (simp add: pwf_def)
next
  case (Suc k)
  note s = Suc.prems
  show ?case
  proof (cases "tok_type (peek s) \<in> set ops")
    case False
    with s show ?thesis by (auto intro: good_Some ext_refl)
  next
    case True
    with assms(6) have ne: "tok_type (peek s) \<noteq> TOK_EOF" by metis
    let ?a = "advance s"
    have e: "ext s ?a" and a: "tok_pos ?a = Suc (tok_pos s)" "tokens ?a = tokens s"
      using advance_ext [OF s(1)] advance_pos [OF ne] by (simp_all add: ext_def)
    have loop: "good (tok_pos s) s2 (binop_loop ops sub k n s2)"
      if e2: "ext ?a s2" and v: "valid n s2" for n s2
    proof (rule good_mono)
      show "good (tok_pos s2) s2 (binop_loop ops sub k n s2)"
        by (rule Suc.IH [OF ext_pwf [OF e2] v]) (use e2 a s(3,4) in \<open>auto simp: ext_def\<close>)
    qed (use e2 a in \<open>auto simp: ext_def\<close>)
    have bin: "good (tok_pos s) s1 (parse_then (mk_binop op line left r s1) (\<lambda>n s. binop_loop ops sub k n s))"
      if e1: "ext ?a s1" and v: "valid r s1" for op line r s1
    proof (rule good_then)
      show "good (tok_pos s1) s1 (mk_binop op line left r s1)"
        unfolding mk_binop_def using v valid_ext [OF valid_ext [OF s(2) e] e1] ext_pwf [OF e1]
        by (intro mk_node_good) auto
      show "good (tok_pos s) s' (binop_loop ops sub k n s')" if "ext s1 s'" "valid n s'" for n s'
        using loop [OF ext_trans [OF e1 that(1)] that(2)] .
    qed
    have "good (Suc (tok_pos ?a)) ?a (sub ?a)"
      by (rule pok_good [OF assms(1) ext_refl [OF ext_pwf [OF e]]]) (use a s(4) in auto)
    from good_then [OF this bin] have "good (tok_pos s) s (parse_then (sub ?a) (\<lambda>right s'.
          parse_then (mk_binop (tok_type (peek s)) (tok_line (peek s)) left right s') (\<lambda>n s. binop_loop ops sub k n s)))"
      by (intro good_ext [OF e]) auto
    with True show ?thesis by (simp add: Let_def)
  qed
qed

lemma parse_binop_pok:
  assumes "pok m sub" "TOK_EOF \<notin> set ops"
  shows "pok m (parse_binop ops sub)"
  unfolding pok_def
proof (intro allI impI)
  fix s assume s: "pwf s" "length (tokens s) \<le> tok_pos s + m"
  show "good (Suc (tok_pos s)) s (parse_binop ops sub s)"
    unfolding parse_binop_def using pok_good [OF assms(1) ext_refl [OF s(1)] s(2)]
  proof (rule good_then)
    fix n s' assume e: "ext s s'" and v: "valid n s'" and p: "Suc (tok_pos s) \<le> tok_pos s'"
    have "good (tok_pos s') s' (binop_loop ops sub (bound s') n s')"
      using assms e v s ext_pwf [OF e] by (intro binop_loop_good) (auto simp: bound_def ext_def)
    then show "good (Suc (tok_pos s)) s' (binop_loop ops sub (bound s') n s')" using p by (rule good_mono)
  qed
qed

lemma parse_or_pok: "pok m pe \<Longrightarrow> pok (Suc m) (parse_or pe)"
  unfolding parse_or_def parse_and_def parse_cmp_def parse_add_def parse_mul_def
  by (intro parse_binop_pok parse_unary_pok parse_primary_pok) simp_all

lemma parse_expr_depth_pok: "pok k (parse_expr_depth k)"
proof (induction k)
  case 0
  then show ?case by (simp add: pok_def pwf_def)
next
  case (Suc k)
  from parse_or_pok [OF this] show ?case by (simp add: pok_def)
qed

lemma parse_expr_good: "pwf s \<Longrightarrow> good (Suc (tok_pos s)) s (parse_expr s)"
  using parse_expr_depth_pok [of "bound s"] by (simp add: parse_expr_def pok_def bound_def)

section \<open>Statements\<close>

lemma block_loop_good:
  assumes "pok m ps" "pwf s" "valid b s" "length (tokens s) < tok_pos s + k"
    "length (tokens s) \<le> tok_pos s + m"
  shows "good (tok_pos s) s (block_loop ps k b s)"
  using assms(2-)
proof (induction k arbitrary: s)
  case 0
  then show ?case by (simp add: pwf_def)
next
  case (Suc k)
  note s = Suc.prems
  show ?case
  proof (cases "check TOK_DEDENT s \<or> check TOK_EOF s")
    case True
    then show ?thesis
      using match_tok_ext [OF s(1)] s(2)
      by (auto intro!: good_Some intro: valid_ext simp: ext_def)
  next
    case False
    have "good (tok_pos s) s' (if GK_MAX_CHILDREN \<le> length (children (node_at s' b))
        then Some (- 1, set_error ''block too large'' s')
        else block_loop ps k b (skip_newlines (upd_node b (add_child st) s')))"
      if e: "ext s s'" and a: "valid st s'" and p: "Suc (tok_pos s) \<le> tok_pos s'" for st s'
    proof -
      have b': "valid b s'" using valid_ext [OF s(2) e] .
      have u: "ext s' (upd_node b (add_child st) s')" by (rule upd_children_ext(1) [OF ext_pwf [OF e] b' a])
      let ?s2 = "skip_newlines (upd_node b (add_child st) s')"
      have e3: "ext s' ?s2" by (rule ext_trans [OF u skip_newlines_ext [OF ext_pwf [OF u]]])
      have t: "tokens ?s2 = tokens s" "tok_pos s' \<le> tok_pos ?s2" using e e3 by (simp_all add: ext_def)
      have g: "good (tok_pos ?s2) ?s2 (block_loop ps k b ?s2)"
        by (rule Suc.IH [OF ext_pwf [OF e3] valid_ext [OF b' e3]]) (use s(3,4) t p in auto)
      have "good (tok_pos s) s' (block_loop ps k b ?s2)"
        by (rule good_ext [OF e3 good_mono [OF g]]) (use t p in simp)
      then show ?thesis using ext_pwf [OF e] by (auto intro: good_error)
    qed
    then have "good (tok_pos s) s (parse_then (ps s) (\<lambda>st s.
        if GK_MAX_CHILDREN \<le> length (children (node_at s b))
        then Some (- 1, set_error ''block too large'' s)
        else block_loop ps k b (skip_newlines (upd_node b (add_child st) s))))"
      by (rule good_then [OF pok_good [OF assms(1) ext_refl [OF s(1)] s(4)]])
    with False show ?thesis by simp
  qed
qed

lemma parse_block_good:
  assumes ps: "pok m ps" and s: "pwf s" "length (tokens s) \<le> tok_pos s + m"
  shows "good (tok_pos s) s (parse_block ps s)"
  unfolding parse_block_def Let_def
proof (rule good_expect [OF s(1)])
  fix s1 assume e1: "ext s s1"
  show "good (tok_pos s) s1 (new_node_then NODE_BLOCK (tok_line (peek s)) s1 (\<lambda>block s.
          block_loop ps (bound s) block (skip_newlines s)))"
  proof (rule good_new_node [OF ext_pwf [OF e1]])
    fix b s2 assume e2: "ext s1 s2" and v: "valid b s2"
    let ?s3 = "skip_newlines s2"
    have e3: "ext s2 ?s3" by (rule skip_newlines_ext [OF ext_pwf [OF e2]])
    have t: "tokens s2 = tokens s" "tokens ?s3 = tokens s" "tok_pos s \<le> tok_pos ?s3"
      using e1 e2 e3 by (auto simp: ext_def)
    have g: "good (tok_pos ?s3) ?s3 (block_loop ps (bound s2) b ?s3)"
      by (rule block_loop_good [OF ps ext_pwf [OF e3] valid_ext [OF v e3]]) (use s(2) t in \<open>auto simp: bound_def\<close>)
    show "good (tok_pos s) s2 (block_loop ps (bound s2) b ?s3)"
      by (rule good_ext [OF e3 good_mono [OF g t(3)]])
  qed
qed simp

text \<open>The block after a colon, with the optional newline in between.\<close>

lemma body_good:
  assumes ps: "pok m ps" and s: "pwf s" "length (tokens s) \<le> tok_pos s + m"
    and f: "\<And>b s'. ext s s' \<Longrightarrow> valid b s' \<Longrightarrow> good d s' (f b s')"
  shows "good d s (parse_then (parse_block ps (snd (match_tok TOK_NEWLINE s))) f)"
proof -
  let ?s1 = "snd (match_tok TOK_NEWLINE s)"
  have e: "ext s ?s1" by (rule match_tok_ext [OF s(1)])
  have "good (tok_pos ?s1) ?s1 (parse_block ps ?s1)"
    by (rule parse_block_good [OF ps ext_pwf [OF e]]) (use e s(2) in \<open>auto simp: ext_def\<close>)
  then have "good d ?s1 (parse_then (parse_block ps ?s1) f)"
    by (rule good_then) (use f e in \<open>blast intro: ext_trans\<close>)
  then show ?thesis by (rule good_ext [OF e])
qed

lemma parse_head_good:
  assumes ps: "pok m ps" and s: "pwf s" "length (tokens s) \<le> tok_pos s + m" "valid n s" "msg \<noteq> []"
    and f: "\<And>s'. ext s s' \<Longrightarrow> valid n s' \<Longrightarrow> good d s' (f s')"
  shows "good d s (parse_head ps msg n f s)"
  unfolding parse_head_def
proof (rule good_then [OF parse_expr_good [OF s(1)]])
  fix c s1 assume e1: "ext s s1" and c: "valid c s1"
  show "good d s1 (expect_then TOK_COLON msg s1 (\<lambda>s.
         parse_then (parse_block ps (snd (match_tok TOK_NEWLINE s))) (\<lambda>body s.
           f (upd_node n (set_children [c, body]) s))))"
  proof (rule good_expect [OF ext_pwf [OF e1] s(4)])
    fix s2 assume e2: "ext s1 s2"
    show "good d s2 (parse_then (parse_block ps (snd (match_tok TOK_NEWLINE s2))) (\<lambda>body s.
           f (upd_node n (set_children [c, body]) s)))"
    proof (rule body_good [OF ps ext_pwf [OF e2]])
      show "length (tokens s2) \<le> tok_pos s2 + m" using e1 e2 s(2) by (simp add: ext_def)
      fix b s3 assume e3: "ext s2 s3" and b: "valid b s3"
      let ?u = "upd_node n (set_children [c, b]) s3"
      have n: "valid n s3" using s(3) e1 e2 e3 valid_ext by blast
      have "ext s3 ?u"
        by (rule upd_children_ext(2) [OF ext_pwf [OF e3] n]) (use b valid_ext [OF valid_ext [OF c e2] e3] in auto)
      then show "good d s3 (f ?u)"
        using f [of ?u] e1 e2 e3 n by (meson ext_trans good_ext valid_ext)
    qed
  qed
qed

lemma parse_params_good:
  assumes "pwf s" "valid n s" "length (tokens s) < tok_pos s + k"
  shows "good (tok_pos s) s (parse_params k n s)"
  using assms
proof (induction k arbitrary: s)
  case 0
  then show ?case by (simp add: pwf_def)
next
  case (Suc k)
  note s = Suc.prems
  show ?case
  proof (cases "check TOK_RPAREN s \<or> check TOK_EOF s \<or> tok_type (peek s) \<noteq> TOK_IDENT")
    case True
    then show ?thesis using s by (auto simp: Let_def intro!: good_Some ext_refl good_error)
  next
    case False
    let ?a = "advance s"
    have e: "ext s ?a" and a: "tok_pos ?a = Suc (tok_pos s)" "tokens ?a = tokens s"
      using advance_ext [OF s(1)] advance_pos [of s] False by (simp_all add: ext_def)
    have "good (tok_pos s) ?a (new_node_then NODE_VAR line ?a (\<lambda>pn s.
          case match_tok TOK_COMMA (upd_node n (add_child pn) (upd_node pn (\<lambda>x. x\<lparr>node_str := str\<rparr>) s)) of
            (ok, s) \<Rightarrow> if ok then parse_params k n s else Some (n, s)))" for line str
    proof (rule good_new_node [OF ext_pwf [OF e]])
      fix pn s1 assume e1: "ext ?a s1" and v: "valid pn s1"
      let ?u = "upd_node pn (\<lambda>x. x\<lparr>node_str := str\<rparr>) s1"
      have u: "ext s1 ?u" by (rule upd_children_ext(4) [OF ext_pwf [OF e1] v])
      have nu: "valid n ?u" using s(2) e e1 u valid_ext by blast
      have w: "ext ?u (upd_node n (add_child pn) ?u)"
        by (rule upd_children_ext(1) [OF ext_pwf [OF u] nu valid_ext [OF v u]])
      obtain b s2 where m: "match_tok TOK_COMMA (upd_node n (add_child pn) ?u) = (b, s2)" by fastforce
      have e2: "ext s1 s2"
        using ext_trans [OF u ext_trans [OF w match_tok_ext [OF ext_pwf [OF w]]]] m by (metis snd_conv)
      have n2: "valid n s2" using s(2) e e1 e2 valid_ext by blast
      have t: "tokens s2 = tokens s" "tok_pos s < tok_pos s2" using e1 e2 a by (auto simp: ext_def)
      have g: "good (tok_pos s2) s2 (parse_params k n s2)"
        by (rule Suc.IH [OF ext_pwf [OF e2] n2]) (use s(3) t in auto)
      have "good (tok_pos s) s1 (parse_params k n s2)"
        by (rule good_ext [OF e2 good_mono [OF g]]) (use t in simp)
      moreover have "good (tok_pos s) s1 (Some (n, s2))"
        using e2 n2 t by (intro good_Some) auto
      ultimately show "good (tok_pos s) s1
          (case match_tok TOK_COMMA (upd_node n (add_child pn) ?u) of
            (ok, s) \<Rightarrow> if ok then parse_params k n s else Some (n, s))" by (simp add: m)
    qed
    with False good_ext [OF e] show ?thesis by (simp add: Let_def)
  qed
qed

lemma good_done: "pwf s \<Longrightarrow> valid n s \<Longrightarrow> d \<le> tok_pos s \<Longrightarrow> good d s (Some (n, s))"
  by (auto intro: good_Some ext_refl)

text \<open>Results that finish a statement: a last update of the node and an optional newline.\<close>

lemma good_finish:
  assumes "pwf s" "valid n s" "valid c s" "d \<le> tok_pos s"
  shows "good d s (Some (n, upd_node n (add_child c) s))"
    and "good d s (Some (n, snd (match_tok t (upd_node n (set_children [c]) s))))"
proof -
  show "good d s (Some (n, upd_node n (add_child c) s))"
    using upd_children_ext(1) [OF assms(1-3)] assms by (intro good_Some) (auto intro: valid_ext)
  have u: "ext s (upd_node n (set_children [c]) s)"
    by (rule upd_children_ext(2) [OF assms(1,2)]) (use assms(3) in auto)
  have "ext s (snd (match_tok t (upd_node n (set_children [c]) s)))"
    by (rule ext_trans [OF u match_tok_ext [OF ext_pwf [OF u]]])
  then show "good d s (Some (n, snd (match_tok t (upd_node n (set_children [c]) s))))"
    using assms by (intro good_Some) (auto intro: valid_ext simp: ext_def)
qed

lemma ext_pos: "ext s s' \<Longrightarrow> tok_pos s \<le> tok_pos s'"
  by (simp add: ext_def)

lemma parse_return_good:
  assumes s: "pwf s" "tok_type (peek s) \<noteq> TOK_EOF"
  shows "good (Suc (tok_pos s)) s (parse_return line s)"
  unfolding parse_return_def
proof (rule good_step [OF s], rule good_new_node)
  show a: "pwf (advance s)" by (rule ext_pwf [OF advance_ext [OF s(1)]])
  fix n s1 assume e: "ext (advance s) s1" and v: "valid n s1"
  have "good (tok_pos (advance s)) s1 (parse_then (parse_expr s1) (\<lambda>expr s.
         Some (n, snd (match_tok TOK_NEWLINE (upd_node n (set_children [expr]) s)))))"
    by (rule good_then [OF parse_expr_good [OF ext_pwf [OF e]]], rule good_finish(2))
      (use e v in \<open>auto intro: ext_pwf valid_ext simp: ext_def\<close>)
  moreover have "good (tok_pos (advance s)) s1 (Some (n, snd (match_tok TOK_NEWLINE s1)))"
    using match_tok_ext [OF ext_pwf [OF e]] v e
    by (intro good_Some) (auto intro: valid_ext ext_pos order_trans)
  ultimately show "good (tok_pos (advance s)) s1 (if \<not> check TOK_NEWLINE s1 \<and> \<not> check TOK_EOF s1
       then parse_then (parse_expr s1) (\<lambda>expr s.
         Some (n, snd (match_tok TOK_NEWLINE (upd_node n (set_children [expr]) s))))
       else Some (n, snd (match_tok TOK_NEWLINE s1)))" by simp
qed

lemma parse_assign_good:
  assumes s: "pwf s" "tok_type (peek s) \<noteq> TOK_EOF"
  shows "good (Suc (tok_pos s)) s (parse_assign line s)"
  unfolding parse_assign_def Let_def
proof (rule good_step [OF s])
  let ?a = "advance s"
  have a: "pwf ?a" by (rule ext_pwf [OF advance_ext [OF s(1)]])
  have a2: "ext ?a (advance ?a)" by (rule advance_ext [OF a])
  show "good (tok_pos ?a) ?a (new_node_then NODE_ASSIGN line (advance ?a) (\<lambda>n s'.
        parse_then (parse_expr (upd_node n (\<lambda>x. x\<lparr>node_str := tok_str (peek s)\<rparr>) s')) (\<lambda>expr s.
          Some (n, snd (match_tok TOK_NEWLINE (upd_node n (set_children [expr]) s))))))"
  proof (rule good_ext [OF a2 good_new_node [OF ext_pwf [OF a2]]])
    fix n s1 assume e: "ext (advance ?a) s1" and v: "valid n s1"
    let ?u = "upd_node n (\<lambda>x. x\<lparr>node_str := tok_str (peek s)\<rparr>) s1"
    have u: "ext s1 ?u" by (rule upd_children_ext(4) [OF ext_pwf [OF e] v])
    have "good (tok_pos ?a) ?u (parse_then (parse_expr ?u) (\<lambda>expr s.
          Some (n, snd (match_tok TOK_NEWLINE (upd_node n (set_children [expr]) s)))))"
      by (rule good_then [OF parse_expr_good [OF ext_pwf [OF u]]], rule good_finish(2))
        (use e u v a2 in \<open>auto intro: ext_pwf valid_ext simp: ext_def\<close>)
    then show "good (tok_pos ?a) s1 (parse_then (parse_expr ?u) (\<lambda>expr s.
          Some (n, snd (match_tok TOK_NEWLINE (upd_node n (set_children [expr]) s)))))"
      by (rule good_ext [OF u])
  qed
qed

lemma while_good:
  assumes ps: "pok m ps" and s: "pwf s" "length (tokens s) \<le> tok_pos s + Suc m" "tok_type (peek s) \<noteq> TOK_EOF"
  shows "good (Suc (tok_pos s)) s (parse_while ps line s)"
  unfolding parse_while_def
proof (rule good_step [OF s(1,3)], rule good_new_node)
  show "pwf (advance s)" by (rule ext_pwf [OF advance_ext [OF s(1)]])
  fix n s1 assume e: "ext (advance s) s1" and v: "valid n s1"
  have "length (tokens s1) \<le> tok_pos s1 + m"
    using e s(2) advance_pos [OF s(3)] advance_ext [OF s(1)] by (auto simp: ext_def)
  then show "good (tok_pos (advance s)) s1 (parse_head ps ''expected ':' after while condition'' n (\<lambda>s. Some (n, s)) s1)"
    by (rule parse_head_good [OF ps ext_pwf [OF e] _ v])
      (use e in \<open>auto intro!: good_done intro: ext_pwf simp: ext_def\<close>)
qed

lemma parse_if_good:
  assumes ps: "pok m ps" and s: "pwf s" "length (tokens s) \<le> tok_pos s + Suc m" "tok_type (peek s) \<noteq> TOK_EOF"
  shows "good (Suc (tok_pos s)) s (parse_if ps line s)"
  unfolding parse_if_def
proof (rule good_step [OF s(1,3)], rule good_new_node)
  let ?d = "tok_pos (advance s)"
  show "pwf (advance s)" by (rule ext_pwf [OF advance_ext [OF s(1)]])
  fix n s1 assume e: "ext (advance s) s1" and v: "valid n s1"
  have t1: "tokens s1 = tokens s" "Suc (tok_pos s) \<le> tok_pos s1"
    using e advance_pos [OF s(3)] advance_ext [OF s(1)] by (auto simp: ext_def)
  let ?k = "\<lambda>s. if check TOK_ELIF s
         then parse_then (ps s) (\<lambda>elif_node s. Some (n, upd_node n (add_child elif_node) s))
         else if check TOK_ELSE s
         then expect_then TOK_COLON ''expected ':' after else'' (advance s) (\<lambda>s.
           parse_then (parse_block ps (snd (match_tok TOK_NEWLINE s))) (\<lambda>else_body s.
             Some (n, upd_node n (add_child else_body) s)))
         else Some (n, s)"
  have k: "good ?d s2 (?k s2)" if e2: "ext s1 s2" for s2
  proof -
    have n: "valid n s2" by (rule valid_ext [OF v e2])
    have d: "?d \<le> tok_pos s2" using e e2 by (simp add: ext_def)
    have b: "length (tokens s2) \<le> tok_pos s2 + m" using e2 t1 s(2) by (simp add: ext_def)
    have fin: "good ?d s' (Some (n, upd_node n (add_child c) s'))" if "ext s2 s'" "valid c s'" for c s'
      using that n d by (intro good_finish(1)) (auto intro: ext_pwf valid_ext simp: ext_def)
    have "good ?d s2 (parse_then (ps s2) (\<lambda>elif_node s. Some (n, upd_node n (add_child elif_node) s)))"
      by (rule good_then [OF pok_good [OF ps ext_refl [OF ext_pwf [OF e2]] b]]) (rule fin)
    moreover
    have a: "ext s2 (advance s2)" by (rule advance_ext [OF ext_pwf [OF e2]])
    have "good ?d s2 (expect_then TOK_COLON ''expected ':' after else'' (advance s2) (\<lambda>s.
           parse_then (parse_block ps (snd (match_tok TOK_NEWLINE s))) (\<lambda>else_body s.
             Some (n, upd_node n (add_child else_body) s))))"
    proof (rule good_ext [OF a good_expect [OF ext_pwf [OF a]]])
      fix s3 assume e3: "ext (advance s2) s3"
      then show "good ?d s3 (parse_then (parse_block ps (snd (match_tok TOK_NEWLINE s3)))
          (\<lambda>else_body s. Some (n, upd_node n (add_child else_body) s)))"
        by (intro body_good [OF ps ext_pwf [OF e3]] fin)
          (use a b in \<open>auto intro: ext_trans simp: ext_def\<close>)
    qed simp
    moreover have "good ?d s2 (Some (n, s2))" by (rule good_done [OF ext_pwf [OF e2] n d])
    ultimately show ?thesis by simp
  qed
  show "good ?d s1 (parse_head ps ''expected ':' after if condition'' n (\<lambda>s. let s = skip_newlines s in ?k s) s1)"
  proof (rule parse_head_good [OF ps ext_pwf [OF e] _ v])
    fix s2 assume e2: "ext s1 s2"
    have sk: "ext s2 (skip_newlines s2)" by (rule skip_newlines_ext [OF ext_pwf [OF e2]])
    show "good ?d s2 (let s = skip_newlines s2 in ?k s)"
      unfolding Let_def by (rule good_ext [OF sk k [OF ext_trans [OF e2 sk]]])
  qed (use t1 s(2) in auto)
qed

lemma parse_for_good:
  assumes ps: "pok m ps" and s: "pwf s" "length (tokens s) \<le> tok_pos s + Suc m" "tok_type (peek s) \<noteq> TOK_EOF"
  shows "good (Suc (tok_pos s)) s (parse_for ps line s)"
  unfolding parse_for_def Let_def
proof (rule good_step [OF s(1,3)])
  let ?a = "advance s"
  let ?d = "tok_pos ?a"
  have ea: "ext s ?a" by (rule advance_ext [OF s(1)])
  have a: "pwf ?a" "tokens ?a = tokens s" "?d = Suc (tok_pos s)"
    using ea advance_pos [OF s(3)] by (simp_all add: ext_def)
  have e2: "ext ?a (advance ?a)" by (rule advance_ext [OF a(1)])
  have "good ?d ?a (expect_then TOK_IN ''expected 'in' after for variable'' (advance ?a) (\<lambda>s.
        new_node_then NODE_FOR line s (\<lambda>n s.
          parse_head ps ''expected ':' after for iterable'' n (\<lambda>s. Some (n, s))
            (upd_node n (\<lambda>x. x\<lparr>node_str := str\<rparr>) s))))" for str
  proof (rule good_ext [OF e2 good_expect [OF ext_pwf [OF e2]]])
    fix s3 assume e3: "ext (advance ?a) s3"
    show "good ?d s3 (new_node_then NODE_FOR line s3 (\<lambda>n s.
          parse_head ps ''expected ':' after for iterable'' n (\<lambda>s. Some (n, s))
            (upd_node n (\<lambda>x. x\<lparr>node_str := str\<rparr>) s)))"
    proof (rule good_new_node [OF ext_pwf [OF e3]])
      fix n s4 assume e4: "ext s3 s4" and v: "valid n s4"
      let ?u = "upd_node n (\<lambda>x. x\<lparr>node_str := str\<rparr>) s4"
      have u: "ext s4 ?u" by (rule upd_children_ext(4) [OF ext_pwf [OF e4] v])
      have t: "tokens ?u = tokens s" "?d \<le> tok_pos ?u"
        using e2 e3 e4 u a by (auto simp: ext_def)
      have "good ?d ?u (parse_head ps ''expected ':' after for iterable'' n (\<lambda>s. Some (n, s)) ?u)"
        by (rule parse_head_good [OF ps ext_pwf [OF u] _ valid_ext [OF v u]])
          (use t a s(2) in \<open>auto intro!: good_done intro: ext_pwf simp: ext_def\<close>)
      then show "good ?d s4 (parse_head ps ''expected ':' after for iterable'' n (\<lambda>s. Some (n, s)) ?u)"
        by (rule good_ext [OF u])
    qed
  qed simp
  then show "good ?d ?a (if tok_type (peek ?a) \<noteq> TOK_IDENT
      then Some (- 1, set_error (''expected variable name after 'for'' @ [CHR 0x27]) ?a)
      else expect_then TOK_IN ''expected 'in' after for variable'' (advance ?a) (\<lambda>s.
        new_node_then NODE_FOR line s (\<lambda>n s.
          parse_head ps ''expected ':' after for iterable'' n (\<lambda>s. Some (n, s))
            (upd_node n (\<lambda>x. x\<lparr>node_str := tok_str (peek ?a)\<rparr>) s))))"
    using a(1) by (simp add: good_error)
qed

lemma parse_def_good:
  assumes ps: "pok m ps" and s: "pwf s" "length (tokens s) \<le> tok_pos s + Suc m" "tok_type (peek s) \<noteq> TOK_EOF"
  shows "good (Suc (tok_pos s)) s (parse_def ps line s)"
  unfolding parse_def_def Let_def
proof (rule good_step [OF s(1,3)])
  let ?a = "advance s"
  let ?d = "tok_pos ?a"
  have ea: "ext s ?a" by (rule advance_ext [OF s(1)])
  have a: "pwf ?a" "tokens ?a = tokens s" "?d = Suc (tok_pos s)"
    using ea advance_pos [OF s(3)] by (simp_all add: ext_def)
  have e2: "ext ?a (advance ?a)" by (rule advance_ext [OF a(1)])
  have tail: "good ?d s5 (expect_then TOK_RPAREN ''expected ')' after parameters'' s5 (\<lambda>s.
              expect_then TOK_COLON ''expected ':' after def'' s (\<lambda>s.
                parse_then (parse_block ps (snd (match_tok TOK_NEWLINE s))) (\<lambda>body s.
                  Some (n, upd_node n (add_child body) s)))))"
    if e5: "ext ?a s5" and v: "valid n s5" for n s5
  proof (rule good_expect [OF ext_pwf [OF e5]], simp, rule good_expect)
    fix s6 assume e6: "ext s5 s6"
    show "pwf s6" by (rule ext_pwf [OF e6])
    fix s7 assume e7: "ext s6 s7"
    show "good ?d s7 (parse_then (parse_block ps (snd (match_tok TOK_NEWLINE s7))) (\<lambda>body s.
                  Some (n, upd_node n (add_child body) s)))"
    proof (rule body_good [OF ps ext_pwf [OF e7]])
      show "length (tokens s7) \<le> tok_pos s7 + m" using e5 e6 e7 a s(2) by (simp add: ext_def)
      fix b s8 assume e8: "ext s7 s8" and b: "valid b s8"
      have "valid n s8" using v e6 e7 e8 valid_ext by blast
      then show "good ?d s8 (Some (n, upd_node n (add_child b) s8))"
        using b e5 e6 e7 e8 by (intro good_finish(1)) (auto intro: ext_pwf simp: ext_def)
    qed
  qed simp
  have "good ?d ?a (new_node_then NODE_DEF line (advance ?a) (\<lambda>n s.
        expect_then TOK_LPAREN ''expected '(' after function name''
          (upd_node n (\<lambda>x. x\<lparr>node_str := str\<rparr>) s) (\<lambda>s.
          parse_then (parse_params (bound s) n s) (\<lambda>_ s.
            expect_then TOK_RPAREN ''expected ')' after parameters'' s (\<lambda>s.
              expect_then TOK_COLON ''expected ':' after def'' s (\<lambda>s.
                parse_then (parse_block ps (snd (match_tok TOK_NEWLINE s))) (\<lambda>body s.
                  Some (n, upd_node n (add_child body) s))))))))" for str
  proof (rule good_ext [OF e2 good_new_node [OF ext_pwf [OF e2]]])
    fix n s3 assume e3: "ext (advance ?a) s3" and v: "valid n s3"
    let ?u = "upd_node n (\<lambda>x. x\<lparr>node_str := str\<rparr>) s3"
    have u: "ext s3 ?u" by (rule upd_children_ext(4) [OF ext_pwf [OF e3] v])
    show "good ?d s3 (expect_then TOK_LPAREN ''expected '(' after function name'' ?u (\<lambda>s.
          parse_then (parse_params (bound s) n s) (\<lambda>_ s.
            expect_then TOK_RPAREN ''expected ')' after parameters'' s (\<lambda>s.
              expect_then TOK_COLON ''expected ':' after def'' s (\<lambda>s.
                parse_then (parse_block ps (snd (match_tok TOK_NEWLINE s))) (\<lambda>body s.
                  Some (n, upd_node n (add_child body) s)))))))"
    proof (rule good_ext [OF u good_expect [OF ext_pwf [OF u]]], simp)
      fix s4 assume e4: "ext ?u s4"
      have n4: "valid n s4" using v u e4 valid_ext by blast
      have ea4: "ext ?a s4" using e2 e3 u e4 ext_trans by blast
      show "good ?d s4 (parse_then (parse_params (bound s4) n s4) (\<lambda>_ s.
            expect_then TOK_RPAREN ''expected ')' after parameters'' s (\<lambda>s.
              expect_then TOK_COLON ''expected ':' after def'' s (\<lambda>s.
                parse_then (parse_block ps (snd (match_tok TOK_NEWLINE s))) (\<lambda>body s.
                  Some (n, upd_node n (add_child body) s))))))"
      proof (rule good_then [OF parse_params_good [OF ext_pwf [OF e4] n4]])
        show "length (tokens s4) < tok_pos s4 + bound s4" by (simp add: bound_def)
        fix n' s5 assume e5: "ext s4 s5"
        show "good ?d s5 (expect_then TOK_RPAREN ''expected ')' after parameters'' s5 (\<lambda>s.
              expect_then TOK_COLON ''expected ':' after def'' s (\<lambda>s.
                parse_then (parse_block ps (snd (match_tok TOK_NEWLINE s))) (\<lambda>body s.
                  Some (n, upd_node n (add_child body) s)))))"
          by (rule tail [OF ext_trans [OF ea4 e5] valid_ext [OF n4 e5]])
      qed
    qed
  qed
  then show "good ?d ?a (if tok_type (peek ?a) \<noteq> TOK_IDENT
      then Some (- 1, set_error (''expected function name after 'def'' @ [CHR 0x27]) ?a)
      else new_node_then NODE_DEF line (advance ?a) (\<lambda>n s.
        expect_then TOK_LPAREN ''expected '(' after function name''
          (upd_node n (\<lambda>x. x\<lparr>node_str := tok_str (peek ?a)\<rparr>) s) (\<lambda>s.
          parse_then (parse_params (bound s) n s) (\<lambda>_ s.
            expect_then TOK_RPAREN ''expected ')' after parameters'' s (\<lambda>s.
              expect_then TOK_COLON ''expected ':' after def'' s (\<lambda>s.
                parse_then (parse_block ps (snd (match_tok TOK_NEWLINE s))) (\<lambda>body s.
                  Some (n, upd_node n (add_child body) s))))))))"
    using a(1) by (simp add: good_error)
qed

lemma jump_good:
  assumes s: "pwf s" "tok_type (peek s) \<noteq> TOK_EOF"
  shows "good (Suc (tok_pos s)) s (Some (new_node t line (snd (match_tok TOK_NEWLINE (advance s)))))"
proof (rule good_step [OF s])
  have a: "pwf (advance s)" by (rule ext_pwf [OF advance_ext [OF s(1)]])
  let ?m = "snd (match_tok TOK_NEWLINE (advance s))"
  have e: "ext (advance s) ?m" by (rule match_tok_ext [OF a])
  show "good (tok_pos (advance s)) (advance s) (Some (new_node t line ?m))"
    by (rule good_ext [OF e good_mono [OF new_node_good [OF ext_pwf [OF e]] ext_pos [OF e]]])
qed

lemma expr_stmt_good:
  assumes "pwf s"
  shows "good (Suc (tok_pos s)) s
     (parse_then (parse_expr s) (\<lambda>expr s. Some (expr, snd (match_tok TOK_NEWLINE s))))"
proof (rule good_then [OF parse_expr_good [OF assms]])
  fix n s' assume e: "ext s s'" "valid n s'" "Suc (tok_pos s) \<le> tok_pos s'"
  then show "good (Suc (tok_pos s)) s' (Some (n, snd (match_tok TOK_NEWLINE s')))"
    using match_tok_ext [OF ext_pwf [OF e(1)], of TOK_NEWLINE]
    by (intro good_Some) (auto intro: valid_ext simp: ext_def)
qed

lemma parse_stmt_body_pok: "pok m ps \<Longrightarrow> pok (Suc m) (parse_stmt_body ps)"
  unfolding pok_def [of "Suc m"]
proof (intro allI impI)
  fix s assume ps: "pok m ps" and s: "pwf s" "length (tokens s) \<le> tok_pos s + Suc m"
  show "good (Suc (tok_pos s)) s (parse_stmt_body ps s)"
  proof (cases "tok_type (peek s) = TOK_EOF")
    case True
    then show ?thesis by (simp add: parse_stmt_body_def Let_def expr_stmt_good [OF s(1)])
  next
    case False
    show ?thesis
      unfolding parse_stmt_body_def Let_def
      by (simp add: parse_return_good [OF s(1) False] jump_good [OF s(1) False]
          parse_def_good [OF ps s False] parse_if_good [OF ps s False] while_good [OF ps s False]
          parse_for_good [OF ps s False] parse_assign_good [OF s(1) False] expr_stmt_good [OF s(1)])
  qed
qed

lemma parse_stmt_depth_pok: "pok k (parse_stmt_depth k)"
proof (induction k)
  case 0
  then show ?case by (simp add: pok_def pwf_def)
next
  case (Suc k)
  from parse_stmt_body_pok [OF this] show ?case by (simp add: pok_def)
qed

lemma parse_stmt_good: "pwf s \<Longrightarrow> good (Suc (tok_pos s)) s (parse_stmt s)"
  using parse_stmt_depth_pok [of "bound s"] by (simp add: parse_stmt_def pok_def bound_def)

lemma top_loop_good:
  assumes "pwf s" "valid r s" "length (tokens s) < tok_pos s + k"
  shows "good (tok_pos s) s (top_loop k r s)"
  using assms
proof (induction k arbitrary: s)
  case 0
  then show ?case by (simp add: pwf_def)
next
  case (Suc k)
  note s = Suc.prems
  have "good (tok_pos s) s' (if GK_MAX_CHILDREN \<le> length (children (node_at s' r))
        then Some (- 1, set_error ''too many top-level statements'' s')
        else top_loop k r (skip_newlines (upd_node r (add_child st) s')))"
    if e: "ext s s'" and a: "valid st s'" and p: "Suc (tok_pos s) \<le> tok_pos s'" for st s'
  proof -
    have r': "valid r s'" using valid_ext [OF s(2) e] .
    have u: "ext s' (upd_node r (add_child st) s')" by (rule upd_children_ext(1) [OF ext_pwf [OF e] r' a])
    let ?s2 = "skip_newlines (upd_node r (add_child st) s')"
    have e3: "ext s' ?s2" by (rule ext_trans [OF u skip_newlines_ext [OF ext_pwf [OF u]]])
    have t: "tokens ?s2 = tokens s" "tok_pos s' \<le> tok_pos ?s2" using e e3 by (simp_all add: ext_def)
    have g: "good (tok_pos ?s2) ?s2 (top_loop k r ?s2)"
      by (rule Suc.IH [OF ext_pwf [OF e3] valid_ext [OF r' e3]]) (use s(3) t p in auto)
    have "good (tok_pos s) s' (top_loop k r ?s2)"
      by (rule good_ext [OF e3 good_mono [OF g]]) (use t p in simp)
    then show ?thesis using ext_pwf [OF e] by (auto intro: good_error)
  qed
  from good_then [OF parse_stmt_good [OF s(1)] this] show ?case
    using s by (auto intro: good_done)
qed

lemma gk_parse_good:
  assumes "tokens s \<noteq> []" "tok_type (last (tokens s)) = TOK_EOF"
  shows "good 0 (s\<lparr>nodes := [], tok_pos := 0\<rparr>) (gk_parse s)"
  unfolding gk_parse_def
proof (rule good_new_node)
  show "pwf (s\<lparr>nodes := [], tok_pos := 0\<rparr>)" using assms by (simp add: pwf_def)
  fix r s1 assume e: "ext (s\<lparr>nodes := [], tok_pos := 0\<rparr>) s1" and v: "valid r s1"
  have sk: "ext s1 (skip_newlines s1)" by (rule skip_newlines_ext [OF ext_pwf [OF e]])
  have g: "good (tok_pos (skip_newlines s1)) (skip_newlines s1) (top_loop (bound s1) r (skip_newlines s1))"
    by (rule top_loop_good [OF ext_pwf [OF sk] valid_ext [OF v sk]])
      (use sk in \<open>simp add: bound_def ext_def\<close>)
  show "good 0 s1 (top_loop (bound s1) r (skip_newlines s1))"
    by (rule good_ext [OF sk good_mono [OF g]]) simp
qed

section \<open>The property\<close>



end
