(* ===== verification/Gk_Interp_Props.thy ===== *)
theory Gk_Interp_Props
  imports Gk_Interp Gk_Parser_Props
begin

text \<open>
  Properties of the interpreter: scoping and resource bounds of every evaluation, independence of the
  result from the fuel, and the conversions between integers and their decimal text.
\<close>

section \<open>What an evaluation may change\<close>

text \<open>\<open>frame s s'\<close>: the call depth is restored, the program is not touched, the variables of
  the calling scopes keep their values, functions are only added, and the tables stay within bounds.\<close>

definition frame :: "GkState \<Rightarrow> GkState \<Rightarrow> bool" where
  "frame s s' \<longleftrightarrow> call_depth s' = call_depth s \<and> nodes s' = nodes s \<and> tokens s' = tokens s \<and>
     filter (\<lambda>x. var_scope x < call_depth s) (vars s') = filter (\<lambda>x. var_scope x < call_depth s) (vars s) \<and>
     (length (vars s) \<le> GK_MAX_VARS \<longrightarrow> length (vars s') \<le> GK_MAX_VARS) \<and>
     (\<exists>fs. funcs s' = funcs s @ fs) \<and>
     (length (funcs s) \<le> GK_MAX_FUNCS \<longrightarrow> length (funcs s') \<le> GK_MAX_FUNCS)"

definition keeps :: "GkState \<Rightarrow> ('a \<times> GkState) option \<Rightarrow> bool" where
  "keeps s r \<longleftrightarrow> (\<forall>v s'. r = Some (v, s') \<longrightarrow> frame s s')"

definition ev_keeps :: "evaluator \<Rightarrow> bool" where
  "ev_keeps ev \<longleftrightarrow> (\<forall>i s. keeps s (ev i s))"

lemma frame_refl [simp]: "frame s s"
  by (simp add: frame_def)

lemma frame_trans: "frame s s1 \<Longrightarrow> frame s1 s2 \<Longrightarrow> frame s s2"
  by (auto simp: frame_def)

lemma frame_upd [simp]:
  "frame s (set_error m s)" "frame s (gk_print m s)" "frame s (s\<lparr>breaking := b\<rparr>)"
  "frame s (s\<lparr>continuing := b\<rparr>)" "frame s (s\<lparr>returning := b\<rparr>)" "frame s (s\<lparr>in_pos := i\<rparr>)"
  "frame s (s\<lparr>returning := b, return_val := v\<rparr>)"
  by (simp_all add: frame_def set_error_def gk_print_def)

lemma keeps_None [simp]: "keeps s None"
  by (simp add: keeps_def)

lemma keeps_Some [simp]: "keeps s (Some (v, s')) \<longleftrightarrow> frame s s'"
  by (simp add: keeps_def)

lemma keeps_fail [simp]: "keeps s (fail m s)"
  by (simp add: fail_def)

lemma keeps_trans: "frame s s1 \<Longrightarrow> keeps s1 r \<Longrightarrow> keeps s r"
  by (auto simp: keeps_def intro: frame_trans)

lemma keeps_ev: "ev_keeps ev \<Longrightarrow> keeps s (ev i s)"
  by (simp add: ev_keeps_def)

lemma keeps_map: "keeps s r \<Longrightarrow> keeps s (map_option (\<lambda>(v, s). (f v, s)) r)"
  by (auto simp: keeps_def)

lemma keeps_bind:
  assumes "keeps s r" "\<And>v s'. frame s s' \<Longrightarrow> r = Some (v, s') \<Longrightarrow> keeps s' (f v s')"
  shows "keeps s (case r of None \<Rightarrow> None | Some (v, s') \<Rightarrow> f v s')"
  using assms by (auto simp: keeps_def intro: frame_trans split: option.split)

lemma keeps_eval_then:
  assumes "ev_keeps ev" "\<And>v s'. frame s s' \<Longrightarrow> keeps s' (f v s')"
  shows "keeps s (eval_then ev c s f)"
  unfolding eval_then_def using keeps_ev [OF assms(1)] assms(2) by (intro keeps_bind) auto

text \<open>An assignment only touches the current scope.\<close>

lemma update_var_filter:
  "update_var d name v xs = Some ys \<Longrightarrow>
     filter (\<lambda>x. var_scope x < d) ys = filter (\<lambda>x. var_scope x < d) xs \<and> length ys = length xs"
  by (induction xs arbitrary: ys) (auto split: if_splits)

lemma set_var_frame: "set_var name v s = (ok, s') \<Longrightarrow> frame s s'"
  using update_var_filter [of "call_depth s" name v "rev (vars s)"]
  by (fastforce simp: set_var_def frame_def rev_filter [symmetric] set_error_def
      split: option.splits if_splits)

lemma bind_params_frame: "bind_params ps vs s = (ok, s') \<Longrightarrow> frame s s'"
proof (induction ps vs s rule: bind_params.induct)
  case (1 p ps v vs s)
  obtain b s1 where sv: "set_var p v s = (b, s1)" by fastforce
  with 1 show ?case
    using frame_trans [OF set_var_frame [OF sv]] set_var_frame [OF sv] by (cases b) auto
qed auto

lemma filter_lower_scope:
  fixes xs ys :: "Var list"
  assumes "filter (\<lambda>x. var_scope x < Suc d) xs = filter (\<lambda>x. var_scope x < Suc d) ys"
  shows "filter (\<lambda>x. var_scope x < d) xs = filter (\<lambda>x. var_scope x < d) ys"
proof -
  have f: "filter (\<lambda>x. var_scope x < d) (filter (\<lambda>x. var_scope x < Suc d) zs) = filter (\<lambda>x. var_scope x < d) zs"
    for zs :: "Var list" unfolding filter_filter by (rule filter_cong) auto
  show ?thesis
    using arg_cong [OF assms, of "filter (\<lambda>x. var_scope x < d)"] unfolding f .
qed

lemma filter_dropWhile_disjoint:
  "(\<And>x. P x \<Longrightarrow> \<not> Q x) \<Longrightarrow> filter Q (dropWhile P xs) = filter Q xs"
  by (induction xs) auto

lemma pop_scope_frame: "frame s (pop_scope s)"
proof -
  have "filter (\<lambda>x. var_scope x < call_depth s) (dropWhile (\<lambda>x. call_depth s \<le> var_scope x) (rev (vars s))) =
      filter (\<lambda>x. var_scope x < call_depth s) (rev (vars s))"
    by (rule filter_dropWhile_disjoint) simp
  moreover have "length (dropWhile (\<lambda>x. call_depth s \<le> var_scope x) (rev (vars s))) \<le> length (vars s)"
    using length_dropWhile_le [of _ "rev (vars s)"] by simp
  ultimately show ?thesis
    by (simp add: pop_scope_def frame_def rev_filter [symmetric])
qed

lemma leave_call:
  assumes "frame (s\<lparr>call_depth := Suc (call_depth s)\<rparr>) s'"
  shows "frame s (s'\<lparr>call_depth := call_depth s' - 1\<rparr>)"
proof -
  let ?d = "call_depth s"
  have "filter (\<lambda>x. var_scope x < Suc ?d) (vars s') = filter (\<lambda>x. var_scope x < Suc ?d) (vars s)"
    using assms by (simp add: frame_def)
  from filter_lower_scope [OF this] show ?thesis using assms by (simp add: frame_def)
qed

lemma call_body_keeps:
  assumes "ev_keeps ev"
  shows "keeps s (call_body ev f args s)"
proof -
  let ?s0 = "s\<lparr>call_depth := Suc (call_depth s)\<rparr>"
  obtain ok s1 where b: "bind_params (params f) args ?s0 = (ok, s1)" by fastforce
  have f1: "frame ?s0 s1" by (rule bind_params_frame [OF b])
  show ?thesis
  proof (cases "\<not> ok \<or> ev (body_node f) s1 = None")
    case True
    then show ?thesis using b leave_call [OF f1] by (auto simp: call_body_def)
  next
    case False
    then obtain r s2 where e: "ev (body_node f) s1 = Some (r, s2)" by auto
    have "frame s1 s2" using keeps_ev [OF assms, of s1 "body_node f"] e by simp
    then have "frame ?s0 (pop_scope (s2\<lparr>returning := False\<rparr>))"
      by (rule frame_trans [OF f1 frame_trans [OF _ frame_trans [OF frame_upd(5) pop_scope_frame]]])
    from leave_call [OF this] show ?thesis using False b e by (simp add: call_body_def Let_def)
  qed
qed

lemma eval_args_keeps: "ev_keeps ev \<Longrightarrow> keeps s (eval_args ev cs s)"
proof (induction cs arbitrary: s)
  case (Cons c cs)
  show ?case
    unfolding eval_args.simps
    by (rule keeps_bind [OF keeps_ev [OF Cons.prems]])
      (use Cons in \<open>auto intro!: keeps_map [of _ _ "Cons _"]\<close>)
qed simp

lemma eval_print_keeps: "ev_keeps ev \<Longrightarrow> keeps s (eval_print ev cs s)"
proof (induction cs arbitrary: s)
  case (Cons c cs)
  show ?case
    unfolding eval_print.simps
  proof (rule keeps_eval_then [OF Cons.prems])
    fix v s'
    have "frame s' (if cs \<noteq> [] then gk_print '' '' (gk_print (val_to_str v) s') else gk_print (val_to_str v) s')"
      by (auto intro: frame_trans [OF frame_upd(2) frame_upd(2)])
    then show "keeps s' (let s = gk_print (val_to_str v) s'
       in eval_print ev cs (if cs \<noteq> [] then gk_print '' '' s else s))"
      unfolding Let_def by (rule keeps_trans [OF _ Cons.IH [OF Cons.prems]])
  qed
qed simp

lemma eval_block_keeps: "ev_keeps ev \<Longrightarrow> keeps s (eval_block ev cs r s)"
proof (induction cs arbitrary: r s)
  case (Cons c cs)
  show ?case
    unfolding eval_block.simps
    by (rule keeps_bind [OF keeps_ev [OF Cons.prems]]) (use Cons in auto)
qed simp

lemma eval_while_keeps: "ev_keeps ev \<Longrightarrow> keeps s (eval_while ev k n r s)"
proof (induction k arbitrary: r s)
  case (Suc k)
  have body: "keeps s' (case ev (child n 1) s' of
                  None \<Rightarrow> None
                | Some (r, s) \<Rightarrow>
                    if has_error s \<or> returning s then Some (r, s)
                    else if breaking s then Some (r, s\<lparr>breaking := False\<rparr>)
                    else eval_while ev k n r (s\<lparr>continuing := False\<rparr>))" for s'
    by (rule keeps_bind [OF keeps_ev [OF Suc.prems]])
      (use Suc in \<open>auto intro: keeps_trans [OF frame_upd(4)]\<close>)
  show ?case
    unfolding eval_while.simps
    by (rule keeps_bind [OF keeps_ev [OF Suc.prems]]) (use body in auto)
qed simp

lemma for_loop_keeps: "ev_keeps ev \<Longrightarrow> keeps s (for_loop ev m i n r s)"
proof (induction m arbitrary: i r s)
  case (Suc m)
  obtain ok s1 where sv: "set_var (node_str n) (VAL_INT i) s = (ok, s1)" by fastforce
  have body: "keeps s1 (case ev (child n 1) s1 of
                  None \<Rightarrow> None
                | Some (r, s) \<Rightarrow>
                    if has_error s \<or> returning s then Some (r, s)
                    else if breaking s then Some (r, s\<lparr>breaking := False\<rparr>)
                    else for_loop ev m (i + 1) n r (s\<lparr>continuing := False\<rparr>))"
    by (rule keeps_bind [OF keeps_ev [OF Suc.prems]])
      (use Suc in \<open>auto intro: keeps_trans [OF frame_upd(4)]\<close>)
  with set_var_frame [OF sv] show ?case by (auto simp: sv intro: keeps_trans)
qed simp

lemma int_op_keeps: "keeps s (int_op op a b s)"
  by (simp add: int_op_def split: TokenType.split)

lemma apply_binop_keeps: "keeps s (apply_binop op l r s)"
  using int_op_keeps by (simp add: apply_binop_def split: TokenType.split gk_value.split)

lemma eval_binop_keeps:
  assumes "ev_keeps ev"
  shows "keeps s (eval_binop ev n s)"
proof -
  note e = keeps_ev [OF assms]
  have m: "keeps s (map_option (\<lambda>(r, s). (VAL_BOOL (is_truthy r), s)) (ev c s))" for c s
    by (rule keeps_map [OF e])
  show ?thesis
    unfolding eval_binop_def
    by (auto intro!: keeps_bind [OF e] keeps_eval_then [OF assms] apply_binop_keeps m)
qed

lemma eval_node_keeps:
  assumes "ev_keeps ev"
  shows "keeps s (eval_node ev k n s)"
proof -
  note et = keeps_eval_then [OF assms]
  have rl: "keeps s (read_line s)" for s
    unfolding read_line_def by (auto intro: frame_trans [OF frame_upd(6) frame_upd(2)])
  have "keeps s (eval_var n s)" "keeps s (eval_def n s)"
    by (auto simp: eval_var_def eval_def_def frame_def split: option.split)
  moreover have "keeps s (eval_assign ev n s)"
    unfolding eval_assign_def by (rule et) (auto dest: set_var_frame split: prod.split)
  moreover have "keeps s (eval_unop ev n s)"
    unfolding eval_unop_def by (rule et) (auto split: gk_value.split)
  moreover have "keeps s (eval_input ev n s)"
  proof (cases "children n = []")
    case False
    have "keeps s' (read_line (gk_print m s'))" for m s'
      by (rule keeps_trans [OF frame_upd(2) rl])
    with False show ?thesis unfolding eval_input_def by (simp add: et)
  qed (simp add: eval_input_def rl)
  moreover have "keeps s (eval_int_cast ev n s)"
    unfolding eval_int_cast_def by (auto intro!: et split: gk_value.split option.split)
  moreover have "keeps s (eval_if ev n s)"
    unfolding eval_if_def by (rule et) (auto intro: keeps_ev [OF assms])
  moreover have "keeps s (eval_for ev n s)"
    unfolding eval_for_def Let_def
    by (auto intro!: et for_loop_keeps [OF assms] split: gk_value.split)
  moreover have "keeps s (eval_return ev n s)"
    unfolding eval_return_def by (auto intro!: et)
  moreover have ea: "eval_args ev (children n) s = Some (a, b) \<Longrightarrow> frame s b" for a b
    using eval_args_keeps [OF assms, of s "children n"] by simp
  moreover have "keeps s (eval_call ev n s)"
    unfolding eval_call_def using ea
    by (auto split: option.split intro: keeps_trans [OF _ call_body_keeps [OF assms]])
  ultimately show ?thesis
    using eval_print_keeps [OF assms] eval_block_keeps [OF assms] eval_while_keeps [OF assms]
      eval_binop_keeps [OF assms]
    by (simp add: eval_node_def split: NodeType.split)
qed

lemma eval_keeps: "keeps s (eval k i s)"
proof (induction k arbitrary: i s)
  case (Suc k)
  then have "ev_keeps (\<lambda>j t. eval k j t)" by (simp add: ev_keeps_def)
  then show ?case by (simp add: eval_node_keeps)
qed simp

section \<open>The result does not depend on the fuel\<close>

definition opt_le :: "'a option \<Rightarrow> 'a option \<Rightarrow> bool" where
  "opt_le a b \<longleftrightarrow> (\<forall>r. a = Some r \<longrightarrow> b = Some r)"

definition ev_le :: "evaluator \<Rightarrow> evaluator \<Rightarrow> bool" where
  "ev_le e f \<longleftrightarrow> (\<forall>i s. opt_le (e i s) (f i s))"

lemma opt_le_refl [simp]: "opt_le a a" "opt_le None a"
  by (simp_all add: opt_le_def)

lemma opt_le_case:
  assumes "opt_le a b" "\<And>v s. opt_le (f v s) (g v s)"
  shows "opt_le (case a of None \<Rightarrow> None | Some (v, s) \<Rightarrow> f v s)
     (case b of None \<Rightarrow> None | Some (v, s) \<Rightarrow> g v s)"
  using assms by (auto simp: opt_le_def split: option.splits)

lemma opt_le_map: "opt_le a b \<Longrightarrow> opt_le (map_option f a) (map_option f b)"
  by (auto simp: opt_le_def)

lemma opt_le_then:
  assumes "ev_le e e'" "\<And>v s. opt_le (f v s) (g v s)"
  shows "opt_le (eval_then e c s f) (eval_then e' c s g)"
  unfolding eval_then_def using assms by (intro opt_le_case) (auto simp: ev_le_def)

lemma loops_le:
  assumes le: "ev_le e e'"
  shows "opt_le (eval_print e cs s) (eval_print e' cs s)"
    and "opt_le (eval_block e cs r s) (eval_block e' cs r s)"
    and "opt_le (eval_args e cs s) (eval_args e' cs s)"
    and "k \<le> k' \<Longrightarrow> opt_le (eval_while e k n r s) (eval_while e' k' n r s)"
    and "opt_le (for_loop e m i n r s) (for_loop e' m i n r s)"
proof -
  have ev: "opt_le (e c t) (e' c t)" for c t using le by (simp add: ev_le_def)
  show "opt_le (eval_print e cs s) (eval_print e' cs s)"
    by (induction cs arbitrary: s) (auto simp: Let_def intro!: opt_le_then [OF le])
  show "opt_le (eval_block e cs r s) (eval_block e' cs r s)"
    by (induction cs arbitrary: r s) (auto intro!: opt_le_case ev)
  show "opt_le (eval_args e cs s) (eval_args e' cs s)"
    by (induction cs arbitrary: s) (auto intro!: opt_le_case ev opt_le_map)
  show "k \<le> k' \<Longrightarrow> opt_le (eval_while e k n r s) (eval_while e' k' n r s)"
  proof (induction k arbitrary: k' r s)
    case (Suc k)
    then obtain k'' where "k' = Suc k''" "k \<le> k''" by (cases k') auto
    then show ?case using Suc.IH by (auto intro!: opt_le_case ev)
  qed simp
  show "opt_le (for_loop e m i n r s) (for_loop e' m i n r s)"
    by (induction m arbitrary: i r s) (auto intro!: opt_le_case ev split: prod.split)
qed

lemma eval_node_le:
  assumes le: "ev_le e e'" and k: "k \<le> k'"
  shows "opt_le (eval_node e k n s) (eval_node e' k' n s)"
proof -
  have ev: "opt_le (e c t) (e' c t)" for c t using le by (simp add: ev_le_def)
  note th = opt_le_then [OF le]
  have body: "opt_le (call_body e f args t) (call_body e' f args t)" for f args t
    unfolding call_body_def Let_def by (auto intro!: opt_le_case ev split: prod.split)
  have "opt_le (eval_assign e n s) (eval_assign e' n s)" unfolding eval_assign_def by (rule th) simp
  moreover have "opt_le (eval_unop e n s) (eval_unop e' n s)" unfolding eval_unop_def by (rule th) simp
  moreover have "opt_le (eval_binop e n s) (eval_binop e' n s)"
    unfolding eval_binop_def by (auto intro!: opt_le_case ev opt_le_map th)
  moreover have "opt_le (eval_input e n s) (eval_input e' n s)"
    unfolding eval_input_def by (auto intro!: th)
  moreover have "opt_le (eval_int_cast e n s) (eval_int_cast e' n s)"
    unfolding eval_int_cast_def by (auto intro!: th)
  moreover have "opt_le (eval_if e n s) (eval_if e' n s)"
    unfolding eval_if_def by (rule th) (auto intro: ev)
  moreover have "opt_le (eval_for e n s) (eval_for e' n s)"
    unfolding eval_for_def Let_def by (auto intro!: th loops_le(5) [OF le] split: gk_value.split)
  moreover have "opt_le (eval_return e n s) (eval_return e' n s)"
    unfolding eval_return_def by (auto intro!: th)
  moreover have "opt_le (eval_call e n s) (eval_call e' n s)"
  proof (cases "find_func (node_str n) s")
    case (Some f)
    then show ?thesis
      unfolding eval_call_def by (auto intro!: opt_le_case loops_le(3) [OF le] body)
  qed (simp add: eval_call_def)
  ultimately show ?thesis
    using loops_le(1,2) [OF le] loops_le(4) [OF le k] by (simp add: eval_node_def split: NodeType.split)
qed

lemma eval_le: "k \<le> k' \<Longrightarrow> opt_le (eval k i s) (eval k' i s)"
proof (induction k arbitrary: k' i s)
  case (Suc k)
  then obtain k'' where k'': "k' = Suc k''" "k \<le> k''" by (cases k') auto
  then have "ev_le (\<lambda>j t. eval k j t) (\<lambda>j t. eval k'' j t)" using Suc.IH by (simp add: ev_le_def)
  from eval_node_le [OF this k''(2)] k'' show ?case by simp
qed simp

section \<open>Integers and their text\<close>

lemma digit_char:
  assumes "d < 10"
  shows "is_digit (char_of (48 + d))" and "digit_val (char_of (48 + d)) = of_nat d"
proof -
  have c: "of_char (char_of (48 + d) :: char) = 48 + d" using assms by simp
  then show "is_digit (char_of (48 + d))" "digit_val (char_of (48 + d)) = of_nat d"
    using assms by (simp_all add: is_digit_def digit_val_def)
qed

lemma minus_no_digit: "\<not> is_digit CHR ''-''"
  by (simp add: is_digit_def)

lemma parse_digits_snoc:
  "parse_digits r (cs @ [c]) =
     (case parse_digits r cs of
        None \<Rightarrow> None | Some q \<Rightarrow> if is_digit c then Some (q * 10 + digit_val c) else None)"
  by (induction r cs rule: parse_digits.induct) auto

lemma parse_dec_rev: "parse_digits 0 (rev (dec_rev n)) = Some (of_nat n)"
proof (induction n rule: dec_rev.induct)
  case (1 n)
  show ?case
  proof (cases "n = 0")
    case True
    then show ?thesis by (simp add: dec_rev.simps)
  next
    case False
    have "(of_nat n :: u32) = of_nat (n div 10 * 10 + n mod 10)" by simp
    then have "(of_nat n :: u32) = of_nat (n div 10) * 10 + of_nat (n mod 10)"
      by (simp only: of_nat_add of_nat_mult of_nat_numeral)
    then show ?thesis
      using False 1 digit_char [of "n mod 10"]
      by (simp add: dec_rev.simps [of n] parse_digits_snoc)
  qed
qed

lemma dec_rev_digits: "c \<in> set (dec_rev n) \<Longrightarrow> is_digit c"
proof (induction n rule: dec_rev.induct)
  case (1 n)
  then show ?case
    using digit_char(1) [of "n mod 10"] by (cases "n = 0") (auto simp: dec_rev.simps [of n] dec_rev.simps [of 0])
qed

lemma dec_rev_nonempty: "0 < n \<Longrightarrow> dec_rev n \<noteq> []"
  by (simp add: dec_rev.simps [of n])

lemma sint_bounds: "- (2 ^ 31) \<le> sint (v :: u32)" "sint (v :: u32) < 2 ^ 31"
  using sint_ge [of v] sint_lt [of v] by simp_all

lemma sint_uminus:
  assumes "v \<noteq> 0x80000000"
  shows "sint (- v :: u32) = - sint v"
proof -
  have "sint (0x80000000 :: u32) = - (2 ^ 31)" by simp
  then have "sint v \<noteq> - (2 ^ 31)" using assms by (metis signed_word_eqI)
  with sint_bounds [of v] have "- (2 ^ 31) \<le> - sint v" "- sint v < 2 ^ 31" by simp_all
  then show ?thesis by (simp add: sint_word_minus signed_take_bit_int_eq_self)
qed

lemma of_nat_nat_sint: "0 \<le> sint v \<Longrightarrow> of_nat (nat (sint v)) = (v :: u32)"
  by (metis of_int_of_nat_eq of_int_sint int_nat_eq scast_id scast_eq)

lemma int_cast_digits: "0 < n \<Longrightarrow> int_cast (rev (dec_rev n)) = Some (of_nat n)"
proof -
  assume n: "0 < n"
  have "hd (rev (dec_rev n)) \<in> set (dec_rev n)"
    using dec_rev_nonempty [OF n] by (metis hd_in_set rev_is_Nil_conv set_rev)
  then have "hd (rev (dec_rev n)) \<noteq> CHR ''-''" using dec_rev_digits minus_no_digit by metis
  then show ?thesis
    using dec_rev_nonempty [OF n] parse_dec_rev [of n] by (simp add: int_cast_def Let_def)
qed

lemma int_cast_neg: "0 < n \<Longrightarrow> int_cast (CHR ''-'' # rev (dec_rev n)) = Some (- of_nat n)"
  using dec_rev_nonempty [of n] parse_dec_rev [of n] by (simp add: int_cast_def Let_def)

section \<open>Properties\<close>


text \<open>More fuel never changes the result of an evaluation that has finished.\<close>

theorem eval_fuel_irrelevant:
  assumes "eval k i s = Some r" "k \<le> k'"
  shows "eval k' i s = Some r"
  using eval_le [OF assms(2), of i s] assms(1) by (simp add: opt_le_def)

text \<open>\<open>int\<close> inverts the decimal text of every integer but the most negative one, whose
  text is only a minus sign.\<close>

theorem int_to_str_roundtrip:
  "int_cast (int_to_str v) = (if v = 0x80000000 then None else Some v) \<and>
     int_to_str 0x80000000 = ''-''"
proof -
  have "int_to_str 0x80000000 = ''-''"
    by (simp add: int_to_str_def Let_def dec_rev.simps)
  moreover have "int_cast ''-'' = None" by (simp add: int_cast_def)
  moreover have "int_cast (int_to_str v) = Some v" if "v \<noteq> 0x80000000"
  proof (cases "v = 0")
    case True
    then show ?thesis by (simp add: int_to_str_def int_cast_def is_digit_def digit_val_def)
  next
    case False
    then have z: "sint v \<noteq> 0" by (simp add: signed_eq_0_iff)
    show ?thesis
    proof (cases "sint v < 0")
      case True
      have s: "sint (- v) = - sint v" by (rule sint_uminus [OF that])
      then have "(of_nat (nat (sint (- v))) :: u32) = - v" using True by (intro of_nat_nat_sint) simp
      then show ?thesis
        using int_cast_neg [of "nat (sint (- v))"] True False s by (simp add: int_to_str_def Let_def)
    next
      case False
      then show ?thesis
        using int_cast_digits [of "nat (sint v)"] of_nat_nat_sint [of v] z \<open>v \<noteq> 0\<close>
        by (simp add: int_to_str_def Let_def)
    qed
  qed
  ultimately show ?thesis by auto
qed

section \<open>Witnesses\<close>

text \<open>The program \<open>x = 2 + 2\<close> as a tree.\<close>

definition mk_node :: "NodeType \<Rightarrow> u32 \<Rightarrow> string \<Rightarrow> TokenType \<Rightarrow> int list \<Rightarrow> Node" where
  "mk_node t i str op cs =
     \<lparr>node_type = t, node_line = 1, node_int = i, node_str = str, node_op = op, children = cs\<rparr>"

definition sum_state :: GkState where
  "sum_state = gk_start\<lparr>nodes := [mk_node NODE_ASSIGN 0 ''x'' TOK_INT [1],
     mk_node NODE_BINOP 0 [] TOK_PLUS [2, 2], mk_node NODE_INT 2 [] TOK_INT []]\<rparr>"

lemma sum_eval:
  "eval 3 0 sum_state = Some (VAL_INT 4,
     sum_state\<lparr>vars := [\<lparr>var_name = ''x'', var_val = VAL_INT 4, var_scope = 0\<rparr>]\<rparr>)"
  by (simp add: numeral_3_eq_3 sum_state_def mk_node_def gk_start_def eval_node_def eval_assign_def
      eval_binop_def eval_then_def node_at_def child_def apply_binop_def int_op_def set_var_def)


theorem eval_fuel_irrelevant_witness: "\<exists>s'. eval 100 0 sum_state = Some (VAL_INT 4, s')"
  using eval_fuel_irrelevant [OF sum_eval, of 100] by auto

end
