(* ===== verification/Block_Device.thy ===== *)
theory Block_Device
  imports Gecko_Prelude "HOL-Library.Monad_Syntax"
begin

text \<open>
  Drives as the file system sees them (\<open>include/drivers/drives.h\<close>,
  \<open>include/partition/\<close>) and the access to sector buffers that the C code
  performs through casts of a byte pointer.  The state \<open>'d\<close> of the device
  behind a drive is a type parameter; the two function pointers of
  \<open>struct kdrive_t\<close> are fields that map a device state to the result of the
  call and the new state.  Every call in the sources transfers one sector, so
  the count is left out.
\<close>

section \<open>Byte buffers\<close>

definition buf16 :: "u8 list \<Rightarrow> nat \<Rightarrow> u16" where
  "buf16 b i = ucast (b ! i) OR push_bit 8 (ucast (b ! (i + 1)))"

definition buf32 :: "u8 list \<Rightarrow> nat \<Rightarrow> u32" where
  "buf32 b i = ucast (buf16 b i) OR push_bit 16 (ucast (buf16 b (i + 2)))"

definition le16 :: "u16 \<Rightarrow> u8 list" where
  "le16 w = [ucast w, ucast (drop_bit 8 w)]"

definition le32 :: "u32 \<Rightarrow> u8 list" where
  "le32 w = [ucast w, ucast (drop_bit 8 w), ucast (drop_bit 16 w), ucast (drop_bit 24 w)]"

text \<open>\<open>memcpy (b + i, bytes, n)\<close> into a buffer.\<close>

definition memcpy_at :: "u8 list \<Rightarrow> nat \<Rightarrow> u8 list \<Rightarrow> u8 list" where
  "memcpy_at b i bytes = take i b @ bytes @ drop (i + length bytes) b"

lemma length_memcpy_at [simp]: "i + length bs \<le> length b \<Longrightarrow> length (memcpy_at b i bs) = length b"
  by (simp add: memcpy_at_def)

lemma nth_memcpy_at:
  assumes "i + length bs \<le> length b" "j < length b"
  shows "memcpy_at b i bs ! j = (if i \<le> j \<and> j < i + length bs then bs ! (j - i) else b ! j)"
  using assms by (auto simp: memcpy_at_def nth_append min_def)

lemma length_le32 [simp]: "length (le32 w) = 4" by (simp add: le32_def)
lemma length_le16 [simp]: "length (le16 w) = 2" by (simp add: le16_def)

lemma buf16_bytes: "b ! i = ucast w \<Longrightarrow> b ! (i + 1) = ucast (drop_bit 8 w) \<Longrightarrow> buf16 b i = w"
proof -
  assume "b ! i = ucast w" "b ! (i + 1) = ucast (drop_bit 8 w)"
  then have "buf16 b i = ucast (ucast w :: u8) OR push_bit 8 (ucast (ucast (drop_bit 8 w) :: u8))"
    by (simp only: buf16_def)
  also have "\<dots> = w" by (rule bit_word_eqI) (auto simp: bit_simps)
  finally show ?thesis .
qed

lemma buf32_bytes:
  assumes "\<And>k. k < 4 \<Longrightarrow> b ! (i + k) = le32 w ! k"
  shows "buf32 b i = w"
proof -
  have "b ! i = ucast w" "b ! (i + 1) = ucast (drop_bit 8 w)" "b ! (i + 2) = ucast (drop_bit 16 w)"
    "b ! (i + 2 + 1) = ucast (drop_bit 24 w)"
    using assms [of 0] assms [of 1] assms [of 2] assms [of 3] by (simp_all add: le32_def eval_nat_numeral)
  then have buf: "buf32 b i = ucast (ucast (ucast w :: u8) OR push_bit 8 (ucast (ucast (drop_bit 8 w) :: u8)) :: u16)
      OR push_bit 16 (ucast (ucast (ucast (drop_bit 16 w) :: u8) OR
           push_bit 8 (ucast (ucast (drop_bit 24 w) :: u8)) :: u16))"
    by (simp only: buf32_def buf16_def)
  show ?thesis
  proof (rule bit_word_eqI)
    fix n :: nat
    assume n: "n < LENGTH(32)"
    consider "n < 8" | "8 \<le> n" "n < 16" | "16 \<le> n" "n < 24" | "24 \<le> n" by linarith
    then show "bit (buf32 b i) n = bit w n"
      unfolding buf using n by cases (auto simp: bit_simps)
  qed
qed

lemma buf32_cong: "(\<And>k. k < 4 \<Longrightarrow> b ! (i + k) = c ! (j + k)) \<Longrightarrow> buf32 b i = buf32 c j"
proof -
  assume a: "\<And>k. k < 4 \<Longrightarrow> b ! (i + k) = c ! (j + k)"
  from a [of 0] a [of 1] a [of 2] a [of 3] show ?thesis
    by (simp add: buf32_def buf16_def eval_nat_numeral)
qed

lemma buf32_memcpy_at_same: "i + 4 \<le> length b \<Longrightarrow> buf32 (memcpy_at b i (le32 w)) i = w"
  by (rule buf32_bytes) (simp add: nth_memcpy_at)

lemma buf32_memcpy_at_other:
  assumes "i + length bs \<le> length b" "j + 4 \<le> length b" "j + 4 \<le> i \<or> i + length bs \<le> j"
  shows "buf32 (memcpy_at b i bs) j = buf32 b j"
  by (rule buf32_cong) (use assms in \<open>auto simp: nth_memcpy_at\<close>)

section \<open>Partitions and drives\<close>

datatype partition_fs = FS_NONE | FS_FAT12 | FS_FAT16 | FS_FAT32

record partition =
  part_type :: partition_fs
  part_lba :: u64
  part_size :: u64

datatype partition_type = PARTITION_NONE | PARTITION_MBR | PARTITION_GPT

record partition_table =
  table_type :: partition_type
  table_count :: u8
  table_partitions :: "partition list"

record 'd kdrive =
  sector_size :: u32
  userdata1 :: u32
  partitions :: partition_table
  kread :: "'d \<Rightarrow> u64 \<Rightarrow> u8 list option \<times> 'd"
  kwrite :: "'d \<Rightarrow> u64 \<Rightarrow> u8 list \<Rightarrow> bool \<times> 'd"

text \<open>What the file system relies on in the driver and the hardware behind a
  drive: sectors of 512 bytes, the sectors below \<open>cap\<close> can be read and written,
  a read gives what was last written there and changes no sector, and a write
  changes its own sector only.  \<open>blk\<close> is the content of the medium.\<close>

definition block_device :: "'d kdrive \<Rightarrow> ('d \<Rightarrow> u64 \<Rightarrow> u8 list) \<Rightarrow> nat \<Rightarrow> bool" where
  "block_device dr blk cap \<longleftrightarrow>
     sector_size dr = 512 \<and>
     (\<forall>d a. unat a < cap \<longrightarrow> fst (kread dr d a) = Some (blk d a)) \<and>
     (\<forall>d a. blk (snd (kread dr d a)) = blk d) \<and>
     (\<forall>d a b. unat a < cap \<longrightarrow> length b = 512 \<longrightarrow>
        fst (kwrite dr d a b) \<and> blk (snd (kwrite dr d a b)) = (blk d)(a := b)) \<and>
     (\<forall>d a. length (blk d a) = 512)"

end
