(* ===== verification/Heap.thy ===== *)
theory Heap
  imports Gecko_Prelude "HOL-Library.Monad_Syntax"
begin

unbundle bit_operations_syntax

text \<open>
  The kernel heap and the memory primitives of \<open>kernel/mem.c\<close>: byte copies, \<open>strlen\<close>, and
  the free-list allocator \<open>kmalloc\<close>/\<open>kfree\<close>. A loop over the free list need not end when the list
  is cyclic: the searching functions are partial, \<open>None\<close> standing for a call that never returns.
\<close>

section \<open>Byte operations\<close>

fun copy_up :: "nat \<Rightarrow> u64 \<Rightarrow> u64 \<Rightarrow> u64 \<Rightarrow> ram \<Rightarrow> ram" where
  "copy_up 0 d s i m = m"
| "copy_up (Suc k) d s i m = copy_up k d s (i + 1) (m(d + i := m (s + i)))"

fun copy_down :: "nat \<Rightarrow> u64 \<Rightarrow> u64 \<Rightarrow> ram \<Rightarrow> ram" where
  "copy_down 0 d s m = m"
| "copy_down (Suc i) d s m = copy_down i d s (m(d + of_nat i := m (s + of_nat i)))"

definition memcpy :: "u64 \<Rightarrow> u64 \<Rightarrow> u64 \<Rightarrow> ram \<Rightarrow> ram" where
  "memcpy dest src n m = copy_up (unat n) dest src 0 m"

definition memmove :: "u64 \<Rightarrow> u64 \<Rightarrow> u64 \<Rightarrow> ram \<Rightarrow> ram" where
  "memmove dest src n m =
     (if dest < src then copy_up (unat n) dest src 0 m else copy_down (unat n) dest src m)"

fun fill :: "nat \<Rightarrow> u64 \<Rightarrow> u8 \<Rightarrow> ram \<Rightarrow> ram" where
  "fill 0 d v m = m"
| "fill (Suc k) d v m = fill k (d + 1) v (m(d := v))"

text \<open>\<open>rep stosb\<close> stores the low byte of \<open>val\<close>.\<close>

definition memset :: "u64 \<Rightarrow> u32 \<Rightarrow> u64 \<Rightarrow> ram \<Rightarrow> ram" where
  "memset dest val n m = fill (unat n) dest (ucast val) m"

partial_function (option) strlen_from :: "ram \<Rightarrow> u64 \<Rightarrow> u32 \<Rightarrow> u32 option" where
  "strlen_from m p i = (if m (p + scast i) = 0 then Some i else strlen_from m p (i + 1))"

definition strlen :: "ram \<Rightarrow> u64 \<Rightarrow> u32 option" where
  "strlen m p = strlen_from m p 0"

section \<open>The allocator\<close>

text \<open>A block header (16 bytes) in front of each payload; \<open>hdr\<close> gives the header stored at an
  address. Pointers are addresses, \<open>NULL\<close> is 0.\<close>

record block =
  bsize :: u32
  bfree :: u32
  bnext :: u64

record heap =
  hdr :: "u64 \<Rightarrow> block"
  heap_ptr :: u64
  heap_end :: u64
  free_list_head :: u64

definition ALIGN8 :: "u64 \<Rightarrow> u64" where
  "ALIGN8 x = (x + 7) AND NOT 7"

definition sizeof_block :: u64 where
  "sizeof_block = 16"

definition kalloc_init :: "heap \<Rightarrow> heap" where
  "kalloc_init s = s\<lparr>heap_ptr := 0x200000, heap_end := 0x500000, free_list_head := 0\<rparr>"

text \<open>The comparison converts the \<open>int\<close> size to \<open>unsigned long\<close>.\<close>

definition fits :: "(u64 \<Rightarrow> block) \<Rightarrow> u64 \<Rightarrow> u64 \<Rightarrow> bool" where
  "fits h sz p \<longleftrightarrow> bfree (h p) \<noteq> 0 \<and> sz \<le> scast (bsize (h p))"

partial_function (option) find_from :: "(u64 \<Rightarrow> block) \<Rightarrow> u64 \<Rightarrow> u64 \<Rightarrow> u64 option" where
  "find_from h sz p =
     (if p = 0 then Some 0 else if fits h sz p then Some p else find_from h sz (bnext (h p)))"

definition find_free_block :: "u64 \<Rightarrow> heap \<Rightarrow> u64 option" where
  "find_free_block sz s = find_from (hdr s) sz (free_list_head s)"

definition create_block :: "u64 \<Rightarrow> heap \<Rightarrow> u64 \<times> heap" where
  "create_block sz s =
     (if heap_end s < heap_ptr s + sizeof_block + sz then (0, s)
      else (heap_ptr s,
            s\<lparr>hdr := (hdr s)(heap_ptr s := \<lparr>bsize = ucast sz, bfree = 0, bnext = 0\<rparr>),
              heap_ptr := heap_ptr s + ALIGN8 (sizeof_block + sz)\<rparr>))"

definition split_block :: "u64 \<Rightarrow> u64 \<Rightarrow> heap \<Rightarrow> heap" where
  "split_block b sz s =
     (if scast (bsize (hdr s b)) \<le> sz + sizeof_block then s
      else let new_block = b + sizeof_block + sz;
               h = (hdr s)(new_block :=
                     \<lparr>bsize = ucast (scast (bsize (hdr s b)) - sz - sizeof_block), bfree = 1,
                      bnext = bnext (hdr s b)\<rparr>)
           in s\<lparr>hdr := h(b := (h b)\<lparr>bsize := ucast sz, bnext := new_block\<rparr>)\<rparr>)"

definition kmalloc :: "u64 \<Rightarrow> heap \<Rightarrow> (u64 \<times> heap) option" where
  "kmalloc nbytes s = do {
     let sz = ALIGN8 nbytes;
     b \<leftarrow> find_free_block sz s;
     if b \<noteq> 0
     then Some (b + sizeof_block,
                split_block b sz (s\<lparr>hdr := (hdr s)(b := (hdr s b)\<lparr>bfree := 0\<rparr>)\<rparr>))
     else case create_block sz s of
            (b, s') \<Rightarrow> if b = 0 then Some (0, s') else Some (b + sizeof_block, s')
   }"

definition kfree :: "u64 \<Rightarrow> heap \<Rightarrow> heap" where
  "kfree ptr s =
     (if ptr = 0 then s
      else let b = ptr - sizeof_block
           in s\<lparr>hdr := (hdr s)(b := (hdr s b)\<lparr>bfree := 1, bnext := free_list_head s\<rparr>),
                free_list_head := b\<rparr>)"

partial_function (option) combine_from :: "u64 \<Rightarrow> heap \<Rightarrow> heap option" where
  "combine_from b s =
     (if b = 0 \<or> bnext (hdr s b) = 0 then Some s
      else let n = bnext (hdr s b);
               e = b + sizeof_block + scast (bsize (hdr s b))
           in if n = e \<and> bfree (hdr s n) \<noteq> 0
              then combine_from b
                     (s\<lparr>hdr := (hdr s)(b := (hdr s b)
                         \<lparr>bsize := bsize (hdr s b) + ucast (sizeof_block + scast (bsize (hdr s n))),
                          bnext := bnext (hdr s n)\<rparr>)\<rparr>)
              else combine_from n s)"

definition combine_blocks :: "heap \<Rightarrow> heap option" where
  "combine_blocks s = combine_from (free_list_head s) s"

section \<open>Copies\<close>

lemma copy_up_spec:
  assumes "i + k = n" "n < 2 ^ 64" "unat s + n \<le> 2 ^ 64" "unat d + n \<le> 2 ^ 64" "d < s"
  shows "copy_up k d s (of_nat i) m a =
     (if unat d + i \<le> unat a \<and> unat a < unat d + n then m (s + (a - d)) else m a)"
  using assms
proof (induction k arbitrary: i m)
  case 0
  then show ?case by auto
next
  case (Suc k)
  have i: "i < n" "unat (of_nat i :: u64) = i"
    using Suc.prems by (simp_all add: unat_of_nat_small)
  have ud: "unat (d + of_nat i) = unat d + i" and us: "unat (s + of_nat i) = unat s + i"
    using Suc.prems i by (simp_all add: unat_word_ariths)
  have IH: "copy_up k d s (of_nat (Suc i)) m' a =
     (if unat d + Suc i \<le> unat a \<and> unat a < unat d + n then m' (s + (a - d)) else m' a)" for m'
    using Suc.prems by (intro Suc.IH) simp_all
  have "s + (a - d) \<noteq> d + of_nat i" if "unat d + Suc i \<le> unat a" "unat a < unat d + n"
  proof -
    have "unat (a - d) = unat a - unat d" using that by (simp add: unat_sub word_le_nat_alt)
    then have "unat (s + (a - d)) = unat s + (unat a - unat d)"
      using that Suc.prems by (simp add: unat_word_ariths)
    moreover have "unat d < unat s" using Suc.prems(5) by (simp add: word_less_nat_alt)
    ultimately have "unat (s + (a - d)) \<noteq> unat (d + of_nat i)" using that ud by linarith
    then show ?thesis by metis
  qed
  moreover have "a = d + of_nat i \<longleftrightarrow> unat a = unat d + i" by (simp add: word_unat_eq_iff ud)
  ultimately show ?case
    using IH [of "m(d + of_nat i := m (s + of_nat i))"] i(1)
    by (auto simp: add.commute [of 1])
qed

lemma copy_down_spec:
  assumes "unat s + n \<le> 2 ^ 64" "unat d + n \<le> 2 ^ 64" "s \<le> d" "n < 2 ^ 64"
  shows "copy_down n d s m a =
     (if unat d \<le> unat a \<and> unat a < unat d + n then m (s + (a - d)) else m a)"
  using assms
proof (induction n arbitrary: m)
  case (Suc n)
  have i: "unat (of_nat n :: u64) = n" using Suc.prems by (simp add: unat_of_nat_small)
  have ud: "unat (d + of_nat n) = unat d + n" and us: "unat (s + of_nat n) = unat s + n"
    using Suc.prems i by (simp_all add: unat_word_ariths)
  have IH: "copy_down n d s m' a =
     (if unat d \<le> unat a \<and> unat a < unat d + n then m' (s + (a - d)) else m' a)" for m'
    using Suc.prems by (intro Suc.IH) simp_all
  have "s + (a - d) \<noteq> d + of_nat n" if "unat d \<le> unat a" "unat a < unat d + n"
  proof -
    have "unat (a - d) = unat a - unat d" using that by (simp add: unat_sub word_le_nat_alt)
    then have "unat (s + (a - d)) = unat s + (unat a - unat d)"
      using that Suc.prems by (simp add: unat_word_ariths)
    moreover have "unat s \<le> unat d" using Suc.prems(3) by (simp add: word_le_nat_alt)
    ultimately have "unat (s + (a - d)) \<noteq> unat (d + of_nat n)" using that ud by linarith
    then show ?thesis by metis
  qed
  moreover have "a = d + of_nat n \<longleftrightarrow> unat a = unat d + n" by (simp add: word_unat_eq_iff ud)
  ultimately show ?case
    using IH [of "m(d + of_nat n := m (s + of_nat n))"] by (auto simp: less_Suc_eq)
qed auto

section \<open>Tilings\<close>

text \<open>The heap is tiled by blocks: each header is followed by its payload, whose size is a
  multiple of 8, and the next header. All pointers of the free list go to headers of the tiling; the
  list may contain blocks in use and may be cyclic.\<close>

definition csize :: "(u64 \<Rightarrow> block) \<Rightarrow> u64 \<Rightarrow> nat" where
  "csize h c = unat (bsize (h c))"

fun tiled :: "(u64 \<Rightarrow> block) \<Rightarrow> nat \<Rightarrow> u64 list \<Rightarrow> nat \<Rightarrow> bool" where
  "tiled h a [] e \<longleftrightarrow> a = e"
| "tiled h a (c # cs) e \<longleftrightarrow>
     unat c = a \<and> csize h c mod 8 = 0 \<and> tiled h (a + 16 + csize h c) cs e"

definition heap_tiling :: "heap \<Rightarrow> u64 list \<Rightarrow> bool" where
  "heap_tiling s cs \<longleftrightarrow>
     tiled (hdr s) 0x200000 cs (unat (heap_ptr s)) \<and> heap_ptr s \<le> heap_end s \<and> heap_end s = 0x500000 \<and>
     (free_list_head s = 0 \<or> free_list_head s \<in> set cs) \<and>
     (\<forall>c \<in> set cs. bnext (hdr s c) = 0 \<or> bnext (hdr s c) \<in> set cs)"

lemma tiled_le: "tiled h a cs e \<Longrightarrow> a \<le> e"
  by (induction cs arbitrary: a) fastforce+

lemma tiled_bounds:
  "tiled h a cs e \<Longrightarrow> c \<in> set cs \<Longrightarrow> a \<le> unat c \<and> unat c + 16 + csize h c \<le> e"
proof (induction cs arbitrary: a)
  case (Cons b cs)
  then show ?case using tiled_le [of h "a + 16 + csize h b" cs e] by fastforce
qed simp

lemma tiled_size8: "tiled h a cs e \<Longrightarrow> c \<in> set cs \<Longrightarrow> csize h c mod 8 = 0"
  by (induction cs arbitrary: a) auto

lemma tiled_mod8: "tiled h a cs e \<Longrightarrow> a mod 8 = 0 \<Longrightarrow> c \<in> set cs \<Longrightarrow> unat c mod 8 = 0"
proof (induction cs arbitrary: a)
  case (Cons d cs)
  then have "(a + 16 + csize h d) mod 8 = 0" by (simp add: mod_eq_0_iff_dvd)
  with Cons show ?case by auto
qed simp

lemma tiled_mod8_end: "tiled h a cs e \<Longrightarrow> a mod 8 = 0 \<Longrightarrow> e mod 8 = 0"
proof (induction cs arbitrary: a)
  case (Cons d cs)
  then have "(a + 16 + csize h d) mod 8 = 0" by (simp add: mod_eq_0_iff_dvd)
  with Cons show ?case by auto
qed simp

text \<open>Different blocks of a tiling do not overlap.\<close>

lemma tiled_disjoint:
  assumes "tiled h a cs e" "c \<in> set cs" "d \<in> set cs" "c \<noteq> d"
  shows "unat c + 16 + csize h c \<le> unat d \<or> unat d + 16 + csize h d \<le> unat c"
  using assms
proof (induction cs arbitrary: a)
  case (Cons b cs)
  then show ?case using tiled_bounds [of h "a + 16 + csize h b" cs e] by auto
qed simp

lemma tiled_cong:
  "(\<And>c. c \<in> set cs \<Longrightarrow> csize h' c = csize h c) \<Longrightarrow> tiled h' a cs e = tiled h a cs e"
  by (induction cs arbitrary: a) auto

lemma tiled_append: "tiled h a (cs @ ds) e \<longleftrightarrow> (\<exists>b. tiled h a cs b \<and> tiled h b ds e)"
  by (induction cs arbitrary: a) auto

lemma tiled_split:
  assumes t: "tiled h a cs e" and c: "c \<in> set cs" and n: "unat n = unat c + 16 + k" "k mod 8 = 0"
    and h': "csize h' c = k" "csize h' n = csize h c - k - 16" "k + 16 \<le> csize h c"
    and other: "\<And>x. x \<noteq> c \<Longrightarrow> x \<noteq> n \<Longrightarrow> csize h' x = csize h x"
  shows "\<exists>cs'. tiled h' a cs' e \<and> set cs' = insert n (set cs)"
proof -
  from c obtain l r where cs: "cs = l @ c # r" by (auto simp: in_set_conv_decomp)
  with t obtain b where tl: "tiled h a l b" and b: "unat c = b" "csize h c mod 8 = 0"
    and tr: "tiled h (16 + (b + csize h c)) r e"
    by (auto simp: tiled_append ac_simps)
  have "tiled h' a l b"
    using tl tiled_bounds [OF tl] b n by (subst tiled_cong [where h = h]) (force intro!: other)+
  moreover have "tiled h' (16 + (b + csize h c)) r e"
    using tr tiled_bounds [OF tr] b n h'(3) by (subst tiled_cong [where h = h]) (force intro!: other)+
  moreover have "(csize h c - k - 16) mod 8 = 0"
    using b(2) n(2) by (simp add: mod_eq_0_iff_dvd dvd_diff_nat)
  ultimately have "tiled h' a (l @ c # n # r) e"
    using b n h' by (auto simp: tiled_append intro!: exI [of _ b])
  then show ?thesis by (intro exI [of _ "l @ c # n # r"]) (auto simp: cs)
qed

section \<open>The operations keep a tiling\<close>

lemma unat_ALIGN8:
  assumes "unat x < 2 ^ 63"
  shows "unat (ALIGN8 x) = (unat x + 7) div 8 * 8"
proof -
  have m: "(7 :: u64) = mask 3" by (simp add: mask_eq_exp_minus_1)
  have "ALIGN8 x = (x + 7) AND NOT (mask 3)" unfolding ALIGN8_def m ..
  then have "unat (ALIGN8 x) = unat (x + 7) div 2 ^ 3 * 2 ^ 3"
    by (simp only: and_not_mask unat_push_drop_bit)
  also have "unat (x + 7) = unat x + 7" using assms by (simp add: unat_word_ariths)
  finally show ?thesis by simp
qed

lemma find_from_sound:
  assumes find: "find_from h sz p = Some b" and p: "p = 0 \<or> p \<in> S"
    and closed: "\<And>c. c \<in> S \<Longrightarrow> bnext (h c) = 0 \<or> bnext (h c) \<in> S"
  shows "b = 0 \<or> b \<in> S \<and> fits h sz b"
proof -
  have "p = 0 \<or> p \<in> S \<longrightarrow> (\<forall>c \<in> S. bnext (h c) = 0 \<or> bnext (h c) \<in> S) \<longrightarrow>
      b = 0 \<or> b \<in> S \<and> fits h sz b"
    by (rule find_from.raw_induct [of "\<lambda>h sz p b. p = 0 \<or> p \<in> S \<longrightarrow>
          (\<forall>c \<in> S. bnext (h c) = 0 \<or> bnext (h c) \<in> S) \<longrightarrow> b = 0 \<or> b \<in> S \<and> fits h sz b", OF _ find])
      (auto split: if_splits, blast+)
  with p closed show ?thesis by blast
qed

lemma tiling_csize:
  assumes "heap_tiling s cs" "c \<in> set cs"
  shows "unat (scast (bsize (hdr s c)) :: u64) = csize (hdr s) c" "csize (hdr s) c < 2 ^ 23"
    "0x200000 \<le> unat c" "unat c + 16 + csize (hdr s) c \<le> 0x500000" "csize (hdr s) c mod 8 = 0"
proof -
  have t: "tiled (hdr s) 0x200000 cs (unat (heap_ptr s))" and "unat (heap_ptr s) \<le> 0x500000"
    using assms(1) by (auto simp: heap_tiling_def word_le_nat_alt)
  with tiled_bounds [OF t assms(2)] show b: "csize (hdr s) c < 2 ^ 23"
    "0x200000 \<le> unat c" "unat c + 16 + csize (hdr s) c \<le> 0x500000" by simp_all
  then show "unat (scast (bsize (hdr s c)) :: u64) = csize (hdr s) c"
    unfolding csize_def by (intro unat_scast_small) simp
  show "csize (hdr s) c mod 8 = 0" by (rule tiled_size8 [OF t assms(2)])
qed

lemma tiling_cong:
  assumes "heap_tiling s cs" "\<And>c. csize (hdr s') c = csize (hdr s) c"
    and "heap_ptr s' = heap_ptr s" "heap_end s' = heap_end s"
    and "free_list_head s' = 0 \<or> free_list_head s' \<in> set cs"
    and "\<And>c. c \<in> set cs \<Longrightarrow> bnext (hdr s' c) = 0 \<or> bnext (hdr s' c) \<in> set cs"
  shows "heap_tiling s' cs"
  using assms tiled_cong [of cs "hdr s'" "hdr s" "0x200000" "unat (heap_ptr s)"]
  by (auto simp: heap_tiling_def)

lemma take_tiling:
  assumes "heap_tiling s cs" "b \<in> set cs"
  shows "heap_tiling (s\<lparr>hdr := (hdr s)(b := (hdr s b)\<lparr>bfree := f\<rparr>)\<rparr>) cs"
  using assms by (intro tiling_cong [OF assms(1)]) (auto simp: csize_def heap_tiling_def)

lemma kfree_tiling [gecko_wf]:
  assumes "heap_tiling s cs" "p - sizeof_block \<in> set cs"
  shows "heap_tiling (kfree p s) cs"
proof (cases "p = 0")
  case False
  with assms show ?thesis
    by (intro tiling_cong [OF assms(1)]) (auto simp: kfree_def Let_def csize_def heap_tiling_def)
qed (use assms in \<open>simp add: kfree_def\<close>)

lemma split_tiling:
  assumes t: "heap_tiling s cs" and b: "b \<in> set cs"
    and sz: "unat sz mod 8 = 0" "unat sz \<le> csize (hdr s) b"
  shows "\<exists>cs'. heap_tiling (split_block b sz s) cs' \<and> set cs \<subseteq> set cs' \<and>
     unat sz \<le> csize (hdr (split_block b sz s)) b \<and>
     bfree (hdr (split_block b sz s) b) = bfree (hdr s b) \<and>
     (\<forall>c \<in> set cs. c \<noteq> b \<longrightarrow> hdr (split_block b sz s) c = hdr s c) \<and>
     (\<forall>c \<in> set cs' - set cs. unat b + 16 + unat sz \<le> unat c \<and>
        bfree (hdr (split_block b sz s) c) = 1)"
proof -
  note cb = tiling_csize [OF t b]
  have su: "unat (sz + sizeof_block) = unat sz + 16"
    using sz cb by (simp add: sizeof_block_def unat_word_ariths)
  show ?thesis
  proof (cases "csize (hdr s) b \<le> unat sz + 16")
    case True
    then have "split_block b sz s = s" by (simp add: split_block_def word_le_nat_alt su cb(1))
    with t sz show ?thesis by (intro exI [of _ cs]) auto
  next
    case False
    define n where "n = b + sizeof_block + sz"
    define z where "z = csize (hdr s) b"
    define h where "h = (hdr s)(n := \<lparr>bsize = ucast (scast (bsize (hdr s b)) - sz - sizeof_block),
        bfree = 1, bnext = bnext (hdr s b)\<rparr>)"
    define h' where "h' = h(b := (h b)\<lparr>bsize := ucast sz, bnext := n\<rparr>)"
    have eq: "split_block b sz s = s\<lparr>hdr := h'\<rparr>"
      using False by (simp add: split_block_def word_le_nat_alt su cb(1) Let_def n_def h_def h'_def)
    have un: "unat n = unat b + 16 + unat sz"
      using sz cb by (simp add: n_def sizeof_block_def unat_word_ariths)
    have nb: "n \<noteq> b" using un by auto
    have t0: "tiled (hdr s) 0x200000 cs (unat (heap_ptr s))" using t by (simp add: heap_tiling_def)
    have nc: "n \<notin> set cs"
      using tiled_disjoint [OF t0 b, of n] nb un False by fastforce
    have "unat (scast (bsize (hdr s b)) - sz - sizeof_block :: u64) = z - unat sz - 16"
      using False cb(1) sz(2) by (simp add: z_def unat_sub word_le_nat_alt sizeof_block_def)
    then have cn: "csize h' n = z - unat sz - 16"
      using nb cb(2) by (simp add: csize_def h'_def h_def unat_ucast_down z_def)
    have cbz: "csize h' b = unat sz"
      using sz(2) cb(2) by (simp add: csize_def h'_def unat_ucast_down)
    have other: "csize h' x = csize (hdr s) x" if "x \<noteq> b" "x \<noteq> n" for x
      using that by (simp add: csize_def h'_def h_def)
    obtain cs' where cs': "tiled h' 0x200000 cs' (unat (heap_ptr s))" "set cs' = insert n (set cs)"
      using tiled_split [OF t0 b un sz(1) cbz cn [unfolded z_def] _ other] False by fastforce
    have hx: "h' x = hdr s x" if "x \<in> set cs" "x \<noteq> b" for x
      using that nc by (auto simp: h'_def h_def)
    have "heap_tiling (s\<lparr>hdr := h'\<rparr>) cs'"
      using t cs' b nb hx unfolding heap_tiling_def
      by (auto simp: h'_def h_def)
    moreover have "bfree (h' b) = bfree (hdr s b)" "bfree (h' n) = 1"
      using nb by (simp_all add: h'_def h_def)
    ultimately show ?thesis
      using hx cs'(2) cbz un unfolding eq by (intro exI [of _ cs']) auto
  qed
qed

lemma create_tiling:
  assumes t: "heap_tiling s cs" and sz: "unat sz mod 8 = 0" "unat sz \<le> 2 ^ 63"
    and c: "create_block sz s = (b, s')" "b \<noteq> 0"
  shows "heap_tiling s' (cs @ [b])" "b \<notin> set cs" "csize (hdr s') b = unat sz" "bfree (hdr s' b) = 0"
    "\<forall>c \<in> set cs. hdr s' c = hdr s c"
proof -
  have t0: "tiled (hdr s) 0x200000 cs (unat (heap_ptr s))" and le: "unat (heap_ptr s) \<le> 0x500000"
    and e: "heap_end s = 0x500000"
    using t by (auto simp: heap_tiling_def word_le_nat_alt)
  have ge: "0x200000 \<le> unat (heap_ptr s)" using tiled_le [OF t0] .
  have b: "b = heap_ptr s" and fit: "unat (heap_ptr s) + 16 + unat sz \<le> 0x500000"
    and s': "s' = s\<lparr>hdr := (hdr s)(b := \<lparr>bsize = ucast sz, bfree = 0, bnext = 0\<rparr>),
              heap_ptr := heap_ptr s + ALIGN8 (sizeof_block + sz)\<rparr>"
    using c e le sz(2)
    by (auto simp: create_block_def sizeof_block_def word_less_nat_alt unat_word_ariths split: if_splits)
  show nb: "b \<notin> set cs" using tiled_bounds [OF t0] b by fastforce
  have "unat (sizeof_block + sz) = unat sz + 16" using fit by (simp add: sizeof_block_def unat_word_ariths)
  then have al: "unat (ALIGN8 (sizeof_block + sz)) = unat sz + 16"
    using sz fit by (subst unat_ALIGN8) auto
  then have hp: "unat (heap_ptr s') = unat b + 16 + unat sz"
    using fit by (simp add: s' b unat_word_ariths)
  show cb: "csize (hdr s') b = unat sz" and "bfree (hdr s' b) = 0"
    using fit by (simp_all add: s' csize_def unat_ucast_down)
  show same: "\<forall>c \<in> set cs. hdr s' c = hdr s c" using nb by (auto simp: s')
  have "tiled (hdr s') 0x200000 cs (unat b)"
    using t0 same b by (subst tiled_cong [where h = "hdr s"]) (auto simp: csize_def)
  with hp cb sz(1) have "tiled (hdr s') 0x200000 (cs @ [b]) (unat (heap_ptr s'))"
    by (simp add: tiled_append)
  then show "heap_tiling s' (cs @ [b])"
    using t same hp fit b unfolding heap_tiling_def by (auto simp: s' word_le_nat_alt)
qed

lemma kmalloc_tiling:
  assumes t: "heap_tiling s cs" and n: "unat n \<le> 2 ^ 62" and c: "kmalloc n s = Some (p, s')" "p \<noteq> 0"
  shows "\<exists>b cs'. p = b + sizeof_block \<and> heap_tiling s' cs' \<and> set cs \<subseteq> set cs' \<and> b \<in> set cs' \<and>
     (b \<in> set cs \<longrightarrow> bfree (hdr s b) \<noteq> 0) \<and> bfree (hdr s' b) = 0 \<and> unat n \<le> csize (hdr s') b \<and>
     (\<forall>c \<in> set cs. c \<noteq> b \<longrightarrow> hdr s' c = hdr s c)"
proof -
  let ?z = "ALIGN8 n"
  have z: "unat ?z = (unat n + 7) div 8 * 8" using n by (intro unat_ALIGN8) simp
  then have z8: "unat ?z mod 8 = 0" "unat ?z \<le> 2 ^ 63" "unat n \<le> unat ?z" using n by simp_all
  from c(1) obtain b where f: "find_free_block ?z s = Some b"
    by (auto simp: kmalloc_def Let_def split: Option.bind_splits)
  show ?thesis
  proof (cases "b = 0")
    case True
    obtain b' s1 where cr: "create_block ?z s = (b', s1)" by fastforce
    with c f True have b': "b' \<noteq> 0" "p = b' + sizeof_block" "s' = s1"
      by (auto simp: kmalloc_def Let_def split: if_splits)
    note r = create_tiling [OF t z8(1,2) cr b'(1)]
    show ?thesis
      using r b' z8(3) by (intro exI [of _ b'] exI [of _ "cs @ [b']"]) auto
  next
    case False
    let ?s = "s\<lparr>hdr := (hdr s)(b := (hdr s b)\<lparr>bfree := 0\<rparr>)\<rparr>"
    have "b \<in> set cs \<and> fits (hdr s) ?z b"
      using find_from_sound [OF f [unfolded find_free_block_def], of "set cs"] t False
      by (auto simp: heap_tiling_def)
    then have b: "b \<in> set cs" "bfree (hdr s b) \<noteq> 0" "unat ?z \<le> csize (hdr s) b"
      using tiling_csize(1) [OF t] by (auto simp: fits_def word_le_nat_alt)
    have cs: "csize (hdr ?s) b = csize (hdr s) b" by (simp add: csize_def)
    from c f False have p: "p = b + sizeof_block" "s' = split_block b ?z ?s"
      by (simp_all add: kmalloc_def Let_def)
    obtain cs' where "heap_tiling s' cs'" "set cs \<subseteq> set cs'" "unat ?z \<le> csize (hdr s') b"
      "bfree (hdr s' b) = 0" "\<forall>c \<in> set cs. c \<noteq> b \<longrightarrow> hdr s' c = hdr s c"
      using split_tiling [OF take_tiling [OF t b(1), of 0] b(1) z8(1)] b(3) cs p(2) by auto
    then show ?thesis
      using p(1) b z8(3) by (intro exI [of _ b] exI [of _ cs']) auto
  qed
qed

section \<open>Acyclic free lists\<close>

fun free_chain :: "(u64 \<Rightarrow> block) \<Rightarrow> u64 \<Rightarrow> u64 list \<Rightarrow> bool" where
  "free_chain h p [] \<longleftrightarrow> p = 0"
| "free_chain h p (c # cs) \<longleftrightarrow> p = c \<and> c \<noteq> 0 \<and> free_chain h (bnext (h c)) cs"

lemma find_from_chain:
  "free_chain h p cs \<Longrightarrow>
     find_from h sz p = Some (case find (fits h sz) cs of None \<Rightarrow> 0 | Some c \<Rightarrow> c)"
proof (induction cs arbitrary: p)
  case Nil
  then show ?case by (simp add: find_from.simps)
next
  case (Cons c cs)
  then show ?case by (simp add: find_from.simps [of h sz c])
qed

text \<open>A free-list node that points to itself and does not fit is searched forever.\<close>

lemma find_from_self_loop:
  assumes "p \<noteq> 0" "bnext (h p) = p" "\<not> fits h sz p"
  shows "find_from h sz p = None"
proof (rule ccontr)
  assume "find_from h sz p \<noteq> None"
  then obtain b where find: "find_from h sz p = Some b" by blast
  have "bnext (h p) = p \<longrightarrow> p \<noteq> 0 \<longrightarrow> fits h sz p"
    by (rule find_from.raw_induct [of "\<lambda>h sz p b. bnext (h p) = p \<longrightarrow> p \<noteq> 0 \<longrightarrow> fits h sz p", OF _ find])
      (auto split: if_splits)
  with assms show False by blast
qed

section \<open>Properties\<close>

definition payload :: "(u64 \<Rightarrow> block) \<Rightarrow> u64 \<Rightarrow> nat set" where
  "payload h c = {unat c + 16..<unat c + 16 + csize h c}"

definition live :: "heap \<Rightarrow> u64 list \<Rightarrow> u64 set" where
  "live s cs = {c \<in> set cs. bfree (hdr s c) = 0}"

text \<open>C10. \<open>kmalloc\<close> is safe on every tiled heap, even when blocks in use are still linked in the
  free list: the memory it returns lies in the heap, is 8-byte aligned, is at least as large as
  requested, and overlaps no block that was in use; blocks in use stay in use with the same extent,
  and the heap stays tiled.\<close>

theorem kmalloc_safe:
  assumes "heap_tiling s cs" "unat n \<le> 2 ^ 62" "kmalloc n s = Some (p, s')" "p \<noteq> 0"
  shows "\<exists>b cs'. p = b + sizeof_block \<and> heap_tiling s' cs' \<and> b \<in> live s' cs' \<and>
     unat p mod 8 = 0 \<and> unat n \<le> csize (hdr s') b \<and>
     payload (hdr s') b \<subseteq> {0x200000..<0x500000} \<and>
     live s cs \<subseteq> live s' cs' \<and>
     (\<forall>c \<in> live s cs. payload (hdr s') c = payload (hdr s) c \<and>
        payload (hdr s') c \<inter> payload (hdr s') b = {})"
proof -
  obtain b cs' where r: "p = b + sizeof_block" "heap_tiling s' cs'" "set cs \<subseteq> set cs'" "b \<in> set cs'"
    "b \<in> set cs \<longrightarrow> bfree (hdr s b) \<noteq> 0" "bfree (hdr s' b) = 0" "unat n \<le> csize (hdr s') b"
    and same: "\<forall>c \<in> set cs. c \<noteq> b \<longrightarrow> hdr s' c = hdr s c"
    using kmalloc_tiling [OF assms] by blast
  have t: "tiled (hdr s') 0x200000 cs' (unat (heap_ptr s'))" using r(2) by (simp add: heap_tiling_def)
  note tb = tiling_csize [OF r(2,4)]
  have "unat p = unat b + 16" using tb by (simp add: r(1) sizeof_block_def unat_word_ariths)
  then have "unat p mod 8 = 0" using tiled_mod8 [OF t _ r(4)] by simp presburger
  moreover have "payload (hdr s') b \<subseteq> {0x200000..<0x500000}" using tb by (auto simp: payload_def)
  moreover have other: "c \<noteq> b \<and> hdr s' c = hdr s c \<and> c \<in> set cs'" if "c \<in> live s cs" for c
    using that r(3,5) same by (auto simp: live_def)
  moreover have "payload (hdr s') c = payload (hdr s) c" if "c \<in> live s cs" for c
    using other [OF that] by (simp add: payload_def csize_def)
  moreover have "payload (hdr s') c \<inter> payload (hdr s') b = {}" if "c \<in> live s cs" for c
    using tiled_disjoint [OF t _ r(4), of c] other [OF that] by (auto simp: payload_def)
  ultimately show ?thesis
    using r by (intro exI [of _ b] exI [of _ cs']) (auto simp: live_def)
qed

text \<open>C11. While the free list is acyclic every \<open>kmalloc\<close> call returns, and it takes the first
  free block of the list that is large enough before it grows the heap.\<close>

theorem kmalloc_returns:
  assumes "free_chain (hdr s) (free_list_head s) cs"
  shows "\<exists>p s'. kmalloc n s = Some (p, s') \<and>
     (\<forall>b. find (fits (hdr s) (ALIGN8 n)) cs = Some b \<longrightarrow> p = b + sizeof_block)"
proof -
  have f: "find_free_block (ALIGN8 n) s =
      Some (case find (fits (hdr s) (ALIGN8 n)) cs of None \<Rightarrow> 0 | Some c \<Rightarrow> c)"
    using find_from_chain [OF assms] by (simp add: find_free_block_def)
  have "c \<noteq> 0" if "free_chain h p cs" "c \<in> set cs" for h p c
    using that by (induction cs arbitrary: p) auto
  then have "find (fits (hdr s) (ALIGN8 n)) cs = Some b \<Longrightarrow> b \<noteq> 0" for b
    using assms by (metis find_Some_iff nth_mem)
  with f show ?thesis
    by (auto simp: kmalloc_def Let_def split: option.splits prod.splits)
qed

text \<open>\<open>kmalloc\<close> leaves a reused block in the free list, so freeing it again makes it point to
  itself: from an empty heap, two rounds of \<open>kmalloc (8)\<close> and \<open>kfree\<close> followed by a larger request
  never return.\<close>

theorem kmalloc_diverges_after_reuse:
  "\<exists>p s1 s2. kmalloc 8 (kalloc_init s) = Some (p, s1) \<and> kmalloc 8 (kfree p s1) = Some (p, s2) \<and>
     kmalloc 16 (kfree p s2) = None"
proof -
  define h1 where "h1 = (hdr s)(0x200000 := \<lparr>bsize = 8, bfree = 0, bnext = 0\<rparr>)"
  define s1 where "s1 = (kalloc_init s)\<lparr>hdr := h1, heap_ptr := 0x200018\<rparr>"
  define s2 where "s2 = s1\<lparr>free_list_head := 0x200000\<rparr>"
  have a8: "ALIGN8 8 = 8" "ALIGN8 16 = 16" "ALIGN8 24 = 24" by (simp_all add: ALIGN8_def)
  have k1: "kmalloc 8 (kalloc_init s) = Some (0x200010, s1)"
    by (simp add: kmalloc_def find_free_block_def find_from.simps a8 kalloc_init_def create_block_def
        sizeof_block_def s1_def h1_def)
  have f1: "kfree 0x200010 s1 = s1\<lparr>hdr := (hdr s)(0x200000 := \<lparr>bsize = 8, bfree = 1, bnext = 0\<rparr>),
      free_list_head := 0x200000\<rparr>"
    by (simp add: kfree_def sizeof_block_def s1_def h1_def kalloc_init_def)
  have ff: "find_from ((hdr s)(0x200000 := \<lparr>bsize = 8, bfree = 1, bnext = 0\<rparr>)) 8 0x200000 = Some 0x200000"
    by (subst find_from.simps) (simp add: fits_def)
  have k2: "kmalloc 8 (kfree 0x200010 s1) = Some (0x200010, s2)"
    unfolding f1
    by (simp add: kmalloc_def find_free_block_def ff a8 split_block_def sizeof_block_def s2_def
        s1_def h1_def)
  have f2: "kfree 0x200010 s2 = s2\<lparr>hdr := (hdr s)(0x200000 := \<lparr>bsize = 8, bfree = 1, bnext = 0x200000\<rparr>)\<rparr>"
    by (simp add: kfree_def sizeof_block_def s2_def s1_def h1_def)
  have "kmalloc 16 (kfree 0x200010 s2) = None"
    unfolding f2 by (simp add: kmalloc_def find_free_block_def a8 s2_def find_from_self_loop fits_def)
  with k1 k2 show ?thesis by blast
qed

text \<open>C12. \<open>memmove\<close> copies correctly whatever the overlap of source and destination: every
  destination byte gets the source byte of the memory before the call, all other bytes keep their
  value.\<close>

theorem memmove_correct:
  assumes "unat src + unat n \<le> 2 ^ 64" "unat dest + unat n \<le> 2 ^ 64"
  shows "memmove dest src n m a =
     (if unat dest \<le> unat a \<and> unat a < unat dest + unat n then m (src + (a - dest)) else m a)"
proof -
  have n: "unat n < 2 ^ 64" using unsigned_less [of n, where 'a = nat] by simp
  show ?thesis
  proof (cases "dest < src")
    case True
    then show ?thesis
      using copy_up_spec [OF _ n assms True, of 0 "unat n"] by (simp add: memmove_def)
  next
    case False
    then show ?thesis
      using copy_down_spec [OF assms _ n] by (simp add: memmove_def)
  qed
qed

section \<open>Witnesses\<close>

definition empty_heap :: heap where
  "empty_heap = \<lparr>hdr = (\<lambda>a. \<lparr>bsize = 0, bfree = 0, bnext = 0\<rparr>), heap_ptr = 0x200000,
     heap_end = 0x500000, free_list_head = 0\<rparr>"

lemma empty_heap_tiling: "heap_tiling empty_heap []"
  by (simp add: heap_tiling_def empty_heap_def)

lemma empty_heap_alloc: "fst (the (kmalloc 5 empty_heap)) = 0x200010" "kmalloc 5 empty_heap \<noteq> None"
  by (simp_all add: kmalloc_def find_free_block_def find_from.simps ALIGN8_def empty_heap_def
      create_block_def sizeof_block_def)

theorem kmalloc_safe_witness:
  "\<exists>b cs'. 0x200010 = b + sizeof_block \<and> heap_tiling (snd (the (kmalloc 5 empty_heap))) cs' \<and>
     5 \<le> csize (hdr (snd (the (kmalloc 5 empty_heap)))) b"
proof -
  have "kmalloc 5 empty_heap = Some (0x200010, snd (the (kmalloc 5 empty_heap)))"
    using empty_heap_alloc by (metis option.collapse prod.collapse)
  from kmalloc_safe [OF empty_heap_tiling _ this] show ?thesis by fastforce
qed

theorem kmalloc_returns_witness: "\<exists>p s'. kmalloc 100 empty_heap = Some (p, s')"
  using kmalloc_returns [of empty_heap "[]" 100] by (auto simp: empty_heap_def)

theorem memmove_correct_witness:
  "memmove 0x1002 0x1000 4 (\<lambda>a. ucast a) 0x1004 = 2"
  using memmove_correct [of "0x1000" 4 "0x1002" "\<lambda>a. ucast a" "0x1004"] by simp

end
