(* ===== verification/Fat32.thy ===== *)
theory Fat32
  imports Block_Device Heap
begin

text \<open>
  The FAT32 driver, \<open>kernel/fs/fat32.c\<close>: on-disk structures, the file
  allocation table, 8.3 names, directory traversal with callbacks, file
  contents and the operations on files.

  Byte counts (\<open>size_t\<close>) are naturals, with the casts to \<open>uint32_t\<close> and
  \<open>int32_t\<close> written out; cluster and sector numbers are 32-bit words and wrap.
  A loop that follows a cluster chain need not end, since a damaged table may
  hold a cycle: these loops are partial functions, and \<open>None\<close> means that the
  call does not return.  The result of \<open>kread\<close> is \<open>None\<close> when the drive
  reports an error.
\<close>

section \<open>On-disk structures\<close>

record FAT32_BPB =
  jmp_boot :: "u8 list"
  oem_name :: "u8 list"
  bytes_per_sector :: u16
  sectors_per_cluster :: u8
  reserved_sectors :: u16
  num_fats :: u8
  root_entry_count :: u16
  total_sectors_16 :: u16
  media_type :: u8
  sectors_per_fat_16 :: u16
  sectors_per_track :: u16
  num_heads :: u16
  hidden_sectors :: u32
  total_sectors_32 :: u32
  sectors_per_fat_32 :: u32
  ext_flags :: u16
  fs_version :: u16
  bpb_root_cluster :: u32
  fs_info_sector :: u16
  backup_boot_sector :: u16
  bpb_reserved :: "u8 list"
  drive_number :: u8
  reserved1 :: u8
  boot_signature :: u8
  volume_id :: u32
  volume_label :: "u8 list"
  fs_type :: "u8 list"

definition load_bpb :: "u8 list \<Rightarrow> FAT32_BPB" where
  "load_bpb b = \<lparr>
     jmp_boot = take 3 b, oem_name = take 8 (drop 3 b), bytes_per_sector = buf16 b 11,
     sectors_per_cluster = b ! 13, reserved_sectors = buf16 b 14, num_fats = b ! 16,
     root_entry_count = buf16 b 17, total_sectors_16 = buf16 b 19, media_type = b ! 21,
     sectors_per_fat_16 = buf16 b 22, sectors_per_track = buf16 b 24, num_heads = buf16 b 26,
     hidden_sectors = buf32 b 28, total_sectors_32 = buf32 b 32, sectors_per_fat_32 = buf32 b 36,
     ext_flags = buf16 b 40, fs_version = buf16 b 42, bpb_root_cluster = buf32 b 44,
     fs_info_sector = buf16 b 48, backup_boot_sector = buf16 b 50, bpb_reserved = take 12 (drop 52 b),
     drive_number = b ! 64, reserved1 = b ! 65, boot_signature = b ! 66, volume_id = buf32 b 67,
     volume_label = take 11 (drop 71 b), fs_type = take 8 (drop 82 b)\<rparr>"

record FAT32_DirEntry =
  e_name :: "u8 list"
  e_ext :: "u8 list"
  attributes :: u8
  e_reserved :: u8
  create_time_tenth :: u8
  create_time :: u16
  create_date :: u16
  access_date :: u16
  first_cluster_high :: u16
  write_time :: u16
  write_date :: u16
  first_cluster_low :: u16
  e_file_size :: u32

text \<open>Entry \<open>i\<close> of a sector buffer that is viewed as an array of directory
  entries, the bytes of an entry, and the entry that \<open>memset (&entry, 0, ...)\<close> leaves.\<close>

definition load_entry :: "u8 list \<Rightarrow> nat \<Rightarrow> FAT32_DirEntry" where
  "load_entry b i = (let q = 32 * i in \<lparr>
     e_name = take 8 (drop q b), e_ext = take 3 (drop (q + 8) b), attributes = b ! (q + 11),
     e_reserved = b ! (q + 12), create_time_tenth = b ! (q + 13), create_time = buf16 b (q + 14),
     create_date = buf16 b (q + 16), access_date = buf16 b (q + 18), first_cluster_high = buf16 b (q + 20),
     write_time = buf16 b (q + 22), write_date = buf16 b (q + 24), first_cluster_low = buf16 b (q + 26),
     e_file_size = buf32 b (q + 28)\<rparr>)"

definition entry_bytes :: "FAT32_DirEntry \<Rightarrow> u8 list" where
  "entry_bytes e =
     e_name e @ e_ext e @ [attributes e, e_reserved e, create_time_tenth e] @ le16 (create_time e) @
     le16 (create_date e) @ le16 (access_date e) @ le16 (first_cluster_high e) @ le16 (write_time e) @
     le16 (write_date e) @ le16 (first_cluster_low e) @ le32 (e_file_size e)"

definition zero_entry :: FAT32_DirEntry where
  "zero_entry = \<lparr>
     e_name = replicate 8 0, e_ext = replicate 3 0, attributes = 0, e_reserved = 0, create_time_tenth = 0,
     create_time = 0, create_date = 0, access_date = 0, first_cluster_high = 0, write_time = 0,
     write_date = 0, first_cluster_low = 0, e_file_size = 0\<rparr>"

abbreviation FAT32_ATTR_VOLUME_ID :: u8 where "FAT32_ATTR_VOLUME_ID \<equiv> 0x08"
abbreviation FAT32_ATTR_DIRECTORY :: u8 where "FAT32_ATTR_DIRECTORY \<equiv> 0x10"
abbreviation FAT32_ATTR_ARCHIVE :: u8 where "FAT32_ATTR_ARCHIVE \<equiv> 0x20"
abbreviation FAT32_ATTR_LFN :: u8 where "FAT32_ATTR_LFN \<equiv> 0x0F"
abbreviation FAT32_ENTRY_FREE :: u8 where "FAT32_ENTRY_FREE \<equiv> 0xE5"
abbreviation FAT32_ENTRY_END :: u8 where "FAT32_ENTRY_END \<equiv> 0x00"
abbreviation FAT32_CLUSTER_FREE :: u32 where "FAT32_CLUSTER_FREE \<equiv> 0"
abbreviation FAT32_CLUSTER_BAD :: u32 where "FAT32_CLUSTER_BAD \<equiv> 0x0FFFFFF7"
abbreviation FAT32_CLUSTER_EOC :: u32 where "FAT32_CLUSTER_EOC \<equiv> 0x0FFFFFF8"
abbreviation FAT32_CLUSTER_MASK :: u32 where "FAT32_CLUSTER_MASK \<equiv> 0x0FFFFFFF"

record FAT32_Volume =
  bpb :: FAT32_BPB
  partition_lba :: u32
  fat_lba :: u32
  data_lba :: u32
  root_cluster :: u32
  total_sectors :: u32
  sectors_per_fat :: u32
  mounted :: u8

definition dir_entry_cluster :: "FAT32_DirEntry \<Rightarrow> u32" where
  "dir_entry_cluster e = push_bit 16 (ucast (first_cluster_high e)) OR ucast (first_cluster_low e)"

section \<open>The file allocation table\<close>

definition cluster_to_lba :: "FAT32_Volume \<Rightarrow> u32 \<Rightarrow> u32" where
  "cluster_to_lba v cluster = data_lba v + (cluster - 2) * ucast (sectors_per_cluster (bpb v))"

definition fat_sector :: "'d kdrive \<Rightarrow> FAT32_Volume \<Rightarrow> u32 \<Rightarrow> u32" where
  "fat_sector dr v cluster = fat_lba v + (cluster * 4) div sector_size dr"

definition fat_byte_offset :: "'d kdrive \<Rightarrow> u32 \<Rightarrow> nat" where
  "fat_byte_offset dr cluster = unat ((cluster * 4) mod sector_size dr)"

definition fat32_next_cluster :: "'d kdrive \<Rightarrow> FAT32_Volume \<Rightarrow> u32 \<Rightarrow> 'd \<Rightarrow> u32 \<times> 'd" where
  "fat32_next_cluster dr v cluster d =
     (case kread dr d (ucast (fat_sector dr v cluster)) of
        (None, d1) \<Rightarrow> (FAT32_CLUSTER_BAD, d1)
      | (Some sector_buf, d1) \<Rightarrow>
          (buf32 sector_buf (fat_byte_offset dr cluster) AND FAT32_CLUSTER_MASK, d1))"

definition fat_entry_update :: "u32 \<Rightarrow> u32 \<Rightarrow> u32" where
  "fat_entry_update existing val = (existing AND 0xF0000000) OR (val AND FAT32_CLUSTER_MASK)"

definition fat32_write_fat :: "'d kdrive \<Rightarrow> FAT32_Volume \<Rightarrow> u32 \<Rightarrow> u32 \<Rightarrow> 'd \<Rightarrow> int \<times> 'd" where
  "fat32_write_fat dr v cluster val d =
     (case kread dr d (ucast (fat_sector dr v cluster)) of
        (None, d1) \<Rightarrow> (- 1, d1)
      | (Some tmp, d1) \<Rightarrow>
          let off = fat_byte_offset dr cluster;
              tmp1 = memcpy_at tmp off (le32 (fat_entry_update (buf32 tmp off) val));
              (ok, d2) = kwrite dr d1 (ucast (fat_sector dr v cluster)) tmp1
          in if \<not> ok then (- 1, d2)
             else if 1 < num_fats (bpb v) then
               let (ok2, d3) = kwrite dr d2 (ucast (fat_sector dr v cluster + sectors_per_fat v)) tmp1
               in (if ok2 then 0 else - 1, d3)
             else (0, d2))"

text \<open>The inner loop of the allocator: the first entry from \<open>e\<close> on, of the
  \<open>n\<close> entries left, that is free and is not one of the two reserved entries.\<close>

fun alloc_entry :: "u32 \<Rightarrow> u8 list \<Rightarrow> u32 \<Rightarrow> u32 \<Rightarrow> nat \<Rightarrow> u32 option" where
  "alloc_entry eps tmp s e 0 = None"
| "alloc_entry eps tmp s e (Suc n) =
     (if s * eps + e < 2 then alloc_entry eps tmp s (e + 1) n
      else if buf32 tmp (unat (e * 4)) AND FAT32_CLUSTER_MASK = FAT32_CLUSTER_FREE then Some e
      else alloc_entry eps tmp s (e + 1) n)"

fun alloc_sector :: "'d kdrive \<Rightarrow> FAT32_Volume \<Rightarrow> u32 \<Rightarrow> nat \<Rightarrow> 'd \<Rightarrow> u32 \<times> 'd" where
  "alloc_sector dr v s 0 d = (0, d)"
| "alloc_sector dr v s (Suc n) d =
     (let eps = sector_size dr div 4 in
      case kread dr d (ucast (fat_lba v + s)) of
        (None, d1) \<Rightarrow> (0, d1)
      | (Some tmp, d1) \<Rightarrow>
          case alloc_entry eps tmp s 0 (unat eps) of
            None \<Rightarrow> alloc_sector dr v (s + 1) n d1
          | Some e \<Rightarrow>
              let off = unat (e * 4);
                  tmp1 = memcpy_at tmp off (le32 (fat_entry_update (buf32 tmp off) FAT32_CLUSTER_EOC));
                  (ok, d2) = kwrite dr d1 (ucast (fat_lba v + s)) tmp1
              in if \<not> ok then (0, d2)
                 else (s * eps + e,
                       if 1 < num_fats (bpb v)
                       then snd (kwrite dr d2 (ucast (fat_lba v + sectors_per_fat v + s)) tmp1)
                       else d2))"

definition fat32_alloc_cluster :: "'d kdrive \<Rightarrow> FAT32_Volume \<Rightarrow> 'd \<Rightarrow> u32 \<times> 'd" where
  "fat32_alloc_cluster dr v d = alloc_sector dr v 0 (unat (sectors_per_fat v)) d"

section \<open>8.3 names\<close>

abbreviation SPACE :: u8 where "SPACE \<equiv> 0x20"
abbreviation DOT :: u8 where "DOT \<equiv> 0x2E"

definition upper :: "u8 \<Rightarrow> u8" where
  "upper c = (if 0x61 \<le> c \<and> c \<le> 0x7A then c - 32 else c)"

definition format_83_name :: "u8 list \<Rightarrow> u8 list \<Rightarrow> u8 list" where
  "format_83_name raw_name raw_ext =
     takeWhile (\<lambda>c. c \<noteq> SPACE) raw_name @
     (if list_ex (\<lambda>c. c \<noteq> SPACE) raw_ext then DOT # takeWhile (\<lambda>c. c \<noteq> SPACE) raw_ext else [])"

fun last_dot :: "u8 list \<Rightarrow> nat \<Rightarrow> nat option \<Rightarrow> nat option" where
  "last_dot [] i dot = dot"
| "last_dot (c # cs) i dot = last_dot cs (i + 1) (if c = DOT then Some i else dot)"

definition pad_field :: "nat \<Rightarrow> u8 list \<Rightarrow> u8 list" where
  "pad_field n cs = map upper (take n cs) @ replicate (n - length cs) SPACE"

definition encode_83_name :: "u8 list \<Rightarrow> u8 list \<times> u8 list" where
  "encode_83_name name =
     (case last_dot name 0 None of
        None \<Rightarrow> (pad_field 8 name, pad_field 3 [])
      | Some dot \<Rightarrow> (pad_field 8 (take dot name), pad_field 3 (drop (dot + 1) name)))"

section \<open>Directories\<close>

text \<open>A callback gets an entry, its sector and its index and updates the
  context; \<open>True\<close> stops the iteration.\<close>

type_synonym 'c dir_entry_cb = "FAT32_DirEntry \<Rightarrow> u32 \<Rightarrow> u32 \<Rightarrow> 'c \<Rightarrow> bool \<times> 'c"

fun iterate_entries :: "'c dir_entry_cb \<Rightarrow> u8 list \<Rightarrow> u32 \<Rightarrow> nat list \<Rightarrow> 'c \<Rightarrow> bool \<times> 'c" where
  "iterate_entries cb buf lba [] ctx = (False, ctx)"
| "iterate_entries cb buf lba (e # es) ctx =
     (case cb (load_entry buf e) lba (of_nat e) ctx of
        (True, ctx1) \<Rightarrow> (True, ctx1)
      | (False, ctx1) \<Rightarrow> iterate_entries cb buf lba es ctx1)"

fun iterate_sectors :: "'d kdrive \<Rightarrow> 'c dir_entry_cb \<Rightarrow> u32 \<Rightarrow> nat list \<Rightarrow> 'c \<Rightarrow> 'd \<Rightarrow> bool \<times> 'c \<times> 'd" where
  "iterate_sectors dr cb lba [] ctx d = (False, ctx, d)"
| "iterate_sectors dr cb lba (s # ss) ctx d =
     (case kread dr d (ucast (lba + of_nat s)) of
        (None, d1) \<Rightarrow> (True, ctx, d1)
      | (Some buf, d1) \<Rightarrow>
          case iterate_entries cb buf (lba + of_nat s) [0..<unat (sector_size dr) div 32] ctx of
            (True, ctx1) \<Rightarrow> (True, ctx1, d1)
          | (False, ctx1) \<Rightarrow> iterate_sectors dr cb lba ss ctx1 d1)"

partial_function (option) fat32_dir_iterate ::
  "'d kdrive \<Rightarrow> FAT32_Volume \<Rightarrow> 'c dir_entry_cb \<Rightarrow> u32 \<Rightarrow> 'c \<Rightarrow> 'd \<Rightarrow> ('c \<times> 'd) option" where
  "fat32_dir_iterate dr v cb cluster ctx d =
     (if 2 \<le> cluster \<and> cluster < FAT32_CLUSTER_BAD then
        case iterate_sectors dr cb (cluster_to_lba v cluster)
               [0..<unat (sectors_per_cluster (bpb v))] ctx d of
          (stop, ctx1, d1) \<Rightarrow>
            if stop then Some (ctx1, d1)
            else fat32_dir_iterate dr v cb (fst (fat32_next_cluster dr v cluster d1)) ctx1
                   (snd (fat32_next_cluster dr v cluster d1))
      else Some (ctx, d))"

record DirSearchCtx =
  target8 :: "u8 list"
  target3 :: "u8 list"
  find_free :: bool
  find_match :: bool
  found :: bool
  found_lba :: u32
  found_idx :: u32
  search_result :: FAT32_DirEntry

definition zero_ctx :: DirSearchCtx where
  "zero_ctx = \<lparr>target8 = replicate 8 0, target3 = replicate 3 0, find_free = False, find_match = False,
     found = False, found_lba = 0, found_idx = 0, search_result = zero_entry\<rparr>"

definition skipped :: "FAT32_DirEntry \<Rightarrow> bool" where
  "skipped e \<longleftrightarrow> e_name e ! 0 = FAT32_ENTRY_FREE \<or> attributes e AND FAT32_ATTR_VOLUME_ID \<noteq> 0 \<or>
     attributes e AND FAT32_ATTR_LFN = FAT32_ATTR_LFN"

definition dir_search_cb :: "DirSearchCtx dir_entry_cb" where
  "dir_search_cb e lba idx ctx =
     (if find_free ctx then
        if e_name e ! 0 = FAT32_ENTRY_FREE \<or> e_name e ! 0 = FAT32_ENTRY_END
        then (True, ctx\<lparr>found := True, found_lba := lba, found_idx := idx\<rparr>)
        else (False, ctx)
      else if find_match ctx then
        if e_name e ! 0 = FAT32_ENTRY_END then (True, ctx)
        else if skipped e then (False, ctx)
        else if e_name e = target8 ctx \<and> e_ext e = target3 ctx
        then (True, ctx\<lparr>found := True, found_lba := lba, found_idx := idx, search_result := e\<rparr>)
        else (False, ctx)
      else (False, ctx))"

definition fat32_write_dir_entry :: "'d kdrive \<Rightarrow> u32 \<Rightarrow> u32 \<Rightarrow> FAT32_DirEntry \<Rightarrow> 'd \<Rightarrow> int \<times> 'd" where
  "fat32_write_dir_entry dr lba idx entry d =
     (case kread dr d (ucast lba) of
        (None, d1) \<Rightarrow> (- 1, d1)
      | (Some tmp, d1) \<Rightarrow>
          let (ok, d2) = kwrite dr d1 (ucast lba) (memcpy_at tmp (32 * unat idx) (entry_bytes entry))
          in (if ok then 0 else - 1, d2))"

end
