(* ===== verification/Fat32_File.thy ===== *)
theory Fat32_File
  imports Fat32
begin

text \<open>
  The second half of \<open>kernel/fs/fat32.c\<close>: contents of files, cluster chains,
  the operations on files and directories, enumeration of the root directory
  and mounting.  The data that a read stores in the caller's buffer is
  returned as a list; the kernel heap is threaded through the operations that
  call \<open>kmalloc\<close>.  A \<open>kmalloc\<close> result that the code uses without the NULL
  check gives \<open>None\<close>.
\<close>

section \<open>Files\<close>

record drive_file =
  file_name :: "u8 list"
  file_size :: nat
  file_cluster :: u32

record drive_dir =
  dir_name :: "u8 list"

datatype drive_entry = ENTRY_FILE drive_file | ENTRY_DIRECTORY drive_dir

record 'd drive_fs =
  fs_drive :: "'d kdrive"
  fs_volume :: FAT32_Volume

definition cluster_bytes :: "FAT32_Volume \<Rightarrow> nat" where
  "cluster_bytes v = unat (bytes_per_sector (bpb v)) * unat (sectors_per_cluster (bpb v))"

text \<open>The value of a byte count after a cast to \<open>uint32_t\<close>, and to \<open>int32_t\<close>.\<close>

definition to_u32 :: "nat \<Rightarrow> nat" where
  "to_u32 n = n mod 2 ^ 32"

definition to_s32 :: "nat \<Rightarrow> int" where
  "to_s32 n = (if to_u32 n < 2 ^ 31 then int (to_u32 n) else int (to_u32 n) - 2 ^ 32)"

fun skip_clusters :: "'d kdrive \<Rightarrow> FAT32_Volume \<Rightarrow> nat \<Rightarrow> u32 \<Rightarrow> 'd \<Rightarrow> u32 option \<times> 'd" where
  "skip_clusters dr v 0 cluster d = (Some cluster, d)"
| "skip_clusters dr v (Suc n) cluster d =
     (let (next, d1) = fat32_next_cluster dr v cluster d
      in if FAT32_CLUSTER_BAD \<le> next then (None, d1) else skip_clusters dr v n next d1)"

text \<open>The loops of \<open>fat32_file_read\<close>.  The inner one returns whether a read
  failed, the offset in the cluster, the number of bytes read so far and the bytes.\<close>

partial_function (option) read_sectors ::
  "'d kdrive \<Rightarrow> u32 \<Rightarrow> nat \<Rightarrow> nat \<Rightarrow> nat \<Rightarrow> u8 list \<Rightarrow> 'd \<Rightarrow> (bool \<times> nat \<times> nat \<times> u8 list \<times> 'd) option" where
  "read_sectors dr lba to_copy ofs bytes_read buf d =
     (if to_copy = 0 then Some (False, ofs, bytes_read, buf, d)
      else let sector_index = to_u32 (ofs div unat (sector_size dr));
               offset_in_sec = to_u32 (ofs mod unat (sector_size dr));
               avail = unat (sector_size dr) - offset_in_sec;
               chunk = (if to_copy < avail then to_copy else avail)
           in case kread dr d (ucast (lba + of_nat sector_index)) of
                (None, d1) \<Rightarrow> Some (True, ofs, bytes_read, buf, d1)
              | (Some sector_buf, d1) \<Rightarrow>
                  read_sectors dr lba (to_copy - chunk) (ofs + chunk) (bytes_read + chunk)
                    (buf @ take chunk (drop offset_in_sec sector_buf)) d1)"

partial_function (option) read_clusters ::
  "'d kdrive \<Rightarrow> FAT32_Volume \<Rightarrow> nat \<Rightarrow> u32 \<Rightarrow> nat \<Rightarrow> nat \<Rightarrow> u8 list \<Rightarrow> 'd \<Rightarrow> (int \<times> u8 list \<times> 'd) option" where
  "read_clusters dr v len cluster cluster_offset bytes_read buf d =
     (if len \<le> bytes_read \<or> cluster < 2 \<or> FAT32_CLUSTER_BAD \<le> cluster
      then Some (int bytes_read, buf, d)
      else let bytes_in_cluster = to_s32 (cluster_bytes v - cluster_offset);
               to_copy = (if bytes_in_cluster < to_s32 (len - bytes_read)
                          then nat (bytes_in_cluster mod 2 ^ 32) else to_u32 (len - bytes_read))
           in do {
             (err, ofs, bytes_read1, buf1, d1) \<leftarrow>
                read_sectors dr (cluster_to_lba v cluster) to_copy cluster_offset bytes_read buf d;
             if err then Some (if 0 < bytes_read1 then int bytes_read1 else - 1, buf1, d1)
             else if cluster_bytes v \<le> ofs
             then read_clusters dr v len (fst (fat32_next_cluster dr v cluster d1)) 0 bytes_read1 buf1
                    (snd (fat32_next_cluster dr v cluster d1))
             else read_clusters dr v len cluster ofs bytes_read1 buf1 d1
           })"

definition fat32_file_read ::
  "'d drive_fs \<Rightarrow> drive_file \<Rightarrow> nat \<Rightarrow> nat \<Rightarrow> 'd \<Rightarrow> (int \<times> u8 list \<times> 'd) option" where
  "fat32_file_read fs file offset len d =
     (if file_size file \<le> offset then Some (0, [], d)
      else let len1 = min len (file_size file - offset);
               v = fs_volume fs
           in case skip_clusters (fs_drive fs) v (to_u32 (offset div cluster_bytes v)) (file_cluster file) d of
                (None, d1) \<Rightarrow> Some (0, [], d1)
              | (Some cluster, d1) \<Rightarrow>
                  read_clusters (fs_drive fs) v len1 cluster (offset mod cluster_bytes v) 0 [] d1)"

text \<open>The loops of \<open>fat32_file_write\<close>.\<close>

partial_function (option) write_sectors ::
  "'d kdrive \<Rightarrow> FAT32_Volume \<Rightarrow> u32 \<Rightarrow> nat \<Rightarrow> u8 list \<Rightarrow> nat \<Rightarrow> nat \<Rightarrow> 'd \<Rightarrow> (bool \<times> nat \<times> 'd) option" where
  "write_sectors dr v lba len buf ofs bytes_written d =
     (if len \<le> bytes_written \<or> cluster_bytes v \<le> ofs then Some (False, bytes_written, d)
      else let sector_index = to_u32 (ofs div unat (sector_size dr));
               offset_in_sec = to_u32 (ofs mod unat (sector_size dr));
               avail = unat (sector_size dr) - offset_in_sec;
               chunk = min (to_u32 (len - bytes_written)) avail
           in case kread dr d (ucast (lba + of_nat sector_index)) of
                (None, d1) \<Rightarrow> Some (True, bytes_written, d1)
              | (Some tmp, d1) \<Rightarrow>
                  case kwrite dr d1 (ucast (lba + of_nat sector_index))
                         (memcpy_at tmp offset_in_sec (take chunk (drop bytes_written buf))) of
                    (ok, d2) \<Rightarrow>
                      if ok then write_sectors dr v lba len buf (ofs + chunk) (bytes_written + chunk) d2
                      else Some (True, bytes_written, d2))"

partial_function (option) write_clusters ::
  "'d kdrive \<Rightarrow> FAT32_Volume \<Rightarrow> nat \<Rightarrow> u8 list \<Rightarrow> u32 \<Rightarrow> nat \<Rightarrow> nat \<Rightarrow> 'd \<Rightarrow> (nat \<times> 'd) option" where
  "write_clusters dr v len buf cluster cluster_offset bytes_written d =
     (if len \<le> bytes_written \<or> cluster < 2 \<or> FAT32_CLUSTER_BAD \<le> cluster
      then Some (bytes_written, d)
      else do {
        (err, bytes_written1, d1) \<leftarrow>
           write_sectors dr v (cluster_to_lba v cluster) len buf cluster_offset bytes_written d;
        if err then Some (bytes_written1, d1)
        else if bytes_written1 < len
        then write_clusters dr v len buf (fst (fat32_next_cluster dr v cluster d1)) 0 bytes_written1
               (snd (fat32_next_cluster dr v cluster d1))
        else write_clusters dr v len buf cluster 0 bytes_written1 d1
      })"

definition fat32_file_write ::
  "'d drive_fs \<Rightarrow> drive_file \<Rightarrow> nat \<Rightarrow> nat \<Rightarrow> u8 list \<Rightarrow> 'd \<Rightarrow> (nat \<times> 'd) option" where
  "fat32_file_write fs file offset len buf d =
     (if file_size file \<le> offset then Some (0, d)
      else let len1 = (if file_size file < (offset + len) mod 2 ^ 64 then file_size file - offset else len);
               v = fs_volume fs
           in case skip_clusters (fs_drive fs) v (to_u32 (offset div cluster_bytes v)) (file_cluster file) d of
                (None, d1) \<Rightarrow> Some (0, d1)
              | (Some cluster, d1) \<Rightarrow>
                  write_clusters (fs_drive fs) v len1 buf cluster (offset mod cluster_bytes v) 0 d1)"

section \<open>Cluster chains\<close>

text \<open>\<open>content\<close> is \<open>None\<close> for a NULL pointer.  The loop over the sectors of one
  cluster returns how much of the content remains; failing writes are ignored.\<close>

fun fill_cluster ::
  "'d kdrive \<Rightarrow> u32 \<Rightarrow> u8 list option \<Rightarrow> nat \<Rightarrow> nat list \<Rightarrow> nat \<Rightarrow> 'd \<Rightarrow> nat \<times> 'd" where
  "fill_cluster dr lba content len [] remaining d = (remaining, d)"
| "fill_cluster dr lba content len (s # ss) remaining d =
     (let zeros = replicate (unat (sector_size dr)) 0;
          chunk = (if unat (sector_size dr) < remaining then unat (sector_size dr) else remaining);
          (tmp, remaining1) =
            (case content of
               Some bytes \<Rightarrow> if 0 < chunk
                  then (memcpy_at zeros 0 (take chunk (drop (len - remaining) bytes)), remaining - chunk)
                  else (zeros, remaining)
             | None \<Rightarrow> (zeros, remaining))
      in fill_cluster dr lba content len ss remaining1
           (snd (kwrite dr d (ucast (lba + of_nat s)) tmp)))"

fun chain_loop ::
  "'d kdrive \<Rightarrow> FAT32_Volume \<Rightarrow> u8 list option \<Rightarrow> nat \<Rightarrow> nat \<Rightarrow> u32 \<Rightarrow> u32 \<Rightarrow> nat \<Rightarrow> 'd \<Rightarrow> u32 \<times> 'd" where
  "chain_loop dr v content len 0 first_cluster prev_cluster remaining d = (first_cluster, d)"
| "chain_loop dr v content len (Suc n) first_cluster prev_cluster remaining d =
     (let (cl, d1) = fat32_alloc_cluster dr v d
      in if cl = 0 then (0, d1)
         else let d2 = (if prev_cluster \<noteq> 0 then snd (fat32_write_fat dr v prev_cluster cl d1) else d1);
                  (remaining1, d3) = fill_cluster dr (cluster_to_lba v cl) content len
                     [0..<unat (sectors_per_cluster (bpb v))] remaining d2
              in chain_loop dr v content len n (if first_cluster = 0 then cl else first_cluster) cl
                   remaining1 d3)"

definition clusters_needed :: "FAT32_Volume \<Rightarrow> nat \<Rightarrow> nat" where
  "clusters_needed v len = (if len = 0 then 1 else (len + cluster_bytes v - 1) div cluster_bytes v)"

definition fat32_write_cluster_chain ::
  "'d kdrive \<Rightarrow> FAT32_Volume \<Rightarrow> u8 list option \<Rightarrow> nat \<Rightarrow> 'd \<Rightarrow> u32 \<times> 'd" where
  "fat32_write_cluster_chain dr v content len d =
     chain_loop dr v content len (clusters_needed v len) 0 0 len d"

partial_function (option) fat32_free_cluster_chain ::
  "'d kdrive \<Rightarrow> FAT32_Volume \<Rightarrow> u32 \<Rightarrow> 'd \<Rightarrow> 'd option" where
  "fat32_free_cluster_chain dr v cluster d =
     (if 2 \<le> cluster \<and> cluster < FAT32_CLUSTER_BAD then
        fat32_free_cluster_chain dr v (fst (fat32_next_cluster dr v cluster d))
          (snd (fat32_write_fat dr v cluster FAT32_CLUSTER_FREE (snd (fat32_next_cluster dr v cluster d))))
      else Some d)"

section \<open>Operations on files\<close>

definition stamp :: u16 where
  "stamp = (push_bit 9 44) OR (push_bit 5 1) OR 1"

definition set_cluster :: "u32 \<Rightarrow> FAT32_DirEntry \<Rightarrow> FAT32_DirEntry" where
  "set_cluster c e = e\<lparr>first_cluster_high := ucast (drop_bit 16 c), first_cluster_low := ucast (c AND 0xFFFF)\<rparr>"

definition search_free :: "'d drive_fs \<Rightarrow> 'd \<Rightarrow> (DirSearchCtx \<times> 'd) option" where
  "search_free fs d =
     fat32_dir_iterate (fs_drive fs) (fs_volume fs) dir_search_cb (root_cluster (fs_volume fs))
       (zero_ctx\<lparr>find_free := True\<rparr>) d"

definition search_name :: "'d drive_fs \<Rightarrow> u8 list \<Rightarrow> 'd \<Rightarrow> (DirSearchCtx \<times> 'd) option" where
  "search_name fs name d =
     fat32_dir_iterate (fs_drive fs) (fs_volume fs) dir_search_cb (root_cluster (fs_volume fs))
       (zero_ctx\<lparr>find_match := True, target8 := fst (encode_83_name name),
                 target3 := snd (encode_83_name name)\<rparr>) d"

definition file_entry :: "u8 list \<Rightarrow> u32 \<Rightarrow> nat \<Rightarrow> FAT32_DirEntry" where
  "file_entry name first_cluster len =
     (set_cluster first_cluster zero_entry)
       \<lparr>e_name := fst (encode_83_name name), e_ext := snd (encode_83_name name),
        attributes := FAT32_ATTR_ARCHIVE, e_file_size := of_nat len,
        write_date := stamp, write_time := 0, create_date := stamp, create_time := 0\<rparr>"

definition fat32_create_file ::
  "'d drive_fs \<Rightarrow> u8 list \<Rightarrow> u8 list option \<Rightarrow> nat \<Rightarrow> 'd \<Rightarrow> (int \<times> 'd) option" where
  "fat32_create_file fs name content len d = do {
     (ctx, d1) \<leftarrow> search_free fs d;
     if \<not> found ctx then Some (- 1, d1)
     else let (first_cluster, d2) = fat32_write_cluster_chain (fs_drive fs) (fs_volume fs) content len d1
          in if first_cluster = 0 \<and> 0 < len then Some (- 1, d2)
             else Some (fat32_write_dir_entry (fs_drive fs) (found_lba ctx) (found_idx ctx)
                          (file_entry name first_cluster len) d2)
   }"

definition fat32_write_file ::
  "'d drive_fs \<Rightarrow> u8 list \<Rightarrow> u8 list option \<Rightarrow> nat \<Rightarrow> 'd \<Rightarrow> (int \<times> 'd) option" where
  "fat32_write_file fs name content len d = do {
     (ctx, d1) \<leftarrow> search_name fs name d;
     if \<not> found ctx then fat32_create_file fs name content len d1
     else do {
       d2 \<leftarrow> fat32_free_cluster_chain (fs_drive fs) (fs_volume fs)
               (dir_entry_cluster (search_result ctx)) d1;
       let (first_cluster, d3) = fat32_write_cluster_chain (fs_drive fs) (fs_volume fs) content len d2;
       if first_cluster = 0 \<and> 0 < len then Some (- 1, d3)
       else Some (fat32_write_dir_entry (fs_drive fs) (found_lba ctx) (found_idx ctx)
              ((set_cluster first_cluster (search_result ctx))
                 \<lparr>e_file_size := of_nat len, write_date := stamp, write_time := 0\<rparr>) d3)
     }
   }"

text \<open>A NULL file system is \<open>None\<close>.\<close>

definition fat32_delete_file :: "'d drive_fs option \<Rightarrow> u8 list \<Rightarrow> 'd \<Rightarrow> (int \<times> 'd) option" where
  "fat32_delete_file fso name d =
     (case fso of
        None \<Rightarrow> Some (- 1, d)
      | Some fs \<Rightarrow> do {
          (ctx, d1) \<leftarrow> search_name fs name d;
          if \<not> found ctx then Some (- 1, d1)
          else do {
            d2 \<leftarrow> fat32_free_cluster_chain (fs_drive fs) (fs_volume fs)
                    (dir_entry_cluster (search_result ctx)) d1;
            Some (fat32_write_dir_entry (fs_drive fs) (found_lba ctx) (found_idx ctx)
                    ((search_result ctx)\<lparr>e_name := (e_name (search_result ctx))[0 := FAT32_ENTRY_FREE]\<rparr>) d2)
          }
        })"

definition fat32_mkdir :: "'d drive_fs option \<Rightarrow> u8 list \<Rightarrow> 'd \<Rightarrow> (int \<times> 'd) option" where
  "fat32_mkdir fso name d =
     (case fso of
        None \<Rightarrow> Some (- 1, d)
      | Some fs \<Rightarrow> do {
          (ctx, d1) \<leftarrow> search_free fs d;
          if \<not> found ctx then Some (- 1, d1)
          else Some (fat32_write_dir_entry (fs_drive fs) (found_lba ctx) (found_idx ctx)
                 (zero_entry\<lparr>e_name := fst (encode_83_name name), e_ext := snd (encode_83_name name),
                    attributes := FAT32_ATTR_DIRECTORY, first_cluster_high := 0, first_cluster_low := 0,
                    e_file_size := 0, write_date := stamp\<rparr>) d1)
        })"

section \<open>Enumeration of the root directory\<close>

definition enum_count_cb :: "nat dir_entry_cb" where
  "enum_count_cb e lba idx count =
     (if e_name e ! 0 = FAT32_ENTRY_END then (True, count)
      else if skipped e then (False, count)
      else (False, count + 1))"

definition to_drive_entry :: "FAT32_DirEntry \<Rightarrow> drive_entry" where
  "to_drive_entry e =
     (if attributes e AND FAT32_ATTR_DIRECTORY \<noteq> 0
      then ENTRY_DIRECTORY \<lparr>dir_name = format_83_name (e_name e) (e_ext e)\<rparr>
      else ENTRY_FILE \<lparr>file_name = format_83_name (e_name e) (e_ext e), file_size = unat (e_file_size e),
                       file_cluster = dir_entry_cluster e\<rparr>)"

definition enum_fill_cb :: "drive_entry list dir_entry_cb" where
  "enum_fill_cb e lba idx entries =
     (if e_name e ! 0 = FAT32_ENTRY_END then (True, entries)
      else if skipped e then (False, entries)
      else (False, entries @ [to_drive_entry e]))"

definition sizeof_drive_entry :: u64 where
  "sizeof_drive_entry = 344"

definition fat32_get_root_entries ::
  "'d drive_fs \<Rightarrow> heap \<Rightarrow> 'd \<Rightarrow> (drive_entry list \<times> heap \<times> 'd) option" where
  "fat32_get_root_entries fs h d = do {
     let v = fs_volume fs;
     (count, d1) \<leftarrow> fat32_dir_iterate (fs_drive fs) v enum_count_cb (root_cluster v) 0 d;
     if count = 0 then Some ([], h, d1)
     else do {
       (p, h1) \<leftarrow> kmalloc (of_nat count * sizeof_drive_entry) h;
       if p = 0 then None
       else do {
         (entries, d2) \<leftarrow> fat32_dir_iterate (fs_drive fs) v enum_fill_cb (root_cluster v) [] d1;
         Some (take count entries, h1, d2)
       }
     }
   }"

text \<open>The comparison of names that \<open>fat32_append_file\<close>, \<open>readfile\<close> and the
  shell commands share: equal up to the case of ASCII letters.  The names are C
  strings, given by the bytes before the terminator.\<close>

fun name_match :: "u8 list \<Rightarrow> u8 list \<Rightarrow> bool" where
  "name_match (a # as) (b # bs) = (if upper a \<noteq> upper b then False else name_match as bs)"
| "name_match as bs = (as = [] \<and> bs = [])"

definition cstr :: "u8 list \<Rightarrow> u8 list" where
  "cstr bs = takeWhile (\<lambda>c. c \<noteq> 0) bs"

fun find_file :: "drive_entry list \<Rightarrow> u8 list \<Rightarrow> drive_file option" where
  "find_file [] name = None"
| "find_file (ENTRY_DIRECTORY dd # es) name = find_file es name"
| "find_file (ENTRY_FILE f # es) name = (if name_match (cstr (file_name f)) name then Some f else find_file es name)"

partial_function (option) append_read ::
  "'d drive_fs \<Rightarrow> drive_file \<Rightarrow> nat \<Rightarrow> u8 list \<Rightarrow> 'd \<Rightarrow> (u8 list \<times> 'd) option" where
  "append_read fs f j appbuf d =
     (if 4000 \<le> length appbuf then Some (appbuf, d)
      else do {
        (chunk, tmp, d1) \<leftarrow> fat32_file_read fs f (j * 128) 128 d;
        if chunk \<le> 0 then Some (appbuf, d1)
        else append_read fs f (j + 1) (appbuf @ take (4000 - length appbuf) (take (nat chunk) tmp)) d1
      })"

definition fat32_append_file ::
  "'d drive_fs option \<Rightarrow> u8 list \<Rightarrow> u8 list \<Rightarrow> nat \<Rightarrow> heap \<Rightarrow> 'd \<Rightarrow> (int \<times> heap \<times> 'd) option" where
  "fat32_append_file fso name content len h d =
     (case fso of
        None \<Rightarrow> Some (- 1, h, d)
      | Some fs \<Rightarrow> do {
          (entries, h1, d1) \<leftarrow> fat32_get_root_entries fs h d;
          (appbuf, d2) \<leftarrow>
            (case find_file entries name of
               None \<Rightarrow> Some ([], d1)
             | Some f \<Rightarrow> do {
                 (appbuf, da) \<leftarrow> append_read fs f 0 [] d1;
                 (r, db) \<leftarrow> fat32_delete_file (Some fs) name da;
                 Some (appbuf, db)
               });
          let appbuf1 = appbuf @ take (4095 - length appbuf) (take len content);
          (r, d3) \<leftarrow> fat32_create_file fs name (Some appbuf1) (length appbuf1) d2;
          Some (r, h1, d3)
        })"

section \<open>Mounting\<close>

definition fat32_drive_open ::
  "'d kdrive \<Rightarrow> partition \<Rightarrow> heap \<Rightarrow> 'd \<Rightarrow> ('d drive_fs option \<times> heap \<times> 'd) option" where
  "fat32_drive_open dr part h d =
     (case kread dr d (part_lba part) of
        (None, d1) \<Rightarrow> Some (None, h, d1)
      | (Some sector_buf, d1) \<Rightarrow>
          let b = load_bpb sector_buf;
              fat = ucast (part_lba part + ucast (reserved_sectors b));
              v = \<lparr>bpb = b, partition_lba = ucast (part_lba part), fat_lba = fat,
                   data_lba = fat + ucast (num_fats b) * sectors_per_fat_32 b,
                   root_cluster = bpb_root_cluster b, total_sectors = total_sectors_32 b,
                   sectors_per_fat = sectors_per_fat_32 b, mounted = 1\<rparr>
          in if bytes_per_sector b = 0 \<or> sectors_per_cluster b = 0 then Some (None, h, d1)
             else if sectors_per_fat_16 b \<noteq> 0 then Some (None, h, d1)
             else do {
               (p, h1) \<leftarrow> kmalloc 64 h;
               (q, h2) \<leftarrow> kmalloc 128 h1;
               if p = 0 \<or> q = 0 then None
               else Some (Some \<lparr>fs_drive = dr, fs_volume = v\<rparr>, h2, d1)
             })"

end
