(* ===== verification/Fat_Table.thy ===== *)
theory Fat_Table
  imports Fat32_File
begin

text \<open>
  The file allocation table as a function from clusters to entries, and the
  data area as a function from clusters to bytes, read off the medium; what
  the table operations of \<open>fat32.c\<close> do to them.
\<close>

section \<open>Geometry\<close>

definition fat_entries :: "FAT32_Volume \<Rightarrow> nat" where
  "fat_entries v = 128 * unat (sectors_per_fat v)"

text \<open>A mounted volume whose regions lie one behind the other on the medium:
  the tables, then one cluster of the data area for every entry of the table.\<close>

definition volume_ok :: "FAT32_Volume \<Rightarrow> nat \<Rightarrow> bool" where
  "volume_ok v cap \<longleftrightarrow>
     bytes_per_sector (bpb v) = 512 \<and> 0 < unat (sectors_per_cluster (bpb v)) \<and> 1 \<le> unat (num_fats (bpb v)) \<and>
     fat_entries v \<le> 0x0FFFFFF7 \<and>
     unat (fat_lba v) + unat (num_fats (bpb v)) * unat (sectors_per_fat v) \<le> unat (data_lba v) \<and>
     unat (data_lba v) + fat_entries v * unat (sectors_per_cluster (bpb v)) \<le> cap \<and> cap \<le> 2 ^ 32"

definition valid_cluster :: "FAT32_Volume \<Rightarrow> u32 \<Rightarrow> bool" where
  "valid_cluster v c \<longleftrightarrow> 2 \<le> unat c \<and> unat c < fat_entries v"

type_synonym medium = "u64 \<Rightarrow> u8 list"

definition fat_raw :: "medium \<Rightarrow> FAT32_Volume \<Rightarrow> u32 \<Rightarrow> u32" where
  "fat_raw m v c = buf32 (m (ucast (fat_lba v + c div 128))) (4 * (unat c mod 128))"

definition fat :: "medium \<Rightarrow> FAT32_Volume \<Rightarrow> u32 \<Rightarrow> u32" where
  "fat m v c = fat_raw m v c AND FAT32_CLUSTER_MASK"

definition cluster_data :: "medium \<Rightarrow> FAT32_Volume \<Rightarrow> u32 \<Rightarrow> u8 list" where
  "cluster_data m v c =
     concat (map (\<lambda>s. m (ucast (cluster_to_lba v c + of_nat s))) [0..<unat (sectors_per_cluster (bpb v))])"

lemma block_deviceD:
  assumes "block_device dr blk cap"
  shows "sector_size dr = 512"
    "unat a < cap \<Longrightarrow> fst (kread dr d a) = Some (blk d a)"
    "blk (snd (kread dr d a)) = blk d"
    "unat a < cap \<Longrightarrow> length b = 512 \<Longrightarrow> fst (kwrite dr d a b)"
    "unat a < cap \<Longrightarrow> length b = 512 \<Longrightarrow> blk (snd (kwrite dr d a b)) = (blk d)(a := b)"
    "length (blk d a) = 512"
  using assms unfolding block_device_def by auto

lemma block_device_read:
  assumes "block_device dr blk cap" "unat a < cap"
  obtains d' where "kread dr d a = (Some (blk d a), d')" "blk d' = blk d"
  using block_deviceD(2) [OF assms(1), of a d] block_deviceD(3) [OF assms(1), of d a] assms(2)
  by (cases "kread dr d a") auto

lemma block_device_write:
  assumes "block_device dr blk cap" "unat a < cap" "length b = 512"
  obtains d' where "kwrite dr d a b = (True, d')" "blk d' = (blk d)(a := b)"
  using block_deviceD(4) [OF assms(1), of a b d] block_deviceD(5) [OF assms(1), of a b d] assms(2,3)
  by (cases "kwrite dr d a b") auto

lemma ucast_inj64 [simp]: "(ucast (a :: u32) :: u64) = ucast b \<longleftrightarrow> a = b"
proof
  assume "(ucast a :: u64) = ucast b"
  then have "unat (ucast a :: u64) = unat (ucast b :: u64)" by simp
  then show "a = b" by (simp add: word_unat_eq_iff)
qed simp

section \<open>Positions\<close>

lemma volume_okD:
  assumes "volume_ok v cap"
  shows "fat_entries v \<le> 0x0FFFFFF7" "0 < unat (sectors_per_cluster (bpb v))" "cap \<le> 2 ^ 32"
    "unat (fat_lba v) + unat (sectors_per_fat v) \<le> unat (data_lba v)"
    "1 < num_fats (bpb v) \<Longrightarrow> unat (fat_lba v) + 2 * unat (sectors_per_fat v) \<le> unat (data_lba v)"
    "unat (data_lba v) + fat_entries v * unat (sectors_per_cluster (bpb v)) \<le> cap"
    "cluster_bytes v = 512 * unat (sectors_per_cluster (bpb v))" "unat (data_lba v) \<le> cap"
proof -
  have ok: "1 \<le> unat (num_fats (bpb v))"
    "unat (fat_lba v) + unat (num_fats (bpb v)) * unat (sectors_per_fat v) \<le> unat (data_lba v)"
    "unat (data_lba v) + fat_entries v * unat (sectors_per_cluster (bpb v)) \<le> cap"
    using assms unfolding volume_ok_def by auto
  have *: "k * unat (sectors_per_fat v) \<le> unat (num_fats (bpb v)) * unat (sectors_per_fat v)"
    if "k \<le> unat (num_fats (bpb v))" for k
    using that by (rule mult_le_mono1)
  show "unat (fat_lba v) + unat (sectors_per_fat v) \<le> unat (data_lba v)"
    using * [of 1, OF ok(1)] ok(2) by linarith
  show "unat (fat_lba v) + 2 * unat (sectors_per_fat v) \<le> unat (data_lba v)" if "1 < num_fats (bpb v)"
  proof -
    have "2 \<le> unat (num_fats (bpb v))" using that by (simp add: word_less_nat_alt)
    then show ?thesis using * [of 2] ok(2) by linarith
  qed
  show "unat (data_lba v) \<le> cap" using ok by linarith
qed (use assms in \<open>auto simp: volume_ok_def cluster_bytes_def\<close>)

lemma fat_place:
  assumes "volume_ok v cap" "unat c < fat_entries v"
  shows "unat (fat_lba v + c div 128) = unat (fat_lba v) + unat c div 128"
    "unat c div 128 < unat (sectors_per_fat v)"
    "unat (fat_lba v) + unat c div 128 < unat (data_lba v)"
    "unat (ucast (fat_lba v + c div 128) :: u64) < cap"
proof -
  note ok = volume_okD [OF assms(1)]
  show lt: "unat c div 128 < unat (sectors_per_fat v)"
    using assms(2) unfolding fat_entries_def by linarith
  then show d: "unat (fat_lba v) + unat c div 128 < unat (data_lba v)" using ok(4) by linarith
  show s: "unat (fat_lba v + c div 128) = unat (fat_lba v) + unat c div 128"
    using d unsigned_less [of "data_lba v", where 'a = nat] by (subst unat_add_small) auto
  show "unat (ucast (fat_lba v + c div 128) :: u64) < cap"
    using d s ok(8) by simp
qed

lemma fat_position:
  assumes "volume_ok v cap" "unat c < fat_entries v" "sector_size dr = 512"
  shows "fat_sector dr v c = fat_lba v + c div 128" "fat_byte_offset dr c = 4 * (unat c mod 128)"
proof -
  have c: "unat (c * 4) = 4 * unat c"
    using assms(2) volume_okD(1) [OF assms(1)] by (subst unat_mult_small) auto
  have "(4 * unat c) div 512 = unat c div 128" by linarith
  then have "(c * 4) div 512 = c div 128"
    using c by (simp add: word_unat_eq_iff)
  then show "fat_sector dr v c = fat_lba v + c div 128"
    using assms(3) by (simp add: fat_sector_def)
  have "(4 * unat c) mod 512 = 4 * (unat c mod 128)" using mult_mod_right [of 4 "unat c" 128] by simp
  then show "fat_byte_offset dr c = 4 * (unat c mod 128)"
    using c assms(3) by (simp add: fat_byte_offset_def unat_mod)
qed

lemma cluster_position:
  assumes "volume_ok v cap" "valid_cluster v c" "s < unat (sectors_per_cluster (bpb v))"
  shows "unat (cluster_to_lba v c + of_nat s) =
      unat (data_lba v) + (unat c - 2) * unat (sectors_per_cluster (bpb v)) + s"
    "unat (cluster_to_lba v c + of_nat s) < cap"
proof -
  note ok = volume_okD [OF assms(1)]
  let ?k = "unat (sectors_per_cluster (bpb v))"
  have "Suc (unat c - 2) \<le> fat_entries v" using assms(2) by (auto simp: valid_cluster_def)
  then have "Suc (unat c - 2) * ?k \<le> fat_entries v * ?k" by (rule mult_le_mono1)
  then have le: "unat (data_lba v) + (unat c - 2) * ?k + s < cap" using ok(6) assms(3) by simp
  have "unat (c - 2) = unat c - 2"
    using assms(2) by (simp add: valid_cluster_def unat_sub word_le_nat_alt)
  moreover have "unat (ucast (sectors_per_cluster (bpb v)) :: u32) = ?k" by simp
  ultimately have m: "unat ((c - 2) * ucast (sectors_per_cluster (bpb v))) = (unat c - 2) * ?k"
    using le ok(3) by (subst unat_mult_small) auto
  then have l: "unat (cluster_to_lba v c) = unat (data_lba v) + (unat c - 2) * ?k"
    unfolding cluster_to_lba_def using le ok(3) by (subst unat_add_small) auto
  have "s < 256" using assms(3) unsigned_less [of "sectors_per_cluster (bpb v)", where 'a = nat] by simp
  then have "unat (of_nat s :: u32) = s" by (simp add: unat_of_nat_small)
  then show "unat (cluster_to_lba v c + of_nat s) = unat (data_lba v) + (unat c - 2) * ?k + s"
    using l le ok(3) by (subst unat_add_small) auto
  then show "unat (cluster_to_lba v c + of_nat s) < cap" using le by simp
qed

lemma cluster_position_inj:
  assumes "volume_ok v cap" "valid_cluster v c" "s < unat (sectors_per_cluster (bpb v))"
    "valid_cluster v c'" "s' < unat (sectors_per_cluster (bpb v))"
  shows "cluster_to_lba v c + of_nat s = cluster_to_lba v c' + of_nat s' \<longleftrightarrow> c = c' \<and> s = s'"
proof
  let ?k = "unat (sectors_per_cluster (bpb v))"
  assume "cluster_to_lba v c + of_nat s = cluster_to_lba v c' + of_nat s'"
  then have "unat (cluster_to_lba v c + of_nat s) = unat (cluster_to_lba v c' + of_nat s')" by simp
  then have "(unat c - 2) * ?k + s = (unat c' - 2) * ?k + s'"
    by (simp add: cluster_position(1) [OF assms(1,2,3)] cluster_position(1) [OF assms(1,4,5)])
  then have "((unat c - 2) * ?k + s) div ?k = ((unat c' - 2) * ?k + s') div ?k"
    "((unat c - 2) * ?k + s) mod ?k = ((unat c' - 2) * ?k + s') mod ?k" by simp_all
  then have "unat c - 2 = unat c' - 2" "s = s'" using assms(3,5) by simp_all
  then show "c = c' \<and> s = s'" using assms(2,4) by (auto simp: valid_cluster_def word_unat_eq_iff)
qed simp

lemma cluster_sector_not_fat:
  assumes "volume_ok v cap" "valid_cluster v c" "s < unat (sectors_per_cluster (bpb v))"
  shows "unat (data_lba v) \<le> unat (ucast (cluster_to_lba v c + of_nat s) :: u64)"
    "unat (ucast (cluster_to_lba v c + of_nat s) :: u64) < cap"
  using cluster_position [OF assms] by simp_all

section \<open>Reading and writing entries\<close>

text \<open>Two media that agree on the sectors below the data area have the same
  table; two that agree from the data area on have the same clusters.\<close>

lemma fat_raw_cong:
  assumes "volume_ok v cap" "unat c < fat_entries v"
    and "\<And>a. unat a < unat (data_lba v) \<Longrightarrow> m' a = m a"
  shows "fat_raw m' v c = fat_raw m v c"
proof -
  have "unat (ucast (fat_lba v + c div 128) :: u64) < unat (data_lba v)"
    using fat_place [OF assms(1,2)] by simp
  then show ?thesis by (simp add: fat_raw_def assms(3))
qed

lemma cluster_data_cong:
  assumes "volume_ok v cap" "valid_cluster v c"
    and "\<And>a. unat (data_lba v) \<le> unat a \<Longrightarrow> m' a = m a"
  shows "cluster_data m' v c = cluster_data m v c"
proof -
  have "m' (ucast (cluster_to_lba v c + of_nat s)) = m (ucast (cluster_to_lba v c + of_nat s))"
    if "s < unat (sectors_per_cluster (bpb v))" for s
    using cluster_sector_not_fat(1) [OF assms(1,2) that] by (rule assms(3))
  then show ?thesis by (auto simp: cluster_data_def intro!: arg_cong [of _ _ concat])
qed

lemma next_cluster_correct:
  assumes "block_device dr blk cap" "volume_ok v cap" "unat c < fat_entries v"
  shows "fst (fat32_next_cluster dr v c d) = fat (blk d) v c"
    "blk (snd (fat32_next_cluster dr v c d)) = blk d"
proof -
  note pos = fat_position [OF assms(2,3) block_deviceD(1) [OF assms(1)]]
  note cap = fat_place(4) [OF assms(2,3)]
  obtain d' where "kread dr d (ucast (fat_lba v + c div 128)) = (Some (blk d (ucast (fat_lba v + c div 128))), d')"
    "blk d' = blk d"
    using block_device_read [OF assms(1) cap] .
  then show "fst (fat32_next_cluster dr v c d) = fat (blk d) v c"
    "blk (snd (fat32_next_cluster dr v c d)) = blk d"
    unfolding fat32_next_cluster_def by (simp_all only: pos(1,2)) (simp_all add: fat_def fat_raw_def)
qed

text \<open>The effect on the medium of storing \<open>val\<close> in entry \<open>c\<close> and mirroring the sector.\<close>

definition put_entry :: "FAT32_Volume \<Rightarrow> u32 \<Rightarrow> u32 \<Rightarrow> medium \<Rightarrow> medium" where
  "put_entry v c val m =
     (let a = fat_lba v + c div 128;
          b = memcpy_at (m (ucast a)) (4 * (unat c mod 128)) (le32 (fat_entry_update (fat_raw m v c) val));
          m1 = m(ucast a := b)
      in if 1 < num_fats (bpb v) then m1(ucast (a + sectors_per_fat v) := b) else m1)"

lemma mask_update: "fat_entry_update x val AND FAT32_CLUSTER_MASK = val AND FAT32_CLUSTER_MASK"
  "fat_entry_update x val AND 0xF0000000 = x AND 0xF0000000"
proof -
  have m: "(0xF0000000 :: u32) AND 0x0FFFFFFF = 0" by simp
  have "(x AND 0xF0000000) AND (0x0FFFFFFF :: u32) = 0"
    by (simp only: and.assoc m and_zero_eq)
  then show "fat_entry_update x val AND FAT32_CLUSTER_MASK = val AND FAT32_CLUSTER_MASK"
    unfolding fat_entry_update_def by (simp only: bit.conj_disj_distrib2) (simp add: and.assoc)
  have m': "(0x0FFFFFFF :: u32) AND 0xF0000000 = 0" by simp
  have "(val AND 0x0FFFFFFF) AND (0xF0000000 :: u32) = 0"
    by (simp only: and.assoc m' and_zero_eq)
  then show "fat_entry_update x val AND 0xF0000000 = x AND 0xF0000000"
    unfolding fat_entry_update_def by (simp only: bit.conj_disj_distrib2) (simp add: and.assoc)
qed

lemma mirror_position:
  assumes "volume_ok v cap" "unat c < fat_entries v" "1 < num_fats (bpb v)"
  shows "unat (fat_lba v + c div 128 + sectors_per_fat v) =
     unat (fat_lba v) + unat c div 128 + unat (sectors_per_fat v)"
    "unat (fat_lba v + c div 128 + sectors_per_fat v) < unat (data_lba v)"
proof -
  note pos = fat_place [OF assms(1,2)]
  have lt: "unat (fat_lba v) + unat c div 128 + unat (sectors_per_fat v) < unat (data_lba v)"
    using pos(2) volume_okD(5) [OF assms(1,3)] by linarith
  then show e: "unat (fat_lba v + c div 128 + sectors_per_fat v) =
     unat (fat_lba v) + unat c div 128 + unat (sectors_per_fat v)"
    using pos(1) unsigned_less [of "data_lba v", where 'a = nat] by (subst unat_add_small) auto
  show "unat (fat_lba v + c div 128 + sectors_per_fat v) < unat (data_lba v)" using lt e by simp
qed

lemma put_entry_raw:
  assumes "volume_ok v cap" "unat c < fat_entries v" "unat c' < fat_entries v" "\<And>a. length (m a) = 512"
  shows "fat_raw (put_entry v c val m) v c' =
     (if c' = c then fat_entry_update (fat_raw m v c) val else fat_raw m v c')"
proof -
  let ?a = "fat_lba v + c div 128" and ?a' = "fat_lba v + c' div 128"
  let ?b = "memcpy_at (m (ucast ?a)) (4 * (unat c mod 128)) (le32 (fat_entry_update (fat_raw m v c) val))"
  have m: "unat x mod 128 < 128" for x :: u32 by simp
  have "put_entry v c val m (ucast ?a') = (m(ucast ?a := ?b)) (ucast ?a')"
  proof (cases "1 < num_fats (bpb v)")
    case True
    have "?a + sectors_per_fat v \<noteq> ?a'"
      using mirror_position(1) [OF assms(1,2) True] fat_place(1,2) [OF assms(1,3)] by (auto simp: word_unat_eq_iff)
    then show ?thesis using True by (auto simp: put_entry_def Let_def)
  qed (simp add: put_entry_def Let_def)
  then have raw: "fat_raw (put_entry v c val m) v c' =
      buf32 (if ?a' = ?a then ?b else m (ucast ?a')) (4 * (unat c' mod 128))"
    by (simp add: fat_raw_def)
  consider "c' = c" | "c' \<noteq> c" "?a' = ?a" | "?a' \<noteq> ?a" by blast
  then show ?thesis
  proof cases
    case 1
    then show ?thesis unfolding raw using m [of c] by (simp add: buf32_memcpy_at_same assms(4))
  next
    case 2
    then have "unat c div 128 = unat c' div 128"
      using fat_place(1) [OF assms(1,2)] fat_place(1) [OF assms(1,3)] by simp
    then have "unat c mod 128 \<noteq> unat c' mod 128"
      using 2(1) by (metis div_mult_mod_eq word_unat_eq_iff)
    then have "buf32 ?b (4 * (unat c' mod 128)) = buf32 (m (ucast ?a)) (4 * (unat c' mod 128))"
      using m [of c] m [of c'] by (intro buf32_memcpy_at_other) (auto simp: assms(4))
    then show ?thesis unfolding raw using 2 by (auto simp: fat_raw_def)
  next
    case 3
    then show ?thesis unfolding raw by (auto simp: fat_raw_def)
  qed
qed

lemma put_entry_fat:
  assumes "volume_ok v cap" "unat c < fat_entries v" "unat c' < fat_entries v" "\<And>a. length (m a) = 512"
  shows "fat (put_entry v c val m) v c' = (if c' = c then val AND FAT32_CLUSTER_MASK else fat m v c')"
  using put_entry_raw [OF assms] by (simp add: fat_def mask_update)

lemma put_entry_data_area:
  assumes "volume_ok v cap" "unat c < fat_entries v" "unat (data_lba v) \<le> unat a"
  shows "put_entry v c val m a = m a"
proof -
  have "a \<noteq> ucast (fat_lba v + c div 128)"
    using fat_place(1,3) [OF assms(1,2)] assms(3) by auto
  moreover have "a \<noteq> ucast (fat_lba v + c div 128 + sectors_per_fat v)" if "1 < num_fats (bpb v)"
    using mirror_position(2) [OF assms(1,2) that] assms(3) by auto
  ultimately show ?thesis by (auto simp: put_entry_def Let_def)
qed

lemma put_entry_data:
  assumes "volume_ok v cap" "unat c < fat_entries v" "valid_cluster v c'"
  shows "cluster_data (put_entry v c val m) v c' = cluster_data m v c'"
  by (rule cluster_data_cong [OF assms(1,3)]) (rule put_entry_data_area [OF assms(1,2)])

lemma write_fat_correct:
  assumes dev: "block_device dr blk cap" and vol: "volume_ok v cap" and c: "unat c < fat_entries v"
  shows "fst (fat32_write_fat dr v c val d) = 0"
    "blk (snd (fat32_write_fat dr v c val d)) = put_entry v c val (blk d)"
proof -
  note pos = fat_position [OF vol c block_deviceD(1) [OF dev]]
  note len = block_deviceD(6) [OF dev]
  let ?a = "fat_lba v + c div 128" and ?o = "4 * (unat c mod 128)"
  let ?b = "memcpy_at (blk d (ucast ?a)) ?o (le32 (fat_entry_update (fat_raw (blk d) v c) val))"
  have b: "length ?b = 512"
    using mod_less_divisor [of 128 "unat c"] by (subst length_memcpy_at) (simp_all add: len)
  obtain d1 where r: "kread dr d (ucast ?a) = (Some (blk d (ucast ?a)), d1)" and d1: "blk d1 = blk d"
    using block_device_read [OF dev fat_place(4) [OF vol c]] .
  obtain d2 where w: "kwrite dr d1 (ucast ?a) ?b = (True, d2)" and d2: "blk d2 = (blk d)(ucast ?a := ?b)"
    using block_device_write [OF dev fat_place(4) [OF vol c] b, of d1] d1 by auto
  show "fst (fat32_write_fat dr v c val d) = 0"
    "blk (snd (fat32_write_fat dr v c val d)) = put_entry v c val (blk d)"
  proof (atomize (full), cases "1 < num_fats (bpb v)")
    case True
    have "unat (ucast (?a + sectors_per_fat v) :: u64) < cap"
      using mirror_position(2) [OF vol c True] volume_okD(8) [OF vol] by simp
    then obtain d3 where w3: "kwrite dr d2 (ucast (?a + sectors_per_fat v)) ?b = (True, d3)"
      and d3: "blk d3 = (blk d2)(ucast (?a + sectors_per_fat v) := ?b)"
      using block_device_write [OF dev _ b] by blast
    have "fat32_write_fat dr v c val d = (0, d3)"
      unfolding fat32_write_fat_def pos r
      by (simp add: fat_raw_def [symmetric] Let_def w w3 True)
    then show "fst (fat32_write_fat dr v c val d) = 0 \<and>
      blk (snd (fat32_write_fat dr v c val d)) = put_entry v c val (blk d)"
      using True by (simp add: put_entry_def Let_def d2 d3)
  next
    case False
    have "fat32_write_fat dr v c val d = (0, d2)"
      unfolding fat32_write_fat_def pos r
      by (simp add: fat_raw_def [symmetric] Let_def w False)
    then show "fst (fat32_write_fat dr v c val d) = 0 \<and>
      blk (snd (fat32_write_fat dr v c val d)) = put_entry v c val (blk d)"
      using False by (simp add: put_entry_def Let_def d2)
  qed
qed

section \<open>Allocation\<close>

definition free_cluster :: "medium \<Rightarrow> FAT32_Volume \<Rightarrow> nat \<Rightarrow> bool" where
  "free_cluster m v c \<longleftrightarrow> 2 \<le> c \<and> fat m v (of_nat c) = FAT32_CLUSTER_FREE"

lemma cluster_word:
  assumes "volume_ok v cap" "c < fat_entries v"
  shows "unat (of_nat c :: u32) = c"
  using assms volume_okD(1) [OF assms(1)] by (intro unat_of_nat_small) auto

lemma alloc_entry_find:
  assumes vol: "volume_ok v cap" and S: "S < unat (sectors_per_fat v)" and n: "E + n \<le> 128"
  shows "alloc_entry 128 (m (ucast (fat_lba v + of_nat S))) (of_nat S) (of_nat E) n =
     map_option (\<lambda>c. of_nat (c - 128 * S)) (find (free_cluster m v) [128 * S + E..<128 * S + E + n])"
  using n
proof (induction n arbitrary: E)
  case (Suc n)
  let ?c = "128 * S + E"
  have lt: "?c < fat_entries v" using Suc.prems S unfolding fat_entries_def by simp
  have c: "of_nat S * 128 + of_nat E = (of_nat ?c :: u32)" by (simp add: mult.commute)
  have u: "unat (of_nat ?c :: u32) = ?c" by (rule cluster_word [OF vol lt])
  then have low: "(of_nat S * 128 + of_nat E :: u32) < 2 \<longleftrightarrow> \<not> 2 \<le> ?c"
    unfolding c word_less_nat_alt by (simp only: not_le) simp
  have E: "unat (of_nat E * 4 :: u32) = 4 * E"
    using Suc.prems by (subst unat_mult_small) (simp_all add: unat_of_nat_small)
  have "unat (of_nat ?c div 128 :: u32) = unat (of_nat S :: u32)"
    using u Suc.prems S unsigned_less [of "sectors_per_fat v", where 'a = nat]
    by (simp only: unat_div_numeral) (simp add: unat_of_nat_small)
  then have "(of_nat ?c :: u32) div 128 = of_nat S" by (simp only: word_unat_eq_iff)
  moreover have "?c mod 128 = E" using Suc.prems by simp
  ultimately have f: "fat m v (of_nat ?c) =
      buf32 (m (ucast (fat_lba v + of_nat S))) (4 * E) AND FAT32_CLUSTER_MASK"
    unfolding fat_def fat_raw_def u by simp
  have "[?c..<?c + Suc n] = ?c # [128 * S + Suc E..<128 * S + Suc E + n]"
    by (simp add: upt_conv_Cons)
  moreover have "of_nat E + 1 = (of_nat (Suc E) :: u32)" by simp
  moreover note Suc.IH [of "Suc E"] Suc.prems
  ultimately show ?case
    unfolding alloc_entry.simps low E f [symmetric] free_cluster_def by (simp only:) auto
qed simp

lemma put_entry_alloc:
  assumes vol: "volume_ok v cap" and S: "S < unat (sectors_per_fat v)" and e: "e < 128"
  shows "put_entry v (of_nat (128 * S + e)) val m =
     (let b = memcpy_at (m (ucast (fat_lba v + of_nat S))) (4 * e)
                (le32 (fat_entry_update (buf32 (m (ucast (fat_lba v + of_nat S))) (4 * e)) val));
          m1 = m(ucast (fat_lba v + of_nat S) := b)
      in if 1 < num_fats (bpb v) then m1(ucast (fat_lba v + sectors_per_fat v + of_nat S) := b) else m1)"
proof -
  have c: "128 * S + e < fat_entries v" using S e unfolding fat_entries_def by simp
  have u: "unat (of_nat (128 * S + e) :: u32) = 128 * S + e" by (rule cluster_word [OF vol c])
  have "unat (of_nat (128 * S + e) div 128 :: u32) = unat (of_nat S :: u32)"
    using u e S unsigned_less [of "sectors_per_fat v", where 'a = nat]
    by (simp only: unat_div_numeral) (simp add: unat_of_nat_small)
  then have d: "(of_nat (128 * S + e) :: u32) div 128 = of_nat S" by (simp only: word_unat_eq_iff)
  have m: "(128 * S + e) mod 128 = e" using e by simp
  show ?thesis
    unfolding put_entry_def fat_raw_def u d m
    by (simp only: Let_def add.assoc add.commute [of "of_nat S"])
qed

lemma alloc_sector_correct:
  assumes dev: "block_device dr blk cap" and vol: "volume_ok v cap" and n: "S + n = unat (sectors_per_fat v)"
  shows "case find (free_cluster (blk d) v) [128 * S..<fat_entries v] of
      None \<Rightarrow> fst (alloc_sector dr v (of_nat S) n d) = 0 \<and> blk (snd (alloc_sector dr v (of_nat S) n d)) = blk d
    | Some c \<Rightarrow> fst (alloc_sector dr v (of_nat S) n d) = of_nat c \<and>
        blk (snd (alloc_sector dr v (of_nat S) n d)) = put_entry v (of_nat c) FAT32_CLUSTER_EOC (blk d)"
  using n
proof (induction n arbitrary: S d)
  case (Suc n)
  note len = block_deviceD(6) [OF dev]
  let ?a = "fat_lba v + of_nat S"
  have S: "S < unat (sectors_per_fat v)" using Suc.prems by simp
  have "unat (of_nat S :: u32) = S"
    using S unsigned_less [of "sectors_per_fat v", where 'a = nat] by (intro unat_of_nat_small) simp
  then have ua: "unat ?a = unat (fat_lba v) + S"
    using S volume_okD(4) [OF vol] unsigned_less [of "data_lba v", where 'a = nat]
    by (subst unat_add_small) auto
  have cap: "unat (ucast ?a :: u64) < cap" using ua S volume_okD(4,8) [OF vol] by simp
  obtain d1 where r: "kread dr d (ucast ?a) = (Some (blk d (ucast ?a)), d1)" and d1: "blk d1 = blk d"
    using block_device_read [OF dev cap] .
  have sz: "sector_size dr div 4 = 128" "unat (128 :: u32) = 128" using block_deviceD(1) [OF dev] by simp_all
  have find: "alloc_entry 128 (blk d (ucast ?a)) (of_nat S) 0 128 =
     map_option (\<lambda>c. of_nat (c - 128 * S)) (find (free_cluster (blk d) v) [128 * S..<128 * S + 128])"
    using alloc_entry_find [OF vol S, of 0 128 "blk d"] by simp
  have "[128 * S..<fat_entries v] = [128 * S..<128 * S + 128] @ [128 * Suc S..<fat_entries v]"
  proof -
    have "[128 * S..<(128 * S + 128) + 128 * n] = [128 * S..<128 * S + 128] @ [128 * S + 128..<(128 * S + 128) + 128 * n]"
      by (rule upt_add_eq_append) simp
    moreover have "fat_entries v = (128 * S + 128) + 128 * n"
      unfolding fat_entries_def Suc.prems [symmetric] by simp
    ultimately show ?thesis by (simp add: add.commute)
  qed
  note split = this
  show ?case
  proof (cases "find (free_cluster (blk d) v) [128 * S..<128 * S + 128]")
    case None
    have "alloc_sector dr v (of_nat S) (Suc n) d = alloc_sector dr v (of_nat (Suc S)) n d1"
      by (simp only: alloc_sector.simps Let_def r sz find None prod.case option.case option.map) (simp add: add.commute)
    then show ?thesis
      using Suc.IH [of "Suc S" d1] Suc.prems None by (simp only: split find_append d1) simp
  next
    case (Some c)
    define e where "e = c - 128 * S"
    have c: "c = 128 * S + e" and e: "e < 128"
      using find_upt_SomeD [OF Some] by (auto simp: e_def)
    have o4: "unat (of_nat e * 4 :: u32) = 4 * e"
      using e by (subst unat_mult_small) (simp_all add: unat_of_nat_small)
    let ?b = "memcpy_at (blk d (ucast ?a)) (4 * e)
      (le32 (fat_entry_update (buf32 (blk d (ucast ?a)) (4 * e)) FAT32_CLUSTER_EOC))"
    have b: "length ?b = 512" using e by (subst length_memcpy_at) (simp_all add: len)
    obtain d2 where w: "kwrite dr d1 (ucast ?a) ?b = (True, d2)" and d2: "blk d2 = (blk d)(ucast ?a := ?b)"
      using block_device_write [OF dev cap b, of d1] d1 by auto
    have res: "alloc_sector dr v (of_nat S) (Suc n) d =
       (of_nat c, if 1 < num_fats (bpb v)
          then snd (kwrite dr d2 (ucast (fat_lba v + sectors_per_fat v + of_nat S)) ?b) else d2)"
      by (simp only: alloc_sector.simps Let_def r sz find Some prod.case option.case option.map e_def [symmetric] o4 w)
        (simp add: c mult.commute)
    have "blk (snd (kwrite dr d2 (ucast (fat_lba v + sectors_per_fat v + of_nat S)) ?b)) =
       (blk d2)(ucast (fat_lba v + sectors_per_fat v + of_nat S) := ?b)" if "1 < num_fats (bpb v)"
    proof (rule block_deviceD(5) [OF dev _ b])
      have "unat (?a + sectors_per_fat v) = unat ?a + unat (sectors_per_fat v)"
        using ua S volume_okD(5) [OF vol that] unsigned_less [of "data_lba v", where 'a = nat]
        by (subst unat_add_small) auto
      then show "unat (ucast (fat_lba v + sectors_per_fat v + of_nat S) :: u64) < cap"
        using ua S volume_okD(5,8) [OF vol] that by (simp add: ac_simps)
    qed
    then have "blk (snd (alloc_sector dr v (of_nat S) (Suc n) d)) = put_entry v (of_nat c) FAT32_CLUSTER_EOC (blk d)"
      unfolding res c put_entry_alloc [OF vol S e] by (simp add: Let_def d2)
    moreover have "find (free_cluster (blk d) v) [128 * S..<fat_entries v] = Some c"
      unfolding split find_append using Some by simp
    ultimately show ?thesis unfolding res by simp
  qed
qed (simp add: fat_entries_def)

text \<open>The allocator takes the lowest free cluster, and fails only when there is none.\<close>

lemma alloc_cluster_correct:
  assumes "block_device dr blk cap" "volume_ok v cap"
  shows "case find (free_cluster (blk d) v) [0..<fat_entries v] of
      None \<Rightarrow> fst (fat32_alloc_cluster dr v d) = 0 \<and> blk (snd (fat32_alloc_cluster dr v d)) = blk d
    | Some c \<Rightarrow> fst (fat32_alloc_cluster dr v d) = of_nat c \<and>
        blk (snd (fat32_alloc_cluster dr v d)) = put_entry v (of_nat c) FAT32_CLUSTER_EOC (blk d)"
  using alloc_sector_correct [OF assms, of 0 "unat (sectors_per_fat v)" d, unfolded semiring_1_class.of_nat_0 mult_0_right add_0, OF refl]
  unfolding fat32_alloc_cluster_def by blast

end
