(* ===== verification/Fat_Chain.thy ===== *)
theory Fat_Chain
  imports Fat_Table
begin

text \<open>
  Cluster chains: the clusters that the table links from a first cluster to an
  end mark, and the bytes they hold.  What writing, reading and freeing a
  chain does, in terms of these two views of the medium.
\<close>

section \<open>Chains\<close>

fun is_chain :: "(u32 \<Rightarrow> u32) \<Rightarrow> FAT32_Volume \<Rightarrow> u32 \<Rightarrow> u32 list \<Rightarrow> bool" where
  "is_chain F v c [] \<longleftrightarrow> FAT32_CLUSTER_EOC \<le> c"
| "is_chain F v c (x # xs) \<longleftrightarrow> c = x \<and> valid_cluster v x \<and> is_chain F v (F x) xs"

definition chain_data :: "medium \<Rightarrow> FAT32_Volume \<Rightarrow> u32 list \<Rightarrow> u8 list" where
  "chain_data m v cs = concat (map (cluster_data m v) cs)"

definition free_set :: "medium \<Rightarrow> FAT32_Volume \<Rightarrow> u32 set" where
  "free_set m v = {c. valid_cluster v c \<and> fat m v c = FAT32_CLUSTER_FREE}"

lemma finite_free_set [simp]: "finite (free_set m v)" by simp

lemma is_chain_cong:
  "(\<And>x. x \<in> set xs \<Longrightarrow> F' x = F x) \<Longrightarrow> is_chain F' v c xs = is_chain F v c xs"
  by (induction xs arbitrary: c) auto

lemma is_chain_valid: "is_chain F v c xs \<Longrightarrow> x \<in> set xs \<Longrightarrow> valid_cluster v x"
  by (induction xs arbitrary: c) auto

lemma valid_clusterD:
  assumes "volume_ok v cap" "valid_cluster v c"
  shows "2 \<le> c" "c < FAT32_CLUSTER_BAD" "unat c < fat_entries v" "c \<noteq> 0" "\<not> FAT32_CLUSTER_EOC \<le> c"
proof -
  have c: "2 \<le> unat c" "unat c < 0x0FFFFFF7"
    using assms volume_okD(1) [OF assms(1)] by (auto simp: valid_cluster_def)
  then show "2 \<le> c" "c < FAT32_CLUSTER_BAD" "\<not> FAT32_CLUSTER_EOC \<le> c"
    by (simp_all add: word_le_nat_alt word_less_nat_alt)
  show "c \<noteq> 0" using c(1) by auto
qed (use assms in \<open>auto simp: valid_cluster_def\<close>)

lemma is_chain_head:
  assumes "volume_ok v cap" "is_chain F v c xs"
  shows "c \<noteq> 0" "xs = [] \<Longrightarrow> FAT32_CLUSTER_BAD \<le> c"
proof -
  have e: "FAT32_CLUSTER_EOC \<le> c \<Longrightarrow> c \<noteq> 0 \<and> FAT32_CLUSTER_BAD \<le> c"
    by (auto simp: word_le_nat_alt)
  show "c \<noteq> 0" using assms valid_clusterD(4) [OF assms(1)] e by (cases xs) auto
  show "xs = [] \<Longrightarrow> FAT32_CLUSTER_BAD \<le> c" using assms e by auto
qed

lemma is_chain_used: "volume_ok v cap \<Longrightarrow> is_chain F v c xs \<Longrightarrow> x \<in> set xs \<Longrightarrow> F x \<noteq> 0"
  by (induction xs arbitrary: c) (auto dest: is_chain_head(1))

lemma is_chain_unique:
  "volume_ok v cap \<Longrightarrow> is_chain F v c xs \<Longrightarrow> is_chain F v c ys \<Longrightarrow> xs = ys"
proof (induction xs arbitrary: c ys)
  case Nil
  then show ?case by (cases ys) (auto dest: valid_clusterD(5))
next
  case (Cons x xs)
  then show ?case by (cases ys) (auto dest: valid_clusterD(5))
qed

lemma is_chain_drop: "is_chain F v c xs \<Longrightarrow> n < length xs \<Longrightarrow> is_chain F v (xs ! n) (drop n xs)"
proof (induction n arbitrary: c xs)
  case 0
  then show ?case by (cases xs) auto
next
  case (Suc n)
  then show ?case by (cases xs) auto
qed

lemma is_chain_distinct:
  assumes vol: "volume_ok v cap" and "is_chain F v c xs"
  shows "distinct xs"
  using assms(2)
proof (induction xs arbitrary: c)
  case (Cons x xs)
  have "x \<notin> set xs"
  proof
    assume "x \<in> set xs"
    then obtain n where n: "n < length xs" "xs ! n = x" by (auto simp: in_set_conv_nth)
    have "is_chain F v x (drop (Suc n) (x # xs))"
      using is_chain_drop [OF Cons.prems, of "Suc n"] n by simp
    moreover have "is_chain F v x (x # xs)" using Cons.prems by auto
    ultimately have "drop (Suc n) (x # xs) = x # xs" by (rule is_chain_unique [OF vol])
    then have "length (drop (Suc n) (x # xs)) = length (x # xs)" by simp
    then show False by simp
  qed
  then show ?case using Cons by auto
qed simp

lemma length_cluster_data:
  assumes "\<And>a. length (m a) = 512"
  shows "length (cluster_data m v c) = 512 * unat (sectors_per_cluster (bpb v))"
  by (simp add: cluster_data_def length_concat o_def assms sum_list_triv)

lemma length_chain_data:
  assumes "\<And>a. length (m a) = 512" "volume_ok v cap"
  shows "length (chain_data m v cs) = cluster_bytes v * length cs"
  by (induction cs) (simp_all add: chain_data_def length_cluster_data [OF assms(1)] volume_okD(7) [OF assms(2)])

section \<open>Padding\<close>

definition pad :: "nat \<Rightarrow> u8 list \<Rightarrow> u8 list" where
  "pad n xs = take n (xs @ replicate n 0)"

lemma length_pad [simp]: "length (pad n xs) = n"
  by (simp add: pad_def)

lemma pad_0 [simp]: "pad 0 xs = []"
  by (simp add: pad_def)

lemma pad_add: "pad (m + n) xs = pad m xs @ pad n (drop m xs)"
proof -
  have nth: "pad k ys ! i = (if i < length ys then ys ! i else 0)" if "i < k" for k ys i
    using that by (simp add: pad_def nth_append)
  show ?thesis
  proof (rule nth_equalityI)
    fix i assume "i < length (pad (m + n) xs)"
    then show "pad (m + n) xs ! i = (pad m xs @ pad n (drop m xs)) ! i"
      by (auto simp: nth_append nth)
  qed simp
qed

lemma pad_short: "length xs \<le> n \<Longrightarrow> pad n xs = xs @ replicate (n - length xs) 0"
  by (simp add: pad_def)

lemma take_pad: "k \<le> length xs \<Longrightarrow> length xs \<le> n \<Longrightarrow> take k (pad n xs) = take k xs"
  by (simp add: pad_short)

lemma concat_pads: "concat (map (\<lambda>j. pad s (drop (s * j) xs)) [0..<n]) = pad (s * n) xs"
proof (induction n)
  case (Suc n)
  have "pad (s * Suc n) xs = pad (s * n) xs @ pad s (drop (s * n) xs)"
    using pad_add [of "s * n" s xs] by (simp add: add.commute)
  then show ?case using Suc by simp
qed simp

section \<open>Writing a chain\<close>

lemma fill_cluster_correct:
  assumes dev: "block_device dr blk cap"
    and a: "\<And>j. j < k \<Longrightarrow> unat (ucast (lba + of_nat j) :: u64) < cap"
    and inj: "\<And>i j. i < k \<Longrightarrow> j < k \<Longrightarrow> lba + of_nat i = lba + of_nat j \<longleftrightarrow> i = j"
    and len: "len \<le> length bytes" and "s \<le> k" "remaining \<le> len"
    and run: "fill_cluster dr lba (Some bytes) len [s..<k] remaining d = (r, d')"
  shows "r = remaining - 512 * (k - s) \<and>
    (\<forall>j. s \<le> j \<and> j < k \<longrightarrow> blk d' (ucast (lba + of_nat j)) =
       pad 512 (drop (len - remaining + 512 * (j - s)) (take len bytes))) \<and>
    (\<forall>a. (\<forall>j. s \<le> j \<and> j < k \<longrightarrow> a \<noteq> ucast (lba + of_nat j)) \<longrightarrow> blk d' a = blk d a)"
  using assms(5-)
proof (induction "k - s" arbitrary: s remaining d)
  case (Suc n)
  let ?a = "ucast (lba + of_nat s) :: u64"
  let ?rest = "drop (len - remaining) (take len bytes)"
  have ks: "[s..<k] = s # [Suc s..<k]" "s < k" using Suc.hyps(2) by (simp_all add: upt_conv_Cons)
  have sz: "unat (sector_size dr) = 512" using block_deviceD(1) [OF dev] by simp
  define rem1 where "rem1 = remaining - 512"
  have lr: "length ?rest = remaining" using len Suc.prems(2) by simp
  define tmp where "tmp = (if 0 < remaining
     then memcpy_at (replicate 512 0) 0 (take (min 512 remaining) (drop (len - remaining) bytes)) else replicate 512 0)"
  have tmp: "tmp = pad 512 ?rest"
  proof (cases "0 < remaining")
    case True
    have "take (min 512 remaining) (drop (len - remaining) bytes) = take 512 ?rest"
    proof -
      have "min 512 remaining + (len - remaining) = min (512 + (len - remaining)) len" using Suc.prems(2) by auto
      then show ?thesis by (simp add: take_drop)
    qed
    moreover have "length (take 512 ?rest) \<le> 512" by simp
    ultimately show ?thesis
      using True by (simp add: tmp_def memcpy_at_def pad_def lr)
  qed (simp add: tmp_def pad_def lr)
  have l: "length tmp = 512" by (simp add: tmp)
  obtain d1 where w: "kwrite dr d ?a tmp = (True, d1)" and d1: "blk d1 = (blk d)(?a := tmp)"
    using block_device_write [OF dev a [OF ks(2)] l] .
  have run: "fill_cluster dr lba (Some bytes) len [Suc s..<k] rem1 d1 = (r, d')"
  proof -
    have "(if 512 < remaining then 512 else remaining) = min 512 remaining" by simp
    moreover have "remaining - min 512 remaining = rem1" by (simp add: rem1_def)
    ultimately show ?thesis
      using Suc.prems(3) w unfolding ks fill_cluster.simps Let_def sz option.case tmp_def [symmetric]
      by (cases "0 < remaining") (simp_all add: tmp_def rem1_def)
  qed
  have IH: "r = rem1 - 512 * (k - Suc s) \<and>
    (\<forall>j. Suc s \<le> j \<and> j < k \<longrightarrow> blk d' (ucast (lba + of_nat j)) =
       pad 512 (drop (len - rem1 + 512 * (j - Suc s)) (take len bytes))) \<and>
    (\<forall>a. (\<forall>j. Suc s \<le> j \<and> j < k \<longrightarrow> a \<noteq> ucast (lba + of_nat j)) \<longrightarrow> blk d' a = blk d1 a)"
    using Suc.hyps(1) [of "Suc s" rem1 d1] Suc.hyps(2) Suc.prems(2) ks(2) run by (simp add: rem1_def)
  have same: "blk d' ?a = tmp"
  proof -
    have "\<forall>j. Suc s \<le> j \<and> j < k \<longrightarrow> ?a \<noteq> ucast (lba + of_nat j)"
      using inj ks(2) by (metis Suc_n_not_le_n ucast_inj64)
    then show ?thesis using IH d1 by simp
  qed
  have sect: "drop (len - rem1 + 512 * (j - Suc s)) (take len bytes) =
      drop (len - remaining + 512 * (j - s)) (take len bytes)" if "Suc s \<le> j" for j
  proof (cases "512 \<le> remaining")
    case True
    then have "len - rem1 + 512 * (j - Suc s) = len - remaining + 512 * (j - s)"
      using that Suc.prems(2) by (auto simp: rem1_def)
    then show ?thesis by simp
  next
    case False
    then have "len \<le> len - rem1 + 512 * (j - Suc s)" "len \<le> len - remaining + 512 * (j - s)"
      using that by (auto simp: rem1_def)
    then show ?thesis by simp
  qed
  show ?case
  proof (intro conjI allI impI)
    show "r = remaining - 512 * (k - s)" using IH ks(2) by (auto simp: rem1_def)
  next
    fix j assume "s \<le> j \<and> j < k"
    then show "blk d' (ucast (lba + of_nat j)) = pad 512 (drop (len - remaining + 512 * (j - s)) (take len bytes))"
      using IH same tmp sect by (cases "j = s") auto
  next
    fix a :: u64 assume "\<forall>j. s \<le> j \<and> j < k \<longrightarrow> a \<noteq> ucast (lba + of_nat j)"
    then have "a \<noteq> ?a" "\<forall>j. Suc s \<le> j \<and> j < k \<longrightarrow> a \<noteq> ucast (lba + of_nat j)" using ks(2) by auto
    then show "blk d' a = blk d a" using IH d1 by simp
  qed
qed auto

lemma fill_cluster_data:
  assumes dev: "block_device dr blk cap" and vol: "volume_ok v cap" and c: "valid_cluster v c"
    and len: "len \<le> length bytes" "remaining \<le> len"
    and run: "fill_cluster dr (cluster_to_lba v c) (Some bytes) len
       [0..<unat (sectors_per_cluster (bpb v))] remaining d = (r, d')"
  shows "r = remaining - cluster_bytes v"
    "cluster_data (blk d') v c = pad (cluster_bytes v) (drop (len - remaining) (take len bytes))"
    "\<And>x. valid_cluster v x \<Longrightarrow> x \<noteq> c \<Longrightarrow> cluster_data (blk d') v x = cluster_data (blk d) v x"
    "\<And>a. unat a < unat (data_lba v) \<Longrightarrow> blk d' a = blk d a"
proof -
  let ?k = "unat (sectors_per_cluster (bpb v))" and ?l = "cluster_to_lba v c"
  have fill: "r = remaining - 512 * (?k - 0) \<and>
    (\<forall>j. 0 \<le> j \<and> j < ?k \<longrightarrow> blk d' (ucast (?l + of_nat j)) =
       pad 512 (drop (len - remaining + 512 * (j - 0)) (take len bytes))) \<and>
    (\<forall>a. (\<forall>j. 0 \<le> j \<and> j < ?k \<longrightarrow> a \<noteq> ucast (?l + of_nat j)) \<longrightarrow> blk d' a = blk d a)"
    by (rule fill_cluster_correct [OF dev _ _ len(1) _ len(2) run])
      (use cluster_sector_not_fat(2) [OF vol c] cluster_position_inj [OF vol c _ c] in auto)
  note cb = volume_okD(7) [OF vol]
  show "r = remaining - cluster_bytes v" using fill cb by simp
  have "cluster_data (blk d') v c =
      concat (map (\<lambda>j. pad 512 (drop (512 * j) (drop (len - remaining) (take len bytes)))) [0..<?k])"
    unfolding cluster_data_def using fill
    by (intro arg_cong [of _ _ concat] map_cong) (auto simp: add.commute)
  then show "cluster_data (blk d') v c = pad (cluster_bytes v) (drop (len - remaining) (take len bytes))"
    by (simp only: concat_pads cb)
  show "cluster_data (blk d') v x = cluster_data (blk d) v x" if x: "valid_cluster v x" "x \<noteq> c" for x
    unfolding cluster_data_def
  proof (intro arg_cong [of _ _ concat] map_cong refl)
    fix s assume "s \<in> set [0..<?k]"
    then have "(ucast (cluster_to_lba v x + of_nat s) :: u64) \<noteq> ucast (?l + of_nat j)" if "j < ?k" for j
      using cluster_position_inj [OF vol x(1) _ c that] x(2) by simp
    then show "blk d' (ucast (cluster_to_lba v x + of_nat s)) = blk d (ucast (cluster_to_lba v x + of_nat s))"
      using fill by blast
  qed
  show "blk d' a = blk d a" if "unat a < unat (data_lba v)" for a
  proof -
    have "a \<noteq> ucast (?l + of_nat j)" if "j < ?k" for j
      using cluster_sector_not_fat(1) [OF vol c that] \<open>unat a < unat (data_lba v)\<close> by auto
    then show ?thesis using fill by blast
  qed
qed

lemma alloc_cluster_cases:
  assumes dev: "block_device dr blk cap" and vol: "volume_ok v cap"
    and run: "fat32_alloc_cluster dr v d = (cl, d')"
  shows "cl = 0 \<and> free_set (blk d) v = {} \<or>
     cl \<in> free_set (blk d) v \<and> cl \<noteq> 0 \<and> blk d' = put_entry v cl FAT32_CLUSTER_EOC (blk d)"
proof (cases "find (free_cluster (blk d) v) [0..<fat_entries v]")
  case None
  then have none: "\<not> free_cluster (blk d) v c" if "c < fat_entries v" for c
    using that by (auto simp: find_None_iff)
  have "c \<notin> free_set (blk d) v" for c
    using none [of "unat c"] by (auto simp: free_set_def free_cluster_def valid_cluster_def)
  then show ?thesis using alloc_cluster_correct [OF dev vol, of d] None run by auto
next
  case (Some c)
  then have c: "2 \<le> c" "c < fat_entries v" "fat (blk d) v (of_nat c) = 0"
    using find_upt_SomeD [OF Some] by (auto simp: free_cluster_def)
  then have "valid_cluster v (of_nat c)" using cluster_word [OF vol c(2)] by (simp add: valid_cluster_def)
  then show ?thesis
    using alloc_cluster_correct [OF dev vol, of d] Some run c(3) valid_clusterD(4) [OF vol]
    by (auto simp: free_set_def)
qed

text \<open>One round of \<open>fat32_write_cluster_chain\<close>: a free cluster gets the next part
  of the content and becomes the end of the chain.\<close>

lemma chain_round:
  assumes dev: "block_device dr blk cap" and vol: "volume_ok v cap"
    and alloc: "fat32_alloc_cluster dr v d = (cl, d1)" "cl \<noteq> 0"
    and prev: "prev = 0 \<or> valid_cluster v prev \<and> fat (blk d) v prev \<noteq> 0"
    and d2: "d2 = (if prev \<noteq> 0 then snd (fat32_write_fat dr v prev cl d1) else d1)"
    and len: "len \<le> length bytes" "remaining \<le> len"
    and fill: "fill_cluster dr (cluster_to_lba v cl) (Some bytes) len
       [0..<unat (sectors_per_cluster (bpb v))] remaining d2 = (r, d3)"
  shows "cl \<in> free_set (blk d) v" "cl \<noteq> prev" "r = remaining - cluster_bytes v"
    "\<And>x. unat x < fat_entries v \<Longrightarrow> fat (blk d3) v x =
       (if x = cl then FAT32_CLUSTER_EOC else if x = prev \<and> prev \<noteq> 0 then cl else fat (blk d) v x)"
    "\<And>x. valid_cluster v x \<Longrightarrow> cluster_data (blk d3) v x =
       (if x = cl then pad (cluster_bytes v) (drop (len - remaining) (take len bytes))
        else cluster_data (blk d) v x)"
    "free_set (blk d3) v = free_set (blk d) v - {cl}"
proof -
  note l = block_deviceD(6) [OF dev]
  show cl: "cl \<in> free_set (blk d) v" and d1: "cl \<noteq> prev"
    using alloc_cluster_cases [OF dev vol alloc(1)] alloc(2) prev by (auto simp: free_set_def)
  have m1: "blk d1 = put_entry v cl FAT32_CLUSTER_EOC (blk d)"
    using alloc_cluster_cases [OF dev vol alloc(1)] alloc(2) by auto
  have vc: "valid_cluster v cl" using cl by (simp add: free_set_def)
  note vcD = valid_clusterD [OF vol vc]
  have mask: "cl AND FAT32_CLUSTER_MASK = cl"
  proof -
    have "(0x0FFFFFFF :: u32) = mask 28" by (simp add: mask_eq_exp_minus_1)
    then have "cl AND FAT32_CLUSTER_MASK = take_bit 28 cl" by (simp only: take_bit_eq_mask)
    moreover have "unat (take_bit 28 cl) = unat cl"
      using vcD(2) by (subst unsigned_take_bit_eq) (simp add: word_less_nat_alt take_bit_nat_eq_self)
    ultimately show ?thesis by (simp add: word_unat_eq_iff)
  qed
  have m2: "blk d2 = (if prev \<noteq> 0 then put_entry v prev cl (blk d1) else blk d1)"
    using d2 write_fat_correct(2) [OF dev vol, of prev cl d1] prev by (auto simp: valid_cluster_def)
  have F2: "fat (blk d2) v x =
      (if x = cl then FAT32_CLUSTER_EOC else if x = prev \<and> prev \<noteq> 0 then cl else fat (blk d) v x)"
    if x: "unat x < fat_entries v" for x
  proof -
    have F1: "fat (blk d1) v x = (if x = cl then FAT32_CLUSTER_EOC else fat (blk d) v x)"
      unfolding m1 using put_entry_fat [OF vol vcD(3) x, of "blk d" FAT32_CLUSTER_EOC] l by simp
    show ?thesis
    proof (cases "prev = 0")
      case False
      then have "unat prev < fat_entries v" using prev by (auto simp: valid_cluster_def)
      then show ?thesis
        using False m2 F1 d1 mask put_entry_fat [OF vol _ x, of prev "blk d1" cl] l by auto
    qed (use m2 F1 in simp)
  qed
  note fd = fill_cluster_data [OF dev vol vc len fill]
  show "r = remaining - cluster_bytes v" by (rule fd(1))
  show F3: "fat (blk d3) v x =
      (if x = cl then FAT32_CLUSTER_EOC else if x = prev \<and> prev \<noteq> 0 then cl else fat (blk d) v x)"
    if x: "unat x < fat_entries v" for x
    using fat_raw_cong [OF vol x fd(4)] F2 [OF x] by (simp add: fat_def)
  have D2: "cluster_data (blk d2) v x = cluster_data (blk d) v x" if x: "valid_cluster v x" for x
    using put_entry_data [OF vol vcD(3) x] put_entry_data [OF vol _ x, of prev] prev m1 m2
    by (auto simp: valid_cluster_def)
  show "cluster_data (blk d3) v x =
       (if x = cl then pad (cluster_bytes v) (drop (len - remaining) (take len bytes))
        else cluster_data (blk d) v x)" if x: "valid_cluster v x" for x
    using fd(2) fd(3) [OF x] D2 [OF x] by auto
  show "free_set (blk d3) v = free_set (blk d) v - {cl}"
  proof (rule set_eqI)
    fix x
    show "x \<in> free_set (blk d3) v \<longleftrightarrow> x \<in> free_set (blk d) v - {cl}"
    proof (cases "valid_cluster v x")
      case True
      then have "fat (blk d3) v x = 0 \<longleftrightarrow> x \<noteq> cl \<and> fat (blk d) v x = 0"
        using F3 [of x] d1 prev vcD(4) by (auto simp: valid_cluster_def)
      then show ?thesis using True by (auto simp: free_set_def)
    qed (simp add: free_set_def)
  qed
qed

text \<open>What writing \<open>n\<close> clusters adds to the medium \<open>m\<close>: the new clusters \<open>cs\<close> were
  free, hold the padded content, and nothing else changed but the entry of \<open>prev\<close>.\<close>

definition extends :: "FAT32_Volume \<Rightarrow> medium \<Rightarrow> medium \<Rightarrow> u32 list \<Rightarrow> u32 set \<Rightarrow> u8 list \<Rightarrow> bool" where
  "extends v m m' cs P content \<longleftrightarrow>
     distinct cs \<and> set cs \<subseteq> free_set m v \<and>
     (\<forall>x. unat x < fat_entries v \<and> x \<notin> set cs \<and> x \<notin> P \<longrightarrow> fat m' v x = fat m v x) \<and>
     (\<forall>x. valid_cluster v x \<and> x \<notin> set cs \<longrightarrow> cluster_data m' v x = cluster_data m v x) \<and>
     chain_data m' v cs = pad (cluster_bytes v * length cs) content"

lemma chain_loop_correct:
  assumes dev: "block_device dr blk cap" and vol: "volume_ok v cap" and len: "len \<le> length bytes"
    and "valid_cluster v prev" "FAT32_CLUSTER_EOC \<le> fat (blk d) v prev" "first \<noteq> 0" "remaining \<le> len"
    and "chain_loop dr v (Some bytes) len n first prev remaining d = (f, d')"
  shows "if n \<le> card (free_set (blk d) v)
     then f = first \<and> (\<exists>cs. length cs = n \<and> is_chain (fat (blk d') v) v (fat (blk d') v prev) cs \<and>
        extends v (blk d) (blk d') cs {prev} (drop (len - remaining) (take len bytes)))
     else f = 0"
  using assms(4-)
proof (induction n arbitrary: d prev remaining)
  case 0
  then show ?case by (auto simp: extends_def chain_data_def)
next
  case (Suc n)
  obtain cl d1 where alloc: "fat32_alloc_cluster dr v d = (cl, d1)" by fastforce
  show ?case
  proof (cases "cl = 0")
    case True
    then have "free_set (blk d) v = {}" using alloc_cluster_cases [OF dev vol alloc] by auto
    moreover have "f = 0" using Suc.prems(5) True alloc by simp
    ultimately show ?thesis by simp
  next
    case False
    define d2 where "d2 = (if prev \<noteq> 0 then snd (fat32_write_fat dr v prev cl d1) else d1)"
    obtain r d3 where fill: "fill_cluster dr (cluster_to_lba v cl) (Some bytes) len
        [0..<unat (sectors_per_cluster (bpb v))] remaining d2 = (r, d3)" by fastforce
    have prev: "fat (blk d) v prev \<noteq> 0" "prev \<noteq> 0"
      using Suc.prems(1,2) valid_clusterD(4) [OF vol] by auto
    note rd = chain_round [OF dev vol alloc False _ d2_def len Suc.prems(4) fill]
    have p: "prev = 0 \<or> valid_cluster v prev \<and> fat (blk d) v prev \<noteq> 0" using Suc.prems(1) prev by simp
    note round = rd [OF p]
    have vc: "valid_cluster v cl" "unat cl < fat_entries v" "unat prev < fat_entries v"
      using round(1) Suc.prems(1) by (auto simp: free_set_def valid_cluster_def)
    have loop: "chain_loop dr v (Some bytes) len n first cl r d3 = (f, d')"
      using Suc.prems(3,5) alloc False fill by (simp add: d2_def Let_def)
    have IH: "if n \<le> card (free_set (blk d3) v)
     then f = first \<and> (\<exists>cs. length cs = n \<and> is_chain (fat (blk d') v) v (fat (blk d') v cl) cs \<and>
        extends v (blk d3) (blk d') cs {cl} (drop (len - r) (take len bytes)))
     else f = 0"
    proof (rule Suc.IH [OF vc(1) _ Suc.prems(3) _ loop])
      show "FAT32_CLUSTER_EOC \<le> fat (blk d3) v cl" using round(4) [OF vc(2)] by simp
      show "r \<le> len" using round(3) Suc.prems(4) by simp
    qed
    have "card (free_set (blk d) v) = Suc (card (free_set (blk d3) v))"
      unfolding round(6) using round(1) by (metis card_Suc_Diff1 finite_free_set)
    moreover have "\<exists>cs. length cs = Suc n \<and> is_chain (fat (blk d') v) v (fat (blk d') v prev) cs \<and>
        extends v (blk d) (blk d') cs {prev} (drop (len - remaining) (take len bytes))"
      if cs: "length cs = n" "is_chain (fat (blk d') v) v (fat (blk d') v cl) cs"
        and ext: "extends v (blk d3) (blk d') cs {cl} (drop (len - r) (take len bytes))" for cs
    proof (intro exI [of _ "cl # cs"] conjI)
      have sub: "set cs \<subseteq> free_set (blk d) v - {cl}" using ext by (simp add: extends_def round(6))
      have "prev \<notin> set cs" using sub prev(1) by (auto simp: free_set_def)
      then have "fat (blk d') v prev = cl"
        using ext vc(3) round(2) round(4) [of prev] prev(2) by (auto simp: extends_def)
      then show "is_chain (fat (blk d') v) v (fat (blk d') v prev) (cl # cs)"
        using cs(2) vc(1) by simp
      have "cluster_data (blk d') v cl = pad (cluster_bytes v) (drop (len - remaining) (take len bytes))"
        using ext sub vc(1) round(5) by (auto simp: extends_def)
      moreover have "drop (len - r) (take len bytes) = drop (cluster_bytes v) (drop (len - remaining) (take len bytes))"
        using round(3) Suc.prems(4) by (cases "cluster_bytes v \<le> remaining") (auto simp: add.commute)
      ultimately have "chain_data (blk d') v (cl # cs) =
          pad (cluster_bytes v * length (cl # cs)) (drop (len - remaining) (take len bytes))"
        using ext pad_add [of "cluster_bytes v" "cluster_bytes v * length cs"]
        by (simp add: extends_def chain_data_def)
      then show "extends v (blk d) (blk d') (cl # cs) {prev} (drop (len - remaining) (take len bytes))"
        using ext sub round(1,4,5) by (auto simp: extends_def)
    qed (use cs in simp)
    ultimately show ?thesis using IH by (auto split: if_splits)
  qed
qed

lemma write_chain_correct:
  assumes dev: "block_device dr blk cap" and vol: "volume_ok v cap" and len: "len \<le> length bytes"
    and run: "fat32_write_cluster_chain dr v (Some bytes) len d = (f, d')"
  shows "if clusters_needed v len \<le> card (free_set (blk d) v)
     then \<exists>cs. cs \<noteq> [] \<and> length cs = clusters_needed v len \<and> is_chain (fat (blk d') v) v f cs \<and>
        extends v (blk d) (blk d') cs {} (take len bytes)
     else f = 0"
proof -
  have cb: "0 < cluster_bytes v" using volume_okD(2,7) [OF vol] by simp
  have "clusters_needed v len \<noteq> 0"
    using cb by (auto simp: clusters_needed_def div_greater_zero_iff)
  then obtain n where n: "clusters_needed v len = Suc n" by (cases "clusters_needed v len") auto
  obtain cl d1 where alloc: "fat32_alloc_cluster dr v d = (cl, d1)" by fastforce
  show ?thesis
  proof (cases "cl = 0")
    case True
    then have "free_set (blk d) v = {}" using alloc_cluster_cases [OF dev vol alloc] by auto
    moreover have "f = 0" using run True alloc n by (simp add: fat32_write_cluster_chain_def)
    ultimately show ?thesis using n by simp
  next
    case False
    obtain r d3 where fill: "fill_cluster dr (cluster_to_lba v cl) (Some bytes) len
        [0..<unat (sectors_per_cluster (bpb v))] len d1 = (r, d3)" by fastforce
    note round = chain_round [OF dev vol alloc False _ _ len _ fill, of 0, simplified]
    have vc: "valid_cluster v cl" "unat cl < fat_entries v"
      using round(1) by (auto simp: free_set_def valid_cluster_def)
    have loop: "chain_loop dr v (Some bytes) len n cl cl r d3 = (f, d')"
      using run alloc False fill n by (simp add: fat32_write_cluster_chain_def Let_def)
    have rest: "if n \<le> card (free_set (blk d3) v)
     then f = cl \<and> (\<exists>cs. length cs = n \<and> is_chain (fat (blk d') v) v (fat (blk d') v cl) cs \<and>
        extends v (blk d3) (blk d') cs {cl} (drop (len - r) (take len bytes)))
     else f = 0"
    proof (rule chain_loop_correct [OF dev vol len vc(1) _ False _ loop])
      show "FAT32_CLUSTER_EOC \<le> fat (blk d3) v cl" using round(4) [OF vc(2)] by simp
      show "r \<le> len" using round(3) by simp
    qed
    have "card (free_set (blk d) v) = Suc (card (free_set (blk d3) v))"
      unfolding round(6) using round(1) by (metis card_Suc_Diff1 finite_free_set)
    moreover have "\<exists>cs. cs \<noteq> [] \<and> length cs = Suc n \<and> is_chain (fat (blk d') v) v cl cs \<and>
        extends v (blk d) (blk d') cs {} (take len bytes)"
      if cs: "length cs = n" "is_chain (fat (blk d') v) v (fat (blk d') v cl) cs"
        and ext: "extends v (blk d3) (blk d') cs {cl} (drop (len - r) (take len bytes))" for cs
    proof (intro exI [of _ "cl # cs"] conjI)
      have sub: "set cs \<subseteq> free_set (blk d) v - {cl}" using ext by (simp add: extends_def round(6))
      show "is_chain (fat (blk d') v) v cl (cl # cs)" using cs(2) vc(1) by simp
      have "cluster_data (blk d') v cl = pad (cluster_bytes v) (take len bytes)"
        using ext sub vc(1) round(5) by (auto simp: extends_def)
      moreover have "drop (len - r) (take len bytes) = drop (cluster_bytes v) (take len bytes)"
        using round(3) by (cases "cluster_bytes v \<le> len") auto
      ultimately have "chain_data (blk d') v (cl # cs) = pad (cluster_bytes v * length (cl # cs)) (take len bytes)"
        using ext pad_add [of "cluster_bytes v" "cluster_bytes v * length cs"]
        by (simp add: extends_def chain_data_def)
      then show "extends v (blk d) (blk d') (cl # cs) {} (take len bytes)"
        using ext sub round(1,4,5) by (auto simp: extends_def)
    qed (use cs in auto)
    ultimately show ?thesis using rest n by (auto split: if_splits)
  qed
qed

end
