(* ===== verification/Fat_Read.thy ===== *)
theory Fat_Read
  imports Fat_Chain
begin

text \<open>
  Reading a file returns the bytes of its chain, freeing a chain frees exactly
  its clusters.  Both loops end on every chain that ends.
\<close>

section \<open>Sectors of a cluster\<close>

lemma take_drop_concat:
  assumes "\<And>j. j < n \<Longrightarrow> length (f j) = k" "s < n"
  shows "take k (drop (k * s) (concat (map f [0..<n]))) = f s"
proof -
  have "[0..<n] = [0..<s] @ s # [Suc s..<n]"
    using assms(2) upt_add_eq_append [of 0 s "n - s"] by (simp add: upt_conv_Cons)
  moreover have "length (concat (map f [0..<s])) = k * s"
    using assms by (simp add: length_concat o_def sum_list_triv cong: map_cong) (induction s; simp)
  ultimately show ?thesis using assms by simp
qed

lemma cluster_data_sector:
  assumes "\<And>a. length (m a) = 512" "s < unat (sectors_per_cluster (bpb v))"
  shows "take 512 (drop (512 * s) (cluster_data m v c)) = m (ucast (cluster_to_lba v c + of_nat s))"
  unfolding cluster_data_def by (rule take_drop_concat) (use assms in auto)

lemma cluster_bytes_bound: "volume_ok v cap \<Longrightarrow> cluster_bytes v < 2 ^ 17"
  using volume_okD(7) [of v cap] unsigned_less [of "sectors_per_cluster (bpb v)", where 'a = nat] by simp

lemma to_u32_small [simp]: "n < 2 ^ 32 \<Longrightarrow> to_u32 n = n"
  by (simp add: to_u32_def)

lemma to_s32_small: "n < 2 ^ 31 \<Longrightarrow> to_s32 n = int n"
  by (simp add: to_s32_def to_u32_def)

section \<open>Reading\<close>

lemma read_sectors_correct:
  assumes dev: "block_device dr blk cap" and vol: "volume_ok v cap" and c: "valid_cluster v c"
    and "ofs + n \<le> cluster_bytes v"
  shows "\<exists>d'. read_sectors dr (cluster_to_lba v c) n ofs br buf d =
      Some (False, ofs + n, br + n, buf @ take n (drop ofs (cluster_data (blk d) v c)), d') \<and> blk d' = blk d"
  using assms(4)
proof (induction n arbitrary: ofs br buf d rule: less_induct)
  case (less n)
  show ?case
  proof (cases "n = 0")
    case True
    then show ?thesis by (subst read_sectors.simps) simp
  next
    case False
    let ?D = "cluster_data (blk d) v c" and ?s = "ofs div 512" and ?o = "ofs mod 512"
    have sz: "unat (sector_size dr) = 512" using block_deviceD(1) [OF dev] by simp
    have cb: "cluster_bytes v = 512 * unat (sectors_per_cluster (bpb v))" by (rule volume_okD(7) [OF vol])
    have s: "?s < unat (sectors_per_cluster (bpb v))" using less.prems False cb by linarith
    have small: "ofs < 2 ^ 17" using less.prems False cluster_bytes_bound [OF vol] by linarith
    define chunk where "chunk = (if n < 512 - ?o then n else 512 - ?o)"
    have chunk: "0 < chunk" "chunk \<le> n" "chunk \<le> 512 - ?o" using False by (auto simp: chunk_def)
    let ?b = "blk d (ucast (cluster_to_lba v c + of_nat ?s))"
    obtain d1 where r: "kread dr d (ucast (cluster_to_lba v c + of_nat ?s)) = (Some ?b, d1)" and d1: "blk d1 = blk d"
      using block_device_read [OF dev cluster_sector_not_fat(2) [OF vol c s]] .
    have "take chunk (drop ?o ?b) = take chunk (drop ?o (take 512 (drop (512 * ?s) ?D)))"
      using cluster_data_sector [OF block_deviceD(6) [OF dev] s] by simp
    also have "\<dots> = take chunk (drop ofs ?D)"
      using chunk(3) by (simp add: drop_take add.commute [of ?o])
    finally have copy: "take chunk (drop ?o ?b) = take chunk (drop ofs ?D)" .
    have "take n (drop ofs ?D) = take chunk (drop ofs ?D) @ take (n - chunk) (drop (ofs + chunk) ?D)"
      using chunk(2) take_add [of chunk "n - chunk" "drop ofs ?D"] by (simp add: add.commute)
    moreover obtain d' where "read_sectors dr (cluster_to_lba v c) (n - chunk) (ofs + chunk) (br + chunk)
        (buf @ take chunk (drop ofs ?D)) d1 =
      Some (False, (ofs + chunk) + (n - chunk), (br + chunk) + (n - chunk),
        (buf @ take chunk (drop ofs ?D)) @ take (n - chunk) (drop (ofs + chunk) (cluster_data (blk d1) v c)), d')"
      "blk d' = blk d1"
      using less.IH [of "n - chunk" "ofs + chunk" "br + chunk" "buf @ take chunk (drop ofs ?D)" d1]
        chunk less.prems by auto
    moreover have "to_u32 ?s = ?s" "to_u32 ?o = ?o" using small by (simp_all add: to_u32_def)
    ultimately show ?thesis
      using chunk(2) d1 False
      by (subst read_sectors.simps) (simp add: Let_def sz r copy chunk_def [symmetric])
  qed
qed

lemma read_clusters_correct:
  assumes dev: "block_device dr blk cap" and vol: "volume_ok v cap" and len: "len < 2 ^ 31"
    and "is_chain (fat (blk d) v) v c cs" "co < cluster_bytes v" "br \<le> len"
    and "co + (len - br) \<le> cluster_bytes v * length cs \<or> br = len"
  shows "\<exists>d'. read_clusters dr v len c co br buf d =
      Some (int len, buf @ take (len - br) (drop co (chain_data (blk d) v cs)), d') \<and> blk d' = blk d"
  using assms(4-)
proof (induction cs arbitrary: c co br buf d)
  case Nil
  then have "br = len" by auto
  then show ?case by (subst read_clusters.simps) simp
next
  case (Cons x xs)
  note l = block_deviceD(6) [OF dev]
  have c: "c = x" "valid_cluster v x" "is_chain (fat (blk d) v) v (fat (blk d) v x) xs"
    using Cons.prems(1) by auto
  show ?case
  proof (cases "br = len")
    case True
    then show ?thesis by (subst read_clusters.simps) simp
  next
    case False
    let ?B = "cluster_bytes v" and ?D = "cluster_data (blk d) v x"
    define k where "k = min (?B - co) (len - br)"
    have B: "?B < 2 ^ 17" by (rule cluster_bytes_bound [OF vol])
    have s: "to_s32 (?B - co) = int (?B - co)" "to_s32 (len - br) = int (len - br)" "to_u32 (len - br) = len - br"
      using B len by (simp_all add: to_s32_small)
    have "(int (?B - co)) mod 2 ^ 32 = int (?B - co)" using B by (intro mod_pos_pos_trivial) auto
    then have k: "(if to_s32 (?B - co) < to_s32 (len - br) then nat (to_s32 (?B - co) mod 2 ^ 32)
        else to_u32 (len - br)) = k"
      unfolding s k_def by (simp only: nat_int of_nat_less_iff min_def not_less) (auto simp: nat_int)
    have "co + k \<le> ?B" using Cons.prems(2) by (auto simp: k_def)
    then obtain d1 where r: "read_sectors dr (cluster_to_lba v x) k co br buf d =
        Some (False, co + k, br + k, buf @ take k (drop co ?D), d1)" and d1: "blk d1 = blk d"
      using read_sectors_correct [OF dev vol c(2)] by blast
    have lD: "length ?D = ?B" using length_cluster_data [of "blk d" v x] l volume_okD(7) [OF vol] by simp
    have guard: "\<not> (len \<le> br \<or> x < 2 \<or> FAT32_CLUSTER_BAD \<le> x)"
      using False Cons.prems(3) valid_clusterD(1,2) [OF vol c(2)] by (auto simp: not_less not_le)
    let ?next = "fst (fat32_next_cluster dr v x d1)" and ?d2 = "snd (fat32_next_cluster dr v x d1)"
    have nx: "?next = fat (blk d) v x" "blk ?d2 = blk d"
      using next_cluster_correct [OF dev vol valid_clusterD(3) [OF vol c(2)], of d1] d1 by simp_all
    have unfold: "read_clusters dr v len c co br buf d =
      (if ?B \<le> co + k then read_clusters dr v len ?next 0 (br + k) (buf @ take k (drop co ?D)) ?d2
       else read_clusters dr v len x (co + k) (br + k) (buf @ take k (drop co ?D)) d1)"
      using guard by (subst read_clusters.simps) (simp add: c(1) Let_def k r)
    show ?thesis
    proof (cases "?B \<le> co + k")
      case True
      then have kB: "k = ?B - co" by (auto simp: k_def)
      have pre: "0 + (len - (br + k)) \<le> ?B * length xs \<or> br + k = len" "br + k \<le> len"
      proof -
        have "k \<le> len - br" by (simp add: k_def)
        then show "br + k \<le> len" using Cons.prems(3) by linarith
        have "?B * length (x # xs) = ?B + ?B * length xs" by simp
        then show "0 + (len - (br + k)) \<le> ?B * length xs \<or> br + k = len"
          using Cons.prems(2,4) False kB by linarith
      qed
      obtain d' where "read_clusters dr v len ?next 0 (br + k) (buf @ take k (drop co ?D)) ?d2 =
          Some (int len, (buf @ take k (drop co ?D)) @ take (len - (br + k)) (drop 0 (chain_data (blk ?d2) v xs)), d')"
        "blk d' = blk ?d2"
        using Cons.IH [of ?d2 ?next 0 "br + k" "buf @ take k (drop co ?D)"] c(3) nx pre Cons.prems(2) by auto
      moreover have "take (len - br) (drop co (chain_data (blk d) v (x # xs))) =
          take k (drop co ?D) @ take (len - (br + k)) (chain_data (blk d) v xs)"
        using kB pre(2) lD Cons.prems(2) by (simp add: chain_data_def)
      ultimately show ?thesis using unfold True nx by simp
    next
      case below: False
      then have k': "k = len - br" by (auto simp: k_def)
      then have "br + k = len" using Cons.prems(3) by simp
      then have "read_clusters dr v len x (co + k) (br + k) (buf @ take k (drop co ?D)) d1 =
          Some (int len, buf @ take k (drop co ?D), d1)"
        by (subst read_clusters.simps) simp
      moreover have "take (len - br) (drop co (chain_data (blk d) v (x # xs))) = take k (drop co ?D)"
        using k' below lD by (simp add: chain_data_def)
      ultimately show ?thesis using unfold below d1 by simp
    qed
  qed
qed

lemma skip_clusters_correct:
  assumes dev: "block_device dr blk cap" and vol: "volume_ok v cap"
    and "is_chain (fat (blk d) v) v c cs" "n < length cs"
  shows "\<exists>d'. skip_clusters dr v n c d = (Some (cs ! n), d') \<and> blk d' = blk d"
  using assms(3-)
proof (induction n arbitrary: c cs d)
  case 0
  then show ?case by (cases cs) auto
next
  case (Suc n)
  then obtain xs where cs: "cs = c # xs" "valid_cluster v c" "is_chain (fat (blk d) v) v (fat (blk d) v c) xs"
    by (cases cs) auto
  obtain d1 where nx: "fat32_next_cluster dr v c d = (fat (blk d) v c, d1)" "blk d1 = blk d"
    using next_cluster_correct [OF dev vol valid_clusterD(3) [OF vol cs(2)], of d]
    by (cases "fat32_next_cluster dr v c d") auto
  have "xs \<noteq> []" using Suc.prems(2) cs(1) by auto
  then have "\<not> FAT32_CLUSTER_BAD \<le> fat (blk d) v c"
    using cs(3) valid_clusterD(2) [OF vol] by (cases xs) (auto simp: not_le)
  then show ?case
    using Suc.IH [of d1 "fat (blk d) v c" xs] nx cs Suc.prems(2) by auto
qed

text \<open>A file is the prefix of its chain; a read returns the part asked for, cut at the end of the file.\<close>

definition file_on :: "medium \<Rightarrow> FAT32_Volume \<Rightarrow> u32 \<Rightarrow> u32 list \<Rightarrow> u8 list \<Rightarrow> bool" where
  "file_on m v c cs content \<longleftrightarrow> is_chain (fat m v) v c cs \<and> length content \<le> cluster_bytes v * length cs \<and>
     take (length content) (chain_data m v cs) = content"

lemma file_read_correct:
  assumes dev: "block_device (fs_drive fs) blk cap" and vol: "volume_ok (fs_volume fs) cap"
    and fl: "file_on (blk d) (fs_volume fs) (file_cluster f) cs content" "file_size f = length content"
    and size: "length content < 2 ^ 31"
  shows "\<exists>d'. fat32_file_read fs f offset len d =
      Some (int (min len (length content - offset)), take len (drop offset content), d') \<and> blk d' = blk d"
proof (cases "length content \<le> offset")
  case True
  then show ?thesis using fl(2) by (simp add: fat32_file_read_def)
next
  case False
  let ?v = "fs_volume fs" and ?B = "cluster_bytes (fs_volume fs)"
  define n where "n = min len (length content - offset)"
  have ch: "is_chain (fat (blk d) ?v) ?v (file_cluster f) cs" "length content \<le> ?B * length cs"
    "take (length content) (chain_data (blk d) ?v cs) = content"
    using fl(1) by (auto simp: file_on_def)
  have B: "0 < ?B" using volume_okD(2,7) [OF vol] by simp
  let ?q = "offset div ?B"
  have "offset < ?B * length cs" using False ch(2) by simp
  then have q: "?q < length cs" by (simp add: less_mult_imp_div_less mult.commute)
  have "offset < 2 ^ 31" using False size by simp
  then have "?q < 2 ^ 32" by (intro le_less_trans [OF div_le_dividend]) simp
  then have u: "to_u32 ?q = ?q" by simp
  obtain d1 where skip: "skip_clusters (fs_drive fs) ?v ?q (file_cluster f) d = (Some (cs ! ?q), d1)"
    and d1: "blk d1 = blk d"
    using skip_clusters_correct [OF dev vol ch(1) q] by blast
  have split: "cs = take ?q cs @ drop ?q cs" by simp
  have total: "length cs = ?q + length (drop ?q cs)" using q by simp
  have data: "drop (offset mod ?B) (chain_data (blk d) ?v (drop ?q cs)) = drop offset (chain_data (blk d) ?v cs)"
  proof -
    have "chain_data (blk d) ?v cs = chain_data (blk d) ?v (take ?q cs) @ chain_data (blk d) ?v (drop ?q cs)"
      by (subst split) (simp only: chain_data_def map_append concat_append)
    moreover have "length (chain_data (blk d) ?v (take ?q cs)) = ?B * ?q"
      using length_chain_data [of "blk d" ?v cap "take ?q cs"] block_deviceD(6) [OF dev] vol q by simp
    moreover have "offset = ?B * ?q + offset mod ?B" by simp
    ultimately show ?thesis by (metis drop_append drop_drop add.commute diff_self_eq_0 diff_diff_left
      drop_all le_add1 append_Nil diff_add_inverse)
  qed
  have pre: "offset mod ?B + (n - 0) \<le> ?B * length (drop ?q cs)"
  proof -
    have "offset + n \<le> ?B * length cs" using False ch(2) by (simp add: n_def)
    also have "\<dots> = ?B * ?q + ?B * length (drop ?q cs)" by (subst total) (simp only: distrib_left)
    finally show ?thesis using mult_div_mod_eq [of ?B offset] by linarith
  qed
  have "is_chain (fat (blk d1) ?v) ?v (cs ! ?q) (drop ?q cs)" using is_chain_drop [OF ch(1) q] d1 by simp
  then obtain d' where rd: "read_clusters (fs_drive fs) ?v n (cs ! ?q) (offset mod ?B) 0 [] d1 =
      Some (int n, [] @ take (n - 0) (drop (offset mod ?B) (chain_data (blk d1) ?v (drop ?q cs))), d')" "blk d' = blk d1"
  proof -
    have n: "n < 2 ^ 31" using size by (simp add: n_def)
    from \<open>is_chain (fat (blk d1) ?v) ?v (cs ! ?q) (drop ?q cs)\<close>
    have "\<exists>d'. read_clusters (fs_drive fs) ?v n (cs ! ?q) (offset mod ?B) 0 [] d1 =
      Some (int n, [] @ take (n - 0) (drop (offset mod ?B) (chain_data (blk d1) ?v (drop ?q cs))), d') \<and> blk d' = blk d1"
      by (rule read_clusters_correct [OF dev vol n]) (use B pre in auto)
    then show ?thesis using that by blast
  qed
  have "take n (drop offset (chain_data (blk d) ?v cs)) = take n (drop offset content)"
  proof -
    have "take n (drop offset (take (length content) (chain_data (blk d) ?v cs))) =
        take n (drop offset (chain_data (blk d) ?v cs))"
      by (simp only: drop_take take_take) (simp add: n_def)
    then show ?thesis using ch(3) by simp
  qed
  also have "\<dots> = take len (drop offset content)" by (auto simp: n_def min_def)
  finally have "take n (drop offset (chain_data (blk d) ?v cs)) = take len (drop offset content)" .
  then show ?thesis
    using False fl(2) skip rd d1 data u
    by (auto simp: fat32_file_read_def Let_def n_def [symmetric])
qed

section \<open>Freeing\<close>

text \<open>Freeing a chain ends, frees every cluster of it and leaves all other entries and every
  cluster's data as they were.\<close>

lemma free_chain_correct:
  assumes dev: "block_device dr blk cap" and vol: "volume_ok v cap"
    and "is_chain (fat (blk d) v) v c cs"
  shows "\<exists>d'. fat32_free_cluster_chain dr v c d = Some d' \<and>
    (\<forall>x. unat x < fat_entries v \<longrightarrow> fat (blk d') v x = (if x \<in> set cs then 0 else fat (blk d) v x)) \<and>
    (\<forall>a. unat (data_lba v) \<le> unat a \<longrightarrow> blk d' a = blk d a)"
  using assms(3)
proof (induction cs arbitrary: c d)
  case Nil
  then have "\<not> (2 \<le> c \<and> c < FAT32_CLUSTER_BAD)" using is_chain_head(2) [OF vol] by (auto simp: not_less)
  then have "fat32_free_cluster_chain dr v c d = Some d"
    by (simp only: fat32_free_cluster_chain.simps [of dr v c d] if_False)
  then show ?case by simp
next
  case (Cons x xs)
  note l = block_deviceD(6) [OF dev]
  have c: "c = x" "valid_cluster v x" "is_chain (fat (blk d) v) v (fat (blk d) v x) xs" using Cons.prems by auto
  note vx = valid_clusterD [OF vol c(2)]
  obtain d1 where nx: "fat32_next_cluster dr v x d = (fat (blk d) v x, d1)" "blk d1 = blk d"
    using next_cluster_correct [OF dev vol vx(3), of d] by (cases "fat32_next_cluster dr v x d") auto
  obtain d2 where wr: "snd (fat32_write_fat dr v x FAT32_CLUSTER_FREE d1) = d2" "blk d2 = put_entry v x 0 (blk d)"
    using write_fat_correct(2) [OF dev vol vx(3), of 0 d1] nx(2) by auto
  have F2: "fat (blk d2) v y = (if y = x then 0 else fat (blk d) v y)" if "unat y < fat_entries v" for y
    using put_entry_fat [OF vol vx(3) that, of "blk d" 0] l wr(2) by simp
  have "x \<notin> set xs" using is_chain_distinct [OF vol Cons.prems] by simp
  then have "is_chain (fat (blk d2) v) v (fat (blk d) v x) xs"
    using c(3) F2 is_chain_valid [OF c(3)]
    by (subst is_chain_cong [of xs _ "fat (blk d) v"]) (auto simp: valid_cluster_def)
  then obtain d' where d': "fat32_free_cluster_chain dr v (fat (blk d) v x) d2 = Some d'"
    "\<And>y. unat y < fat_entries v \<Longrightarrow> fat (blk d') v y = (if y \<in> set xs then 0 else fat (blk d2) v y)"
    "\<And>a. unat (data_lba v) \<le> unat a \<Longrightarrow> blk d' a = blk d2 a"
    using Cons.IH by blast
  have "fat32_free_cluster_chain dr v c d = Some d'"
    using vx(1,2) c(1) nx wr(1) d'(1) by (subst fat32_free_cluster_chain.simps) simp
  moreover have "blk d' a = blk d a" if "unat (data_lba v) \<le> unat a" for a
    using d'(3) [OF that] wr(2) put_entry_data_area [OF vol vx(3) that] by simp
  ultimately show ?case using d'(2) F2 by auto
qed

section \<open>A volume in memory\<close>

text \<open>A drive whose medium is a function from sector numbers to sectors, and a volume with two
  tables of one sector and clusters of one sector: instances on which the theorems are applied.\<close>

definition ramdisk :: "medium kdrive" where
  "ramdisk = \<lparr>sector_size = 512, userdata1 = 0,
     partitions = \<lparr>table_type = PARTITION_NONE, table_count = 1, table_partitions = []\<rparr>,
     kread = (\<lambda>d a. (Some (pad 512 (d a)), d)), kwrite = (\<lambda>d a b. (True, d(a := b)))\<rparr>"

definition ram_blk :: "medium \<Rightarrow> medium" where
  "ram_blk d a = pad 512 (d a)"

definition small_volume :: FAT32_Volume where
  "small_volume = \<lparr>bpb = (load_bpb (replicate 512 0))\<lparr>bytes_per_sector := 512, sectors_per_cluster := 1, num_fats := 2\<rparr>,
     partition_lba = 0, fat_lba = 32, data_lba = 34, root_cluster = 2, total_sectors = 162,
     sectors_per_fat = 1, mounted = 1\<rparr>"

definition small_fs :: "medium drive_fs" where
  "small_fs = \<lparr>fs_drive = ramdisk, fs_volume = small_volume\<rparr>"

text \<open>An empty volume: the two reserved entries and the root directory are in use.\<close>

definition empty_medium :: medium where
  "empty_medium a =
     (if a = 32 \<or> a = 33 then le32 0x0FFFFFF8 @ le32 0x0FFFFFFF @ le32 0x0FFFFFF8 @ replicate 500 0
      else replicate 512 0)"

lemma ramdisk_device: "block_device ramdisk ram_blk cap"
  unfolding block_device_def ramdisk_def ram_blk_def by (auto simp: fun_eq_iff pad_def)

lemma small_volume_ok: "volume_ok small_volume 162"
  by (simp add: volume_ok_def small_volume_def fat_entries_def)

section \<open>Properties\<close>

text \<open>Storing a value in the file allocation table and reading it back: on a volume whose
  regions lie on the medium, \<open>fat32_write_fat\<close> succeeds, \<open>fat32_next_cluster\<close> then
  gives the 28 value bits for that cluster and the old entry for every other cluster, the four
  reserved bits of the entry are kept, no sector of the data area changes, and with two
  tables the mirrored sector is a copy of the primary one.\<close>

theorem write_fat_read_back:
  assumes "block_device dr blk cap" "volume_ok v cap" "unat c < fat_entries v" "unat x < fat_entries v"
    and "fat32_write_fat dr v c val d = (r, d')"
  shows "r = 0 \<and>
    fst (fat32_next_cluster dr v x d') =
      (if x = c then val AND FAT32_CLUSTER_MASK else fst (fat32_next_cluster dr v x d)) \<and>
    fat_raw (blk d') v c AND 0xF0000000 = fat_raw (blk d) v c AND 0xF0000000 \<and>
    (\<forall>a. unat (data_lba v) \<le> unat a \<longrightarrow> blk d' a = blk d a) \<and>
    (1 < num_fats (bpb v) \<longrightarrow>
       blk d' (ucast (fat_sector dr v c + sectors_per_fat v)) = blk d' (ucast (fat_sector dr v c)))"
proof -
  note l = block_deviceD(6) [OF assms(1)]
  have m: "r = 0" "blk d' = put_entry v c val (blk d)"
    using write_fat_correct [OF assms(1-3), of val d] assms(5) by auto
  have "1 < num_fats (bpb v) \<longrightarrow> fat_lba v + c div 128 + sectors_per_fat v \<noteq> fat_lba v + c div 128"
    using mirror_position(1) [OF assms(2,3)] fat_place(1,2) [OF assms(2,3)] by (auto simp: word_unat_eq_iff)
  then show ?thesis
    using m next_cluster_correct(1) [OF assms(1,2,4)] put_entry_fat [OF assms(2-4), of "blk d" val] l
      put_entry_raw [OF assms(2,3,3), of "blk d" val] put_entry_data_area [OF assms(2,3)]
      fat_position(1) [OF assms(2,3) block_deviceD(1) [OF assms(1)]]
    by (auto simp: mask_update put_entry_def Let_def)
qed

text \<open>Witness: entry 5 of the small volume.\<close>

theorem write_fat_read_back_witness:
  "fst (fat32_next_cluster ramdisk small_volume 5 (snd (fat32_write_fat ramdisk small_volume 5 0x17 empty_medium))) = 0x17"
  using write_fat_read_back [OF ramdisk_device small_volume_ok, of 5 5 "0x17" empty_medium
      "fst (fat32_write_fat ramdisk small_volume 5 0x17 empty_medium)"
      "snd (fat32_write_fat ramdisk small_volume 5 0x17 empty_medium)"]
  by (simp add: fat_entries_def small_volume_def)

text \<open>The allocator returns the lowest free cluster: \<open>fat32_alloc_cluster\<close> gives 0 and leaves the
  medium alone exactly when no entry of the table from 2 on is free; otherwise it gives the least
  such entry and marks it, and only it, as the end of a chain.\<close>

theorem alloc_cluster_lowest:
  assumes "block_device dr blk cap" "volume_ok v cap" "fat32_alloc_cluster dr v d = (c, d')"
  shows "(c = 0 \<longleftrightarrow> free_set (blk d) v = {}) \<and> (c = 0 \<longrightarrow> blk d' = blk d) \<and>
    (c \<noteq> 0 \<longrightarrow> c \<in> free_set (blk d) v \<and> (\<forall>x \<in> free_set (blk d) v. c \<le> x) \<and>
       (\<forall>x. unat x < fat_entries v \<longrightarrow>
          fat (blk d') v x = (if x = c then FAT32_CLUSTER_EOC else fat (blk d) v x)))"
proof (cases "c = 0")
  case True
  then have "free_set (blk d) v = {}" using alloc_cluster_cases [OF assms] by auto
  moreover have "blk d' = blk d"
  proof (cases "find (free_cluster (blk d) v) [0..<fat_entries v]")
    case None
    then show ?thesis using alloc_cluster_correct [OF assms(1,2), of d] assms(3) by simp
  next
    case (Some k)
    then have "of_nat k = (0 :: u32)" using alloc_cluster_correct [OF assms(1,2), of d] assms(3) True by simp
    moreover have "2 \<le> k" "unat (of_nat k :: u32) = k"
      using find_upt_SomeD [OF Some] cluster_word [OF assms(2), of k] by (auto simp: free_cluster_def)
    ultimately show ?thesis by simp
  qed
  ultimately show ?thesis using True by simp
next
  case False
  then have c: "c \<in> free_set (blk d) v" "blk d' = put_entry v c FAT32_CLUSTER_EOC (blk d)"
    using alloc_cluster_cases [OF assms] by auto
  obtain k where k: "find (free_cluster (blk d) v) [0..<fat_entries v] = Some k" "c = of_nat k"
    using alloc_cluster_correct [OF assms(1,2), of d] assms(3) False by (auto split: option.splits)
  have "c \<le> x" if "x \<in> free_set (blk d) v" for x
  proof (rule ccontr)
    assume "\<not> c \<le> x"
    then have "unat x < k"
      using k(2) cluster_word [OF assms(2), of k] find_upt_SomeD [OF k(1)] by (simp add: word_le_nat_alt)
    then have "\<not> free_cluster (blk d) v (unat x)" using find_upt_SomeD [OF k(1)] by simp
    then show False using that by (auto simp: free_set_def free_cluster_def valid_cluster_def)
  qed
  moreover have "fat (blk d') v x = (if x = c then FAT32_CLUSTER_EOC else fat (blk d) v x)"
    if "unat x < fat_entries v" for x
    using put_entry_fat [OF assms(2) _ that, of c "blk d" FAT32_CLUSTER_EOC] c block_deviceD(6) [OF assms(1)]
    by (auto simp: free_set_def valid_cluster_def)
  ultimately show ?thesis using False c(1) by auto
qed

text \<open>Witness: the first free cluster of the empty volume is 3.\<close>

lemma ram_blk_id: "length (d a) = 512 \<Longrightarrow> ram_blk d a = d a"
  by (simp add: ram_blk_def pad_def)

lemma small_fat:
  "fat (ram_blk empty_medium) small_volume 3 = 0"
  "fat (ram_blk empty_medium) small_volume 2 = FAT32_CLUSTER_EOC"
proof -
  have "ram_blk empty_medium 32 = le32 0x0FFFFFF8 @ le32 0x0FFFFFFF @ le32 0x0FFFFFF8 @ replicate 500 0"
    by (subst ram_blk_id) (simp_all add: empty_medium_def)
  then show "fat (ram_blk empty_medium) small_volume 3 = 0"
    "fat (ram_blk empty_medium) small_volume 2 = FAT32_CLUSTER_EOC"
    by (simp_all add: fat_def fat_raw_def small_volume_def buf32_def buf16_def le32_def)
qed

theorem alloc_cluster_lowest_witness:
  "fst (fat32_alloc_cluster ramdisk small_volume empty_medium) = 3"
proof -
  let ?r = "fat32_alloc_cluster ramdisk small_volume empty_medium"
  have free: "3 \<in> free_set (ram_blk empty_medium) small_volume" "2 \<notin> free_set (ram_blk empty_medium) small_volume"
    by (simp_all add: free_set_def small_fat) (simp add: valid_cluster_def fat_entries_def small_volume_def)
  have al: "fst ?r \<in> free_set (ram_blk empty_medium) small_volume" "fst ?r \<le> 3"
    using alloc_cluster_lowest [OF ramdisk_device small_volume_ok, of empty_medium "fst ?r" "snd ?r"] free(1) by auto
  then have "2 \<le> unat (fst ?r)" "unat (fst ?r) \<le> 3" "fst ?r \<noteq> 2"
    using free(2) by (auto simp: free_set_def valid_cluster_def word_le_nat_alt)
  then show ?thesis by (auto simp: word_unat_eq_iff)
qed

end
