(* ===== verification/Fat_Dir.thy ===== *)
theory Fat_Dir
  imports Fat_Read
begin

text \<open>
  Directories as lists of slots, the searches of \<open>dir_search_cb\<close> as searches
  in that list, and the operations on files in terms of it; 8.3 names.
\<close>

section \<open>Directory entries\<close>

lemma length_entry_bytes: "length (e_name e) = 8 \<Longrightarrow> length (e_ext e) = 3 \<Longrightarrow> length (entry_bytes e) = 32"
  by (simp add: entry_bytes_def)

lemma load_entry_cong:
  assumes "\<And>k. k < 32 \<Longrightarrow> b ! (32 * i + k) = c ! (32 * j + k)"
    and "32 * i + 32 \<le> length b" "32 * j + 32 \<le> length c"
  shows "load_entry b i = load_entry c j"
proof -
  have w: "buf16 b (32 * i + k) = buf16 c (32 * j + k)" if "k + 1 < 32" for k
    using assms(1) [of k] assms(1) [of "k + 1"] that by (simp add: buf16_def)
  have d: "buf32 b (32 * i + 28) = buf32 c (32 * j + 28)"
    by (rule buf32_cong) (use assms(1) in \<open>simp add: add.assoc\<close>)
  have t: "take m (drop (32 * i + k) b) = take m (drop (32 * j + k) c)" if "k + m \<le> 32" for k m
    using that assms by (intro nth_equalityI) (auto simp: add.assoc)
  show ?thesis
    unfolding load_entry_def Let_def
    using assms(1) t [of 0 8] t [of 8 3] d by (simp add: w)
qed

lemma load_entry_bytes:
  assumes "length (e_name e) = 8" "length (e_ext e) = 3"
  shows "load_entry (entry_bytes e) 0 = e"
proof -
  obtain a0 a1 a2 a3 a4 a5 a6 a7 where n: "e_name e = [a0, a1, a2, a3, a4, a5, a6, a7]"
    using assms(1) by (auto simp: numeral_eq_Suc length_Suc_conv)
  obtain b0 b1 b2 where x: "e_ext e = [b0, b1, b2]"
    using assms(2) by (auto simp: numeral_eq_Suc length_Suc_conv)
  have d: "buf32 (entry_bytes e) 28 = e_file_size e"
    by (rule buf32_bytes) (auto simp: entry_bytes_def n x le16_def nth_append)
  have w: "buf16 (entry_bytes e) (14 + 2 * k) =
      [create_time e, create_date e, access_date e, first_cluster_high e, write_time e, write_date e,
       first_cluster_low e] ! k" if "k < 7" for k
    using that by (intro buf16_bytes) (auto simp: entry_bytes_def n x le16_def less_Suc_eq numeral_eq_Suc)
  have "buf16 (entry_bytes e) 14 = create_time e" "buf16 (entry_bytes e) 16 = create_date e"
    "buf16 (entry_bytes e) 18 = access_date e" "buf16 (entry_bytes e) 20 = first_cluster_high e"
    "buf16 (entry_bytes e) 22 = write_time e" "buf16 (entry_bytes e) 24 = write_date e"
    "buf16 (entry_bytes e) 26 = first_cluster_low e"
    using w [of 0] w [of 1] w [of 2] w [of 3] w [of 4] w [of 5] w [of 6] by simp_all
  moreover have "take 8 (entry_bytes e) = e_name e" "take 3 (drop 8 (entry_bytes e)) = e_ext e"
    "entry_bytes e ! 11 = attributes e" "entry_bytes e ! 12 = e_reserved e"
    "entry_bytes e ! 13 = create_time_tenth e"
    by (simp_all add: entry_bytes_def n x)
  ultimately show ?thesis
    using d by (intro FAT32_DirEntry.equality) (simp_all add: load_entry_def)
qed

lemma load_entry_store:
  assumes "length b = 512" "i < 16" "j < 16" "length (e_name e) = 8" "length (e_ext e) = 3"
  shows "load_entry (memcpy_at b (32 * i) (entry_bytes e)) j = (if j = i then e else load_entry b j)"
proof (cases "j = i")
  case True
  note l = length_entry_bytes [OF assms(4,5)]
  have "load_entry (memcpy_at b (32 * i) (entry_bytes e)) i = load_entry (entry_bytes e) 0"
    by (rule load_entry_cong) (use assms l in \<open>auto simp: nth_memcpy_at\<close>)
  then show ?thesis using True load_entry_bytes [OF assms(4,5)] by simp
next
  case False
  note l = length_entry_bytes [OF assms(4,5)]
  have "load_entry (memcpy_at b (32 * i) (entry_bytes e)) j = load_entry b j"
    by (rule load_entry_cong) (use assms l False in \<open>auto simp: nth_memcpy_at\<close>)
  then show ?thesis using False by simp
qed

lemma dir_entry_cluster_set [simp]: "dir_entry_cluster (set_cluster c e) = c"
proof (rule bit_word_eqI)
  have "(0xFFFF :: u32) = mask 16" by (simp add: mask_eq_exp_minus_1)
  then have m: "c AND 0xFFFF = take_bit 16 c" by (simp only: take_bit_eq_mask)
  fix n :: nat assume "n < LENGTH(32)"
  then show "bit (dir_entry_cluster (set_cluster c e)) n = bit c n"
    unfolding dir_entry_cluster_def set_cluster_def
    by (cases "n < 16") (auto simp: m bit_simps)
qed

section \<open>Names\<close>

lemma last_dot_None: "DOT \<notin> set cs \<Longrightarrow> last_dot cs i dot = dot"
  by (induction cs arbitrary: i dot) auto

lemma last_dot_append: "DOT \<notin> set ext \<Longrightarrow> last_dot (base @ DOT # ext) i dot = Some (i + length base)"
  by (induction base arbitrary: i dot) (auto simp: last_dot_None)

lemma length_pad_field [simp]: "length (pad_field n cs) = n"
  by (auto simp: pad_field_def)

lemma length_encode_83 [simp]: "length (fst (encode_83_name n)) = 8" "length (snd (encode_83_name n)) = 3"
  by (auto simp: encode_83_name_def split: option.splits)

lemma upper_space: "upper c = SPACE \<longleftrightarrow> c = SPACE"
proof -
  have "c - 32 = 32 \<Longrightarrow> c = (64 :: u8)" by (simp add: diff_eq_eq)
  then show ?thesis by (auto simp: upper_def)
qed

lemma upper_upper [simp]: "upper (upper c) = upper c"
proof -
  have "\<not> (0x61 \<le> c - 32)" if "0x61 \<le> c" "c \<le> (0x7A :: u8)"
    using that by unat_arith
  then show ?thesis by (auto simp: upper_def)
qed

lemma takeWhile_pad_field:
  assumes "length cs \<le> n" "SPACE \<notin> set cs"
  shows "takeWhile (\<lambda>c. c \<noteq> SPACE) (pad_field n cs) = map upper cs"
proof -
  have "takeWhile (\<lambda>c. c \<noteq> SPACE) (map upper cs @ replicate k SPACE) = map upper cs" for k
    using assms(2) by (subst takeWhile_append2) (auto simp: upper_space)
  then show ?thesis using assms(1) by (simp add: pad_field_def)
qed

text \<open>A name that fits the 8.3 form: a base of up to eight characters, and possibly a dot and up to three more.\<close>

definition fits_83 :: "u8 list \<Rightarrow> bool" where
  "fits_83 name \<longleftrightarrow>
     (\<exists>base ext. (name = base \<and> ext = [] \<or> name = base @ DOT # ext \<and> ext \<noteq> []) \<and>
        length base \<le> 8 \<and> length ext \<le> 3 \<and> DOT \<notin> set base \<and> DOT \<notin> set ext \<and>
        SPACE \<notin> set name \<and> 0 \<notin> set name)"

lemma name_match_iff: "name_match as bs \<longleftrightarrow> map upper as = map upper bs"
  by (induction as bs rule: name_match.induct) auto

text \<open>C19. Encoding a name that fits the 8.3 form and formatting it again gives the name in
  upper case, and the case-insensitive comparison that \<open>readfile\<close>, \<open>fat32_append_file\<close> and
  the shell use identifies the two; so a file is found again under the name it was created with.\<close>

theorem name_83_roundtrip:
  assumes "fits_83 name"
  shows "format_83_name (fst (encode_83_name name)) (snd (encode_83_name name)) = map upper name \<and>
    name_match (cstr (format_83_name (fst (encode_83_name name)) (snd (encode_83_name name)))) name"
proof -
  have ex: "list_ex (\<lambda>c. c \<noteq> SPACE) (pad_field 3 ext) \<longleftrightarrow> ext \<noteq> []"
    if "length ext \<le> 3" "SPACE \<notin> set ext" for ext
    using that by (cases ext) (auto simp: pad_field_def list_ex_iff upper_space)
  obtain base ext where n: "name = base \<and> ext = [] \<or> name = base @ DOT # ext \<and> ext \<noteq> []"
    "length base \<le> 8" "length ext \<le> 3" "DOT \<notin> set base" "DOT \<notin> set ext" "SPACE \<notin> set name" "0 \<notin> set name"
    using assms unfolding fits_83_def by blast
  have fmt: "format_83_name (fst (encode_83_name name)) (snd (encode_83_name name)) = map upper name"
  proof (cases "ext = []")
    case True
    then have "encode_83_name name = (pad_field 8 base, pad_field 3 [])" "name = base"
      using n(1,4) by (auto simp: encode_83_name_def last_dot_None)
    then show ?thesis
      using n ex [of "[]"] by (simp add: format_83_name_def takeWhile_pad_field)
  next
    case False
    then have nm: "name = base @ DOT # ext" using n(1) by auto
    then have "encode_83_name name = (pad_field 8 base, pad_field 3 ext)"
      using last_dot_append [OF n(5), of base 0 None] by (simp add: encode_83_name_def)
    then show ?thesis
      using n(2,3,6) ex [of ext] False by (simp add: nm format_83_name_def takeWhile_pad_field upper_def)
  qed
  have "upper c = 0 \<longleftrightarrow> c = 0" for c :: u8
  proof -
    have "c - 32 = 0 \<Longrightarrow> c = (32 :: u8)" by (simp add: diff_eq_eq)
    then show ?thesis by (auto simp: upper_def)
  qed
  then have "cstr (map upper name) = map upper name"
    unfolding cstr_def using n(7) by (intro takeWhile_eq_all_conv [THEN iffD2]) auto
  then show ?thesis by (simp add: fmt name_match_iff o_def)
qed

text \<open>Witness: \<open>notes.txt\<close>.\<close>

theorem name_83_roundtrip_witness:
  "format_83_name (fst (encode_83_name [0x6E, 0x6F, 0x74, 0x65, 0x73, 0x2E, 0x74, 0x78, 0x74]))
     (snd (encode_83_name [0x6E, 0x6F, 0x74, 0x65, 0x73, 0x2E, 0x74, 0x78, 0x74])) =
   [0x4E, 0x4F, 0x54, 0x45, 0x53, 0x2E, 0x54, 0x58, 0x54]"
proof -
  have "fits_83 [0x6E, 0x6F, 0x74, 0x65, 0x73, 0x2E, 0x74, 0x78, 0x74]"
    unfolding fits_83_def
    by (rule exI [of _ "[0x6E, 0x6F, 0x74, 0x65, 0x73]"], rule exI [of _ "[0x74, 0x78, 0x74]"]) simp
  from name_83_roundtrip [OF this] show ?thesis by (simp add: upper_def)
qed

section \<open>Slots\<close>

text \<open>A slot is an entry with the sector and the index it is stored at.\<close>

type_synonym slot = "FAT32_DirEntry \<times> u32 \<times> u32"

definition sector_slots :: "medium \<Rightarrow> u32 \<Rightarrow> slot list" where
  "sector_slots m l = map (\<lambda>e. (load_entry (m (ucast l)) e, l, of_nat e)) [0..<16]"

definition cluster_slots :: "medium \<Rightarrow> FAT32_Volume \<Rightarrow> u32 \<Rightarrow> slot list" where
  "cluster_slots m v c =
     concat (map (\<lambda>s. sector_slots m (cluster_to_lba v c + of_nat s)) [0..<unat (sectors_per_cluster (bpb v))])"

definition dir_slots :: "medium \<Rightarrow> FAT32_Volume \<Rightarrow> u32 list \<Rightarrow> slot list" where
  "dir_slots m v cs = concat (map (cluster_slots m v) cs)"

fun walk :: "'c dir_entry_cb \<Rightarrow> slot list \<Rightarrow> 'c \<Rightarrow> bool \<times> 'c" where
  "walk cb [] ctx = (False, ctx)"
| "walk cb ((e, l, i) # xs) ctx =
     (if fst (cb e l i ctx) then cb e l i ctx else walk cb xs (snd (cb e l i ctx)))"

lemma walk_append:
  "walk cb (xs @ ys) ctx = (if fst (walk cb xs ctx) then walk cb xs ctx else walk cb ys (snd (walk cb xs ctx)))"
  by (induction cb xs ctx rule: walk.induct) auto

lemma iterate_entries_walk:
  "iterate_entries cb b l es ctx = walk cb (map (\<lambda>e. (load_entry b e, l, of_nat e)) es) ctx"
  by (induction es arbitrary: ctx) (auto split: prod.splits bool.splits)

lemma iterate_sectors_walk:
  assumes dev: "block_device dr blk cap"
    and "\<And>s. s \<in> set ss \<Longrightarrow> unat (ucast (l + of_nat s) :: u64) < cap"
  shows "\<exists>d'. iterate_sectors dr cb l ss ctx d =
      (fst (walk cb (concat (map (\<lambda>s. sector_slots (blk d) (l + of_nat s)) ss)) ctx),
       snd (walk cb (concat (map (\<lambda>s. sector_slots (blk d) (l + of_nat s)) ss)) ctx), d') \<and> blk d' = blk d"
  using assms(2)
proof (induction ss arbitrary: ctx d)
  case (Cons s ss)
  obtain d1 where r: "kread dr d (ucast (l + of_nat s)) = (Some (blk d (ucast (l + of_nat s))), d1)" "blk d1 = blk d"
    using block_device_read [OF dev Cons.prems [of s]] by auto
  have sz: "unat (sector_size dr) div 32 = 16" using block_deviceD(1) [OF dev] by simp
  let ?w = "walk cb (sector_slots (blk d) (l + of_nat s)) ctx"
  have it: "iterate_entries cb (blk d (ucast (l + of_nat s))) (l + of_nat s) [0..<16] ctx = ?w"
    by (simp only: iterate_entries_walk sector_slots_def)
  obtain d' where "iterate_sectors dr cb l ss (snd ?w) d1 =
      (fst (walk cb (concat (map (\<lambda>s. sector_slots (blk d1) (l + of_nat s)) ss)) (snd ?w)),
       snd (walk cb (concat (map (\<lambda>s. sector_slots (blk d1) (l + of_nat s)) ss)) (snd ?w)), d')" "blk d' = blk d1"
    using Cons.IH [of "snd ?w" d1] Cons.prems by auto
  moreover have "iterate_sectors dr cb l (s # ss) ctx d =
      (case ?w of (stop, ctx1) \<Rightarrow> if stop then (True, ctx1, d1) else iterate_sectors dr cb l ss ctx1 d1)"
    by (simp only: iterate_sectors.simps r prod.case option.case sz it)
      (auto split: prod.splits bool.splits)
  ultimately show ?case
    using r by (auto simp: walk_append split: prod.splits)
qed simp

lemma dir_iterate_walk:
  assumes dev: "block_device dr blk cap" and vol: "volume_ok v cap"
    and "is_chain (fat (blk d) v) v c cs"
  shows "\<exists>d'. fat32_dir_iterate dr v cb c ctx d = Some (snd (walk cb (dir_slots (blk d) v cs) ctx), d') \<and> blk d' = blk d"
  using assms(3)
proof (induction cs arbitrary: c ctx d)
  case Nil
  then have "\<not> (2 \<le> c \<and> c < FAT32_CLUSTER_BAD)" using is_chain_head(2) [OF vol] by (auto simp: not_less)
  then have "fat32_dir_iterate dr v cb c ctx d = Some (ctx, d)"
    by (simp only: fat32_dir_iterate.simps [of dr v cb c ctx d] if_False)
  then show ?case by (simp add: dir_slots_def)
next
  case (Cons x xs)
  have c: "c = x" "valid_cluster v x" "is_chain (fat (blk d) v) v (fat (blk d) v x) xs" using Cons.prems by auto
  note vx = valid_clusterD [OF vol c(2)]
  let ?w = "walk cb (cluster_slots (blk d) v x) ctx"
  obtain d1 where it: "iterate_sectors dr cb (cluster_to_lba v x) [0..<unat (sectors_per_cluster (bpb v))] ctx d =
      (fst ?w, snd ?w, d1)" "blk d1 = blk d"
    using iterate_sectors_walk [OF dev, of "[0..<unat (sectors_per_cluster (bpb v))]" "cluster_to_lba v x" cb ctx d]
      cluster_sector_not_fat(2) [OF vol c(2)] by (auto simp: cluster_slots_def)
  obtain d2 where nx: "fat32_next_cluster dr v x d1 = (fat (blk d) v x, d2)" "blk d2 = blk d"
    using next_cluster_correct [OF dev vol vx(3), of d1] it(2) by (cases "fat32_next_cluster dr v x d1") auto
  obtain d' where "fat32_dir_iterate dr v cb (fat (blk d) v x) (snd ?w) d2 =
      Some (snd (walk cb (dir_slots (blk d2) v xs) (snd ?w)), d')" "blk d' = blk d2"
    using Cons.IH [of d2 "fat (blk d) v x" "snd ?w"] c(3) nx(2) by auto
  moreover have "fat32_dir_iterate dr v cb c ctx d =
      (if fst ?w then Some (snd ?w, d1) else fat32_dir_iterate dr v cb (fat (blk d) v x) (snd ?w) d2)"
    using vx(1,2) by (subst fat32_dir_iterate.simps) (simp add: c(1) it nx)
  ultimately show ?case
    using nx(2) it(2) by (auto simp: dir_slots_def walk_append)
qed

section \<open>Searches\<close>

definition slot_free :: "slot \<Rightarrow> bool" where
  "slot_free = (\<lambda>(e, l, i). e_name e ! 0 = FAT32_ENTRY_FREE \<or> e_name e ! 0 = FAT32_ENTRY_END)"

definition slot_end :: "slot \<Rightarrow> bool" where
  "slot_end = (\<lambda>(e, l, i). e_name e ! 0 = FAT32_ENTRY_END)"

definition slot_match :: "u8 list \<Rightarrow> u8 list \<Rightarrow> slot \<Rightarrow> bool" where
  "slot_match t8 t3 = (\<lambda>(e, l, i). \<not> skipped e \<and> e_name e = t8 \<and> e_ext e = t3)"

lemma walk_find_free:
  assumes "find_free ctx"
  shows "snd (walk dir_search_cb xs ctx) =
     (case find slot_free xs of None \<Rightarrow> ctx
      | Some (e, l, i) \<Rightarrow> ctx\<lparr>found := True, found_lba := l, found_idx := i\<rparr>)"
proof (induction xs)
  case (Cons x xs)
  obtain e l i where x: "x = (e, l, i)" by (cases x)
  show ?case
  proof (cases "slot_free x")
    case True
    then have "dir_search_cb e l i ctx = (True, ctx\<lparr>found := True, found_lba := l, found_idx := i\<rparr>)"
      using assms x by (simp add: dir_search_cb_def slot_free_def)
    then show ?thesis using True x by simp
  next
    case False
    then have "dir_search_cb e l i ctx = (False, ctx)"
      using assms x by (simp add: dir_search_cb_def slot_free_def)
    then show ?thesis using False x Cons by simp
  qed
qed simp

lemma walk_find_match:
  assumes "\<not> find_free ctx" "find_match ctx"
  shows "snd (walk dir_search_cb xs ctx) =
     (case find (slot_match (target8 ctx) (target3 ctx)) (takeWhile (\<lambda>x. \<not> slot_end x) xs) of None \<Rightarrow> ctx
      | Some (e, l, i) \<Rightarrow> ctx\<lparr>found := True, found_lba := l, found_idx := i, search_result := e\<rparr>)"
proof (induction xs)
  case (Cons x xs)
  obtain e l i where x: "x = (e, l, i)" by (cases x)
  consider "slot_end x" | "\<not> slot_end x" "slot_match (target8 ctx) (target3 ctx) x"
    | "\<not> slot_end x" "\<not> slot_match (target8 ctx) (target3 ctx) x" by blast
  then show ?case
  proof cases
    case 1
    then have "dir_search_cb e l i ctx = (True, ctx)"
      using assms x by (simp add: dir_search_cb_def slot_end_def)
    then show ?thesis using 1 x by simp
  next
    case 2
    then have "dir_search_cb e l i ctx =
        (True, ctx\<lparr>found := True, found_lba := l, found_idx := i, search_result := e\<rparr>)"
      using assms x by (simp add: dir_search_cb_def slot_end_def slot_match_def)
    then show ?thesis using 2 x by simp
  next
    case 3
    then have "dir_search_cb e l i ctx = (False, ctx)"
      using assms x by (auto simp: dir_search_cb_def slot_end_def slot_match_def)
    then show ?thesis using 3 x Cons by simp
  qed
qed simp

text \<open>The file name looked up by \<open>search_name\<close>, in the slots of the root directory.\<close>

definition lookup_slot :: "slot list \<Rightarrow> u8 list \<Rightarrow> slot option" where
  "lookup_slot xs name =
     find (slot_match (fst (encode_83_name name)) (snd (encode_83_name name))) (takeWhile (\<lambda>x. \<not> slot_end x) xs)"

lemma search_free_correct:
  assumes "block_device (fs_drive fs) blk cap" "volume_ok (fs_volume fs) cap"
    and "is_chain (fat (blk d) (fs_volume fs)) (fs_volume fs) (root_cluster (fs_volume fs)) rc"
  shows "\<exists>ctx d'. search_free fs d = Some (ctx, d') \<and> blk d' = blk d \<and>
     (case find slot_free (dir_slots (blk d) (fs_volume fs) rc) of None \<Rightarrow> \<not> found ctx
      | Some (e, l, i) \<Rightarrow> found ctx \<and> found_lba ctx = l \<and> found_idx ctx = i)"
  using dir_iterate_walk [OF assms, of dir_search_cb "zero_ctx\<lparr>find_free := True\<rparr>"]
  by (auto simp: search_free_def walk_find_free zero_ctx_def split: option.splits)

lemma search_name_correct:
  assumes "block_device (fs_drive fs) blk cap" "volume_ok (fs_volume fs) cap"
    and "is_chain (fat (blk d) (fs_volume fs)) (fs_volume fs) (root_cluster (fs_volume fs)) rc"
  shows "\<exists>ctx d'. search_name fs name d = Some (ctx, d') \<and> blk d' = blk d \<and>
     (case lookup_slot (dir_slots (blk d) (fs_volume fs) rc) name of None \<Rightarrow> \<not> found ctx
      | Some (e, l, i) \<Rightarrow> found ctx \<and> found_lba ctx = l \<and> found_idx ctx = i \<and> search_result ctx = e)"
  using dir_iterate_walk [OF assms, of dir_search_cb "zero_ctx\<lparr>find_match := True,
      target8 := fst (encode_83_name name), target3 := snd (encode_83_name name)\<rparr>"]
  by (auto simp: search_name_def lookup_slot_def walk_find_match zero_ctx_def split: option.splits)

end
