(* ===== verification/Fat_Ops.thy ===== *)
theory Fat_Ops
  imports Fat_Dir
begin

text \<open>
  The operations on files against the abstract view: what creating and deleting a file does to
  the table, to the slots of the root directory and to the contents of files.
\<close>

section \<open>Slots under updates of the medium\<close>

lemma slotE:
  assumes "x \<in> set (dir_slots m v cs)"
  obtains c s j where "c \<in> set cs" "s < unat (sectors_per_cluster (bpb v))" "j < 16"
    "x = (load_entry (m (ucast (cluster_to_lba v c + of_nat s))) j, cluster_to_lba v c + of_nat s, of_nat j)"
  using assms unfolding dir_slots_def cluster_slots_def sector_slots_def by auto

lemma dir_slots_cong:
  assumes "\<And>c s. c \<in> set cs \<Longrightarrow> s < unat (sectors_per_cluster (bpb v)) \<Longrightarrow>
      m' (ucast (cluster_to_lba v c + of_nat s)) = m (ucast (cluster_to_lba v c + of_nat s))"
  shows "dir_slots m' v cs = dir_slots m v cs"
  unfolding dir_slots_def cluster_slots_def sector_slots_def
  by (intro arg_cong [of _ _ concat] map_cong refl) (simp add: assms)

lemma same_sectors:
  assumes "\<And>a. length (m a) = 512" "\<And>a. length (m' a) = 512" "cluster_data m' v c = cluster_data m v c"
    and "s < unat (sectors_per_cluster (bpb v))"
  shows "m' (ucast (cluster_to_lba v c + of_nat s)) = m (ucast (cluster_to_lba v c + of_nat s))"
  using cluster_data_sector [of m s v c] cluster_data_sector [of m' s v c] assms by simp

definition put_slot :: "u32 \<Rightarrow> nat \<Rightarrow> FAT32_DirEntry \<Rightarrow> medium \<Rightarrow> medium" where
  "put_slot l j e m = m(ucast l := memcpy_at (m (ucast l)) (32 * j) (entry_bytes e))"

definition replace_slot :: "u32 \<Rightarrow> nat \<Rightarrow> FAT32_DirEntry \<Rightarrow> slot \<Rightarrow> slot" where
  "replace_slot l j e x = (if snd x = (l, of_nat j) then (e, snd x) else x)"

lemma of_nat_16_inj: "i < 16 \<Longrightarrow> j < 16 \<Longrightarrow> (of_nat i :: u32) = of_nat j \<longleftrightarrow> i = j"
proof
  assume "i < 16" "j < 16" "(of_nat i :: u32) = of_nat j"
  then have "unat (of_nat i :: u32) = unat (of_nat j :: u32)" by simp
  then show "i = j" using \<open>i < 16\<close> \<open>j < 16\<close> by (simp add: unat_of_nat_small)
qed simp

lemma dir_slots_put:
  assumes "\<And>a. length (m a) = 512" "j < 16" "length (e_name e) = 8" "length (e_ext e) = 3"
  shows "dir_slots (put_slot l j e m) v cs = map (replace_slot l j e) (dir_slots m v cs)"
proof -
  have "sector_slots (put_slot l j e m) k = map (replace_slot l j e) (sector_slots m k)" for k
  proof -
    have "(load_entry (put_slot l j e m (ucast k)) i, k, of_nat i) =
        replace_slot l j e (load_entry (m (ucast k)) i, k, of_nat i)" if "i < 16" for i
      using load_entry_store [OF assms(1,2) that assms(3,4), of "ucast l"] of_nat_16_inj [OF that assms(2)]
      by (auto simp: put_slot_def replace_slot_def)
    then show ?thesis by (simp add: sector_slots_def)
  qed
  then have "cluster_slots (put_slot l j e m) v c = map (replace_slot l j e) (cluster_slots m v c)" for c
    by (simp add: cluster_slots_def map_concat o_def)
  then have "map (cluster_slots (put_slot l j e m) v) cs = map (\<lambda>c. map (replace_slot l j e) (cluster_slots m v c)) cs"
    by simp
  then show ?thesis unfolding dir_slots_def map_concat map_map o_def by (rule arg_cong)
qed

lemma write_dir_entry_correct:
  assumes dev: "block_device dr blk cap" and "unat (ucast l :: u64) < cap" "j < 16"
    and "length (e_name e) = 8" "length (e_ext e) = 3"
  shows "\<exists>d'. fat32_write_dir_entry dr l (of_nat j) e d = (0, d') \<and> blk d' = put_slot l j e (blk d)"
proof -
  obtain d1 where r: "kread dr d (ucast l) = (Some (blk d (ucast l)), d1)" "blk d1 = blk d"
    using block_device_read [OF dev assms(2)] by blast
  let ?b = "memcpy_at (blk d (ucast l)) (32 * j) (entry_bytes e)"
  have "length ?b = 512"
    using assms(3) length_entry_bytes [OF assms(4,5)] block_deviceD(6) [OF dev] by (subst length_memcpy_at) auto
  then obtain d2 where w: "kwrite dr d1 (ucast l) ?b = (True, d2)" "blk d2 = (blk d1)(ucast l := ?b)"
    using block_device_write [OF dev assms(2)] by blast
  have "unat (of_nat j :: u32) = j" using assms(3) by (simp add: unat_of_nat_small)
  then show ?thesis
    using r w by (simp add: fat32_write_dir_entry_def put_slot_def)
qed

text \<open>The write touches the data area only, and no cluster outside the directory.\<close>

lemma put_slot_fat:
  assumes "volume_ok v cap" "valid_cluster v c" "s < unat (sectors_per_cluster (bpb v))"
    and "unat x < fat_entries v"
  shows "fat (put_slot (cluster_to_lba v c + of_nat s) j e m) v x = fat m v x"
  unfolding fat_def
proof (subst fat_raw_cong [OF assms(1,4)])
  fix a :: u64 assume "unat a < unat (data_lba v)"
  then show "put_slot (cluster_to_lba v c + of_nat s) j e m a = m a"
    using cluster_sector_not_fat(1) [OF assms(1-3)] by (auto simp: put_slot_def)
qed simp

lemma put_slot_data:
  assumes "volume_ok v cap" "valid_cluster v c" "s < unat (sectors_per_cluster (bpb v))"
    and "valid_cluster v x" "x \<noteq> c"
  shows "cluster_data (put_slot (cluster_to_lba v c + of_nat s) j e m) v x = cluster_data m v x"
  unfolding cluster_data_def
proof (intro arg_cong [of _ _ concat] map_cong refl)
  fix t assume "t \<in> set [0..<unat (sectors_per_cluster (bpb v))]"
  then show "put_slot (cluster_to_lba v c + of_nat s) j e m (ucast (cluster_to_lba v x + of_nat t)) =
      m (ucast (cluster_to_lba v x + of_nat t))"
    using cluster_position_inj [OF assms(1,4) _ assms(2,3), of t] assms(5) by (auto simp: put_slot_def)
qed

lemma file_on_cong:
  assumes "file_on m v c cs content" "\<And>x. x \<in> set cs \<Longrightarrow> fat m' v x = fat m v x"
    and "\<And>x. x \<in> set cs \<Longrightarrow> cluster_data m' v x = cluster_data m v x"
  shows "file_on m' v c cs content"
proof -
  have "chain_data m' v cs = chain_data m v cs"
    unfolding chain_data_def using assms(3) by (intro arg_cong [of _ _ concat] map_cong) auto
  then show ?thesis
    using assms(1) is_chain_cong [of cs "fat m' v" "fat m v"] assms(2) by (simp add: file_on_def)
qed

section \<open>Lookups under a replaced slot\<close>

lemma find_replaced_free:
  assumes "\<And>x. x \<in> set xs \<Longrightarrow> f x = x \<or> slot_free x \<and> \<not> P (f x) \<and> \<not> slot_end (f x)"
    and "\<And>x. slot_free x \<Longrightarrow> \<not> slot_end x \<Longrightarrow> \<not> P x"
    and "find P (takeWhile (\<lambda>x. \<not> slot_end x) xs) = Some y"
  shows "find P (takeWhile (\<lambda>x. \<not> slot_end x) (map f xs)) = Some y"
  using assms(1,3)
proof (induction xs)
  case (Cons x xs)
  have n: "\<not> slot_end x" using Cons.prems(2) by (auto split: if_splits)
  show ?case
  proof (cases "f x = x")
    case True
    then show ?thesis using Cons n by (auto split: if_splits)
  next
    case False
    then have "slot_free x" "\<not> P (f x)" "\<not> slot_end (f x)" using Cons.prems(1) [of x] by auto
    moreover have "\<not> P x" using assms(2) n \<open>slot_free x\<close> by blast
    ultimately show ?thesis using Cons n by (auto split: if_splits)
  qed
qed simp

lemma slot_free_no_match: "slot_free x \<Longrightarrow> \<not> slot_end x \<Longrightarrow> \<not> slot_match t8 t3 x"
  by (auto simp: slot_free_def slot_end_def slot_match_def skipped_def)

lemma find_new_slot:
  assumes "find slot_free xs = Some y" "find P (takeWhile (\<lambda>x. \<not> slot_end x) xs) = None"
    and "\<And>x. x \<in> set xs \<Longrightarrow> \<not> slot_free x \<Longrightarrow> f x = x" "P (f y)" "\<not> slot_end (f y)"
  shows "find P (takeWhile (\<lambda>x. \<not> slot_end x) (map f xs)) = Some (f y)"
  using assms(1-3)
proof (induction xs)
  case (Cons x xs)
  show ?case
  proof (cases "slot_free x")
    case True
    then show ?thesis using Cons.prems(1) assms(4,5) by simp
  next
    case False
    then have "\<not> slot_end x" by (auto simp: slot_free_def slot_end_def)
    then show ?thesis using Cons False by (auto split: if_splits)
  qed
qed simp

section \<open>Creating a file\<close>

lemma file_entry_simps [simp]:
  "e_name (file_entry name c n) = fst (encode_83_name name)" "e_ext (file_entry name c n) = snd (encode_83_name name)"
  "attributes (file_entry name c n) = FAT32_ATTR_ARCHIVE" "e_file_size (file_entry name c n) = of_nat n"
  "dir_entry_cluster (file_entry name c n) = c"
  using dir_entry_cluster_set [of c zero_entry] by (simp_all add: file_entry_def dir_entry_cluster_def)

lemma extends_file_on:
  assumes vol: "volume_ok v cap" and "length cs = clusters_needed v (length content)"
    and "is_chain (fat m v) v first cs" "extends v m0 m cs {} content"
  shows "file_on m v first cs content"
  unfolding file_on_def
proof (intro conjI assms(3))
  let ?B = "cluster_bytes v" and ?n = "length content"
  have B: "0 < ?B" using volume_okD(2,7) [OF vol] by simp
  have "?n \<le> ?B * ((?n + ?B - 1) div ?B)"
    using B mult_div_mod_eq [of ?B "?n + ?B - 1"] mod_less_divisor [OF B, of "?n + ?B - 1"] by linarith
  then show le: "?n \<le> ?B * length cs" unfolding assms(2) clusters_needed_def by simp
  have "chain_data m v cs = pad (?B * length cs) content" using assms(4) by (simp add: extends_def)
  then show "take ?n (chain_data m v cs) = content" using take_pad [of ?n content] le by simp
qed

text \<open>An entry is determined by its position, so only the chosen slot is replaced.\<close>

lemma replace_slot_cases:
  assumes "y \<in> set (dir_slots m v cs)" "x \<in> set (dir_slots m v cs)" "snd y = (l, of_nat j)"
  shows "replace_slot l j e x = x \<or> x = y \<and> replace_slot l j e x = (e, snd y)"
proof (cases "snd x = snd y")
  case True
  then have "x = y" using assms(1,2) of_nat_16_inj by (elim slotE) auto
  then show ?thesis using assms(3) by (simp add: replace_slot_def)
qed (use assms(3) in \<open>simp add: replace_slot_def\<close>)

text \<open>The medium after \<open>fat32_create_file\<close>: the content in new clusters, and one slot replaced.\<close>

lemma create_file_medium:
  assumes dev: "block_device (fs_drive fs) blk cap" and vol: "volume_ok (fs_volume fs) cap"
    and root: "is_chain (fat (blk d) (fs_volume fs)) (fs_volume fs) (root_cluster (fs_volume fs)) rc"
    and slot: "find slot_free (dir_slots (blk d) (fs_volume fs) rc) = Some y"
    and space: "clusters_needed (fs_volume fs) (length content) \<le> card (free_set (blk d) (fs_volume fs))"
  shows "\<exists>d' m cs c s j first.
    fat32_create_file fs name (Some content) (length content) d = Some (0, d') \<and>
    c \<in> set rc \<and> s < unat (sectors_per_cluster (bpb (fs_volume fs))) \<and> j < 16 \<and>
    snd y = (cluster_to_lba (fs_volume fs) c + of_nat s, of_nat j) \<and>
    cs \<noteq> [] \<and> length cs = clusters_needed (fs_volume fs) (length content) \<and>
    is_chain (fat m (fs_volume fs)) (fs_volume fs) first cs \<and>
    extends (fs_volume fs) (blk d) m cs {} content \<and> (\<forall>a. length (m a) = 512) \<and>
    blk d' = put_slot (cluster_to_lba (fs_volume fs) c + of_nat s) j (file_entry name first (length content)) m"
proof -
  let ?v = "fs_volume fs"
  have "y \<in> set (dir_slots (blk d) ?v rc)" using slot by (auto simp: find_Some_iff)
  then obtain c s j where y: "c \<in> set rc" "s < unat (sectors_per_cluster (bpb ?v))" "j < 16"
    "snd y = (cluster_to_lba ?v c + of_nat s, of_nat j)"
    by (elim slotE) auto
  have vc: "valid_cluster ?v c" by (rule is_chain_valid [OF root y(1)])
  obtain ctx d1 where sf: "search_free fs d = Some (ctx, d1)" "blk d1 = blk d" "found ctx"
    "found_lba ctx = cluster_to_lba ?v c + of_nat s" "found_idx ctx = of_nat j"
    using search_free_correct [OF dev vol root] slot y(4) by (cases y) auto
  obtain first d2 where wc: "fat32_write_cluster_chain (fs_drive fs) ?v (Some content) (length content) d1 = (first, d2)"
    by fastforce
  obtain cs where cs: "cs \<noteq> []" "length cs = clusters_needed ?v (length content)"
    "is_chain (fat (blk d2) ?v) ?v first cs" "extends ?v (blk d1) (blk d2) cs {} content"
    using write_chain_correct [OF dev vol order.refl wc] space sf(2) by (auto split: if_splits)
  have "first \<noteq> 0" by (rule is_chain_head(1) [OF vol cs(3)])
  obtain d3 where wd: "fat32_write_dir_entry (fs_drive fs) (cluster_to_lba ?v c + of_nat s) (of_nat j)
      (file_entry name first (length content)) d2 = (0, d3)"
    "blk d3 = put_slot (cluster_to_lba ?v c + of_nat s) j (file_entry name first (length content)) (blk d2)"
    using write_dir_entry_correct [OF dev cluster_sector_not_fat(2) [OF vol vc y(2)] y(3),
        of "file_entry name first (length content)" d2] by auto
  have "fat32_create_file fs name (Some content) (length content) d = Some (0, d3)"
    using sf wc \<open>first \<noteq> 0\<close> wd(1) by (simp add: fat32_create_file_def)
  then show ?thesis
    using y cs wd(2) sf(2) block_deviceD(6) [OF dev] by metis
qed

lemma create_file_spec:
  assumes dev: "block_device (fs_drive fs) blk cap" and vol: "volume_ok (fs_volume fs) cap"
    and root: "is_chain (fat (blk d) (fs_volume fs)) (fs_volume fs) (root_cluster (fs_volume fs)) rc"
    and slot: "find slot_free (dir_slots (blk d) (fs_volume fs) rc) \<noteq> None"
    and space: "clusters_needed (fs_volume fs) (length content) \<le> card (free_set (blk d) (fs_volume fs))"
    and size: "length content < 2 ^ 31"
    and new: "lookup_slot (dir_slots (blk d) (fs_volume fs) rc) name = None"
    and name: "fst (encode_83_name name) ! 0 \<noteq> FAT32_ENTRY_END" "fst (encode_83_name name) ! 0 \<noteq> FAT32_ENTRY_FREE"
  shows "\<exists>d' e p first cs.
    fat32_create_file fs name (Some content) (length content) d = Some (0, d') \<and>
    is_chain (fat (blk d') (fs_volume fs)) (fs_volume fs) (root_cluster (fs_volume fs)) rc \<and>
    lookup_slot (dir_slots (blk d') (fs_volume fs) rc) name = Some (e, p) \<and>
    to_drive_entry e = ENTRY_FILE \<lparr>file_name = format_83_name (e_name e) (e_ext e), file_size = length content,
      file_cluster = first\<rparr> \<and>
    file_on (blk d') (fs_volume fs) first cs content \<and> set cs \<subseteq> free_set (blk d) (fs_volume fs) \<and>
    (\<forall>c cs old. file_on (blk d) (fs_volume fs) c cs old \<and> set cs \<inter> set rc = {} \<longrightarrow>
       file_on (blk d') (fs_volume fs) c cs old) \<and>
    (\<forall>other x. lookup_slot (dir_slots (blk d) (fs_volume fs) rc) other = Some x \<longrightarrow>
       encode_83_name other \<noteq> encode_83_name name \<longrightarrow>
       lookup_slot (dir_slots (blk d') (fs_volume fs) rc) other = Some x)"
proof -
  let ?v = "fs_volume fs" and ?n = "length content"
  obtain y where y: "find slot_free (dir_slots (blk d) ?v rc) = Some y" using slot by blast
  obtain d' m cs c s j first where run: "fat32_create_file fs name (Some content) ?n d = Some (0, d')"
    and c: "c \<in> set rc" "s < unat (sectors_per_cluster (bpb ?v))" "j < 16"
      "snd y = (cluster_to_lba ?v c + of_nat s, of_nat j)"
    and cs: "length cs = clusters_needed ?v ?n" "is_chain (fat m ?v) ?v first cs" "extends ?v (blk d) m cs {} content"
    and m: "\<And>a. length (m a) = 512"
    and d': "blk d' = put_slot (cluster_to_lba ?v c + of_nat s) j (file_entry name first ?n) m"
    using create_file_medium [OF dev vol root y space] by blast
  let ?l = "cluster_to_lba ?v c + of_nat s" and ?e = "file_entry name first ?n"
  have vc: "valid_cluster ?v c" by (rule is_chain_valid [OF root c(1)])
  have used: "x \<notin> set cs" "valid_cluster ?v x" if "x \<in> set rc" for x
    using is_chain_used [OF vol root that] is_chain_valid [OF root that] cs(3) by (auto simp: extends_def free_set_def)
  have disj: "x \<noteq> c" if "x \<in> set cs" for x using used [OF c(1)] that by auto
  have fat': "fat (blk d') ?v x = fat m ?v x" if "valid_cluster ?v x" for x
    using put_slot_fat [OF vol vc c(2)] that d' by (simp add: valid_cluster_def)
  have data': "cluster_data (blk d') ?v x = cluster_data m ?v x" if "valid_cluster ?v x" "x \<noteq> c" for x
    using put_slot_data [OF vol vc c(2) that] d' by simp
  have old: "fat m ?v x = fat (blk d) ?v x" "cluster_data m ?v x = cluster_data (blk d) ?v x"
    if "valid_cluster ?v x" "x \<notin> set cs" for x
    using cs(3) that by (auto simp: extends_def valid_cluster_def)
  have root': "is_chain (fat (blk d') ?v) ?v (root_cluster ?v) rc"
    using root is_chain_cong [of rc "fat (blk d') ?v" "fat (blk d) ?v"] fat' old(1) used by auto
  have slots_m: "dir_slots m ?v rc = dir_slots (blk d) ?v rc"
    by (rule dir_slots_cong, rule same_sectors [where m = "blk d" and m' = m])
      (use block_deviceD(6) [OF dev] m old(2) used in auto)
  then have slots: "dir_slots (blk d') ?v rc = map (replace_slot ?l j ?e) (dir_slots (blk d) ?v rc)"
    unfolding d' using dir_slots_put [of m j ?e ?l ?v rc] m c(3) by simp
  have yf: "slot_free y" using y by (auto simp: find_Some_iff)
  have "y \<in> set (dir_slots (blk d) ?v rc)" using y by (auto simp: find_Some_iff)
  then have keep: "replace_slot ?l j ?e x = x \<or> slot_free x \<and> replace_slot ?l j ?e x = (?e, snd y)"
    if "x \<in> set (dir_slots (blk d) ?v rc)" for x
    using replace_slot_cases [OF _ that c(4), of ?e] yf by auto
  have ye: "replace_slot ?l j ?e y = (?e, snd y)" using c(4) by (simp add: replace_slot_def)
  have use: "\<not> slot_end (?e, snd y)" "slot_match (fst (encode_83_name name)) (snd (encode_83_name name)) (?e, snd y)"
    using name c(4) by (simp_all add: slot_end_def slot_match_def skipped_def)
  have found: "lookup_slot (dir_slots (blk d') ?v rc) name = Some (?e, snd y)"
    unfolding lookup_slot_def slots ye [symmetric]
    by (rule find_new_slot [OF y]) (use new keep ye use in \<open>auto simp: lookup_slot_def\<close>)
  have tf: "to_drive_entry ?e = ENTRY_FILE \<lparr>file_name = format_83_name (e_name ?e) (e_ext ?e), file_size = ?n, file_cluster = first\<rparr>"
    using size by (simp add: to_drive_entry_def unat_of_nat_small)
  have "file_on m ?v first cs content" by (rule extends_file_on [OF vol cs])
  then have on: "file_on (blk d') ?v first cs content"
    by (rule file_on_cong) (use fat' data' disj is_chain_valid [OF cs(2)] in auto)
  have new_cs: "set cs \<subseteq> free_set (blk d) ?v" using cs(3) by (simp add: extends_def)
  have others: "file_on (blk d') ?v c' cs' o'" if "file_on (blk d) ?v c' cs' o'" "set cs' \<inter> set rc = {}" for c' cs' o'
  proof (rule file_on_cong [OF that(1)])
    fix x assume x: "x \<in> set cs'"
    have ch: "is_chain (fat (blk d) ?v) ?v c' cs'" using that(1) by (simp add: file_on_def)
    have "x \<notin> set cs" "valid_cluster ?v x" "x \<noteq> c"
      using is_chain_used [OF vol ch x] is_chain_valid [OF ch x] cs(3) that(2) c(1) x
      by (auto simp: extends_def free_set_def)
    then show "fat (blk d') ?v x = fat (blk d) ?v x" "cluster_data (blk d') ?v x = cluster_data (blk d) ?v x"
      using fat' data' old by auto
  qed
  have same: "lookup_slot (dir_slots (blk d') ?v rc) other = Some x"
    if "lookup_slot (dir_slots (blk d) ?v rc) other = Some x" "encode_83_name other \<noteq> encode_83_name name" for other x
    unfolding lookup_slot_def slots
  proof (rule find_replaced_free [OF _ slot_free_no_match that(1) [unfolded lookup_slot_def]])
    fix x assume "x \<in> set (dir_slots (blk d) ?v rc)"
    moreover have "\<not> slot_match (fst (encode_83_name other)) (snd (encode_83_name other)) (?e, snd y)"
      using that(2) c(4) by (auto simp: slot_match_def prod_eq_iff)
    ultimately show "replace_slot ?l j ?e x = x \<or> slot_free x \<and>
        \<not> slot_match (fst (encode_83_name other)) (snd (encode_83_name other)) (replace_slot ?l j ?e x) \<and>
        \<not> slot_end (replace_slot ?l j ?e x)"
      using keep use(1) by fastforce
  qed
  show ?thesis
    by (intro exI [of _ d'] exI [of _ ?e] exI [of _ "snd y"] exI [of _ first] exI [of _ cs] conjI allI impI
        run root' found tf on new_cs) (use others same in blast)+
qed

text \<open>C16. Creating a file works end to end.  On a mounted volume whose root directory is a chain with a
  free slot, with enough free clusters for the content and no file of that name, \<open>fat32_create_file\<close>
  returns 0; a search for the name then finds an entry that the enumeration shows as a file, and
  \<open>fat32_file_read\<close> on it returns, for every offset and length, exactly that part of the content
  (cut at the end of the file).  Every other file keeps its chain and its content, and every other name that was found
  before is found in the same slot.\<close>

theorem create_file_correct:
  assumes dev: "block_device (fs_drive fs) blk cap" and vol: "volume_ok (fs_volume fs) cap"
    and root: "is_chain (fat (blk d) (fs_volume fs)) (fs_volume fs) (root_cluster (fs_volume fs)) rc"
    and slot: "find slot_free (dir_slots (blk d) (fs_volume fs) rc) \<noteq> None"
    and space: "clusters_needed (fs_volume fs) (length content) \<le> card (free_set (blk d) (fs_volume fs))"
    and size: "length content < 2 ^ 31"
    and new: "lookup_slot (dir_slots (blk d) (fs_volume fs) rc) name = None"
    and name: "fst (encode_83_name name) ! 0 \<noteq> FAT32_ENTRY_END" "fst (encode_83_name name) ! 0 \<noteq> FAT32_ENTRY_FREE"
  shows "\<exists>d' ctx d1 f.
    fat32_create_file fs name (Some content) (length content) d = Some (0, d') \<and>
    search_name fs name d' = Some (ctx, d1) \<and> found ctx \<and> to_drive_entry (search_result ctx) = ENTRY_FILE f \<and>
    (\<forall>offset len. \<exists>d2. fat32_file_read fs f offset len d1 =
       Some (int (min len (length content - offset)), take len (drop offset content), d2)) \<and>
    (\<forall>c cs old. file_on (blk d) (fs_volume fs) c cs old \<and> set cs \<inter> set rc = {} \<longrightarrow>
       file_on (blk d') (fs_volume fs) c cs old) \<and>
    (\<forall>other x. lookup_slot (dir_slots (blk d) (fs_volume fs) rc) other = Some x \<longrightarrow>
       encode_83_name other \<noteq> encode_83_name name \<longrightarrow>
       lookup_slot (dir_slots (blk d') (fs_volume fs) rc) other = Some x)"
proof -
  let ?v = "fs_volume fs"
  obtain d' e p first cs where sp: "fat32_create_file fs name (Some content) (length content) d = Some (0, d')"
    "is_chain (fat (blk d') ?v) ?v (root_cluster ?v) rc" "lookup_slot (dir_slots (blk d') ?v rc) name = Some (e, p)"
    "to_drive_entry e = ENTRY_FILE \<lparr>file_name = format_83_name (e_name e) (e_ext e), file_size = length content,
       file_cluster = first\<rparr>"
    "file_on (blk d') ?v first cs content"
    "\<forall>c cs old. file_on (blk d) ?v c cs old \<and> set cs \<inter> set rc = {} \<longrightarrow> file_on (blk d') ?v c cs old"
    "\<forall>other x. lookup_slot (dir_slots (blk d) ?v rc) other = Some x \<longrightarrow>
       encode_83_name other \<noteq> encode_83_name name \<longrightarrow> lookup_slot (dir_slots (blk d') ?v rc) other = Some x"
    using create_file_spec [OF assms] by blast
  obtain ctx d1 where sn: "search_name fs name d' = Some (ctx, d1)" "blk d1 = blk d'" "found ctx" "search_result ctx = e"
    using search_name_correct [OF dev vol sp(2), of name] sp(3) by (cases p) auto
  let ?f = "\<lparr>file_name = format_83_name (e_name e) (e_ext e), file_size = length content, file_cluster = first\<rparr>"
  have "\<exists>d2. fat32_file_read fs ?f offset len d1 =
      Some (int (min len (length content - offset)), take len (drop offset content), d2)" for offset len
    using file_read_correct [OF dev vol, of d1 ?f cs content offset len] sp(5) sn(2) size by auto
  then show ?thesis using sp sn by (intro exI [of _ d'] exI [of _ ctx] exI [of _ d1] exI [of _ ?f]) simp
qed

text \<open>Witness: the file \<open>a\<close> with two bytes on the empty volume.\<close>

lemma empty_root:
  "is_chain (fat (ram_blk empty_medium) small_volume) small_volume (root_cluster small_volume) [2]"
proof -
  have "root_cluster small_volume = 2" by (simp add: small_volume_def)
  then show ?thesis
    using small_fat(2) by (simp add: valid_cluster_def fat_entries_def) (simp add: small_volume_def)
qed

lemma empty_slots:
  "\<exists>e xs. dir_slots (ram_blk empty_medium) small_volume [2] = (e, 34, 0) # xs \<and> e_name e ! 0 = FAT32_ENTRY_END"
proof -
  have l: "cluster_to_lba small_volume 2 = 34" "unat (sectors_per_cluster (bpb small_volume)) = 1"
    by (simp_all add: cluster_to_lba_def small_volume_def)
  have b: "ram_blk empty_medium 34 = replicate 512 0"
    by (subst ram_blk_id) (simp_all add: empty_medium_def)
  have "[0..<16] = (0 :: nat) # [1..<16]" by (simp add: upt_rec)
  moreover have "e_name (load_entry (replicate 512 0) 0) ! 0 = 0" by (simp add: load_entry_def)
  ultimately show ?thesis
    by (simp add: dir_slots_def cluster_slots_def l sector_slots_def b)
qed

lemma small_free: "0 < card (free_set (ram_blk empty_medium) small_volume)"
proof -
  have "3 \<in> free_set (ram_blk empty_medium) small_volume"
    by (simp add: free_set_def small_fat) (simp add: valid_cluster_def fat_entries_def small_volume_def)
  then show ?thesis by (metis card_gt_0_iff empty_iff finite_free_set)
qed

theorem create_file_correct_witness:
  "\<exists>d' ctx d1 f d2. fat32_create_file small_fs [0x61] (Some [0x48, 0x69]) 2 empty_medium = Some (0, d') \<and>
     search_name small_fs [0x61] d' = Some (ctx, d1) \<and> to_drive_entry (search_result ctx) = ENTRY_FILE f \<and>
     fat32_file_read small_fs f 1 10 d1 = Some (1, [0x69], d2)"
proof -
  have fs: "fs_drive small_fs = ramdisk" "fs_volume small_fs = small_volume" by (simp_all add: small_fs_def)
  obtain e xs where sl: "dir_slots (ram_blk empty_medium) small_volume [2] = (e, 34, 0) # xs" "e_name e ! 0 = FAT32_ENTRY_END"
    using empty_slots by blast
  have slot: "find slot_free (dir_slots (ram_blk empty_medium) small_volume [2]) \<noteq> None"
    "lookup_slot (dir_slots (ram_blk empty_medium) small_volume [2]) [0x61] = None"
    using sl by (simp_all add: slot_free_def lookup_slot_def slot_end_def)
  have need: "clusters_needed small_volume (length [0x48, 0x69 :: u8]) = 1"
    by (simp add: clusters_needed_def cluster_bytes_def small_volume_def)
  have name: "fst (encode_83_name [0x61]) ! 0 = 0x41"
    by (simp add: encode_83_name_def pad_field_def upper_def)
  obtain d' ctx d1 f where
    run: "fat32_create_file small_fs [0x61] (Some [0x48, 0x69]) (length [0x48, 0x69 :: u8]) empty_medium = Some (0, d')"
      "search_name small_fs [0x61] d' = Some (ctx, d1)" "to_drive_entry (search_result ctx) = ENTRY_FILE f"
    and read: "\<forall>offset len. \<exists>d2. fat32_file_read small_fs f offset len d1 =
       Some (int (min len (length [0x48, 0x69 :: u8] - offset)), take len (drop offset [0x48, 0x69]), d2)"
    using create_file_correct [of small_fs ram_blk 162 empty_medium "[2]" "[0x48, 0x69]" "[0x61]"]
      ramdisk_device small_volume_ok empty_root slot need name small_free unfolding fs by auto
  have "\<exists>d2. fat32_file_read small_fs f 1 10 d1 = Some (1, [0x69], d2)"
    using read [rule_format, of 1 10] by simp
  moreover have "length [0x48, 0x69 :: u8] = 2" by simp
  ultimately show ?thesis using run by metis
qed

section \<open>Deleting a file\<close>

lemma lookup_slotD:
  assumes "lookup_slot xs name = Some x"
  shows "x \<in> set xs" "\<not> slot_end x" "slot_match (fst (encode_83_name name)) (snd (encode_83_name name)) x"
proof -
  have "x \<in> set (takeWhile (\<lambda>x. \<not> slot_end x) xs)"
    "slot_match (fst (encode_83_name name)) (snd (encode_83_name name)) x"
    using assms unfolding lookup_slot_def find_Some_iff by (auto simp del: split_paired_All)
  then show "x \<in> set xs" "\<not> slot_end x" "slot_match (fst (encode_83_name name)) (snd (encode_83_name name)) x"
    by (auto dest: set_takeWhileD)
qed

lemma find_replaced_same:
  assumes "\<And>x. x \<in> set xs \<Longrightarrow> f x = x \<or> \<not> P x \<and> \<not> P (f x) \<and> slot_end (f x) = slot_end x"
  shows "find P (takeWhile (\<lambda>x. \<not> slot_end x) (map f xs)) = find P (takeWhile (\<lambda>x. \<not> slot_end x) xs)"
  using assms
proof (induction xs)
  case (Cons x xs)
  have IH: "find P (takeWhile (\<lambda>x. \<not> slot_end x) (map f xs)) = find P (takeWhile (\<lambda>x. \<not> slot_end x) xs)"
    by (rule Cons.IH) (use Cons.prems in auto)
  from Cons.prems [of x] consider "f x = x" | "\<not> P x" "\<not> P (f x)" "slot_end (f x) = slot_end x" by auto
  then show ?case by cases (simp_all add: IH)
qed simp

definition deleted :: "FAT32_DirEntry \<Rightarrow> FAT32_DirEntry" where
  "deleted e = e\<lparr>e_name := (e_name e)[0 := FAT32_ENTRY_FREE]\<rparr>"

lemma deleted_slot: "e_name e \<noteq> [] \<Longrightarrow> \<not> slot_match t8 t3 (deleted e, p) \<and> \<not> slot_end (deleted e, p)"
  by (cases p) (auto simp: slot_match_def slot_end_def skipped_def deleted_def)

lemma delete_file_spec:
  assumes dev: "block_device (fs_drive fs) blk cap" and vol: "volume_ok (fs_volume fs) cap"
    and root: "is_chain (fat (blk d) (fs_volume fs)) (fs_volume fs) (root_cluster (fs_volume fs)) rc"
    and hit: "lookup_slot (dir_slots (blk d) (fs_volume fs) rc) name = Some (e, p)"
    and chain: "is_chain (fat (blk d) (fs_volume fs)) (fs_volume fs) (dir_entry_cluster e) cs" "set cs \<inter> set rc = {}"
  shows "\<exists>d'. fat32_delete_file (Some fs) name d = Some (0, d') \<and>
    (\<forall>x. unat x < fat_entries (fs_volume fs) \<longrightarrow>
       fat (blk d') (fs_volume fs) x = (if x \<in> set cs then FAT32_CLUSTER_FREE else fat (blk d) (fs_volume fs) x)) \<and>
    ((\<forall>x \<in> set (dir_slots (blk d) (fs_volume fs) rc).
        slot_match (fst (encode_83_name name)) (snd (encode_83_name name)) x \<longrightarrow> x = (e, p)) \<longrightarrow>
       lookup_slot (dir_slots (blk d') (fs_volume fs) rc) name = None) \<and>
    (\<forall>c cs' old. file_on (blk d) (fs_volume fs) c cs' old \<and> set cs' \<inter> (set cs \<union> set rc) = {} \<longrightarrow>
       file_on (blk d') (fs_volume fs) c cs' old) \<and>
    (\<forall>other. encode_83_name other \<noteq> encode_83_name name \<longrightarrow>
       lookup_slot (dir_slots (blk d') (fs_volume fs) rc) other = lookup_slot (dir_slots (blk d) (fs_volume fs) rc) other)"
proof -
  let ?v = "fs_volume fs" and ?P = "slot_match (fst (encode_83_name name)) (snd (encode_83_name name))"
  have y: "(e, p) \<in> set (dir_slots (blk d) ?v rc)" "?P (e, p)"
    using lookup_slotD [OF hit] by auto
  obtain c s j where c: "c \<in> set rc" "s < unat (sectors_per_cluster (bpb ?v))" "j < 16"
    "p = (cluster_to_lba ?v c + of_nat s, of_nat j)"
    using y(1) by (elim slotE) auto
  let ?l = "cluster_to_lba ?v c + of_nat s"
  have vc: "valid_cluster ?v c" by (rule is_chain_valid [OF root c(1)])
  have en: "e_name e = fst (encode_83_name name)" "e_ext e = snd (encode_83_name name)"
    using y(2) by (auto simp: slot_match_def split: prod.splits)
  have le: "length (e_name (deleted e)) = 8" "length (e_ext (deleted e)) = 3" by (simp_all add: deleted_def en)
  have ne: "e_name e \<noteq> []" using le(1) by (auto simp: deleted_def)
  obtain ctx d1 where sn: "search_name fs name d = Some (ctx, d1)" "blk d1 = blk d" "found ctx"
    "found_lba ctx = ?l" "found_idx ctx = of_nat j" "search_result ctx = e"
    using search_name_correct [OF dev vol root, of name] hit c(4) by auto
  obtain d2 where fr: "fat32_free_cluster_chain (fs_drive fs) ?v (dir_entry_cluster e) d1 = Some d2"
    "\<And>x. unat x < fat_entries ?v \<Longrightarrow> fat (blk d2) ?v x = (if x \<in> set cs then 0 else fat (blk d) ?v x)"
    "\<And>a. unat (data_lba ?v) \<le> unat a \<Longrightarrow> blk d2 a = blk d a"
    using free_chain_correct [OF dev vol, of d1 "dir_entry_cluster e" cs] chain(1) sn(2) by auto
  obtain d3 where wd: "fat32_write_dir_entry (fs_drive fs) ?l (of_nat j) (deleted e) d2 = (0, d3)"
    "blk d3 = put_slot ?l j (deleted e) (blk d2)"
    using write_dir_entry_correct [OF dev cluster_sector_not_fat(2) [OF vol vc c(2)] c(3) le] by blast
  have run: "fat32_delete_file (Some fs) name d = Some (0, d3)"
    using sn fr(1) wd(1) by (simp add: fat32_delete_file_def deleted_def)
  have fat': "fat (blk d3) ?v x = (if x \<in> set cs then 0 else fat (blk d) ?v x)" if "unat x < fat_entries ?v" for x
    using put_slot_fat [OF vol vc c(2) that] wd(2) fr(2) [OF that] by simp
  have "dir_slots (blk d2) ?v rc = dir_slots (blk d) ?v rc"
    using is_chain_valid [OF root] cluster_sector_not_fat(1) [OF vol] by (intro dir_slots_cong fr(3)) auto
  then have slots: "dir_slots (blk d3) ?v rc = map (replace_slot ?l j (deleted e)) (dir_slots (blk d) ?v rc)"
    unfolding wd(2) using dir_slots_put [of "blk d2" j "deleted e" ?l ?v rc] block_deviceD(6) [OF dev] c(3) le by simp
  have keep: "replace_slot ?l j (deleted e) x = x \<or> x = (e, p) \<and> replace_slot ?l j (deleted e) x = (deleted e, p)"
    if "x \<in> set (dir_slots (blk d) ?v rc)" for x
    using replace_slot_cases [OF y(1) that, of ?l j "deleted e"] c(4) by simp
  have gone: "lookup_slot (dir_slots (blk d3) ?v rc) name = None"
    if "\<forall>x \<in> set (dir_slots (blk d) ?v rc). ?P x \<longrightarrow> x = (e, p)"
  proof -
    have "\<not> ?P z" if "z \<in> set (dir_slots (blk d3) ?v rc)" for z
      using that keep \<open>\<forall>x \<in> set (dir_slots (blk d) ?v rc). ?P x \<longrightarrow> x = (e, p)\<close> deleted_slot [OF ne]
        replace_slot_def slots c(4) by (auto simp: replace_slot_def split: if_splits)
    then show ?thesis unfolding lookup_slot_def by (auto simp: find_None_iff dest: set_takeWhileD)
  qed
  have same: "lookup_slot (dir_slots (blk d3) ?v rc) other = lookup_slot (dir_slots (blk d) ?v rc) other"
    if "encode_83_name other \<noteq> encode_83_name name" for other
    unfolding lookup_slot_def slots
  proof (rule find_replaced_same)
    fix x assume x: "x \<in> set (dir_slots (blk d) ?v rc)"
    have "\<not> slot_end (e, p) \<and> \<not> slot_match (fst (encode_83_name other)) (snd (encode_83_name other)) (e, p)"
      using lookup_slotD(2) [OF hit] that en by (auto simp: slot_match_def prod_eq_iff split: prod.splits)
    then show "replace_slot ?l j (deleted e) x = x \<or>
        \<not> slot_match (fst (encode_83_name other)) (snd (encode_83_name other)) x \<and>
        \<not> slot_match (fst (encode_83_name other)) (snd (encode_83_name other)) (replace_slot ?l j (deleted e) x) \<and>
        slot_end (replace_slot ?l j (deleted e) x) = slot_end x"
      using keep [OF x] deleted_slot [OF ne, of _ _ p] by auto
  qed
  have others: "file_on (blk d3) ?v c' cs' o'"
    if "file_on (blk d) ?v c' cs' o'" "set cs' \<inter> (set cs \<union> set rc) = {}" for c' cs' o'
  proof (rule file_on_cong [OF that(1)])
    fix x assume x: "x \<in> set cs'"
    have "is_chain (fat (blk d) ?v) ?v c' cs'" using that(1) by (simp add: file_on_def)
    then have vx: "valid_cluster ?v x" "x \<notin> set cs" "x \<noteq> c" using is_chain_valid x that(2) c(1) by auto
    then show "fat (blk d3) ?v x = fat (blk d) ?v x" using fat' by (simp add: valid_cluster_def)
    show "cluster_data (blk d3) ?v x = cluster_data (blk d) ?v x"
      using put_slot_data [OF vol vc c(2) vx(1,3)] cluster_data_cong [OF vol vx(1) fr(3)] wd(2) by simp
  qed
  show ?thesis using run fat' gone others same by blast
qed

text \<open>C17. Deleting a file works: when the name is found and its clusters form a chain apart from the root
  directory, \<open>fat32_delete_file\<close> ends and returns 0, frees exactly the clusters of the chain, marks the
  slot as free so that, when no other slot carries the name, the name is not found any more,
  and keeps the chain and the content of every file that shares no cluster with the deleted one or the
  directory, and every lookup of another name.\<close>

theorem delete_file_correct:
  assumes dev: "block_device (fs_drive fs) blk cap" and vol: "volume_ok (fs_volume fs) cap"
    and root: "is_chain (fat (blk d) (fs_volume fs)) (fs_volume fs) (root_cluster (fs_volume fs)) rc"
    and hit: "lookup_slot (dir_slots (blk d) (fs_volume fs) rc) name = Some (e, p)"
    and chain: "is_chain (fat (blk d) (fs_volume fs)) (fs_volume fs) (dir_entry_cluster e) cs" "set cs \<inter> set rc = {}"
  shows "\<exists>d'. fat32_delete_file (Some fs) name d = Some (0, d') \<and>
    (\<forall>x. unat x < fat_entries (fs_volume fs) \<longrightarrow>
       fat (blk d') (fs_volume fs) x = (if x \<in> set cs then FAT32_CLUSTER_FREE else fat (blk d) (fs_volume fs) x)) \<and>
    ((\<forall>x \<in> set (dir_slots (blk d) (fs_volume fs) rc).
        slot_match (fst (encode_83_name name)) (snd (encode_83_name name)) x \<longrightarrow> x = (e, p)) \<longrightarrow>
       lookup_slot (dir_slots (blk d') (fs_volume fs) rc) name = None) \<and>
    (\<forall>c cs' old. file_on (blk d) (fs_volume fs) c cs' old \<and> set cs' \<inter> (set cs \<union> set rc) = {} \<longrightarrow>
       file_on (blk d') (fs_volume fs) c cs' old) \<and>
    (\<forall>other. encode_83_name other \<noteq> encode_83_name name \<longrightarrow>
       lookup_slot (dir_slots (blk d') (fs_volume fs) rc) other = lookup_slot (dir_slots (blk d) (fs_volume fs) rc) other)"
  by (rule delete_file_spec [OF assms])

text \<open>Witness: the root directory of the small volume with one entry, an empty file \<open>A\<close> in cluster 3.\<close>

definition one_file_medium :: medium where
  "one_file_medium = (\<lambda>a.
     if a = 32 \<or> a = 33
     then le32 0x0FFFFFF8 @ le32 0x0FFFFFFF @ le32 0x0FFFFFF8 @ le32 0x0FFFFFF8 @ replicate 496 0
     else if a = 34 then entry_bytes (file_entry [0x61] 3 0) @ replicate 480 0
     else replicate 512 0)"

lemma one_file_sectors:
  "ram_blk one_file_medium 32 = le32 0x0FFFFFF8 @ le32 0x0FFFFFFF @ le32 0x0FFFFFF8 @ le32 0x0FFFFFF8 @ replicate 496 0"
  "ram_blk one_file_medium 34 = entry_bytes (file_entry [0x61] 3 0) @ replicate 480 0"
  by (subst ram_blk_id; simp add: one_file_medium_def length_entry_bytes)+

lemma one_file_fat:
  "fat (ram_blk one_file_medium) small_volume 2 = FAT32_CLUSTER_EOC"
  "fat (ram_blk one_file_medium) small_volume 3 = FAT32_CLUSTER_EOC"
  by (simp_all add: fat_def fat_raw_def small_volume_def one_file_sectors buf32_def buf16_def le32_def)

lemma one_file_slots:
  "\<exists>xs. dir_slots (ram_blk one_file_medium) small_volume [2] = (file_entry [0x61] 3 0, 34, 0) # xs"
proof -
  have l: "cluster_to_lba small_volume 2 = 34" "unat (sectors_per_cluster (bpb small_volume)) = 1"
    by (simp_all add: cluster_to_lba_def small_volume_def)
  have "[0..<16] = (0 :: nat) # [1..<16]" by (simp add: upt_rec)
  moreover have "load_entry (entry_bytes (file_entry [0x61] 3 0) @ replicate 480 0) 0 = load_entry (entry_bytes (file_entry [0x61] 3 0)) 0"
    by (rule load_entry_cong) (simp_all add: length_entry_bytes nth_append)
  ultimately show ?thesis
    by (simp add: dir_slots_def cluster_slots_def l sector_slots_def one_file_sectors load_entry_bytes)
qed

theorem delete_file_correct_witness:
  "\<exists>d'. fat32_delete_file (Some small_fs) [0x61] one_file_medium = Some (0, d') \<and>
     fat (ram_blk d') small_volume 3 = FAT32_CLUSTER_FREE"
proof -
  have fs: "fs_drive small_fs = ramdisk" "fs_volume small_fs = small_volume" by (simp_all add: small_fs_def)
  have v: "valid_cluster small_volume 2" "valid_cluster small_volume 3" "root_cluster small_volume = 2"
    by (simp_all add: valid_cluster_def fat_entries_def small_volume_def)
  have ch: "is_chain (fat (ram_blk one_file_medium) small_volume) small_volume (root_cluster small_volume) [2]"
    "is_chain (fat (ram_blk one_file_medium) small_volume) small_volume 3 [3]"
    using v one_file_fat by simp_all
  obtain xs where sl: "dir_slots (ram_blk one_file_medium) small_volume [2] = (file_entry [0x61] 3 0, 34, 0) # xs"
    using one_file_slots by blast
  have "fst (encode_83_name [0x61]) ! 0 = 0x41"
    by (simp add: encode_83_name_def pad_field_def upper_def)
  then have hit: "lookup_slot (dir_slots (ram_blk one_file_medium) small_volume [2]) [0x61] =
      Some (file_entry [0x61] 3 0, 34, 0)"
    unfolding sl by (simp add: lookup_slot_def slot_end_def slot_match_def skipped_def)
  have "\<exists>d'. fat32_delete_file (Some small_fs) [0x61] one_file_medium = Some (0, d') \<and>
    (\<forall>x. unat x < fat_entries small_volume \<longrightarrow>
       fat (ram_blk d') small_volume x = (if x \<in> set [3] then FAT32_CLUSTER_FREE else fat (ram_blk one_file_medium) small_volume x))"
    using delete_file_correct [of small_fs ram_blk 162 one_file_medium "[2]" "[0x61]" "file_entry [0x61] 3 0" "(34, 0)" "[3]"]
      ramdisk_device small_volume_ok ch hit unfolding fs file_entry_simps by force
  then show ?thesis using v(2) unfolding valid_cluster_def by (metis list.set_intros(1))
qed

end
