(* ===== verification/Fs.thy ===== *)
theory Fs
  imports Fat_Ops
begin

text \<open>
  The table of drives (\<open>kernel/drivers/drives.c\<close>) and the file-system layer above FAT32
  (\<open>kernel/fs/fs.c\<close>): registration and partition tables, mounting, and \<open>readfile\<close>.
  The kernel state is the heap, the state of the device, the table of drives and the mounted file
  system; \<open>None\<close> stands for a call without a defined result (a loop that does not end, a NULL pointer or an
  uninitialised buffer that is used).
\<close>

section \<open>Drives\<close>

record 'd fs_state =
  fs_heap :: heap
  fs_dev :: 'd
  fs_drives :: "'d kdrive option list"
  fs_mounted :: "'d drive_fs option"

text \<open>An entry of the MBR's table at byte \<open>446 + 16 * i\<close>.\<close>

definition mbr_partition :: "u8 list \<Rightarrow> nat \<Rightarrow> partition" where
  "mbr_partition sector i =
     \<lparr>part_type = FS_FAT32, part_lba = ucast (buf32 sector (446 + 16 * i + 8)),
      part_size = ucast (buf32 sector (446 + 16 * i + 12))\<rparr>"

definition sizeof_partition :: u64 where
  "sizeof_partition = 24"

definition load_parameters :: "'d kdrive \<Rightarrow> heap \<Rightarrow> 'd \<Rightarrow> ('d kdrive \<times> heap \<times> 'd) option" where
  "load_parameters dr h d =
     (case kread dr d 0 of
        (None, d1) \<Rightarrow> None
      | (Some sector, d1) \<Rightarrow>
          if sector ! 510 = 0x55 \<and> sector ! 511 = 0xAA then do {
            (p, h1) \<leftarrow> kmalloc (4 * sizeof_partition) h;
            if p = 0 then None
            else Some (dr\<lparr>partitions := \<lparr>table_type = PARTITION_MBR, table_count = 4,
                          table_partitions = map (mbr_partition sector) [0..<4]\<rparr>\<rparr>, h1, d1)
          }
          else do {
            (p, h1) \<leftarrow> kmalloc sizeof_partition h;
            if p = 0 then None
            else Some (dr\<lparr>partitions := \<lparr>table_type = PARTITION_NONE, table_count = 1,
                          table_partitions = [\<lparr>part_type = FS_FAT32, part_lba = 0, part_size = 0\<rparr>]\<rparr>\<rparr>, h1, d1)
          })"

text \<open>A slot is free when its sector size is 0; a zeroed slot is \<open>None\<close>.\<close>

definition slot_unused :: "'d kdrive option \<Rightarrow> bool" where
  "slot_unused s = (case s of None \<Rightarrow> True | Some dr \<Rightarrow> sector_size dr = 0)"

fun register_from :: "nat \<Rightarrow> 'd kdrive option list \<Rightarrow> 'd kdrive \<Rightarrow> 'd fs_state \<Rightarrow> 'd fs_state option" where
  "register_from i [] dr st = Some st"
| "register_from i (s # ss) dr st =
     (if \<not> slot_unused s then register_from (i + 1) ss dr st
      else do {
        (dr1, h1, d1) \<leftarrow> load_parameters dr (fs_heap st) (fs_dev st);
        Some (st\<lparr>fs_heap := h1, fs_dev := d1, fs_drives := (fs_drives st)[i := Some dr1]\<rparr>)
      })"

definition register_kdrive :: "'d kdrive \<Rightarrow> 'd fs_state \<Rightarrow> 'd fs_state option" where
  "register_kdrive dr st = register_from 0 (fs_drives st) dr st"

text \<open>The index is not checked against the size of the table.\<close>

definition get_kdrive :: "nat \<Rightarrow> 'd fs_state \<Rightarrow> 'd kdrive option option" where
  "get_kdrive i st = (if i < length (fs_drives st) then Some (fs_drives st ! i) else None)"

section \<open>Mounting\<close>

definition fs_partition_open ::
  "'d kdrive \<Rightarrow> partition \<Rightarrow> heap \<Rightarrow> 'd \<Rightarrow> ('d drive_fs option \<times> heap \<times> 'd) option" where
  "fs_partition_open dr part h d =
     (case part_type part of
        FS_FAT32 \<Rightarrow> fat32_drive_open dr part h d
      | FS_NONE \<Rightarrow> Some (None, h, d)
      | FS_FAT12 \<Rightarrow> Some (None, h, d)
      | FS_FAT16 \<Rightarrow> Some (None, h, d))"

definition fs_drive_open :: "'d kdrive \<Rightarrow> heap \<Rightarrow> 'd \<Rightarrow> ('d drive_fs option \<times> heap \<times> 'd) option" where
  "fs_drive_open dr h d = fs_partition_open dr \<lparr>part_type = FS_FAT32, part_lba = 0, part_size = - 1\<rparr> h d"

definition fsmount :: "nat \<Rightarrow> 'd fs_state \<Rightarrow> (int \<times> 'd fs_state) option" where
  "fsmount i st = do {
     slot \<leftarrow> get_kdrive i st;
     case slot of
       None \<Rightarrow> Some (0, st)
     | Some dr \<Rightarrow> do {
         (m, h1, d1) \<leftarrow> fs_drive_open dr (fs_heap st) (fs_dev st);
         Some (case m of None \<Rightarrow> - 1 | Some fs \<Rightarrow> 1, st\<lparr>fs_heap := h1, fs_dev := d1, fs_mounted := m\<rparr>)
       }
   }"

text \<open>The loop of \<open>kmain\<close> that mounts the first drive of 1 to 4 for which \<open>fsmount\<close> returns a non-zero value.\<close>

fun mount_first :: "nat list \<Rightarrow> 'd fs_state \<Rightarrow> 'd fs_state option" where
  "mount_first [] st = Some st"
| "mount_first (i # is) st = do {
     (r, st1) \<leftarrow> fsmount i st;
     if r \<noteq> 0 then Some st1 else mount_first is st1
   }"

definition kmain_mount :: "'d fs_state \<Rightarrow> 'd fs_state option" where
  "kmain_mount st = mount_first [1..<5] st"

section \<open>Reading a file\<close>

partial_function (option) read_loop ::
  "'d drive_fs \<Rightarrow> drive_file \<Rightarrow> nat \<Rightarrow> u8 list \<Rightarrow> 'd \<Rightarrow> (u8 list \<times> 'd) option" where
  "read_loop fs f j buffer d = do {
     (bytes, readbuf, d1) \<leftarrow> fat32_file_read fs f (j * 128) 128 d;
     if bytes \<le> 0 then Some (buffer, d1)
     else read_loop fs f (j + 1) (buffer @ take (nat bytes) readbuf) d1
   }"

text \<open>The result is the address of the buffer, its bytes and its size, or \<open>None\<close> for \<open>{NULL, 0}\<close>.\<close>

definition readfile :: "u8 list \<Rightarrow> 'd fs_state \<Rightarrow> ((u64 \<times> u8 list \<times> nat) option \<times> 'd fs_state) option" where
  "readfile fname st = do {
     fs \<leftarrow> fs_mounted st;
     (entries, h1, d1) \<leftarrow> fat32_get_root_entries fs (fs_heap st) (fs_dev st);
     case find_file entries fname of
       None \<Rightarrow> Some (None, st\<lparr>fs_heap := h1, fs_dev := d1\<rparr>)
     | Some f \<Rightarrow> do {
         (p, h2) \<leftarrow> kmalloc (of_nat (file_size f)) h1;
         if p = 0 then None
         else do {
           (buffer, d2) \<leftarrow> read_loop fs f 0 [] d1;
           Some (Some (p, buffer, file_size f), st\<lparr>fs_heap := h2, fs_dev := d2\<rparr>)
         }
       }
   }"

section \<open>The listing of the root directory\<close>

definition listing :: "slot list \<Rightarrow> drive_entry list" where
  "listing xs = map (\<lambda>(e, l, i). to_drive_entry e)
     (filter (\<lambda>(e, l, i). \<not> skipped e) (takeWhile (\<lambda>x. \<not> slot_end x) xs))"

lemma listing_Nil [simp]: "listing [] = []"
  by (simp add: listing_def)

lemma listing_Cons [simp]:
  "listing ((e, l, i) # xs) =
     (if e_name e ! 0 = FAT32_ENTRY_END then [] else if skipped e then listing xs else to_drive_entry e # listing xs)"
  by (simp add: listing_def slot_end_def)

lemma walk_fill: "snd (walk enum_fill_cb xs es) = es @ listing xs"
proof (induction enum_fill_cb xs es rule: walk.induct)
  case (2 e l i xs es)
  then show ?case
    by (cases "e_name e ! 0 = FAT32_ENTRY_END"; cases "skipped e") (simp_all add: enum_fill_cb_def [of e l i es])
qed simp

lemma walk_count: "snd (walk enum_count_cb xs n) = n + length (listing xs)"
proof (induction enum_count_cb xs n rule: walk.induct)
  case (2 e l i xs n)
  then show ?case by (simp add: enum_count_cb_def [of e l i n])
qed simp

lemma get_root_entries_correct:
  assumes dev: "block_device (fs_drive fs) blk cap" and vol: "volume_ok (fs_volume fs) cap"
    and root: "is_chain (fat (blk d) (fs_volume fs)) (fs_volume fs) (root_cluster (fs_volume fs)) rc"
    and es: "es = listing (dir_slots (blk d) (fs_volume fs) rc)"
    and heap: "es \<noteq> [] \<Longrightarrow> kmalloc (of_nat (length es) * sizeof_drive_entry) h = Some (p, h') \<and> p \<noteq> 0"
  shows "\<exists>d'. fat32_get_root_entries fs h d = Some (es, if es = [] then h else h', d') \<and> blk d' = blk d"
proof -
  let ?it = "fat32_dir_iterate (fs_drive fs) (fs_volume fs)"
  obtain d1 where c: "?it enum_count_cb (root_cluster (fs_volume fs)) 0 d = Some (length es, d1)" "blk d1 = blk d"
    using dir_iterate_walk [OF dev vol root, of enum_count_cb 0] by (auto simp: walk_count es)
  obtain d2 where f: "?it enum_fill_cb (root_cluster (fs_volume fs)) [] d1 = Some (es, d2)" "blk d2 = blk d"
    using dir_iterate_walk [OF dev vol, of d1 "root_cluster (fs_volume fs)" rc enum_fill_cb "[]"] c(2) root
    by (auto simp: walk_fill es)
  show ?thesis
    using c f heap by (cases "es = []") (auto simp: fat32_get_root_entries_def)
qed

lemma read_loop_correct:
  assumes dev: "block_device (fs_drive fs) blk cap" and vol: "volume_ok (fs_volume fs) cap"
    and on: "file_on (blk d) (fs_volume fs) (file_cluster f) cs content" "file_size f = length content"
    and size: "length content < 2 ^ 31"
  shows "\<exists>d'. read_loop fs f j buf d = Some (buf @ drop (j * 128) content, d') \<and> blk d' = blk d"
  using on(1)
proof (induction "length content - j * 128" arbitrary: j buf d rule: less_induct)
  case less
  obtain d1 where r: "fat32_file_read fs f (j * 128) 128 d =
      Some (int (min 128 (length content - j * 128)), take 128 (drop (j * 128) content), d1)" "blk d1 = blk d"
    using file_read_correct [OF dev vol less.prems on(2) size] by blast
  show ?case
  proof (cases "length content \<le> j * 128")
    case True
    then show ?thesis using r by (subst read_loop.simps) simp
  next
    case False
    have split: "drop (j * 128) content = take 128 (drop (j * 128) content) @ drop (Suc j * 128) content"
      by (metis add.commute append_take_drop_id drop_drop mult_Suc)
    have dec: "length content - Suc j * 128 < length content - j * 128" using False by simp
    obtain d' where "read_loop fs f (Suc j) (buf @ take 128 (drop (j * 128) content)) d1 =
        Some ((buf @ take 128 (drop (j * 128) content)) @ drop (Suc j * 128) content, d')" "blk d' = blk d1"
      using less.hyps [OF dec, of d1 "buf @ take 128 (drop (j * 128) content)"] less.prems r(2) by auto
    moreover have "take (nat (int (min 128 (length content - j * 128)))) (take 128 (drop (j * 128) content)) =
        take 128 (drop (j * 128) content)" by (simp add: min_def)
    ultimately show ?thesis
      using r False split by (subst read_loop.simps) simp
  qed
qed

section \<open>Properties\<close>

text \<open>C18. \<open>readfile\<close> returns a file.  With a mounted volume whose root directory is a chain and whose listing
  holds a file that matches the name up to case, whose clusters hold \<open>content\<close>, and with a heap that
  serves the two allocations, \<open>readfile\<close> ends and returns exactly the content and its size; the
  medium is unchanged.\<close>

theorem readfile_correct:
  assumes dev: "block_device (fs_drive fs) blk cap" and vol: "volume_ok (fs_volume fs) cap"
    and mounted: "fs_mounted st = Some fs"
    and root: "is_chain (fat (blk (fs_dev st)) (fs_volume fs)) (fs_volume fs) (root_cluster (fs_volume fs)) rc"
    and found: "find_file (listing (dir_slots (blk (fs_dev st)) (fs_volume fs) rc)) fname = Some f"
    and on: "file_on (blk (fs_dev st)) (fs_volume fs) (file_cluster f) cs content" "file_size f = length content"
    and size: "length content < 2 ^ 31"
    and heap: "kmalloc (of_nat (length (listing (dir_slots (blk (fs_dev st)) (fs_volume fs) rc))) * sizeof_drive_entry)
        (fs_heap st) = Some (p, h1)" "p \<noteq> 0"
      "kmalloc (of_nat (length content)) h1 = Some (q, h2)" "q \<noteq> 0"
  shows "\<exists>st'. readfile fname st = Some (Some (q, content, length content), st') \<and>
     blk (fs_dev st') = blk (fs_dev st) \<and> fs_heap st' = h2"
proof -
  let ?es = "listing (dir_slots (blk (fs_dev st)) (fs_volume fs) rc)"
  have "?es \<noteq> []" using found by auto
  then obtain d1 where g: "fat32_get_root_entries fs (fs_heap st) (fs_dev st) = Some (?es, h1, d1)" "blk d1 = blk (fs_dev st)"
    using get_root_entries_correct [OF dev vol root refl, of "fs_heap st" p h1] heap(1,2) by auto
  obtain d2 where "read_loop fs f 0 [] d1 = Some (content, d2)" "blk d2 = blk d1"
    using read_loop_correct [OF dev vol _ on(2) size, of d1 cs 0 "[]"] on(1) g(2) by auto
  then show ?thesis
    using g found heap(3,4) on(2) mounted by (simp add: readfile_def)
qed

text \<open>Witness: the small volume with the file \<open>A\<close> of two bytes in cluster 3, and an empty heap.\<close>

definition hello_medium :: medium where
  "hello_medium = one_file_medium(34 := entry_bytes (file_entry [0x61] 3 2) @ replicate 480 0,
                                  35 := [0x48, 0x69] @ replicate 510 0)"

lemma hello_sectors:
  "ram_blk hello_medium 32 = ram_blk one_file_medium 32"
  "ram_blk hello_medium 34 = entry_bytes (file_entry [0x61] 3 2) @ replicate 480 0"
  "ram_blk hello_medium 35 = [0x48, 0x69] @ replicate 510 0"
  by (simp add: ram_blk_def hello_medium_def) (subst ram_blk_id; simp add: hello_medium_def length_entry_bytes)+

lemma hello_fat:
  "fat (ram_blk hello_medium) small_volume 2 = FAT32_CLUSTER_EOC"
  "fat (ram_blk hello_medium) small_volume 3 = FAT32_CLUSTER_EOC"
  using one_file_fat by (simp_all add: fat_def fat_raw_def small_volume_def hello_sectors)

lemma hello_slots:
  "\<exists>e xs. dir_slots (ram_blk hello_medium) small_volume [2] = (file_entry [0x61] 3 2, 34, 0) # (e, 34, 1) # xs \<and>
     e_name e ! 0 = FAT32_ENTRY_END"
proof -
  have l: "cluster_to_lba small_volume 2 = 34" "unat (sectors_per_cluster (bpb small_volume)) = 1"
    by (simp_all add: cluster_to_lba_def small_volume_def)
  let ?b = "entry_bytes (file_entry [0x61] 3 2) @ replicate 480 0"
  have upt: "[0..<16] = (0 :: nat) # 1 # [2..<16]" by (simp add: upt_rec)
  have e0: "load_entry ?b 0 = file_entry [0x61] 3 2"
    using load_entry_cong [of ?b 0 "entry_bytes (file_entry [0x61] 3 2)" 0]
    by (simp add: length_entry_bytes nth_append load_entry_bytes)
  have "take 8 (drop 32 ?b) = replicate 8 0" by (simp add: length_entry_bytes)
  then have e1: "e_name (load_entry ?b 1) ! 0 = FAT32_ENTRY_END"
    by (simp add: load_entry_def)
  obtain rest where "sector_slots (ram_blk hello_medium) 34 = (load_entry ?b 0, 34, 0) # (load_entry ?b 1, 34, 1) # rest"
    unfolding sector_slots_def upt list.map by (simp add: hello_sectors del: upt_rec_numeral)
  moreover have "dir_slots (ram_blk hello_medium) small_volume [2] = sector_slots (ram_blk hello_medium) 34"
    by (simp add: dir_slots_def cluster_slots_def l)
  ultimately show ?thesis using e0 e1 by auto
qed

lemma hello_listing:
  "listing (dir_slots (ram_blk hello_medium) small_volume [2]) =
     [ENTRY_FILE \<lparr>file_name = [0x41], file_size = 2, file_cluster = 3\<rparr>]"
proof -
  have enc: "encode_83_name [0x61] = (0x41 # replicate 7 SPACE, replicate 3 SPACE)"
    by (simp add: encode_83_name_def pad_field_def upper_def)
  have f: "to_drive_entry (file_entry [0x61] 3 2) = ENTRY_FILE \<lparr>file_name = [0x41], file_size = 2, file_cluster = 3\<rparr>"
    by (simp add: to_drive_entry_def enc format_83_name_def list_ex_iff)
  have n: "e_name (file_entry [0x61] 3 2) ! 0 = 0x41" "\<not> skipped (file_entry [0x61] 3 2)"
    by (simp_all add: enc skipped_def)
  obtain e xs where sl: "dir_slots (ram_blk hello_medium) small_volume [2] = (file_entry [0x61] 3 2, 34, 0) # (e, 34, 1) # xs"
    and e: "e_name e ! 0 = FAT32_ENTRY_END" using hello_slots by blast
  show ?thesis unfolding sl by (simp only: listing_Cons e n f) simp
qed

lemma hello_root: "is_chain (fat (ram_blk hello_medium) small_volume) small_volume (root_cluster small_volume) [2]"
proof -
  have "valid_cluster small_volume 2" "root_cluster small_volume = 2"
    by (simp_all add: valid_cluster_def fat_entries_def small_volume_def)
  then show ?thesis by (simp add: hello_fat)
qed

lemma hello_file_on: "file_on (ram_blk hello_medium) small_volume 3 [3] [0x48, 0x69]"
proof -
  have "cluster_to_lba small_volume 3 = 35" "unat (sectors_per_cluster (bpb small_volume)) = 1"
    "valid_cluster small_volume 3" "cluster_bytes small_volume = 512"
    by (simp_all add: cluster_to_lba_def small_volume_def valid_cluster_def fat_entries_def cluster_bytes_def)
  then show ?thesis
    by (simp add: file_on_def hello_fat chain_data_def cluster_data_def hello_sectors)
qed

theorem readfile_correct_witness:
  "\<exists>q st'. readfile [0x61] \<lparr>fs_heap = empty_heap, fs_dev = hello_medium, fs_drives = [], fs_mounted = Some small_fs\<rparr> =
     Some (Some (q, [0x48, 0x69], 2), st')"
proof -
  let ?st = "\<lparr>fs_heap = empty_heap, fs_dev = hello_medium, fs_drives = [], fs_mounted = Some small_fs\<rparr>"
  have fs: "fs_drive small_fs = ramdisk" "fs_volume small_fs = small_volume" by (simp_all add: small_fs_def)
  define h1 where "h1 = snd (the (kmalloc 344 empty_heap))"
  have k1: "kmalloc 344 empty_heap = Some (0x200010, h1)" "kmalloc 2 h1 = Some (0x200178, snd (the (kmalloc 2 h1)))"
    by (simp_all add: h1_def kmalloc_def find_free_block_def find_from.simps ALIGN8_def empty_heap_def
      create_block_def sizeof_block_def)
  show ?thesis
    using readfile_correct [of small_fs ram_blk 162 ?st "[2]" "[0x61]" "\<lparr>file_name = [0x41], file_size = 2, file_cluster = 3\<rparr>"
        "[3]" "[0x48, 0x69]" "0x200010" h1 "0x200178" "snd (the (kmalloc 2 h1))"]
      ramdisk_device small_volume_ok hello_root hello_file_on k1
    unfolding fs by (auto simp: fs hello_listing sizeof_drive_entry_def cstr_def upper_def)
qed

end
