(* ===== verification/Phys_Mem.thy ===== *)
theory Phys_Mem
  imports Gecko_Prelude
begin

unbundle bit_operations_syntax

text \<open>
  The physical memory manager (\<open>kernel/mem/physical_mem/physical_mem.c\<close>): a flat
  bitmap with one bit per 4 KiB block. A set bit marks a block in use.
\<close>

section \<open>State and single-block operations\<close>

definition BLOCK_SIZE :: u64 where
  "BLOCK_SIZE = 4096"

text \<open>\<open>memory_map\<close> is the array of 32-bit words the C pointer designates; the
  counters are the file's \<open>uint64_t\<close> globals.\<close>

record pmm =
  memory_map :: "nat \<Rightarrow> u32"
  max_blocks :: u64
  used_blocks :: u64
  bitmap_base :: u64
  bitmap_size_blocks :: u64

definition set_block :: "u32 \<Rightarrow> pmm \<Rightarrow> pmm" where
  "set_block b s =
     (if (ucast b :: u64) < max_blocks s
      then s\<lparr>memory_map := (memory_map s)
               (unat (b div 32) := memory_map s (unat (b div 32)) OR push_bit (unat (b mod 32)) 1)\<rparr>
      else s)"

definition unset_block :: "u32 \<Rightarrow> pmm \<Rightarrow> pmm" where
  "unset_block b s =
     (if (ucast b :: u64) < max_blocks s
      then s\<lparr>memory_map := (memory_map s)
               (unat (b div 32) :=
                  memory_map s (unat (b div 32)) AND NOT (push_bit (unat (b mod 32)) 1))\<rparr>
      else s)"

section \<open>The first-fit search\<close>

text \<open>\<open>free_count\<close>: the inner loop over \<open>k\<close> that counts the free blocks from \<open>bit\<close>
  on, stopping at the end of memory or at the first block in use.\<close>

fun free_count :: "pmm \<Rightarrow> nat \<Rightarrow> nat \<Rightarrow> nat" where
  "free_count s b 0 = 0"
| "free_count s b (Suc n) =
     (if unat (max_blocks s) \<le> b then 0
      else if memory_map s (b div 32) AND push_bit (b mod 32) 1 = 0
      then Suc (free_count s (Suc b) n)
      else 0)"

text \<open>The loop over the bits \<open>j\<close> of word \<open>i\<close>.\<close>

fun scan_bits :: "pmm \<Rightarrow> nat \<Rightarrow> nat \<Rightarrow> nat list \<Rightarrow> nat option" where
  "scan_bits s n i [] = None"
| "scan_bits s n i (j # js) =
     (if memory_map s i AND push_bit j 1 = 0 \<and> free_count s (i * 32 + j) n = n
      then Some (i * 32 + j)
      else scan_bits s n i js)"

text \<open>The loop over the words \<open>i\<close>, which skips words with every bit set.\<close>

fun scan_words :: "pmm \<Rightarrow> nat \<Rightarrow> nat list \<Rightarrow> nat option" where
  "scan_words s n [] = None"
| "scan_words s n (i # is) =
     (if memory_map s i \<noteq> 0xFFFFFFFF
      then (case scan_bits s n i [0..<32] of
              Some b \<Rightarrow> Some b
            | None \<Rightarrow> scan_words s n is)
      else scan_words s n is)"

text \<open>The result is an \<open>int32_t\<close>: \<open>-1\<close> for failure, else the block number cast
  to 32 bits.\<close>

definition find_first_free_blocks :: "u32 \<Rightarrow> pmm \<Rightarrow> u32" where
  "find_first_free_blocks n s =
     (if n = 0 then - 1
      else case scan_words s (unat n) [0..<unat (max_blocks s div 32)] of
             None \<Rightarrow> - 1
           | Some b \<Rightarrow> of_nat b)"

section \<open>Regions\<close>

text \<open>The loops of \<open>reserve_region\<close> and \<open>free_region\<close>; the first argument counts
  the iterations left, \<open>b\<close> is \<open>start_block + i\<close>.\<close>

definition reserve_one :: "u64 \<Rightarrow> pmm \<Rightarrow> pmm" where
  "reserve_one b s =
     (if memory_map s (unat (b div 32)) AND push_bit (unat (b mod 32)) 1 = 0
      then (set_block (ucast b) s)\<lparr>used_blocks := used_blocks s + 1\<rparr>
      else s)"

fun reserve_loop :: "nat \<Rightarrow> u64 \<Rightarrow> pmm \<Rightarrow> pmm" where
  "reserve_loop 0 b s = s"
| "reserve_loop (Suc n) b s =
     (if b < max_blocks s then reserve_loop n (b + 1) (reserve_one b s) else s)"

definition reserve_region :: "u64 \<Rightarrow> u64 \<Rightarrow> pmm \<Rightarrow> pmm" where
  "reserve_region base sz s =
     reserve_loop (unat ((sz + BLOCK_SIZE - 1) div BLOCK_SIZE)) (base div BLOCK_SIZE) s"

definition free_one :: "u64 \<Rightarrow> pmm \<Rightarrow> pmm" where
  "free_one b s =
     (if memory_map s (unat (b div 32)) AND push_bit (unat (b mod 32)) 1 \<noteq> 0
      then (unset_block (ucast b) s)\<lparr>used_blocks := used_blocks s - 1\<rparr>
      else s)"

fun free_loop :: "nat \<Rightarrow> u64 \<Rightarrow> pmm \<Rightarrow> pmm" where
  "free_loop 0 b s = s"
| "free_loop (Suc n) b s =
     (if b < max_blocks s then free_loop n (b + 1) (free_one b s) else s)"

definition free_region :: "u64 \<Rightarrow> u64 \<Rightarrow> pmm \<Rightarrow> pmm" where
  "free_region base sz s =
     free_loop (unat ((sz + BLOCK_SIZE - 1) div BLOCK_SIZE)) (base div BLOCK_SIZE) s"

definition deinitialize_memory_region :: "u64 \<Rightarrow> u64 \<Rightarrow> pmm \<Rightarrow> pmm" where
  "deinitialize_memory_region base_address sz s = reserve_region base_address sz s"

section \<open>Allocation and release\<close>

text \<open>The loops of \<open>allocate_blocks\<close> and \<open>free_blocks\<close> over \<open>i\<close>, with
  \<open>(uint32_t)start + i\<close> as the running block number.\<close>

fun set_loop :: "nat \<Rightarrow> u32 \<Rightarrow> pmm \<Rightarrow> pmm" where
  "set_loop 0 b s = s"
| "set_loop (Suc n) b s = set_loop n (b + 1) (set_block b s)"

fun unset_loop :: "nat \<Rightarrow> u32 \<Rightarrow> pmm \<Rightarrow> pmm" where
  "unset_loop 0 b s = s"
| "unset_loop (Suc n) b s = unset_loop n (b + 1) (unset_block b s)"

text \<open>A returned address \<open>0\<close> is the C \<open>NULL\<close>. The start block is an \<open>int32_t\<close>,
  so its conversion to \<open>uint64_t\<close> sign-extends.\<close>

definition allocate_blocks :: "u32 \<Rightarrow> pmm \<Rightarrow> u64 \<times> pmm" where
  "allocate_blocks num_blocks s =
     (if max_blocks s - used_blocks s \<le> ucast num_blocks then (0, s)
      else let start = find_first_free_blocks num_blocks s in
        if start = - 1 then (0, s)
        else let s' = set_loop (unat num_blocks) start s in
          (scast start * BLOCK_SIZE, s'\<lparr>used_blocks := used_blocks s' + ucast num_blocks\<rparr>))"

definition free_blocks :: "u64 \<Rightarrow> u32 \<Rightarrow> pmm \<Rightarrow> pmm" where
  "free_blocks address num_blocks s =
     (let start = (ucast (address div BLOCK_SIZE) :: u32) in
      if start <s 0 \<or> max_blocks s < scast start + ucast num_blocks then s
      else let s' = unset_loop (unat num_blocks) start s in
        s'\<lparr>used_blocks := used_blocks s' - ucast num_blocks\<rparr>)"

section \<open>The set of blocks in use\<close>

text \<open>The abstract view of the bitmap: which blocks below \<open>max_blocks\<close> are in use.
  The invariant ties the counter to it.\<close>

definition block_used :: "pmm \<Rightarrow> nat \<Rightarrow> bool" where
  "block_used s b \<longleftrightarrow> bit (memory_map s (b div 32)) (b mod 32)"

definition used_set :: "pmm \<Rightarrow> nat set" where
  "used_set s = {b. b < unat (max_blocks s) \<and> block_used s b}"

definition pmm_inv :: "pmm \<Rightarrow> bool" where
  "pmm_inv s \<longleftrightarrow> used_blocks s = of_nat (card (used_set s))"

lemma finite_used_set [simp]: "finite (used_set s)"
  by (simp add: used_set_def)

lemma card_used_set_le: "card (used_set s) \<le> unat (max_blocks s)"
  using card_mono [of "{..<unat (max_blocks s)}" "used_set s"] by (auto simp: used_set_def)

lemma set_block_fields [simp]:
  "max_blocks (set_block b s) = max_blocks s"
  "used_blocks (set_block b s) = used_blocks s"
  by (simp_all add: set_block_def)

lemma unset_block_fields [simp]:
  "max_blocks (unset_block b s) = max_blocks s"
  "used_blocks (unset_block b s) = used_blocks s"
  by (simp_all add: unset_block_def)

lemma block_used_upd [simp]:
  "block_used (s\<lparr>used_blocks := u\<rparr>) = block_used s"
  by (simp add: block_used_def fun_eq_iff)

lemma used_set_upd [simp]:
  "used_set (s\<lparr>used_blocks := u\<rparr>) = used_set s"
  by (simp add: used_set_def)

lemma ucast_less_max_iff:
  "(ucast (b :: u32) :: u64) < max_blocks s \<longleftrightarrow> unat b < unat (max_blocks s)"
  by (simp add: word_less_nat_alt)

lemma block_used_set_block:
  "block_used (set_block b s) c \<longleftrightarrow>
     block_used s c \<or> (c = unat b \<and> unat b < unat (max_blocks s))"
  using block_index_split [of c "unat b"]
  by (auto simp: block_used_def set_block_def ucast_less_max_iff gecko_bits unat_mod)

lemma block_used_unset_block:
  "block_used (unset_block b s) c \<longleftrightarrow>
     block_used s c \<and> \<not> (c = unat b \<and> unat b < unat (max_blocks s))"
  using block_index_split [of c "unat b"]
  by (auto simp: block_used_def unset_block_def ucast_less_max_iff gecko_bits unat_mod)

lemma used_set_set_block:
  "unat b < unat (max_blocks s) \<Longrightarrow> used_set (set_block b s) = insert (unat b) (used_set s)"
  by (auto simp: used_set_def block_used_set_block)

lemma used_set_unset_block: "used_set (unset_block b s) = used_set s - {unat b}"
  by (auto simp: used_set_def block_used_unset_block)

section \<open>The search finds the first fit\<close>

text \<open>\<open>free_run s b n\<close>: the \<open>n\<close> blocks from \<open>b\<close> on exist and are free.\<close>

definition free_run :: "pmm \<Rightarrow> nat \<Rightarrow> nat \<Rightarrow> bool" where
  "free_run s b n \<longleftrightarrow> (\<forall>c. b \<le> c \<and> c < b + n \<longrightarrow> c < unat (max_blocks s) \<and> \<not> block_used s c)"

lemma free_run_Suc:
  "free_run s b (Suc n) \<longleftrightarrow>
     b < unat (max_blocks s) \<and> \<not> block_used s b \<and> free_run s (Suc b) n"
proof
  assume "free_run s b (Suc n)"
  then show "b < unat (max_blocks s) \<and> \<not> block_used s b \<and> free_run s (Suc b) n"
    by (auto simp: free_run_def)
next
  assume r: "b < unat (max_blocks s) \<and> \<not> block_used s b \<and> free_run s (Suc b) n"
  show "free_run s b (Suc n)"
    unfolding free_run_def
  proof (intro allI impI)
    fix c assume "b \<le> c \<and> c < b + Suc n"
    with r show "c < unat (max_blocks s) \<and> \<not> block_used s c"
      by (cases "c = b") (auto simp: free_run_def)
  qed
qed

lemma free_count_le: "free_count s b n \<le> n"
  by (induction s b n rule: free_count.induct) auto

lemma free_count_eq_iff: "free_count s b n = n \<longleftrightarrow> free_run s b n"
proof (induction n arbitrary: b)
  case 0
  show ?case by (auto simp: free_run_def)
next
  case (Suc n)
  then show ?case
    by (auto simp: free_run_Suc gecko_bits block_used_def)
qed

lemma scan_bits_find:
  assumes "0 < n" "set js \<subseteq> {..<32}"
  shows "scan_bits s n i js = find (\<lambda>b. free_run s b n) (map (\<lambda>j. i * 32 + j) js)"
  using assms(2)
proof (induction js)
  case Nil
  show ?case by simp
next
  case (Cons j js)
  from Cons.prems have "j < 32" by simp
  moreover have "free_run s (i * 32 + j) n \<Longrightarrow> \<not> block_used s (i * 32 + j)"
    using assms(1) by (auto simp: free_run_def)
  ultimately show ?case
    using Cons by (auto simp: free_count_eq_iff gecko_bits block_used_def)
qed

lemma word_row: "map (\<lambda>j. i * 32 + j) [0..<32] = [i * 32..<i * 32 + 32]" for i :: nat
  using map_add_upt [of "i * 32" 32] by (simp add: add.commute)

lemma full_word_no_run:
  assumes "memory_map s i = 0xFFFFFFFF" "0 < n"
  shows "find (\<lambda>b. free_run s b n) [i * 32..<i * 32 + 32] = None"
proof -
  from assms(1) have "\<forall>j < 32. bit (memory_map s i) j"
    using word_all_ones_iff [of "memory_map s i"] by simp
  then have "block_used s b" if "i * 32 \<le> b" "b < i * 32 + 32" for b
  proof -
    from that have "b div 32 = i" by auto
    then show ?thesis
      using \<open>\<forall>j < 32. bit (memory_map s i) j\<close> by (simp add: block_used_def)
  qed
  then show ?thesis
    using assms(2) by (auto simp: find_None_iff free_run_def)
qed

text \<open>The word-by-word search with its skip of full words is the linear search over
  the blocks of the complete words.\<close>

lemma scan_words_find:
  assumes "0 < n"
  shows "scan_words s n [k..<m] = find (\<lambda>b. free_run s b n) [k * 32..<m * 32]"
proof (cases "k \<le> m")
  case True
  then show ?thesis
  proof (induction k rule: inc_induct)
    case base
    show ?case by simp
  next
    case (step k)
    from step.hyps have rows: "[k * 32..<m * 32] = [k * 32..<k * 32 + 32] @ [Suc k * 32..<m * 32]"
      using upt_add_eq_append [of "k * 32" "k * 32 + 32" "(m - Suc k) * 32"]
      by (simp add: diff_mult_distrib add.commute)
    have bits: "scan_bits s n k [0..<32] = find (\<lambda>b. free_run s b n) [k * 32..<k * 32 + 32]"
      using scan_bits_find [OF assms, of "[0..<32]"] by (simp only: word_row) (simp add: atLeast0LessThan)
    have words: "scan_words s n [k..<m] = scan_words s n (k # [Suc k..<m])"
      using step.hyps by (simp add: upt_conv_Cons)
    show ?case
    proof (cases "memory_map s k = 0xFFFFFFFF")
      case True
      show ?thesis
        unfolding rows find_append words scan_words.simps full_word_no_run [OF True assms]
        using True step.IH by simp
    next
      case False
      then show ?thesis
        unfolding rows find_append words scan_words.simps bits step.IH
        by (simp add: option.case_eq_if)
    qed
  qed
next
  case False
  then show ?thesis by simp
qed

lemma find_first_free_blocks_eq:
  assumes "n \<noteq> 0"
  shows "find_first_free_blocks n s =
     (case find (\<lambda>b. free_run s b (unat n)) [0..<unat (max_blocks s) div 32 * 32] of
        None \<Rightarrow> - 1 | Some b \<Rightarrow> of_nat b)"
proof -
  from assms have "0 < unat n" by (simp add: unat_gt_0)
  from scan_words_find [OF this, of s 0] assms show ?thesis
    by (simp add: find_first_free_blocks_def)
qed

section \<open>Regions mark exactly their blocks\<close>

lemma word_test_block:
  "memory_map s (unat (b div 32)) AND push_bit (unat (b mod 32)) 1 = 0 \<longleftrightarrow> \<not> block_used s (unat b)"
  for b :: u64
  by (simp add: gecko_bits block_used_def unat_mod)

lemma unat_ucast_small:
  assumes "b < max_blocks s" "unat (max_blocks s) \<le> 2 ^ 32"
  shows "unat (ucast b :: u32) = unat b"
proof -
  from assms have "unat b < 2 ^ 32" by (simp add: word_less_nat_alt)
  then show ?thesis by (simp add: unsigned_ucast_eq take_bit_nat_eq_self)
qed

lemma reserve_one_alt:
  "reserve_one b s =
     (if block_used s (unat b) then s
      else (set_block (ucast b) s)\<lparr>used_blocks := used_blocks s + 1\<rparr>)"
  unfolding reserve_one_def word_test_block by simp

lemma free_one_alt:
  "free_one b s =
     (if block_used s (unat b)
      then (unset_block (ucast b) s)\<lparr>used_blocks := used_blocks s - 1\<rparr> else s)"
  unfolding free_one_def word_test_block by simp

lemma reserve_one_fields [simp]: "max_blocks (reserve_one b s) = max_blocks s"
  by (simp add: reserve_one_def)

lemma free_one_fields [simp]: "max_blocks (free_one b s) = max_blocks s"
  by (simp add: free_one_def)

lemma reserve_loop_fields [simp]: "max_blocks (reserve_loop n b s) = max_blocks s"
  by (induction n b s rule: reserve_loop.induct) simp_all

lemma free_loop_fields [simp]: "max_blocks (free_loop n b s) = max_blocks s"
  by (induction n b s rule: free_loop.induct) simp_all

lemma used_set_reserve_one:
  assumes "b < max_blocks s" "unat (max_blocks s) \<le> 2 ^ 32"
  shows "used_set (reserve_one b s) = insert (unat b) (used_set s)"
  using assms unat_ucast_small [OF assms]
  by (auto simp: reserve_one_alt used_set_set_block word_less_nat_alt)
    (auto simp: used_set_def)

lemma used_set_free_one:
  assumes "b < max_blocks s" "unat (max_blocks s) \<le> 2 ^ 32"
  shows "used_set (free_one b s) = used_set s - {unat b}"
  using unat_ucast_small [OF assms]
  by (auto simp: free_one_alt used_set_unset_block) (auto simp: used_set_def)

lemma used_blocks_reserve_one:
  "used_blocks (reserve_one b s) =
     (if block_used s (unat b) then used_blocks s else used_blocks s + 1)"
  by (simp add: reserve_one_alt)

lemma used_blocks_free_one:
  "used_blocks (free_one b s) =
     (if block_used s (unat b) then used_blocks s - 1 else used_blocks s)"
  by (simp add: free_one_alt)

lemma unat_Suc_bounded:
  fixes b m :: u64
  assumes "b < m"
  shows "unat (b + 1) = Suc (unat b)"
proof -
  from assms have "unat b + 1 < 2 ^ 64"
    using unsigned_less [of m, where 'a = nat] by (simp add: word_less_nat_alt)
  then show ?thesis by (simp add: unat_word_ariths)
qed

text \<open>\<open>reserve_loop\<close> marks exactly the existing blocks of the range and counts each
  newly marked block once; \<open>free_loop\<close> is its mirror image.\<close>

lemma used_set_reserve_loop:
  assumes "unat (max_blocks s) \<le> 2 ^ 32"
  shows "used_set (reserve_loop n b s) =
     used_set s \<union> {c. unat b \<le> c \<and> c < unat b + n \<and> c < unat (max_blocks s)}"
  using assms
proof (induction n b s rule: reserve_loop.induct)
  case (1 b s)
  show ?case by auto
next
  case (2 n b s)
  show ?case
  proof (cases "b < max_blocks s")
    case True
    have "used_set (reserve_loop n (b + 1) (reserve_one b s)) = insert (unat b) (used_set s) \<union>
        {c. Suc (unat b) \<le> c \<and> c < Suc (unat b) + n \<and> c < unat (max_blocks s)}"
      using "2.IH" [OF True] "2.prems"
      by (simp add: used_set_reserve_one [OF True] unat_Suc_bounded [OF True])
    moreover have "unat b < unat (max_blocks s)" using True by (simp add: word_less_nat_alt)
    ultimately show ?thesis using True by (simp add: set_eq_iff) linarith
  next
    case False
    then show ?thesis by (auto simp: word_less_nat_alt)
  qed
qed

lemma used_set_free_loop:
  assumes "unat (max_blocks s) \<le> 2 ^ 32"
  shows "used_set (free_loop n b s) = used_set s - {c. unat b \<le> c \<and> c < unat b + n}"
  using assms
proof (induction n b s rule: free_loop.induct)
  case (1 b s)
  show ?case by auto
next
  case (2 n b s)
  show ?case
  proof (cases "b < max_blocks s")
    case True
    have "used_set (free_loop n (b + 1) (free_one b s)) = used_set s - {unat b} -
        {c. Suc (unat b) \<le> c \<and> c < Suc (unat b) + n}"
      using "2.IH" [OF True] "2.prems"
      by (simp add: used_set_free_one [OF True] unat_Suc_bounded [OF True])
    then show ?thesis using True by (simp add: set_eq_iff) linarith
  next
    case False
    then show ?thesis by (auto simp: word_less_nat_alt used_set_def)
  qed
qed

lemma reserve_one_inv [gecko_wf]:
  assumes "b < max_blocks s" "unat (max_blocks s) \<le> 2 ^ 32" "pmm_inv s"
  shows "pmm_inv (reserve_one b s)"
proof (cases "block_used s (unat b)")
  case True
  with assms(1) have "unat b \<in> used_set s" by (simp add: used_set_def word_less_nat_alt)
  with True assms show ?thesis
    by (simp add: pmm_inv_def used_set_reserve_one used_blocks_reserve_one insert_absorb)
next
  case False
  then have "unat b \<notin> used_set s" by (simp add: used_set_def)
  with False assms show ?thesis
    by (simp add: pmm_inv_def used_set_reserve_one used_blocks_reserve_one)
qed

lemma free_one_inv [gecko_wf]:
  assumes "b < max_blocks s" "unat (max_blocks s) \<le> 2 ^ 32" "pmm_inv s"
  shows "pmm_inv (free_one b s)"
proof (cases "block_used s (unat b)")
  case True
  with assms(1) have "unat b \<in> used_set s" by (simp add: used_set_def word_less_nat_alt)
  then have "card (used_set s) = Suc (card (used_set s - {unat b}))"
    by (metis card_Suc_Diff1 finite_used_set)
  with True assms show ?thesis
    by (simp add: pmm_inv_def used_set_free_one used_blocks_free_one)
next
  case False
  then have "unat b \<notin> used_set s" by (simp add: used_set_def)
  with False assms show ?thesis
    by (simp add: pmm_inv_def used_set_free_one used_blocks_free_one)
qed

lemma reserve_loop_inv [gecko_wf]:
  "unat (max_blocks s) \<le> 2 ^ 32 \<Longrightarrow> pmm_inv s \<Longrightarrow> pmm_inv (reserve_loop n b s)"
  by (induction n b s rule: reserve_loop.induct) (simp_all add: reserve_one_inv)

lemma free_loop_inv [gecko_wf]:
  "unat (max_blocks s) \<le> 2 ^ 32 \<Longrightarrow> pmm_inv s \<Longrightarrow> pmm_inv (free_loop n b s)"
  by (induction n b s rule: free_loop.induct) (simp_all add: free_one_inv)

section \<open>Allocation and release of runs\<close>

lemma set_loop_fields [simp]:
  "max_blocks (set_loop n b s) = max_blocks s"
  "used_blocks (set_loop n b s) = used_blocks s"
  by (induction n b s rule: set_loop.induct) simp_all

lemma unset_loop_fields [simp]:
  "max_blocks (unset_loop n b s) = max_blocks s"
  "used_blocks (unset_loop n b s) = used_blocks s"
  by (induction n b s rule: unset_loop.induct) simp_all

lemma unat_Suc_u32:
  fixes b :: u32
  assumes "Suc (unat b) < 2 ^ 32"
  shows "unat (b + 1) = Suc (unat b)"
  using assms by (simp add: unat_word_ariths)

lemma used_set_set_loop:
  assumes "unat b + n \<le> unat (max_blocks s)" "unat (max_blocks s) < 2 ^ 32"
  shows "used_set (set_loop n b s) = used_set s \<union> {unat b..<unat b + n}"
  using assms
proof (induction n b s rule: set_loop.induct)
  case (1 b s)
  show ?case by simp
next
  case (2 n b s)
  from "2.prems" have b: "unat b < unat (max_blocks s)" and S: "unat (b + 1) = Suc (unat b)"
    by (simp_all add: unat_Suc_u32)
  have "used_set (set_loop n (b + 1) (set_block b s)) =
      insert (unat b) (used_set s) \<union> {Suc (unat b)..<Suc (unat b) + n}"
    using "2.IH" "2.prems" b by (simp add: S used_set_set_block)
  then show ?case by (simp add: set_eq_iff) linarith
qed

lemma used_set_unset_loop:
  assumes "unat b + n \<le> unat (max_blocks s)" "unat (max_blocks s) < 2 ^ 32"
  shows "used_set (unset_loop n b s) = used_set s - {unat b..<unat b + n}"
  using assms
proof (induction n b s rule: unset_loop.induct)
  case (1 b s)
  show ?case by simp
next
  case (2 n b s)
  from "2.prems" have S: "unat (b + 1) = Suc (unat b)" by (simp add: unat_Suc_u32)
  have "used_set (unset_loop n (b + 1) (unset_block b s)) =
      used_set s - {unat b} - {Suc (unat b)..<Suc (unat b) + n}"
    using "2.IH" "2.prems" by (simp add: S used_set_unset_block)
  then show ?case by (simp add: set_eq_iff) linarith
qed

text \<open>The search as a partial function on block numbers: the lowest run of \<open>n\<close> free
  blocks that starts in a complete bitmap word.\<close>

definition first_fit :: "nat \<Rightarrow> pmm \<Rightarrow> nat option" where
  "first_fit n s =
     (if n = 0 then None else find (\<lambda>b. free_run s b n) [0..<unat (max_blocks s) div 32 * 32])"

lemma first_fit_Some_iff:
  "first_fit n s = Some b \<longleftrightarrow>
     0 < n \<and> b < unat (max_blocks s) div 32 * 32 \<and> free_run s b n \<and> (\<forall>c < b. \<not> free_run s c n)"
  by (auto simp: first_fit_def find_upt_Some_iff)

lemma first_fit_None_iff:
  "first_fit n s = None \<longleftrightarrow>
     n = 0 \<or> (\<forall>b < unat (max_blocks s) div 32 * 32. \<not> free_run s b n)"
  by (auto simp: first_fit_def find_upt_None_iff)

lemma find_first_free_blocks_first_fit:
  "find_first_free_blocks n s =
     (case first_fit (unat n) s of None \<Rightarrow> - 1 | Some b \<Rightarrow> of_nat b)"
proof (cases "n = 0")
  case True
  then show ?thesis by (simp add: first_fit_def find_first_free_blocks_def)
next
  case False
  then show ?thesis by (simp add: find_first_free_blocks_eq first_fit_def unat_eq_0)
qed

lemma of_nat_not_minus_one:
  assumes "b < 2 ^ 31"
  shows "(of_nat b :: u32) \<noteq> - 1"
proof
  assume "(of_nat b :: u32) = - 1"
  then have "bit (of_nat b :: u32) 31" by simp
  with assms show False by (simp add: bit_of_nat_iff bit_nat_def)
qed

text \<open>With at most \<open>2 ^ 31\<close> blocks (8 TiB) the \<open>int32_t\<close> start block is exact, and
  allocation is the first-fit search followed by the marking of the run.\<close>

lemma allocate_blocks_first_fit:
  assumes "unat (max_blocks s) \<le> 2 ^ 31"
  shows "allocate_blocks n s =
     (if max_blocks s - used_blocks s \<le> ucast n then (0, s)
      else case first_fit (unat n) s of
             None \<Rightarrow> (0, s)
           | Some b \<Rightarrow> (of_nat b * BLOCK_SIZE,
               (set_loop (unat n) (of_nat b) s)\<lparr>used_blocks := used_blocks s + ucast n\<rparr>))"
proof (cases "first_fit (unat n) s")
  case None
  then show ?thesis
    by (simp add: allocate_blocks_def find_first_free_blocks_first_fit)
next
  case (Some b)
  then have "b < unat (max_blocks s)"
    by (auto simp: first_fit_Some_iff free_run_def)
  with assms have "b < 2 ^ 31" by simp
  with Some show ?thesis
    by (simp add: allocate_blocks_def find_first_free_blocks_first_fit Let_def
        scast_of_nat_small of_nat_not_minus_one)
qed

lemma free_run_disjoint: "free_run s b n \<Longrightarrow> used_set s \<inter> {b..<b + n} = {}"
  by (auto simp: free_run_def used_set_def)

lemma free_run_bound: "free_run s b n \<Longrightarrow> 0 < n \<Longrightarrow> b + n \<le> unat (max_blocks s)"
  by (drule free_run_def [THEN iffD1, THEN spec, of _ _ _ "b + n - 1"]) auto

lemma allocate_run:
  assumes small: "unat (max_blocks s) \<le> 2 ^ 31" and fit: "first_fit (unat n) s = Some b"
  defines "s' \<equiv> (set_loop (unat n) (of_nat b) s)\<lparr>used_blocks := used_blocks s + ucast n\<rparr>"
  shows "used_set s' = used_set s \<union> {b..<b + unat n}" and "pmm_inv s \<Longrightarrow> pmm_inv s'"
    and "max_blocks s' = max_blocks s"
proof -
  from fit have run: "free_run s b (unat n)" and n: "0 < unat n"
    by (simp_all add: first_fit_Some_iff)
  then have bound: "b + unat n \<le> unat (max_blocks s)" by (rule free_run_bound)
  with small n have ub: "unat (of_nat b :: u32) = b"
    by (intro unat_of_nat_small) simp
  show used: "used_set s' = used_set s \<union> {b..<b + unat n}"
    using used_set_set_loop [of "of_nat b" "unat n" s] ub bound small by (simp add: s'_def)
  have "card (used_set s') = card (used_set s) + unat n"
    unfolding used using card_Un_disjoint [OF _ _ free_run_disjoint [OF run]] by simp
  then show "pmm_inv s \<Longrightarrow> pmm_inv s'"
    by (simp add: pmm_inv_def s'_def)
  show "max_blocks s' = max_blocks s" by (simp add: s'_def)
qed

section \<open>The frame allocator interface\<close>

text \<open>What the clients of the allocator (page tables, address spaces) rely on: a
  frame handed out is page-aligned, non-null and was not in use, exactly that
  frame becomes used, and a failing call changes nothing.\<close>

locale frame_allocator =
  fixes alloc :: "'s \<Rightarrow> u64 \<times> 's"
    and used :: "'s \<Rightarrow> nat set"
    and inv :: "'s \<Rightarrow> bool"
  assumes alloc_aligned: "inv s \<Longrightarrow> alloc s = (a, s') \<Longrightarrow> unat a mod 4096 = 0"
    and alloc_bound: "inv s \<Longrightarrow> alloc s = (a, s') \<Longrightarrow> unat a < 2 ^ 52"
    and alloc_fresh: "inv s \<Longrightarrow> alloc s = (a, s') \<Longrightarrow> a \<noteq> 0 \<Longrightarrow> unat a div 4096 \<notin> used s"
    and alloc_used: "inv s \<Longrightarrow> alloc s = (a, s') \<Longrightarrow> a \<noteq> 0 \<Longrightarrow>
          used s' = insert (unat a div 4096) (used s)"
    and alloc_null: "inv s \<Longrightarrow> alloc s = (0, s') \<Longrightarrow> s' = s"
    and alloc_inv: "inv s \<Longrightarrow> alloc s = (a, s') \<Longrightarrow> inv s'"
begin

lemma alloc_used_mono: "inv s \<Longrightarrow> alloc s = (a, s') \<Longrightarrow> used s \<subseteq> used s'"
  by (cases "a = 0") (auto dest: alloc_null alloc_used)

text \<open>Two successive frames are different.\<close>

lemma alloc_twice_distinct:
  assumes "inv s" "alloc s = (a, s1)" "alloc s1 = (b, s2)" "a \<noteq> 0" "b \<noteq> 0"
  shows "a \<noteq> b"
  using alloc_used [OF assms(1,2,4)] alloc_fresh [OF alloc_inv [OF assms(1,2)] assms(3,5)]
  by auto

end

definition frames_ok :: "pmm \<Rightarrow> bool" where
  "frames_ok s \<longleftrightarrow> pmm_inv s \<and> unat (max_blocks s) \<le> 2 ^ 31 \<and> 0 \<in> used_set s"

lemma unat_block_address:
  assumes "b < 2 ^ 31"
  shows "unat (of_nat b * BLOCK_SIZE) = b * 4096"
proof -
  from assms have "unat (of_nat b :: u64) = b" by (intro unat_of_nat_small) simp
  with assms show ?thesis by (simp add: BLOCK_SIZE_def unat_word_ariths)
qed

text \<open>The two outcomes of a single-frame request.\<close>

lemma allocate_one_cases:
  assumes "frames_ok s" "allocate_blocks 1 s = (a, s')"
  obtains (null) "a = 0" "s' = s"
  | (frame) b where "first_fit 1 s = Some b" "a = of_nat b * BLOCK_SIZE" "unat a = b * 4096"
      "0 < b" "b < 2 ^ 31" "b \<notin> used_set s" "used_set s' = insert b (used_set s)" "frames_ok s'"
proof -
  from assms have small: "unat (max_blocks s) \<le> 2 ^ 31" by (simp add: frames_ok_def)
  show thesis
  proof (cases "max_blocks s - used_blocks s \<le> 1 \<or> first_fit 1 s = None")
    case True
    with assms(2) show thesis
      by (intro null) (auto simp: allocate_blocks_first_fit [OF small] split: if_splits)
  next
    case False
    then obtain b where fit: "first_fit (unat (1::u32)) s = Some b" by auto
    then have run: "free_run s b 1" by (simp add: first_fit_Some_iff)
    then have free: "b \<notin> used_set s" "b < unat (max_blocks s)"
      by (auto simp: free_run_def used_set_def)
    from False fit assms(2) have a: "a = of_nat b * BLOCK_SIZE"
      and s': "s' = (set_loop (unat (1::u32)) (of_nat b) s)\<lparr>used_blocks := used_blocks s + ucast (1::u32)\<rparr>"
      by (auto simp: allocate_blocks_first_fit [OF small])
    note alloc = allocate_run [OF small fit, folded s']
    have "b < 2 ^ 31" "0 < b"
      using free small assms(1) by (auto simp: frames_ok_def intro: gr0I)
    moreover have "used_set s' = insert b (used_set s)" using alloc(1) by simp
    moreover have "frames_ok s'" using alloc assms(1) by (simp add: frames_ok_def)
    ultimately show thesis
      using fit a free unat_block_address [of b] by (intro frame) simp_all
  qed
qed

interpretation pf: frame_allocator "allocate_blocks 1" used_set frames_ok
proof
  fix s a s'
  assume s: "frames_ok s" and c: "allocate_blocks 1 s = (a, s')"
  show "unat a mod 4096 = 0" "unat a < 2 ^ 52" "frames_ok s'"
    by (rule allocate_one_cases [OF s c]; use s in simp)+
  show "a \<noteq> 0 \<Longrightarrow> unat a div 4096 \<notin> used_set s"
    "a \<noteq> 0 \<Longrightarrow> used_set s' = insert (unat a div 4096) (used_set s)"
    by (rule allocate_one_cases [OF s c]; simp)+
next
  fix s s'
  assume s: "frames_ok s" and c: "allocate_blocks 1 s = (0, s')"
  show "s' = s"
    by (rule allocate_one_cases [OF s c]) (simp_all add: unat_eq_0 [symmetric] del: unat_eq_0)
qed

section \<open>Allocation and release undo each other\<close>

lemma block_used_set_loop:
  assumes "unat b + n \<le> unat (max_blocks s)" "unat (max_blocks s) < 2 ^ 32"
  shows "block_used (set_loop n b s) c \<longleftrightarrow> block_used s c \<or> (unat b \<le> c \<and> c < unat b + n)"
  using assms
proof (induction n b s rule: set_loop.induct)
  case (1 b s)
  show ?case by auto
next
  case (2 n b s)
  from "2.prems" have S: "unat (b + 1) = Suc (unat b)" by (simp add: unat_Suc_u32)
  have "block_used (set_loop n (b + 1) (set_block b s)) c \<longleftrightarrow>
      (block_used s c \<or> c = unat b) \<or> (Suc (unat b) \<le> c \<and> c < Suc (unat b) + n)"
    using "2.IH" "2.prems" by (simp add: S block_used_set_block)
  then show ?case by simp linarith
qed

lemma block_used_unset_loop:
  assumes "unat b + n \<le> unat (max_blocks s)" "unat (max_blocks s) < 2 ^ 32"
  shows "block_used (unset_loop n b s) c \<longleftrightarrow> block_used s c \<and> \<not> (unat b \<le> c \<and> c < unat b + n)"
  using assms
proof (induction n b s rule: unset_loop.induct)
  case (1 b s)
  show ?case by auto
next
  case (2 n b s)
  from "2.prems" have S: "unat (b + 1) = Suc (unat b)" by (simp add: unat_Suc_u32)
  have "block_used (unset_loop n (b + 1) (unset_block b s)) c \<longleftrightarrow>
      (block_used s c \<and> c \<noteq> unat b) \<and> \<not> (Suc (unat b) \<le> c \<and> c < Suc (unat b) + n)"
    using "2.IH" "2.prems" by (auto simp: S block_used_unset_block)
  then show ?case by simp linarith
qed

lemma memory_map_eqI:
  assumes "\<And>b. block_used s b \<longleftrightarrow> block_used t b"
  shows "memory_map s = memory_map t"
proof (rule ext, rule bit_eqI)
  fix i j assume "possible_bit TYPE(32 word) j"
  then have "j < 32" by simp
  then show "bit (memory_map s i) j = bit (memory_map t i) j"
    using assms [of "i * 32 + j"] by (simp add: block_used_def)
qed

lemma set_loop_more [simp]:
  "bitmap_base (set_loop n b s) = bitmap_base s"
  "bitmap_size_blocks (set_loop n b s) = bitmap_size_blocks s"
  by (induction n b s rule: set_loop.induct) (simp_all add: set_block_def)

lemma unset_loop_more [simp]:
  "bitmap_base (unset_loop n b s) = bitmap_base s"
  "bitmap_size_blocks (unset_loop n b s) = bitmap_size_blocks s"
  by (induction n b s rule: unset_loop.induct) (simp_all add: unset_block_def)

lemma block_address_div:
  assumes "b < 2 ^ 31"
  shows "(ucast ((of_nat b * BLOCK_SIZE) div BLOCK_SIZE) :: u32) = of_nat b"
proof -
  have "unat ((of_nat b * BLOCK_SIZE) div BLOCK_SIZE) = b"
    using unat_block_address [OF assms] by (simp add: BLOCK_SIZE_def)
  then have "(of_nat b * BLOCK_SIZE) div BLOCK_SIZE = of_nat b"
    by (metis of_nat_unat ucast_id)
  then show ?thesis using assms by (simp add: unsigned_of_nat take_bit_nat_eq_self)
qed

lemma not_sless_0_small:
  assumes "b < 2 ^ 31"
  shows "\<not> (of_nat b :: u32) <s 0"
  using assms by (simp add: word_sless_alt signed_of_nat signed_take_bit_int_eq_self)

text \<open>A successful allocation in terms of the first fit.\<close>

lemma allocate_blocks_Some:
  assumes "frames_ok s" "allocate_blocks n s = (a, s')" "a \<noteq> 0"
  obtains b where "first_fit (unat n) s = Some b" "a = of_nat b * BLOCK_SIZE"
    "b + unat n \<le> unat (max_blocks s)" "b < 2 ^ 31"
    "s' = (set_loop (unat n) (of_nat b) s)\<lparr>used_blocks := used_blocks s + ucast n\<rparr>"
proof -
  from assms(1) have small: "unat (max_blocks s) \<le> 2 ^ 31" by (simp add: frames_ok_def)
  from assms(2,3) obtain b where b: "first_fit (unat n) s = Some b" "a = of_nat b * BLOCK_SIZE"
    "s' = (set_loop (unat n) (of_nat b) s)\<lparr>used_blocks := used_blocks s + ucast n\<rparr>"
    by (auto simp: allocate_blocks_first_fit [OF small] split: if_splits option.splits)
  from b(1) have "b + unat n \<le> unat (max_blocks s)" "0 < unat n"
    by (auto simp: first_fit_Some_iff free_run_bound)
  then show thesis using that b small by simp
qed

lemma allocate_blocks_spec:
  assumes "frames_ok s" "allocate_blocks n s = (a, s')" "a \<noteq> 0"
  shows "\<exists>b. unat a = b * 4096 \<and> 0 < unat n \<and> b + unat n \<le> unat (max_blocks s) \<and>
     used_set s \<inter> {b..<b + unat n} = {} \<and> (\<forall>c < b. \<not> free_run s c (unat n)) \<and>
     used_set s' = used_set s \<union> {b..<b + unat n} \<and> frames_ok s'"
  using assms
proof (rule allocate_blocks_Some)
  fix b assume b: "first_fit (unat n) s = Some b" "a = of_nat b * BLOCK_SIZE"
    "b + unat n \<le> unat (max_blocks s)" "b < 2 ^ 31"
    "s' = (set_loop (unat n) (of_nat b) s)\<lparr>used_blocks := used_blocks s + ucast n\<rparr>"
  from assms(1) have small: "unat (max_blocks s) \<le> 2 ^ 31" by (simp add: frames_ok_def)
  note run = allocate_run [OF small b(1), folded b(5)]
  show ?thesis
    using assms(1) b run unat_block_address [OF b(4)] free_run_disjoint
    by (intro exI [of _ b]) (auto simp: first_fit_Some_iff frames_ok_def)
qed

section \<open>Properties\<close>

text \<open>C1. A successful \<open>allocate_blocks\<close> returns the address of a run of \<open>n\<close> existing
  blocks none of which was in use, it is the lowest such run, exactly these blocks
  become used, and the counter stays equal to the number of used blocks.\<close>

theorem allocate_blocks_sound:
  assumes "frames_ok s" "allocate_blocks n s = (a, s')" "a \<noteq> 0"
  shows "\<exists>b. unat a = b * 4096 \<and> 0 < unat n \<and> b + unat n \<le> unat (max_blocks s) \<and>
     used_set s \<inter> {b..<b + unat n} = {} \<and> (\<forall>c < b. \<not> free_run s c (unat n)) \<and>
     used_set s' = used_set s \<union> {b..<b + unat n} \<and> frames_ok s'"
  by (rule allocate_blocks_spec [OF assms])

lemma allocate_null_iff:
  assumes "frames_ok s"
  shows "(fst (allocate_blocks n s) = 0 \<longleftrightarrow>
      unat (max_blocks s) - card (used_set s) \<le> unat n \<or> n = 0 \<or>
      (\<forall>b < unat (max_blocks s) div 32 * 32. \<not> free_run s b (unat n))) \<and>
     (fst (allocate_blocks n s) = 0 \<longrightarrow> snd (allocate_blocks n s) = s)"
proof -
  from assms have small: "unat (max_blocks s) \<le> 2 ^ 31" by (simp add: frames_ok_def)
  have "used_blocks s \<le> max_blocks s"
    using assms card_used_set_le [of s] small
    by (simp add: frames_ok_def pmm_inv_def word_le_nat_alt unat_of_nat_small)
  then have "unat (max_blocks s - used_blocks s) = unat (max_blocks s) - card (used_set s)"
    using assms card_used_set_le [of s] small
    by (simp add: frames_ok_def pmm_inv_def unat_sub unat_of_nat_small)
  then have few: "max_blocks s - used_blocks s \<le> ucast n \<longleftrightarrow>
      unat (max_blocks s) - card (used_set s) \<le> unat n"
    by (simp add: word_le_nat_alt)
  show ?thesis
  proof (cases "first_fit (unat n) s")
    case None
    note no_fit = None [unfolded first_fit_None_iff unat_eq_0]
    show ?thesis
      using no_fit by (auto simp: allocate_blocks_first_fit [OF small] few None)
  next
    case (Some b)
    then have "0 < b" "b < unat (max_blocks s)" "0 < unat n"
      using assms by (auto simp: first_fit_Some_iff free_run_def frames_ok_def used_set_def intro: gr0I)
    moreover from this have "of_nat b * BLOCK_SIZE \<noteq> 0"
      using unat_block_address [of b] small by (auto simp: unat_eq_0 [symmetric] simp del: unat_eq_0)
    moreover note fit = Some [unfolded first_fit_Some_iff]
    ultimately show ?thesis
      by (auto simp: allocate_blocks_first_fit [OF small] few Some)
  qed
qed

text \<open>C2. \<open>allocate_blocks\<close> fails exactly when no more than \<open>n\<close> blocks are free, when \<open>n\<close>
  is \<open>0\<close>, or when no run of \<open>n\<close> free blocks starts in a complete 32-block bitmap word; a
  failing call leaves the state unchanged.\<close>

theorem allocate_blocks_fails_iff:
  assumes "frames_ok s"
  shows "(fst (allocate_blocks n s) = 0 \<longleftrightarrow>
      unat (max_blocks s) - card (used_set s) \<le> unat n \<or> n = 0 \<or>
      (\<forall>b < unat (max_blocks s) div 32 * 32. \<not> free_run s b (unat n))) \<and>
     (fst (allocate_blocks n s) = 0 \<longrightarrow> snd (allocate_blocks n s) = s)"
  using assms by (rule allocate_null_iff)

text \<open>C6. \<open>free_blocks\<close> applied to what \<open>allocate_blocks\<close> returned restores the state before
  the allocation: bitmap, counter and all other fields.\<close>

theorem free_after_allocate:
  assumes "frames_ok s" "allocate_blocks n s = (a, s')" "a \<noteq> 0"
  shows "free_blocks a n s' = s"
  using assms
proof (rule allocate_blocks_Some)
  fix b assume b: "first_fit (unat n) s = Some b" "a = of_nat b * BLOCK_SIZE"
    "b + unat n \<le> unat (max_blocks s)" "b < 2 ^ 31"
    "s' = (set_loop (unat n) (of_nat b) s)\<lparr>used_blocks := used_blocks s + ucast n\<rparr>"
  from assms(1) have small: "unat (max_blocks s) < 2 ^ 32" by (simp add: frames_ok_def)
  have ub: "unat (of_nat b :: u32) = b" using b(4) by (intro unat_of_nat_small) simp
  have "unat (of_nat b + ucast n :: u64) = b + unat n"
    using b(3) small by (simp add: unat_word_ariths unat_of_nat_small)
  then have inside: "\<not> max_blocks s' < of_nat b + ucast n"
    using b(3) by (simp add: b(5) word_less_nat_alt)
  have free: "free_blocks a n s' = (unset_loop (unat n) (of_nat b) s')
      \<lparr>used_blocks := used_blocks s' - ucast n\<rparr>"
    using inside b(2) block_address_div [OF b(4)] not_sless_0_small [OF b(4)] scast_of_nat_small [OF b(4)]
    by (simp add: free_blocks_def Let_def)
  have "memory_map (unset_loop (unat n) (of_nat b) s') = memory_map s"
  proof (rule memory_map_eqI)
    fix c
    have run: "free_run s b (unat n)" using b(1) by (simp add: first_fit_Some_iff)
    have "block_used (unset_loop (unat n) (of_nat b) s') c \<longleftrightarrow>
        block_used s' c \<and> \<not> (b \<le> c \<and> c < b + unat n)"
      using block_used_unset_loop [of "of_nat b" "unat n" s' c] b(3) small ub by (simp add: b(5))
    also have "block_used s' c \<longleftrightarrow> block_used s c \<or> (b \<le> c \<and> c < b + unat n)"
      using block_used_set_loop [of "of_nat b" "unat n" s c] b(3) small ub by (simp add: b(5))
    finally show "block_used (unset_loop (unat n) (of_nat b) s') c \<longleftrightarrow> block_used s c"
      using run by (auto simp: free_run_def)
  qed
  then show ?thesis unfolding free by (simp add: b(5))
qed

section \<open>How many single frames can still be handed out\<close>

definition avail :: "pmm \<Rightarrow> nat" where
  "avail s = min (card ({..<unat (max_blocks s) div 32 * 32} - used_set s))
                 (unat (max_blocks s) - card (used_set s) - 1)"

lemma allocate_one_avail:
  assumes ok: "frames_ok s" and c: "allocate_blocks 1 s = (a, s')" and av: "0 < avail s"
  shows "a \<noteq> 0" and "avail s' = avail s - 1"
proof -
  from av have "{..<unat (max_blocks s) div 32 * 32} - used_set s \<noteq> {}"
    unfolding avail_def by (metis card.empty min_0L not_less0)
  then obtain b where b: "b < unat (max_blocks s) div 32 * 32" "b \<notin> used_set s" by blast
  then have "free_run s b 1" by (auto simp: free_run_def used_set_def le_less_Suc_eq)
  moreover have "\<not> unat (max_blocks s) - card (used_set s) \<le> 1"
    using av unfolding avail_def by linarith
  ultimately show a: "a \<noteq> 0"
    using allocate_null_iff [OF ok, of 1] b(1) c by auto
  show "avail s' = avail s - 1"
  proof (rule allocate_one_cases [OF ok c])
    fix c' assume c': "first_fit 1 s = Some c'" "unat a = c' * 4096" "c' \<notin> used_set s"
      "used_set s' = insert c' (used_set s)"
    from c' have "c' < unat (max_blocks s) div 32 * 32" by (simp add: first_fit_Some_iff)
    moreover have "max_blocks s' = max_blocks s"
      using c ok by (auto simp: frames_ok_def allocate_blocks_first_fit split: if_splits option.splits)
    moreover have "{..<n} - insert c' U = ({..<n} - U) - {c'}" for n and U :: "nat set" by blast
    ultimately show ?thesis
      using c' by (simp add: avail_def min_diff card_Diff_singleton)
  qed (use a in simp)
qed

section \<open>Witnesses\<close>

text \<open>A machine with 64 blocks of which only block 0 is in use.\<close>

definition small_pmm :: pmm where
  "small_pmm = \<lparr>memory_map = (\<lambda>i. if i = 0 then 1 else 0), max_blocks = 64, used_blocks = 1,
     bitmap_base = 0x1000, bitmap_size_blocks = 1\<rparr>"

lemma small_pmm_block: "block_used small_pmm b \<longleftrightarrow> b = 0"
  using block_index_split [of b 0] by (auto simp: block_used_def small_pmm_def bit_1_iff)

lemma small_pmm_used: "used_set small_pmm = {0}"
  by (auto simp: used_set_def small_pmm_block) (simp add: small_pmm_def)

lemma small_pmm_ok: "frames_ok small_pmm"
  by (simp add: frames_ok_def pmm_inv_def small_pmm_used) (simp add: small_pmm_def)

lemma small_pmm_fit: "first_fit 2 small_pmm = Some 1"
  by (auto simp: first_fit_Some_iff free_run_def small_pmm_block) (auto simp: small_pmm_def)

lemma small_pmm_alloc: "fst (allocate_blocks 2 small_pmm) = 4096"
  using small_pmm_fit small_pmm_ok
  by (simp add: frames_ok_def allocate_blocks_first_fit) (simp add: small_pmm_def BLOCK_SIZE_def)

lemma small_pmm_alloc_pair: "allocate_blocks 2 small_pmm = (4096, snd (allocate_blocks 2 small_pmm))"
  by (metis prod.collapse small_pmm_alloc)

theorem allocate_blocks_sound_witness:
  "\<exists>b. unat (4096 :: u64) = b * 4096 \<and> 0 < unat (2 :: u32) \<and>
     b + unat (2 :: u32) \<le> unat (max_blocks small_pmm) \<and>
     used_set small_pmm \<inter> {b..<b + unat (2 :: u32)} = {} \<and>
     (\<forall>c < b. \<not> free_run small_pmm c (unat (2 :: u32))) \<and>
     used_set (snd (allocate_blocks 2 small_pmm)) = used_set small_pmm \<union> {b..<b + unat (2 :: u32)} \<and>
     frames_ok (snd (allocate_blocks 2 small_pmm))"
  by (rule allocate_blocks_sound [OF small_pmm_ok small_pmm_alloc_pair]) simp

theorem allocate_blocks_fails_iff_witness:
  "fst (allocate_blocks 0 small_pmm) = 0 \<and> snd (allocate_blocks 0 small_pmm) = small_pmm"
  using allocate_blocks_fails_iff [OF small_pmm_ok, of 0] by simp

theorem free_after_allocate_witness:
  "free_blocks 4096 2 (snd (allocate_blocks 2 small_pmm)) = small_pmm"
  by (rule free_after_allocate [OF small_pmm_ok small_pmm_alloc_pair]) simp

end
