(* ===== verification/Pmm_Boot.thy ===== *)
theory Pmm_Boot
  imports Phys_Mem
begin

unbundle bit_operations_syntax

text \<open>
  Boot-time set-up of the physical memory manager from the Multiboot2 information
  structure (\<open>initialize_memory_manager_from_mbi\<close> in
  \<open>kernel/mem/physical_mem/physical_mem.c\<close>). The bitmap lies in the same RAM the
  Multiboot2 structure is read from, so every read goes through a view of RAM that
  shows the bitmap's current contents.
\<close>

section \<open>RAM with the bitmap in it\<close>

definition ram_view :: "ram \<Rightarrow> pmm \<Rightarrow> ram" where
  "ram_view m s a =
     (if bitmap_base s \<le> a
      then ucast (drop_bit (8 * (unat (a - bitmap_base s) mod 4))
             (memory_map s (unat (a - bitmap_base s) div 4)))
      else m a)"

text \<open>\<open>memset\<close> of the first \<open>n\<close> bytes of the bitmap to \<open>0xFF\<close>.\<close>

definition memset_map :: "u64 \<Rightarrow> (nat \<Rightarrow> u32) \<Rightarrow> nat \<Rightarrow> u32" where
  "memset_map n f i = f i OR mask (8 * min 4 (unat n - 4 * i))"

section \<open>Walking the Multiboot2 tags\<close>

definition MULTIBOOT2_TAG_TYPE_END :: u32 where
  "MULTIBOOT2_TAG_TYPE_END = 0"

definition MULTIBOOT2_TAG_TYPE_MMAP :: u32 where
  "MULTIBOOT2_TAG_TYPE_MMAP = 6"

definition MULTIBOOT2_MEMORY_AVAILABLE :: u32 where
  "MULTIBOOT2_MEMORY_AVAILABLE = 1"

text \<open>The loop over the entries of one memory-map tag. A zero \<open>entry_size\<close> makes the
  C loop run forever, which is the result \<open>None\<close>.\<close>

partial_function (option) free_entries :: "ram \<Rightarrow> u64 \<Rightarrow> u64 \<Rightarrow> pmm \<Rightarrow> pmm option" where
  "free_entries m tag entry s =
     (if entry < tag + ucast (load32 (ram_view m s) (tag + 4))
      then let s' = (if load32 (ram_view m s) (entry + 16) = MULTIBOOT2_MEMORY_AVAILABLE
                     then free_region (load64 (ram_view m s) entry)
                            (load64 (ram_view m s) (entry + 8)) s
                     else s)
           in free_entries m tag (entry + ucast (load32 (ram_view m s') (tag + 8))) s'
      else Some s)"

text \<open>The loop over the tags; a tag of size \<open>0\<close> makes it run forever.\<close>

partial_function (option) free_tags :: "ram \<Rightarrow> u64 \<Rightarrow> u64 \<Rightarrow> pmm \<Rightarrow> pmm option" where
  "free_tags m mbi_end tag s =
     (if tag < mbi_end \<and> load32 (ram_view m s) tag \<noteq> MULTIBOOT2_TAG_TYPE_END
      then Option.bind
             (if load32 (ram_view m s) tag = MULTIBOOT2_TAG_TYPE_MMAP
              then free_entries m tag (tag + 16) s else Some s)
             (\<lambda>s'. free_tags m mbi_end
                (tag + ucast ((load32 (ram_view m s') (tag + 4) + 7) AND NOT 7)) s')
      else Some s)"

definition AP_TRAMPOLINE_ADDR :: u64 where
  "AP_TRAMPOLINE_ADDR = 0x8000"

definition AP_TRAMPOLINE_SIZE :: u64 where
  "AP_TRAMPOLINE_SIZE = 0x1000"

text \<open>The bitmap as it is sized, placed and cleared before the tags are read.\<close>

definition bitmap_bytes :: "u64 \<Rightarrow> u64" where
  "bitmap_bytes blocks = (blocks + 8 - 1) div 8"

definition pmm_setup :: "ram \<Rightarrow> u64 \<Rightarrow> u64 \<Rightarrow> pmm" where
  "pmm_setup m kernel_end max_addr_used =
     (let blocks = (max_addr_used + BLOCK_SIZE - 1) div BLOCK_SIZE;
          base = (kernel_end + BLOCK_SIZE - 1) AND NOT (BLOCK_SIZE - 1)
      in \<lparr>memory_map = memset_map (bitmap_bytes blocks) (\<lambda>i. load32 m (base + 4 * of_nat i)),
          max_blocks = blocks, used_blocks = blocks, bitmap_base = base,
          bitmap_size_blocks = (bitmap_bytes blocks + BLOCK_SIZE - 1) div BLOCK_SIZE\<rparr>)"

text \<open>The reservations after the tags have been read.\<close>

definition pmm_reserve_boot :: "u64 \<Rightarrow> u64 \<Rightarrow> u64 \<Rightarrow> u32 \<Rightarrow> pmm \<Rightarrow> pmm" where
  "pmm_reserve_boot kernel_start kernel_end mbi_addr total_size s0 =
     (let s1 = reserve_region kernel_start (kernel_end - kernel_start) s0;
          s2 = reserve_region mbi_addr (ucast total_size) s1;
          s3 = reserve_region (bitmap_base s2) (bitmap_bytes (max_blocks s2)) s2;
          s4 = (set_block 0 s3)\<lparr>used_blocks := used_blocks s3 + 1\<rparr>
      in reserve_region AP_TRAMPOLINE_ADDR AP_TRAMPOLINE_SIZE s4)"

text \<open>\<open>kernel_start\<close>, \<open>kernel_end\<close> are the linker symbols, \<open>max_addr_used\<close> the global
  that \<open>multiboot2_main\<close> computed.\<close>

definition initialize_memory_manager_from_mbi ::
    "ram \<Rightarrow> u64 \<Rightarrow> u64 \<Rightarrow> u64 \<Rightarrow> u64 \<Rightarrow> pmm option" where
  "initialize_memory_manager_from_mbi m kernel_start kernel_end max_addr_used mbi_addr =
     (let total_size = load32 m mbi_addr in
      map_option (pmm_reserve_boot kernel_start kernel_end mbi_addr total_size)
        (free_tags m (mbi_addr + ucast total_size) (mbi_addr + 8)
           (pmm_setup m kernel_end max_addr_used)))"

section \<open>The bitmap does not disturb other memory\<close>

definition map_words :: "pmm \<Rightarrow> nat" where
  "map_words s = (unat (max_blocks s) + 31) div 32"

definition map_region :: "pmm \<Rightarrow> u64 set" where
  "map_region s = {a. bitmap_base s \<le> a \<and> unat (a - bitmap_base s) < 4 * map_words s}"

text \<open>Words past the bitmap still hold what RAM held.\<close>

definition ram_agrees :: "ram \<Rightarrow> pmm \<Rightarrow> bool" where
  "ram_agrees m s \<longleftrightarrow>
     (\<forall>i. map_words s \<le> i \<longrightarrow> memory_map s i = load32 m (bitmap_base s + 4 * of_nat i))"

lemma load32_byte:
  assumes "k < 4"
  shows "ucast (drop_bit (8 * k) (load32 m a)) = m (a + of_nat k)"
proof -
  have *: "k = 0 \<or> k = 1 \<or> k = 2 \<or> k = 3" using assms by auto
  show ?thesis
  proof (rule bit_eqI)
    fix n assume "possible_bit TYPE(8 word) n"
    then have n: "n < 8" by simp
    from * show "bit (ucast (drop_bit (8 * k) (load32 m a)) :: u8) n = bit (m (a + of_nat k)) n"
      using n by (elim disjE)
        (auto simp: load32_def load16_def bit_simps add.assoc dest: bit_imp_le_length)
  qed
qed

lemma ram_view_outside:
  assumes "ram_agrees m s" "a \<notin> map_region s"
  shows "ram_view m s a = m a"
proof (cases "bitmap_base s \<le> a")
  case True
  let ?d = "unat (a - bitmap_base s)"
  from True assms(2) have "4 * map_words s \<le> ?d" by (simp add: map_region_def)
  then have "map_words s \<le> ?d div 4" by linarith
  with assms(1) have "memory_map s (?d div 4) = load32 m (bitmap_base s + 4 * of_nat (?d div 4))"
    by (simp add: ram_agrees_def)
  moreover have "bitmap_base s + 4 * of_nat (?d div 4) + of_nat (?d mod 4) = a"
  proof -
    have "(4 * of_nat (?d div 4) + of_nat (?d mod 4) :: u64) = of_nat (4 * (?d div 4) + ?d mod 4)"
      by (simp only: of_nat_add of_nat_mult of_nat_numeral)
    also have "\<dots> = a - bitmap_base s" unfolding mult_div_mod_eq by simp
    finally have e: "(4 * of_nat (?d div 4) + of_nat (?d mod 4) :: u64) = a - bitmap_base s" .
    show ?thesis by (simp only: add.assoc e) simp
  qed
  ultimately show ?thesis
    using True load32_byte [of "?d mod 4" m] by (simp add: ram_view_def)
next
  case False
  then show ?thesis by (simp add: ram_view_def)
qed

lemma free_one_map:
  assumes "b < max_blocks s" "unat (max_blocks s) \<le> 2 ^ 32" "map_words s \<le> i"
  shows "memory_map (free_one b s) i = memory_map s i"
proof -
  from assms have "unat b div 32 < map_words s"
    by (simp add: word_less_nat_alt map_words_def)
  with assms(3) unat_ucast_small [OF assms(1,2)] show ?thesis
    by (auto simp: free_one_alt unset_block_def)
qed

lemma free_one_base [simp]: "bitmap_base (free_one b s) = bitmap_base s"
  by (simp add: free_one_def unset_block_def)

lemma free_loop_base [simp]: "bitmap_base (free_loop n b s) = bitmap_base s"
  by (induction n b s rule: free_loop.induct) simp_all

lemma map_words_cong: "max_blocks s = max_blocks t \<Longrightarrow> map_words s = map_words t"
  by (simp add: map_words_def)

lemma free_one_agrees:
  assumes "b < max_blocks s" "unat (max_blocks s) \<le> 2 ^ 32" "ram_agrees m s"
  shows "ram_agrees m (free_one b s)"
  using assms map_words_cong [of "free_one b s" s] by (simp add: ram_agrees_def free_one_map)

lemma free_loop_agrees:
  "unat (max_blocks s) \<le> 2 ^ 32 \<Longrightarrow> ram_agrees m s \<Longrightarrow> ram_agrees m (free_loop n b s)"
  by (induction n b s rule: free_loop.induct) (simp_all add: free_one_agrees)

lemma free_region_agrees:
  "unat (max_blocks s) \<le> 2 ^ 32 \<Longrightarrow> ram_agrees m s \<Longrightarrow> ram_agrees m (free_region a l s)"
  by (simp add: free_region_def free_loop_agrees)

lemma free_region_fields [simp]:
  "max_blocks (free_region a l s) = max_blocks s"
  "bitmap_base (free_region a l s) = bitmap_base s"
  by (simp_all add: free_region_def)

lemma map_region_free_region [simp]: "map_region (free_region a l s) = map_region s"
  by (simp add: map_region_def map_words_def)

section \<open>The regions a Multiboot2 structure describes\<close>

definition byte_span :: "u64 \<Rightarrow> nat \<Rightarrow> u64 set" where
  "byte_span a n = (\<lambda>k. a + of_nat k) ` {..<n}"

text \<open>\<open>entries_at R m tag entry rs\<close>: the entries from \<open>entry\<close> to the end of the memory-map
  tag list the available regions \<open>rs\<close>; every byte consulted lies in \<open>R\<close>.
  \<open>tags_at\<close> does the same for the tags up to \<open>mbi_end\<close> or the end tag.\<close>

inductive entries_at :: "u64 set \<Rightarrow> ram \<Rightarrow> u64 \<Rightarrow> u64 \<Rightarrow> (u64 \<times> u64) list \<Rightarrow> bool"
  for R m tag where
  entries_done: "byte_span (tag + 4) 4 \<subseteq> R \<Longrightarrow> \<not> entry < tag + ucast (load32 m (tag + 4)) \<Longrightarrow>
     entries_at R m tag entry []"
| entries_available: "byte_span (tag + 4) 8 \<subseteq> R \<Longrightarrow> byte_span entry 20 \<subseteq> R \<Longrightarrow>
     entry < tag + ucast (load32 m (tag + 4)) \<Longrightarrow>
     load32 m (entry + 16) = MULTIBOOT2_MEMORY_AVAILABLE \<Longrightarrow>
     entries_at R m tag (entry + ucast (load32 m (tag + 8))) rs \<Longrightarrow>
     entries_at R m tag entry ((load64 m entry, load64 m (entry + 8)) # rs)"
| entries_other: "byte_span (tag + 4) 8 \<subseteq> R \<Longrightarrow> byte_span entry 20 \<subseteq> R \<Longrightarrow>
     entry < tag + ucast (load32 m (tag + 4)) \<Longrightarrow>
     load32 m (entry + 16) \<noteq> MULTIBOOT2_MEMORY_AVAILABLE \<Longrightarrow>
     entries_at R m tag (entry + ucast (load32 m (tag + 8))) rs \<Longrightarrow>
     entries_at R m tag entry rs"

inductive tags_at :: "u64 set \<Rightarrow> ram \<Rightarrow> u64 \<Rightarrow> u64 \<Rightarrow> (u64 \<times> u64) list \<Rightarrow> bool"
  for R m mbi_end where
  tags_past_end: "\<not> tag < mbi_end \<Longrightarrow> tags_at R m mbi_end tag []"
| tags_end: "tag < mbi_end \<Longrightarrow> byte_span tag 4 \<subseteq> R \<Longrightarrow>
     load32 m tag = MULTIBOOT2_TAG_TYPE_END \<Longrightarrow> tags_at R m mbi_end tag []"
| tags_mmap: "tag < mbi_end \<Longrightarrow> byte_span tag 8 \<subseteq> R \<Longrightarrow>
     load32 m tag = MULTIBOOT2_TAG_TYPE_MMAP \<Longrightarrow> entries_at R m tag (tag + 16) rs \<Longrightarrow>
     tags_at R m mbi_end (tag + ucast ((load32 m (tag + 4) + 7) AND NOT 7)) rs' \<Longrightarrow>
     tags_at R m mbi_end tag (rs @ rs')"
| tags_other: "tag < mbi_end \<Longrightarrow> byte_span tag 8 \<subseteq> R \<Longrightarrow>
     load32 m tag \<noteq> MULTIBOOT2_TAG_TYPE_MMAP \<Longrightarrow> load32 m tag \<noteq> MULTIBOOT2_TAG_TYPE_END \<Longrightarrow>
     tags_at R m mbi_end (tag + ucast ((load32 m (tag + 4) + 7) AND NOT 7)) rs \<Longrightarrow>
     tags_at R m mbi_end tag rs"

lemma byte_span_I: "k < n \<Longrightarrow> a + of_nat k \<in> byte_span a n"
  by (auto simp: byte_span_def)

lemma byte_span_sub:
  assumes "byte_span a n \<subseteq> R" "k + j \<le> n"
  shows "byte_span (a + of_nat k) j \<subseteq> R"
proof -
  have "a + of_nat k + of_nat i \<in> byte_span a n" if "i < j" for i
    using that assms(2) byte_span_I [of "k + i" n a] by (simp add: add.assoc)
  with assms(1) show ?thesis by (auto simp: byte_span_def)
qed

lemma load32_cong:
  assumes "\<And>k. k < 4 \<Longrightarrow> v (a + of_nat k) = m (a + of_nat k)"
  shows "load32 v a = load32 m a"
  using assms [of 0] assms [of 1] assms [of 2] assms [of 3]
  by (simp add: load32_def load16_def add.assoc)

lemma load64_cong:
  assumes "\<And>k. k < 8 \<Longrightarrow> v (a + of_nat k) = m (a + of_nat k)"
  shows "load64 v a = load64 m a"
proof -
  have "load32 v a = load32 m a" by (rule load32_cong) (use assms in simp)
  moreover have "load32 v (a + 4) = load32 m (a + 4)"
  proof (rule load32_cong)
    fix k :: nat assume "k < 4"
    then show "v (a + 4 + of_nat k) = m (a + 4 + of_nat k)"
      using assms [of "4 + k"] by (simp add: add.assoc)
  qed
  ultimately show ?thesis by (simp add: load64_def)
qed

text \<open>Reads inside a region the bitmap does not touch.\<close>

lemma load32_view:
  assumes "ram_agrees m s" "R \<inter> map_region s = {}" "byte_span a n \<subseteq> R" "k + 4 \<le> n"
  shows "load32 (ram_view m s) (a + of_nat k) = load32 m (a + of_nat k)"
proof (rule load32_cong)
  fix j :: nat assume "j < 4"
  with assms(3,4) have "a + of_nat k + of_nat j \<in> R"
    using byte_span_sub [OF assms(3,4)] byte_span_I by blast
  with assms(1,2) show "ram_view m s (a + of_nat k + of_nat j) = m (a + of_nat k + of_nat j)"
    by (intro ram_view_outside) auto
qed

lemma load64_view:
  assumes "ram_agrees m s" "R \<inter> map_region s = {}" "byte_span a n \<subseteq> R" "k + 8 \<le> n"
  shows "load64 (ram_view m s) (a + of_nat k) = load64 m (a + of_nat k)"
proof (rule load64_cong)
  fix j :: nat assume "j < 8"
  with assms(3,4) have "a + of_nat k + of_nat j \<in> R"
    using byte_span_sub [OF assms(3,4)] byte_span_I by blast
  with assms(1,2) show "ram_view m s (a + of_nat k + of_nat j) = m (a + of_nat k + of_nat j)"
    by (intro ram_view_outside) auto
qed

definition free_all :: "(u64 \<times> u64) list \<Rightarrow> pmm \<Rightarrow> pmm" where
  "free_all rs s = fold (\<lambda>(a, l). free_region a l) rs s"

lemma free_all_simps [simp]:
  "free_all [] s = s"
  "free_all ((a, l) # rs) s = free_all rs (free_region a l s)"
  "free_all (rs @ rs') s = free_all rs' (free_all rs s)"
  by (simp_all add: free_all_def)

definition boot_stable :: "u64 set \<Rightarrow> ram \<Rightarrow> pmm \<Rightarrow> bool" where
  "boot_stable R m s \<longleftrightarrow>
     ram_agrees m s \<and> R \<inter> map_region s = {} \<and> unat (max_blocks s) \<le> 2 ^ 32"

lemma boot_stable_free_region: "boot_stable R m s \<Longrightarrow> boot_stable R m (free_region a l s)"
  by (simp add: boot_stable_def free_region_agrees)

lemma boot_stable_free_all: "boot_stable R m s \<Longrightarrow> boot_stable R m (free_all rs s)"
  by (induction rs arbitrary: s) (auto simp: boot_stable_free_region)

lemma boot_load32:
  "boot_stable R m s \<Longrightarrow> byte_span a n \<subseteq> R \<Longrightarrow> k + 4 \<le> n \<Longrightarrow>
     load32 (ram_view m s) (a + of_nat k) = load32 m (a + of_nat k)"
  by (auto simp: boot_stable_def intro: load32_view)

lemma boot_load64:
  "boot_stable R m s \<Longrightarrow> byte_span a n \<subseteq> R \<Longrightarrow> k + 8 \<le> n \<Longrightarrow>
     load64 (ram_view m s) (a + of_nat k) = load64 m (a + of_nat k)"
  by (auto simp: boot_stable_def intro: load64_view)

lemma free_entries_result:
  "entries_at R m tag entry rs \<Longrightarrow> boot_stable R m s \<Longrightarrow>
     free_entries m tag entry s = Some (free_all rs s)"
proof (induction arbitrary: s rule: entries_at.induct)
  case (entries_done entry)
  then show ?case
    using boot_load32 [of R m s "tag + 4" 4 0] by (simp add: free_entries.simps)
next
  case (entries_available entry rs)
  note st = entries_available.prems boot_stable_free_region [OF entries_available.prems]
  show ?case
    using entries_available.hyps entries_available.IH [OF st(2)]
      boot_load32 [OF st(1) entries_available.hyps(1), of 0]
      boot_load32 [OF st(2) entries_available.hyps(1), of 4]
      boot_load32 [OF st(1) entries_available.hyps(2), of 16]
      boot_load64 [OF st(1) entries_available.hyps(2), of 0]
      boot_load64 [OF st(1) entries_available.hyps(2), of 8]
    by (subst free_entries.simps) (simp add: Let_def add.assoc)
next
  case (entries_other entry rs)
  note st = entries_other.prems
  show ?case
    using entries_other.hyps entries_other.IH [OF st]
      boot_load32 [OF st entries_other.hyps(1), of 0]
      boot_load32 [OF st entries_other.hyps(1), of 4]
      boot_load32 [OF st entries_other.hyps(2), of 16]
    by (subst free_entries.simps) (simp add: Let_def add.assoc)
qed

lemma free_tags_result:
  "tags_at R m mbi_end tag rs \<Longrightarrow> boot_stable R m s \<Longrightarrow>
     free_tags m mbi_end tag s = Some (free_all rs s)"
proof (induction arbitrary: s rule: tags_at.induct)
  case (tags_past_end tag)
  then show ?case by (simp add: free_tags.simps)
next
  case (tags_end tag)
  then show ?case
    using boot_load32 [of R m s tag 4 0] by (simp add: free_tags.simps)
next
  case (tags_mmap tag rs rs')
  note st = tags_mmap.prems boot_stable_free_all [OF tags_mmap.prems, of rs]
  show ?case
    using tags_mmap.hyps tags_mmap.IH [OF st(2)]
      free_entries_result [OF tags_mmap.hyps(4) st(1)]
      boot_load32 [OF st(1) tags_mmap.hyps(2), of 0]
      boot_load32 [OF st(2) tags_mmap.hyps(2), of 4]
    by (subst free_tags.simps)
      (simp add: MULTIBOOT2_TAG_TYPE_MMAP_def MULTIBOOT2_TAG_TYPE_END_def)
next
  case (tags_other tag rs)
  note st = tags_other.prems
  show ?case
    using tags_other.hyps tags_other.IH [OF st]
      boot_load32 [OF st tags_other.hyps(2), of 0]
      boot_load32 [OF st tags_other.hyps(2), of 4]
    by (subst free_tags.simps) simp
qed

section \<open>The state after boot\<close>

text \<open>The blocks a byte range touches.\<close>

definition region_blocks :: "u64 \<Rightarrow> u64 \<Rightarrow> nat set" where
  "region_blocks a l = {unat a div 4096..<unat a div 4096 + unat ((l + 4095) div 4096)}"

lemma region_num_blocks: "(l + BLOCK_SIZE - 1) div BLOCK_SIZE = (l + 4095) div 4096"
  by (simp add: BLOCK_SIZE_def add_diff_eq [symmetric])

lemma used_set_reserve_region:
  assumes "unat (max_blocks s) \<le> 2 ^ 32"
  shows "used_set (reserve_region a l s) =
     used_set s \<union> (region_blocks a l \<inter> {..<unat (max_blocks s)})"
  unfolding reserve_region_def region_num_blocks used_set_reserve_loop [OF assms]
  by (auto simp: region_blocks_def BLOCK_SIZE_def)

lemma used_set_free_region:
  assumes "unat (max_blocks s) \<le> 2 ^ 32"
  shows "used_set (free_region a l s) = used_set s - region_blocks a l"
  unfolding free_region_def region_num_blocks used_set_free_loop [OF assms]
  by (auto simp: region_blocks_def BLOCK_SIZE_def)

lemma reserve_region_fields [simp]: "max_blocks (reserve_region a l s) = max_blocks s"
  by (simp add: reserve_region_def)

lemma free_all_fields [simp]:
  "max_blocks (free_all rs s) = max_blocks s" "bitmap_base (free_all rs s) = bitmap_base s"
  by (induction rs arbitrary: s) auto

lemma used_set_free_all:
  "unat (max_blocks s) \<le> 2 ^ 32 \<Longrightarrow>
     used_set (free_all rs s) = used_set s - (\<Union>(a, l) \<in> set rs. region_blocks a l)"
  by (induction rs arbitrary: s) (auto simp: used_set_free_region)

lemma free_region_inv [gecko_wf]:
  "unat (max_blocks s) \<le> 2 ^ 32 \<Longrightarrow> pmm_inv s \<Longrightarrow> pmm_inv (free_region a l s)"
  by (simp add: free_region_def free_loop_inv)

lemma reserve_region_inv [gecko_wf]:
  "unat (max_blocks s) \<le> 2 ^ 32 \<Longrightarrow> pmm_inv s \<Longrightarrow> pmm_inv (reserve_region a l s)"
  by (simp add: reserve_region_def reserve_loop_inv)

lemma free_all_inv [gecko_wf]:
  "unat (max_blocks s) \<le> 2 ^ 32 \<Longrightarrow> pmm_inv s \<Longrightarrow> pmm_inv (free_all rs s)"
  by (induction rs arbitrary: s) (auto simp: free_region_inv)

lemma pmm_setup_fields [simp]:
  "max_blocks (pmm_setup m ke mx) = (mx + BLOCK_SIZE - 1) div BLOCK_SIZE"
  "used_blocks (pmm_setup m ke mx) = (mx + BLOCK_SIZE - 1) div BLOCK_SIZE"
  "bitmap_base (pmm_setup m ke mx) = (ke + BLOCK_SIZE - 1) AND NOT (BLOCK_SIZE - 1)"
  by (simp_all add: pmm_setup_def Let_def)

lemma unat_bitmap_bytes:
  assumes "unat n \<le> 2 ^ 52"
  shows "unat (bitmap_bytes n) = (unat n + 7) div 8"
proof -
  have "n + 8 - 1 = n + 7" by simp
  with assms show ?thesis by (simp add: bitmap_bytes_def unat_word_ariths)
qed

lemma pmm_setup_blocks_small: "unat (max_blocks (pmm_setup m ke mx)) \<le> 2 ^ 52"
proof -
  have "unat (mx + BLOCK_SIZE - 1) < 2 ^ 64"
    using unsigned_less [of "mx + BLOCK_SIZE - 1", where 'a = nat] by simp
  then show ?thesis by (simp add: BLOCK_SIZE_def)
qed

lemma bit_in_byte_range:
  fixes b n :: nat
  assumes "b < n"
  shows "b mod 32 < 8 * min 4 ((n + 7) div 8 - 4 * (b div 32))"
proof (cases "(n + 7) div 8 - 4 * (b div 32) \<le> 4")
  case True
  have "b div 8 < (n + 7) div 8" using assms by linarith
  moreover have "b mod 32 = b - 32 * (b div 32)" by (simp add: minus_mult_div_eq_mod)
  ultimately show ?thesis using True by simp linarith
next
  case False
  then show ?thesis by simp
qed

lemma byte_range_end:
  fixes n i :: nat
  assumes "(n + 31) div 32 \<le> i"
  shows "(n + 7) div 8 - 4 * i = 0"
  using assms by simp

text \<open>Every block starts out used.\<close>

lemma pmm_setup_used:
  "used_set (pmm_setup m ke mx) = {..<unat (max_blocks (pmm_setup m ke mx))}"
proof -
  let ?s = "pmm_setup m ke mx" and ?n = "unat (max_blocks (pmm_setup m ke mx))"
  have "bit (memory_map ?s (b div 32)) (b mod 32)" if "b < ?n" for b
  proof -
    note bit_in_byte_range [OF that]
    then show ?thesis
      using unat_bitmap_bytes [OF pmm_setup_blocks_small [of m ke mx]]
      by (simp add: pmm_setup_def Let_def memset_map_def bit_simps)
  qed
  then show ?thesis by (auto simp: used_set_def block_used_def)
qed

lemma pmm_setup_inv: "pmm_inv (pmm_setup m ke mx)"
  unfolding pmm_inv_def pmm_setup_used by (simp del: unat_div_numeral)

lemma pmm_setup_agrees:
  shows "ram_agrees m (pmm_setup m ke mx)"
proof -
  let ?s = "pmm_setup m ke mx"
  have "8 * min 4 ((unat (max_blocks ?s) + 7) div 8 - 4 * i) = 0" if "map_words ?s \<le> i" for i
    using that byte_range_end [of "unat (max_blocks ?s)" i] by (simp add: map_words_def)
  then show ?thesis
    using unat_bitmap_bytes [OF pmm_setup_blocks_small [of m ke mx]]
    by (simp add: ram_agrees_def pmm_setup_def Let_def memset_map_def)
qed

lemma reserve_region_base [simp]: "bitmap_base (reserve_region a l t) = bitmap_base t"
proof -
  have "bitmap_base (reserve_loop n b t) = bitmap_base t" for n b t
    by (induction n b t rule: reserve_loop.induct) (simp_all add: reserve_one_def set_block_def)
  then show ?thesis by (simp add: reserve_region_def)
qed

lemma pmm_reserve_boot_base: "bitmap_base (pmm_reserve_boot ks ke mbi tsz s) = bitmap_base s"
  by (simp add: pmm_reserve_boot_def Let_def set_block_def)

lemma pmm_reserve_boot_used:
  assumes "unat (max_blocks s) \<le> 2 ^ 32" "0 < unat (max_blocks s)"
  shows "used_set (pmm_reserve_boot ks ke mbi tsz s) =
     used_set s \<union> (insert 0 (region_blocks ks (ke - ks) \<union> region_blocks mbi (ucast tsz) \<union>
       region_blocks (bitmap_base s) (bitmap_bytes (max_blocks s)) \<union>
       region_blocks AP_TRAMPOLINE_ADDR AP_TRAMPOLINE_SIZE) \<inter> {..<unat (max_blocks s)})"
  using assms by (auto simp: pmm_reserve_boot_def Let_def used_set_reserve_region used_set_set_block)

lemma initialize_memory_manager_result:
  assumes "tags_at R m (mbi_addr + ucast (load32 m mbi_addr)) (mbi_addr + 8) rs"
    "R \<inter> map_region (pmm_setup m ke mx) = {}" "unat (max_blocks (pmm_setup m ke mx)) \<le> 2 ^ 32"
  shows "initialize_memory_manager_from_mbi m ks ke mx mbi_addr =
     Some (pmm_reserve_boot ks ke mbi_addr (load32 m mbi_addr) (free_all rs (pmm_setup m ke mx)))"
proof -
  have "boot_stable R m (pmm_setup m ke mx)"
    using assms(2,3) by (simp add: boot_stable_def pmm_setup_agrees del: unat_div_numeral)
  then show ?thesis
    using assms(1) by (simp add: initialize_memory_manager_from_mbi_def free_tags_result)
qed

text \<open>A Multiboot2 structure whose bytes lie outside the bitmap and whose tags and
  memory-map entries parse (\<open>tags_at\<close>) makes the boot-time initialisation return, and
  afterwards exactly these blocks are in use: every block not touched by an available
  region, and of the others block 0, the kernel image, the Multiboot2 structure, the
  bitmap itself and the AP trampoline.\<close>

theorem initialize_memory_manager_used:
  assumes tags: "tags_at R m (mbi_addr + ucast (load32 m mbi_addr)) (mbi_addr + 8) rs"
    and apart: "R \<inter> map_region (pmm_setup m ke mx) = {}"
    and small: "0 < unat (max_blocks (pmm_setup m ke mx))"
      "unat (max_blocks (pmm_setup m ke mx)) \<le> 2 ^ 32"
  shows "\<exists>s. initialize_memory_manager_from_mbi m ks ke mx mbi_addr = Some s \<and>
     used_set s = {b. b < unat (max_blocks s) \<and>
       (b \<notin> (\<Union>(a, l) \<in> set rs. region_blocks a l) \<or> b = 0 \<or>
        b \<in> region_blocks ks (ke - ks) \<or>
        b \<in> region_blocks mbi_addr (ucast (load32 m mbi_addr)) \<or>
        b \<in> region_blocks (bitmap_base (pmm_setup m ke mx))
               (bitmap_bytes (max_blocks (pmm_setup m ke mx))) \<or>
        b \<in> region_blocks AP_TRAMPOLINE_ADDR AP_TRAMPOLINE_SIZE)}"
proof -
  let ?init = "pmm_setup m ke mx"
  let ?s = "pmm_reserve_boot ks ke mbi_addr (load32 m mbi_addr) (free_all rs ?init)"
  have "initialize_memory_manager_from_mbi m ks ke mx mbi_addr = Some ?s"
    by (rule initialize_memory_manager_result [OF tags apart small(2)])
  moreover have "max_blocks ?s = max_blocks ?init"
    by (simp add: pmm_reserve_boot_def Let_def)
  ultimately show ?thesis
    using small pmm_reserve_boot_used [of "free_all rs ?init" ks ke mbi_addr "load32 m mbi_addr"]
      used_set_free_all [OF small(2), of rs] pmm_setup_used [of m ke mx]
    by (intro exI [of _ ?s]) (auto simp del: pmm_setup_fields)
qed

section \<open>Witness\<close>

text \<open>A Multiboot2 structure at \<open>0x10000\<close> with one memory-map tag that declares the first
  128 MiB available, and the end tag.\<close>

definition boot_bytes :: "u8 list" where
  "boot_bytes =
     [56, 0, 0, 0, 0, 0, 0, 0,
      6, 0, 0, 0, 40, 0, 0, 0, 24, 0, 0, 0, 0, 0, 0, 0,
      0, 0, 0, 0, 0, 0, 0, 0, 0, 0, 0, 8, 0, 0, 0, 0, 1, 0, 0, 0, 0, 0, 0, 0,
      0, 0, 0, 0, 8, 0, 0, 0]"

definition boot_ram :: ram where
  "boot_ram a = (if 0x10000 \<le> a \<and> a < 0x10000 + 56 then boot_bytes ! unat (a - 0x10000) else 0)"

lemma boot_ram_loads:
  "load32 boot_ram 0x10000 = 56" "load32 boot_ram 0x10008 = 6" "load32 boot_ram 0x1000C = 40"
  "load32 boot_ram 0x10010 = 24" "load64 boot_ram 0x10018 = 0" "load64 boot_ram 0x10020 = 0x8000000"
  "load32 boot_ram 0x10028 = 1" "load32 boot_ram 0x10030 = 0"
  by code_simp+

lemma boot_entries:
  "entries_at (byte_span 0x10000 64) boot_ram 0x10008 0x10018 [(0, 0x8000000)]"
proof -
  have span: "byte_span (0x10000 + of_nat k) n \<subseteq> byte_span 0x10000 64" if "k + n \<le> 64" for k n
    using byte_span_sub [OF subset_refl that] .
  have "entries_at (byte_span 0x10000 64) boot_ram 0x10008 (0x10018 + ucast (load32 boot_ram (0x10008 + 8))) []"
    by (rule entries_done) (use span [of 12 4] in \<open>simp_all add: boot_ram_loads\<close>)
  from entries_available [OF _ _ _ _ this] show ?thesis
    using span [of 12 8] span [of 24 20]
    by (simp add: boot_ram_loads MULTIBOOT2_MEMORY_AVAILABLE_def)
qed

lemma boot_tags:
  "tags_at (byte_span 0x10000 64) boot_ram (0x10000 + ucast (load32 boot_ram 0x10000)) (0x10000 + 8)
     [(0, 0x8000000)]"
proof -
  have span: "byte_span (0x10000 + of_nat k) n \<subseteq> byte_span 0x10000 64" if "k + n \<le> 64" for k n
    using byte_span_sub [OF subset_refl that] .
  have "tags_at (byte_span 0x10000 64) boot_ram 0x10038
      (0x10008 + ucast ((load32 boot_ram (0x10008 + 4) + 7) AND NOT 7)) []"
    by (rule tags_end)
      (use span [of 48 4] in \<open>simp_all add: boot_ram_loads MULTIBOOT2_TAG_TYPE_END_def\<close>)
  from tags_mmap [OF _ _ _ _ this] show ?thesis
    using span [of 8 8] boot_entries by (simp add: boot_ram_loads MULTIBOOT2_TAG_TYPE_MMAP_def)
qed

lemma boot_setup: "max_blocks (pmm_setup boot_ram 0x180000 0x8000000) = 32768"
  "bitmap_base (pmm_setup boot_ram 0x180000 0x8000000) = 0x180000"
  by (simp_all add: BLOCK_SIZE_def)

lemma boot_apart: "byte_span 0x10000 64 \<inter> map_region (pmm_setup boot_ram 0x180000 0x8000000) = {}"
proof -
  have "unat (0x10000 + of_nat k :: u64) < 0x180000" if "k < 64" for k
    using that by (simp add: unat_word_ariths unat_of_nat_small)
  then show ?thesis
    by (auto simp: byte_span_def map_region_def boot_setup word_le_nat_alt
        simp del: pmm_setup_fields) (metis leD)
qed

theorem initialize_memory_manager_used_witness:
  "\<exists>s. initialize_memory_manager_from_mbi boot_ram 0x100000 0x180000 0x8000000 0x10000 = Some s"
  using initialize_memory_manager_used [OF boot_tags boot_apart, where ks = "0x100000"]
  by (auto simp: boot_setup simp del: pmm_setup_fields)

end
