(* ===== verification/Paging.thy ===== *)
theory Paging
  imports Pmm_Boot
begin

unbundle bit_operations_syntax

text \<open>
  The virtual memory manager (\<open>kernel/mem/virtual_mem/paging.c\<close>, \<open>include/mem/paging.h\<close>):
  four-level page tables that live in physical frames taken from the physical
  memory manager.
\<close>

section \<open>Page-table entries\<close>

definition PAGE_SIZE :: u64 where
  "PAGE_SIZE = 4096"

definition PTE_PRESENT :: u64 where "PTE_PRESENT = 1"
definition PTE_WRITABLE :: u64 where "PTE_WRITABLE = 2"
definition PTE_CACHE_DISABLE :: u64 where "PTE_CACHE_DISABLE = 16"
definition PTE_ADDR_MASK :: u64 where "PTE_ADDR_MASK = 0x000FFFFFFFFFF000"

definition PML4_INDEX :: "u64 \<Rightarrow> u64" where "PML4_INDEX a = drop_bit 39 a AND 0x1FF"
definition PDPT_INDEX :: "u64 \<Rightarrow> u64" where "PDPT_INDEX a = drop_bit 30 a AND 0x1FF"
definition PD_INDEX :: "u64 \<Rightarrow> u64" where "PD_INDEX a = drop_bit 21 a AND 0x1FF"
definition PT_INDEX :: "u64 \<Rightarrow> u64" where "PT_INDEX a = drop_bit 12 a AND 0x1FF"

definition pte_get_phys :: "u64 \<Rightarrow> u64" where
  "pte_get_phys e = e AND PTE_ADDR_MASK"

definition pte_is_present :: "u64 \<Rightarrow> bool" where
  "pte_is_present e \<longleftrightarrow> e AND PTE_PRESENT \<noteq> 0"

section \<open>State and operations\<close>

text \<open>\<open>pmem\<close> is physical memory read as 8-byte words at their address, through which the
  identity-mapped page tables are accessed; \<open>cr3\<close> and \<open>flushed\<close> record the effects of the
  \<open>mov cr3\<close> and \<open>invlpg\<close> instructions.\<close>

record vmm =
  phys :: pmm
  pmem :: "u64 \<Rightarrow> u64"
  current_pml4 :: u64
  mmio_virt_next :: u64
  cr3 :: u64
  flushed :: "u64 list"

definition alloc_table :: "vmm \<Rightarrow> u64 \<times> vmm" where
  "alloc_table s =
     (case allocate_blocks 1 (phys s) of
        (t, p) \<Rightarrow> (t, if t \<noteq> 0
                     then s\<lparr>phys := p,
                            pmem := (\<lambda>a. if t \<le> a \<and> a < t + 4096 then 0 else pmem s a)\<rparr>
                     else s\<lparr>phys := p\<rparr>))"

text \<open>The address of entry \<open>i\<close> of the table at \<open>t\<close>.\<close>

definition entry_addr :: "u64 \<Rightarrow> u64 \<Rightarrow> u64" where
  "entry_addr t i = t + 8 * i"

text \<open>One level of \<open>get_pte\<close>: the table an upper-level entry points to, allocated on
  demand; \<open>None\<close> is the C \<open>NULL\<close>.\<close>

definition get_table :: "u64 \<Rightarrow> bool \<Rightarrow> vmm \<Rightarrow> u64 option \<times> vmm" where
  "get_table ea create s =
     (if pte_is_present (pmem s ea) then (Some (pte_get_phys (pmem s ea)), s)
      else if \<not> create then (None, s)
      else case alloc_table s of
        (t, s') \<Rightarrow> if t = 0 then (None, s')
                   else (let s'' = s'\<lparr>pmem := (pmem s')(ea := t OR PTE_PRESENT OR PTE_WRITABLE)\<rparr>
                         in (Some (pte_get_phys (pmem s'' ea)), s'')))"

definition get_pte :: "u64 \<Rightarrow> u64 \<Rightarrow> bool \<Rightarrow> vmm \<Rightarrow> u64 option \<times> vmm" where
  "get_pte pml4 virt create s =
     (case get_table (entry_addr pml4 (PML4_INDEX virt)) create s of
        (None, s) \<Rightarrow> (None, s)
      | (Some pdpt, s) \<Rightarrow>
          (case get_table (entry_addr pdpt (PDPT_INDEX virt)) create s of
             (None, s) \<Rightarrow> (None, s)
           | (Some pd, s) \<Rightarrow>
               (case get_table (entry_addr pd (PD_INDEX virt)) create s of
                  (None, s) \<Rightarrow> (None, s)
                | (Some pt, s) \<Rightarrow> (Some (entry_addr pt (PT_INDEX virt)), s))))"

definition flush_tlb :: "u64 \<Rightarrow> vmm \<Rightarrow> vmm" where
  "flush_tlb virt s = s\<lparr>flushed := virt # flushed s\<rparr>"

definition vmm_get_pml4 :: "vmm \<Rightarrow> u64" where
  "vmm_get_pml4 s = current_pml4 s"

text \<open>A null table fails the assertion, which halts the machine: \<open>None\<close>.\<close>

definition vmm_set_pml4 :: "u64 \<Rightarrow> vmm \<Rightarrow> (bool \<times> vmm) option" where
  "vmm_set_pml4 pml4 s =
     (if pml4 = 0 then None else Some (True, s\<lparr>current_pml4 := pml4, cr3 := pml4\<rparr>))"

definition vmm_map :: "u64 \<Rightarrow> u64 \<Rightarrow> u64 \<Rightarrow> u64 \<Rightarrow> vmm \<Rightarrow> bool \<times> vmm" where
  "vmm_map pml4 ph virt flags s =
     (case get_pte pml4 virt True s of
        (None, s) \<Rightarrow> (False, s)
      | (Some pte, s) \<Rightarrow>
          (True, flush_tlb virt
             (s\<lparr>pmem := (pmem s)(pte := (ph AND PTE_ADDR_MASK) OR
                (flags AND NOT PTE_ADDR_MASK) OR PTE_PRESENT)\<rparr>)))"

definition vmm_unmap :: "u64 \<Rightarrow> u64 \<Rightarrow> vmm \<Rightarrow> vmm" where
  "vmm_unmap pml4 virt s =
     (case get_pte pml4 virt False s of
        (None, s) \<Rightarrow> s
      | (Some pte, s) \<Rightarrow> flush_tlb virt (s\<lparr>pmem := (pmem s)(pte := 0)\<rparr>))"

definition vmm_get_phys :: "u64 \<Rightarrow> u64 \<Rightarrow> vmm \<Rightarrow> u64" where
  "vmm_get_phys pml4 virt s =
     (case get_pte pml4 virt False s of
        (None, s) \<Rightarrow> 0
      | (Some pte, s) \<Rightarrow> if pte_is_present (pmem s pte) then pte_get_phys (pmem s pte) else 0)"

text \<open>The mapping loops, which all step both addresses by one page and stop at the first
  failure.\<close>

fun map_pages :: "nat \<Rightarrow> u64 \<Rightarrow> u64 \<Rightarrow> u64 \<Rightarrow> u64 \<Rightarrow> vmm \<Rightarrow> bool \<times> vmm" where
  "map_pages 0 pml4 ph virt flags s = (True, s)"
| "map_pages (Suc n) pml4 ph virt flags s =
     (case vmm_map pml4 ph virt flags s of
        (False, s) \<Rightarrow> (False, s)
      | (True, s) \<Rightarrow> map_pages n pml4 (ph + PAGE_SIZE) (virt + PAGE_SIZE) flags s)"

fun unmap_pages :: "nat \<Rightarrow> u64 \<Rightarrow> u64 \<Rightarrow> vmm \<Rightarrow> vmm" where
  "unmap_pages 0 pml4 virt s = s"
| "unmap_pages (Suc n) pml4 virt s = unmap_pages n pml4 (virt + PAGE_SIZE) (vmm_unmap pml4 virt s)"

text \<open>The frame buffer part shared by \<open>vmm_init\<close> and \<open>create_process\<close>.\<close>

definition map_framebuffer :: "u64 \<Rightarrow> u32 \<Rightarrow> u32 \<Rightarrow> u64 \<Rightarrow> vmm \<Rightarrow> bool \<times> vmm" where
  "map_framebuffer g_fb_addr g_fb_height g_fb_pitch pml4 s =
     (if g_fb_addr \<noteq> 0
      then (let fb_phys_start = g_fb_addr AND NOT (PAGE_SIZE - 1);
                fb_size = ucast g_fb_height * ucast g_fb_pitch;
                fb_pages = (fb_size + PAGE_SIZE - 1) div PAGE_SIZE + 1
            in map_pages (unat fb_pages) pml4 fb_phys_start fb_phys_start
                 (PTE_PRESENT OR PTE_WRITABLE OR PTE_CACHE_DISABLE) s)
      else (True, s))"

definition vmm_init :: "u64 \<Rightarrow> u32 \<Rightarrow> u32 \<Rightarrow> vmm \<Rightarrow> (bool \<times> vmm) option" where
  "vmm_init g_fb_addr g_fb_height g_fb_pitch s =
     (case alloc_table s of
        (pml4, s) \<Rightarrow>
          if pml4 = 0 then Some (False, s)
          else (case map_pages 4096 pml4 0 0 (PTE_PRESENT OR PTE_WRITABLE) s of
            (False, s) \<Rightarrow> Some (False, s)
          | (True, s) \<Rightarrow>
              (case map_framebuffer g_fb_addr g_fb_height g_fb_pitch pml4 s of
                 (False, s) \<Rightarrow> Some (False, s)
               | (True, s) \<Rightarrow>
                   (case map_pages 1024 pml4 0x100000 0xFFFFFFFF80100000
                           (PTE_PRESENT OR PTE_WRITABLE) s of
                      (False, s) \<Rightarrow> Some (False, s)
                    | (True, s) \<Rightarrow> vmm_set_pml4 pml4 s))))"

definition mmio_map :: "u64 \<Rightarrow> u64 \<Rightarrow> vmm \<Rightarrow> u64 \<times> vmm" where
  "mmio_map ph sz s =
     (if vmm_get_pml4 s = 0 then (0, s)
      else let phys_aligned = ph AND NOT (PAGE_SIZE - 1);
               offset = ph - phys_aligned;
               pages = (sz + offset + PAGE_SIZE - 1) div PAGE_SIZE;
               virt_base = mmio_virt_next s;
               s' = s\<lparr>mmio_virt_next := mmio_virt_next s + pages * PAGE_SIZE\<rparr>
           in case map_pages (unat pages) (vmm_get_pml4 s) phys_aligned virt_base
                    (PTE_PRESENT OR PTE_WRITABLE OR PTE_CACHE_DISABLE) s' of
                (False, s'') \<Rightarrow> (0, s'')
              | (True, s'') \<Rightarrow> (virt_base + offset, s''))"

definition mmio_unmap :: "u64 \<Rightarrow> u64 \<Rightarrow> vmm \<Rightarrow> int \<times> vmm" where
  "mmio_unmap virt sz s =
     (if vmm_get_pml4 s = 0 then (- 1, s)
      else let virt_aligned = virt AND NOT (PAGE_SIZE - 1);
               offset = virt - virt_aligned;
               pages = (sz + offset + PAGE_SIZE - 1) div PAGE_SIZE
           in (0, unmap_pages (unat pages) (vmm_get_pml4 s) virt_aligned s))"

text \<open>The report of the page-fault handler before it halts: the words printed for the error
  code, in the order they are printed.\<close>

definition page_fault :: "u64 \<Rightarrow> string list" where
  "page_fault err_code =
     [''Page fault! ( ''] @
     (if err_code AND 0x1 = 0 then [''present ''] else []) @
     (if err_code AND 0x2 \<noteq> 0 then [''read-only ''] else []) @
     (if err_code AND 0x4 \<noteq> 0 then [''user-mode ''] else []) @
     (if err_code AND 0x8 \<noteq> 0 then [''reserved ''] else []) @
     ['') at '']"

section \<open>Addresses of entries\<close>

definition table_addr :: "u64 \<Rightarrow> bool" where
  "table_addr t \<longleftrightarrow> unat t mod 4096 = 0 \<and> unat t < 2 ^ 52"

lemma PTE_ADDR_MASK_mask: "PTE_ADDR_MASK = push_bit 12 (mask 40)"
  by (simp add: PTE_ADDR_MASK_def push_bit_eq_mult mask_eq_exp_minus_1)

lemma bit_PTE_ADDR_MASK: "bit PTE_ADDR_MASK n \<longleftrightarrow> 12 \<le> n \<and> n < 52"
  unfolding PTE_ADDR_MASK_mask by (auto simp: bit_push_bit_iff bit_mask_iff)

lemma aligned_iff: "unat t mod 4096 = 0 \<longleftrightarrow> take_bit 12 t = 0" for t :: u64
  by (simp only: word_unat_eq_iff unsigned_take_bit_eq) (simp add: take_bit_eq_mod)

lemma mod_4096_iff: "unat t mod 4096 = 0 \<longleftrightarrow> (\<forall>n < 12. \<not> bit t n)" for t :: u64
  unfolding aligned_iff by (auto simp: word_eq_bits bit_take_bit_iff)

lemma less_2_52_iff: "unat t < 2 ^ 52 \<longleftrightarrow> (\<forall>n \<ge> 52. \<not> bit t n)" for t :: u64
proof -
  have "unat t < 2 ^ 52 \<longleftrightarrow> take_bit 52 t = t"
    by (simp only: word_unat_eq_iff unsigned_take_bit_eq take_bit_nat_eq_self_iff)
  also have "\<dots> \<longleftrightarrow> (\<forall>n \<ge> 52. \<not> bit t n)"
    unfolding word_eq_bits bit_take_bit_iff by (meson not_le)
  finally show ?thesis .
qed

lemma table_addr_iff: "table_addr t \<longleftrightarrow> t AND PTE_ADDR_MASK = t"
  unfolding table_addr_def mod_4096_iff less_2_52_iff
  by (simp add: word_eq_bits bit_and_iff bit_PTE_ADDR_MASK)
    (meson linorder_not_le)

lemma table_addr_pte [simp]: "table_addr (pte_get_phys e)"
  by (simp add: table_addr_iff pte_get_phys_def and.assoc)

lemma index_less [simp]:
  "PML4_INDEX v < 512" "PDPT_INDEX v < 512" "PD_INDEX v < 512" "PT_INDEX v < 512"
proof -
  have "x AND 0x1FF < 512" for x :: u64
    using word_and_le1 [of x "0x1FF"] by (simp add: word_le_nat_alt word_less_nat_alt)
  then show "PML4_INDEX v < 512" "PDPT_INDEX v < 512" "PD_INDEX v < 512" "PT_INDEX v < 512"
    by (simp_all add: PML4_INDEX_def PDPT_INDEX_def PD_INDEX_def PT_INDEX_def)
qed

lemma unat_entry_addr:
  assumes "table_addr t" "i < 512"
  shows "unat (entry_addr t i) = unat t + 8 * unat i"
proof -
  from assms have "unat i < 512" "unat t < 2 ^ 52"
    by (simp_all add: table_addr_def word_less_nat_alt)
  then show ?thesis by (simp add: entry_addr_def unat_word_ariths)
qed

definition frame_of :: "u64 \<Rightarrow> nat" where
  "frame_of a = unat a div 4096"

lemma frame_of_entry:
  assumes "table_addr t" "i < 512"
  shows "frame_of (entry_addr t i) = frame_of t"
proof -
  from assms(2) have "unat i < 512" by (simp add: word_less_nat_alt)
  with assms show ?thesis
    by (auto simp: frame_of_def unat_entry_addr table_addr_def)
qed

lemma frame_of_inj:
  assumes "table_addr t" "table_addr u" "frame_of t = frame_of u"
  shows "t = u"
proof -
  from assms have "unat t = unat u"
    unfolding frame_of_def table_addr_def by (metis div_mod_decomp)
  then show ?thesis by (simp add: word_unat_eq_iff)
qed

lemma entry_addr_inj:
  assumes "table_addr t" "table_addr u" "i < 512" "j < 512" "entry_addr t i = entry_addr u j"
  shows "t = u \<and> i = j"
proof -
  from assms have "t = u"
    by (metis frame_of_entry frame_of_inj)
  with assms show ?thesis
    by (metis add_left_cancel mult_cancel1 unat_entry_addr word_unat_eq_iff zero_neq_numeral)
qed

lemma frame_of_range:
  assumes "table_addr t"
  shows "t \<le> a \<and> a < t + 4096 \<longleftrightarrow> frame_of a = frame_of t"
proof -
  from assms obtain k where k: "unat t = 4096 * k" "k < 2 ^ 40"
    by (auto simp: table_addr_def mod_eq_0_iff_dvd elim!: dvdE)
  then have "unat (t + 4096) = 4096 * k + 4096" by (simp add: unat_word_ariths)
  with k show ?thesis
    by (auto simp: frame_of_def word_le_nat_alt word_less_nat_alt)
qed

end
