(* ===== verification/Page_Walk.thy ===== *)
theory Page_Walk
  imports Paging
begin

unbundle bit_operations_syntax

text \<open>
  What the page-table code of theory \<open>Paging\<close> implements: the hardware's walk of the
  tables, the invariant of a table tree (every table lives in a frame of its own that the
  physical memory manager counts as used) and the finite map from virtual pages to
  page-table entries that the tree denotes.
\<close>

section \<open>Walking the tables\<close>

fun walk :: "(u64 \<Rightarrow> u64) \<Rightarrow> u64 \<Rightarrow> u64 list \<Rightarrow> u64 option" where
  "walk m t [] = Some t"
| "walk m t (i # is) =
     (if pte_is_present (m (entry_addr t i)) then walk m (pte_get_phys (m (entry_addr t i))) is
      else None)"

definition table_path :: "u64 list \<Rightarrow> bool" where
  "table_path p \<longleftrightarrow> length p \<le> 3 \<and> (\<forall>i \<in> set p. i < 512)"

definition pt_inv :: "u64 \<Rightarrow> vmm \<Rightarrow> bool" where
  "pt_inv r s \<longleftrightarrow> frames_ok (phys s) \<and> table_addr r \<and>
     (\<forall>p t. table_path p \<longrightarrow> walk (pmem s) r p = Some t \<longrightarrow> frame_of t \<in> used_set (phys s)) \<and>
     (\<forall>p q t. table_path p \<longrightarrow> table_path q \<longrightarrow> walk (pmem s) r p = Some t \<longrightarrow>
        walk (pmem s) r q = Some t \<longrightarrow> p = q)"

definition upper_path :: "u64 \<Rightarrow> u64 list" where
  "upper_path v = [PML4_INDEX v, PDPT_INDEX v, PD_INDEX v]"

text \<open>The page-table entry that the tree rooted at \<open>r\<close> holds for a virtual address, 0
  when a table on the way is missing.\<close>

definition pte_of :: "u64 \<Rightarrow> vmm \<Rightarrow> u64 \<Rightarrow> u64" where
  "pte_of r s v =
     (case walk (pmem s) r (upper_path v) of
        None \<Rightarrow> 0
      | Some t \<Rightarrow> pmem s (entry_addr t (PT_INDEX v)))"

lemma walk_snoc:
  "walk m t (p @ [i]) =
     (case walk m t p of
        None \<Rightarrow> None
      | Some u \<Rightarrow> if pte_is_present (m (entry_addr u i))
                  then Some (pte_get_phys (m (entry_addr u i))) else None)"
  by (induction p arbitrary: t) auto

lemma walk_table_addr: "table_addr t \<Longrightarrow> walk m t p = Some u \<Longrightarrow> table_addr u"
proof (induction p arbitrary: t)
  case (Cons i p)
  then show ?case by (metis table_addr_pte walk.simps(2) option.distinct(1))
qed simp

lemma table_path_snoc:
  "table_path (p @ [i]) \<longleftrightarrow> length p < 3 \<and> table_path p \<and> i < 512"
  by (auto simp: table_path_def)

lemma table_path_upper [simp]: "table_path (upper_path v)"
  by (simp add: table_path_def upper_path_def)

lemma length_upper_path [simp]: "length (upper_path v) = 3"
  by (simp add: upper_path_def)

lemma pte_zero [simp]: "\<not> pte_is_present 0" "pte_get_phys 0 = 0"
  by (simp_all add: pte_is_present_def pte_get_phys_def)

lemma pte_present_iff: "pte_is_present e \<longleftrightarrow> bit e 0"
  using word_test_single [of e 0] by (simp add: pte_is_present_def PTE_PRESENT_def)

lemma table_entry:
  assumes "table_addr t"
  shows "pte_is_present (t OR PTE_PRESENT OR PTE_WRITABLE)"
    and "pte_get_phys (t OR PTE_PRESENT OR PTE_WRITABLE) = t"
proof -
  show "pte_is_present (t OR PTE_PRESENT OR PTE_WRITABLE)"
    by (simp add: pte_present_iff bit_or_iff PTE_PRESENT_def)
  have "t AND PTE_ADDR_MASK = t" using assms by (simp add: table_addr_iff)
  then show "pte_get_phys (t OR PTE_PRESENT OR PTE_WRITABLE) = t"
    by (simp add: pte_get_phys_def PTE_PRESENT_def PTE_WRITABLE_def bit.conj_disj_distrib2)
      (simp add: PTE_ADDR_MASK_def)
qed

section \<open>Writing a leaf entry\<close>

lemma pt_invD:
  assumes "pt_inv r s" "table_path p" "walk (pmem s) r p = Some t"
  shows "frame_of t \<in> used_set (phys s)" and "table_addr t"
    and "table_path q \<Longrightarrow> walk (pmem s) r q = Some t \<Longrightarrow> p = q"
  using assms unfolding pt_inv_def by (blast dest: walk_table_addr)+

lemma entry_of_other_table:
  assumes "pt_inv r s" "table_path (q @ [j])" "walk (pmem s) r q = Some u"
    and "table_path p" "walk (pmem s) r p = Some t" "i < 512"
    and "q \<noteq> p \<or> j \<noteq> i"
  shows "entry_addr u j \<noteq> entry_addr t i"
proof
  assume eq: "entry_addr u j = entry_addr t i"
  from assms(2) have q: "table_path q" "j < 512" by (simp_all add: table_path_snoc)
  then have "u = t \<and> j = i"
    using eq assms entry_addr_inj pt_invD(2) by metis
  then show False using assms q pt_invD(3) by metis
qed

lemma walk_leaf_write:
  assumes inv: "pt_inv r s" and t: "walk (pmem s) r (upper_path v) = Some t" and i: "i < 512"
    and p: "table_path p"
  shows "walk ((pmem s)(entry_addr t i := e)) r p = walk (pmem s) r p"
  using p
proof (induction p rule: rev_induct)
  case Nil
  show ?case by simp
next
  case (snoc j q)
  then have q: "table_path q" "length q < 3" by (simp_all add: table_path_snoc)
  have "entry_addr u j \<noteq> entry_addr t i" if "walk (pmem s) r q = Some u" for u
    by (rule entry_of_other_table [OF inv snoc.prems that _ t i]) (use q in auto)
  with snoc.IH [OF q(1)] show ?case by (simp add: walk_snoc split: option.split)
qed

lemma leaf_write_inv [gecko_wf]:
  assumes "pt_inv r s" "walk (pmem s) r (upper_path v) = Some t" "i < 512"
  shows "pt_inv r (s\<lparr>pmem := (pmem s)(entry_addr t i := e)\<rparr>)"
  using assms(1) walk_leaf_write [OF assms] by (simp add: pt_inv_def)

section \<open>Virtual page numbers\<close>

definition vpn :: "u64 \<Rightarrow> u64" where
  "vpn v = take_bit 36 (drop_bit 12 v)"

lemma bit_index:
  "bit (PML4_INDEX v) n \<longleftrightarrow> n < 9 \<and> bit v (n + 39)"
  "bit (PDPT_INDEX v) n \<longleftrightarrow> n < 9 \<and> bit v (n + 30)"
  "bit (PD_INDEX v) n \<longleftrightarrow> n < 9 \<and> bit v (n + 21)"
  "bit (PT_INDEX v) n \<longleftrightarrow> n < 9 \<and> bit v (n + 12)"
proof -
  have "bit (0x1FF :: u64) n \<longleftrightarrow> n < 9" for n
    using bit_mask_iff [of 9 n, where 'a = u64] by (auto simp: mask_eq_exp_minus_1)
  then show
    "bit (PML4_INDEX v) n \<longleftrightarrow> n < 9 \<and> bit v (n + 39)"
    "bit (PDPT_INDEX v) n \<longleftrightarrow> n < 9 \<and> bit v (n + 30)"
    "bit (PD_INDEX v) n \<longleftrightarrow> n < 9 \<and> bit v (n + 21)"
    "bit (PT_INDEX v) n \<longleftrightarrow> n < 9 \<and> bit v (n + 12)"
    by (auto simp: PML4_INDEX_def PDPT_INDEX_def PD_INDEX_def PT_INDEX_def bit_and_iff
        bit_drop_bit_eq add.commute)
qed

lemma bit_vpn: "bit (vpn v) n \<longleftrightarrow> n < 36 \<and> bit v (n + 12)"
  by (simp add: vpn_def bit_take_bit_iff bit_drop_bit_eq add.commute)

lemma vpn_eq_iff:
  "vpn v = vpn w \<longleftrightarrow> upper_path v = upper_path w \<and> PT_INDEX v = PT_INDEX w" (is "?l \<longleftrightarrow> ?r")
proof
  assume ?l
  then have b: "n < 36 \<Longrightarrow> bit v (n + 12) = bit w (n + 12)" for n
    by (metis bit_vpn)
  have "n < 9 \<Longrightarrow> bit v (n + 39) = bit w (n + 39)"
    "n < 9 \<Longrightarrow> bit v (n + 30) = bit w (n + 30)"
    "n < 9 \<Longrightarrow> bit v (n + 21) = bit w (n + 21)" for n
    using b [of "n + 27"] b [of "n + 18"] b [of "n + 9"] by (simp_all add: add.assoc)
  with b show ?r
    by (auto simp: upper_path_def word_eq_bits bit_index)
next
  assume ?r
  then have b: "n < 9 \<Longrightarrow> bit v (n + 12) = bit w (n + 12) \<and> bit v (n + 21) = bit w (n + 21) \<and>
    bit v (n + 30) = bit w (n + 30) \<and> bit v (n + 39) = bit w (n + 39)" for n
    by (auto simp: upper_path_def word_eq_bits bit_index)
  have "bit v (n + 12) = bit w (n + 12)" if "n < 36" for n
  proof -
    consider "n < 9" | "9 \<le> n" "n - 9 < 9" | "18 \<le> n" "n - 18 < 9" | "27 \<le> n" "n - 27 < 9"
      using \<open>n < 36\<close> by linarith
    then show ?thesis
    proof cases
      case 1 then show ?thesis using b by blast
    next
      case 2 then show ?thesis using b [of "n - 9"] by (simp add: add.commute)
    next
      case 3 then show ?thesis using b [of "n - 18"] by (simp add: add.commute)
    next
      case 4 then show ?thesis using b [of "n - 27"] by (simp add: add.commute)
    qed
  qed
  then show ?l by (auto simp: word_eq_bits bit_vpn)
qed

lemma pte_of_leaf_write:
  assumes inv: "pt_inv r s" and t: "walk (pmem s) r (upper_path v) = Some t"
  shows "pte_of r (s\<lparr>pmem := (pmem s)(entry_addr t (PT_INDEX v) := e)\<rparr>) w =
     (if vpn w = vpn v then e else pte_of r s w)"
proof -
  have i: "PT_INDEX v < 512" by simp
  have "entry_addr u (PT_INDEX w) \<noteq> entry_addr t (PT_INDEX v)"
    if "walk (pmem s) r (upper_path w) = Some u" "vpn w \<noteq> vpn v" for u
  proof
    assume "entry_addr u (PT_INDEX w) = entry_addr t (PT_INDEX v)"
    moreover have "table_addr u" "table_addr t"
      using pt_invD(2) [OF inv table_path_upper] that t by blast+
    ultimately have "u = t" "PT_INDEX w = PT_INDEX v"
      by (metis entry_addr_inj index_less(4))+
    then have "upper_path w = upper_path v"
      using pt_invD(3) [OF inv table_path_upper that(1) table_path_upper] t by blast
    with \<open>PT_INDEX w = PT_INDEX v\<close> that(2) show False by (simp add: vpn_eq_iff)
  qed
  with t show ?thesis
    by (auto simp: pte_of_def walk_leaf_write [OF inv t i] vpn_eq_iff split: option.split)
qed

section \<open>Inserting a fresh table\<close>

text \<open>What \<open>alloc_table\<close> gives, from the contract of the frame allocator.\<close>

lemma alloc_table_cases:
  assumes "frames_ok (phys s)" "alloc_table s = (t, s')"
  obtains (null) "t = 0" "s' = s" "fst (allocate_blocks 1 (phys s)) = 0"
  | (table) "t \<noteq> 0" "table_addr t" "frame_of t \<notin> used_set (phys s)"
      "used_set (phys s') = insert (frame_of t) (used_set (phys s))" "frames_ok (phys s')"
      "s' = s\<lparr>phys := phys s', pmem := (\<lambda>a. if frame_of a = frame_of t then 0 else pmem s a)\<rparr>"
proof -
  obtain a p where al: "allocate_blocks 1 (phys s) = (a, p)" by fastforce
  show thesis
  proof (cases "a = 0")
    case True
    with al pf.alloc_null [OF assms(1)] have "p = phys s" by blast
    with True al assms(2) show thesis by (intro null) (auto simp: alloc_table_def)
  next
    case False
    have ta: "table_addr a"
      using pf.alloc_aligned [OF assms(1) al] pf.alloc_bound [OF assms(1) al]
      by (simp add: table_addr_def)
    have "t = a"
      "s' = s\<lparr>phys := p, pmem := (\<lambda>x. if frame_of x = frame_of a then 0 else pmem s x)\<rparr>"
      using assms(2) False by (auto simp: alloc_table_def al frame_of_range [OF ta])
    then show thesis
      using False ta pf.alloc_fresh [OF assms(1) al] pf.alloc_used [OF assms(1) al]
        pf.alloc_inv [OF assms(1) al]
      by (intro table) (simp_all add: frame_of_def)
  qed
qed

lemma walk_insert_table:
  assumes inv: "pt_inv r s" and u: "walk (pmem s) r p0 = Some u" and p0: "table_path (p0 @ [i])"
    and np: "\<not> pte_is_present (pmem s (entry_addr u i))"
    and t: "table_addr t" "frame_of t \<notin> used_set (phys s)"
    and m: "m = (\<lambda>a. if frame_of a = frame_of t then 0 else pmem s a)
                  (entry_addr u i := t OR PTE_PRESENT OR PTE_WRITABLE)"
    and p: "table_path p"
  shows "walk m r p = (if p = p0 @ [i] then Some t else walk (pmem s) r p)"
  using p
proof (induction p rule: rev_induct)
  case Nil
  show ?case by simp
next
  case (snoc j q)
  from snoc.prems have q: "table_path q" "j < 512" by (simp_all add: table_path_snoc)
  from p0 have p0': "table_path p0" "i < 512" by (simp_all add: table_path_snoc)
  have fu: "frame_of (entry_addr u i) \<noteq> frame_of t"
    using pt_invD [OF inv p0'(1) u] t(2) p0'(2) by (auto simp: frame_of_entry)
  show ?case
  proof (cases "q = p0 @ [i]")
    case True
    have "frame_of (entry_addr t j) = frame_of t" using t(1) q(2) by (rule frame_of_entry)
    with fu have "m (entry_addr t j) = 0" by (auto simp: m)
    moreover have "walk m r q = Some t" using True snoc.IH [OF q(1)] by simp
    moreover have "walk (pmem s) r q = None" using True u np by (simp add: walk_snoc)
    ultimately show ?thesis using True by (simp add: walk_snoc del: append_assoc)
  next
    case False
    show ?thesis
    proof (cases "walk (pmem s) r q")
      case None
      with False snoc.IH [OF q(1)] u show ?thesis by (auto simp: walk_snoc)
    next
      case (Some v)
      have fv: "frame_of (entry_addr v j) \<noteq> frame_of t"
        using pt_invD [OF inv q(1) Some] t(2) q(2) by (auto simp: frame_of_entry)
      show ?thesis
      proof (cases "q = p0 \<and> j = i")
        case True
        with Some u snoc.IH [OF q(1)] False show ?thesis
          by (simp add: walk_snoc m table_entry [OF t(1)])
      next
        case other: False
        then have "entry_addr v j \<noteq> entry_addr u i"
          by (intro entry_of_other_table [OF inv snoc.prems Some p0'(1) u p0'(2)]) auto
        with fv have "m (entry_addr v j) = pmem s (entry_addr v j)" by (simp add: m)
        with Some snoc.IH [OF q(1)] False other show ?thesis by (auto simp: walk_snoc)
      qed
    qed
  qed
qed

lemma insert_table_inv [gecko_wf]:
  assumes inv: "pt_inv r s" and u: "walk (pmem s) r p0 = Some u" and p0: "table_path (p0 @ [i])"
    and np: "\<not> pte_is_present (pmem s (entry_addr u i))"
    and t: "table_addr t" "frame_of t \<notin> used_set (phys s)"
    and m: "pmem s' = (\<lambda>a. if frame_of a = frame_of t then 0 else pmem s a)
                  (entry_addr u i := t OR PTE_PRESENT OR PTE_WRITABLE)"
    and s': "used_set (phys s') = insert (frame_of t) (used_set (phys s))" "frames_ok (phys s')"
  shows "pt_inv r s'"
proof -
  note w = walk_insert_table [OF inv u p0 np t m]
  from inv have "table_addr r" by (simp add: pt_inv_def)
  moreover have "frame_of x \<in> used_set (phys s')" if "table_path p" "walk (pmem s') r p = Some x" for p x
    using that pt_invD(1) [OF inv that(1)] by (auto simp: w s' split: if_splits)
  moreover have "p = q" if "table_path p" "table_path q" "walk (pmem s') r p = Some x"
    "walk (pmem s') r q = Some x" for p q x
    using that pt_invD(1) [OF inv that(1)] pt_invD(1) [OF inv that(2)] t(2) pt_invD(3) [OF inv]
    by (auto simp: w split: if_splits)
  ultimately show ?thesis using s' unfolding pt_inv_def by blast
qed

lemma pte_of_insert_table:
  assumes inv: "pt_inv r s" and u: "walk (pmem s) r p0 = Some u" and p0: "table_path (p0 @ [i])"
    and np: "\<not> pte_is_present (pmem s (entry_addr u i))"
    and t: "table_addr t" "frame_of t \<notin> used_set (phys s)"
    and m: "pmem s' = (\<lambda>a. if frame_of a = frame_of t then 0 else pmem s a)
                  (entry_addr u i := t OR PTE_PRESENT OR PTE_WRITABLE)"
  shows "pte_of r s' v = pte_of r s v"
proof -
  note w = walk_insert_table [OF inv u p0 np t m]
  from p0 have p0': "table_path p0" "i < 512" "length p0 < 3" by (simp_all add: table_path_snoc)
  have fu: "frame_of (entry_addr u i) \<noteq> frame_of t"
    using pt_invD [OF inv p0'(1) u] t(2) p0'(2) by (auto simp: frame_of_entry)
  show ?thesis
  proof (cases "upper_path v = p0 @ [i]")
    case True
    have "frame_of (entry_addr t (PT_INDEX v)) = frame_of t" using t(1) by (simp add: frame_of_entry)
    with fu have "pmem s' (entry_addr t (PT_INDEX v)) = 0" by (auto simp: m)
    with True w [OF table_path_upper, of v] u np show ?thesis
      by (simp add: pte_of_def) (simp add: walk_snoc)
  next
    case False
    have "pmem s' (entry_addr x (PT_INDEX v)) = pmem s (entry_addr x (PT_INDEX v))"
      if x: "walk (pmem s) r (upper_path v) = Some x" for x
    proof -
      have xa: "table_addr x" "frame_of x \<noteq> frame_of t"
        using pt_invD [OF inv table_path_upper x] t(2) by auto
      moreover have "entry_addr x (PT_INDEX v) \<noteq> entry_addr u i"
      proof
        assume "entry_addr x (PT_INDEX v) = entry_addr u i"
        then have "x = u"
          using entry_addr_inj xa(1) pt_invD(2) [OF inv p0'(1) u] p0'(2) index_less(4) by blast
        then have "upper_path v = p0"
          using pt_invD(3) [OF inv table_path_upper x p0'(1)] u by simp
        with p0'(3) show False using length_upper_path [of v] by simp
      qed
      ultimately show ?thesis by (simp add: m frame_of_entry)
    qed
    with False w [OF table_path_upper, of v] show ?thesis
      by (auto simp: pte_of_def split: option.split)
  qed
qed

section \<open>The operations\<close>

text \<open>\<open>same_tree r s s'\<close>: \<open>s'\<close> is another well-formed state with the same translation and at
  least the tables of \<open>s\<close>.\<close>

definition same_tree :: "u64 \<Rightarrow> vmm \<Rightarrow> vmm \<Rightarrow> bool" where
  "same_tree r s s' \<longleftrightarrow> pt_inv r s' \<and> (\<forall>v. pte_of r s' v = pte_of r s v) \<and>
     (\<forall>p t. table_path p \<longrightarrow> walk (pmem s) r p = Some t \<longrightarrow> walk (pmem s') r p = Some t) \<and>
     current_pml4 s' = current_pml4 s \<and> mmio_virt_next s' = mmio_virt_next s \<and>
     cr3 s' = cr3 s \<and> flushed s' = flushed s"

lemma same_tree_refl: "pt_inv r s \<Longrightarrow> same_tree r s s"
  by (simp add: same_tree_def)

lemma same_tree_trans: "same_tree r s s' \<Longrightarrow> same_tree r s' s'' \<Longrightarrow> same_tree r s s''"
  by (simp add: same_tree_def)

lemma get_table_spec:
  assumes inv: "pt_inv r s" and u: "walk (pmem s) r p0 = Some u" and p0: "table_path (p0 @ [i])"
    and g: "get_table (entry_addr u i) create s = (res, s')"
  shows "same_tree r s s'"
    and "res = Some t \<Longrightarrow> walk (pmem s') r (p0 @ [i]) = Some t"
    and "\<not> create \<Longrightarrow> s' = s \<and> res = walk (pmem s) r (p0 @ [i])"
    and "res = None \<Longrightarrow> create \<Longrightarrow> fst (allocate_blocks 1 (phys s')) = 0"
proof -
  have "same_tree r s s' \<and> (res = Some t \<longrightarrow> walk (pmem s') r (p0 @ [i]) = Some t) \<and>
    (\<not> create \<longrightarrow> s' = s \<and> res = walk (pmem s) r (p0 @ [i])) \<and>
    (res = None \<longrightarrow> create \<longrightarrow> fst (allocate_blocks 1 (phys s')) = 0)"
  proof (cases "pte_is_present (pmem s (entry_addr u i)) \<or> \<not> create")
    case True
    with g u inv show ?thesis
      by (auto simp: get_table_def walk_snoc same_tree_refl split: if_splits)
  next
    case False
    obtain a s1 where al: "alloc_table s = (a, s1)" by fastforce
    from inv have ok: "frames_ok (phys s)" by (simp add: pt_inv_def)
    show ?thesis
    proof (rule alloc_table_cases [OF ok al])
      assume "a = 0" "s1 = s" "fst (allocate_blocks 1 (phys s)) = 0"
      with g False al inv show ?thesis by (auto simp: get_table_def same_tree_refl)
    next
      assume a: "a \<noteq> 0" "table_addr a" "frame_of a \<notin> used_set (phys s)"
        "used_set (phys s1) = insert (frame_of a) (used_set (phys s))" "frames_ok (phys s1)"
        and s1: "s1 = s\<lparr>phys := phys s1, pmem := (\<lambda>x. if frame_of x = frame_of a then 0 else pmem s x)\<rparr>"
      have m1: "pmem s1 = (\<lambda>x. if frame_of x = frame_of a then 0 else pmem s x)"
        by (subst s1) simp
      have res: "res = Some a"
        and s': "s' = s1\<lparr>pmem := (pmem s1)(entry_addr u i := a OR PTE_PRESENT OR PTE_WRITABLE)\<rparr>"
        using g False al a(1) by (auto simp: get_table_def Let_def table_entry [OF a(2)])
      have m: "pmem s' = (\<lambda>x. if frame_of x = frame_of a then 0 else pmem s x)
                  (entry_addr u i := a OR PTE_PRESENT OR PTE_WRITABLE)"
        by (simp add: s' m1)
      have np: "\<not> pte_is_present (pmem s (entry_addr u i))" using False by simp
      have ph: "phys s' = phys s1" by (simp add: s')
      have fields: "current_pml4 s' = current_pml4 s" "mmio_virt_next s' = mmio_virt_next s"
        "cr3 s' = cr3 s" "flushed s' = flushed s"
        by (simp_all add: s') (subst s1, simp)+
      have "walk (pmem s) r (p0 @ [i]) = None" using u np by (simp add: walk_snoc)
      then have "same_tree r s s'"
        unfolding same_tree_def
        using insert_table_inv [OF inv u p0 np a(2,3) m] pte_of_insert_table [OF inv u p0 np a(2,3) m]
          walk_insert_table [OF inv u p0 np a(2,3) m] a(4,5) ph fields
        by auto
      then show ?thesis
        using walk_insert_table [OF inv u p0 np a(2,3) m p0] res False by auto
    qed
  qed
  then show "same_tree r s s'"
    and "res = Some t \<Longrightarrow> walk (pmem s') r (p0 @ [i]) = Some t"
    and "\<not> create \<Longrightarrow> s' = s \<and> res = walk (pmem s) r (p0 @ [i])"
    and "res = None \<Longrightarrow> create \<Longrightarrow> fst (allocate_blocks 1 (phys s')) = 0"
    by blast+
qed

lemma table_path_prefixes [simp]:
  "table_path ([] @ [PML4_INDEX v])" "table_path ([PML4_INDEX v] @ [PDPT_INDEX v])"
  "table_path ([PML4_INDEX v, PDPT_INDEX v] @ [PD_INDEX v])"
  by (simp_all add: table_path_def)

text \<open>A whole walk with allocation: each level by \<open>get_table_spec\<close>.\<close>

lemma get_pte_spec:
  assumes inv: "pt_inv r s" and g: "get_pte r v create s = (res, s')"
  shows "same_tree r s s'"
    and "res = Some a \<Longrightarrow>
           \<exists>t. walk (pmem s') r (upper_path v) = Some t \<and> a = entry_addr t (PT_INDEX v)"
    and "res = None \<Longrightarrow> create \<Longrightarrow> fst (allocate_blocks 1 (phys s')) = 0"
proof -
  obtain r1 s1 where g1: "get_table (entry_addr r (PML4_INDEX v)) create s = (r1, s1)" by fastforce
  note t1 = get_table_spec [OF inv walk.simps(1) table_path_prefixes(1) g1]
  from t1(1) have inv1: "pt_inv r s1" by (simp add: same_tree_def)
  have "same_tree r s s' \<and>
    (res = Some a \<longrightarrow>
       (\<exists>t. walk (pmem s') r (upper_path v) = Some t \<and> a = entry_addr t (PT_INDEX v))) \<and>
    (res = None \<longrightarrow> create \<longrightarrow> fst (allocate_blocks 1 (phys s')) = 0)"
  proof (cases r1)
    case None
    with g g1 t1 show ?thesis by (auto simp: get_pte_def)
  next
    case (Some pdpt)
    obtain r2 s2 where g2: "get_table (entry_addr pdpt (PDPT_INDEX v)) create s1 = (r2, s2)" by fastforce
    have w1: "walk (pmem s1) r [PML4_INDEX v] = Some pdpt" using t1(2) [OF Some] by simp
    note t2 = get_table_spec [OF inv1 w1 table_path_prefixes(2) g2]
    from t2(1) have inv2: "pt_inv r s2" by (simp add: same_tree_def)
    note tr2 = same_tree_trans [OF t1(1) t2(1)]
    show ?thesis
    proof (cases r2)
      case None
      with Some g g1 g2 t2 tr2 show ?thesis by (auto simp: get_pte_def)
    next
      case (Some pd)
      obtain r3 s3 where g3: "get_table (entry_addr pd (PD_INDEX v)) create s2 = (r3, s3)" by fastforce
      have w2: "walk (pmem s2) r [PML4_INDEX v, PDPT_INDEX v] = Some pd"
        using t2(2) [OF Some] by simp
      note t3 = get_table_spec [OF inv2 w2 table_path_prefixes(3) g3]
      note tr3 = same_tree_trans [OF tr2 t3(1)]
      show ?thesis
        using \<open>r1 = Some pdpt\<close> Some g g1 g2 g3 t3(2,4) tr3
        by (cases r3) (auto simp: get_pte_def upper_path_def)
    qed
  qed
  then show "same_tree r s s'"
    and "res = Some a \<Longrightarrow>
           \<exists>t. walk (pmem s') r (upper_path v) = Some t \<and> a = entry_addr t (PT_INDEX v)"
    and "res = None \<Longrightarrow> create \<Longrightarrow> fst (allocate_blocks 1 (phys s')) = 0"
    by blast+
qed

lemma get_pte_no_create:
  "get_pte r v False s =
     (map_option (\<lambda>t. entry_addr t (PT_INDEX v)) (walk (pmem s) r (upper_path v)), s)"
  by (simp add: get_pte_def get_table_def upper_path_def split: prod.split)

definition new_pte :: "u64 \<Rightarrow> u64 \<Rightarrow> u64" where
  "new_pte ph flags = (ph AND PTE_ADDR_MASK) OR (flags AND NOT PTE_ADDR_MASK) OR PTE_PRESENT"

lemma flush_tlb_simps [simp]:
  "pt_inv r (flush_tlb v s) = pt_inv r s" "pte_of r (flush_tlb v s) = pte_of r s"
  "phys (flush_tlb v s) = phys s" "flushed (flush_tlb v s) = v # flushed s"
  "current_pml4 (flush_tlb v s) = current_pml4 s" "mmio_virt_next (flush_tlb v s) = mmio_virt_next s"
  "cr3 (flush_tlb v s) = cr3 s"
  by (auto simp: flush_tlb_def pt_inv_def pte_of_def fun_eq_iff split: option.split)

lemma vmm_map_success:
  assumes inv: "pt_inv r s" and c: "vmm_map r ph v flags s = (True, s')"
  shows "pt_inv r s'" and "pte_of r s' w = (if vpn w = vpn v then new_pte ph flags else pte_of r s w)"
    and "flushed s' = v # flushed s" and "current_pml4 s' = current_pml4 s"
    and "mmio_virt_next s' = mmio_virt_next s" and "cr3 s' = cr3 s"
proof -
  obtain a s1 where g: "get_pte r v True s = (Some a, s1)"
    using c by (auto simp: vmm_map_def split: prod.splits option.splits)
  note sp = get_pte_spec [OF inv g]
  from sp(2) obtain t where t: "walk (pmem s1) r (upper_path v) = Some t"
    and a: "a = entry_addr t (PT_INDEX v)" by blast
  from sp(1) have inv1: "pt_inv r s1" and eq: "pte_of r s1 w = pte_of r s w"
    and fields: "flushed s1 = flushed s" "current_pml4 s1 = current_pml4 s"
      "mmio_virt_next s1 = mmio_virt_next s" "cr3 s1 = cr3 s"
    by (simp_all add: same_tree_def)
  have s': "s' = flush_tlb v (s1\<lparr>pmem := (pmem s1)(entry_addr t (PT_INDEX v) := new_pte ph flags)\<rparr>)"
    using c g a by (simp add: vmm_map_def new_pte_def)
  show "pt_inv r s'" using leaf_write_inv [OF inv1 t] by (simp add: s')
  show "pte_of r s' w = (if vpn w = vpn v then new_pte ph flags else pte_of r s w)"
    using pte_of_leaf_write [OF inv1 t] eq by (simp add: s')
  show "flushed s' = v # flushed s" "current_pml4 s' = current_pml4 s"
    "mmio_virt_next s' = mmio_virt_next s" "cr3 s' = cr3 s"
    using fields by (simp_all add: s')
qed

lemma vmm_map_failure:
  assumes inv: "pt_inv r s" and c: "vmm_map r ph v flags s = (False, s')"
  shows "same_tree r s s'" and "fst (allocate_blocks 1 (phys s')) = 0"
proof -
  have g: "get_pte r v True s = (None, s')"
    using c by (auto simp: vmm_map_def split: prod.splits option.splits)
  show "same_tree r s s'" "fst (allocate_blocks 1 (phys s')) = 0"
    using get_pte_spec [OF inv g] by simp_all
qed

lemma vmm_unmap_inv [gecko_wf]: "pt_inv r s \<Longrightarrow> pt_inv r (vmm_unmap r v s)"
  by (auto simp: vmm_unmap_def get_pte_no_create leaf_write_inv split: option.split)

lemma pte_of_unmap:
  "pt_inv r s \<Longrightarrow> pte_of r (vmm_unmap r v s) w = (if vpn w = vpn v then 0 else pte_of r s w)"
proof (cases "walk (pmem s) r (upper_path v)")
  case None
  then have "vpn w = vpn v \<Longrightarrow> pte_of r s w = 0" by (simp add: pte_of_def vpn_eq_iff)
  with None show ?thesis by (simp add: vmm_unmap_def get_pte_no_create)
qed (simp add: vmm_unmap_def get_pte_no_create pte_of_leaf_write)

lemma vmm_unmap_fields [simp]:
  "phys (vmm_unmap r v s) = phys s" "current_pml4 (vmm_unmap r v s) = current_pml4 s"
  "mmio_virt_next (vmm_unmap r v s) = mmio_virt_next s" "cr3 (vmm_unmap r v s) = cr3 s"
  by (simp_all add: vmm_unmap_def get_pte_no_create split: option.split)

lemma vmm_get_phys_pte_of:
  "vmm_get_phys r v s =
     (if pte_is_present (pte_of r s v) then pte_get_phys (pte_of r s v) else 0)"
  by (simp add: vmm_get_phys_def get_pte_no_create pte_of_def split: option.split)

lemma new_pte_present [simp]: "pte_is_present (new_pte ph flags)"
  by (simp add: new_pte_def pte_present_iff bit_or_iff PTE_PRESENT_def)

lemma new_pte_phys [simp]: "pte_get_phys (new_pte ph flags) = ph AND PTE_ADDR_MASK"
proof -
  have "PTE_PRESENT AND PTE_ADDR_MASK = 0" by (simp add: PTE_PRESENT_def PTE_ADDR_MASK_def)
  moreover have "flags AND NOT PTE_ADDR_MASK AND PTE_ADDR_MASK = 0"
    by (simp add: and.assoc)
  ultimately show ?thesis
    by (simp add: new_pte_def pte_get_phys_def bit.conj_disj_distrib2 and.assoc)
qed

end
