(* ===== verification/Address_Space.thy ===== *)
theory Address_Space
  imports Page_Walk
begin

unbundle bit_operations_syntax

text \<open>
  The contract of an address space (map one page, remove one page, read an entry), the
  range operations any implementation of it supports, and the interpretation of both on
  \<open>vmm_map\<close>, \<open>vmm_unmap\<close>, \<open>map_pages\<close> and \<open>unmap_pages\<close>.
\<close>

section \<open>Consecutive pages\<close>

lemma mod_add_cancel_small:
  fixes j k N :: nat
  assumes "(a + k) mod N = (a + j) mod N" "k < N" "j < N"
  shows "k = j"
  using assms
proof (induction j k rule: linorder_wlog)
  case (le j k)
  then have "N dvd (a + k) - (a + j)" by (simp add: mod_eq_dvd_iff_nat)
  then show ?case using le by (auto dest!: dvd_imp_le)
next
  case (sym j k)
  then show ?case by metis
qed

lemma unat_vpn_add:
  assumes "k < 2 ^ 36"
  shows "unat (vpn (v + of_nat k * 4096)) = (unat v div 4096 + k) mod 2 ^ 36"
proof -
  let ?y = "unat v + k * 4096"
  have k: "unat (of_nat k :: u64) = k" using assms by (intro unat_of_nat_small) simp
  have "unat (of_nat k * 4096 :: u64) = k * 4096"
    using assms by (simp add: unat_word_ariths k)
  then have "unat (v + of_nat k * 4096) = ?y mod 2 ^ 64" by (simp add: unat_word_ariths)
  then have "unat (vpn (v + of_nat k * 4096)) = (?y mod 2 ^ 64) div 4096 mod 2 ^ 36"
    by (simp only: vpn_def unsigned_take_bit_eq unsigned_drop_bit_eq)
      (simp add: take_bit_eq_mod drop_bit_eq_div)
  also have "(?y mod 2 ^ 64) div 4096 = (?y div 4096) mod 2 ^ 52"
    using mod_mult2_eq [of ?y 4096 "2 ^ 52"] by simp
  also have "\<dots> mod 2 ^ 36 = (?y div 4096) mod 2 ^ 36"
    by (simp add: mod_mod_cancel)
  finally show ?thesis by (simp add: add.commute)
qed

lemma vpn_add_inj:
  assumes "vpn (v + of_nat j * 4096) = vpn (v + of_nat k * 4096)" "j < 2 ^ 36" "k < 2 ^ 36"
  shows "j = k"
  using mod_add_cancel_small [of "unat v div 4096" j "2 ^ 36" k] assms
  by (metis unat_vpn_add)

lemma page_step: "v + 4096 + of_nat k * 4096 = v + of_nat (Suc k) * (4096 :: u64)"
  by (simp add: algebra_simps)

section \<open>The contract\<close>

locale address_space =
  fixes map_page :: "u64 \<Rightarrow> u64 \<Rightarrow> u64 \<Rightarrow> 's \<Rightarrow> bool \<times> 's"
    and unmap_page :: "u64 \<Rightarrow> 's \<Rightarrow> 's"
    and entry :: "'s \<Rightarrow> u64 \<Rightarrow> u64"
    and inv :: "'s \<Rightarrow> bool"
  assumes entry_page: "vpn w = vpn v \<Longrightarrow> entry s w = entry s v"
    and map_inv: "inv s \<Longrightarrow> map_page ph v fl s = (b, s') \<Longrightarrow> inv s'"
    and map_entry: "inv s \<Longrightarrow> map_page ph v fl s = (b, s') \<Longrightarrow>
          entry s' w = (if b \<and> vpn w = vpn v then new_pte ph fl else entry s w)"
    and unmap_inv: "inv s \<Longrightarrow> inv (unmap_page v s)"
    and unmap_entry: "inv s \<Longrightarrow> entry (unmap_page v s) w = (if vpn w = vpn v then 0 else entry s w)"
begin

text \<open>Mapping and unmapping a page that was not mapped restores every translation.\<close>

lemma unmap_after_map:
  assumes "inv s" "map_page ph v fl s = (True, s')" "entry s v = 0"
  shows "entry (unmap_page v s') w = entry s w"
  using assms(3) entry_page [of w v s] by (simp add: unmap_entry [OF map_inv [OF assms(1,2)]] map_entry [OF assms(1,2)])

end

locale address_range = address_space +
  fixes map_range :: "nat \<Rightarrow> u64 \<Rightarrow> u64 \<Rightarrow> u64 \<Rightarrow> 's \<Rightarrow> bool \<times> 's"
    and unmap_range :: "nat \<Rightarrow> u64 \<Rightarrow> 's \<Rightarrow> 's"
  assumes map_range_0: "map_range 0 ph v fl s = (True, s)"
    and map_range_Suc: "map_range (Suc n) ph v fl s =
          (case map_page ph v fl s of
             (b, s') \<Rightarrow> if b then map_range n (ph + 4096) (v + 4096) fl s' else (False, s'))"
    and unmap_range_0: "unmap_range 0 v s = s"
    and unmap_range_Suc: "unmap_range (Suc n) v s = unmap_range n (v + 4096) (unmap_page v s)"
begin

lemma map_range_SucE:
  assumes "map_range (Suc n) ph v fl s = (b, s')"
  obtains (fail) "map_page ph v fl s = (False, s')" "\<not> b"
  | (step) s1 where "map_page ph v fl s = (True, s1)"
      "map_range n (ph + 4096) (v + 4096) fl s1 = (b, s')"
  using assms by (cases "map_page ph v fl s") (auto simp: map_range_Suc split: if_splits)

lemma map_range_inv: "inv s \<Longrightarrow> map_range n ph v fl s = (b, s') \<Longrightarrow> inv s'"
proof (induction n arbitrary: ph v s)
  case 0
  then show ?case by (simp add: map_range_0)
next
  case (Suc n)
  from Suc.prems(2) show ?case
    by (rule map_range_SucE) (use Suc map_inv in blast)+
qed

lemma map_range_outside:
  assumes "inv s" "map_range n ph v fl s = (b, s')"
    and "\<And>k. k < n \<Longrightarrow> vpn w \<noteq> vpn (v + of_nat k * 4096)"
  shows "entry s' w = entry s w"
  using assms
proof (induction n arbitrary: ph v s)
  case 0
  then show ?case by (simp add: map_range_0)
next
  case (Suc n)
  have v: "vpn w \<noteq> vpn v" using Suc.prems(3) [of 0] by simp
  from Suc.prems(2) show ?case
  proof (rule map_range_SucE)
    assume "map_page ph v fl s = (False, s')"
    with Suc.prems(1) show ?thesis by (simp add: map_entry)
  next
    fix s1 assume s1: "map_page ph v fl s = (True, s1)"
      "map_range n (ph + 4096) (v + 4096) fl s1 = (b, s')"
    have "entry s' w = entry s1 w"
      using Suc.prems(3) by (intro Suc.IH [OF map_inv [OF Suc.prems(1) s1(1)] s1(2)])
        (metis Suc_less_eq page_step)
    with v show ?thesis by (simp add: map_entry [OF Suc.prems(1) s1(1)])
  qed
qed

lemma map_range_inside:
  assumes "inv s" "map_range n ph v fl s = (True, s')" "n \<le> 2 ^ 36" "k < n"
    and "vpn w = vpn (v + of_nat k * 4096)"
  shows "entry s' w = new_pte (ph + of_nat k * 4096) fl"
  using assms
proof (induction n arbitrary: ph v s k)
  case 0
  then show ?case by simp
next
  case (Suc n)
  from Suc.prems(2) obtain s1 where s1: "map_page ph v fl s = (True, s1)"
    "map_range n (ph + 4096) (v + 4096) fl s1 = (True, s')"
    by (rule map_range_SucE) auto
  note inv1 = map_inv [OF Suc.prems(1) s1(1)]
  show ?case
  proof (cases k)
    case 0
    have "vpn w \<noteq> vpn (v + 4096 + of_nat j * 4096)" if "j < n" for j
      using vpn_add_inj [of v 0 "Suc j"] that Suc.prems(3,5) 0 unfolding page_step by auto
    then have "entry s' w = entry s1 w" by (rule map_range_outside [OF inv1 s1(2)])
    with 0 Suc.prems(5) show ?thesis by (simp add: map_entry [OF Suc.prems(1) s1(1)])
  next
    case (Suc j)
    have "entry s' w = new_pte (ph + 4096 + of_nat j * 4096) fl"
      using Suc Suc.prems by (intro Suc.IH [OF inv1 s1(2)]) (simp_all add: page_step del: of_nat_Suc)
    with Suc show ?thesis by (simp only: page_step)
  qed
qed

lemma unmap_range_inv: "inv s \<Longrightarrow> inv (unmap_range n v s)"
  by (induction n arbitrary: v s) (simp_all add: unmap_range_0 unmap_range_Suc unmap_inv)

lemma unmap_range_entry:
  "inv s \<Longrightarrow> entry (unmap_range n v s) w =
     (if \<exists>k < n. vpn w = vpn (v + of_nat k * 4096) then 0 else entry s w)"
proof (induction n arbitrary: v s)
  case 0
  then show ?case by (simp add: unmap_range_0)
next
  case (Suc n)
  have ex: "(\<exists>k < Suc n. vpn w = vpn (v + of_nat k * 4096)) \<longleftrightarrow>
      vpn w = vpn v \<or> (\<exists>k < n. vpn w = vpn (v + 4096 + of_nat k * 4096))"
    unfolding page_step by (auto simp: Ex_less_Suc2 simp del: of_nat_Suc)
  show ?case
    using Suc.prems by (simp only: ex unmap_range_Suc Suc.IH [OF unmap_inv] unmap_entry) auto
qed

end

interpretation aspace: address_range "vmm_map r" "vmm_unmap r" "pte_of r" "pt_inv r"
  "\<lambda>n. map_pages n r" "\<lambda>n. unmap_pages n r"
proof
  fix s ph v fl b s' w
  assume s: "pt_inv r s" and c: "vmm_map r ph v fl s = (b, s')"
  show "pt_inv r s'"
    using s c by (cases b) (auto dest: vmm_map_success vmm_map_failure simp: same_tree_def)
  show "pte_of r s' w = (if b \<and> vpn w = vpn v then new_pte ph fl else pte_of r s w)"
    using s c vmm_map_success(2) [OF s] vmm_map_failure(1) [OF s]
    by (cases b) (auto simp: same_tree_def)
next
  fix w v s
  assume "vpn w = vpn v"
  then show "pte_of r s w = pte_of r s v" by (simp add: pte_of_def vpn_eq_iff split: option.split)
qed (auto simp: vmm_unmap_inv pte_of_unmap PAGE_SIZE_def split: prod.split bool.split)

end
