(* ===== verification/Vmm_Props.thy ===== *)
theory Vmm_Props
  imports Address_Space
begin

unbundle bit_operations_syntax

text \<open>
  The properties of the virtual memory manager: what one mapping, an unmapping, an MMIO
  window and the boot-time address space translate, and when mapping cannot fail.
\<close>

section \<open>Page arithmetic\<close>

definition page_of :: "u64 \<Rightarrow> u64" where
  "page_of a = push_bit 12 (drop_bit 12 a)"

lemma page_of_and: "a AND NOT (PAGE_SIZE - 1) = page_of a"
proof -
  have m: "PAGE_SIZE - 1 = mask 12" by (simp add: PAGE_SIZE_def mask_eq_exp_minus_1)
  show ?thesis unfolding m page_of_def by (rule and_not_mask)
qed

lemma unat_page_of: "unat (page_of a) = unat a div 4096 * 4096"
  using unat_push_drop_bit [of 12 a] by (simp add: page_of_def)

lemma page_of_offset: "a = page_of a + of_nat (unat a mod 4096)"
proof -
  have "of_nat (unat a) = (of_nat (unat a div 4096 * 4096 + unat a mod 4096) :: u64)"
    by (simp only: div_mult_mod_eq)
  then have "a = of_nat (unat a div 4096 * 4096) + of_nat (unat a mod 4096)"
    by (simp only: of_nat_add of_nat_unat ucast_id)
  moreover have "of_nat (unat a div 4096 * 4096) = page_of a"
    by (metis unat_page_of of_nat_unat ucast_id)
  ultimately show ?thesis by simp
qed

lemma page_of_offset_add: "a + of_nat k = page_of a + of_nat (unat a mod 4096 + k)"
  using arg_cong [OF page_of_offset [of a], of "\<lambda>x. x + of_nat k"] by (simp only: of_nat_add add.assoc)

lemma drop_bit_in_page:
  fixes x :: u64
  assumes "unat x mod 4096 = 0" "d < 4096"
  shows "drop_bit 12 (x + of_nat d) = drop_bit 12 x"
proof -
  obtain q where q: "unat x = 4096 * q" using assms(1) by (auto simp: mod_eq_0_iff_dvd elim!: dvdE)
  have "unat x < 2 ^ 64" using unsigned_less [of x, where 'a = nat] by simp
  then have "4096 * q + d < 2 ^ 64" using q assms(2) by simp
  moreover have "unat (of_nat d :: u64) = d" using assms(2) by (intro unat_of_nat_small) simp
  ultimately have "unat (x + of_nat d) = 4096 * q + d" by (simp add: unat_word_ariths q)
  then have "unat (drop_bit 12 (x + of_nat d)) = unat (drop_bit 12 x)"
    using assms(2) by (simp only: unat_drop_bit q) simp
  then show ?thesis by (simp add: word_unat_eq_iff)
qed

lemma and_PTE_ADDR_MASK: "a AND PTE_ADDR_MASK = take_bit 52 (page_of a)"
  by (auto simp: word_eq_bits bit_and_iff bit_PTE_ADDR_MASK page_of_def bit_take_bit_iff
      bit_push_bit_iff bit_drop_bit_eq)

text \<open>Addresses in one page have one page number and one frame address.\<close>

lemma in_page:
  assumes "unat x mod 4096 = 0" "d < 4096"
  shows "vpn (x + of_nat d) = vpn x" and "page_of (x + of_nat d) = page_of x"
    and "(x + of_nat d) AND PTE_ADDR_MASK = x AND PTE_ADDR_MASK"
  by (simp_all add: vpn_def page_of_def and_PTE_ADDR_MASK drop_bit_in_page [OF assms])

lemma aligned_add:
  fixes x :: u64
  assumes "unat x mod 4096 = 0"
  shows "unat (x + of_nat j * 4096) mod 4096 = 0"
proof -
  have d: "(4096 :: nat) dvd 2 ^ LENGTH(64)" by simp
  have "4096 dvd unat (of_nat j * 4096 :: u64)"
    unfolding unat_word_ariths by (intro dvd_mod d) simp
  then have "4096 dvd unat (x + of_nat j * 4096)"
    using assms unfolding unat_word_ariths(1) by (intro dvd_mod d) (simp add: mod_eq_0_iff_dvd)
  then show ?thesis by (simp add: mod_eq_0_iff_dvd)
qed

lemma split_offset:
  fixes x :: u64
  shows "x + of_nat n = (x + of_nat (n div 4096) * 4096) + of_nat (n mod 4096)"
proof -
  have "(of_nat n :: u64) = of_nat (n div 4096 * 4096 + n mod 4096)" by (simp only: div_mult_mod_eq)
  then show ?thesis by (simp only: of_nat_add of_nat_mult of_nat_numeral add.assoc)
qed

lemma offset_page:
  assumes "unat x mod 4096 = 0"
  shows "vpn (x + of_nat n) = vpn (x + of_nat (n div 4096) * 4096)"
    and "(x + of_nat n) AND PTE_ADDR_MASK = (x + of_nat (n div 4096) * 4096) AND PTE_ADDR_MASK"
  using in_page [OF aligned_add [OF assms], of "n mod 4096" "n div 4096"]
  by (simp_all only: split_offset [of x n, symmetric])

section \<open>Mapping succeeds while frames are left\<close>

lemma get_table_avail:
  assumes ok: "frames_ok (phys s)" and g: "get_table ea True s = (res, s')" and av: "0 < avail (phys s)"
  shows "res \<noteq> None" and "frames_ok (phys s')" and "avail (phys s) - 1 \<le> avail (phys s')"
proof -
  have "res \<noteq> None \<and> frames_ok (phys s') \<and> avail (phys s) - 1 \<le> avail (phys s')"
  proof (cases "pte_is_present (pmem s ea)")
    case True
    with g ok show ?thesis by (auto simp: get_table_def)
  next
    case False
    obtain a p where al: "allocate_blocks 1 (phys s) = (a, p)" by fastforce
    note av' = allocate_one_avail [OF ok al av]
    with g False al pf.alloc_inv [OF ok al] show ?thesis
      by (auto simp: get_table_def alloc_table_def Let_def)
  qed
  then show "res \<noteq> None" "frames_ok (phys s')" "avail (phys s) - 1 \<le> avail (phys s')" by blast+
qed

lemma get_pte_avail:
  assumes ok: "frames_ok (phys s)" and g: "get_pte r v True s = (res, s')" and av: "3 \<le> avail (phys s)"
  shows "res \<noteq> None \<and> avail (phys s) - 3 \<le> avail (phys s')"
proof -
  obtain r1 s1 where g1: "get_table (entry_addr r (PML4_INDEX v)) True s = (r1, s1)" by fastforce
  note t1 = get_table_avail [OF ok g1]
  obtain pdpt where r1: "r1 = Some pdpt" using t1(1) av by fastforce
  obtain r2 s2 where g2: "get_table (entry_addr pdpt (PDPT_INDEX v)) True s1 = (r2, s2)" by fastforce
  have ok1: "frames_ok (phys s1)" "avail (phys s) - 1 \<le> avail (phys s1)" using t1 av by linarith+
  note t2 = get_table_avail [OF ok1(1) g2]
  obtain pd where r2: "r2 = Some pd" using t2(1) av ok1 by fastforce
  obtain r3 s3 where g3: "get_table (entry_addr pd (PD_INDEX v)) True s2 = (r3, s3)" by fastforce
  have "0 < avail (phys s1)" using ok1(2) av by linarith
  then have ok2: "frames_ok (phys s2)" "avail (phys s) - 2 \<le> avail (phys s2)"
    using t2(2) t2(3) ok1(2) by linarith+
  note t3 = get_table_avail [OF ok2(1) g3]
  have "0 < avail (phys s2)" using ok2(2) av by linarith
  show ?thesis
    using g g1 g2 g3 r1 r2 t3 \<open>0 < avail (phys s2)\<close> ok2 by (cases r3) (auto simp: get_pte_def)
qed

lemma vmm_map_avail:
  assumes "pt_inv r s" "3 \<le> avail (phys s)"
  shows "\<exists>s'. vmm_map r ph v fl s = (True, s') \<and> avail (phys s) - 3 \<le> avail (phys s')"
proof -
  obtain res s1 where g: "get_pte r v True s = (res, s1)" by fastforce
  have "frames_ok (phys s)" using assms(1) by (simp add: pt_inv_def)
  from get_pte_avail [OF this g assms(2)] obtain a where "res = Some a"
    "avail (phys s) - 3 \<le> avail (phys s1)" by blast
  with g show ?thesis by (simp add: vmm_map_def)
qed

lemma map_pages_avail:
  assumes "pt_inv r s" "3 * n \<le> avail (phys s)"
  shows "\<exists>s'. map_pages n r ph v fl s = (True, s') \<and> avail (phys s) - 3 * n \<le> avail (phys s')"
  using assms
proof (induction n arbitrary: ph v s)
  case 0
  then show ?case by simp
next
  case (Suc n)
  then have "3 \<le> avail (phys s)" by simp
  with Suc.prems(1) obtain s1 where s1: "vmm_map r ph v fl s = (True, s1)"
    "avail (phys s) - 3 \<le> avail (phys s1)" using vmm_map_avail by blast
  have "pt_inv r s1" "3 * n \<le> avail (phys s1)"
    using aspace.map_inv [OF Suc.prems(1) s1(1)] s1(2) Suc.prems(2) by simp_all
  from Suc.IH [OF this, of "ph + PAGE_SIZE" "v + PAGE_SIZE"] s1 show ?case by fastforce
qed

section \<open>MMIO windows\<close>

lemma map_pages_fields:
  assumes "pt_inv r s" "map_pages n r ph v fl s = (b, s')"
  shows "current_pml4 s' = current_pml4 s \<and> mmio_virt_next s' = mmio_virt_next s \<and> cr3 s' = cr3 s"
  using assms
proof (induction n arbitrary: ph v s)
  case (Suc n)
  obtain c s1 where s1: "vmm_map r ph v fl s = (c, s1)" by fastforce
  have "current_pml4 s1 = current_pml4 s \<and> mmio_virt_next s1 = mmio_virt_next s \<and> cr3 s1 = cr3 s"
    using vmm_map_success [OF Suc.prems(1)] vmm_map_failure [OF Suc.prems(1)] s1
    by (cases c) (simp_all add: same_tree_def)
  with s1 Suc.IH [OF aspace.map_inv [OF Suc.prems(1) s1]] Suc.prems(2) show ?case
    by (cases c) auto
qed simp

text \<open>The page count of \<open>mmio_map\<close> and \<open>mmio_unmap\<close> covers every byte of the window.\<close>

lemma window_pages:
  fixes sz a :: u64
  assumes "unat sz \<le> 2 ^ 40"
  shows "a - page_of a = of_nat (unat a mod 4096)"
    and "(sz + (a - page_of a) + PAGE_SIZE - 1) div PAGE_SIZE =
           of_nat ((unat sz + unat a mod 4096 + 4095) div 4096)"
proof -
  show off: "a - page_of a = of_nat (unat a mod 4096)"
    using page_of_offset [of a] by (metis add_diff_cancel_left')
  have u: "unat (of_nat (unat a mod 4096) :: u64) = unat a mod 4096"
    by (intro unat_of_nat_small) (simp add: less_le_trans [OF mod_less_divisor])
  have "unat (sz + of_nat (unat a mod 4096) + 4095) = unat sz + unat a mod 4096 + 4095"
    using assms mod_less_divisor [of 4096 "unat a"] by (simp add: unat_word_ariths u)
  moreover have "sz + (a - page_of a) + PAGE_SIZE - 1 = sz + of_nat (unat a mod 4096) + 4095"
    by (simp add: off PAGE_SIZE_def)
  ultimately have e: "unat (sz + (a - page_of a) + PAGE_SIZE - 1) = unat sz + unat a mod 4096 + 4095"
    by (simp only:)
  have "unat ((sz + (a - page_of a) + PAGE_SIZE - 1) div PAGE_SIZE) =
      (unat sz + unat a mod 4096 + 4095) div 4096"
    unfolding unat_div_numeral e by (simp add: PAGE_SIZE_def)
  then show "(sz + (a - page_of a) + PAGE_SIZE - 1) div PAGE_SIZE =
           of_nat ((unat sz + unat a mod 4096 + 4095) div 4096)"
    by (metis of_nat_unat ucast_id)
qed

lemma window_page_in_range:
  fixes n :: nat
  assumes "k < n"
  shows "(off + k) div 4096 < (n + off + 4095) div 4096"
proof -
  have "off + k + 4096 \<le> n + off + 4095" using assms by simp
  then have "(off + k + 4096) div 4096 \<le> (n + off + 4095) div 4096" by (rule div_le_mono)
  then show ?thesis by simp
qed

text \<open>\<open>pt_inv\<close> and \<open>pte_of\<close> only look at the tables.\<close>

lemma mmio_virt_next_upd [simp]:
  "pt_inv r (s\<lparr>mmio_virt_next := x\<rparr>) = pt_inv r s" "pte_of r (s\<lparr>mmio_virt_next := x\<rparr>) v = pte_of r s v"
  "pt_inv r (s\<lparr>current_pml4 := y, cr3 := z\<rparr>) = pt_inv r s"
  "pte_of r (s\<lparr>current_pml4 := y, cr3 := z\<rparr>) v = pte_of r s v"
  by (auto simp: pt_inv_def pte_of_def split: option.split)

lemma window_inside:
  assumes inv: "pt_inv r s" and al: "unat v mod 4096 = 0" "unat ph mod 4096 = 0"
    and m: "map_pages n r ph v fl s = (True, s')" and n: "n \<le> 2 ^ 36" "j div 4096 < n"
  shows "vmm_get_phys r (v + of_nat j) s' = (ph + of_nat j) AND PTE_ADDR_MASK"
proof -
  have "pte_of r s' (v + of_nat j) = new_pte (ph + of_nat (j div 4096) * 4096) fl"
    by (rule aspace.map_range_inside [OF inv m n(1) n(2)]) (simp add: offset_page [OF al(1)])
  then show ?thesis
    using offset_page(2) [OF al(2), of j] by (simp add: vmm_get_phys_pte_of)
qed

lemma mmio_map_spec:
  assumes inv: "pt_inv r s" and r: "current_pml4 s = r" "r \<noteq> 0"
    and al: "unat (mmio_virt_next s) mod 4096 = 0" and sz: "unat sz \<le> 2 ^ 40"
    and m: "mmio_map ph sz s = (a, s')" and a: "a \<noteq> 0"
  shows "pt_inv r s' \<and>
     a = mmio_virt_next s + of_nat (unat ph mod 4096) \<and>
     mmio_virt_next s' = mmio_virt_next s + of_nat ((unat sz + unat ph mod 4096 + 4095) div 4096) * 4096 \<and>
     (\<forall>k < unat sz. vmm_get_phys r (a + of_nat k) s' = (ph + of_nat k) AND PTE_ADDR_MASK) \<and>
     (\<forall>w. (\<forall>j < (unat sz + unat ph mod 4096 + 4095) div 4096.
             vpn w \<noteq> vpn (mmio_virt_next s + of_nat j * 4096)) \<longrightarrow> pte_of r s' w = pte_of r s w)"
proof -
  let ?n = "(unat sz + unat ph mod 4096 + 4095) div 4096"
  let ?v = "mmio_virt_next s"
  let ?fl = "PTE_PRESENT OR PTE_WRITABLE OR PTE_CACHE_DISABLE"
  let ?s1 = "s\<lparr>mmio_virt_next := ?v + of_nat ?n * 4096\<rparr>"
  note w = window_pages [OF sz, of ph]
  have n: "?n \<le> 2 ^ 36"
    using div_le_mono [of "unat sz + unat ph mod 4096 + 4095" "2 ^ 41" 4096] sz
      mod_less_divisor [of 4096 "unat ph"] by simp
  obtain b s2 where mp: "map_pages ?n r (page_of ph) ?v ?fl ?s1 = (b, s2)" by fastforce
  have un: "unat (of_nat ?n :: u64) = ?n" using n by (intro unat_of_nat_small) simp
  have "mmio_map ph sz s = (if b then ?v + of_nat (unat ph mod 4096) else 0, s2)"
    using r mp unfolding mmio_map_def vmm_get_pml4_def page_of_and Let_def w(2) un
    by (simp add: PAGE_SIZE_def w(1))
  with m a have b: "b" "s2 = s'" and av: "a = ?v + of_nat (unat ph mod 4096)"
    by (auto split: if_splits)
  with mp have mp: "map_pages ?n r (page_of ph) ?v ?fl ?s1 = (True, s')" by simp
  have inv1: "pt_inv r ?s1" using inv by simp
  have alp: "unat (page_of ph) mod 4096 = 0" by (simp add: unat_page_of)
  have "vmm_get_phys r (a + of_nat k) s' = (ph + of_nat k) AND PTE_ADDR_MASK" if "k < unat sz" for k
  proof -
    have "ph + of_nat k = page_of ph + of_nat (unat ph mod 4096 + k)"
      by (rule page_of_offset_add)
    moreover have "a + of_nat k = ?v + of_nat (unat ph mod 4096 + k)"
      by (simp only: av of_nat_add add.assoc)
    ultimately show ?thesis
      by (simp only: window_inside [OF inv1 al alp mp n window_page_in_range [OF that]])
  qed
  moreover have "pte_of r s' w = pte_of r s w"
    if "\<forall>j < ?n. vpn w \<noteq> vpn (?v + of_nat j * 4096)" for w
    using aspace.map_range_outside [OF inv1 mp, of w] that by simp
  moreover have "pt_inv r s'" by (rule aspace.map_range_inv [OF inv1 mp])
  moreover have "mmio_virt_next s' = ?v + of_nat ?n * 4096"
    using map_pages_fields [OF inv1 mp] by simp
  ultimately show ?thesis using av by simp
qed

lemma mmio_unmap_spec:
  assumes inv: "pt_inv r s" and r: "current_pml4 s = r" "r \<noteq> 0" and sz: "unat sz \<le> 2 ^ 40"
  shows "fst (mmio_unmap a sz s) = 0 \<and> pt_inv r (snd (mmio_unmap a sz s)) \<and>
     (\<forall>k < unat sz. vmm_get_phys r (a + of_nat k) (snd (mmio_unmap a sz s)) = 0)"
proof -
  let ?n = "(unat sz + unat a mod 4096 + 4095) div 4096"
  note w = window_pages [OF sz, of a]
  have "?n \<le> 2 ^ 36"
    using div_le_mono [of "unat sz + unat a mod 4096 + 4095" "2 ^ 41" 4096] sz
      mod_less_divisor [of 4096 "unat a"] by simp
  then have un: "unat (of_nat ?n :: u64) = ?n" by (intro unat_of_nat_small) simp
  have eq: "mmio_unmap a sz s = (0, unmap_pages ?n r (page_of a) s)"
    using r unfolding mmio_unmap_def vmm_get_pml4_def page_of_and Let_def w(2) un by simp
  have al: "unat (page_of a) mod 4096 = 0" by (simp add: unat_page_of)
  have "pte_of r (unmap_pages ?n r (page_of a) s) (a + of_nat k) = 0" if "k < unat sz" for k
  proof -
    have "a + of_nat k = page_of a + of_nat (unat a mod 4096 + k)"
      by (rule page_of_offset_add)
    then have "vpn (a + of_nat k) = vpn (page_of a + of_nat ((unat a mod 4096 + k) div 4096) * 4096)"
      by (simp only: offset_page(1) [OF al])
    then show ?thesis
      using window_page_in_range [OF that, of "unat a mod 4096"]
      by (auto simp: aspace.unmap_range_entry [OF inv])
  qed
  then show ?thesis
    by (simp add: eq aspace.unmap_range_inv [OF inv] vmm_get_phys_pte_of)
qed

section \<open>The boot-time address space\<close>

lemma alloc_table_root:
  assumes ok: "frames_ok (phys s)" and al: "alloc_table s = (t, s')" and t: "t \<noteq> 0"
  shows "pt_inv t s'" and "pte_of t s' v = 0"
proof -
  have "pt_inv t s' \<and> pte_of t s' v = 0"
  proof (rule alloc_table_cases [OF ok al])
    assume a: "table_addr t" "frame_of t \<notin> used_set (phys s)"
      "used_set (phys s') = insert (frame_of t) (used_set (phys s))" "frames_ok (phys s')"
      and s': "s' = s\<lparr>phys := phys s', pmem := (\<lambda>x. if frame_of x = frame_of t then 0 else pmem s x)\<rparr>"
    have m: "pmem s' = (\<lambda>x. if frame_of x = frame_of t then 0 else pmem s x)" by (subst s') simp
    have w: "walk (pmem s') t p = Some u \<longleftrightarrow> p = [] \<and> u = t" if "table_path p" for p u
      using that a(1) by (cases p) (auto simp: m table_path_def frame_of_entry)
    have "walk (pmem s') t (upper_path v) = None"
      using w [OF table_path_upper, of v] by (metis length_upper_path list.size(3) not_None_eq zero_neq_numeral)
    then show ?thesis
      using a unfolding pt_inv_def pte_of_def by (auto simp: w)
  qed (use t in simp)
  then show "pt_inv t s'" "pte_of t s' v = 0" by blast+
qed

text \<open>The three stages of \<open>vmm_init\<close> after the root table.\<close>

lemma vmm_init_stages:
  assumes "vmm_init fb h p s = Some (True, s')"
  obtains r s1 s2 s3 s4 where "alloc_table s = (r, s1)" "r \<noteq> 0"
    "map_pages 4096 r 0 0 (PTE_PRESENT OR PTE_WRITABLE) s1 = (True, s2)"
    "map_framebuffer fb h p r s2 = (True, s3)"
    "map_pages 1024 r 0x100000 0xFFFFFFFF80100000 (PTE_PRESENT OR PTE_WRITABLE) s3 = (True, s4)"
    "s' = s4\<lparr>current_pml4 := r, cr3 := r\<rparr>"
  using assms unfolding vmm_init_def
  by (auto simp: vmm_set_pml4_def split: prod.splits bool.splits if_splits)

definition fb_page_count :: "u32 \<Rightarrow> u32 \<Rightarrow> nat" where
  "fb_page_count h p = (unat h * unat p + 4095) div 4096 + 1"

lemma fb_size_less: "unat (h :: u32) * unat (p :: u32) \<le> 2 ^ 64 - 2 ^ 33 + 1"
proof -
  have "unat h \<le> 2 ^ 32 - 1" "unat p \<le> 2 ^ 32 - 1"
    using unsigned_less [of h, where 'a = nat] unsigned_less [of p, where 'a = nat] by simp_all
  then have "unat h * unat p \<le> (2 ^ 32 - 1) * (2 ^ 32 - 1)" by (rule mult_le_mono)
  then show ?thesis by simp
qed

lemma map_framebuffer_eq:
  "fb \<noteq> 0 \<Longrightarrow> map_framebuffer fb h p r s =
     map_pages (fb_page_count h p) r (page_of fb) (page_of fb)
       (PTE_PRESENT OR PTE_WRITABLE OR PTE_CACHE_DISABLE) s"
proof -
  assume fb: "fb \<noteq> 0"
  let ?z = "ucast h * ucast p :: u64"
  have z: "unat ?z = unat h * unat p"
    using fb_size_less [of h p] by (simp add: unat_word_ariths)
  have "?z + PAGE_SIZE - 1 = ?z + 4095" by (simp add: PAGE_SIZE_def)
  moreover have "unat (?z + 4095) = unat h * unat p + 4095"
    using fb_size_less [of h p] by (subst unat_word_ariths) (simp add: z)
  ultimately have e: "unat (?z + PAGE_SIZE - 1) = unat h * unat p + 4095" by (simp only:)
  have "unat ((?z + PAGE_SIZE - 1) div PAGE_SIZE) = (unat h * unat p + 4095) div 4096"
    unfolding unat_div_numeral e by (simp add: PAGE_SIZE_def)
  moreover have "(unat h * unat p + 4095) div 4096 \<le> 2 ^ 53"
    using div_le_mono [of "unat h * unat p + 4095" "2 ^ 65" 4096] fb_size_less [of h p] by simp
  ultimately have "unat ((?z + PAGE_SIZE - 1) div PAGE_SIZE + 1) = fb_page_count h p"
    by (subst unat_word_ariths) (simp add: fb_page_count_def)
  with fb show ?thesis
    unfolding map_framebuffer_def Let_def page_of_and by simp
qed

lemma unat_page_less:
  fixes x :: u64
  assumes "unat x mod 4096 = 0" "unat x + n < 2 ^ 64"
  shows "unat (x + of_nat n) = unat x + n"
  using assms by (simp add: unat_word_ariths unat_of_nat_small)

lemma unat_vpn: "unat (vpn a) = unat a div 4096 mod 2 ^ 36"
  using unat_vpn_add [of 0 a] by simp

lemma vpn_eq_div: "vpn a = vpn b \<longleftrightarrow> unat a div 4096 mod 2 ^ 36 = unat b div 4096 mod 2 ^ 36"
  by (simp add: word_unat_eq_iff unat_vpn)

text \<open>An identity-mapped run of pages either leaves an entry alone or makes it translate to the
  page itself, as long as the run stays below the 48 address bits that are translated.\<close>

lemma identity_run:
  assumes inv: "pt_inv r s" and m: "map_pages n r x x fl s = (True, s')"
    and x: "unat x mod 4096 = 0" "unat x + n * 4096 \<le> 2 ^ 48" and w: "unat w < 2 ^ 48"
  shows "pte_of r s' w = (if unat x \<le> unat w \<and> unat w < unat x + n * 4096
            then new_pte (page_of w) fl else pte_of r s w)"
proof -
  obtain q where q: "unat x = 4096 * q" using x(1) by (auto simp: mod_eq_0_iff_dvd elim!: dvdE)
  define d where "d = unat w div 4096"
  have we: "4096 * d \<le> unat w" "unat w < 4096 * d + 4096"
    unfolding d_def using div_mult_mod_eq [of "unat w" 4096] mod_less_divisor [of 4096 "unat w"]
    by linarith+
  have d: "d < 2 ^ 36" unfolding d_def using w by (simp add: less_mult_imp_div_less)
  have qn: "q + n \<le> 2 ^ 36" using x(2) q by simp
  have kx: "unat (x + of_nat k * 4096) = 4096 * (q + k)" if "k < n" for k
    using unat_page_less [OF x(1), of "k * 4096"] that x(2) q by simp
  have eq: "vpn w = vpn (x + of_nat k * 4096) \<longleftrightarrow> d = q + k" if "k < n" for k
    using that d qn unfolding vpn_eq_div kx [OF that] d_def [symmetric] by simp
  have range: "unat x \<le> unat w \<and> unat w < unat x + n * 4096 \<longleftrightarrow> q \<le> d \<and> d < q + n"
    using we q by auto
  show ?thesis
  proof (cases "q \<le> d \<and> d < q + n")
    case True
    define k where "k = d - q"
    have k: "k < n" "d = q + k" using True unfolding k_def by linarith+
    have "unat (x + of_nat k * 4096) = unat (page_of w)"
      using k(2) unfolding kx [OF k(1)] unat_page_of d_def [symmetric] by simp
    then have "x + of_nat k * 4096 = page_of w" by (simp add: word_unat_eq_iff)
    moreover have "n \<le> 2 ^ 36" using qn by simp
    ultimately show ?thesis
      using aspace.map_range_inside [OF inv m _ k(1)] eq [OF k(1)] k(2) True
      unfolding range by simp
  next
    case False
    then have "vpn w \<noteq> vpn (x + of_nat k * 4096)" if "k < n" for k
      using eq [OF that] that by auto
    then show ?thesis
      using aspace.map_range_outside [OF inv m] False unfolding range by auto
  qed
qed

lemma page_of_idem [simp]: "page_of (page_of a) = page_of a"
  by (auto simp: page_of_def word_eq_bits bit_push_bit_iff bit_drop_bit_eq)

lemma page_of_frame:
  assumes "unat a < 2 ^ 52"
  shows "a AND PTE_ADDR_MASK = page_of a" "page_of a AND PTE_ADDR_MASK = page_of a"
proof -
  have "unat (page_of a) < 2 ^ 52"
    using assms unfolding unat_page_of by (metis div_times_less_eq_dividend le_less_trans)
  then have "take_bit 52 (page_of a) = page_of a"
    by (simp only: word_unat_eq_iff unsigned_take_bit_eq take_bit_nat_eq_self)
  then show "a AND PTE_ADDR_MASK = page_of a" "page_of a AND PTE_ADDR_MASK = page_of a"
    by (simp_all add: and_PTE_ADDR_MASK)
qed

lemma kernel_half_vpn:
  assumes "unat w < 2 ^ 47" "k < 1024"
  shows "vpn w \<noteq> vpn (0xFFFFFFFF80100000 + of_nat k * 4096)"
proof -
  have "unat (vpn (0xFFFFFFFF80100000 + of_nat k * 4096)) = (0xFFFFFFFF80100 + k) mod 2 ^ 36"
    using assms(2) by (subst unat_vpn_add) simp_all
  also have "\<dots> = (0xFFFF * 2 ^ 36 + (0xFFFF80100 + k)) mod 2 ^ 36" by simp
  also have "\<dots> = 0xFFFF80100 + k" using assms(2) unfolding mod_mult_self3 by simp
  finally have "unat (vpn (0xFFFFFFFF80100000 + of_nat k * 4096)) = 0xFFFF80100 + k" .
  moreover have "unat (vpn w) < 2 ^ 35"
    using assms(1) unfolding unat_vpn by (simp add: less_mult_imp_div_less)
  ultimately show ?thesis by (auto simp: word_unat_eq_iff)
qed

lemma fb_covered:
  assumes fb: "unat fb + unat h * unat p + 8192 \<le> 2 ^ 47"
    and w: "unat fb \<le> unat w" "unat w < unat fb + unat h * unat p"
  shows "unat (page_of fb) \<le> unat w \<and> unat w < unat (page_of fb) + fb_page_count h p * 4096 \<and>
     unat w < 2 ^ 47"
proof -
  have "unat fb < unat fb div 4096 * 4096 + 4096"
    using div_mult_mod_eq [of "unat fb" 4096] mod_less_divisor [of 4096 "unat fb"] by linarith
  moreover have "unat h * unat p \<le> (unat h * unat p + 4095) div 4096 * 4096"
    using div_mult_mod_eq [of "unat h * unat p + 4095" 4096]
      mod_less_divisor [of 4096 "unat h * unat p + 4095"] by linarith
  ultimately show ?thesis
    using w fb div_times_less_eq_dividend [of "unat fb" 4096]
    unfolding unat_page_of fb_page_count_def by (simp add: distrib_right)
qed

lemma framebuffer_stage:
  assumes inv: "pt_inv r s" and m: "map_framebuffer fb h p r s = (True, s')"
    and fb: "unat fb + unat h * unat p + 8192 \<le> 2 ^ 47"
  shows "pt_inv r s'"
    and "unat w < 2 ^ 48 \<Longrightarrow> pte_of r s' w =
      (if fb \<noteq> 0 \<and> unat (page_of fb) \<le> unat w \<and> unat w < unat (page_of fb) + fb_page_count h p * 4096
       then new_pte (page_of w) (PTE_PRESENT OR PTE_WRITABLE OR PTE_CACHE_DISABLE) else pte_of r s w)"
proof -
  let ?fl = "PTE_PRESENT OR PTE_WRITABLE OR PTE_CACHE_DISABLE"
  have "unat fb div 4096 * 4096 + fb_page_count h p * 4096 \<le> unat fb + unat h * unat p + 8192"
    unfolding fb_page_count_def
    using div_times_less_eq_dividend [of "unat fb" 4096]
      div_times_less_eq_dividend [of "unat h * unat p + 4095" 4096] by (simp add: distrib_right)
  then have n: "unat (page_of fb) + fb_page_count h p * 4096 \<le> 2 ^ 48"
    using fb by (simp add: unat_page_of)
  have "fb \<noteq> 0 \<Longrightarrow> map_pages (fb_page_count h p) r (page_of fb) (page_of fb) ?fl s = (True, s')"
    using m by (simp add: map_framebuffer_eq)
  moreover have "fb = 0 \<Longrightarrow> s' = s" using m by (simp add: map_framebuffer_def)
  ultimately show "pt_inv r s'"
    and "unat w < 2 ^ 48 \<Longrightarrow> pte_of r s' w =
      (if fb \<noteq> 0 \<and> unat (page_of fb) \<le> unat w \<and> unat w < unat (page_of fb) + fb_page_count h p * 4096
       then new_pte (page_of w) ?fl else pte_of r s w)"
    using inv aspace.map_range_inv [OF inv] identity_run [OF inv _ _ n, of ?fl s' w]
    by (cases "fb = 0"; simp add: unat_page_of)+
qed

lemma vmm_init_maps:
  assumes ok: "frames_ok (phys s)" and c: "vmm_init fb h p s = Some (True, s')"
    and fb: "unat fb + unat h * unat p + 8192 \<le> 2 ^ 47"
  shows "current_pml4 s' \<noteq> 0 \<and> cr3 s' = current_pml4 s' \<and> pt_inv (current_pml4 s') s' \<and>
     (\<forall>a. unat a < 0x1000000 \<longrightarrow> vmm_get_phys (current_pml4 s') a s' = page_of a) \<and>
     (\<forall>a. fb \<noteq> 0 \<longrightarrow> unat fb \<le> unat a \<longrightarrow> unat a < unat fb + unat h * unat p \<longrightarrow>
        vmm_get_phys (current_pml4 s') a s' = page_of a) \<and>
     (\<forall>off < 0x400000. vmm_get_phys (current_pml4 s') (0xFFFFFFFF80100000 + of_nat off) s' =
        page_of (0x100000 + of_nat off))"
proof -
  from c obtain r s1 s2 s3 s4 where al: "alloc_table s = (r, s1)" "r \<noteq> 0"
    and m2: "map_pages 4096 r 0 0 (PTE_PRESENT OR PTE_WRITABLE) s1 = (True, s2)"
    and m3: "map_framebuffer fb h p r s2 = (True, s3)"
    and m4: "map_pages 1024 r 0x100000 0xFFFFFFFF80100000 (PTE_PRESENT OR PTE_WRITABLE) s3 = (True, s4)"
    and s': "s' = s4\<lparr>current_pml4 := r, cr3 := r\<rparr>" by (rule vmm_init_stages)
  have i1: "pt_inv r s1" by (rule alloc_table_root [OF ok al])
  have i2: "pt_inv r s2" by (rule aspace.map_range_inv [OF i1 m2])
  note stage = framebuffer_stage [OF i2 m3 fb]
  note fbe = stage(2) and i3' = stage(1)
  have low: "pte_of r s4 w = pte_of r s3 w" if "unat w < 2 ^ 47" for w
    using kernel_half_vpn [OF that] by (intro aspace.map_range_outside [OF i3' m4]) blast
  have get: "vmm_get_phys r w s4 = page_of w"
    if "unat w < 2 ^ 47" "unat w < 0x1000000 \<or> (fb \<noteq> 0 \<and> unat (page_of fb) \<le> unat w \<and>
      unat w < unat (page_of fb) + fb_page_count h p * 4096)" for w
  proof -
    have w: "unat w < 2 ^ 48" "unat w < 2 ^ 52" using that(1) by simp_all
    have "\<exists>f. pte_of r s3 w = new_pte (page_of w) f"
      using that(2) fbe [OF w(1)] identity_run [OF i1 m2 _ _ w(1)] by auto
    then show ?thesis
      using low [OF that(1)] page_of_frame [OF w(2)] by (auto simp: vmm_get_phys_pte_of)
  qed
  have hi: "vmm_get_phys r (0xFFFFFFFF80100000 + of_nat off) s4 = page_of (0x100000 + of_nat off)"
    if "off < 0x400000" for off
  proof -
    have "vmm_get_phys r (0xFFFFFFFF80100000 + of_nat off) s4 = (0x100000 + of_nat off) AND PTE_ADDR_MASK"
      using that by (intro window_inside [OF i3' _ _ m4]) (simp_all add: less_mult_imp_div_less)
    moreover have "unat (0x100000 + of_nat off :: u64) < 2 ^ 52"
      using that by (simp add: unat_word_ariths unat_of_nat_small)
    ultimately show ?thesis by (simp add: page_of_frame)
  qed
  have "pt_inv r s4" by (rule aspace.map_range_inv [OF i3' m4])
  moreover have gp: "vmm_get_phys r a s' = vmm_get_phys r a s4" for a
    by (simp add: s' vmm_get_phys_pte_of)
  ultimately show ?thesis
    using al(2) get hi fb_covered [OF fb] by (auto simp: s')
qed

section \<open>Properties\<close>

text \<open>C7. \<open>vmm_map\<close> refines the update of one entry of the finite map from virtual pages to
  page-table entries: on success exactly the page of \<open>virt\<close> gets the new entry, on failure no
  translation changes and the frame allocator is exhausted; the table tree stays well formed in
  both cases, although up to three tables may have been inserted.\<close>

theorem vmm_map_refines:
  assumes "pt_inv r s" "vmm_map r ph v flags s = (ok, s')"
  shows "pt_inv r s' \<and>
     (\<forall>w. pte_of r s' w = (if ok \<and> vpn w = vpn v then new_pte ph flags else pte_of r s w)) \<and>
     (\<forall>w. vmm_get_phys r w s' =
        (if ok \<and> vpn w = vpn v then ph AND PTE_ADDR_MASK else vmm_get_phys r w s)) \<and>
     (\<not> ok \<longrightarrow> fst (allocate_blocks 1 (phys s')) = 0)"
  using aspace.map_inv [OF assms] aspace.map_entry [OF assms] vmm_map_failure(2) [of r s ph v flags s']
    assms by (auto simp: vmm_get_phys_pte_of)

text \<open>\<open>vmm_unmap\<close> removes exactly the translation of the page of \<open>virt\<close>, keeps the table
  tree well formed and frees no frame.\<close>

theorem vmm_unmap_refines:
  assumes "pt_inv r s"
  shows "pt_inv r (vmm_unmap r v s) \<and> phys (vmm_unmap r v s) = phys s \<and>
     (\<forall>w. vmm_get_phys r w (vmm_unmap r v s) = (if vpn w = vpn v then 0 else vmm_get_phys r w s))"
  using assms by (simp add: vmm_unmap_inv pte_of_unmap vmm_get_phys_pte_of)

text \<open>Mapping cannot fail while three frames per page can still be handed out: then
  \<open>vmm_map\<close> returns \<open>true\<close>, and it takes at most three frames.\<close>

theorem vmm_map_succeeds:
  assumes "pt_inv r s" "3 \<le> avail (phys s)"
  shows "fst (vmm_map r ph v flags s) \<and> avail (phys s) - 3 \<le> avail (phys (snd (vmm_map r ph v flags s)))"
  using vmm_map_avail [OF assms, of ph v flags] by auto

text \<open>C9. A window that \<open>mmio_map\<close> returns translates every byte of the requested region to
  its physical address's frame, leaves all other pages alone and advances the window cursor past
  the pages it used.\<close>

theorem mmio_map_window:
  assumes "pt_inv (current_pml4 s) s" "current_pml4 s \<noteq> 0"
    and "unat (mmio_virt_next s) mod 4096 = 0" "unat sz \<le> 2 ^ 40"
    and "mmio_map ph sz s = (a, s')" "a \<noteq> 0"
  shows "pt_inv (current_pml4 s) s' \<and> a = mmio_virt_next s + of_nat (unat ph mod 4096) \<and>
     mmio_virt_next s' = mmio_virt_next s + of_nat ((unat sz + unat ph mod 4096 + 4095) div 4096) * 4096 \<and>
     (\<forall>k < unat sz. vmm_get_phys (current_pml4 s) (a + of_nat k) s' = (ph + of_nat k) AND PTE_ADDR_MASK) \<and>
     (\<forall>w. (\<forall>j < (unat sz + unat ph mod 4096 + 4095) div 4096.
             vpn w \<noteq> vpn (mmio_virt_next s + of_nat j * 4096)) \<longrightarrow>
        pte_of (current_pml4 s) s' w = pte_of (current_pml4 s) s w)"
  using mmio_map_spec [OF assms(1) refl assms(2-6)] .

text \<open>After \<open>mmio_unmap\<close> no byte of the region is translated any more.\<close>

theorem mmio_unmap_window:
  assumes "pt_inv (current_pml4 s) s" "current_pml4 s \<noteq> 0" "unat sz \<le> 2 ^ 40"
  shows "fst (mmio_unmap a sz s) = 0 \<and> pt_inv (current_pml4 s) (snd (mmio_unmap a sz s)) \<and>
     (\<forall>k < unat sz. vmm_get_phys (current_pml4 s) (a + of_nat k) (snd (mmio_unmap a sz s)) = 0)"
  using mmio_unmap_spec [OF assms(1) refl assms(2-3)] .

text \<open>C8. The address space \<open>vmm_init\<close> installs: its table tree is well formed and loaded in
  \<open>cr3\<close>, the first 16 MiB and the whole frame buffer are identity-mapped, and 4 MiB from 1 MiB on are
  mapped at the kernel's upper-half address.\<close>

theorem vmm_init_address_space:
  assumes "frames_ok (phys s)" "vmm_init fb h p s = Some (True, s')"
    and "unat fb + unat h * unat p + 8192 \<le> 2 ^ 47"
  shows "current_pml4 s' \<noteq> 0 \<and> cr3 s' = current_pml4 s' \<and> pt_inv (current_pml4 s') s' \<and>
     (\<forall>a. unat a < 0x1000000 \<longrightarrow> vmm_get_phys (current_pml4 s') a s' = page_of a) \<and>
     (\<forall>a. fb \<noteq> 0 \<longrightarrow> unat fb \<le> unat a \<longrightarrow> unat a < unat fb + unat h * unat p \<longrightarrow>
        vmm_get_phys (current_pml4 s') a s' = page_of a) \<and>
     (\<forall>off < 0x400000. vmm_get_phys (current_pml4 s') (0xFFFFFFFF80100000 + of_nat off) s' =
        page_of (0x100000 + of_nat off))"
  using assms by (rule vmm_init_maps)

section \<open>Witnesses\<close>

text \<open>A machine with 128 MiB of memory of which only block 0 is in use, and the same machine
  with an empty root table.\<close>

definition boot_pmm :: pmm where
  "boot_pmm = \<lparr>memory_map = (\<lambda>i. if i = 0 then 1 else 0), max_blocks = 32768, used_blocks = 1,
     bitmap_base = 0x1000, bitmap_size_blocks = 1\<rparr>"

definition boot_vmm :: vmm where
  "boot_vmm = \<lparr>phys = boot_pmm, pmem = (\<lambda>a. 0), current_pml4 = 0, mmio_virt_next = 0xFFFFFFFF90000000,
     cr3 = 0, flushed = []\<rparr>"

definition root_table :: u64 where
  "root_table = fst (alloc_table boot_vmm)"

definition root_vmm :: vmm where
  "root_vmm = (snd (alloc_table boot_vmm))\<lparr>current_pml4 := root_table, cr3 := root_table\<rparr>"

lemma boot_pmm_block: "block_used boot_pmm b \<longleftrightarrow> b = 0"
  using block_index_split [of b 0] by (auto simp: block_used_def boot_pmm_def bit_1_iff)

lemma boot_pmm_used: "used_set boot_pmm = {0}"
  by (auto simp: used_set_def boot_pmm_block) (simp add: boot_pmm_def)

lemma boot_pmm_ok: "frames_ok boot_pmm"
  by (simp add: frames_ok_def pmm_inv_def boot_pmm_used) (simp add: boot_pmm_def)

lemma boot_pmm_avail: "avail boot_pmm = 32766"
proof -
  have m: "unat (max_blocks boot_pmm) = 32768" by (simp add: boot_pmm_def)
  have "card ({..<n} - {0}) = n - 1" for n :: nat
    by (cases n) (simp_all add: card_Diff_singleton)
  then show ?thesis unfolding avail_def boot_pmm_used m by simp
qed

lemma alloc_table_avail:
  assumes "frames_ok (phys s)" "0 < avail (phys s)" "alloc_table s = (t, s')"
  shows "t \<noteq> 0" and "avail (phys s') = avail (phys s) - 1"
proof -
  obtain a p where al: "allocate_blocks 1 (phys s) = (a, p)" by fastforce
  show "t \<noteq> 0" "avail (phys s') = avail (phys s) - 1"
    using allocate_one_avail [OF assms(1) al assms(2)] assms(3) by (auto simp: alloc_table_def al)
qed

lemma boot_vmm_alloc:
  obtains s1 where "alloc_table boot_vmm = (root_table, s1)" "root_table \<noteq> 0" "pt_inv root_table s1"
    "avail (phys s1) = 32765" "root_vmm = s1\<lparr>current_pml4 := root_table, cr3 := root_table\<rparr>"
proof -
  obtain s1 where al: "alloc_table boot_vmm = (root_table, s1)"
    by (metis root_table_def prod.collapse)
  have ok: "frames_ok (phys boot_vmm)" "avail (phys boot_vmm) = 32766"
    by (simp_all add: boot_vmm_def boot_pmm_ok boot_pmm_avail)
  then have "root_table \<noteq> 0" "avail (phys s1) = 32765"
    using alloc_table_avail [OF ok(1) _ al] by simp_all
  with al alloc_table_root [OF ok(1) al] show thesis
    by (intro that) (simp_all add: root_vmm_def)
qed

lemma root_vmm_ok:
  "pt_inv root_table root_vmm" "avail (phys root_vmm) = 32765" "root_table \<noteq> 0"
  "current_pml4 root_vmm = root_table"
proof -
  from boot_vmm_alloc obtain s1 where "root_table \<noteq> 0" "pt_inv root_table s1"
    "avail (phys s1) = 32765" and eq: "root_vmm = s1\<lparr>current_pml4 := root_table, cr3 := root_table\<rparr>" .
  then show "pt_inv root_table root_vmm" "avail (phys root_vmm) = 32765" "root_table \<noteq> 0"
    "current_pml4 root_vmm = root_table" unfolding eq by simp_all
qed

lemma root_vmm_next: "mmio_virt_next root_vmm = 0xFFFFFFFF90000000"
  by (simp add: root_vmm_def alloc_table_def boot_vmm_def split: prod.split)

lemma vmm_init_succeeds:
  assumes ok: "frames_ok (phys s)" and av: "15361 \<le> avail (phys s)"
  shows "\<exists>s'. vmm_init 0 h p s = Some (True, s')"
proof -
  obtain r s1 where al: "alloc_table s = (r, s1)" by fastforce
  have r: "r \<noteq> 0" "avail (phys s1) = avail (phys s) - 1"
    using alloc_table_avail [OF ok _ al] av by simp_all
  have i1: "pt_inv r s1" by (rule alloc_table_root [OF ok al r(1)])
  obtain s2 where m2: "map_pages 4096 r 0 0 (PTE_PRESENT OR PTE_WRITABLE) s1 = (True, s2)"
    "avail (phys s1) - 3 * 4096 \<le> avail (phys s2)"
    using map_pages_avail [OF i1, of 4096] r av by fastforce
  have i2: "pt_inv r s2" by (rule aspace.map_range_inv [OF i1 m2(1)])
  obtain s3 where m3: "map_pages 1024 r 0x100000 0xFFFFFFFF80100000 (PTE_PRESENT OR PTE_WRITABLE) s2 = (True, s3)"
    using map_pages_avail [OF i2, of 1024] m2(2) r av by fastforce
  show ?thesis
    using al r m2 m3 by (simp add: vmm_init_def map_framebuffer_def vmm_set_pml4_def del: map_pages.simps)
qed

theorem vmm_map_refines_witness:
  "\<exists>s'. vmm_map root_table 0x5000 0x400123 3 root_vmm = (True, s') \<and> pt_inv root_table s' \<and>
     vmm_get_phys root_table 0x400FFF s' = 0x5000"
proof -
  obtain s' where c: "vmm_map root_table 0x5000 0x400123 3 root_vmm = (True, s')"
    using vmm_map_avail [OF root_vmm_ok(1)] root_vmm_ok(2) by force
  have "vpn 0x400FFF = vpn 0x400123" "0x5000 AND PTE_ADDR_MASK = 0x5000"
    by (simp_all add: vpn_eq_div PTE_ADDR_MASK_def)
  with c vmm_map_refines [OF root_vmm_ok(1) c] show ?thesis by auto
qed

theorem vmm_unmap_refines_witness:
  "vmm_get_phys root_table 0x400123 (vmm_unmap root_table 0x400000 root_vmm) = 0"
  using vmm_unmap_refines [OF root_vmm_ok(1), of "0x400000"] by (simp add: vpn_eq_div)

theorem vmm_map_succeeds_witness: "fst (vmm_map root_table 0x5000 0x400123 3 root_vmm)"
  using vmm_map_succeeds [OF root_vmm_ok(1), of "0x5000" "0x400123" 3] root_vmm_ok(2) by simp

theorem mmio_map_window_witness:
  "\<exists>a s'. mmio_map 0xFEC00010 0x20 root_vmm = (a, s') \<and>
     vmm_get_phys root_table (a + 4) s' = 0xFEC00000"
proof -
  let ?fl = "PTE_PRESENT OR PTE_WRITABLE OR PTE_CACHE_DISABLE"
  obtain s' where m: "map_pages 1 root_table 0xFEC00000 0xFFFFFFFF90000000 ?fl
      (root_vmm\<lparr>mmio_virt_next := 0xFFFFFFFF90001000\<rparr>) = (True, s')"
    using map_pages_avail [of root_table "root_vmm\<lparr>mmio_virt_next := 0xFFFFFFFF90001000\<rparr>" 1
        "0xFEC00000" "0xFFFFFFFF90000000" ?fl] root_vmm_ok by auto
  have c: "mmio_map 0xFEC00010 0x20 root_vmm = (0xFFFFFFFF90000010, s')"
    using m root_vmm_ok root_vmm_next
    by (simp add: mmio_map_def vmm_get_pml4_def PAGE_SIZE_def Let_def)
  have "vmm_get_phys root_table (0xFFFFFFFF90000010 + of_nat 4) s' = (0xFEC00010 + of_nat 4) AND PTE_ADDR_MASK"
    using mmio_map_window [OF _ _ _ _ c] root_vmm_ok root_vmm_next by (auto dest!: spec [of _ 4])
  with c show ?thesis by (simp add: PTE_ADDR_MASK_def)
qed

theorem mmio_unmap_window_witness:
  "vmm_get_phys root_table 0xFFFFFFFF90000010 (snd (mmio_unmap 0xFFFFFFFF90000010 0x20 root_vmm)) = 0"
  using mmio_unmap_window [of root_vmm "0x20" "0xFFFFFFFF90000010"] root_vmm_ok
  by (auto dest: spec [of _ 0])

theorem vmm_init_address_space_witness:
  "\<exists>s'. vmm_init 0 768 4096 boot_vmm = Some (True, s') \<and>
     vmm_get_phys (current_pml4 s') 0xB8123 s' = 0xB8000"
proof -
  have ok: "frames_ok (phys boot_vmm)" "15361 \<le> avail (phys boot_vmm)"
    by (simp_all add: boot_vmm_def boot_pmm_ok boot_pmm_avail)
  obtain s' where c: "vmm_init 0 768 4096 boot_vmm = Some (True, s')"
    using vmm_init_succeeds [OF ok] by blast
  have "page_of 0xB8123 = 0xB8000" by (simp add: page_of_def push_bit_eq_mult drop_bit_eq_div)
  with c vmm_init_address_space [OF ok(1) c] show ?thesis by auto
qed

end
