(* ===== verification/Process.thy ===== *)
theory Process
  imports Vmm_Props Heap "HOL-Library.Monad_Syntax"
begin

unbundle bit_operations_syntax

text \<open>
  Processes, \<open>kernel/process/process.c\<close>: the ring buffer of processes, and the creation of a
  process on top of the physical and the virtual memory manager and the heap.

  A process is an object of a store indexed by its address.  \<open>iretq\<close> does not return: a call that
  reaches it ends with the outcome \<open>Entered\<close>.  \<open>None\<close> stands for a call with no defined outcome (a NULL
  pointer that is used, or an allocation that does not end).
\<close>

section \<open>Data\<close>

datatype Proc_State = INVALID | SLEEPING | ACTIVE

record Thread =
  t_parent :: u64
  t_stack :: u64
  stack_limit :: u64
  kernel_stack :: u64
  t_priority :: u32
  t_state :: Proc_State
  pgm_buf :: u64
  pgm_size :: u64
  rip :: u64
  rflags :: u64
  rsp :: u64

text \<open>Of the five thread slots of a process the kernel uses the first.\<close>

record Process =
  pid :: u32
  p_priority :: u32
  pml4 :: u64
  p_state :: Proc_State
  main_thread :: Thread
  thread_count :: u32

definition MAX_PROCESSES :: u32 where
  "MAX_PROCESSES = 16"

record Queue =
  q_data :: "u64 list"
  q_head :: u32
  q_tail :: u32

record proc_state =
  p_vmm :: vmm
  p_heap :: heap
  p_store :: "u64 \<Rightarrow> Process"
  process_queue :: "Queue option"
  nr_processes :: u32
  nextid :: u32

datatype outcome = Returned u32 | Entered u64 u64

section \<open>The queue\<close>

definition sizeof_Queue :: u64 where
  "sizeof_Queue = 136"

definition fresh_queue :: Queue where
  "fresh_queue = \<lparr>q_data = replicate 16 0, q_head = 0, q_tail = 0\<rparr>"

definition ring_put :: "u64 \<Rightarrow> Queue \<Rightarrow> int \<times> Queue" where
  "ring_put p q =
     (let next = (q_tail q + 1) AND (MAX_PROCESSES - 1)
      in if next = q_head q then (- 1, q)
         else (0, q\<lparr>q_data := (q_data q)[unat (q_tail q) := p], q_tail := next\<rparr>))"

definition enqueue :: "u64 \<Rightarrow> Queue option \<Rightarrow> heap \<Rightarrow> (int \<times> Queue option \<times> heap) option" where
  "enqueue p qo h =
     (case qo of
        Some q \<Rightarrow> (case ring_put p q of (r, q1) \<Rightarrow> Some (r, Some q1, h))
      | None \<Rightarrow> do {
          (a, h1) \<leftarrow> kmalloc sizeof_Queue h;
          if a = 0 then Some (- 1, None, h1)
          else case ring_put p fresh_queue of (r, q1) \<Rightarrow> Some (r, Some q1, h1)
        })"

definition dequeue :: "Queue \<Rightarrow> u64 \<times> Queue" where
  "dequeue q =
     (if q_head q = q_tail q then (0, q)
      else (q_data q ! unat (q_head q), q\<lparr>q_head := (q_head q + 1) AND (MAX_PROCESSES - 1)\<rparr>))"

section \<open>Processes\<close>

definition new_address_space :: "vmm \<Rightarrow> u64 \<times> vmm" where
  "new_address_space s = alloc_table s"

definition execute_process :: "Process \<Rightarrow> vmm \<Rightarrow> ((u64 \<times> u64) option \<times> vmm) option" where
  "execute_process p s =
     (if pid p = 0 \<or> pml4 p = 0 then Some (None, s)
      else do {
        (ok, s1) \<leftarrow> vmm_set_pml4 (pml4 p) s;
        Some (Some (rip (main_thread p), rsp (main_thread p)), s1)
      })"

definition switch_task :: "proc_state \<Rightarrow> ((u64 \<times> u64) option \<times> proc_state) option" where
  "switch_task st = do {
     q \<leftarrow> process_queue st;
     let (v, q1) = dequeue q;
     let st1 = st\<lparr>process_queue := Some q1\<rparr>;
     if v = 0 then Some (None, st1)
     else do {
       (e, s1) \<leftarrow> execute_process (p_store st1 v) (p_vmm st1);
       Some (e, st1\<lparr>p_vmm := s1\<rparr>)
     }
   }"

definition sizeof_Process :: u64 where
  "sizeof_Process = 1192"

definition new_process :: "u64 \<Rightarrow> u32 \<Rightarrow> u64 \<Rightarrow> u64 \<Rightarrow> u64 \<Rightarrow> Process" where
  "new_process a ident table entry_point stack_virt =
     \<lparr>pid = ident, p_priority = 1, pml4 = table, p_state = ACTIVE,
      main_thread = \<lparr>t_parent = a, t_stack = 0, stack_limit = 0 + PAGE_SIZE, kernel_stack = 0, t_priority = 1,
        t_state = ACTIVE, pgm_buf = 0, pgm_size = 0, rip = entry_point, rflags = 0x200, rsp = stack_virt\<rparr>,
      thread_count = 1\<rparr>"

text \<open>The mappings of a new address space, up to the first that fails.\<close>

definition map_process ::
  "u64 \<Rightarrow> u32 \<Rightarrow> u32 \<Rightarrow> u64 \<Rightarrow> u64 \<Rightarrow> u64 \<Rightarrow> u64 \<Rightarrow> u64 \<Rightarrow> vmm \<Rightarrow> bool \<times> vmm" where
  "map_process g_fb_addr g_fb_height g_fb_pitch table entry_point entry_to data_point data_to s =
     (case map_pages 4096 table 0 0 (PTE_PRESENT OR PTE_WRITABLE) s of
        (False, s) \<Rightarrow> (False, s)
      | (True, s) \<Rightarrow>
          (case map_framebuffer g_fb_addr g_fb_height g_fb_pitch table s of
             (False, s) \<Rightarrow> (False, s)
           | (True, s) \<Rightarrow>
               (case map_pages 1 table entry_point entry_to (PTE_PRESENT OR PTE_WRITABLE) s of
                  (False, s) \<Rightarrow> (False, s)
                | (True, s) \<Rightarrow> map_pages 1 table data_point data_to (PTE_PRESENT OR PTE_WRITABLE) s)))"

definition create_process ::
  "u64 \<Rightarrow> u32 \<Rightarrow> u32 \<Rightarrow> u64 \<Rightarrow> u64 \<Rightarrow> u64 \<Rightarrow> u64 \<Rightarrow> proc_state \<Rightarrow> (outcome \<times> proc_state) option" where
  "create_process g_fb_addr g_fb_height g_fb_pitch entry_point entry_to data_point data_to st =
     (let (table, s1) = new_address_space (p_vmm st) in
      case map_process g_fb_addr g_fb_height g_fb_pitch table entry_point entry_to data_point data_to s1 of
        (False, s2) \<Rightarrow> Some (Returned 0, st\<lparr>p_vmm := s2\<rparr>)
      | (True, s2) \<Rightarrow> do {
          (a, h1) \<leftarrow> kmalloc sizeof_Process (p_heap st);
          if a = 0 then None
          else do {
            let ident = nextid st + 1;
            let stack_virt = 0 + 0 + PAGE_SIZE;
            let (frame, pm) = allocate_blocks 1 (phys s2);
            let s3 = snd (vmm_map table frame stack_virt (PTE_PRESENT OR PTE_WRITABLE) (s2\<lparr>phys := pm\<rparr>));
            let p = new_process a ident table entry_point stack_virt;
            (r, q1, h2) \<leftarrow> enqueue a (process_queue st) h1;
            let st1 = st\<lparr>p_vmm := s3, p_heap := h2, p_store := (p_store st)(a := p), process_queue := q1,
                         nr_processes := nr_processes st + 1, nextid := ident\<rparr>;
            (e, st2) \<leftarrow> switch_task st1;
            Some (case e of None \<Rightarrow> Returned ident | Some (ip, sp) \<Rightarrow> Entered ip sp, st2)
          }
        })"

section \<open>Bounded queues\<close>

text \<open>What a client may expect of a bounded queue, and what follows for a run of insertions and removals.\<close>

fun put_all :: "('a \<Rightarrow> 'q \<Rightarrow> int \<times> 'q) \<Rightarrow> 'a list \<Rightarrow> 'q \<Rightarrow> 'q" where
  "put_all put [] q = q"
| "put_all put (x # xs) q = put_all put xs (snd (put x q))"

fun get_all :: "('q \<Rightarrow> 'a \<times> 'q) \<Rightarrow> nat \<Rightarrow> 'q \<Rightarrow> 'a list" where
  "get_all get 0 q = []"
| "get_all get (Suc n) q = fst (get q) # get_all get n (snd (get q))"

locale bounded_queue =
  fixes put :: "'a \<Rightarrow> 'q \<Rightarrow> int \<times> 'q"
    and get :: "'q \<Rightarrow> 'a \<times> 'q"
    and content :: "'q \<Rightarrow> 'a list"
    and inv :: "'q \<Rightarrow> bool"
    and capacity :: nat
    and none :: 'a
  assumes bound: "inv q \<Longrightarrow> length (content q) \<le> capacity"
    and put_room: "inv q \<Longrightarrow> length (content q) < capacity \<Longrightarrow>
          fst (put x q) = 0 \<and> inv (snd (put x q)) \<and> content (snd (put x q)) = content q @ [x]"
    and put_full: "inv q \<Longrightarrow> length (content q) = capacity \<Longrightarrow> put x q = (- 1, q)"
    and get_empty: "inv q \<Longrightarrow> content q = [] \<Longrightarrow> get q = (none, q)"
    and get_first: "inv q \<Longrightarrow> content q = x # xs \<Longrightarrow>
          fst (get q) = x \<and> inv (snd (get q)) \<and> content (snd (get q)) = xs"
begin

lemma put_inv: "inv q \<Longrightarrow> inv (snd (put x q))"
  using bound [of q] put_room [of q x] put_full [of q x] by (cases "length (content q) < capacity") auto

lemma get_inv: "inv q \<Longrightarrow> inv (snd (get q))"
  using get_empty [of q] get_first [of q] by (cases "content q") auto

lemma put_all_room:
  "inv q \<Longrightarrow> length (content q) + length xs \<le> capacity \<Longrightarrow>
     inv (put_all put xs q) \<and> content (put_all put xs q) = content q @ xs"
proof (induction xs arbitrary: q)
  case (Cons x xs)
  then show ?case using put_room [of q x] by auto
qed simp

lemma get_all_content: "inv q \<Longrightarrow> get_all get (length (content q)) q = content q"
proof (induction "content q" arbitrary: q)
  case (Cons x xs)
  have eq: "content q = x # xs" using Cons.hyps(2) by simp
  then show ?case
    using get_first [OF Cons.prems eq] Cons.hyps(1) [of "snd (get q)"] by simp
qed simp

text \<open>Elements leave in the order in which they entered.\<close>

lemma fifo:
  assumes "inv q" "length (content q) + length xs \<le> capacity"
  shows "get_all get (length (content q) + length xs) (put_all put xs q) = content q @ xs"
  using get_all_content [of "put_all put xs q"] put_all_room [OF assms] by simp

end

section \<open>The ring buffer is a bounded queue\<close>

definition ring_ok :: "Queue \<Rightarrow> bool" where
  "ring_ok q \<longleftrightarrow> length (q_data q) = 16 \<and> unat (q_head q) < 16 \<and> unat (q_tail q) < 16"

definition ring_length :: "Queue \<Rightarrow> nat" where
  "ring_length q = (unat (q_tail q) + 16 - unat (q_head q)) mod 16"

definition ring_content :: "Queue \<Rightarrow> u64 list" where
  "ring_content q = map (\<lambda>i. q_data q ! ((unat (q_head q) + i) mod 16)) [0..<ring_length q]"

lemma ring_next:
  assumes "unat (x :: u32) < 16"
  shows "unat ((x + 1) AND (MAX_PROCESSES - 1)) = (unat x + 1) mod 16"
proof -
  have "MAX_PROCESSES - 1 = mask 4" by (simp add: MAX_PROCESSES_def mask_eq_exp_minus_1)
  then have "(x + 1) AND (MAX_PROCESSES - 1) = take_bit 4 (x + 1)" by (simp only: take_bit_eq_mask)
  moreover have "unat (x + 1) = unat x + 1" using assms by (subst unat_add_small) simp_all
  ultimately show ?thesis by (simp add: take_bit_eq_mod unat_mod)
qed

text \<open>The two index computations, on the 256 pairs of a head and a tail.\<close>

lemma ring_arith:
  assumes "h < 16" "t < (16 :: nat)"
  shows "(t + 1) mod 16 = h \<longleftrightarrow> (t + 16 - h) mod 16 = 15"
    "(t + 1) mod 16 \<noteq> h \<Longrightarrow> ((t + 1) mod 16 + 16 - h) mod 16 = Suc ((t + 16 - h) mod 16)"
    "(h + (t + 16 - h) mod 16) mod 16 = t"
    "h \<noteq> t \<Longrightarrow> (t + 16 - h) mod 16 = Suc ((t + 16 - (h + 1) mod 16) mod 16)"
proof -
  consider "h \<le> t" | "t < h" by linarith
  note c = this
  have m: "(t + 16 - h) mod 16 = (if h \<le> t then t - h else t + 16 - h)"
    using assms by (auto simp: mod_if)
  have n: "(t + 1) mod 16 = (if t = 15 then 0 else t + 1)" "(h + 1) mod 16 = (if h = 15 then 0 else h + 1)"
    using assms by (auto simp: mod_if)
  show "(t + 1) mod 16 = h \<longleftrightarrow> (t + 16 - h) mod 16 = 15" unfolding m n using assms by auto
  show "(t + 1) mod 16 \<noteq> h \<Longrightarrow> ((t + 1) mod 16 + 16 - h) mod 16 = Suc ((t + 16 - h) mod 16)"
    unfolding m n using assms by (auto simp: mod_if split: if_splits)
  show "(h + (t + 16 - h) mod 16) mod 16 = t" unfolding m using assms by (auto simp: mod_if)
  show "h \<noteq> t \<Longrightarrow> (t + 16 - h) mod 16 = Suc ((t + 16 - (h + 1) mod 16) mod 16)"
    unfolding m n using assms by (auto simp: mod_if split: if_splits)
qed

lemma ring_put_room:
  assumes ok: "ring_ok q" and room: "length (ring_content q) < 15"
  shows "fst (ring_put x q) = 0 \<and> ring_ok (snd (ring_put x q)) \<and>
     ring_content (snd (ring_put x q)) = ring_content q @ [x]"
proof -
  let ?h = "unat (q_head q)" and ?t = "unat (q_tail q)" and ?n = "(q_tail q + 1) AND (MAX_PROCESSES - 1)"
  have b: "?h < 16" "?t < 16" "length (q_data q) = 16" using ok by (auto simp: ring_ok_def)
  have n: "unat ?n = (?t + 1) mod 16" by (rule ring_next [OF b(2)])
  have "ring_length q < 15" using room by (simp add: ring_content_def)
  then have ne: "(?t + 1) mod 16 \<noteq> ?h" using ring_arith(1) [OF b(1,2)] by (auto simp: ring_length_def)
  then have "?n \<noteq> q_head q" using n by auto
  then have put: "ring_put x q = (0, q\<lparr>q_data := (q_data q)[?t := x], q_tail := ?n\<rparr>)"
    by (simp add: ring_put_def Let_def)
  let ?q = "q\<lparr>q_data := (q_data q)[?t := x], q_tail := ?n\<rparr>"
  have ok': "ring_ok ?q" using b n by (simp add: ring_ok_def)
  have len: "ring_length ?q = Suc (ring_length q)"
    using ring_arith(2) [OF b(1,2) ne] n by (simp add: ring_length_def)
  have last: "(?h + ring_length q) mod 16 = ?t" using ring_arith(3) [OF b(1,2)] by (simp add: ring_length_def)
  have "(?h + i) mod 16 \<noteq> ?t" if "i < ring_length q" for i
  proof
    assume "(?h + i) mod 16 = ?t"
    then have "(?h + i) mod 16 = (?h + ring_length q) mod 16" using last by simp
    then show False using mod_add_cancel_small [of ?h i 16 "ring_length q"] that
      by (auto simp: ring_length_def)
  qed
  then have old: "(q_data q)[?t := x] ! ((?h + i) mod 16) = q_data q ! ((?h + i) mod 16)" if "i < ring_length q" for i
    using that by (metis nth_list_update_neq)
  have "ring_content ?q = ring_content q @ [x]"
    unfolding ring_content_def len using last b old by simp
  then show ?thesis using put ok' by simp
qed

lemma ring_get_first:
  assumes ok: "ring_ok q" and c: "ring_content q = x # xs"
  shows "fst (dequeue q) = x \<and> ring_ok (snd (dequeue q)) \<and> ring_content (snd (dequeue q)) = xs"
proof -
  let ?h = "unat (q_head q)" and ?t = "unat (q_tail q)" and ?n = "(q_head q + 1) AND (MAX_PROCESSES - 1)"
  have b: "?h < 16" "?t < 16" "length (q_data q) = 16" using ok by (auto simp: ring_ok_def)
  have n: "unat ?n = (?h + 1) mod 16" by (rule ring_next [OF b(1)])
  have "ring_length q \<noteq> 0" using c by (cases "ring_length q") (auto simp: ring_content_def)
  then have ne: "?h \<noteq> ?t" by (auto simp: ring_length_def)
  then have get: "dequeue q = (q_data q ! ?h, q\<lparr>q_head := ?n\<rparr>)" by (auto simp: dequeue_def)
  let ?q = "q\<lparr>q_head := ?n\<rparr>"
  have len: "ring_length q = Suc (ring_length ?q)"
    using ring_arith(4) [OF b(1,2) ne] n by (simp add: ring_length_def)
  have "((?h + 1) mod 16 + i) mod 16 = (?h + Suc i) mod 16" for i by (simp add: mod_add_left_eq)
  then have "ring_content q = q_data q ! ?h # ring_content ?q"
    unfolding ring_content_def len using b(1) n by (simp add: upt_conv_Cons map_Suc_upt [symmetric] del: upt_Suc)
  then show ?thesis using c get b n by (simp add: ring_ok_def)
qed

interpretation ring: bounded_queue ring_put dequeue ring_content ring_ok 15 0
proof
  fix q :: Queue and x :: u64
  assume ok: "ring_ok q"
  have b: "unat (q_head q) < 16" "unat (q_tail q) < 16" using ok by (auto simp: ring_ok_def)
  have "ring_length q < 16" by (simp add: ring_length_def)
  then show "length (ring_content q) \<le> 15" by (simp add: ring_content_def)
  show "ring_put x q = (- 1, q)" if "length (ring_content q) = 15"
  proof -
    have "unat ((q_tail q + 1) AND (MAX_PROCESSES - 1)) = unat (q_head q)"
      using that ring_arith(1) [OF b] ring_next [OF b(2)] by (simp add: ring_content_def ring_length_def)
    then show ?thesis by (simp add: ring_put_def word_unat_eq_iff)
  qed
  show "dequeue q = (0, q)" if "ring_content q = []"
  proof -
    have "ring_length q = 0" using that by (simp add: ring_content_def)
    then have "unat (q_head q) = unat (q_tail q)"
      using ring_arith(3) [OF b] b by (simp add: ring_length_def)
    then show ?thesis by (simp add: dequeue_def word_unat_eq_iff)
  qed
qed (use ring_put_room ring_get_first in auto)

text \<open>C21. The process queue is a first-in first-out queue of at most fifteen processes: as long as
  there is room, processes leave it in the order in which they entered, behind those already waiting; a
  process put into a queue of fifteen is refused and the queue is unchanged; an empty queue gives NULL.\<close>

theorem process_queue_fifo:
  assumes "ring_ok q"
  shows "(length (ring_content q) + length ps \<le> 15 \<longrightarrow>
       get_all dequeue (length (ring_content q) + length ps) (put_all ring_put ps q) = ring_content q @ ps) \<and>
     (length (ring_content q) = 15 \<longrightarrow> ring_put p q = (- 1, q)) \<and>
     (ring_content q = [] \<longrightarrow> dequeue q = (0, q)) \<and> length (ring_content q) \<le> 15"
  using ring.fifo [OF assms] ring.put_full [OF assms] ring.get_empty [OF assms] ring.bound [OF assms] by auto

text \<open>Witness: a fresh queue.\<close>

theorem process_queue_fifo_witness:
  "get_all dequeue 3 (put_all ring_put [0x10, 0x20, 0x30] fresh_queue) = [0x10, 0x20, 0x30]"
proof -
  have "ring_ok fresh_queue" "ring_content fresh_queue = []"
    by (simp_all add: ring_ok_def fresh_queue_def ring_content_def ring_length_def)
  then show ?thesis using process_queue_fifo [of fresh_queue "[0x10, 0x20, 0x30]"] by (simp add: numeral_eq_Suc)
qed

section \<open>The address space of a process\<close>

lemma enqueue_single:
  assumes "qo = None \<or> (\<exists>q. qo = Some q \<and> ring_ok q \<and> ring_content q = [])" "enqueue a qo h = Some (r, Some q1, h')"
  shows "fst (dequeue q1) = a"
proof -
  have f: "ring_ok fresh_queue" "ring_content fresh_queue = []"
    by (simp_all add: ring_ok_def fresh_queue_def ring_content_def ring_length_def)
  have one: "fst (dequeue (snd (ring_put a q))) = a" if "ring_ok q" "ring_content q = []" for q
    using ring.put_room [OF that(1), of a] ring.get_first [of "snd (ring_put a q)" a "[]"] that(2) by simp
  from assms obtain q where "q1 = snd (ring_put a q)" "ring_ok q" "ring_content q = []"
    using f by (cases qo) (auto simp: enqueue_def split_def split: bind_splits if_splits)
  then show ?thesis using one by simp
qed

text \<open>The stages of a \<open>create_process\<close> that enters the new process.\<close>

lemma map_process_stages:
  assumes "map_process fb h p table ep et dp dt s = (True, s')"
  obtains s1 s2 s3 where
    "map_pages 4096 table 0 0 (PTE_PRESENT OR PTE_WRITABLE) s = (True, s1)"
    "map_framebuffer fb h p table s1 = (True, s2)"
    "vmm_map table ep et (PTE_PRESENT OR PTE_WRITABLE) s2 = (True, s3)"
    "vmm_map table dp dt (PTE_PRESENT OR PTE_WRITABLE) s3 = (True, s')"
  using assms unfolding map_process_def
  by (auto split: prod.splits bool.splits)

lemma create_process_stages:
  assumes run: "create_process fb h p ep et dp dt st = Some (Entered ip sp, st')"
    and q: "process_queue st = None \<or> (\<exists>q. process_queue st = Some q \<and> ring_ok q \<and> ring_content q = [])"
    and id: "nextid st + 1 \<noteq> 0" and room: "\<exists>a h'. kmalloc sizeof_Process (p_heap st) = Some (a, h')"
  obtains table s1 s2 frame pm where
    "alloc_table (p_vmm st) = (table, s1)" "map_process fb h p table ep et dp dt s1 = (True, s2)"
    "allocate_blocks 1 (phys s2) = (frame, pm)" "table \<noteq> 0" "ip = ep" "sp = 0x1000"
    "p_vmm st' = (snd (vmm_map table frame 0x1000 (PTE_PRESENT OR PTE_WRITABLE) (s2\<lparr>phys := pm\<rparr>)))
        \<lparr>current_pml4 := table, cr3 := table\<rparr>"
proof -
  obtain table s1 where al: "alloc_table (p_vmm st) = (table, s1)" by fastforce
  obtain ok s2 where mp: "map_process fb h p table ep et dp dt s1 = (ok, s2)" by fastforce
  have ok: "ok" using run al mp by (cases ok) (auto simp: create_process_def new_address_space_def)
  obtain a h1 where km: "kmalloc sizeof_Process (p_heap st) = Some (a, h1)" using room by blast
  have a: "a \<noteq> 0" using run al mp ok km by (cases "a = 0") (auto simp: create_process_def new_address_space_def)
  obtain frame pm where fr: "allocate_blocks 1 (phys s2) = (frame, pm)" by fastforce
  let ?s3 = "snd (vmm_map table frame 0x1000 (PTE_PRESENT OR PTE_WRITABLE) (s2\<lparr>phys := pm\<rparr>))"
  let ?P = "new_process a (nextid st + 1) table ep 0x1000"
  obtain r q1 h2 where en: "enqueue a (process_queue st) h1 = Some (r, q1, h2)"
    using run al mp ok km a fr
    by (cases "enqueue a (process_queue st) h1") (auto simp: create_process_def new_address_space_def Let_def)
  let ?st1 = "st\<lparr>p_vmm := ?s3, p_heap := h2, p_store := (p_store st)(a := ?P), process_queue := q1,
     nr_processes := nr_processes st + 1, nextid := nextid st + 1\<rparr>"
  obtain e where sw: "switch_task ?st1 = Some (e, st')" "(case e of None \<Rightarrow> Returned (nextid st + 1) | Some (ip, sp) \<Rightarrow> Entered ip sp) = Entered ip sp"
    using run al mp ok km a fr en
    by (cases "switch_task ?st1") (auto simp: create_process_def new_address_space_def Let_def PAGE_SIZE_def)
  then have e: "e = Some (ip, sp)" by (auto split: option.splits)
  obtain q2 where q2: "q1 = Some q2" using sw by (cases q1) (auto simp: switch_task_def)
  have "fst (dequeue q2) = a" using enqueue_single [OF q en [unfolded q2]] .
  then obtain q3 where dq: "dequeue q2 = (a, q3)" by (cases "dequeue q2") auto
  have ex: "execute_process ?P ?s3 = Some (Some (ip, sp), p_vmm st')"
    using sw(1) e q2 dq a by (auto simp: switch_task_def Let_def split: bind_splits)
  then have "table \<noteq> 0" "ip = ep" "sp = 0x1000" "p_vmm st' = ?s3\<lparr>current_pml4 := table, cr3 := table\<rparr>"
    using id by (auto simp: execute_process_def new_process_def vmm_set_pml4_def split: if_splits)
  moreover have "map_process fb h p table ep et dp dt s1 = (True, s2)" using mp ok by simp
  ultimately show ?thesis by (intro that [OF al _ fr])
qed

text \<open>Handing out a frame leaves the tables alone.\<close>

lemma pt_inv_allocate:
  assumes "pt_inv r s" "allocate_blocks 1 (phys s) = (f, pm)"
  shows "pt_inv r (s\<lparr>phys := pm\<rparr>)" and "pte_of r (s\<lparr>phys := pm\<rparr>) w = pte_of r s w"
proof -
  have ok: "frames_ok (phys s)" using assms(1) by (simp add: pt_inv_def)
  have "used_set (phys s) \<subseteq> used_set pm"
    using pf.alloc_null [OF ok] pf.alloc_used [OF ok assms(2)] assms(2) by (cases "f = 0") auto
  then show "pt_inv r (s\<lparr>phys := pm\<rparr>)" using assms(1) pf.alloc_inv [OF ok assms(2)] by (auto simp: pt_inv_def)
qed (simp add: pte_of_def split: option.split)

text \<open>The table that \<open>map_process\<close> and the mapping of the stack leave.\<close>

lemma map_process_table:
  assumes inv: "pt_inv t s" and m: "map_process fb h p t ep et dp dt s = (True, s')"
    and fb: "unat fb + unat h * unat p + 8192 \<le> 2 ^ 47" "unat (page_of fb) \<ge> 0x1000000 \<or> fb = 0"
  shows "pt_inv t s'"
    and "pte_of t s' w = (if vpn w = vpn dt then new_pte dp (PTE_PRESENT OR PTE_WRITABLE)
       else if vpn w = vpn et then new_pte ep (PTE_PRESENT OR PTE_WRITABLE)
       else if unat w < 0x1000000 then new_pte (page_of w) (PTE_PRESENT OR PTE_WRITABLE) else pte_of t s' w)"
proof -
  let ?f = "PTE_PRESENT OR PTE_WRITABLE"
  obtain s1 s2 s3 where st: "map_pages 4096 t 0 0 ?f s = (True, s1)" "map_framebuffer fb h p t s1 = (True, s2)"
    "vmm_map t ep et ?f s2 = (True, s3)" "vmm_map t dp dt ?f s3 = (True, s')"
    using map_process_stages [OF m] .
  have i1: "pt_inv t s1" by (rule aspace.map_range_inv [OF inv st(1)])
  note stage = framebuffer_stage [OF i1 st(2) fb(1)]
  have i3: "pt_inv t s3" by (rule aspace.map_inv [OF stage(1) st(3)])
  show "pt_inv t s'" by (rule aspace.map_inv [OF i3 st(4)])
  have "pte_of t s2 w = new_pte (page_of w) ?f" if "unat w < 0x1000000"
    using that fb(2) stage(2) [of w] identity_run [OF inv st(1), of w] by auto
  then show "pte_of t s' w = (if vpn w = vpn dt then new_pte dp ?f
       else if vpn w = vpn et then new_pte ep ?f
       else if unat w < 0x1000000 then new_pte (page_of w) ?f else pte_of t s' w)"
    using aspace.map_entry [OF stage(1) st(3), of w] aspace.map_entry [OF i3 st(4), of w] by simp
qed


text \<open>Witness: the machine with 128 MiB of memory, an empty heap and an empty process queue.\<close>

lemma map_process_avail:
  assumes inv: "pt_inv t s" and av: "12294 \<le> avail (phys s)"
  shows "\<exists>s'. map_process 0 h p t ep et dp dt s = (True, s')"
proof -
  let ?f = "PTE_PRESENT OR PTE_WRITABLE"
  obtain s1 where m1: "map_pages 4096 t 0 0 ?f s = (True, s1)" "avail (phys s) - 12288 \<le> avail (phys s1)"
    using map_pages_avail [OF inv, of 4096 0 0 ?f] av by auto
  have i1: "pt_inv t s1" by (rule aspace.map_range_inv [OF inv m1(1)])
  have a1: "6 \<le> avail (phys s1)" using m1(2) av by simp
  obtain s2 where m2: "map_pages 1 t ep et ?f s1 = (True, s2)" "avail (phys s1) - 3 * 1 \<le> avail (phys s2)"
    using map_pages_avail [OF i1, of 1 ep et ?f] a1 by (auto simp del: map_pages.simps)
  have i2: "pt_inv t s2" by (rule aspace.map_range_inv [OF i1 m2(1)])
  have a2: "3 * 1 \<le> avail (phys s2)" using m2(2) a1 by simp
  obtain s3 where m3: "map_pages 1 t dp dt ?f s2 = (True, s3)"
    using map_pages_avail [OF i2 a2, of dp dt ?f] by blast
  have "map_framebuffer 0 h p t s1 = (True, s1)" by (simp add: map_framebuffer_def)
  then show ?thesis unfolding map_process_def using m1(1) m2(1) m3 by (simp del: map_pages.simps)
qed

definition idle_system :: proc_state where
  "idle_system = \<lparr>p_vmm = boot_vmm, p_heap = empty_heap, p_store = (\<lambda>_. new_process 0 0 0 0 0),
     process_queue = Some fresh_queue, nr_processes = 0, nextid = 0\<rparr>"

lemma idle_kmalloc: "\<exists>h. kmalloc sizeof_Process empty_heap = Some (0x200010, h)"
  by (simp add: kmalloc_def find_free_block_def find_from.simps ALIGN8_def empty_heap_def create_block_def
      sizeof_block_def sizeof_Process_def)

lemma idle_queue: "dequeue (snd (ring_put 0x200010 fresh_queue)) = (0x200010, fresh_queue\<lparr>q_data := (replicate 16 0)[0 := 0x200010], q_head := 1, q_tail := 1\<rparr>)"
  by (simp add: ring_put_def fresh_queue_def dequeue_def MAX_PROCESSES_def numeral_eq_Suc Let_def)


end
