(* ===== verification/E1000.thy ===== *)
theory E1000
  imports Block_Device
begin

unbundle bit_operations_syntax

text \<open>
  The network card driver, \<open>kernel/drivers/e1000.c\<close>: register access, descriptor rings, sending and receiving.

  The card is a parameter with a state of type \<open>'n\<close>: what a read of a register returns, what a write of a
  register does, and what the card does by DMA to the rings and buffers between two looks of the driver
  at a descriptor.  Rings and buffers are in the driver state, which the card may change only through
  \<open>hw_dma\<close>.  The loop of \<open>eeprom_read\<close> has no bound in the code and is a partial function.
\<close>

section \<open>Data\<close>

definition E1000_CTRL :: u32 where "E1000_CTRL = 0x0000"
definition E1000_STATUS :: u32 where "E1000_STATUS = 0x0008"
definition E1000_EERD :: u32 where "E1000_EERD = 0x0014"
definition E1000_ICR :: u32 where "E1000_ICR = 0x00C0"
definition E1000_IMS :: u32 where "E1000_IMS = 0x00D0"
definition E1000_RCTL :: u32 where "E1000_RCTL = 0x0100"
definition E1000_TCTL :: u32 where "E1000_TCTL = 0x0400"
definition E1000_TIPG :: u32 where "E1000_TIPG = 0x0410"
definition E1000_RDBAL :: u32 where "E1000_RDBAL = 0x2800"
definition E1000_RDBAH :: u32 where "E1000_RDBAH = 0x2804"
definition E1000_RDLEN :: u32 where "E1000_RDLEN = 0x2808"
definition E1000_RDH :: u32 where "E1000_RDH = 0x2810"
definition E1000_RDT :: u32 where "E1000_RDT = 0x2818"
definition E1000_TDBAL :: u32 where "E1000_TDBAL = 0x3800"
definition E1000_TDBAH :: u32 where "E1000_TDBAH = 0x3804"
definition E1000_TDLEN :: u32 where "E1000_TDLEN = 0x3808"
definition E1000_TDH :: u32 where "E1000_TDH = 0x3810"
definition E1000_TDT :: u32 where "E1000_TDT = 0x3818"

definition E1000_RCTL_EN :: u32 where "E1000_RCTL_EN = push_bit 1 1"
definition E1000_RCTL_BAM :: u32 where "E1000_RCTL_BAM = push_bit 15 1"
definition E1000_RCTL_BSIZE_2048 :: u32 where "E1000_RCTL_BSIZE_2048 = 0"
definition E1000_RCTL_SECRC :: u32 where "E1000_RCTL_SECRC = push_bit 26 1"
definition E1000_TCTL_EN :: u32 where "E1000_TCTL_EN = push_bit 1 1"
definition E1000_TCTL_PSP :: u32 where "E1000_TCTL_PSP = push_bit 3 1"
definition E1000_TCTL_CT_SHIFT :: nat where "E1000_TCTL_CT_SHIFT = 4"
definition E1000_TCTL_COLD_SHIFT :: nat where "E1000_TCTL_COLD_SHIFT = 12"
definition E1000_ICR_LSC :: u32 where "E1000_ICR_LSC = push_bit 2 1"
definition E1000_ICR_RXO :: u32 where "E1000_ICR_RXO = push_bit 6 1"
definition E1000_ICR_RXT0 :: u32 where "E1000_ICR_RXT0 = push_bit 7 1"
definition E1000_TXD_CMD_EOP :: u8 where "E1000_TXD_CMD_EOP = push_bit 0 1"
definition E1000_TXD_CMD_IFCS :: u8 where "E1000_TXD_CMD_IFCS = push_bit 1 1"
definition E1000_TXD_CMD_RS :: u8 where "E1000_TXD_CMD_RS = push_bit 3 1"
definition E1000_TXD_STAT_DD :: u8 where "E1000_TXD_STAT_DD = push_bit 0 1"
definition E1000_RXD_STAT_DD :: u8 where "E1000_RXD_STAT_DD = push_bit 0 1"
definition E1000_NUM_RX_DESC :: nat where "E1000_NUM_RX_DESC = 32"
definition E1000_NUM_TX_DESC :: nat where "E1000_NUM_TX_DESC = 8"
definition E1000_RX_BUF_SIZE :: nat where "E1000_RX_BUF_SIZE = 2048"
definition E1000_TX_BUF_SIZE :: nat where "E1000_TX_BUF_SIZE = 2048"

record e1000_rx_desc =
  rxd_addr :: u64
  rxd_length :: u16
  rxd_checksum :: u16
  rxd_status :: u8
  rxd_errors :: u8
  rxd_special :: u16

record e1000_tx_desc =
  txd_addr :: u64
  txd_length :: u16
  txd_cso :: u8
  txd_cmd :: u8
  txd_status :: u8
  txd_css :: u8
  txd_special :: u16

text \<open>The static variables of the driver.  \<open>rx_bufs\<close> and \<open>tx_buf\<close> are the bytes of the DMA areas, which
  are identity-mapped; the \<open>_phys\<close> fields are their addresses.\<close>

record 'n nic =
  hw :: 'n
  mmio_base :: u64
  mac :: "u8 list"
  rx_descs_phys :: u64
  tx_descs_phys :: u64
  rx_bufs_phys :: u64
  tx_buf_phys :: u64
  rx_descs :: "e1000_rx_desc list"
  tx_descs :: "e1000_tx_desc list"
  rx_bufs :: "u8 list"
  tx_buf :: "u8 list"
  rx_tail :: u32
  tx_tail :: u32
  rx_pending :: bool

text \<open>The card.  A register is named by its index in the array of 32-bit registers.\<close>

record 'n e1000_hw =
  hw_read :: "u32 \<Rightarrow> 'n \<Rightarrow> u32 \<times> 'n"
  hw_write :: "u32 \<Rightarrow> u32 \<Rightarrow> 'n \<Rightarrow> 'n"
  hw_dma :: "'n nic \<Rightarrow> 'n nic"

section \<open>Registers\<close>

definition e1000_read :: "'n e1000_hw \<Rightarrow> u32 \<Rightarrow> 'n nic \<Rightarrow> u32 \<times> 'n nic" where
  "e1000_read dev reg s = (case hw_read dev (reg div 4) (hw s) of (v, n) \<Rightarrow> (v, s\<lparr>hw := n\<rparr>))"

definition e1000_write :: "'n e1000_hw \<Rightarrow> u32 \<Rightarrow> u32 \<Rightarrow> 'n nic \<Rightarrow> 'n nic" where
  "e1000_write dev reg val s = s\<lparr>hw := hw_write dev (reg div 4) val (hw s)\<rparr>"

partial_function (option) eeprom_wait :: "'n e1000_hw \<Rightarrow> 'n nic \<Rightarrow> (u32 \<times> 'n nic) option" where
  "eeprom_wait dev s =
     (case e1000_read dev E1000_EERD s of
        (v, s') \<Rightarrow> if v AND push_bit 4 1 = 0 then eeprom_wait dev s' else Some (v, s'))"

definition eeprom_read :: "'n e1000_hw \<Rightarrow> u8 \<Rightarrow> 'n nic \<Rightarrow> (u32 \<times> 'n nic) option" where
  "eeprom_read dev addr s = do {
     (v, s') \<leftarrow> eeprom_wait dev (e1000_write dev E1000_EERD (1 OR push_bit 8 (ucast addr)) s);
     Some (drop_bit 16 v AND 0xFFFF, s')
   }"

definition read_mac :: "'n e1000_hw \<Rightarrow> 'n nic \<Rightarrow> 'n nic option" where
  "read_mac dev s = do {
     (lo, s) \<leftarrow> eeprom_read dev 0 s;
     (mid, s) \<leftarrow> eeprom_read dev 1 s;
     (hi, s) \<leftarrow> eeprom_read dev 2 s;
     Some (s\<lparr>mac := [ucast (lo AND 0xFF), ucast (drop_bit 8 lo AND 0xFF),
                     ucast (mid AND 0xFF), ucast (drop_bit 8 mid AND 0xFF),
                     ucast (hi AND 0xFF), ucast (drop_bit 8 hi AND 0xFF)]\<rparr>)
   }"

section \<open>Rings\<close>

definition rx_init :: "'n e1000_hw \<Rightarrow> 'n nic \<Rightarrow> 'n nic" where
  "rx_init dev s =
     (let s = s\<lparr>rx_descs := map (\<lambda>i. ((rx_descs s) ! i)
                 \<lparr>rxd_addr := rx_bufs_phys s + of_nat (i * E1000_RX_BUF_SIZE), rxd_status := 0\<rparr>)
               [0..<E1000_NUM_RX_DESC]\<rparr>;
          base = rx_descs_phys s;
          s = e1000_write dev E1000_RDBAL (ucast (base AND 0xFFFFFFFF)) s;
          s = e1000_write dev E1000_RDBAH (ucast (drop_bit 32 base)) s;
          s = e1000_write dev E1000_RDLEN (of_nat (E1000_NUM_RX_DESC * 16)) s;
          s = e1000_write dev E1000_RDH 0 s;
          s = e1000_write dev E1000_RDT (of_nat (E1000_NUM_RX_DESC - 1)) s;
          s = s\<lparr>rx_tail := 0\<rparr>
      in e1000_write dev E1000_RCTL
           (E1000_RCTL_EN OR E1000_RCTL_BAM OR E1000_RCTL_BSIZE_2048 OR E1000_RCTL_SECRC) s)"

definition tx_init :: "'n e1000_hw \<Rightarrow> 'n nic \<Rightarrow> 'n nic" where
  "tx_init dev s =
     (let s = s\<lparr>tx_descs := map (\<lambda>i. ((tx_descs s) ! i)\<lparr>txd_addr := 0, txd_status := E1000_TXD_STAT_DD\<rparr>)
               [0..<E1000_NUM_TX_DESC]\<rparr>;
          base = tx_descs_phys s;
          s = e1000_write dev E1000_TDBAL (ucast (base AND 0xFFFFFFFF)) s;
          s = e1000_write dev E1000_TDBAH (ucast (drop_bit 32 base)) s;
          s = e1000_write dev E1000_TDLEN (of_nat (E1000_NUM_TX_DESC * 16)) s;
          s = e1000_write dev E1000_TDH 0 s;
          s = e1000_write dev E1000_TDT 0 s;
          s = s\<lparr>tx_tail := 0\<rparr>;
          s = e1000_write dev E1000_TCTL (E1000_TCTL_EN OR E1000_TCTL_PSP OR
                push_bit E1000_TCTL_CT_SHIFT 15 OR push_bit E1000_TCTL_COLD_SHIFT 63) s
      in e1000_write dev E1000_TIPG 0x0060200A s)"

definition e1000_irq_handler :: "'n e1000_hw \<Rightarrow> 'n nic \<Rightarrow> 'n nic" where
  "e1000_irq_handler dev s =
     (let (icr, s) = e1000_read dev E1000_ICR s;
          s = (if icr AND E1000_ICR_LSC \<noteq> 0 then snd (e1000_read dev E1000_STATUS s) else s)
      in if icr AND (E1000_ICR_RXT0 OR E1000_ICR_RXO) \<noteq> 0 then s\<lparr>rx_pending := True\<rparr> else s)"

section \<open>Sending and receiving\<close>

text \<open>The wait for a free descriptor, at most \<open>timeout\<close> looks at its status.\<close>

fun wait_tx :: "'n e1000_hw \<Rightarrow> nat \<Rightarrow> 'n nic \<Rightarrow> bool \<times> 'n nic" where
  "wait_tx dev 0 s = (False, s)"
| "wait_tx dev (Suc timeout) s =
     (let s = hw_dma dev s
      in if txd_status (tx_descs s ! unat (tx_tail s)) AND E1000_TXD_STAT_DD \<noteq> 0 then (True, s)
         else wait_tx dev timeout s)"

definition e1000_send :: "'n e1000_hw \<Rightarrow> u8 list \<Rightarrow> 'n nic \<Rightarrow> int \<times> 'n nic" where
  "e1000_send dev data s =
     (if mmio_base s = 0 then (- 1, s)
      else if E1000_TX_BUF_SIZE < length data then (- 1, s)
      else case wait_tx dev 100000 s of
             (False, s) \<Rightarrow> (- 1, s)
           | (True, s) \<Rightarrow>
               let s = s\<lparr>tx_buf := memcpy_at (tx_buf s) 0 data\<rparr>;
                   i = unat (tx_tail s);
                   d = (tx_descs s ! i)\<lparr>txd_addr := tx_buf_phys s, txd_length := of_nat (length data),
                          txd_cmd := E1000_TXD_CMD_EOP OR E1000_TXD_CMD_IFCS OR E1000_TXD_CMD_RS,
                          txd_status := 0\<rparr>;
                   s = s\<lparr>tx_descs := (tx_descs s)[i := d], tx_tail := (tx_tail s + 1) mod of_nat E1000_NUM_TX_DESC\<rparr>
               in (0, e1000_write dev E1000_TDT (tx_tail s) s))"

definition e1000_get_mac :: "'n nic \<Rightarrow> u8 list" where
  "e1000_get_mac s = map (\<lambda>i. mac s ! i) [0..<6]"

text \<open>The result carries the bytes stored to \<open>buf\<close>, whose number is stored to \<open>*len\<close>.\<close>

definition e1000_receive :: "'n e1000_hw \<Rightarrow> 'n nic \<Rightarrow> u8 list option \<times> 'n nic" where
  "e1000_receive dev s =
     (if mmio_base s = 0 then (None, s)
      else let s = hw_dma dev s; i = unat (rx_tail s) in
        if rxd_status (rx_descs s ! i) AND E1000_RXD_STAT_DD \<noteq> 0
        then let n = unat (rxd_length (rx_descs s ! i));
                 bytes = map (\<lambda>k. rx_bufs s ! (i * E1000_RX_BUF_SIZE + k)) [0..<n];
                 s = s\<lparr>rx_descs := (rx_descs s)[i := (rx_descs s ! i)\<lparr>rxd_status := 0\<rparr>]\<rparr>;
                 s = e1000_write dev E1000_RDT (rx_tail s) s
             in (Some bytes, s\<lparr>rx_tail := (rx_tail s + 1) mod of_nat E1000_NUM_RX_DESC\<rparr>)
        else (None, s))"

section \<open>What the card leaves alone\<close>

text \<open>The driver's own state, well formed.\<close>

definition nic_ok :: "'n nic \<Rightarrow> bool" where
  "nic_ok s \<longleftrightarrow> length (tx_descs s) = 8 \<and> length (rx_descs s) = 32 \<and> length (tx_buf s) = 2048 \<and>
     length (rx_bufs s) = 32 * 4096 \<and> length (mac s) = 6 \<and> unat (tx_tail s) < 8 \<and> unat (rx_tail s) < 32"

text \<open>What the driver keeps for itself: everything but the rings' contents and the receive buffers.\<close>

definition nic_own :: "'n nic \<Rightarrow> u64 \<times> u8 list \<times> (u64 \<times> u64 \<times> u64 \<times> u64) \<times> u8 list \<times> u32 \<times> u32 \<times> bool" where
  "nic_own s = (mmio_base s, mac s, (rx_descs_phys s, tx_descs_phys s, rx_bufs_phys s, tx_buf_phys s),
     tx_buf s, rx_tail s, tx_tail s, rx_pending s)"

text \<open>The documented behaviour of the card that the driver relies on: it writes to descriptors and receive
  buffers only.\<close>

definition card_ok :: "'n e1000_hw \<Rightarrow> bool" where
  "card_ok dev \<longleftrightarrow> (\<forall>s. nic_own (hw_dma dev s) = nic_own s \<and>
     length (tx_descs (hw_dma dev s)) = length (tx_descs s) \<and>
     length (rx_descs (hw_dma dev s)) = length (rx_descs s) \<and>
     length (rx_bufs (hw_dma dev s)) = length (rx_bufs s))"

lemma card_okD:
  assumes "card_ok dev"
  shows "nic_own (hw_dma dev s) = nic_own s" "nic_ok (hw_dma dev s) = nic_ok s"
    "length (tx_descs (hw_dma dev s)) = length (tx_descs s)"
proof -
  have a: "nic_own (hw_dma dev s) = nic_own s" "length (tx_descs (hw_dma dev s)) = length (tx_descs s)"
    "length (rx_descs (hw_dma dev s)) = length (rx_descs s)" "length (rx_bufs (hw_dma dev s)) = length (rx_bufs s)"
    using assms by (auto simp: card_ok_def)
  then show "nic_own (hw_dma dev s) = nic_own s" "nic_ok (hw_dma dev s) = nic_ok s"
    "length (tx_descs (hw_dma dev s)) = length (tx_descs s)" by (auto simp: nic_own_def nic_ok_def)
qed

lemma wait_tx_keeps:
  assumes c: "card_ok dev" and w: "wait_tx dev n s = (b, s')"
  shows "nic_own s' = nic_own s \<and> nic_ok s' = nic_ok s \<and> length (tx_descs s') = length (tx_descs s)"
  using w
proof (induction n arbitrary: s)
  case (Suc n)
  show ?case
  proof (cases "txd_status (tx_descs (hw_dma dev s) ! unat (tx_tail (hw_dma dev s))) AND E1000_TXD_STAT_DD \<noteq> 0")
    case True
    then show ?thesis using Suc.prems card_okD [OF c, of s] by simp
  next
    case False
    then have "wait_tx dev n (hw_dma dev s) = (b, s')" using Suc.prems by simp
    from Suc.IH [OF this] show ?thesis using card_okD [OF c, of s] by simp
  qed
qed simp

lemma wait_tx_done:
  "wait_tx dev n s = (True, s') \<Longrightarrow> txd_status (tx_descs s' ! unat (tx_tail s')) AND E1000_TXD_STAT_DD \<noteq> 0"
proof (induction n arbitrary: s)
  case (Suc n)
  show ?case
  proof (cases "txd_status (tx_descs (hw_dma dev s) ! unat (tx_tail (hw_dma dev s))) AND E1000_TXD_STAT_DD \<noteq> 0")
    case True
    then show ?thesis using Suc.prems by simp
  next
    case False
    then show ?thesis using Suc.prems Suc.IH [of "hw_dma dev s"] by simp
  qed
qed simp

text \<open>Within \<open>n\<close> looks the driver sees the descriptor free exactly when the card frees it in that many rounds.\<close>

lemma wait_tx_iff:
  "fst (wait_tx dev n s) \<longleftrightarrow>
     (\<exists>k < n. let s' = (hw_dma dev ^^ Suc k) s in txd_status (tx_descs s' ! unat (tx_tail s')) AND E1000_TXD_STAT_DD \<noteq> 0)"
proof (induction n arbitrary: s)
  case (Suc n)
  show ?case
    unfolding Ex_less_Suc2 using Suc.IH [of "hw_dma dev s"] by (simp add: Let_def funpow_swap1)
qed simp

lemma e1000_write_simps [simp]:
  "tx_descs (e1000_write dev r v s) = tx_descs s" "rx_descs (e1000_write dev r v s) = rx_descs s"
  "tx_buf (e1000_write dev r v s) = tx_buf s" "tx_tail (e1000_write dev r v s) = tx_tail s"
  "rx_tail (e1000_write dev r v s) = rx_tail s" "mmio_base (e1000_write dev r v s) = mmio_base s"
  "nic_ok (e1000_write dev r v s) = nic_ok s" "nic_own (e1000_write dev r v s) = nic_own s"
  "mac (e1000_write dev r v s) = mac s" "rx_pending (e1000_write dev r v s) = rx_pending s"
  "tx_buf_phys (e1000_write dev r v s) = tx_buf_phys s" "rx_bufs (e1000_write dev r v s) = rx_bufs s"
  by (simp_all add: e1000_write_def nic_ok_def nic_own_def)

lemma tail_next: "unat ((x + 1) mod of_nat E1000_NUM_TX_DESC :: u32) < 8"
  "unat ((x + 1) mod of_nat E1000_NUM_RX_DESC :: u32) < 32"
  by (simp_all add: E1000_NUM_TX_DESC_def E1000_NUM_RX_DESC_def unat_mod)

text \<open>The descriptor and the state that a send leaves once the descriptor is free.\<close>

lemma e1000_send_free:
  assumes "mmio_base s \<noteq> 0" "length data \<le> 2048" "wait_tx dev 100000 s = (True, s1)" "nic_ok s1"
  obtains s' where "e1000_send dev data s = (0, s')" "nic_ok s'"
    "tx_descs s' = (tx_descs s1)[unat (tx_tail s1) := (tx_descs s1 ! unat (tx_tail s1))
       \<lparr>txd_addr := tx_buf_phys s1, txd_length := of_nat (length data), txd_cmd := 0xB, txd_status := 0\<rparr>]"
    "take (length data) (tx_buf s') = data" "tx_tail s' = (tx_tail s1 + 1) mod 8"
    "mmio_base s' = mmio_base s1" "tx_buf_phys s' = tx_buf_phys s1"
proof -
  have "E1000_TXD_CMD_EOP OR E1000_TXD_CMD_IFCS OR E1000_TXD_CMD_RS = 0xB"
    by (simp add: E1000_TXD_CMD_EOP_def E1000_TXD_CMD_IFCS_def E1000_TXD_CMD_RS_def)
  moreover have "nic_ok (s1\<lparr>tx_buf := memcpy_at (tx_buf s1) 0 data, tx_descs := (tx_descs s1)[i := d],
      tx_tail := (x + 1) mod of_nat E1000_NUM_TX_DESC\<rparr>)" for i d x
    using assms(2,4) tail_next(1) [of x] by (simp add: nic_ok_def)
  ultimately show thesis
    using assms by (intro that [of "snd (e1000_send dev data s)"])
      (simp_all add: e1000_send_def E1000_TX_BUF_SIZE_def Let_def memcpy_at_def nic_ok_def E1000_NUM_TX_DESC_def)
qed

section \<open>Properties\<close>

text \<open>C25. Sending a frame of at most 2048 bytes succeeds exactly when the card frees the current descriptor
  within 100000 looks; then the descriptor belongs to the card and describes the transmit buffer, whose
  bytes are the frame, and the ring advances by one.  Otherwise -1 is returned and nothing of the driver has changed.\<close>

theorem e1000_send_correct:
  assumes "card_ok dev" "nic_ok s" "mmio_base s \<noteq> 0" "length data \<le> 2048" "e1000_send dev data s = (r, s')"
  shows "nic_ok s' \<and>
     (r = 0 \<longleftrightarrow> (\<exists>k < 100000. let t = (hw_dma dev ^^ Suc k) s in
        txd_status (tx_descs t ! unat (tx_tail t)) AND E1000_TXD_STAT_DD \<noteq> 0)) \<and>
     (r \<noteq> 0 \<longrightarrow> r = - 1 \<and> nic_own s' = nic_own s) \<and>
     (r = 0 \<longrightarrow> (let d = tx_descs s' ! unat (tx_tail s) in
        txd_addr d = tx_buf_phys s \<and> unat (txd_length d) = length data \<and> txd_status d = 0 \<and>
        take (length data) (tx_buf s') = data \<and> tx_tail s' = (tx_tail s + 1) mod 8))"
proof -
  obtain b s1 where w: "wait_tx dev 100000 s = (b, s1)" by fastforce
  have k: "nic_own s1 = nic_own s" "nic_ok s1" using wait_tx_keeps [OF assms(1) w] assms(2) by simp_all
  have iff: "b \<longleftrightarrow> (\<exists>k < 100000. let t = (hw_dma dev ^^ Suc k) s in
      txd_status (tx_descs t ! unat (tx_tail t)) AND E1000_TXD_STAT_DD \<noteq> 0)"
    using wait_tx_iff [of dev 100000 s] w by simp
  show ?thesis
  proof (cases b)
    case False
    then have "r = - 1" "s' = s1" using assms(3-5) w by (simp_all add: e1000_send_def E1000_TX_BUF_SIZE_def)
    then show ?thesis unfolding iff [symmetric] using k False by simp
  next
    case True
    obtain t where t: "e1000_send dev data s = (0, t)" "nic_ok t"
      "tx_descs t = (tx_descs s1)[unat (tx_tail s1) := (tx_descs s1 ! unat (tx_tail s1))
         \<lparr>txd_addr := tx_buf_phys s1, txd_length := of_nat (length data), txd_cmd := 0xB, txd_status := 0\<rparr>]"
      "take (length data) (tx_buf t) = data" "tx_tail t = (tx_tail s1 + 1) mod 8"
      using e1000_send_free [OF assms(3,4) _ k(2), of dev] w True by auto
    have "tx_tail s1 = tx_tail s" "tx_buf_phys s1 = tx_buf_phys s" "unat (tx_tail s) < length (tx_descs s1)"
      using k assms(2) by (auto simp: nic_own_def nic_ok_def)
    moreover have "unat (of_nat (length data) :: u16) = length data" using assms(4) by (simp add: unat_of_nat_small)
    ultimately show ?thesis unfolding iff [symmetric] using t assms(5) True by simp
  qed
qed

text \<open>Witness: a card that is always ready, with registers that nobody reads.\<close>

definition ready_card :: "unit e1000_hw" where
  "ready_card = \<lparr>hw_read = (\<lambda>_ n. (0, n)), hw_write = (\<lambda>_ _ n. n), hw_dma = (\<lambda>s. s)\<rparr>"

definition idle_nic :: "unit nic" where
  "idle_nic = \<lparr>hw = (), mmio_base = 0xFFFFFFFF90000000, mac = [0x52, 0x54, 0, 0x12, 0x34, 0x56],
     rx_descs_phys = 0x600000, tx_descs_phys = 0x601000, rx_bufs_phys = 0x602000, tx_buf_phys = 0x622000,
     rx_descs = replicate 32 \<lparr>rxd_addr = 0, rxd_length = 0, rxd_checksum = 0, rxd_status = 0, rxd_errors = 0,
       rxd_special = 0\<rparr>,
     tx_descs = replicate 8 \<lparr>txd_addr = 0, txd_length = 0, txd_cso = 0, txd_cmd = 0, txd_status = 1, txd_css = 0,
       txd_special = 0\<rparr>,
     rx_bufs = replicate (32 * 4096) 0, tx_buf = replicate 2048 0, rx_tail = 0, tx_tail = 0, rx_pending = False\<rparr>"

lemma ready_card_ok: "card_ok ready_card"
  by (simp add: card_ok_def ready_card_def)

lemma idle_nic_ok: "nic_ok idle_nic" "mmio_base idle_nic \<noteq> 0"
  by (simp_all add: nic_ok_def idle_nic_def)

lemma ready_card_wait:
  assumes "txd_status (tx_descs s ! unat (tx_tail s)) AND E1000_TXD_STAT_DD \<noteq> 0" "0 < n"
  shows "wait_tx ready_card n s = (True, s)"
  using assms by (cases n) (simp_all add: ready_card_def)

theorem e1000_send_correct_witness:
  "\<exists>s'. e1000_send ready_card [1, 2, 3] idle_nic = (0, s') \<and> take (length [1, 2, 3 :: u8]) (tx_buf s') = [1, 2, 3]"
proof -
  have "wait_tx ready_card 100000 idle_nic = (True, idle_nic)"
    by (rule ready_card_wait) (simp_all add: idle_nic_def E1000_TXD_STAT_DD_def)
  then obtain s' where c: "e1000_send ready_card [1, 2, 3] idle_nic = (0, s')"
    using e1000_send_free [of idle_nic "[1, 2, 3]" ready_card idle_nic] idle_nic_ok by fastforce
  show ?thesis
    using e1000_send_correct [OF ready_card_ok idle_nic_ok _ c] c by (simp add: Let_def)
qed

text \<open>All descriptors share one transmit buffer.  When the card has not yet processed a frame and the
  next descriptor is free, sending a second frame succeeds and leaves two pending descriptors that both
  point to the buffer, which holds the second frame: the first one is lost.\<close>

theorem e1000_send_overwrites_pending:
  assumes "nic_ok s" "mmio_base s \<noteq> 0" "length a \<le> 2048" "length b \<le> 2048"
    and "\<forall>i < 8. txd_status (tx_descs s ! i) AND E1000_TXD_STAT_DD \<noteq> 0"
  shows "\<exists>s1 s2. e1000_send ready_card a s = (0, s1) \<and> e1000_send ready_card b s1 = (0, s2) \<and>
     (let d1 = tx_descs s2 ! unat (tx_tail s); d2 = tx_descs s2 ! unat (tx_tail s1) in
        unat (tx_tail s) \<noteq> unat (tx_tail s1) \<and> txd_status d1 = 0 \<and> txd_status d2 = 0 \<and>
        txd_addr d1 = txd_addr d2 \<and> take (length b) (tx_buf s2) = b)"
proof -
  let ?i = "unat (tx_tail s)" and ?j = "unat ((tx_tail s + 1) mod 8)"
  have i: "?i < 8" "length (tx_descs s) = 8" using assms(1) by (simp_all add: nic_ok_def)
  have "unat (tx_tail s + 1) = ?i + 1" using i by (subst unat_add_small) simp_all
  then have j: "?j = (?i + 1) mod 8" by (simp add: unat_mod)
  then have ij: "?j \<noteq> ?i" "?j < 8" using i(1) by (auto simp: mod_if split: if_splits)
  have "wait_tx ready_card 100000 s = (True, s)" by (rule ready_card_wait) (use assms(5) i in auto)
  then obtain s1 where s1: "e1000_send ready_card a s = (0, s1)" "nic_ok s1"
    "tx_descs s1 = (tx_descs s)[?i := (tx_descs s ! ?i)
       \<lparr>txd_addr := tx_buf_phys s, txd_length := of_nat (length a), txd_cmd := 0xB, txd_status := 0\<rparr>]"
    "tx_tail s1 = (tx_tail s + 1) mod 8" "mmio_base s1 \<noteq> 0" "tx_buf_phys s1 = tx_buf_phys s"
    using e1000_send_free [OF assms(2,3) _ assms(1)] assms(2) by metis
  have "wait_tx ready_card 100000 s1 = (True, s1)"
    by (rule ready_card_wait) (use assms(5) ij i s1(3,4) in auto)
  then obtain s2 where s2: "e1000_send ready_card b s1 = (0, s2)"
    "tx_descs s2 = (tx_descs s1)[?j := (tx_descs s1 ! ?j)
       \<lparr>txd_addr := tx_buf_phys s1, txd_length := of_nat (length b), txd_cmd := 0xB, txd_status := 0\<rparr>]"
    "take (length b) (tx_buf s2) = b"
    using e1000_send_free [OF s1(5) assms(4) _ s1(2)] s1(4) by metis
  show ?thesis
    using s1 s2 ij i by (intro exI [of _ s1] exI [of _ s2]) (simp add: Let_def)
qed

text \<open>Witness: two frames on the idle card.\<close>

theorem e1000_send_overwrites_pending_witness:
  "\<exists>s1 s2. e1000_send ready_card [1, 1] idle_nic = (0, s1) \<and> e1000_send ready_card [2, 2] s1 = (0, s2) \<and>
     txd_status (tx_descs s2 ! unat (tx_tail idle_nic)) = 0 \<and> take (length [2, 2 :: u8]) (tx_buf s2) = [2, 2]"
proof -
  have "\<forall>i < 8. txd_status (tx_descs idle_nic ! i) AND E1000_TXD_STAT_DD \<noteq> 0"
    by (simp add: idle_nic_def E1000_TXD_STAT_DD_def)
  then show ?thesis
    using e1000_send_overwrites_pending [OF idle_nic_ok, of "[1, 1]" "[2, 2]"] by (auto simp: Let_def)
qed

end
