(* ===== verification/Net.thy ===== *)
theory Net
  imports E1000
begin

unbundle bit_operations_syntax

text \<open>
  The network stack, \<open>kernel/net/\<close>: Ethernet frames (\<open>net.c\<close>), the address cache (\<open>arp.c\<close>), IPv4 (\<open>ip.c\<close>) and
  echo requests and replies (\<open>icmp.c\<close>), on top of the card driver.

  A packet is the list of bytes of the buffer it is in, from the packet's first byte to the end of the
  buffer.  \<open>None\<close> is an access past the end of that buffer, or a \<open>memcpy\<close> past the end of one
  of the static buffers of the stack (2048 bytes in \<open>net.c\<close>, 1514 in \<open>ip.c\<close>, 1024 in \<open>icmp.c\<close>).
\<close>

section \<open>Data\<close>

definition bswap16 :: "u16 \<Rightarrow> u16" where
  "bswap16 x = push_bit 8 x OR drop_bit 8 x"

definition bswap32 :: "u32 \<Rightarrow> u32" where
  "bswap32 x = push_bit 24 x OR push_bit 8 (x AND 0xFF00) OR (drop_bit 8 x AND 0xFF00) OR drop_bit 24 x"

definition ARP_HWTYPE_ETHER :: u16 where "ARP_HWTYPE_ETHER = 1"
definition ARP_PROTYPE_IPV4 :: u16 where "ARP_PROTYPE_IPV4 = 0x0800"
definition ARP_OP_REQUEST :: u16 where "ARP_OP_REQUEST = 1"
definition ARP_OP_REPLY :: u16 where "ARP_OP_REPLY = 2"
definition ETHER_TYPE_ARP :: u16 where "ETHER_TYPE_ARP = 0x0806"
definition ETHER_TYPE_IPV4 :: u16 where "ETHER_TYPE_IPV4 = 0x0800"
definition MAC_BROADCAST :: "u8 list" where "MAC_BROADCAST = replicate 6 0xFF"
definition ICMP_ECHO_REQUEST :: u8 where "ICMP_ECHO_REQUEST = 8"
definition ICMP_ECHO_REPLY :: u8 where "ICMP_ECHO_REPLY = 0"
definition IP_PROTO_ICMP :: u8 where "IP_PROTO_ICMP = 1"
definition IP_DF :: u16 where "IP_DF = 0x4000"
definition ARP_CACHE_SIZE :: nat where "ARP_CACHE_SIZE = 16"

record arp_entry =
  ae_ip :: u32
  ae_mac :: "u8 list"
  ae_valid :: bool

record arp_packet =
  hw_type :: u16
  proto_type :: u16
  hw_size :: u8
  proto_size :: u8
  arp_op :: u16
  sender_mac :: "u8 list"
  sender_ip :: u32
  target_mac :: "u8 list"
  target_ip :: u32

definition arp_bytes :: "arp_packet \<Rightarrow> u8 list" where
  "arp_bytes p = le16 (hw_type p) @ le16 (proto_type p) @ [hw_size p, proto_size p] @ le16 (arp_op p) @
     sender_mac p @ le32 (sender_ip p) @ target_mac p @ le32 (target_ip p)"

definition load_arp :: "u8 list \<Rightarrow> arp_packet" where
  "load_arp b = \<lparr>hw_type = buf16 b 0, proto_type = buf16 b 2, hw_size = b ! 4, proto_size = b ! 5,
     arp_op = buf16 b 6, sender_mac = take 6 (drop 8 b), sender_ip = buf32 b 14,
     target_mac = take 6 (drop 18 b), target_ip = buf32 b 24\<rparr>"

record ip_header =
  ihl :: u8
  version :: u8
  dscp :: u8
  ecn :: u8
  total_length :: u16
  identification :: u16
  flags_fragment :: u16
  ttl :: u8
  protocol :: u8
  ip_check :: u16
  src_ip :: u32
  dst_ip :: u32

definition ip_bytes :: "ip_header \<Rightarrow> u8 list" where
  "ip_bytes h = [ihl h OR push_bit 4 (version h), dscp h OR push_bit 6 (ecn h)] @ le16 (total_length h) @
     le16 (identification h) @ le16 (flags_fragment h) @ [ttl h, protocol h] @ le16 (ip_check h) @
     le32 (src_ip h) @ le32 (dst_ip h)"

definition load_ip :: "u8 list \<Rightarrow> ip_header" where
  "load_ip b = \<lparr>ihl = b ! 0 AND 0xF, version = drop_bit 4 (b ! 0), dscp = b ! 1 AND 0x3F, ecn = drop_bit 6 (b ! 1),
     total_length = buf16 b 2, identification = buf16 b 4, flags_fragment = buf16 b 6, ttl = b ! 8, protocol = b ! 9,
     ip_check = buf16 b 10, src_ip = buf32 b 12, dst_ip = buf32 b 16\<rparr>"

record icmp_header =
  icmp_type :: u8
  icmp_code :: u8
  icmp_check :: u16
  icmp_ident :: u16
  icmp_seq :: u16

definition icmp_bytes :: "icmp_header \<Rightarrow> u8 list" where
  "icmp_bytes h = [icmp_type h, icmp_code h] @ le16 (icmp_check h) @ le16 (icmp_ident h) @ le16 (icmp_seq h)"

record 'n net_state =
  card :: "'n nic"
  net_ip :: u32
  net_gateway :: u32
  net_subnet :: u32
  net_mac :: "u8 list"
  arp_cache :: "arp_entry list"
  reply_received :: bool

section \<open>Frames out\<close>

definition IP_addr :: "u32 \<Rightarrow> u32 \<Rightarrow> u32 \<Rightarrow> u32 \<Rightarrow> u32" where
  "IP_addr a b c d = push_bit 24 (a AND 0xFF) OR push_bit 16 (b AND 0xFF) OR push_bit 8 (c AND 0xFF) OR (d AND 0xFF)"

definition net_init :: "'n net_state \<Rightarrow> 'n net_state" where
  "net_init s = s\<lparr>net_ip := IP_addr 10 0 2 15, net_gateway := IP_addr 10 0 2 2,
     net_subnet := IP_addr 255 255 255 0, net_mac := e1000_get_mac (card s)\<rparr>"

definition net_send_frame ::
  "'n e1000_hw \<Rightarrow> u8 list \<Rightarrow> u16 \<Rightarrow> u8 list \<Rightarrow> 'n net_state \<Rightarrow> 'n net_state option" where
  "net_send_frame dev dst_mac ether_type payload s =
     (if 2048 < 14 + length payload then None
      else let frame = take 6 dst_mac @ take 6 (net_mac s) @ le16 (bswap16 ether_type) @ payload
           in Some (s\<lparr>card := snd (e1000_send dev frame (card s))\<rparr>))"

section \<open>Addresses\<close>

definition arp_init :: "'n net_state \<Rightarrow> 'n net_state" where
  "arp_init s = s\<lparr>arp_cache := map (\<lambda>e. e\<lparr>ae_valid := False\<rparr>) (arp_cache s)\<rparr>"

text \<open>The two loops over the cache: the entry of a known address is refreshed, an unknown address takes the
  first entry that is not valid.\<close>

fun arp_refresh :: "u32 \<Rightarrow> u8 list \<Rightarrow> arp_entry list \<Rightarrow> arp_entry list option" where
  "arp_refresh ip m [] = None"
| "arp_refresh ip m (e # es) =
     (if ae_valid e \<and> ae_ip e = ip then Some (e\<lparr>ae_mac := m\<rparr> # es)
      else map_option ((#) e) (arp_refresh ip m es))"

fun arp_insert :: "u32 \<Rightarrow> u8 list \<Rightarrow> arp_entry list \<Rightarrow> arp_entry list" where
  "arp_insert ip m [] = []"
| "arp_insert ip m (e # es) =
     (if \<not> ae_valid e then e\<lparr>ae_ip := ip, ae_mac := m, ae_valid := True\<rparr> # es else e # arp_insert ip m es)"

definition arp_reply_to :: "'n net_state \<Rightarrow> arp_packet \<Rightarrow> arp_packet" where
  "arp_reply_to s arp = \<lparr>hw_type = bswap16 ARP_HWTYPE_ETHER, proto_type = bswap16 ARP_PROTYPE_IPV4, hw_size = 6,
     proto_size = 4, arp_op = bswap16 ARP_OP_REPLY, sender_mac = net_mac s, sender_ip = bswap32 (net_ip s),
     target_mac = sender_mac arp, target_ip = bswap32 (sender_ip arp)\<rparr>"

definition arp_learn :: "u32 \<Rightarrow> u8 list \<Rightarrow> arp_entry list \<Rightarrow> arp_entry list" where
  "arp_learn ip m es = (case arp_refresh ip m es of Some es' \<Rightarrow> es' | None \<Rightarrow> arp_insert ip m es)"

definition arp_handle :: "'n e1000_hw \<Rightarrow> u8 list \<Rightarrow> 'n net_state \<Rightarrow> 'n net_state option" where
  "arp_handle dev data s =
     (if length data < 28 then None
      else let arp = load_arp data;
               oper = bswap16 (arp_op arp);
               target = bswap32 (target_ip arp);
               sender = bswap32 (sender_ip arp)
           in do {
             s \<leftarrow> (if oper = ARP_OP_REQUEST \<and> target = net_ip s
                  then net_send_frame dev (sender_mac arp) ETHER_TYPE_ARP (arp_bytes (arp_reply_to s arp)) s
                  else Some s);
             Some (if oper = ARP_OP_REQUEST \<or> oper = ARP_OP_REPLY
                   then s\<lparr>arp_cache := arp_learn sender (sender_mac arp) (arp_cache s)\<rparr> else s)
           })"

definition arp_request :: "'n e1000_hw \<Rightarrow> u32 \<Rightarrow> 'n net_state \<Rightarrow> 'n net_state option" where
  "arp_request dev target s =
     (let req = \<lparr>hw_type = bswap16 ARP_HWTYPE_ETHER, proto_type = bswap16 ARP_PROTYPE_IPV4, hw_size = 6,
            proto_size = 4, arp_op = bswap16 ARP_OP_REQUEST, sender_mac = net_mac s, sender_ip = bswap32 (net_ip s),
            target_mac = replicate 6 0, target_ip = bswap32 target\<rparr>
      in net_send_frame dev MAC_BROADCAST ETHER_TYPE_ARP (arp_bytes req) s)"

definition arp_resolve :: "u32 \<Rightarrow> 'n net_state \<Rightarrow> u8 list option" where
  "arp_resolve ip s = map_option ae_mac (find (\<lambda>e. ae_valid e \<and> ae_ip e = ip) (arp_cache s))"

section \<open>IP and ICMP\<close>

fun sum16 :: "u8 list \<Rightarrow> u32 \<Rightarrow> u32" where
  "sum16 [] acc = acc"
| "sum16 [b] acc = acc + ucast b"
| "sum16 (a # b # bs) acc = sum16 bs (acc + ucast (buf16 [a, b] 0))"

function fold16 :: "u32 \<Rightarrow> u32" where
  "fold16 acc = (if drop_bit 16 acc \<noteq> 0 then fold16 ((acc AND 0xFFFF) + drop_bit 16 acc) else acc)"
  by auto

lemma unat_and_FFFF: "unat (x AND 0xFFFF :: u32) = unat x mod 65536"
proof -
  have "x AND 0xFFFF = take_bit 16 x" by (simp add: take_bit_eq_mask mask_eq_exp_minus_1)
  then show ?thesis by (simp add: take_bit_eq_mod unat_mod)
qed

lemma unat_drop16: "unat (drop_bit 16 x :: u32) = unat x div 65536"
  by (simp add: unsigned_drop_bit_eq drop_bit_eq_div)

lemma unat_fold_step: "unat ((x AND 0xFFFF) + drop_bit 16 x :: u32) = unat x mod 65536 + unat x div 65536"
proof -
  have "unat x < 2 ^ 32" using unsigned_less [of x] by simp
  then have "unat x div 65536 < 65536" by simp
  moreover have "unat x mod 65536 < 65536" by simp
  ultimately show ?thesis by (subst unat_add_small) (simp_all add: unat_and_FFFF unat_drop16)
qed

termination fold16
proof (relation "measure unat")
  fix x :: u32
  assume "drop_bit 16 x \<noteq> 0"
  then have "unat x div 65536 \<noteq> 0" by (metis unat_drop16 unat_eq_0)
  then have "unat x mod 65536 + unat x div 65536 < unat x"
    using div_mult_mod_eq [of "unat x" 65536] by linarith
  then show "((x AND 0xFFFF) + drop_bit 16 x, x) \<in> measure unat" by (simp add: unat_fold_step)
qed simp

declare fold16.simps [simp del]

definition ip_checksum :: "u8 list \<Rightarrow> u16" where
  "ip_checksum data = ucast (NOT (fold16 (sum16 data 0)))"

definition icmp_checksum :: "u8 list \<Rightarrow> u16" where
  "icmp_checksum data = ucast (NOT (fold16 (sum16 data 0)))"

definition ip_send :: "'n e1000_hw \<Rightarrow> u32 \<Rightarrow> u8 \<Rightarrow> u8 list \<Rightarrow> 'n net_state \<Rightarrow> 'n net_state option" where
  "ip_send dev dst proto payload s =
     (if 1514 < 20 + length payload then None
      else let h = \<lparr>ihl = 5, version = 4, dscp = 0, ecn = 0, total_length = bswap16 (of_nat (20 + length payload)),
                    identification = bswap16 0, flags_fragment = bswap16 IP_DF, ttl = 64, protocol = proto, ip_check = 0,
                    src_ip = bswap32 (net_ip s), dst_ip = bswap32 dst\<rparr>;
               h = h\<lparr>ip_check := ip_checksum (ip_bytes h)\<rparr>
           in case arp_resolve dst s of
                Some dst_mac \<Rightarrow> net_send_frame dev dst_mac ETHER_TYPE_IPV4 (ip_bytes h @ payload) s
              | None \<Rightarrow> arp_request dev dst s)"

text \<open>An ICMP message: a header with its checksum filled in, and a payload.\<close>

definition icmp_message :: "icmp_header \<Rightarrow> u8 list \<Rightarrow> u8 list" where
  "icmp_message h payload =
     (let h = h\<lparr>icmp_check := 0\<rparr>; h = h\<lparr>icmp_check := icmp_checksum (icmp_bytes h @ payload)\<rparr>
      in icmp_bytes h @ payload)"

definition icmp_handle :: "'n e1000_hw \<Rightarrow> u32 \<Rightarrow> u8 list \<Rightarrow> u16 \<Rightarrow> 'n net_state \<Rightarrow> 'n net_state option" where
  "icmp_handle dev src data len s =
     (if data = [] then None
      else if data ! 0 = ICMP_ECHO_REQUEST
      then let payload_len = unat (len - 8)
           in if length data < 8 + payload_len \<or> 1024 < 8 + payload_len then None
              else ip_send dev src IP_PROTO_ICMP
                     (icmp_message \<lparr>icmp_type = ICMP_ECHO_REPLY, icmp_code = 0, icmp_check = 0,
                        icmp_ident = buf16 data 4, icmp_seq = buf16 data 6\<rparr> (take payload_len (drop 8 data))) s
      else if data ! 0 = ICMP_ECHO_REPLY then Some (s\<lparr>reply_received := True\<rparr>)
      else Some s)"

definition icmp_send_echo_request :: "'n e1000_hw \<Rightarrow> u32 \<Rightarrow> u16 \<Rightarrow> u16 \<Rightarrow> 'n net_state \<Rightarrow> 'n net_state option" where
  "icmp_send_echo_request dev dst ident seq s =
     ip_send dev dst IP_PROTO_ICMP
       (icmp_message \<lparr>icmp_type = ICMP_ECHO_REQUEST, icmp_code = 0, icmp_check = 0, icmp_ident = bswap16 ident,
          icmp_seq = bswap16 seq\<rparr> (map of_char ''GeckoOS ping'')) s"

definition icmp_got_reply :: "'n net_state \<Rightarrow> bool" where
  "icmp_got_reply s = reply_received s"

definition icmp_clear_reply :: "'n net_state \<Rightarrow> 'n net_state" where
  "icmp_clear_reply s = s\<lparr>reply_received := False\<rparr>"

definition ip_handle :: "'n e1000_hw \<Rightarrow> u8 list \<Rightarrow> 'n net_state \<Rightarrow> 'n net_state option" where
  "ip_handle dev data s =
     (if data = [] then None
      else if drop_bit 4 (data ! 0) \<noteq> 4 then Some s
      else if length data < 20 then None
      else let ip = load_ip data
           in if bswap32 (dst_ip ip) \<noteq> net_ip s then Some s
              else let total_len = bswap16 (total_length ip);
                       hdr_len = ucast (ihl ip) * 4;
                       payload_len = total_len - hdr_len
                   in if protocol ip = IP_PROTO_ICMP
                      then icmp_handle dev (bswap32 (src_ip ip)) (drop 20 data) payload_len s
                      else Some s)"

section \<open>Frames in\<close>

definition for_us :: "u8 list \<Rightarrow> 'n net_state \<Rightarrow> bool" where
  "for_us data s \<longleftrightarrow> list_all (\<lambda>i. data ! i = net_mac s ! i \<or> data ! i = 0xFF) [0..<6]"

definition net_handle_packet :: "'n e1000_hw \<Rightarrow> u8 list \<Rightarrow> u16 \<Rightarrow> 'n net_state \<Rightarrow> 'n net_state option" where
  "net_handle_packet dev data len s =
     (if len < 14 then Some s
      else if length data < 14 then None
      else if \<not> for_us data s then Some s
      else let type = bswap16 (buf16 data 12)
           in if type = ETHER_TYPE_ARP then arp_handle dev (drop 14 data) s
              else if type = ETHER_TYPE_IPV4 then ip_handle dev (drop 14 data) s
              else Some s)"

end
