(* ===== verification/Net_Props.thy ===== *)
theory Net_Props
  imports Net
begin

unbundle bit_operations_syntax

text \<open>
  Properties of the network stack: the Internet checksum against its definition, the
  address cache as a finite map, and what the stack sends in answer to address and echo requests.
\<close>

section \<open>The Internet checksum\<close>

text \<open>The reference: the sum of the little-endian 16-bit words in one's complement arithmetic, that is modulo
  65535, where only the empty sum is represented by zero.\<close>

fun words16 :: "u8 list \<Rightarrow> nat list" where
  "words16 [] = []"
| "words16 [b] = [unat b]"
| "words16 (a # b # bs) = (unat a + 256 * unat b) # words16 bs"

definition ones_sum :: "nat \<Rightarrow> nat" where
  "ones_sum n = (if n = 0 then 0 else (n - 1) mod 65535 + 1)"

definition internet_checksum :: "u8 list \<Rightarrow> nat" where
  "internet_checksum bs = 65535 - ones_sum (sum_list (words16 bs))"

lemma unat_buf16: "unat (buf16 [a, b] 0) = unat a + 256 * unat b"
proof -
  have "(ucast a :: u16) AND push_bit 8 (ucast b) = 0"
    by (rule bit_word_eqI) (auto simp: bit_simps dest: bit_imp_le_length)
  then have eq: "buf16 [a, b] 0 = ucast a + push_bit 8 (ucast b)"
    by (simp add: buf16_def disjunctive_add_eq_or)
  have u: "unat (ucast a :: u16) = unat a" "unat (ucast b :: u16) = unat b" "unat a < 256" "unat b < 256"
    using unat_u8_less [of a] unat_u8_less [of b] by (simp_all add: unsigned_ucast_eq take_bit_eq_mod)
  then have "unat (push_bit 8 (ucast b) :: u16) = 256 * unat b"
    by (simp add: push_bit_eq_mult unat_word_ariths)
  then show ?thesis unfolding eq using u by (subst unat_add_small) simp_all
qed

lemma words16_bound: "sum_list (words16 bs) \<le> 65535 * ((length bs + 1) div 2)"
proof (induction bs rule: words16.induct)
  case (3 a b bs)
  have "unat a < 256" "unat b < 256" by (rule unat_u8_less)+
  then show ?case using 3 by simp
next
  case (2 b)
  then show ?case using unat_u8_less [of b] by simp
qed simp

lemma unat_sum16:
  "unat acc + 65535 * ((length bs + 1) div 2) < 2 ^ 32 \<Longrightarrow> unat (sum16 bs acc) = unat acc + sum_list (words16 bs)"
proof (induction bs acc rule: sum16.induct)
  case (2 b acc)
  have "unat (ucast b :: u32) = unat b" "unat b < 256"
    using unat_u8_less [of b] by (simp_all add: unsigned_ucast_eq take_bit_eq_mod)
  then show ?case using 2 by (simp add: unat_add_small)
next
  case (3 a b bs acc)
  have u: "unat (ucast (buf16 [a, b] 0) :: u32) = unat a + 256 * unat b" "unat a + 256 * unat b < 65536"
    using unat_u16_less [of "buf16 [a, b] 0"] by (simp_all add: unsigned_ucast_eq take_bit_eq_mod unat_buf16)
  then have "unat (acc + ucast (buf16 [a, b] 0)) = unat acc + (unat a + 256 * unat b)"
    using 3 by (subst unat_add_small) simp_all
  then show ?case using 3 u by simp
qed simp

lemma ones_sum_less: "n < 65536 \<Longrightarrow> ones_sum n = n"
  by (cases n) (simp_all add: ones_sum_def)

lemma ones_sum_fold: "ones_sum (n mod 65536 + n div 65536) = ones_sum n"
proof (cases "n = 0")
  case False
  let ?m = "n mod 65536 + n div 65536"
  have n: "n = ?m + 65535 * (n div 65536)" using mult_div_mod_eq [of 65536 n] by linarith
  then have "?m \<noteq> 0" using False by (cases "n div 65536") auto
  then have "n - 1 = (?m - 1) + 65535 * (n div 65536)" using n by linarith
  then have "(n - 1) mod 65535 = (?m - 1) mod 65535" by (metis mod_mult_self2)
  then show ?thesis using False \<open>?m \<noteq> 0\<close> by (simp add: ones_sum_def)
qed simp

lemma unat_fold16: "unat (fold16 x) = ones_sum (unat x)"
proof (induction x rule: fold16.induct)
  case (1 x)
  show ?case
  proof (cases "drop_bit 16 x \<noteq> 0")
    case True
    then have "fold16 x = fold16 ((x AND 0xFFFF) + drop_bit 16 x)" by (subst fold16.simps) simp
    then show ?thesis using 1 True by (simp add: unat_fold_step ones_sum_fold)
  next
    case False
    then have "unat x div 65536 = 0" by (metis unat_drop16 unat_eq_0)
    then have "unat x < 65536" by (simp add: div_eq_0_iff)
    moreover have "fold16 x = x" using False by (subst fold16.simps) simp
    ultimately show ?thesis by (simp add: ones_sum_less)
  qed
qed

lemma ones_sum_le: "ones_sum n \<le> 65535"
  using mod_less_divisor [of 65535 "n - 1"] by (auto simp: ones_sum_def less_eq_Suc_le [symmetric] simp del: mod_less_divisor)

lemma unat_not16:
  assumes "unat (x :: u32) < 65536"
  shows "unat (ucast (NOT x) :: u16) = 65535 - unat x"
proof -
  have u: "unat (ucast x :: u16) = unat x" using assms by (simp add: unsigned_ucast_eq take_bit_eq_mod)
  have "ucast (NOT x) = NOT (ucast x :: u16)" by (rule bit_word_eqI) (auto simp: bit_simps)
  also have "\<dots> = 65535 - ucast x" by (simp add: not_eq_complement)
  finally show ?thesis using u assms unat_u16_less [of "ucast x"] by (simp add: unat_sub word_le_nat_alt)
qed

lemma unat_ip_checksum:
  assumes "length bs \<le> 65536"
  shows "unat (ip_checksum bs) = internet_checksum bs" and "unat (icmp_checksum bs) = internet_checksum bs"
proof -
  have "unat (sum16 bs 0) = sum_list (words16 bs)" using assms by (subst unat_sum16) simp_all
  then have "unat (fold16 (sum16 bs 0)) = ones_sum (sum_list (words16 bs))" by (simp add: unat_fold16)
  then show "unat (ip_checksum bs) = internet_checksum bs" "unat (icmp_checksum bs) = internet_checksum bs"
    using ones_sum_le [of "sum_list (words16 bs)"]
    by (simp_all add: ip_checksum_def icmp_checksum_def internet_checksum_def unat_not16)
qed

text \<open>A message with its checksum in place sums to all ones.\<close>

lemma words16_append: "even (length xs) \<Longrightarrow> words16 (xs @ ys) = words16 xs @ words16 ys"
  by (induction xs rule: words16.induct) auto

lemma words16_le16: "words16 (le16 w) = [unat w]"
proof -
  have "buf16 (le16 w) 0 = w" by (rule buf16_bytes) (simp_all add: le16_def)
  then show ?thesis using unat_buf16 [of "ucast w" "ucast (drop_bit 8 w)"] by (simp add: le16_def)
qed

lemma ones_sum_complement: "ones_sum (n + (65535 - ones_sum n)) = 65535"
proof (cases "n = 0")
  case False
  define q where "q = (n - 1) div 65535"
  have "n = q * 65535 + (n - 1) mod 65535 + 1"
    using False div_mult_mod_eq [of "n - 1" 65535] by (simp add: q_def)
  then have "n + (65535 - ones_sum n) = q * 65535 + 65535"
    using False ones_sum_le [of n] by (simp add: ones_sum_def)
  then have "n + (65535 - ones_sum n) - 1 = q * 65535 + 65534" by simp
  then show ?thesis using False by (simp add: ones_sum_def [of "n + _"])
qed (simp add: ones_sum_def)

lemma checksum_in_place:
  assumes e: "even (length xs)" and l: "length xs + 2 + length ys \<le> 65536"
    and w: "unat w = internet_checksum (xs @ le16 0 @ ys)"
  shows "internet_checksum (xs @ le16 w @ ys) = 0"
proof -
  let ?n = "sum_list (words16 xs) + sum_list (words16 ys)"
  have split: "sum_list (words16 (xs @ le16 v @ ys)) = ?n + unat v" for v
    using e by (simp add: words16_append words16_le16)
  have "unat w = 65535 - ones_sum ?n" using w split [of 0] by (simp add: internet_checksum_def)
  then show ?thesis using ones_sum_complement [of ?n] split [of w] by (simp add: internet_checksum_def)
qed

lemma checksum_zero:
  assumes "length bs \<le> 65536" "internet_checksum bs = 0"
  shows "ip_checksum bs = 0" "icmp_checksum bs = 0"
  using unat_ip_checksum [OF assms(1)] assms(2) by (simp_all add: unat_eq_0)

section \<open>The address cache\<close>

definition arp_map :: "arp_entry list \<Rightarrow> u32 \<Rightarrow> u8 list option" where
  "arp_map es ip = map_option ae_mac (find (\<lambda>e. ae_valid e \<and> ae_ip e = ip) es)"

lemma arp_map_simps [simp]:
  "arp_map [] = Map.empty"
  "arp_map (e # es) = (if ae_valid e then (arp_map es)(ae_ip e \<mapsto> ae_mac e) else arp_map es)"
  by (auto simp: arp_map_def fun_eq_iff)

lemma arp_refresh_map:
  "arp_refresh ip m es = None \<longleftrightarrow> arp_map es ip = None"
  "arp_refresh ip m es = Some es' \<Longrightarrow> arp_map es' = (arp_map es)(ip \<mapsto> m) \<and> length es' = length es"
proof -
  show "arp_refresh ip m es = None \<longleftrightarrow> arp_map es ip = None" by (induction es) auto
  show "arp_refresh ip m es = Some es' \<Longrightarrow> arp_map es' = (arp_map es)(ip \<mapsto> m) \<and> length es' = length es"
    by (induction es arbitrary: es') (auto split: if_splits simp: fun_upd_twist)
qed

lemma arp_insert_map:
  "arp_map es ip = None \<Longrightarrow>
     arp_map (arp_insert ip m es) = (if list_ex (\<lambda>e. \<not> ae_valid e) es then (arp_map es)(ip \<mapsto> m) else arp_map es)"
  by (induction es) (auto simp: fun_upd_twist split: if_splits)

lemma length_arp_insert [simp]: "length (arp_insert ip m es) = length es"
  by (induction es) auto

lemma arp_learn_map:
  "arp_map (arp_learn ip m es) =
     (if arp_map es ip \<noteq> None \<or> list_ex (\<lambda>e. \<not> ae_valid e) es then (arp_map es)(ip \<mapsto> m) else arp_map es)"
  "length (arp_learn ip m es) = length es"
  using arp_refresh_map [of ip m es] arp_insert_map [of es ip m]
  by (auto simp: arp_learn_def split: option.split)

lemma arp_resolve_map: "arp_resolve ip s = arp_map (arp_cache s) ip"
  by (simp add: arp_resolve_def arp_map_def)

section \<open>Byte order\<close>

lemma bswap32_bit:
  "bit (bswap32 x) n \<longleftrightarrow> n < 32 \<and> bit x (if n < 8 then n + 24 else if n < 16 then n + 8 else if n < 24 then n - 8 else n - 24)"
proof -
  have "(0xFF00 :: u32) = push_bit 8 (mask 8)" by (simp add: mask_eq_exp_minus_1 push_bit_eq_mult)
  then have m: "bit (0xFF00 :: u32) k \<longleftrightarrow> 8 \<le> k \<and> k < 16" for k
    by (simp only: bit_push_bit_iff bit_mask_iff) auto
  have c: "bit x (24 + n) = bit x (n + 24)" "bit x (8 + n) = bit x (n + 8)" by (simp_all only: add.commute)
  show ?thesis
    unfolding bswap32_def bit_or_iff bit_and_iff bit_push_bit_iff bit_drop_bit_eq comp_apply m c
    by (auto dest: bit_imp_le_length)
qed

lemma bswap_swap [simp]: "bswap32 (bswap32 x) = x" "bswap16 (bswap16 y) = y"
proof -
  show "bswap32 (bswap32 x) = x" by (rule bit_word_eqI) (auto simp: bswap32_bit split: if_splits)
  show "bswap16 (bswap16 y) = y" by (rule bit_word_eqI) (auto simp: bswap16_def bit_simps dest: bit_imp_le_length)
qed

lemma le_bswap: "le32 (bswap32 x) = rev (le32 x)" "le16 (bswap16 y) = rev (le16 y)"
proof -
  show "le32 (bswap32 x) = rev (le32 x)"
    unfolding le32_def by (simp, safe; rule bit_word_eqI) (auto simp: bit_simps bswap32_bit add.commute)
  show "le16 (bswap16 y) = rev (le16 y)"
    unfolding le16_def by (simp, safe; rule bit_word_eqI) (auto simp: bswap16_def bit_simps dest: bit_imp_le_length)
qed

lemma le_buf16: "i + 2 \<le> length b \<Longrightarrow> le16 (buf16 b i) = take 2 (drop i b)"
proof -
  assume "i + 2 \<le> length b"
  then have "take 2 (drop i b) = [b ! i, b ! (i + 1)]"
    by (simp add: numeral_2_eq_2 take_Suc_conv_app_nth)
  moreover have "ucast (buf16 b i) = b ! i" "ucast (drop_bit 8 (buf16 b i)) = b ! (i + 1)"
    unfolding buf16_def by (rule bit_word_eqI; auto simp: bit_simps dest: bit_imp_le_length)+
  ultimately show ?thesis by (simp add: le16_def)
qed

lemma le_buf32: "i + 4 \<le> length b \<Longrightarrow> le32 (buf32 b i) = take 4 (drop i b)"
proof -
  assume l: "i + 4 \<le> length b"
  have "le32 (buf32 b i) = le16 (buf16 b i) @ le16 (buf16 b (i + 2))"
    unfolding buf32_def le32_def le16_def
    by (simp, safe; rule bit_word_eqI; auto simp: bit_simps dest: bit_imp_le_length)
  also have "\<dots> = take 2 (drop i b) @ take 2 (drop 2 (drop i b))"
    using l by (simp add: le_buf16 add.commute)
  also have "\<dots> = take 4 (drop i b)" using take_add [of 2 2 "drop i b"] by simp
  finally show ?thesis .
qed

section \<open>Properties\<close>

text \<open>C23. Both checksum routines compute the Internet checksum of a message of at most 65536 bytes, although they
  add up in 32 bits and fold the carries afterwards; a message into which the checksum has been stored (at an even
  offset, over a zero field) has checksum zero, which is what a receiver tests.\<close>

theorem checksum_is_internet_checksum:
  assumes "even (length xs)" "length xs + 2 + length ys \<le> 65536"
  shows "unat (ip_checksum (xs @ le16 0 @ ys)) = internet_checksum (xs @ le16 0 @ ys) \<and>
     icmp_checksum (xs @ le16 0 @ ys) = ip_checksum (xs @ le16 0 @ ys) \<and>
     ip_checksum (xs @ le16 (ip_checksum (xs @ le16 0 @ ys)) @ ys) = 0"
proof -
  have l: "length (xs @ le16 w @ ys) \<le> 65536" for w using assms(2) by simp
  show ?thesis
    using unat_ip_checksum [OF l] checksum_zero(1) [OF l checksum_in_place [OF assms]]
    by (simp add: word_unat_eq_iff)
qed

text \<open>Witness: a header of an IP packet.\<close>

theorem checksum_is_internet_checksum_witness:
  "ip_checksum ([0x45, 0, 0, 0x54, 0, 0, 0x40, 0, 0x40, 1] @ le16 0 @ [10, 0, 2, 15, 10, 0, 2, 2]) = 0x9922 \<and>
   ip_checksum ([0x45, 0, 0, 0x54, 0, 0, 0x40, 0, 0x40, 1] @ le16 0x9922 @ [10, 0, 2, 15, 10, 0, 2, 2]) = 0"
proof -
  let ?a = "[0x45, 0, 0, 0x54, 0, 0, 0x40, 0, 0x40, 1] :: u8 list" and ?b = "[10, 0, 2, 15, 10, 0, 2, 2] :: u8 list"
  have "unat (ip_checksum (?a @ le16 0 @ ?b)) = internet_checksum (?a @ le16 0 @ ?b)"
    "ip_checksum (?a @ le16 (ip_checksum (?a @ le16 0 @ ?b)) @ ?b) = 0"
    using checksum_is_internet_checksum [of ?a ?b] by simp_all
  moreover have "internet_checksum (?a @ le16 0 @ ?b) = unat (0x9922 :: u16)"
    by (simp add: internet_checksum_def ones_sum_def le16_def)
  ultimately have "ip_checksum (?a @ le16 0 @ ?b) = 0x9922" "ip_checksum (?a @ le16 0x9922 @ ?b) = 0"
    by (metis word_unat_eq_iff)+
  then show ?thesis ..
qed

text \<open>The state after the answer to a request for the kernel's address, if there is one.\<close>

definition after_reply :: "'n e1000_hw \<Rightarrow> arp_packet \<Rightarrow> 'n net_state \<Rightarrow> 'n net_state" where
  "after_reply dev arp s =
     (if bswap16 (arp_op arp) = ARP_OP_REQUEST \<and> bswap32 (target_ip arp) = net_ip s
      then s\<lparr>card := snd (e1000_send dev (take 6 (sender_mac arp) @ take 6 (net_mac s) @
             le16 (bswap16 ETHER_TYPE_ARP) @ arp_bytes (arp_reply_to s arp)) (card s))\<rparr>
      else s)"

lemma arp_handle_eq:
  assumes "28 \<le> length data" "length (net_mac s) = 6"
  shows "arp_handle dev data s =
     (let arp = load_arp data; op = bswap16 (arp_op arp); s1 = after_reply dev arp s
      in Some (if op = ARP_OP_REQUEST \<or> op = ARP_OP_REPLY
               then s1\<lparr>arp_cache := arp_learn (bswap32 (sender_ip arp)) (sender_mac arp) (arp_cache s)\<rparr> else s1))"
proof -
  have "length (arp_bytes (arp_reply_to s (load_arp data))) = 28"
    using assms by (simp add: arp_bytes_def arp_reply_to_def load_arp_def)
  then show ?thesis using assms(1) by (simp add: arp_handle_def Let_def net_send_frame_def after_reply_def)
qed

text \<open>C24. The address cache refines a finite map of bounded size: an address packet (request or reply) makes
  the sender's address resolve to the sender's hardware address if the sender is known or an entry is free, changes no
  other address, and is ignored when the cache is full of others; other packets change nothing.\<close>

theorem arp_handle_learns:
  assumes "28 \<le> length data" "length (net_mac s) = 6"
  shows "\<exists>s'. arp_handle dev data s = Some s' \<and> length (arp_cache s') = length (arp_cache s) \<and>
     (let op = bswap16 (buf16 data 6); sender = bswap32 (buf32 data 14) in
      \<forall>ip. arp_resolve ip s' =
        (if (op = ARP_OP_REQUEST \<or> op = ARP_OP_REPLY) \<and> ip = sender \<and>
            (arp_resolve sender s \<noteq> None \<or> list_ex (\<lambda>e. \<not> ae_valid e) (arp_cache s))
         then Some (take 6 (drop 8 data)) else arp_resolve ip s))"
  using arp_handle_eq [OF assms, of dev]
  by (auto simp: arp_resolve_map arp_learn_map load_arp_def Let_def after_reply_def split: if_splits)

text \<open>Witness: a host whose address is unknown.\<close>

definition sample_net :: "unit net_state" where
  "sample_net = \<lparr>card = idle_nic, net_ip = 0x0A00020F, net_gateway = 0x0A000202, net_subnet = 0xFFFFFF00,
     net_mac = [0x52, 0x54, 0, 0x12, 0x34, 0x56],
     arp_cache = \<lparr>ae_ip = 0x0A000202, ae_mac = [0x52, 0x55, 10, 0, 2, 2], ae_valid = True\<rparr> #
       replicate 15 \<lparr>ae_ip = 0, ae_mac = replicate 6 0, ae_valid = False\<rparr>,
     reply_received = False\<rparr>"

definition sample_arp :: "u8 list" where
  "sample_arp = [0, 1, 8, 0, 6, 4, 0, 1, 2, 2, 2, 2, 2, 2, 10, 0, 2, 3, 0, 0, 0, 0, 0, 0, 10, 0, 2, 15]"

lemma sample_arp_fields:
  "buf16 sample_arp 6 = 0x0100" "buf32 sample_arp 14 = 0x0302000A" "buf32 sample_arp 24 = 0x0F02000A"
  "take 6 (drop 8 sample_arp) = [2, 2, 2, 2, 2, 2]" "length sample_arp = 28"
  "bswap16 0x0100 = 1" "bswap32 0x0302000A = 0x0A000203" "bswap32 0x0F02000A = 0x0A00020F"
  by (simp_all add: sample_arp_def buf16_def buf32_def bswap16_def bswap32_def)

theorem arp_handle_learns_witness:
  "\<exists>s'. arp_handle ready_card sample_arp sample_net = Some s' \<and> arp_resolve 0x0A000203 s' = Some [2, 2, 2, 2, 2, 2] \<and>
     arp_resolve 0x0A000202 s' = Some [0x52, 0x55, 10, 0, 2, 2]"
proof -
  have "list_ex (\<lambda>e. \<not> ae_valid e) (arp_cache sample_net)" "length (net_mac sample_net) = 6"
    "arp_resolve 0x0A000202 sample_net = Some [0x52, 0x55, 10, 0, 2, 2]"
    by (simp_all add: sample_net_def arp_resolve_def numeral_eq_Suc)
  then show ?thesis
    using arp_handle_learns [of sample_arp sample_net ready_card]
    by (auto simp: sample_arp_fields ARP_OP_REQUEST_def Let_def)
qed

lemma be_constants:
  "le16 (bswap16 ARP_HWTYPE_ETHER) = [0, 1]" "le16 (bswap16 ARP_PROTYPE_IPV4) = [8, 0]"
  "le16 (bswap16 ARP_OP_REPLY) = [0, 2]" "le16 (bswap16 ETHER_TYPE_ARP) = [8, 6]"
  "le16 (bswap16 ETHER_TYPE_IPV4) = [8, 0]"
  by (simp_all add: bswap16_def le16_def ARP_HWTYPE_ETHER_def ARP_PROTYPE_IPV4_def ARP_OP_REPLY_def
      ETHER_TYPE_ARP_def ETHER_TYPE_IPV4_def)

text \<open>A request for the kernel's own address is answered with one frame to the sender, with the kernel's
  hardware and protocol address as the reply's sender; but the reply's target protocol address is the requester's address in the
  wrong byte order.\<close>

theorem arp_request_answered:
  assumes "28 \<le> length data" "length (net_mac s) = 6"
    and "bswap16 (buf16 data 6) = ARP_OP_REQUEST" "bswap32 (buf32 data 24) = net_ip s" "arp_handle dev data s = Some s'"
  shows "card s' = snd (e1000_send dev (take 6 (drop 8 data) @ net_mac s @ [0x08, 0x06] @
       [0, 1, 8, 0, 6, 4, 0, 2] @ net_mac s @ take 4 (drop 24 data) @ take 6 (drop 8 data) @ rev (take 4 (drop 14 data)))
     (card s))"
proof -
  have ip: "le32 (bswap32 (net_ip s)) = take 4 (drop 24 data)"
    using le_buf32 [of 24 data] assms(1,4) by (metis bswap_swap(1) numeral_plus_numeral semiring_norm(2,6,8,9) add_num_simps)
  have sip: "le32 (bswap32 (buf32 data 14)) = rev (take 4 (drop 14 data))"
    using assms(1) by (simp add: le_bswap le_buf32)
  have b: "arp_bytes (arp_reply_to s (load_arp data)) = [0, 1, 8, 0, 6, 4, 0, 2] @ net_mac s @ take 4 (drop 24 data) @
      take 6 (drop 8 data) @ rev (take 4 (drop 14 data))"
    by (simp add: arp_bytes_def arp_reply_to_def load_arp_def ip sip be_constants)
  have "card s' = card (after_reply dev (load_arp data) s)"
    using arp_handle_eq [OF assms(1,2), of dev] assms(5) by (auto simp: Let_def)
  moreover have "bswap16 (arp_op (load_arp data)) = ARP_OP_REQUEST" "bswap32 (target_ip (load_arp data)) = net_ip s"
    "take 6 (sender_mac (load_arp data)) = take 6 (drop 8 data)"
    using assms(3,4) by (simp_all add: load_arp_def)
  ultimately show ?thesis unfolding after_reply_def b using assms(2) by (simp add: be_constants)
qed

theorem arp_request_answered_witness:
  "card (the (arp_handle ready_card sample_arp sample_net)) = snd (e1000_send ready_card
     ([2, 2, 2, 2, 2, 2, 0x52, 0x54, 0, 0x12, 0x34, 0x56, 0x08, 0x06, 0, 1, 8, 0, 6, 4, 0, 2,
       0x52, 0x54, 0, 0x12, 0x34, 0x56, 10, 0, 2, 15, 2, 2, 2, 2, 2, 2, 3, 2, 0, 10]) idle_nic)"
proof -
  have n: "net_mac sample_net = [0x52, 0x54, 0, 0x12, 0x34, 0x56]" "net_ip sample_net = 0x0A00020F"
    "card sample_net = idle_nic" by (simp_all add: sample_net_def)
  obtain s' where r: "arp_handle ready_card sample_arp sample_net = Some s'"
    using arp_handle_eq [of sample_arp sample_net ready_card] by (simp add: sample_arp_fields n Let_def)
  have t: "take 4 (drop 24 sample_arp) = [10, 0, 2, 15]" "take 4 (drop 14 sample_arp) = [10, 0, 2, 3]"
    by (simp_all add: sample_arp_def)
  show ?thesis
    using arp_request_answered [OF _ _ _ _ r] r by (simp add: sample_arp_fields ARP_OP_REQUEST_def n t)
qed

section \<open>Echo requests\<close>

lemma ip_bytes_fields:
  "buf16 (ip_bytes h) 2 = total_length h" "ip_bytes h ! 9 = protocol h"
  "buf32 (ip_bytes h) 12 = src_ip h" "buf32 (ip_bytes h) 16 = dst_ip h" "length (ip_bytes h) = 20"
proof -
  show "buf16 (ip_bytes h) 2 = total_length h" by (rule buf16_bytes) (simp_all add: ip_bytes_def le16_def le32_def)
  show "ip_bytes h ! 9 = protocol h" "length (ip_bytes h) = 20" by (simp_all add: ip_bytes_def le16_def le32_def)
  have b: "ip_bytes h ! (12 + k) = le32 (src_ip h) ! k" "ip_bytes h ! (16 + k) = le32 (dst_ip h) ! k" if "k < 4" for k
    using that by (auto simp: ip_bytes_def le16_def le32_def less_Suc_eq numeral_eq_Suc)
  show "buf32 (ip_bytes h) 12 = src_ip h" "buf32 (ip_bytes h) 16 = dst_ip h"
    by (rule buf32_bytes, erule b)+
qed

text \<open>What \<open>ip_send\<close> hands to the card when the destination's hardware address is known.\<close>

definition is_ip_header :: "u8 list \<Rightarrow> u32 \<Rightarrow> u32 \<Rightarrow> u8 \<Rightarrow> nat \<Rightarrow> bool" where
  "is_ip_header hdr src dst proto n \<longleftrightarrow> length hdr = 20 \<and> hdr ! 0 = 0x45 \<and> ip_checksum hdr = 0 \<and>
     unat (bswap16 (total_length (load_ip hdr))) = 20 + n \<and> protocol (load_ip hdr) = proto \<and>
     bswap32 (src_ip (load_ip hdr)) = src \<and> bswap32 (dst_ip (load_ip hdr)) = dst"

lemma ip_send_known:
  assumes "arp_resolve dst s = Some m" "length payload \<le> 1494"
  obtains hdr where "is_ip_header hdr (net_ip s) dst proto (length payload)"
    "ip_send dev dst proto payload s = Some (s\<lparr>card := snd (e1000_send dev
       (take 6 m @ take 6 (net_mac s) @ [8, 0] @ hdr @ payload) (card s))\<rparr>)"
proof -
  define h where "h = \<lparr>ihl = 5, version = 4, dscp = 0, ecn = 0, total_length = bswap16 (of_nat (20 + length payload)),
     identification = bswap16 0, flags_fragment = bswap16 IP_DF, ttl = 64, protocol = proto, ip_check = 0,
     src_ip = bswap32 (net_ip s), dst_ip = bswap32 dst\<rparr>"
  let ?c = "ip_checksum (ip_bytes h)"
  define a where "a = [0x45, 0] @ le16 (total_length h) @ le16 (identification h) @ le16 (flags_fragment h) @ [ttl h, protocol h]"
  define b where "b = le32 (src_ip h) @ le32 (dst_ip h)"
  have split: "ip_bytes (h\<lparr>ip_check := w\<rparr>) = a @ le16 w @ b" for w by (simp add: ip_bytes_def a_def b_def h_def)
  have h0: "ip_bytes h = a @ le16 0 @ b" using split [of 0] by (simp add: h_def)
  have "unat ?c = internet_checksum (ip_bytes h)" by (rule unat_ip_checksum) (simp add: ip_bytes_fields)
  then have "internet_checksum (ip_bytes (h\<lparr>ip_check := ?c\<rparr>)) = 0"
    unfolding split h0 by (intro checksum_in_place) (simp_all add: a_def b_def)
  then have "ip_checksum (ip_bytes (h\<lparr>ip_check := ?c\<rparr>)) = 0" by (intro checksum_zero) (simp_all add: ip_bytes_fields)
  moreover have "unat (of_nat (20 + length payload) :: u16) = 20 + length payload"
    using assms(2) by (intro unat_of_nat_small) simp
  moreover have "ip_bytes (h\<lparr>ip_check := ?c\<rparr>) ! 0 = 0x45" unfolding split by (simp add: a_def)
  ultimately have "is_ip_header (ip_bytes (h\<lparr>ip_check := ?c\<rparr>)) (net_ip s) dst proto (length payload)"
    unfolding is_ip_header_def by (simp add: load_ip_def ip_bytes_fields) (simp add: h_def)
  moreover have "ip_send dev dst proto payload s = Some (s\<lparr>card := snd (e1000_send dev
       (take 6 m @ take 6 (net_mac s) @ [8, 0] @ ip_bytes (h\<lparr>ip_check := ?c\<rparr>) @ payload) (card s))\<rparr>)"
    using assms by (simp add: ip_send_def Let_def net_send_frame_def ip_bytes_fields be_constants h_def)
  ultimately show thesis by (rule that)
qed

lemma icmp_message_shape:
  assumes "length payload \<le> 60000"
  obtains c where "icmp_message h payload = [icmp_type h, icmp_code h] @ le16 c @ le16 (icmp_ident h) @ le16 (icmp_seq h) @ payload"
    "icmp_checksum (icmp_message h payload) = 0"
proof -
  let ?a = "[icmp_type h, icmp_code h]" and ?b = "le16 (icmp_ident h) @ le16 (icmp_seq h) @ payload"
  define c where "c = icmp_checksum (?a @ le16 0 @ ?b)"
  have m: "icmp_message h payload = ?a @ le16 c @ ?b" by (simp add: icmp_message_def icmp_bytes_def c_def Let_def)
  have "unat c = internet_checksum (?a @ le16 0 @ ?b)" unfolding c_def by (rule unat_ip_checksum) (use assms in simp)
  then have "internet_checksum (?a @ le16 c @ ?b) = 0" using assms by (intro checksum_in_place) simp_all
  then have "icmp_checksum (?a @ le16 c @ ?b) = 0" using assms by (intro checksum_zero) simp_all
  then show thesis using that m by simp
qed

text \<open>An IPv4 frame for this host that carries an ICMP message of type 8 with \<open>n\<close> bytes of payload.\<close>

definition echo_frame :: "u8 list \<Rightarrow> nat \<Rightarrow> 'n net_state \<Rightarrow> bool" where
  "echo_frame data n s \<longleftrightarrow> 42 + n \<le> length data \<and> for_us data s \<and> bswap16 (buf16 data 12) = ETHER_TYPE_IPV4 \<and>
     (let ip = load_ip (drop 14 data) in version ip = 4 \<and> ihl ip = 5 \<and> bswap32 (dst_ip ip) = net_ip s \<and>
       protocol ip = IP_PROTO_ICMP \<and> unat (bswap16 (total_length ip)) = 28 + n) \<and> data ! 34 = ICMP_ECHO_REQUEST"

lemma echo_frame_handle:
  assumes e: "echo_frame data n s" and len: "14 \<le> unat len"
  shows "net_handle_packet dev data len s =
     icmp_handle dev (bswap32 (src_ip (load_ip (drop 14 data)))) (drop 34 data) (of_nat (8 + n)) s"
proof -
  let ?ip = "load_ip (drop 14 data)"
  have f: "42 + n \<le> length data" "for_us data s" "bswap16 (buf16 data 12) = ETHER_TYPE_IPV4" "version ?ip = 4" "ihl ?ip = 5"
    "bswap32 (dst_ip ?ip) = net_ip s" "protocol ?ip = IP_PROTO_ICMP" "unat (bswap16 (total_length ?ip)) = 28 + n"
    using e by (simp_all add: echo_frame_def Let_def)
  have "bswap16 (total_length ?ip) = of_nat (28 + n)" using f(8) by (metis of_nat_unat ucast_id)
  then have "bswap16 (total_length ?ip) - ucast (ihl ?ip) * 4 = of_nat (8 + n)" using f(5) by simp
  moreover have "drop_bit 4 (drop 14 data ! 0) = 4" using f(4) by (simp add: load_ip_def)
  moreover have "\<not> len < 14" using len by (simp add: word_less_nat_alt)
  moreover have "ETHER_TYPE_IPV4 \<noteq> ETHER_TYPE_ARP" by (simp add: ETHER_TYPE_IPV4_def ETHER_TYPE_ARP_def)
  moreover have "\<not> length data - 14 < 20" using f(1) by linarith
  ultimately show ?thesis
    using f by (simp add: net_handle_packet_def ip_handle_def Let_def)
qed

text \<open>C22. Ping.  An echo request for this host with at most 1016 bytes of payload, from an address
  whose hardware address is known, is answered with one frame to that hardware address: a valid IP header (checksum zero)
  from this host to the requester, then a valid ICMP echo reply (checksum zero) with the request's identifier,
  sequence number and payload.  The rest of the network state is unchanged.\<close>

theorem ping_answered:
  assumes "echo_frame data n s" "14 \<le> unat len" "n \<le> 1016"
    and "arp_resolve (bswap32 (src_ip (load_ip (drop 14 data)))) s = Some m"
  shows "\<exists>hdr c. is_ip_header hdr (net_ip s) (bswap32 (src_ip (load_ip (drop 14 data)))) IP_PROTO_ICMP (8 + n) \<and>
     icmp_checksum ([0, 0] @ le16 c @ take (4 + n) (drop 38 data)) = 0 \<and>
     net_handle_packet dev data len s = Some (s\<lparr>card := snd (e1000_send dev
       (take 6 m @ take 6 (net_mac s) @ [8, 0] @ hdr @ [0, 0] @ le16 c @ take (4 + n) (drop 38 data)) (card s))\<rparr>)"
proof -
  let ?d = "drop 34 data" and ?src = "bswap32 (src_ip (load_ip (drop 14 data)))"
  let ?h = "\<lparr>icmp_type = ICMP_ECHO_REPLY, icmp_code = 0, icmp_check = 0, icmp_ident = buf16 ?d 4, icmp_seq = buf16 ?d 6\<rparr>"
  let ?p = "take n (drop 8 ?d)"
  have l: "42 + n \<le> length data" "?d ! 0 = ICMP_ECHO_REQUEST" "?d \<noteq> []" using assms(1) by (auto simp: echo_frame_def)
  then have ld: "\<not> length data - 34 < 8 + n" by linarith
  have lp: "length ?p = n" using l by simp
  have n: "unat (of_nat (8 + n) - 8 :: u16) = n" using assms(3) by (simp add: unat_of_nat_small)
  have h: "net_handle_packet dev data len s = ip_send dev ?src IP_PROTO_ICMP (icmp_message ?h ?p) s"
    unfolding echo_frame_handle [OF assms(1,2)] icmp_handle_def Let_def n using l ld assms(3) by simp
  obtain c where c: "icmp_message ?h ?p = [0, 0] @ le16 c @ le16 (buf16 ?d 4) @ le16 (buf16 ?d 6) @ ?p"
    "icmp_checksum (icmp_message ?h ?p) = 0"
    using icmp_message_shape [of ?p ?h] lp assms(3) by (auto simp: ICMP_ECHO_REPLY_def)
  have "le16 (buf16 ?d 4) @ le16 (buf16 ?d 6) @ ?p = take 2 (drop 38 data) @ take 2 (drop 40 data) @ take n (drop 42 data)"
    using l(1) by (simp add: le_buf16)
  also have "\<dots> = take (4 + n) (drop 38 data)"
    using take_add [of 2 "2 + n" "drop 38 data"] take_add [of 2 n "drop 40 data"] by (simp add: eval_nat_numeral)
  finally have m: "icmp_message ?h ?p = [0, 0] @ le16 c @ take (4 + n) (drop 38 data)" using c(1) by simp
  have "length (icmp_message ?h ?p) = 8 + n" unfolding m using l by simp
  then obtain hdr where "is_ip_header hdr (net_ip s) ?src IP_PROTO_ICMP (8 + n)"
    "net_handle_packet dev data len s = Some (s\<lparr>card := snd (e1000_send dev
       (take 6 m @ take 6 (net_mac s) @ [8, 0] @ hdr @ icmp_message ?h ?p) (card s))\<rparr>)"
    using ip_send_known [OF assms(4), of "icmp_message ?h ?p" IP_PROTO_ICMP dev] assms(3) unfolding h by auto
  then show ?thesis using c(2) unfolding m by blast
qed

text \<open>A longer echo request makes \<open>icmp_handle\<close> copy past the end of its 1024-byte reply buffer: no frame
  of this kind with more than 1016 bytes of payload is handled, whoever sent it.\<close>

theorem ping_overflows_reply_buffer:
  assumes "echo_frame data n s" "14 \<le> unat len" "1016 < n" "n < 65508"
  shows "net_handle_packet dev data len s = None"
proof -
  let ?d = "drop 34 data"
  have l: "42 + n \<le> length data" "?d ! 0 = ICMP_ECHO_REQUEST" "?d \<noteq> []" using assms(1) by (auto simp: echo_frame_def)
  have n: "unat (of_nat (8 + n) - 8 :: u16) = n" using assms(4) by (simp add: unat_of_nat_small)
  show ?thesis
    unfolding echo_frame_handle [OF assms(1,2)] icmp_handle_def Let_def n using l assms(3) by simp
qed

text \<open>Witnesses: requests with no payload and with 1100 bytes of it, from the gateway.\<close>

definition sample_echo :: "nat \<Rightarrow> u8 list" where
  "sample_echo n = [0x52, 0x54, 0, 0x12, 0x34, 0x56, 0x52, 0x55, 10, 0, 2, 2, 8, 0] @
     [0x45, 0] @ rev (le16 (of_nat (28 + n))) @ [0, 0, 0x40, 0, 0x40, 1, 0, 0, 10, 0, 2, 2, 10, 0, 2, 15] @
     [8, 0, 0, 0, 0, 1, 0, 1] @ replicate n 0x61"

lemma sample_echo_frame:
  assumes "n < 60000"
  shows "echo_frame (sample_echo n) n sample_net" "bswap32 (src_ip (load_ip (drop 14 (sample_echo n)))) = 0x0A000202"
proof -
  let ?h = "rev (le16 (of_nat (28 + n)))"
  obtain a b where ab: "?h = [a, b]" by (simp add: le16_def)
  have "buf16 ?h 0 = bswap16 (of_nat (28 + n))"
    by (rule buf16_bytes) (simp_all add: le_bswap(2) [symmetric], simp_all add: le16_def)
  moreover have "unat (of_nat (28 + n) :: u16) = 28 + n" using assms by (intro unat_of_nat_small) simp
  ultimately have t: "unat (bswap16 (ucast a OR push_bit 8 (ucast b))) = 28 + n"
    unfolding ab by (simp add: buf16_def)
  show "bswap32 (src_ip (load_ip (drop 14 (sample_echo n)))) = 0x0A000202"
    unfolding sample_echo_def ab by (simp add: load_ip_def buf16_def buf32_def bswap32_def)
  show "echo_frame (sample_echo n) n sample_net"
    unfolding echo_frame_def sample_echo_def ab Let_def
    using t by (simp add: for_us_def sample_net_def load_ip_def buf16_def buf32_def bswap16_def bswap32_def
        ETHER_TYPE_IPV4_def ICMP_ECHO_REQUEST_def IP_PROTO_ICMP_def upt_rec)
qed

theorem ping_answered_witness:
  "\<exists>hdr c. ip_checksum hdr = 0 \<and> net_handle_packet ready_card (sample_echo 0) 60 sample_net =
     Some (sample_net\<lparr>card := snd (e1000_send ready_card ([0x52, 0x55, 10, 0, 2, 2, 0x52, 0x54, 0, 0x12, 0x34, 0x56, 8, 0] @
       hdr @ [0, 0] @ le16 c @ [0, 1, 0, 1]) (card sample_net))\<rparr>)"
proof -
  have a: "arp_resolve (bswap32 (src_ip (load_ip (drop 14 (sample_echo 0))))) sample_net = Some [0x52, 0x55, 10, 0, 2, 2]"
    unfolding sample_echo_frame(2) [of 0, simplified] by (simp add: arp_resolve_def sample_net_def)
  have "take 4 (drop 38 (sample_echo 0)) = [0, 1, 0, 1]" "net_mac sample_net = [0x52, 0x54, 0, 0x12, 0x34, 0x56]"
    by (simp_all add: sample_echo_def sample_net_def le16_def)
  with ping_answered [OF sample_echo_frame(1) [of 0] _ _ a, of 60 ready_card] show ?thesis
    by (auto simp: is_ip_header_def)
qed

theorem ping_overflows_reply_buffer_witness: "net_handle_packet ready_card (sample_echo 1100) 1142 sample_net = None"
  using ping_overflows_reply_buffer [OF sample_echo_frame(1) [of 1100], of 1142] by simp

end
