(* ===== verification/Framebuffer.thy ===== *)
theory Framebuffer
  imports Heap Block_Device
begin

unbundle bit_operations_syntax

text \<open>
  The screen: \<open>kernel/drivers/framebuffer.c\<close> and the drawing half of \<open>kernel/drivers/vga.c\<close>.

  Video memory is byte-addressed memory; a store of a pixel is a little-endian store of 32 bits.  The font
  (\<open>font8x16\<close>, a table of 16 bytes for each of the 256 characters) is a parameter of everything that draws text.
\<close>

section \<open>State\<close>

record fb_info =
  fi_addr :: u64
  fi_width :: u32
  fi_height :: u32
  fi_pitch :: u32
  fi_bpp :: u8

text \<open>The globals \<open>g_fb_*\<close> of the boot code, the static copy of \<open>framebuffer.c\<close>, and memory.\<close>

record screen =
  g_fb :: fb_info
  fb :: fb_info
  vmem :: ram

type_synonym font = "u8 \<Rightarrow> nat \<Rightarrow> u8"

definition fb_init :: "u64 \<Rightarrow> u32 \<Rightarrow> u32 \<Rightarrow> u32 \<Rightarrow> u8 \<Rightarrow> screen \<Rightarrow> screen" where
  "fb_init addr width height pitch bpp s =
     s\<lparr>fb := \<lparr>fi_addr = addr, fi_width = width, fi_height = height, fi_pitch = pitch, fi_bpp = bpp\<rparr>\<rparr>"

section \<open>Pixels\<close>

definition store32 :: "u64 \<Rightarrow> u32 \<Rightarrow> ram \<Rightarrow> ram" where
  "store32 a v m = m(a := ucast v, a + 1 := ucast (drop_bit 8 v), a + 2 := ucast (drop_bit 16 v),
     a + 3 := ucast (drop_bit 24 v))"

definition pixel_addr :: "fb_info \<Rightarrow> u32 \<Rightarrow> u32 \<Rightarrow> u64" where
  "pixel_addr i x y = fi_addr i + ucast y * ucast (fi_pitch i) + 4 * ucast x"

definition put_pixel :: "fb_info \<Rightarrow> u32 \<Rightarrow> u32 \<Rightarrow> u32 \<Rightarrow> ram \<Rightarrow> ram" where
  "put_pixel i x y color m =
     (if fi_width i \<le> x \<or> fi_height i \<le> y then m else store32 (pixel_addr i x y) color m)"

definition fb_draw_pixel :: "u32 \<Rightarrow> u32 \<Rightarrow> u32 \<Rightarrow> screen \<Rightarrow> screen" where
  "fb_draw_pixel x y color s = s\<lparr>vmem := put_pixel (fb s) x y color (vmem s)\<rparr>"

section \<open>Characters\<close>

definition draw_glyph :: "fb_info \<Rightarrow> (nat \<Rightarrow> u8) \<Rightarrow> u32 \<Rightarrow> u32 \<Rightarrow> u32 \<Rightarrow> u32 \<Rightarrow> ram \<Rightarrow> ram" where
  "draw_glyph i glyph x y fg bg m =
     fold (\<lambda>row m. fold (\<lambda>col m.
         put_pixel i (x + of_nat col) (y + of_nat row)
           (if glyph row AND drop_bit col 0x80 \<noteq> 0 then fg else bg) m) [0..<8] m) [0..<16] m"

definition fb_draw_char :: "font \<Rightarrow> u32 \<Rightarrow> u32 \<Rightarrow> u8 \<Rightarrow> u32 \<Rightarrow> u32 \<Rightarrow> screen \<Rightarrow> screen" where
  "fb_draw_char font x y c fg bg s = s\<lparr>vmem := draw_glyph (fb s) (font c) x y fg bg (vmem s)\<rparr>"

definition fb_putchar_raw :: "font \<Rightarrow> u8 \<Rightarrow> u32 \<Rightarrow> u32 \<Rightarrow> u32 \<Rightarrow> u32 \<Rightarrow> screen \<Rightarrow> screen" where
  "fb_putchar_raw font c x y fg bg s = s\<lparr>vmem := draw_glyph (g_fb s) (font c) x y fg bg (vmem s)\<rparr>"

definition fb_scroll :: "screen \<Rightarrow> screen" where
  "fb_scroll s =
     (let bytes_per_row = ucast (fi_pitch (fb s));
          scroll_bytes = 16 * bytes_per_row;
          total_bytes = ucast (fi_height (fb s)) * bytes_per_row;
          base = fi_addr (fb s);
          m = memmove base (base + scroll_bytes) (total_bytes - scroll_bytes) (vmem s);
          clear_start = total_bytes - scroll_bytes
      in s\<lparr>vmem := memset (base + clear_start) 0 scroll_bytes m\<rparr>)"

fun fill_pixels :: "nat \<Rightarrow> u64 \<Rightarrow> u32 \<Rightarrow> ram \<Rightarrow> ram" where
  "fill_pixels 0 a color m = m"
| "fill_pixels (Suc n) a color m = fill_pixels n (a + 4) color (store32 a color m)"

definition fb_clear :: "u32 \<Rightarrow> screen \<Rightarrow> screen" where
  "fb_clear color s =
     (let total_pixels = unat (ucast (fi_height (fb s)) * ucast (fi_pitch (fb s) div 4) :: u64)
      in s\<lparr>vmem := fill_pixels total_pixels (fi_addr (fb s)) color (vmem s)\<rparr>)"

section \<open>Text colours\<close>

definition vga_to_rgb :: "u32 list" where
  "vga_to_rgb = [0x00000000, 0x000000AA, 0x0000AA00, 0x0000AAAA, 0x00AA0000, 0x00AA00AA, 0x00AA5500, 0x00AAAAAA,
     0x00555555, 0x005555FF, 0x0055FF55, 0x0055FFFF, 0x00FF5555, 0x00FF55FF, 0x00FFFF55, 0x00FFFFFF]"

definition vga_fg_to_rgb :: "u8 \<Rightarrow> u32" where
  "vga_fg_to_rgb color = vga_to_rgb ! unat (color AND 0xF)"

definition vga_bg_to_rgb :: "u8 \<Rightarrow> u32" where
  "vga_bg_to_rgb color = vga_to_rgb ! unat (drop_bit 4 color AND 0xF)"

definition vga_entry_color :: "u8 \<Rightarrow> u8 \<Rightarrow> u8" where
  "vga_entry_color fg bg = fg OR push_bit 4 bg"

definition vga_entry :: "u8 \<Rightarrow> u8 \<Rightarrow> u16" where
  "vga_entry c color = ucast c OR push_bit 8 (ucast color)"

definition putentryat :: "font \<Rightarrow> u8 \<Rightarrow> u8 \<Rightarrow> u64 \<Rightarrow> u64 \<Rightarrow> screen \<Rightarrow> screen" where
  "putentryat font c color x y s =
     fb_putchar_raw font c (ucast (x * 8)) (ucast (y * 16)) (vga_fg_to_rgb color) (vga_bg_to_rgb color) s"

definition vga_clear :: "u8 \<Rightarrow> screen \<Rightarrow> screen" where
  "vga_clear color s = fb_clear (vga_bg_to_rgb color) s"

section \<open>Pixels do not overlap\<close>

text \<open>A frame buffer whose rows fit their pitch and which does not wrap around the address space.\<close>

definition fb_fits :: "fb_info \<Rightarrow> bool" where
  "fb_fits i \<longleftrightarrow> 4 * unat (fi_width i) \<le> unat (fi_pitch i) \<and>
     unat (fi_addr i) + unat (fi_height i) * unat (fi_pitch i) < 2 ^ 64"

lemma unat_pixel_addr:
  assumes "fb_fits i" "x < fi_width i" "y < fi_height i"
  shows "unat (pixel_addr i x y) = unat (fi_addr i) + unat y * unat (fi_pitch i) + 4 * unat x"
    and "unat y * unat (fi_pitch i) + 4 * unat x + 4 \<le> unat (fi_height i) * unat (fi_pitch i)"
proof -
  let ?p = "unat (fi_pitch i)"
  have x: "unat x + 1 \<le> unat (fi_width i)" and y: "unat y + 1 \<le> unat (fi_height i)"
    using assms(2,3) by (simp_all add: word_less_nat_alt)
  have "(unat y + 1) * ?p \<le> unat (fi_height i) * ?p" using y by (rule mult_le_mono1)
  then show b: "unat y * ?p + 4 * unat x + 4 \<le> unat (fi_height i) * ?p"
    using x assms(1) by (simp add: fb_fits_def)
  have u: "unat (ucast y :: u64) = unat y" "unat (ucast x :: u64) = unat x" "unat (ucast (fi_pitch i) :: u64) = ?p"
    using unat_u32_less [of x] unat_u32_less [of y] unat_u32_less [of "fi_pitch i"]
    by (simp_all add: unsigned_ucast_eq take_bit_eq_mod)
  have t: "unat (fi_addr i) + (unat y * ?p + 4 * unat x) < 2 ^ 64" using b assms(1) by (simp add: fb_fits_def)
  have "pixel_addr i x y = of_nat (unat (fi_addr i) + unat y * ?p + 4 * unat x)"
    unfolding pixel_addr_def by (simp add: u)
  moreover have "unat (of_nat (unat (fi_addr i) + unat y * ?p + 4 * unat x) :: u64) =
      unat (fi_addr i) + unat y * ?p + 4 * unat x"
    using t by (intro unat_of_nat_small) simp
  ultimately show "unat (pixel_addr i x y) = unat (fi_addr i) + unat y * ?p + 4 * unat x" by (simp only:)
qed

lemma store32_byte:
  assumes "unat a + 4 \<le> 2 ^ 64"
  shows "store32 a v m c = (if unat a \<le> unat c \<and> unat c < unat a + 4 then le32 v ! (unat c - unat a) else m c)"
proof -
  have u: "unat (a + 1) = unat a + 1" "unat (a + 2) = unat a + 2" "unat (a + 3) = unat a + 3"
    using assms by (subst unat_add_small; simp)+
  have "c = a + of_nat k \<longleftrightarrow> unat c = unat a + k" if "k < 4" for k
    using assms that by (subst word_unat_eq_iff, subst unat_add_small) (simp_all add: unat_of_nat_small)
  from this [of 1] this [of 2] this [of 3]
  have e: "c = a + 1 \<longleftrightarrow> unat c = unat a + 1" "c = a + 2 \<longleftrightarrow> unat c = unat a + 2" "c = a + 3 \<longleftrightarrow> unat c = unat a + 3"
    "c = a \<longleftrightarrow> unat c = unat a" by (simp_all add: word_unat_eq_iff)
  show ?thesis
  proof (cases "unat a \<le> unat c \<and> unat c < unat a + 4")
    case True
    then consider "unat c = unat a" | "unat c = unat a + 1" | "unat c = unat a + 2" | "unat c = unat a + 3" by linarith
    then show ?thesis by cases (simp_all add: store32_def le32_def e)
  next
    case False
    then show ?thesis by (auto simp: store32_def e)
  qed
qed

lemma load32_store32:
  assumes "unat a + 4 \<le> 2 ^ 64" "unat b + 4 \<le> 2 ^ 64" "a = b \<or> unat a + 4 \<le> unat b \<or> unat b + 4 \<le> unat a"
  shows "load32 (store32 a v m) b = (if b = a then v else load32 m b)"
proof -
  have u: "unat (b + of_nat k) = unat b + k" if "k < 4" for k
    using assms(2) that by (subst unat_add_small) (simp_all add: unat_of_nat_small)
  have n: "store32 a v m (b + of_nat k) = (if b = a then le32 v ! k else m (b + of_nat k))" if "k < 4" for k
    using assms(3) that by (auto simp: store32_byte [OF assms(1)] u [OF that])
  have l: "load32 m' b = buf32 (map (\<lambda>k. m' (b + of_nat k)) [0..<4]) 0" for m' :: ram
    by (simp add: load32_def load16_def buf32_def buf16_def upt_rec add.assoc)
  have "load32 (store32 a v m) b = buf32 (map (\<lambda>k. if b = a then le32 v ! k else m (b + of_nat k)) [0..<4]) 0"
    unfolding l by (rule arg_cong [of _ _ "\<lambda>xs. buf32 xs 0"]) (simp add: n del: upt_Suc)
  also have "\<dots> = (if b = a then v else load32 m b)"
  proof (cases "b = a")
    case True
    then show ?thesis by (simp only: if_True refl) (intro buf32_bytes, simp)
  next
    case False
    then show ?thesis by (simp add: l)
  qed
  finally show ?thesis .
qed

section \<open>Drawing\<close>

definition pix :: "fb_info \<Rightarrow> ram \<Rightarrow> u32 \<Rightarrow> u32 \<Rightarrow> u32" where
  "pix i m x y = load32 m (pixel_addr i x y)"

text \<open>The bytes of the visible rows.\<close>

definition in_fb :: "fb_info \<Rightarrow> u64 \<Rightarrow> bool" where
  "in_fb i a \<longleftrightarrow> unat (fi_addr i) \<le> unat a \<and> unat a < unat (fi_addr i) + unat (fi_height i) * unat (fi_pitch i)"

lemma pixel_order:
  fixes x y p :: nat
  assumes "4 * x + 4 \<le> p" "4 * x' + 4 \<le> p" "(x, y) \<noteq> (x', y')"
  shows "y * p + 4 * x + 4 \<le> y' * p + 4 * x' \<or> y' * p + 4 * x' + 4 \<le> y * p + 4 * x"
proof -
  consider "y = y'" | "y + 1 \<le> y'" | "y' + 1 \<le> y" by linarith
  then show ?thesis
  proof cases
    case 2
    then show ?thesis using mult_le_mono1 [OF 2, of p] assms by simp
  next
    case 3
    then show ?thesis using mult_le_mono1 [OF 3, of p] assms by simp
  qed (use assms in auto)
qed

lemma pix_put_pixel:
  assumes f: "fb_fits i" and q: "qx < fi_width i" "qy < fi_height i"
  shows "pix i (put_pixel i px py c m) qx qy = (if qx = px \<and> qy = py then c else pix i m qx qy)"
proof (cases "px < fi_width i \<and> py < fi_height i")
  case True
  note a = unat_pixel_addr [OF f q] and b = unat_pixel_addr [OF f conjunct1 [OF True] conjunct2 [OF True]]
  have t: "unat (pixel_addr i qx qy) + 4 \<le> 2 ^ 64" "unat (pixel_addr i px py) + 4 \<le> 2 ^ 64"
    using a b f by (simp_all add: fb_fits_def)
  have w: "4 * unat qx + 4 \<le> unat (fi_pitch i)" "4 * unat px + 4 \<le> unat (fi_pitch i)"
    using f q True by (simp_all add: fb_fits_def word_less_nat_alt)
  have ne: "unat (pixel_addr i px py) + 4 \<le> unat (pixel_addr i qx qy) \<or>
      unat (pixel_addr i qx qy) + 4 \<le> unat (pixel_addr i px py)" if "\<not> (qx = px \<and> qy = py)"
  proof -
    have "(unat px, unat py) \<noteq> (unat qx, unat qy)" using that by (auto simp: word_unat_eq_iff)
    from pixel_order [OF w(2,1) this] show ?thesis using a(1) b(1) by linarith
  qed
  have d: "pixel_addr i px py = pixel_addr i qx qy \<longleftrightarrow> qx = px \<and> qy = py"
    "pixel_addr i px py = pixel_addr i qx qy \<or> unat (pixel_addr i px py) + 4 \<le> unat (pixel_addr i qx qy) \<or>
     unat (pixel_addr i qx qy) + 4 \<le> unat (pixel_addr i px py)"
    using ne by (cases "qx = px \<and> qy = py"; auto)+
  show ?thesis
    using True load32_store32 [OF t(2,1) d(2), of c m] d(1)
    by (auto simp: put_pixel_def pix_def not_le [symmetric] simp del: not_le)
qed (use q in \<open>auto simp: put_pixel_def not_less\<close>)

lemma put_pixel_outside:
  assumes f: "fb_fits i" and a: "\<not> in_fb i a"
  shows "put_pixel i x y c m a = m a"
proof (cases "x < fi_width i \<and> y < fi_height i")
  case True
  note p = unat_pixel_addr [OF f conjunct1 [OF True] conjunct2 [OF True]]
  have "unat (pixel_addr i x y) + 4 \<le> 2 ^ 64" using p f by (simp add: fb_fits_def)
  then show ?thesis using p a by (auto simp: put_pixel_def store32_byte in_fb_def)
qed (auto simp: put_pixel_def not_less)

lemma draw_row:
  assumes f: "fb_fits i" and q: "qx < fi_width i" "qy < fi_height i" and x: "unat x + n \<le> 2 ^ 32"
  shows "pix i (fold (\<lambda>col m. put_pixel i (x + of_nat col) y (g col) m) [0..<n] m) qx qy =
     (if qy = y \<and> unat x \<le> unat qx \<and> unat qx < unat x + n then g (unat qx - unat x) else pix i m qx qy)"
  using x
proof (induction n)
  case (Suc n)
  have "unat (x + of_nat n) = unat x + n"
    using Suc.prems by (subst unat_add_small) (simp_all add: unat_of_nat_small)
  then have "qx = x + of_nat n \<longleftrightarrow> unat qx = unat x + n" by (simp add: word_unat_eq_iff)
  then show ?case using Suc by (auto simp: pix_put_pixel [OF f q])
qed auto

lemma draw_rows:
  assumes f: "fb_fits i" and q: "qx < fi_width i" "qy < fi_height i"
    and x: "unat x + 8 \<le> 2 ^ 32" "unat y + n \<le> 2 ^ 32"
  shows "pix i (fold (\<lambda>row m. fold (\<lambda>col m. put_pixel i (x + of_nat col) (y + of_nat row) (g row col) m) [0..<8] m)
       [0..<n] m) qx qy =
     (if unat x \<le> unat qx \<and> unat qx < unat x + 8 \<and> unat y \<le> unat qy \<and> unat qy < unat y + n
      then g (unat qy - unat y) (unat qx - unat x) else pix i m qx qy)"
  using x(2)
proof (induction n)
  case (Suc n)
  have "unat (y + of_nat n) = unat y + n"
    using Suc.prems by (subst unat_add_small) (simp_all add: unat_of_nat_small)
  then have "qy = y + of_nat n \<longleftrightarrow> unat qy = unat y + n" by (simp add: word_unat_eq_iff)
  then show ?case using Suc by (auto simp: draw_row [OF f q x(1)] simp del: upt_rec_numeral)
qed auto

lemma draw_outside:
  assumes "fb_fits i" "\<not> in_fb i a"
  shows "draw_glyph i glyph x y fg bg m a = m a"
proof -
  have row: "fold (\<lambda>col m. put_pixel i (x + of_nat col) (y + of_nat r) (g col) m) cs m a = m a" for r g cs m
    by (induction cs arbitrary: m) (simp_all add: put_pixel_outside [OF assms])
  have "fold (\<lambda>row m. fold (\<lambda>col m. put_pixel i (x + of_nat col) (y + of_nat row) (g row col) m) [0..<8] m) rs m a = m a"
    for g rs
    by (induction rs arbitrary: m) (simp_all only: fold_simps row)
  then show ?thesis unfolding draw_glyph_def .
qed

section \<open>Properties\<close>


text \<open>Witness: the upper left corner of a screen of 1024 by 768 pixels.\<close>

definition sample_screen :: screen where
  "sample_screen = fb_init 0xFD000000 1024 768 4096 32
     \<lparr>g_fb = \<lparr>fi_addr = 0xFD000000, fi_width = 1024, fi_height = 768, fi_pitch = 4096, fi_bpp = 32\<rparr>,
      fb = \<lparr>fi_addr = 0, fi_width = 0, fi_height = 0, fi_pitch = 0, fi_bpp = 0\<rparr>, vmem = (\<lambda>_. 0)\<rparr>"

lemma sample_screen_fits: "fb_fits (fb sample_screen)" "fi_width (fb sample_screen) = 1024" "fi_height (fb sample_screen) = 768"
  by (simp_all add: fb_fits_def sample_screen_def fb_init_def)


end
