(* ===== verification/Keyboard.thy ===== *)
theory Keyboard
  imports Gecko_Prelude "HOL-Library.Monad_Syntax"
begin

unbundle bit_operations_syntax

text \<open>
  The PS/2 keyboard, \<open>kernel/drivers/ps2keyboard.c\<close>.

  The bytes that the controller will deliver are a list in the state; the interrupt handler and the direct
  read of the data port take the next one.  \<open>None\<close> stands for a wait that does not end, because no byte comes, and for
  an index outside a layout table.  The byte that follows the prefix \<open>0xE0\<close> is the one \<open>ps2_kb_wfi\<close> reads itself; that the
  interrupt for it may come first is not modelled.
\<close>

text \<open>A loop that runs until its body breaks out of it.\<close>

partial_function (option) run_loop :: "('s \<Rightarrow> (bool \<times> 's) option) \<Rightarrow> 's \<Rightarrow> 's option" where
  "run_loop body s = do { (stop, s') \<leftarrow> body s; if stop then Some s' else run_loop body s' }"

type_synonym scancode = u8

definition LEFT_SHIFT_SC :: scancode where "LEFT_SHIFT_SC = 0x2A"
definition RIGHT_SHIFT_SC :: scancode where "RIGHT_SHIFT_SC = 0x36"
definition CAPS_LOCK_SC :: scancode where "CAPS_LOCK_SC = 0x3A"
definition KEY_UP :: scancode where "KEY_UP = 0x60"
definition KEY_DOWN :: scancode where "KEY_DOWN = 0x61"
definition KEY_LEFT :: scancode where "KEY_LEFT = 0x62"
definition KEY_RIGHT :: scancode where "KEY_RIGHT = 0x63"

record KeyState =
  ShiftL :: bool
  ShiftR :: bool
  AltL :: bool
  AltR :: bool
  CtrlL :: bool
  CtrlR :: bool
  CapsLock :: bool

record KeyboardLayout =
  lower :: "u8 list"
  upper_case :: "u8 list"

record keyboard =
  ScASCII :: "u8 list"
  ScASCII_UPPER :: "u8 list"
  kb_ready :: bool
  last_scancode :: scancode
  KEYSTATE :: KeyState
  kb_bytes :: "u8 list"

definition scancode_to_ascii :: "scancode \<Rightarrow> keyboard \<Rightarrow> u8 option" where
  "scancode_to_ascii sc k =
     (let shift = ShiftL (KEYSTATE k) \<or> ShiftR (KEYSTATE k);
          table = (if CapsLock (KEYSTATE k) \<noteq> shift then ScASCII_UPPER k else ScASCII k)
      in if unat sc < length table then Some (table ! unat sc) else None)"

definition process_keypress :: "scancode \<Rightarrow> keyboard \<Rightarrow> keyboard" where
  "process_keypress sc k =
     (let released = sc AND 0x80 \<noteq> 0;
          sc = sc AND 0x7F;
          ks = KEYSTATE k
      in if sc = LEFT_SHIFT_SC then k\<lparr>KEYSTATE := ks\<lparr>ShiftL := \<not> released\<rparr>\<rparr>
         else if sc = RIGHT_SHIFT_SC then k\<lparr>KEYSTATE := ks\<lparr>ShiftR := \<not> released\<rparr>\<rparr>
         else if sc = CAPS_LOCK_SC \<and> \<not> released then k\<lparr>KEYSTATE := ks\<lparr>CapsLock := \<not> CapsLock ks\<rparr>\<rparr>
         else k)"

text \<open>A read of the data port.\<close>

definition inb_data :: "keyboard \<Rightarrow> (u8 \<times> keyboard) option" where
  "inb_data k = (case kb_bytes k of [] \<Rightarrow> None | b # bs \<Rightarrow> Some (b, k\<lparr>kb_bytes := bs\<rparr>))"

definition keyboard_handler :: "keyboard \<Rightarrow> keyboard option" where
  "keyboard_handler k = do { (b, k) \<leftarrow> inb_data k; Some (k\<lparr>last_scancode := b, kb_ready := True\<rparr>) }"

definition ps2_kb_wfi :: "keyboard \<Rightarrow> (scancode \<times> keyboard) option" where
  "ps2_kb_wfi k = do {
     k \<leftarrow> (if kb_ready k then Some k else keyboard_handler k);
     let k = k\<lparr>kb_ready := False\<rparr>;
     let sc = last_scancode k;
     if sc = 0xE0 then do {
       (ext, k) \<leftarrow> inb_data k;
       Some (if ext AND 0x80 \<noteq> 0 then 0
             else if ext = 0x48 then KEY_UP
             else if ext = 0x50 then KEY_DOWN
             else if ext = 0x4B then KEY_LEFT
             else if ext = 0x4D then KEY_RIGHT
             else 0, k)
     }
     else Some (sc, process_keypress sc k)
   }"

definition ps2_kb_init :: "keyboard \<Rightarrow> keyboard" where
  "ps2_kb_init k = k\<lparr>KEYSTATE := \<lparr>ShiftL = False, ShiftR = False, AltL = False, AltR = False, CtrlL = False,
     CtrlR = False, CapsLock = False\<rparr>\<rparr>"

definition set_layout :: "KeyboardLayout \<Rightarrow> keyboard \<Rightarrow> keyboard" where
  "set_layout layout k = k\<lparr>ScASCII := map (\<lambda>j. lower layout ! j) [0..<128],
     ScASCII_UPPER := map (\<lambda>j. upper_case layout ! j) [0..<128]\<rparr>"

text \<open>What remains to be delivered strictly decreases.\<close>

definition kb_left :: "keyboard \<Rightarrow> nat" where
  "kb_left k = 2 * length (kb_bytes k) + (if kb_ready k then 1 else 0)"

lemma process_keypress_simps [simp]:
  "kb_bytes (process_keypress sc k) = kb_bytes k" "kb_ready (process_keypress sc k) = kb_ready k"
  "ScASCII (process_keypress sc k) = ScASCII k" "ScASCII_UPPER (process_keypress sc k) = ScASCII_UPPER k"
  by (simp_all add: process_keypress_def Let_def)

lemma ps2_kb_wfi_decreases: "ps2_kb_wfi k = Some (sc, k') \<Longrightarrow> kb_left k' < kb_left k"
  by (auto simp: ps2_kb_wfi_def keyboard_handler_def inb_data_def kb_left_def Let_def
      split: if_splits list.splits Option.bind_splits)

end
