(* ===== verification/Terminal.thy ===== *)
theory Terminal
  imports Framebuffer Keyboard
begin

unbundle bit_operations_syntax

text \<open>
  The terminal, \<open>kernel/terminal/terminal.c\<close>: the scroll-back buffer, the cursor, the viewport, line input with a
  command history, and the mouse cursor.

  The scroll-back buffer is a list of 1000 rows of 128 cells.  \<open>None\<close> stands for an access outside of it or
  outside another array, and in \<open>input\<close> for a wait for a key that does not come.  \<open>int\<close> variables are integers; none of
  them comes near its bounds, because every change is by one and \<open>total_lines\<close> is capped.
\<close>

section \<open>State\<close>

definition VGA_TEXT_WIDTH :: nat where "VGA_TEXT_WIDTH = 128"
definition SCROLLBACK_LINES :: nat where "SCROLLBACK_LINES = 1000"
definition HISTORY_SIZE :: nat where "HISTORY_SIZE = 10"
definition FONT_WIDTH :: u32 where "FONT_WIDTH = 8"
definition FONT_HEIGHT :: u32 where "FONT_HEIGHT = 16"

record cursor =
  cur_x :: int
  cur_y :: int
  is_drawn :: bool

record terminal =
  scr :: screen
  cursor_x :: u32
  fb_cols :: u32
  fb_rows :: u32
  console_history :: "u16 list list"
  total_lines :: int
  viewport_top :: int
  terminal_column :: u16
  terminal_row :: u16
  follow_output :: bool
  history_entries :: "u8 list list"
  history_count :: nat
  history_head :: nat
  mouse_cursor :: cursor
  console_history_tail :: nat

definition fb_update_dims :: "terminal \<Rightarrow> terminal" where
  "fb_update_dims t = t\<lparr>fb_cols := fi_width (g_fb (scr t)) div FONT_WIDTH, fb_rows := fi_height (g_fb (scr t)) div FONT_HEIGHT\<rparr>"

text \<open>The cells of the scroll-back buffer.\<close>

definition get_cell :: "int \<Rightarrow> nat \<Rightarrow> terminal \<Rightarrow> u16 option" where
  "get_cell row col t =
     (if 0 \<le> row \<and> nat row < SCROLLBACK_LINES \<and> col < VGA_TEXT_WIDTH then Some (console_history t ! nat row ! col) else None)"

definition set_cell :: "int \<Rightarrow> nat \<Rightarrow> u16 \<Rightarrow> terminal \<Rightarrow> terminal option" where
  "set_cell row col e t =
     (if 0 \<le> row \<and> nat row < SCROLLBACK_LINES \<and> col < VGA_TEXT_WIDTH
      then Some (t\<lparr>console_history := (console_history t)[nat row := (console_history t ! nat row)[col := e]]\<rparr>) else None)"

section \<open>Drawing\<close>

definition draw_entry :: "font \<Rightarrow> u32 \<Rightarrow> u32 \<Rightarrow> u16 \<Rightarrow> terminal \<Rightarrow> terminal" where
  "draw_entry font x y e t =
     (let c = ucast (e AND 0xFF); color = ucast (drop_bit 8 e)
      in t\<lparr>scr := fb_draw_char font x y c (vga_fg_to_rgb color) (vga_bg_to_rgb color) (scr t)\<rparr>)"

fun render_row :: "font \<Rightarrow> nat \<Rightarrow> nat list \<Rightarrow> terminal \<Rightarrow> terminal option" where
  "render_row font y [] t = Some t"
| "render_row font y (x # xs) t = do {
     e \<leftarrow> get_cell (viewport_top t + int y) x t;
     render_row font y xs (draw_entry font (of_nat x * FONT_WIDTH) (of_nat y * FONT_HEIGHT) e t)
   }"

fun render_rows :: "font \<Rightarrow> nat list \<Rightarrow> terminal \<Rightarrow> terminal option" where
  "render_rows font [] t = Some t"
| "render_rows font (y # ys) t =
     (if nat (viewport_top t + int y) < SCROLLBACK_LINES
      then do { t \<leftarrow> render_row font y [0..<unat (fb_cols t)] t; render_rows font ys t } else Some t)"

definition render_viewport :: "font \<Rightarrow> terminal \<Rightarrow> terminal option" where
  "render_viewport font t = render_rows font [0..<unat (fb_rows t)] t"

section \<open>Output\<close>

definition next_line :: "terminal \<Rightarrow> terminal" where
  "next_line t = t\<lparr>cursor_x := 0,
     total_lines := (if int SCROLLBACK_LINES \<le> total_lines t + 1 then int SCROLLBACK_LINES - 1 else total_lines t + 1)\<rparr>"

fun blank_cells :: "nat list \<Rightarrow> u8 \<Rightarrow> terminal \<Rightarrow> terminal option" where
  "blank_cells [] color t = Some t"
| "blank_cells (k # ks) color t = do { t \<leftarrow> set_cell (total_lines t) k (vga_entry 32 color) t; blank_cells ks color t }"

text \<open>What a character other than NUL and tab does to the buffer and the cursor, before the wrap.\<close>

definition put_history :: "u8 \<Rightarrow> u8 \<Rightarrow> terminal \<Rightarrow> terminal option" where
  "put_history c color t =
     (if c = 10 then do {
        t \<leftarrow> blank_cells [unat (cursor_x t)..<min (unat (fb_cols t)) VGA_TEXT_WIDTH] color t;
        Some (next_line t)
      }
      else if c = 8 then
        let t = (if 0 < cursor_x t then t\<lparr>cursor_x := cursor_x t - 1\<rparr>
                 else if 0 < total_lines t
                 then t\<lparr>total_lines := total_lines t - 1,
                        cursor_x := (if unat (fb_cols t) < VGA_TEXT_WIDTH then fb_cols t else of_nat VGA_TEXT_WIDTH) - 1\<rparr>
                 else t)
        in set_cell (total_lines t) (unat (cursor_x t)) (vga_entry 32 color) t
      else do {
        t \<leftarrow> (if unat (cursor_x t) < VGA_TEXT_WIDTH
             then set_cell (total_lines t) (unat (cursor_x t)) (vga_entry c color) t else Some t);
        Some (t\<lparr>cursor_x := cursor_x t + 1\<rparr>)
      })"

definition wrap_line :: "terminal \<Rightarrow> terminal" where
  "wrap_line t = (if fb_cols t \<le> cursor_x t then next_line t else t)"

definition update_position :: "terminal \<Rightarrow> terminal" where
  "update_position t = t\<lparr>terminal_row := of_int (total_lines t - viewport_top t), terminal_column := ucast (cursor_x t)\<rparr>"

text \<open>The part of the screen that changes: everything when the viewport moves, one character otherwise.\<close>

definition show_output :: "font \<Rightarrow> u8 \<Rightarrow> u8 \<Rightarrow> terminal \<Rightarrow> terminal option" where
  "show_output font c color t =
     (let new_top = max 0 (total_lines t - int (unat (fb_rows t)) + 1)
      in if follow_output t \<and> new_top \<noteq> viewport_top t
         then do { t \<leftarrow> render_viewport font (t\<lparr>viewport_top := new_top\<rparr>); Some (update_position t) }
         else
           let screen_row = total_lines t - viewport_top t;
               fg = vga_fg_to_rgb color; bg = vga_bg_to_rgb color;
               y = of_int screen_row * FONT_HEIGHT;
               draw_col = (if 0 < cursor_x t then cursor_x t - 1 else 0);
               t = (if 0 \<le> screen_row \<and> screen_row < int (unat (fb_rows t))
                    then if c = 8 then t\<lparr>scr := fb_draw_char font (cursor_x t * FONT_WIDTH) y 32 fg bg (scr t)\<rparr>
                         else if c \<noteq> 10 then t\<lparr>scr := fb_draw_char font (draw_col * FONT_WIDTH) y c fg bg (scr t)\<rparr>
                         else t
                    else t)
           in Some (update_position t))"

definition putchar1 :: "font \<Rightarrow> u8 \<Rightarrow> u8 \<Rightarrow> terminal \<Rightarrow> terminal option" where
  "putchar1 font c color t = do {
     let t = (if fb_cols t = 0 then fb_update_dims t else t);
     if c = 0 then Some t
     else do {
       t \<leftarrow> put_history c color t;
       show_output font c color (wrap_line t)
     }
   }"

definition putchar :: "font \<Rightarrow> u8 \<Rightarrow> u8 \<Rightarrow> terminal \<Rightarrow> terminal option" where
  "putchar font c color t =
     (if c = 9 then do {
        let t = (if fb_cols t = 0 then fb_update_dims t else t);
        t \<leftarrow> putchar1 font 32 color t;
        t \<leftarrow> putchar1 font 32 color t;
        t \<leftarrow> putchar1 font 32 color t;
        putchar1 font 32 color t
      }
      else putchar1 font c color t)"

fun write_chars :: "font \<Rightarrow> u8 list \<Rightarrow> u8 \<Rightarrow> terminal \<Rightarrow> terminal option" where
  "write_chars font [] color t = Some t"
| "write_chars font (c # cs) color t = do { t \<leftarrow> putchar font c color t; write_chars font cs color t }"

definition VGA_COLOR_WHITE :: u8 where "VGA_COLOR_WHITE = 15"

text \<open>The argument of \<open>printc\<close>, \<open>print\<close> and \<open>kprintf\<close> is the string without its NUL.\<close>

definition printc :: "font \<Rightarrow> u8 list \<Rightarrow> u8 \<Rightarrow> terminal \<Rightarrow> terminal option" where
  "printc font data color t = write_chars font data color t"

definition print :: "font \<Rightarrow> u8 list \<Rightarrow> terminal \<Rightarrow> terminal option" where
  "print font data t = write_chars font data VGA_COLOR_WHITE t"

section \<open>Scrolling\<close>

definition scroll_up :: "terminal \<Rightarrow> terminal" where
  "scroll_up t =
     (let t = (if total_lines t - int (unat (fb_rows t)) + 1 \<le> viewport_top t then t\<lparr>follow_output := False\<rparr> else t)
      in if viewport_top t = 0 then t
         else if 0 \<le> viewport_top t then t\<lparr>viewport_top := viewport_top t - 1\<rparr> else t)"

definition scroll_down :: "terminal \<Rightarrow> terminal" where
  "scroll_down t =
     (let t = (if total_lines t - int (unat (fb_rows t)) + 1 \<le> viewport_top t then t\<lparr>follow_output := True\<rparr> else t)
      in if viewport_top t + int (unat (fb_rows t)) \<le> total_lines t then t\<lparr>viewport_top := viewport_top t + 1\<rparr> else t)"

definition terminal_clear :: "u8 \<Rightarrow> terminal \<Rightarrow> terminal" where
  "terminal_clear color t =
     t\<lparr>scr := fb_clear (vga_bg_to_rgb color) (scr t),
       console_history := replicate SCROLLBACK_LINES (replicate VGA_TEXT_WIDTH (vga_entry 32 color)),
       total_lines := 0, cursor_x := 0, terminal_column := 0, terminal_row := 0, viewport_top := 0\<rparr>"

definition terminal_init :: "terminal \<Rightarrow> terminal" where
  "terminal_init t = fb_update_dims t"

section \<open>Line input\<close>

text \<open>Entries of the command history are strings without their NUL.\<close>

definition history_push :: "u8 list \<Rightarrow> terminal \<Rightarrow> terminal" where
  "history_push buf t =
     (if buf = [] then t
      else t\<lparr>history_entries := (history_entries t)[history_head t := take 511 buf],
             history_head := (history_head t + 1) mod HISTORY_SIZE,
             history_count := (if history_count t < HISTORY_SIZE then history_count t + 1 else history_count t)\<rparr>)"

fun erase_cells :: "nat list \<Rightarrow> nat \<Rightarrow> int \<Rightarrow> u8 \<Rightarrow> terminal \<Rightarrow> terminal option" where
  "erase_cells [] start_x start_line color t = Some t"
| "erase_cells (k # ks) start_x start_line color t =
     (if fb_cols t = 0 then None
      else let abs_col = start_x + k;
               hist_line = start_line + int (abs_col div unat (fb_cols t));
               hist_col = abs_col mod unat (fb_cols t)
           in do {
             t \<leftarrow> (if hist_col < VGA_TEXT_WIDTH then set_cell hist_line hist_col (vga_entry 32 color) t else Some t);
             erase_cells ks start_x start_line color t
           })"

text \<open>The state of a line being typed: the characters so far, the position in the history, and the saved input, \<open>None\<close>
  while that array has not been written.\<close>

record line_state =
  buff :: "u8 list"
  browse_idx :: nat
  saved_input :: "u8 list option"

definition browse :: "font \<Rightarrow> scancode \<Rightarrow> nat \<Rightarrow> u8 \<Rightarrow> nat \<Rightarrow> int \<Rightarrow> line_state \<Rightarrow> terminal \<Rightarrow> (line_state \<times> terminal) option" where
  "browse font sc buffer_size color start_x start_line l t = do {
     l \<leftarrow> (if sc = KEY_UP \<and> browse_idx l = 0
          then if length (buff l) < 512 then Some (l\<lparr>saved_input := Some (buff l)\<rparr>) else None
          else Some l);
     let l = (if sc = KEY_UP \<and> browse_idx l < history_count t then l\<lparr>browse_idx := browse_idx l + 1\<rparr> else l);
     let l = (if sc = KEY_DOWN \<and> 0 < browse_idx l then l\<lparr>browse_idx := browse_idx l - 1\<rparr> else l);
     src \<leftarrow> (if browse_idx l = 0 then saved_input l
            else Some (history_entries t ! ((history_head t + HISTORY_SIZE - browse_idx l) mod HISTORY_SIZE)));
     t \<leftarrow> erase_cells [0..<length (buff l)] start_x start_line color t;
     t \<leftarrow> render_viewport font (t\<lparr>cursor_x := of_nat start_x, total_lines := start_line\<rparr>);
     let text = take (buffer_size - 1) src;
     t \<leftarrow> write_chars font text color t;
     Some (l\<lparr>buff := text\<rparr>, t)
   }"

text \<open>One round of the loop of \<open>input\<close>; the first component tells whether it ends.\<close>

definition input_step ::
  "font \<Rightarrow> nat \<Rightarrow> u8 \<Rightarrow> nat \<Rightarrow> int \<Rightarrow> line_state \<times> keyboard \<times> terminal \<Rightarrow> (bool \<times> line_state \<times> keyboard \<times> terminal) option" where
  "input_step font buffer_size color start_x start_line = (\<lambda>(l, k, t). do {
     (sc, k) \<leftarrow> ps2_kb_wfi k;
     if sc AND 0x80 \<noteq> 0 then Some (False, l, k, t)
     else if sc = 0 then Some (False, l, k, t)
     else if sc = KEY_UP \<or> sc = KEY_DOWN then do {
       (l, t) \<leftarrow> browse font sc buffer_size color start_x start_line l t;
       Some (False, l, k, t)
     }
     else do {
       ascii \<leftarrow> scancode_to_ascii sc k;
       if ascii = 10 then Some (True, l, k, t)
       else if ascii = 8 then
         if buff l \<noteq> [] then do {
           t \<leftarrow> putchar font 8 color t;
           Some (False, l\<lparr>buff := butlast (buff l)\<rparr>, k, t)
         }
         else Some (False, l, k, t)
       else if length (buff l) < buffer_size - 1 \<and> 0x20 \<le> ascii then do {
         t \<leftarrow> putchar font ascii color t;
         Some (False, l\<lparr>buff := buff l @ [ascii]\<rparr>, k, t)
       }
       else Some (False, l, k, t)
     }
   })"

definition input :: "font \<Rightarrow> nat \<Rightarrow> u8 \<Rightarrow> keyboard \<Rightarrow> terminal \<Rightarrow> (u8 list \<times> keyboard \<times> terminal) option" where
  "input font buffer_size color k t = do {
     (l, k, t) \<leftarrow> run_loop (input_step font buffer_size color (unat (cursor_x t)) (total_lines t))
                    (\<lparr>buff = [], browse_idx = 0, saved_input = None\<rparr>, k, t);
     Some (buff l, k, history_push (buff l) t)
   }"

section \<open>The mouse cursor\<close>

definition fb_draw_cursor_block :: "u32 \<Rightarrow> u32 \<Rightarrow> u32 \<Rightarrow> screen \<Rightarrow> screen" where
  "fb_draw_cursor_block cx cy bg s =
     s\<lparr>vmem := fold (\<lambda>row m. fold (\<lambda>col m.
         put_pixel (g_fb s) (cx * FONT_WIDTH + of_nat col) (cy * FONT_HEIGHT + of_nat row)
           (if 14 \<le> row then 0x00FFFFFF else bg) m) [0..<8] m) [0..<16] (vmem s)\<rparr>"

text \<open>The cell under the mouse, redrawn.\<close>

definition undraw_cursor :: "font \<Rightarrow> terminal \<Rightarrow> terminal option" where
  "undraw_cursor font t =
     (if is_drawn (mouse_cursor t) then do {
        let cx = nat (cur_x (mouse_cursor t));
        let cy = nat (cur_y (mouse_cursor t));
        e \<leftarrow> get_cell (viewport_top t + int cy) cx t;
        Some ((draw_entry font (of_nat cx * FONT_WIDTH) (of_nat cy * FONT_HEIGHT) e t)
          \<lparr>mouse_cursor := (mouse_cursor t)\<lparr>is_drawn := False\<rparr>\<rparr>)
      }
      else Some t)"

definition draw_cursor :: "font \<Rightarrow> int \<Rightarrow> int \<Rightarrow> bool \<Rightarrow> terminal \<Rightarrow> terminal option" where
  "draw_cursor font x y visible t =
     (if visible then do {
        t \<leftarrow> undraw_cursor font t;
        e \<leftarrow> (if 0 \<le> x then get_cell (viewport_top t + y) (nat x) t else None);
        let bg = vga_bg_to_rgb (ucast (drop_bit 8 e));
        Some (t\<lparr>scr := fb_draw_cursor_block (of_int x) (of_int y) bg (scr t),
                mouse_cursor := \<lparr>cur_x = x, cur_y = y, is_drawn = True\<rparr>\<rparr>)
      }
      else undraw_cursor font t)"

record mouse_event_data =
  md_x :: int
  md_y :: int
  md_scroll :: int
  md_buttons :: u8
  md_event_type :: u8

definition get_mouse_event :: "font \<Rightarrow> mouse_event_data \<Rightarrow> terminal \<Rightarrow> terminal option" where
  "get_mouse_event font md t = do {
     let scroll = (if md_scroll md = 0 then 0 else md_scroll md - 8);
     let t = (if scroll < 0 then scroll_down t else t);
     let t = (if scroll > 0 then scroll_up t else t);
     t \<leftarrow> render_viewport font t;
     draw_cursor font (md_x md) (md_y md) True t
   }"

text \<open>The pixels that \<open>add_to_history\<close> reads have no influence on what it stores, a row of zeros.\<close>

fun zero_cells :: "nat list \<Rightarrow> nat \<Rightarrow> terminal \<Rightarrow> terminal option" where
  "zero_cells [] row t = Some t"
| "zero_cells (x # xs) row t = do { t \<leftarrow> set_cell (int row) x 0 t; zero_cells xs row t }"

definition add_to_history :: "terminal \<Rightarrow> terminal option" where
  "add_to_history t = do {
     let t = (if SCROLLBACK_LINES \<le> console_history_tail t then t\<lparr>console_history_tail := 0\<rparr> else t);
     t \<leftarrow> zero_cells [0..<min (unat (fb_cols t)) VGA_TEXT_WIDTH] (console_history_tail t) t;
     Some (t\<lparr>console_history_tail := console_history_tail t + 1\<rparr>)
   }"

end
