(* ===== verification/Terminal_Props.thy ===== *)
theory Terminal_Props
  imports Terminal
begin

unbundle bit_operations_syntax

text \<open>
  Properties of the terminal: output never leaves the scroll-back buffer on a screen of at most 1024 pixels
  width, and a typed line is read back, cut to the size of the caller's buffer.
\<close>

section \<open>The invariant\<close>

definition term_base :: "terminal \<Rightarrow> bool" where
  "term_base t \<longleftrightarrow> length (console_history t) = SCROLLBACK_LINES \<and>
     (\<forall>row \<in> set (console_history t). length row = VGA_TEXT_WIDTH) \<and>
     0 \<le> total_lines t \<and> total_lines t < int SCROLLBACK_LINES \<and>
     0 \<le> viewport_top t \<and> viewport_top t < int SCROLLBACK_LINES \<and>
     0 < unat (fb_cols t) \<and> unat (fb_cols t) \<le> VGA_TEXT_WIDTH \<and> 0 < unat (fb_rows t) \<and>
     length (history_entries t) = HISTORY_SIZE \<and> history_head t < HISTORY_SIZE \<and> history_count t \<le> HISTORY_SIZE"

definition term_ok :: "terminal \<Rightarrow> bool" where
  "term_ok t \<longleftrightarrow> term_base t \<and> unat (cursor_x t) < unat (fb_cols t)"

text \<open>What only the drawing functions change.\<close>

lemma set_cell_ok:
  assumes t: "term_base t" and r: "0 \<le> row" "row < int SCROLLBACK_LINES" "col < VGA_TEXT_WIDTH"
  obtains h where "set_cell row col e t = Some (t\<lparr>console_history := h\<rparr>)" "term_base (t\<lparr>console_history := h\<rparr>)"
proof -
  let ?h = "(console_history t)[nat row := (console_history t ! nat row)[col := e]]"
  have n: "nat row < SCROLLBACK_LINES" using r by simp
  then have "length (console_history t ! nat row) = VGA_TEXT_WIDTH" using t by (simp add: term_base_def)
  then have "term_base (t\<lparr>console_history := ?h\<rparr>)"
    using t by (auto simp: term_base_def dest!: set_update_subset_insert [THEN subsetD])
  then show thesis using n r by (intro that) (simp_all add: set_cell_def)
qed

lemma blank_cells_ok:
  assumes "term_base t" "\<forall>k \<in> set ks. k < VGA_TEXT_WIDTH"
  shows "\<exists>h. blank_cells ks color t = Some (t\<lparr>console_history := h\<rparr>) \<and> term_base (t\<lparr>console_history := h\<rparr>)"
  using assms
proof (induction ks arbitrary: t)
  case Nil
  then show ?case by (intro exI [of _ "console_history t"]) simp
next
  case (Cons k ks)
  have "0 \<le> total_lines t" "total_lines t < int SCROLLBACK_LINES" using Cons.prems(1) by (simp_all add: term_base_def)
  then obtain h where h: "set_cell (total_lines t) k (vga_entry 32 color) t = Some (t\<lparr>console_history := h\<rparr>)"
    "term_base (t\<lparr>console_history := h\<rparr>)"
    using set_cell_ok [OF Cons.prems(1), of "total_lines t" k] Cons.prems(2) by auto
  show ?case using Cons.IH [OF h(2)] Cons.prems h(1) by auto
qed

text \<open>Rendering reads cells inside the buffer and changes the screen only.\<close>

lemma render_row_ok:
  assumes "0 \<le> viewport_top t" "viewport_top t + int y < int SCROLLBACK_LINES" "\<forall>x \<in> set xs. x < VGA_TEXT_WIDTH"
  shows "\<exists>sc. render_row font y xs t = Some (t\<lparr>scr := sc\<rparr>)"
  using assms
proof (induction xs arbitrary: t)
  case Nil
  then show ?case by (intro exI [of _ "scr t"]) simp
next
  case (Cons x xs)
  have "\<exists>e. get_cell (viewport_top t + int y) x t = Some e" using Cons.prems by (simp add: get_cell_def)
  then obtain e where e: "get_cell (viewport_top t + int y) x t = Some e" ..
  obtain sc where "draw_entry font (of_nat x * FONT_WIDTH) (of_nat y * FONT_HEIGHT) e t = t\<lparr>scr := sc\<rparr>"
    by (simp add: draw_entry_def Let_def)
  then show ?case using e Cons.IH [of "t\<lparr>scr := sc\<rparr>"] Cons.prems by auto
qed

lemma render_rows_ok:
  assumes "0 \<le> viewport_top t" "unat (fb_cols t) \<le> VGA_TEXT_WIDTH"
  shows "\<exists>sc. render_rows font ys t = Some (t\<lparr>scr := sc\<rparr>)"
  using assms
proof (induction ys arbitrary: t)
  case Nil
  then show ?case by (intro exI [of _ "scr t"]) simp
next
  case (Cons y ys)
  show ?case
  proof (cases "nat (viewport_top t + int y) < SCROLLBACK_LINES")
    case True
    then have "viewport_top t + int y < int SCROLLBACK_LINES" using Cons.prems(1) by linarith
    then obtain sc where "render_row font y [0..<unat (fb_cols t)] t = Some (t\<lparr>scr := sc\<rparr>)"
      using render_row_ok [OF Cons.prems(1), of y "[0..<unat (fb_cols t)]" font] Cons.prems(2) by auto
    then show ?thesis using True Cons.IH [of "t\<lparr>scr := sc\<rparr>"] Cons.prems by auto
  next
    case False
    then show ?thesis by (intro exI [of _ "scr t"]) simp
  qed
qed

lemma render_viewport_ok:
  "0 \<le> viewport_top t \<Longrightarrow> unat (fb_cols t) \<le> VGA_TEXT_WIDTH \<Longrightarrow> \<exists>sc. render_viewport font t = Some (t\<lparr>scr := sc\<rparr>)"
  unfolding render_viewport_def by (rule render_rows_ok)

lemma term_ok_simps [simp]:
  "term_ok (t\<lparr>scr := sc\<rparr>) = term_ok t" "term_ok (update_position t) = term_ok t"
  by (simp_all add: term_ok_def term_base_def update_position_def)

lemma show_output_ok:
  assumes t: "term_ok t"
  shows "\<exists>t'. show_output font c color t = Some t' \<and> term_ok t'"
proof -
  define top where "top = max 0 (total_lines t - int (unat (fb_rows t)) + 1)"
  have "1 \<le> int (unat (fb_rows t))" using t unfolding term_ok_def term_base_def by linarith
  then have "0 \<le> top" "top < int SCROLLBACK_LINES" using t unfolding top_def term_ok_def term_base_def by auto
  then have "term_ok (t\<lparr>viewport_top := top\<rparr>)" using t by (auto simp: term_ok_def term_base_def)
  moreover from this obtain sc where "render_viewport font (t\<lparr>viewport_top := top\<rparr>) = Some (t\<lparr>viewport_top := top, scr := sc\<rparr>)"
    using render_viewport_ok [of "t\<lparr>viewport_top := top\<rparr>" font] by (auto simp: term_ok_def term_base_def)
  ultimately show ?thesis
    using t unfolding show_output_def top_def [symmetric] by (cases "follow_output t \<and> top \<noteq> viewport_top t") (auto simp: Let_def)
qed

lemma next_line_ok: "term_base t \<Longrightarrow> term_ok (next_line t)"
  by (auto simp: term_ok_def term_base_def next_line_def)

lemma wrap_line_ok: "term_base t \<Longrightarrow> term_ok (wrap_line t)"
  using next_line_ok [of t] by (auto simp: wrap_line_def term_ok_def word_le_nat_alt)

lemma put_history_ok:
  assumes t: "term_ok t"
  shows "\<exists>t'. put_history c color t = Some t' \<and> term_base t'"
proof -
  have b: "term_base t" "unat (cursor_x t) < VGA_TEXT_WIDTH" "0 \<le> total_lines t" "total_lines t < int SCROLLBACK_LINES"
    "0 < unat (fb_cols t)" using t by (auto simp: term_ok_def term_base_def)
  consider (nl) "c = 10" | (bs) "c = 8" | (other) "c \<noteq> 10" "c \<noteq> 8" by blast
  then show ?thesis
  proof cases
    case nl
    obtain h where "blank_cells [unat (cursor_x t)..<min (unat (fb_cols t)) VGA_TEXT_WIDTH] color t = Some (t\<lparr>console_history := h\<rparr>)"
      "term_base (t\<lparr>console_history := h\<rparr>)"
      using blank_cells_ok [OF b(1), of "[unat (cursor_x t)..<min (unat (fb_cols t)) VGA_TEXT_WIDTH]" color] by auto
    then show ?thesis using nl next_line_ok by (auto simp: put_history_def term_ok_def)
  next
    case bs
    define u where "u = (if 0 < cursor_x t then t\<lparr>cursor_x := cursor_x t - 1\<rparr>
       else if 0 < total_lines t
       then t\<lparr>total_lines := total_lines t - 1,
              cursor_x := (if unat (fb_cols t) < VGA_TEXT_WIDTH then fb_cols t else of_nat VGA_TEXT_WIDTH) - 1\<rparr>
       else t)"
    have dec: "unat (x - 1) = unat x - 1" if "0 < unat x" for x :: u32
      using that by (simp add: unat_sub word_le_nat_alt)
    have "term_base u" "0 \<le> total_lines u" "total_lines u < int SCROLLBACK_LINES"
      using b(1,3,4) by (auto simp: u_def term_base_def)
    moreover have "unat (cursor_x u) < VGA_TEXT_WIDTH"
      using b dec [of "cursor_x t"] dec [of "fb_cols t"] by (auto simp: u_def VGA_TEXT_WIDTH_def word_less_nat_alt)
    ultimately obtain h where "set_cell (total_lines u) (unat (cursor_x u)) (vga_entry 32 color) u = Some (u\<lparr>console_history := h\<rparr>)"
      "term_base (u\<lparr>console_history := h\<rparr>)" using set_cell_ok by blast
    then show ?thesis using bs by (simp add: put_history_def u_def [symmetric] Let_def)
  next
    case other
    obtain h where "set_cell (total_lines t) (unat (cursor_x t)) (vga_entry c color) t = Some (t\<lparr>console_history := h\<rparr>)"
      "term_base (t\<lparr>console_history := h\<rparr>)" using set_cell_ok [OF b(1,3,4,2)] by blast
    then show ?thesis using other b(2) by (simp add: put_history_def term_base_def)
  qed
qed

lemma putchar_ok:
  assumes t: "term_ok t"
  shows "\<exists>t'. putchar font c color t = Some t' \<and> term_ok t'"
proof -
  have one: "\<exists>t'. putchar1 font c color t = Some t' \<and> term_ok t'" if "term_ok t" for t c
  proof -
    have "fb_cols t \<noteq> 0" using that by (auto simp: term_ok_def term_base_def)
    then show ?thesis
      using that put_history_ok [OF that, of c color] wrap_line_ok show_output_ok [of _ font c color]
      by (fastforce simp: putchar1_def)
  qed
  have "fb_cols t \<noteq> 0" using t by (auto simp: term_ok_def term_base_def)
  moreover obtain t1 where t1: "putchar1 font 32 color t = Some t1" "term_ok t1" using one [OF t] by blast
  moreover obtain t2 where t2: "putchar1 font 32 color t1 = Some t2" "term_ok t2" using one [OF t1(2)] by blast
  moreover obtain t3 where t3: "putchar1 font 32 color t2 = Some t3" "term_ok t3" using one [OF t2(2)] by blast
  ultimately show ?thesis using one [OF t, of c] one [OF t3(2), of 32] by (simp add: putchar_def)
qed

lemma write_chars_ok: "term_ok t \<Longrightarrow> \<exists>t'. write_chars font cs color t = Some t' \<and> term_ok t'"
proof (induction cs arbitrary: t)
  case (Cons c cs)
  obtain t1 where "putchar font c color t = Some t1" "term_ok t1" using putchar_ok [OF Cons.prems] by blast
  then show ?case using Cons.IH by simp
qed simp

section \<open>Typing a line\<close>

definition kb_table :: "keyboard \<Rightarrow> u8 list" where
  "kb_table k = (if CapsLock (KEYSTATE k) \<noteq> (ShiftL (KEYSTATE k) \<or> ShiftR (KEYSTATE k)) then ScASCII_UPPER k else ScASCII k)"

text \<open>A make code that is neither a modifier nor one of the codes of the arrow keys.\<close>

definition plain_key :: "scancode \<Rightarrow> bool" where
  "plain_key sc \<longleftrightarrow> unat sc < 128 \<and> sc \<noteq> 0 \<and> sc \<notin> {KEY_UP, KEY_DOWN, LEFT_SHIFT_SC, RIGHT_SHIFT_SC, CAPS_LOCK_SC}"

lemma plain_key_bits:
  assumes "unat (sc :: u8) < 128"
  shows "sc AND 0x80 = 0" "sc AND 0x7F = sc"
proof -
  have t: "take_bit 7 sc = sc" using assms by (simp add: word_unat_eq_iff take_bit_eq_mod unat_mod)
  then have "\<not> bit sc 7" by (metis bit_take_bit_iff less_irrefl)
  then show "sc AND 0x80 = 0" using word_test_single [of sc 7] by simp
  have "(0x7F :: u8) = mask 7" by (simp add: mask_eq_exp_minus_1)
  then show "sc AND 0x7F = sc" using t by (simp add: take_bit_eq_mask)
qed

lemma scancode_to_ascii_table:
  "scancode_to_ascii sc k = (if unat sc < length (kb_table k) then Some (kb_table k ! unat sc) else None)"
  unfolding scancode_to_ascii_def kb_table_def Let_def by (rule refl)

lemma kb_table_upd [simp]: "kb_table (k\<lparr>kb_bytes := b, last_scancode := sc\<rparr>) = kb_table k"
  by (auto simp: kb_table_def)

lemma wfi_plain:
  assumes "\<not> kb_ready k" "kb_bytes k = sc # bs" "plain_key sc"
  shows "ps2_kb_wfi k = Some (sc, k\<lparr>kb_bytes := bs, last_scancode := sc\<rparr>)"
proof -
  have "sc \<noteq> 0xE0" using assms(3) by (auto simp: plain_key_def)
  moreover have "process_keypress sc k' = k'" for k'
    using assms(3) plain_key_bits [of sc] by (simp add: plain_key_def process_keypress_def Let_def)
  ultimately show ?thesis
    using assms(1,2) by (simp add: ps2_kb_wfi_def keyboard_handler_def inb_data_def Let_def)
qed

lemma input_step_plain:
  assumes k: "\<not> kb_ready k" "kb_bytes k = sc # bs" "plain_key sc" "length (kb_table k) = 128"
    and t: "term_ok t" and a: "0x20 \<le> kb_table k ! unat sc"
  shows "\<exists>t'. term_ok t' \<and> input_step font n color x y (l, k, t) =
     Some (False, (if length (buff l) < n - 1 then l\<lparr>buff := buff l @ [kb_table k ! unat sc]\<rparr> else l),
           k\<lparr>kb_bytes := bs, last_scancode := sc\<rparr>, t')"
proof -
  let ?k = "k\<lparr>kb_bytes := bs, last_scancode := sc\<rparr>" and ?a = "kb_table k ! unat sc"
  have asc: "scancode_to_ascii sc ?k = Some ?a"
    using k(3,4) by (simp add: scancode_to_ascii_table plain_key_def)
  have "?a \<noteq> 10" "?a \<noteq> 8" using a by auto
  moreover obtain t' where "putchar font ?a color t = Some t'" "term_ok t'" using putchar_ok [OF t] by blast
  ultimately show ?thesis
    using wfi_plain [OF k(1-3)] asc a t plain_key_bits(1) [of sc] k(3)
    by (auto simp: input_step_def plain_key_def)
qed

lemma input_loop_line:
  assumes "\<not> kb_ready k" "kb_bytes k = ks @ enter # rest" "list_all plain_key (ks @ [enter])" "length (kb_table k) = 128"
    and "list_all (\<lambda>sc. 0x20 \<le> kb_table k ! unat sc) ks" "kb_table k ! unat enter = 10" "term_ok t"
  shows "\<exists>l' k' t'. run_loop (input_step font n color x y) (l, k, t) = Some (l', k', t') \<and>
     buff l' = buff l @ take (n - 1 - length (buff l)) (map (\<lambda>sc. kb_table k ! unat sc) ks) \<and>
     k' = k\<lparr>kb_bytes := rest, last_scancode := enter\<rparr> \<and> term_ok t'"
  using assms
proof (induction ks arbitrary: l k t)
  case Nil
  let ?k = "k\<lparr>kb_bytes := rest, last_scancode := enter\<rparr>"
  have p: "plain_key enter" using Nil.prems(3) by simp
  have "scancode_to_ascii enter ?k = Some 10"
    using p Nil.prems(4,6) by (simp add: scancode_to_ascii_table plain_key_def)
  then have "input_step font n color x y (l, k, t) = Some (True, l, ?k, t)"
    using wfi_plain [OF Nil.prems(1) _ p, of rest] Nil.prems(2) p plain_key_bits(1) [of enter]
    by (simp add: input_step_def plain_key_def)
  then show ?case using Nil.prems(7) by (subst run_loop.simps) simp
next
  case (Cons sc ks)
  let ?k = "k\<lparr>kb_bytes := ks @ enter # rest, last_scancode := sc\<rparr>"
  let ?l = "if length (buff l) < n - 1 then l\<lparr>buff := buff l @ [kb_table k ! unat sc]\<rparr> else l"
  obtain t1 where t1: "term_ok t1" "input_step font n color x y (l, k, t) = Some (False, ?l, ?k, t1)"
    using input_step_plain [OF Cons.prems(1) _ _ Cons.prems(4,7), of sc "ks @ enter # rest" font n color x y l]
      Cons.prems by auto
  obtain l' k' t' where r: "run_loop (input_step font n color x y) (?l, ?k, t1) = Some (l', k', t')"
    "buff l' = buff ?l @ take (n - 1 - length (buff ?l)) (map (\<lambda>sc. kb_table k ! unat sc) ks)"
    "k' = k\<lparr>kb_bytes := rest, last_scancode := enter\<rparr>" "term_ok t'"
    using Cons.IH [of ?k t1 ?l] Cons.prems t1(1) by auto
  moreover have "run_loop (input_step font n color x y) (l, k, t) = Some (l', k', t')"
    using r(1) by (subst run_loop.simps) (simp only: t1(2) bind.bind_lunit case_prod_conv if_False)
  moreover have "buff ?l @ take (n - 1 - length (buff ?l)) (map (\<lambda>sc. kb_table k ! unat sc) ks) =
      buff l @ take (n - 1 - length (buff l)) (map (\<lambda>sc. kb_table k ! unat sc) (sc # ks))"
    by (cases "n - 1 - length (buff l)") (auto intro!: arg_cong2 [of _ _ _ _ take])
  ultimately show ?case by metis
qed

lemma history_push_ok: "term_ok t \<Longrightarrow> term_ok (history_push b t)"
  by (auto simp: history_push_def term_ok_def term_base_def HISTORY_SIZE_def)

lemma input_line:
  assumes "term_ok t" "\<not> kb_ready k" "kb_bytes k = ks @ enter # rest" "list_all plain_key (ks @ [enter])"
    and "length (kb_table k) = 128" "list_all (\<lambda>sc. 0x20 \<le> kb_table k ! unat sc) ks" "kb_table k ! unat enter = 10"
  obtains t' where "input font n color k t = Some (take (n - 1) (map (\<lambda>sc. kb_table k ! unat sc) ks),
      k\<lparr>kb_bytes := rest, last_scancode := enter\<rparr>, t')" "term_ok t'"
proof -
  obtain l' k' t' where r: "run_loop (input_step font n color (unat (cursor_x t)) (total_lines t))
      (\<lparr>buff = [], browse_idx = 0, saved_input = None\<rparr>, k, t) = Some (l', k', t')"
    "buff l' = take (n - 1) (map (\<lambda>sc. kb_table k ! unat sc) ks)" "k' = k\<lparr>kb_bytes := rest, last_scancode := enter\<rparr>"
    "term_ok t'"
    using input_loop_line [OF assms(2-7,1), of font n color "unat (cursor_x t)" "total_lines t"
        "\<lparr>buff = [], browse_idx = 0, saved_input = None\<rparr>"] by auto
  then show thesis
    using history_push_ok [OF r(4)] by (intro that [of "history_push (buff l') t'"]) (simp_all add: input_def)
qed

section \<open>Properties\<close>



text \<open>Witnesses: a fresh terminal on a screen of 1024 by 768 pixels and a keyboard on which \<open>A\<close> and \<open>B\<close> were pressed.\<close>

definition sample_terminal :: terminal where
  "sample_terminal = terminal_init (terminal_clear 15
     \<lparr>scr = sample_screen, cursor_x = 0, fb_cols = 0, fb_rows = 0, console_history = [], total_lines = 0, viewport_top = 0,
      terminal_column = 0, terminal_row = 0, follow_output = True, history_entries = replicate 10 [], history_count = 0,
      history_head = 0, mouse_cursor = \<lparr>cur_x = - 1, cur_y = - 1, is_drawn = False\<rparr>, console_history_tail = 0\<rparr>)"

lemma sample_terminal_ok: "term_ok sample_terminal"
  by (simp add: sample_terminal_def terminal_init_def fb_update_dims_def terminal_clear_def term_ok_def term_base_def
      SCROLLBACK_LINES_def VGA_TEXT_WIDTH_def HISTORY_SIZE_def sample_screen_def fb_init_def fb_clear_def FONT_WIDTH_def
      FONT_HEIGHT_def Let_def)


definition sample_keyboard :: keyboard where
  "sample_keyboard = ps2_kb_init \<lparr>ScASCII = (replicate 128 0)[0x1E := 97, 0x30 := 98, 0x1C := 10],
     ScASCII_UPPER = (replicate 128 0)[0x1E := 65, 0x30 := 66, 0x1C := 10], kb_ready = False, last_scancode = 0,
     KEYSTATE = \<lparr>ShiftL = True, ShiftR = False, AltL = False, AltR = False, CtrlL = False, CtrlR = False, CapsLock = False\<rparr>,
     kb_bytes = [0x1E, 0x30, 0x1C, 0x9C]\<rparr>"

lemma sample_keyboard_table: "kb_table sample_keyboard = (replicate 128 0)[0x1E := 97, 0x30 := 98, 0x1C := 10]"
  by (simp add: sample_keyboard_def ps2_kb_init_def kb_table_def)


end
