(* ===== verification/Editor.thy ===== *)
theory Editor
  imports Terminal Fat32_File
begin

unbundle bit_operations_syntax

text \<open>
  The text editor, \<open>kernel/editor/editor.c\<close>: the text buffer and its cursor, the display, loading and saving on a
  FAT32 volume, and the loop over keys.  File names are strings without their NUL; \<open>None\<close> stands for a wait for a
  key that does not come, or an operation on the volume without a defined result.
\<close>

section \<open>State\<close>

definition EDITOR_MAX_FILESIZE :: nat where "EDITOR_MAX_FILESIZE = 4096"
definition ED_W :: nat where "ED_W = 128"
definition ED_H :: nat where "ED_H = 48"
definition ED_ROWS :: nat where "ED_ROWS = ED_H - 1"
definition SC_BACKSPACE :: scancode where "SC_BACKSPACE = 0x0E"
definition SC_ENTER :: scancode where "SC_ENTER = 0x1C"
definition SC_CTRL_MAKE :: scancode where "SC_CTRL_MAKE = 0x1D"

record editor =
  ed_buf :: "u8 list"
  ed_len :: nat
  ed_cur :: nat
  ed_view_row :: nat
  ed_filename :: "u8 list"
  ed_dirty :: bool
  ed_color_text :: u8
  ed_color_status :: u8

text \<open>The characters that the loops over the buffer see.\<close>

definition ed_text :: "editor \<Rightarrow> u8 list" where
  "ed_text e = take (ed_len e) (ed_buf e)"

section \<open>Lines and columns\<close>

fun line_start_loop :: "u8 list \<Rightarrow> nat \<Rightarrow> nat \<Rightarrow> nat \<Rightarrow> nat" where
  "line_start_loop [] n pos line = pos"
| "line_start_loop (c # cs) n pos line =
     (if line < n then line_start_loop cs n (pos + 1) (if c = 10 then line + 1 else line) else pos)"

definition ed_line_start :: "nat \<Rightarrow> editor \<Rightarrow> nat" where
  "ed_line_start n e = line_start_loop (ed_text e) n 0 0"

fun count_newlines :: "u8 list \<Rightarrow> nat \<Rightarrow> nat" where
  "count_newlines [] line = line"
| "count_newlines (c # cs) line = count_newlines cs (if c = 10 then line + 1 else line)"

definition ed_count_lines :: "editor \<Rightarrow> nat" where
  "ed_count_lines e = count_newlines (ed_text e) 1"

definition ed_offset_to_line :: "nat \<Rightarrow> editor \<Rightarrow> nat" where
  "ed_offset_to_line offset e = count_newlines (take offset (ed_text e)) 0"

fun col_loop :: "u8 list \<Rightarrow> nat \<Rightarrow> nat \<Rightarrow> nat" where
  "col_loop b 0 col = col"
| "col_loop b (Suc i) col = (if b ! i \<noteq> 10 then col_loop b i (col + 1) else col)"

definition ed_offset_to_col :: "nat \<Rightarrow> editor \<Rightarrow> nat" where
  "ed_offset_to_col offset e = col_loop (ed_buf e) offset 0"

fun line_len_loop :: "u8 list \<Rightarrow> nat \<Rightarrow> nat" where
  "line_len_loop [] len = len"
| "line_len_loop (c # cs) len = (if c \<noteq> 10 then line_len_loop cs (len + 1) else len)"

definition ed_line_len :: "nat \<Rightarrow> editor \<Rightarrow> nat" where
  "ed_line_len n e = line_len_loop (drop (ed_line_start n e) (ed_text e)) 0"

section \<open>Display\<close>

definition ed_fill_row :: "font \<Rightarrow> nat \<Rightarrow> u8 \<Rightarrow> screen \<Rightarrow> screen" where
  "ed_fill_row font row color s = fold (\<lambda>c. putentryat font 32 color (of_nat c) (of_nat row)) [0..<ED_W] s"

text \<open>Characters from column \<open>col\<close> on, up to a column; the result carries the next column.\<close>

fun draw_text :: "font \<Rightarrow> u8 list \<Rightarrow> u8 \<Rightarrow> nat \<Rightarrow> nat \<Rightarrow> nat \<Rightarrow> screen \<Rightarrow> nat \<times> screen" where
  "draw_text font [] color col limit row s = (col, s)"
| "draw_text font (c # cs) color col limit row s =
     (if col < limit then draw_text font cs color (col + 1) limit row (putentryat font c color (of_nat col) (of_nat row) s)
      else (col, s))"

definition ascii :: "string \<Rightarrow> u8 list" where
  "ascii cs = map of_char cs"

definition ed_draw_status :: "font \<Rightarrow> editor \<Rightarrow> screen \<Rightarrow> screen" where
  "ed_draw_status font e s =
     (let color = ed_color_status e;
          s = ed_fill_row font (ED_H - 1) color s;
          prefix = ascii '' GeckoEdit | '';
          (col, s) = draw_text font prefix color 0 (length prefix) (ED_H - 1) s;
          (col, s) = draw_text font (ed_filename e) color col (ED_W - 20) (ED_H - 1) s;
          (col, s) = (if ed_dirty e then draw_text font (ascii '' [modified]'') color col (ED_W - 18) (ED_H - 1) s else (col, s));
          hints = ascii ''^S Save  ^Q Quit '';
          (col, s) = draw_text font hints color (ED_W - length hints) ED_W (ED_H - 1) s
      in s)"

definition ed_draw_row :: "font \<Rightarrow> editor \<Rightarrow> nat \<Rightarrow> screen \<Rightarrow> screen" where
  "ed_draw_row font e row s =
     (let line = ed_view_row e + row;
          s = ed_fill_row font row (ed_color_text e) s
      in if ed_count_lines e \<le> line then s
         else snd (draw_text font (takeWhile (\<lambda>c. c \<noteq> 10) (drop (ed_line_start line e) (ed_text e)))
                     (ed_color_text e) 0 ED_W row s))"

definition ed_redraw :: "font \<Rightarrow> editor \<times> screen \<Rightarrow> editor \<times> screen" where
  "ed_redraw font = (\<lambda>(e, s).
     let cur_line = ed_offset_to_line (ed_cur e) e;
         e = (if cur_line < ed_view_row e then e\<lparr>ed_view_row := cur_line\<rparr> else e);
         e = (if ed_view_row e + ED_ROWS \<le> cur_line then e\<lparr>ed_view_row := cur_line + 1 - ED_ROWS\<rparr> else e);
         s = fold (ed_draw_row font e) [0..<ED_ROWS] s
     in (e, ed_draw_status font e s))"

section \<open>Editing\<close>

text \<open>The two shifting loops, from \<open>i\<close> down to \<open>cur + 1\<close> and from \<open>i\<close> up to \<open>last - 1\<close>.\<close>

fun shift_right :: "nat \<Rightarrow> nat \<Rightarrow> u8 list \<Rightarrow> u8 list" where
  "shift_right cur 0 b = b"
| "shift_right cur (Suc i) b = (if cur < Suc i then shift_right cur i (b[Suc i := b ! i]) else b)"

fun shift_left :: "nat \<Rightarrow> nat \<Rightarrow> u8 list \<Rightarrow> u8 list" where
  "shift_left 0 i b = b"
| "shift_left (Suc n) i b = shift_left n (i + 1) (b[i := b ! (i + 1)])"

definition ed_insert :: "u8 \<Rightarrow> editor \<Rightarrow> editor" where
  "ed_insert c e =
     (if EDITOR_MAX_FILESIZE - 1 \<le> ed_len e then e
      else let b = (shift_right (ed_cur e) (ed_len e) (ed_buf e))[ed_cur e := c]
           in e\<lparr>ed_buf := b[ed_len e + 1 := 0], ed_cur := ed_cur e + 1, ed_len := ed_len e + 1, ed_dirty := True\<rparr>)"

definition ed_backspace :: "editor \<Rightarrow> editor" where
  "ed_backspace e =
     (if ed_cur e = 0 then e
      else let cur = ed_cur e - 1; b = shift_left (ed_len e - 1 - cur) cur (ed_buf e)
           in e\<lparr>ed_buf := b[ed_len e - 1 := 0], ed_cur := cur, ed_len := ed_len e - 1, ed_dirty := True\<rparr>)"

definition ed_move_left :: "editor \<Rightarrow> editor" where
  "ed_move_left e = (if 0 < ed_cur e then e\<lparr>ed_cur := ed_cur e - 1\<rparr> else e)"

definition ed_move_right :: "editor \<Rightarrow> editor" where
  "ed_move_right e = (if ed_cur e < ed_len e then e\<lparr>ed_cur := ed_cur e + 1\<rparr> else e)"

definition ed_move_up :: "editor \<Rightarrow> editor" where
  "ed_move_up e =
     (let line = ed_offset_to_line (ed_cur e) e
      in if line = 0 then e
         else let col = ed_offset_to_col (ed_cur e) e; prev_len = ed_line_len (line - 1) e;
                  col = (if prev_len < col then prev_len else col)
              in e\<lparr>ed_cur := ed_line_start (line - 1) e + col\<rparr>)"

definition ed_move_down :: "editor \<Rightarrow> editor" where
  "ed_move_down e =
     (let line = ed_offset_to_line (ed_cur e) e; lines = ed_count_lines e
      in if lines - 1 \<le> line then e
         else let col = ed_offset_to_col (ed_cur e) e; next_len = ed_line_len (line + 1) e;
                  col = (if next_len < col then next_len else col)
              in e\<lparr>ed_cur := ed_line_start (line + 1) e + col\<rparr>)"

section \<open>Files\<close>

definition ed_message :: "font \<Rightarrow> u8 list \<Rightarrow> editor \<Rightarrow> screen \<Rightarrow> screen" where
  "ed_message font msg e s =
     snd (draw_text font msg (ed_color_status e) 0 ED_W (ED_H - 1) (ed_fill_row font (ED_H - 1) (ed_color_status e) s))"

definition ed_save :: "font \<Rightarrow> 'd drive_fs option \<Rightarrow> editor \<times> screen \<Rightarrow> 'd \<Rightarrow> ((editor \<times> screen) \<times> 'd) option" where
  "ed_save font fso = (\<lambda>(e, s) d.
     case fso of
       None \<Rightarrow> Some ((e, ed_message font (ascii '' [ERROR: filesystem not mounted]'') e s), d)
     | Some fs \<Rightarrow> do {
         (r, d) \<leftarrow> fat32_write_file fs (ed_filename e) (Some (ed_text e)) (ed_len e) d;
         let e = (if r = 0 then e\<lparr>ed_dirty := False\<rparr> else e);
         Some ((e, ed_draw_status font e s), d)
       })"

partial_function (option) load_loop :: "'d drive_fs \<Rightarrow> drive_file \<Rightarrow> nat \<Rightarrow> u8 list \<Rightarrow> 'd \<Rightarrow> (u8 list \<times> 'd) option" where
  "load_loop fs f offset text d =
     (if EDITOR_MAX_FILESIZE - 1 \<le> length text then Some (text, d)
      else do {
        (bytes, tmp, d1) \<leftarrow> fat32_file_read fs f offset 128 d;
        if bytes \<le> 0 then Some (text, d1)
        else load_loop fs f (offset + nat bytes)
               (text @ take (EDITOR_MAX_FILESIZE - 1 - length text) (take (nat bytes) tmp)) d1
      })"

definition set_text :: "u8 list \<Rightarrow> editor \<Rightarrow> editor" where
  "set_text text e = e\<lparr>ed_buf := memcpy_at (ed_buf e) 0 (text @ [0]), ed_len := length text\<rparr>"

definition ed_load :: "'d drive_fs option \<Rightarrow> editor \<Rightarrow> heap \<Rightarrow> 'd \<Rightarrow> (editor \<times> heap \<times> 'd) option" where
  "ed_load fso e h d =
     (case fso of
        None \<Rightarrow> Some (set_text [] e, h, d)
      | Some fs \<Rightarrow> do {
          (entries, h, d) \<leftarrow> fat32_get_root_entries fs h d;
          case find_file entries (ed_filename e) of
            None \<Rightarrow> Some (set_text [] e, h, d)
          | Some f \<Rightarrow> do {
              (text, d) \<leftarrow> load_loop fs f 0 [] d;
              Some (set_text text e, h, d)
            }
        })"

section \<open>The loop over keys\<close>

partial_function (option) wait_make :: "keyboard \<Rightarrow> (scancode \<times> keyboard) option" where
  "wait_make k = do {
     (c2, k) \<leftarrow> ps2_kb_wfi k;
     if c2 AND 0x80 \<noteq> 0 then wait_make k else Some (c2, k)
   }"

record 'd session =
  ses_ctrl :: bool
  ses_ed :: editor
  ses_scr :: screen
  ses_kb :: keyboard
  ses_dev :: 'd

definition ses_edit :: "font \<Rightarrow> (editor \<Rightarrow> editor) \<Rightarrow> 'd session \<Rightarrow> 'd session" where
  "ses_edit font f ses = (case ed_redraw font (f (ses_ed ses), ses_scr ses) of (e, s) \<Rightarrow> ses\<lparr>ses_ed := e, ses_scr := s\<rparr>)"

definition editor_key :: "font \<Rightarrow> 'd drive_fs option \<Rightarrow> scancode \<Rightarrow> 'd session \<Rightarrow> (bool \<times> 'd session) option" where
  "editor_key font fso sc ses =
     (let is_break = sc AND 0x80 \<noteq> 0; base = sc AND 0x7F
      in if base = SC_CTRL_MAKE then Some (False, ses\<lparr>ses_ctrl := \<not> is_break\<rparr>)
         else if is_break then Some (False, ses)
         else if sc = KEY_UP then Some (False, ses_edit font ed_move_up ses)
         else if sc = KEY_DOWN then Some (False, ses_edit font ed_move_down ses)
         else if sc = KEY_LEFT then Some (False, ses_edit font ed_move_left ses)
         else if sc = KEY_RIGHT then Some (False, ses_edit font ed_move_right ses)
         else if ses_ctrl ses \<and> sc = 0x1F then do {
           ((e, s), d) \<leftarrow> ed_save font fso (ses_ed ses, ses_scr ses) (ses_dev ses);
           Some (False, ses_edit font (\<lambda>e. e) (ses\<lparr>ses_ed := e, ses_scr := s, ses_dev := d\<rparr>))
         }
         else if ses_ctrl ses \<and> sc = 0x10 then
           if ed_dirty (ses_ed ses) then do {
             let s = ed_message font (ascii '' Unsaved! ^Q again to discard, any key to cancel.'') (ses_ed ses) (ses_scr ses);
             (c2, k) \<leftarrow> wait_make (ses_kb ses);
             let ses = ses\<lparr>ses_scr := s, ses_kb := k\<rparr>;
             Some (if c2 = 0x10 \<and> ses_ctrl ses then (True, ses) else (False, ses_edit font (\<lambda>e. e) ses))
           }
           else Some (True, ses)
         else if sc = SC_BACKSPACE then Some (False, ses_edit font ed_backspace ses)
         else if sc = SC_ENTER then Some (False, ses_edit font (ed_insert 10) ses)
         else do {
           a \<leftarrow> scancode_to_ascii sc (ses_kb ses);
           Some (False, if 0x20 \<le> a \<and> a < 0x80 then ses_edit font (ed_insert a) ses else ses)
         })"

definition editor_step :: "font \<Rightarrow> 'd drive_fs option \<Rightarrow> 'd session \<Rightarrow> (bool \<times> 'd session) option" where
  "editor_step font fso ses = do {
     (sc, k) \<leftarrow> ps2_kb_wfi (ses_kb ses);
     editor_key font fso sc (ses\<lparr>ses_kb := k\<rparr>)
   }"

text \<open>\<open>ed_strcpy\<close> into a buffer of \<open>maxlen\<close> bytes.\<close>

definition ed_strcpy :: "u8 list \<Rightarrow> nat \<Rightarrow> u8 list" where
  "ed_strcpy src maxlen = take (maxlen - 1) src"

definition editor_run ::
  "font \<Rightarrow> 'd drive_fs option \<Rightarrow> u8 list \<Rightarrow> u8 \<Rightarrow> editor \<Rightarrow> heap \<Rightarrow> keyboard \<Rightarrow> terminal \<Rightarrow> 'd \<Rightarrow>
     (editor \<times> heap \<times> keyboard \<times> terminal \<times> 'd) option" where
  "editor_run font fso filename color e h k t d = do {
     let e = e\<lparr>ed_filename := ed_strcpy filename 32, ed_cur := 0, ed_view_row := 0, ed_dirty := False,
               ed_color_text := vga_entry_color 3 0, ed_color_status := vga_entry_color 0 3\<rparr>;
     let s = vga_clear (ed_color_text e) (scr t);
     (e, h, d) \<leftarrow> ed_load fso e h d;
     let (e, s) = ed_redraw font (e, s);
     ses \<leftarrow> run_loop (editor_step font fso)
              \<lparr>ses_ctrl = False, ses_ed = e, ses_scr = s, ses_kb = k, ses_dev = d\<rparr>;
     Some (ses_ed ses, h, ses_kb ses, terminal_clear color (t\<lparr>scr := ses_scr ses\<rparr>), ses_dev ses)
   }"

end
