(* ===== verification/Editor_Props.thy ===== *)
theory Editor_Props
  imports Editor
begin

unbundle bit_operations_syntax

text \<open>
  The editor refines an abstract one whose state is a text, split into lines, and a cursor.
\<close>

section \<open>The abstract editor\<close>

fun split_lines :: "u8 list \<Rightarrow> u8 list list" where
  "split_lines [] = [[]]"
| "split_lines (c # cs) =
     (if c = 10 then [] # split_lines cs else (c # hd (split_lines cs)) # tl (split_lines cs))"

definition row_of :: "u8 list \<Rightarrow> nat \<Rightarrow> nat" where
  "row_of text p = length (split_lines (take p text)) - 1"

definition col_of :: "u8 list \<Rightarrow> nat \<Rightarrow> nat" where
  "col_of text p = length (last (split_lines (take p text)))"

text \<open>The offset of a row and a column.\<close>

definition offset_of :: "u8 list \<Rightarrow> nat \<Rightarrow> nat \<Rightarrow> nat" where
  "offset_of text r c = sum_list (map (\<lambda>l. length l + 1) (take r (split_lines text))) + c"

datatype ed_cmd = Insert u8 | Backspace | Left | Right | Up | Down

text \<open>The cursor moved to row \<open>r\<close>, in the same column if the row is long enough, at its end otherwise.\<close>

definition go_row :: "nat \<Rightarrow> u8 list \<Rightarrow> nat \<Rightarrow> nat" where
  "go_row r text p = offset_of text r (min (col_of text p) (length (split_lines text ! r)))"

fun abs_step :: "ed_cmd \<Rightarrow> u8 list \<times> nat \<Rightarrow> u8 list \<times> nat" where
  "abs_step (Insert c) (text, p) =
     (if length text < 4095 then (take p text @ c # drop p text, p + 1) else (text, p))"
| "abs_step Backspace (text, p) = (if p = 0 then (text, p) else (take (p - 1) text @ drop p text, p - 1))"
| "abs_step Left (text, p) = (text, p - 1)"
| "abs_step Right (text, p) = (text, min (p + 1) (length text))"
| "abs_step Up (text, p) = (text, if row_of text p = 0 then p else go_row (row_of text p - 1) text p)"
| "abs_step Down (text, p) =
     (text, if row_of text p + 1 < length (split_lines text) then go_row (row_of text p + 1) text p else p)"

fun ed_exec :: "ed_cmd \<Rightarrow> editor \<Rightarrow> editor" where
  "ed_exec (Insert c) e = ed_insert c e"
| "ed_exec Backspace e = ed_backspace e"
| "ed_exec Left e = ed_move_left e"
| "ed_exec Right e = ed_move_right e"
| "ed_exec Up e = ed_move_up e"
| "ed_exec Down e = ed_move_down e"

definition ed_ok :: "editor \<Rightarrow> bool" where
  "ed_ok e \<longleftrightarrow> length (ed_buf e) = 4096 \<and> ed_len e \<le> 4095 \<and> ed_cur e \<le> ed_len e \<and> ed_buf e ! ed_len e = 0"

definition ed_abs :: "editor \<Rightarrow> u8 list \<times> nat" where
  "ed_abs e = (ed_text e, ed_cur e)"

section \<open>Lines\<close>

lemma split_lines_ne [simp]: "split_lines cs \<noteq> []"
  by (cases cs) auto

lemma length_split_lines_pos: "0 < length (split_lines cs)"
  by simp

lemma count_newlines_split: "count_newlines cs n + 1 = n + length (split_lines cs)"
proof (induction cs arbitrary: n)
  case (Cons c cs)
  then show ?case using length_split_lines_pos [of cs] by (auto simp del: length_greater_0_conv)
qed simp

lemma line_start_loop_split:
  "line + r < length (split_lines cs) + line \<Longrightarrow> line_start_loop cs (line + r) pos line =
     pos + sum_list (map (\<lambda>l. length l + 1) (take r (split_lines cs)))"
proof (induction cs arbitrary: r pos line)
  case Nil
  then show ?case by simp
next
  case (Cons c cs)
  show ?case
  proof (cases r)
    case 0
    then show ?thesis by simp
  next
    case (Suc r')
    show ?thesis
    proof (cases "c = 10")
      case True
      then show ?thesis using Cons.IH [of "line + 1" r' "pos + 1"] Cons.prems Suc by simp
    next
      case False
      obtain l ls where s: "split_lines cs = l # ls" by (cases "split_lines cs") auto
      show ?thesis using Cons.IH [of line r "pos + 1"] Cons.prems Suc False s by simp
    qed
  qed
qed

lemma line_len_loop_hd: "line_len_loop cs n = n + length (hd (split_lines cs))"
  by (induction cs arbitrary: n) auto

lemma split_lines_drop:
  "r < length (split_lines cs) \<Longrightarrow>
     split_lines (drop (sum_list (map (\<lambda>l. length l + 1) (take r (split_lines cs)))) cs) = drop r (split_lines cs)"
proof (induction cs arbitrary: r)
  case (Cons c cs)
  show ?case
  proof (cases r)
    case (Suc r')
    show ?thesis
    proof (cases "c = 10")
      case True
      then show ?thesis using Cons Suc by simp
    next
      case False
      obtain l ls where s: "split_lines cs = l # ls" by (cases "split_lines cs") auto
      show ?thesis using Cons.IH [of r] Cons.prems Suc False s by simp
    qed
  qed simp
qed simp

lemma split_lines_snoc:
  "split_lines (cs @ [c]) = (if c = 10 then split_lines cs @ [[]]
     else butlast (split_lines cs) @ [last (split_lines cs) @ [c]])"
proof (induction cs)
  case (Cons a cs)
  obtain l ls where s: "split_lines cs = l # ls" by (cases "split_lines cs") auto
  show ?case using Cons.IH s by (cases ls) (auto simp: hd_append)
qed simp

lemma col_loop_last: "p \<le> length b \<Longrightarrow> col_loop b p n = n + length (last (split_lines (take p b)))"
proof (induction p arbitrary: n)
  case (Suc p)
  then have "take (Suc p) b = take p b @ [b ! p]" by (simp add: take_Suc_conv_app_nth)
  then show ?case using Suc by (simp add: split_lines_snoc)
qed simp

section \<open>The operations in terms of lines\<close>


lemma sum_lines: "sum_list (map (\<lambda>l. length l + 1) (split_lines cs)) = length cs + 1"
proof (induction cs)
  case (Cons c cs)
  obtain l ls where "split_lines cs = l # ls" by (cases "split_lines cs") auto
  then show ?case using Cons by simp
qed simp

lemma offset_of_le:
  assumes r: "r < length (split_lines text)" and c: "c \<le> length (split_lines text ! r)"
  shows "offset_of text r c \<le> length text"
proof -
  let ?f = "\<lambda>l. length l + 1" and ?ls = "split_lines text"
  have "sum_list (map ?f ?ls) = sum_list (map ?f (take r ?ls @ ?ls ! r # drop (Suc r) ?ls))"
    using id_take_nth_drop [OF r] by (rule arg_cong)
  then have "sum_list (map ?f ?ls) = sum_list (map ?f (take r ?ls)) + (?f (?ls ! r) + sum_list (map ?f (drop (Suc r) ?ls)))"
    by (simp only: map_append list.map sum_list_append sum_list.Cons)
  then show ?thesis using sum_lines [of "text"] c by (simp add: offset_of_def)
qed

lemma length_split_take: "length (split_lines (take p cs)) \<le> length (split_lines cs)"
proof -
  have app: "length (split_lines (xs @ ys)) + 1 = length (split_lines xs) + length (split_lines ys)" for xs ys
  proof (induction xs)
    case (Cons x xs)
    then show ?case using length_split_lines_pos [of "xs @ ys"] length_split_lines_pos [of xs]
      by (auto simp del: length_greater_0_conv)
  qed simp
  show ?thesis
    using app [of "take p cs" "drop p cs"] length_split_lines_pos [of "drop p cs"] by (simp del: length_greater_0_conv)
qed

lemma row_of_less: "row_of text p < length (split_lines text)"
  using length_split_take [of p "text"] length_split_lines_pos [of "take p text"] by (simp add: row_of_def del: length_greater_0_conv)

lemma ed_lines:
  "ed_offset_to_line p e = row_of (ed_text e) p" "ed_count_lines e = length (split_lines (ed_text e))"
  "r < length (split_lines (ed_text e)) \<Longrightarrow> ed_line_start r e = offset_of (ed_text e) r 0"
  "r < length (split_lines (ed_text e)) \<Longrightarrow> ed_line_len r e = length (split_lines (ed_text e) ! r)"
proof -
  show "ed_offset_to_line p e = row_of (ed_text e) p"
    using count_newlines_split [of "take p (ed_text e)" 0] by (simp add: ed_offset_to_line_def row_of_def)
  show "ed_count_lines e = length (split_lines (ed_text e))"
    using count_newlines_split [of "ed_text e" 1] by (simp add: ed_count_lines_def)
  show st: "ed_line_start r e = offset_of (ed_text e) r 0" if "r < length (split_lines (ed_text e))"
    using line_start_loop_split [of 0 r "ed_text e" 0] that by (simp add: ed_line_start_def offset_of_def)
  show "ed_line_len r e = length (split_lines (ed_text e) ! r)" if "r < length (split_lines (ed_text e))"
    using that split_lines_drop [OF that] st [OF that]
    by (simp add: ed_line_len_def line_len_loop_hd offset_of_def hd_drop_conv_nth)
qed

lemma ed_col:
  assumes "ed_ok e" "p \<le> ed_len e"
  shows "ed_offset_to_col p e = col_of (ed_text e) p"
proof -
  have "p \<le> length (ed_buf e)" "take p (ed_buf e) = take p (ed_text e)"
    using assms by (auto simp: ed_ok_def ed_text_def min_def)
  then show ?thesis using col_loop_last [of p "ed_buf e" 0] by (simp add: ed_offset_to_col_def col_of_def)
qed

section \<open>Shifting\<close>

lemma shift_right_nth:
  "i < length b \<Longrightarrow> length (shift_right cur i b) = length b \<and>
     (\<forall>j < length b. shift_right cur i b ! j = (if cur < j \<and> j \<le> i then b ! (j - 1) else b ! j))"
proof (induction i arbitrary: b)
  case (Suc i)
  show ?case
  proof (cases "cur < Suc i")
    case True
    then show ?thesis using Suc.IH [of "b[Suc i := b ! i]"] Suc.prems by (auto simp: nth_list_update le_Suc_eq)
  next
    case False
    then show ?thesis by auto
  qed
qed simp

lemma shift_left_nth:
  "i + n < length b \<Longrightarrow> length (shift_left n i b) = length b \<and>
     (\<forall>j < length b. shift_left n i b ! j = (if i \<le> j \<and> j < i + n then b ! (j + 1) else b ! j))"
proof (induction n arbitrary: i b)
  case (Suc n)
  have "shift_left (Suc n) i b ! j = (if i \<le> j \<and> j < i + Suc n then b ! (j + 1) else b ! j)" if "j < length b" for j
    using Suc.IH [of "i + 1" "b[i := b ! (i + 1)]"] Suc.prems that by (cases "j = i") (auto simp: nth_list_update)
  then show ?case using Suc.IH [of "i + 1" "b[i := b ! (i + 1)]"] Suc.prems by simp
qed auto

lemma ed_insert_text:
  assumes ok: "ed_ok e" and room: "ed_len e < 4095"
  shows "ed_ok (ed_insert c e)" and "ed_text (ed_insert c e) = take (ed_cur e) (ed_text e) @ c # drop (ed_cur e) (ed_text e)"
proof -
  have o: "length (ed_buf e) = 4096" "ed_cur e \<le> ed_len e" using ok by (simp_all add: ed_ok_def)
  let ?b = "shift_right (ed_cur e) (ed_len e) (ed_buf e)"
  have b: "length ?b = 4096" "\<And>j. j < 4096 \<Longrightarrow> ?b ! j =
      (if ed_cur e < j \<and> j \<le> ed_len e then ed_buf e ! (j - 1) else ed_buf e ! j)"
    using shift_right_nth [of "ed_len e" "ed_buf e" "ed_cur e"] o room by auto
  have eq: "ed_insert c e = e\<lparr>ed_buf := ?b[ed_cur e := c, ed_len e + 1 := 0], ed_cur := ed_cur e + 1,
      ed_len := ed_len e + 1, ed_dirty := True\<rparr>"
    using room by (simp add: ed_insert_def EDITOR_MAX_FILESIZE_def Let_def)
  show "ed_ok (ed_insert c e)" unfolding eq using o b(1) room by (simp add: ed_ok_def)
  show "ed_text (ed_insert c e) = take (ed_cur e) (ed_text e) @ c # drop (ed_cur e) (ed_text e)"
    unfolding eq using o b room
    by (intro nth_equalityI) (auto simp: ed_text_def nth_append nth_list_update nth_Cons' min_def)
qed

lemma ed_backspace_text:
  assumes ok: "ed_ok e" and pos: "0 < ed_cur e"
  shows "ed_ok (ed_backspace e)" and "ed_text (ed_backspace e) = take (ed_cur e - 1) (ed_text e) @ drop (ed_cur e) (ed_text e)"
proof -
  have o: "length (ed_buf e) = 4096" "ed_cur e \<le> ed_len e" "ed_len e \<le> 4095" using ok by (simp_all add: ed_ok_def)
  let ?b = "shift_left (ed_len e - 1 - (ed_cur e - 1)) (ed_cur e - 1) (ed_buf e)"
  have b: "length ?b = 4096" "\<And>j. j < 4096 \<Longrightarrow> ?b ! j =
      (if ed_cur e - 1 \<le> j \<and> j < ed_len e - 1 then ed_buf e ! (j + 1) else ed_buf e ! j)"
    using shift_left_nth [of "ed_cur e - 1" "ed_len e - 1 - (ed_cur e - 1)" "ed_buf e"] o pos by auto
  have eq: "ed_backspace e = e\<lparr>ed_buf := ?b[ed_len e - 1 := 0], ed_cur := ed_cur e - 1, ed_len := ed_len e - 1, ed_dirty := True\<rparr>"
    using pos by (simp add: ed_backspace_def Let_def)
  show "ed_ok (ed_backspace e)" unfolding eq using o b(1) pos by (auto simp: ed_ok_def)
  show "ed_text (ed_backspace e) = take (ed_cur e - 1) (ed_text e) @ drop (ed_cur e) (ed_text e)"
  proof (rule nth_equalityI)
    show l: "length (ed_text (ed_backspace e)) = length (take (ed_cur e - 1) (ed_text e) @ drop (ed_cur e) (ed_text e))"
      unfolding eq using o b(1) pos by (auto simp: ed_text_def)
    fix i
    assume "i < length (ed_text (ed_backspace e))"
    then have i: "i < ed_len e - 1" "i < 4096" unfolding eq using o b(1) by (auto simp: ed_text_def)
    then have "ed_text (ed_backspace e) ! i = (if ed_cur e - 1 \<le> i then ed_buf e ! (i + 1) else ed_buf e ! i)"
      unfolding eq using b(2) [OF i(2)] by (simp add: ed_text_def)
    also have "\<dots> = (take (ed_cur e - 1) (ed_text e) @ drop (ed_cur e) (ed_text e)) ! i"
      using i o pos by (auto simp: ed_text_def nth_append)
    finally show "ed_text (ed_backspace e) ! i = (take (ed_cur e - 1) (ed_text e) @ drop (ed_cur e) (ed_text e)) ! i" .
  qed
qed

section \<open>Refinement\<close>

lemma ed_exec_refines:
  assumes ok: "ed_ok e"
  shows "ed_ok (ed_exec cmd e) \<and> ed_abs (ed_exec cmd e) = abs_step cmd (ed_abs e)"
proof -
  have o: "length (ed_buf e) = 4096" "ed_cur e \<le> ed_len e" "ed_len e \<le> 4095" using ok by (simp_all add: ed_ok_def)
  have l: "length (ed_text e) = ed_len e" using o by (simp add: ed_text_def)
  have go: "ed_ok (e\<lparr>ed_cur := go_row r (ed_text e) (ed_cur e)\<rparr>) \<and>
      ed_line_start r e + min (col_of (ed_text e) (ed_cur e)) (ed_line_len r e) = go_row r (ed_text e) (ed_cur e)"
    if "r < length (split_lines (ed_text e))" for r
    using offset_of_le [OF that min.cobounded2, of "col_of (ed_text e) (ed_cur e)"] ok l
    by (simp add: ed_lines(3,4) [OF that] go_row_def ed_ok_def) (simp add: offset_of_def)
  have keep: "ed_text (e\<lparr>ed_cur := p\<rparr>) = ed_text e" for p by (simp add: ed_text_def)
  show ?thesis
  proof (cases cmd)
    case (Insert c)
    have "ed_cur (ed_insert c e) = ed_cur e + 1" if "ed_len e < 4095"
      using that by (simp add: ed_insert_def EDITOR_MAX_FILESIZE_def Let_def)
    moreover have "ed_insert c e = e" if "\<not> ed_len e < 4095" using that by (simp add: ed_insert_def EDITOR_MAX_FILESIZE_def)
    ultimately show ?thesis using Insert ed_insert_text [OF ok] ok l by (cases "ed_len e < 4095") (simp_all add: ed_abs_def)
  next
    case Backspace
    have "ed_cur (ed_backspace e) = ed_cur e - 1" by (simp add: ed_backspace_def Let_def)
    then show ?thesis using Backspace ed_backspace_text [OF ok] ok
      by (cases "ed_cur e = 0") (simp_all add: ed_abs_def, simp add: ed_backspace_def)
  next
    case Left
    then show ?thesis using ok by (auto simp: ed_move_left_def ed_ok_def ed_abs_def keep)
  next
    case Right
    then show ?thesis using ok l by (auto simp: ed_move_right_def ed_ok_def ed_abs_def keep)
  next
    case Up
    let ?r = "row_of (ed_text e) (ed_cur e)"
    have "?r - 1 < length (split_lines (ed_text e))" using row_of_less [of "ed_text e" "ed_cur e"] by simp
    from go [OF this] show ?thesis
      using Up ok ed_col [OF ok o(2)]
      by (simp add: ed_move_up_def ed_lines Let_def ed_abs_def keep min_def split: if_splits)
  next
    case Down
    let ?r = "row_of (ed_text e) (ed_cur e)"
    show ?thesis
    proof (cases "?r + 1 < length (split_lines (ed_text e))")
      case True
      then have "\<not> length (split_lines (ed_text e)) - 1 \<le> ?r" by linarith
      with go [OF True] show ?thesis
        using Down True ok ed_col [OF ok o(2)]
        by (simp add: ed_move_down_def ed_lines Let_def ed_abs_def keep min_def split: if_splits)
    next
      case False
      then have "length (split_lines (ed_text e)) - 1 \<le> ?r" by linarith
      then show ?thesis using False Down ok by (simp add: ed_move_down_def ed_lines Let_def ed_abs_def)
    qed
  qed
qed

text \<open>Drawing changes the first visible row only.\<close>

lemma ed_redraw_keeps:
  assumes "ed_redraw font (e, s) = (e', s')"
  shows "ed_abs e' = ed_abs e" "ed_ok e' = ed_ok e" "ed_dirty e' = ed_dirty e"
  using assms by (auto simp: ed_redraw_def Let_def ed_abs_def ed_ok_def ed_text_def split: if_splits)

lemma ses_edit_keeps:
  "ed_abs (ses_ed (ses_edit font f ses)) = ed_abs (f (ses_ed ses))" "ed_ok (ses_ed (ses_edit font f ses)) = ed_ok (f (ses_ed ses))"
  "ses_dev (ses_edit font f ses) = ses_dev ses" "ed_dirty (ses_ed (ses_edit font f ses)) = ed_dirty (f (ses_ed ses))"
  using ed_redraw_keeps [of font "f (ses_ed ses)" "ses_scr ses"] by (auto simp: ses_edit_def split: prod.split)

lemma ed_save_keeps:
  assumes "ed_save font fso (e, s) d = Some ((e', s'), d')"
  shows "ed_abs e' = ed_abs e" "ed_ok e' = ed_ok e"
  using assms by (auto simp: ed_save_def ed_abs_def ed_ok_def ed_text_def Let_def split: option.splits Option.bind_splits if_splits)

text \<open>The command that a key stands for, if any.\<close>

definition key_cmd :: "scancode \<Rightarrow> 'd session \<Rightarrow> ed_cmd option" where
  "key_cmd sc ses =
     (if sc AND 0x7F = SC_CTRL_MAKE \<or> sc AND 0x80 \<noteq> 0 then None
      else if sc = KEY_UP then Some Up else if sc = KEY_DOWN then Some Down
      else if sc = KEY_LEFT then Some Left else if sc = KEY_RIGHT then Some Right
      else if ses_ctrl ses \<and> (sc = 0x1F \<or> sc = 0x10) then None
      else if sc = SC_BACKSPACE then Some Backspace
      else if sc = SC_ENTER then Some (Insert 10)
      else case scancode_to_ascii sc (ses_kb ses) of
             Some a \<Rightarrow> if 0x20 \<le> a \<and> a < 0x80 then Some (Insert a) else None
           | None \<Rightarrow> None)"

lemma ses_edit_exec:
  assumes "ed_ok (ses_ed ses)" "f = ed_exec cmd"
  shows "ed_abs (ses_ed (ses_edit font f ses)) = abs_step cmd (ed_abs (ses_ed ses))" "ed_ok (ses_ed (ses_edit font f ses))"
  using ed_exec_refines [OF assms(1), of cmd] by (simp_all add: ses_edit_keeps assms(2))

lemma exec_funs:
  "ed_move_up = ed_exec Up" "ed_move_down = ed_exec Down" "ed_move_left = ed_exec Left" "ed_move_right = ed_exec Right"
  "ed_backspace = ed_exec Backspace" "ed_insert c = ed_exec (Insert c)"
  by auto

text \<open>C29. The editor refines the abstract editor on texts of at most 4095 characters.  Whatever key is handled, the buffer
  stays well formed (terminated, cursor inside the text), and text and cursor change as the command of the key says: insertion and deletion at
  the cursor, one step left or right, or the same column of the row above or below, as far as that row is long.  Keys without a
  command leave them alone, and only the combination for saving changes the volume.\<close>

theorem editor_key_refines:
  assumes "ed_ok (ses_ed ses)" "editor_key font fso sc ses = Some (stop, ses')"
  shows "ed_ok (ses_ed ses') \<and>
     ed_abs (ses_ed ses') = (case key_cmd sc ses of None \<Rightarrow> ed_abs (ses_ed ses) | Some cmd \<Rightarrow> abs_step cmd (ed_abs (ses_ed ses))) \<and>
     (\<not> (ses_ctrl ses \<and> sc = 0x1F) \<longrightarrow> ses_dev ses' = ses_dev ses)"
proof -
  note ex = ses_edit_exec [OF assms(1) refl]
  note codes = SC_CTRL_MAKE_def SC_BACKSPACE_def SC_ENTER_def KEY_UP_def KEY_DOWN_def KEY_LEFT_def KEY_RIGHT_def
  note defs = editor_key_def key_cmd_def Let_def exec_funs
  consider (skip) "sc AND 0x7F = SC_CTRL_MAKE \<or> sc AND 0x80 \<noteq> 0"
    | (edit) "sc \<in> {KEY_UP, KEY_DOWN, KEY_LEFT, KEY_RIGHT}"
    | (save) "ses_ctrl ses" "sc = 0x1F" | (quit) "ses_ctrl ses" "sc = 0x10"
    | (del) "sc = SC_BACKSPACE \<or> sc = SC_ENTER"
    | (other) "\<not> (sc AND 0x7F = SC_CTRL_MAKE \<or> sc AND 0x80 \<noteq> 0)" "sc \<notin> {KEY_UP, KEY_DOWN, KEY_LEFT, KEY_RIGHT}"
        "\<not> (ses_ctrl ses \<and> sc = 0x1F)" "\<not> (ses_ctrl ses \<and> sc = 0x10)" "sc \<noteq> SC_BACKSPACE" "sc \<noteq> SC_ENTER"
    by blast
  then show ?thesis
  proof cases
    case skip
    then show ?thesis using assms unfolding defs by (cases "sc AND 0x7F = SC_CTRL_MAKE") auto
  next
    case edit
    then show ?thesis using assms(2) unfolding defs by (auto simp: codes ex ses_edit_keeps(3))
  next
    case save
    then show ?thesis
      using assms unfolding defs
      by (auto simp: codes ses_edit_keeps ed_save_keeps split: Option.bind_splits)
  next
    case quit
    then show ?thesis
      using assms unfolding defs by (auto simp: codes ses_edit_keeps split: Option.bind_splits if_splits)
  next
    case del
    then show ?thesis using assms(2) unfolding defs by (auto simp: codes ex ses_edit_keeps(3))
  next
    case other
    then obtain a where a: "scancode_to_ascii sc (ses_kb ses) = Some a"
      "ses' = (if 0x20 \<le> a \<and> a < 0x80 then ses_edit font (ed_insert a) ses else ses)"
      using assms(2) unfolding editor_key_def Let_def by (auto split: Option.bind_splits)
    then show ?thesis
      using other assms(1) unfolding key_cmd_def exec_funs by (auto simp: ex ses_edit_keeps(3))
  qed
qed

text \<open>Witness: a letter typed into an empty text.\<close>

definition empty_editor :: editor where
  "empty_editor = set_text [] \<lparr>ed_buf = replicate 4096 0, ed_len = 0, ed_cur = 0, ed_view_row = 0, ed_filename = [65],
     ed_dirty = False, ed_color_text = 3, ed_color_status = 48\<rparr>"

definition sample_session :: "unit session" where
  "sample_session = \<lparr>ses_ctrl = False, ses_ed = empty_editor,
     ses_scr = \<lparr>g_fb = \<lparr>fi_addr = 0xFD000000, fi_width = 1024, fi_height = 768, fi_pitch = 4096, fi_bpp = 32\<rparr>,
        fb = \<lparr>fi_addr = 0xFD000000, fi_width = 1024, fi_height = 768, fi_pitch = 4096, fi_bpp = 32\<rparr>, vmem = (\<lambda>_. 0)\<rparr>,
     ses_kb = \<lparr>ScASCII = (replicate 128 0)[0x1E := 97], ScASCII_UPPER = replicate 128 0, kb_ready = False, last_scancode = 0,
        KEYSTATE = \<lparr>ShiftL = False, ShiftR = False, AltL = False, AltR = False, CtrlL = False, CtrlR = False, CapsLock = False\<rparr>,
        kb_bytes = []\<rparr>, ses_dev = ()\<rparr>"

lemma empty_editor_ok: "ed_ok empty_editor" "ed_abs empty_editor = ([], 0)"
  by (simp_all add: ed_ok_def ed_abs_def ed_text_def empty_editor_def set_text_def memcpy_at_def)

theorem editor_key_refines_witness:
  "\<exists>ses'. editor_key (\<lambda>_ _. 0) None 0x1E sample_session = Some (False, ses') \<and> ed_abs (ses_ed ses') = ([97], 1)"
proof -
  have a: "scancode_to_ascii 0x1E (ses_kb sample_session) = Some 97"
    by (simp add: sample_session_def scancode_to_ascii_def)
  have e: "ses_ed sample_session = empty_editor" "\<not> ses_ctrl sample_session" by (simp_all add: sample_session_def)
  have k: "key_cmd 0x1E sample_session = Some (Insert 97)"
    using a e by (simp add: key_cmd_def SC_CTRL_MAKE_def SC_BACKSPACE_def SC_ENTER_def KEY_UP_def KEY_DOWN_def KEY_LEFT_def KEY_RIGHT_def)
  obtain ses' where "editor_key (\<lambda>_ _. 0) None 0x1E sample_session = Some (False, ses')"
    using a e by (simp add: editor_key_def SC_CTRL_MAKE_def SC_BACKSPACE_def SC_ENTER_def KEY_UP_def KEY_DOWN_def KEY_LEFT_def
        KEY_RIGHT_def Let_def)
  then show ?thesis
    using editor_key_refines [of sample_session "\<lambda>_ _. 0" None "0x1E" False ses'] k e empty_editor_ok by simp
qed

end
