(* ===== verification/Ports.thy ===== *)
theory Ports
  imports Gecko_Prelude
begin

text \<open>
  Port input and output (\<open>include/ports.h\<close>).  What a port instruction does is up to the hardware: the six
  instructions are functions of the hardware's state, a parameter of every driver that uses them.
\<close>

record 'd ports =
  io_inb :: "u16 \<Rightarrow> 'd \<Rightarrow> u8 \<times> 'd"
  io_outb :: "u16 \<Rightarrow> u8 \<Rightarrow> 'd \<Rightarrow> 'd"
  io_inw :: "u16 \<Rightarrow> 'd \<Rightarrow> u16 \<times> 'd"
  io_outw :: "u16 \<Rightarrow> u16 \<Rightarrow> 'd \<Rightarrow> 'd"
  io_inl :: "u16 \<Rightarrow> 'd \<Rightarrow> u32 \<times> 'd"
  io_outl :: "u16 \<Rightarrow> u32 \<Rightarrow> 'd \<Rightarrow> 'd"

end
