(* ===== verification/Ata.thy ===== *)
theory Ata
  imports Ports Fs
begin

unbundle bit_operations_syntax

text \<open>
  The ATA driver, \<open>kernel/drivers/ata.c\<close>: programmed input and output on the primary channel, presence test and
  registration of the drives.  The state is the hardware behind the ports and the table \<open>drive_present\<close>.
\<close>

section \<open>Registers\<close>

definition ATA_PRIMARY_BASE :: u16 where "ATA_PRIMARY_BASE = 0x1F0"
definition ATA_SECONDARY_BASE :: u16 where "ATA_SECONDARY_BASE = 0x1E8"
definition ATA_PRIMARY_CTRL :: u16 where "ATA_PRIMARY_CTRL = 0x3F6"
definition ATA_REG_DATA :: u16 where "ATA_REG_DATA = 0x00"
definition ATA_REG_SECCOUNT :: u16 where "ATA_REG_SECCOUNT = 0x02"
definition ATA_REG_LBA_LO :: u16 where "ATA_REG_LBA_LO = 0x03"
definition ATA_REG_LBA_MID :: u16 where "ATA_REG_LBA_MID = 0x04"
definition ATA_REG_LBA_HI :: u16 where "ATA_REG_LBA_HI = 0x05"
definition ATA_REG_HDDEVSEL :: u16 where "ATA_REG_HDDEVSEL = 0x06"
definition ATA_REG_STATUS :: u16 where "ATA_REG_STATUS = 0x07"
definition ATA_REG_COMMAND :: u16 where "ATA_REG_COMMAND = 0x07"
definition ATA_SELECT_MASTER :: u8 where "ATA_SELECT_MASTER = 0xA0"
definition ATA_SELECT_SLAVE :: u8 where "ATA_SELECT_SLAVE = 0xB0"
definition ATA_LBA_MASTER :: u8 where "ATA_LBA_MASTER = 0xE0"
definition ATA_LBA_SLAVE :: u8 where "ATA_LBA_SLAVE = 0xF0"
definition ATA_SR_BSY :: u8 where "ATA_SR_BSY = 0x80"
definition ATA_SR_DRQ :: u8 where "ATA_SR_DRQ = 0x08"
definition ATA_SR_ERR :: u8 where "ATA_SR_ERR = 0x01"
definition ATA_CMD_READ_PIO :: u8 where "ATA_CMD_READ_PIO = 0x20"
definition ATA_CMD_WRITE_PIO :: u8 where "ATA_CMD_WRITE_PIO = 0x30"
definition ATA_CMD_FLUSH :: u8 where "ATA_CMD_FLUSH = 0xE7"

record 'p ata =
  hdw :: 'p
  drive_present :: "bool list"

section \<open>Waiting\<close>

definition ata_delay :: "'p ports \<Rightarrow> 'p \<Rightarrow> 'p" where
  "ata_delay io = (\<lambda>d. snd (io_inb io ATA_PRIMARY_CTRL d)) ^^ 4"

fun wait_bsy :: "'p ports \<Rightarrow> nat \<Rightarrow> 'p \<Rightarrow> bool \<times> 'p" where
  "wait_bsy io 0 d = (False, d)"
| "wait_bsy io (Suc timeout) d =
     (let (status, d) = io_inb io (ATA_PRIMARY_BASE + ATA_REG_STATUS) d
      in if status = 0xFF then (False, d)
         else if status AND ATA_SR_BSY = 0 then (True, d)
         else wait_bsy io timeout d)"

definition ata_wait_not_busy :: "'p ports \<Rightarrow> 'p \<Rightarrow> bool \<times> 'p" where
  "ata_wait_not_busy io d = wait_bsy io 1000000 d"

fun wait_drq :: "'p ports \<Rightarrow> nat \<Rightarrow> 'p \<Rightarrow> bool \<times> 'p" where
  "wait_drq io 0 d = (False, d)"
| "wait_drq io (Suc timeout) d =
     (let (status, d) = io_inb io (ATA_PRIMARY_BASE + ATA_REG_STATUS) d
      in if status AND ATA_SR_ERR \<noteq> 0 then (False, d)
         else if status AND ATA_SR_DRQ \<noteq> 0 then (True, d)
         else wait_drq io timeout d)"

definition ata_poll_drq :: "'p ports \<Rightarrow> 'p \<Rightarrow> bool \<times> 'p" where
  "ata_poll_drq io d = wait_drq io 100000 d"

section \<open>Transfers\<close>

definition ata_command :: "'p ports \<Rightarrow> nat \<Rightarrow> u32 \<Rightarrow> u8 \<Rightarrow> u8 \<Rightarrow> 'p \<Rightarrow> 'p" where
  "ata_command io drive lba count cmd d =
     (let lba_select = (if drive \<noteq> 0 then ATA_LBA_SLAVE else ATA_LBA_MASTER) OR ucast (drop_bit 24 lba AND 0x0F);
          d = io_outb io (ATA_PRIMARY_BASE + ATA_REG_HDDEVSEL) lba_select d;
          d = ata_delay io d;
          d = io_outb io (ATA_PRIMARY_BASE + ATA_REG_SECCOUNT) count d;
          d = io_outb io (ATA_PRIMARY_BASE + ATA_REG_LBA_LO) (ucast lba) d;
          d = io_outb io (ATA_PRIMARY_BASE + ATA_REG_LBA_MID) (ucast (drop_bit 8 lba)) d;
          d = io_outb io (ATA_PRIMARY_BASE + ATA_REG_LBA_HI) (ucast (drop_bit 16 lba)) d
      in io_outb io (ATA_PRIMARY_BASE + ATA_REG_COMMAND) cmd d)"

fun read_words :: "'p ports \<Rightarrow> nat \<Rightarrow> 'p \<Rightarrow> u8 list \<times> 'p" where
  "read_words io 0 d = ([], d)"
| "read_words io (Suc n) d =
     (let (w, d) = io_inw io (ATA_PRIMARY_BASE + ATA_REG_DATA) d; (bs, d) = read_words io n d in (le16 w @ bs, d))"

fun write_words :: "'p ports \<Rightarrow> nat \<Rightarrow> nat \<Rightarrow> u8 list \<Rightarrow> 'p \<Rightarrow> 'p" where
  "write_words io 0 i b d = d"
| "write_words io (Suc n) i b d =
     write_words io n (i + 2) b (io_outw io (ATA_PRIMARY_BASE + ATA_REG_DATA) (buf16 b i) d)"

text \<open>The sectors of a transfer; the result tells whether all of them were transferred.\<close>

fun read_secs :: "'p ports \<Rightarrow> nat \<Rightarrow> 'p \<Rightarrow> bool \<times> u8 list \<times> 'p" where
  "read_secs io 0 d = (True, [], d)"
| "read_secs io (Suc n) d =
     (case ata_wait_not_busy io d of
        (False, d) \<Rightarrow> (False, [], d)
      | (True, d) \<Rightarrow>
          (case ata_poll_drq io d of
             (False, d) \<Rightarrow> (False, [], d)
           | (True, d) \<Rightarrow>
               let (bs, d) = read_words io 256 d; (ok, rest, d) = read_secs io n d in (ok, bs @ rest, d)))"

fun write_secs :: "'p ports \<Rightarrow> nat \<Rightarrow> nat \<Rightarrow> u8 list \<Rightarrow> 'p \<Rightarrow> bool \<times> 'p" where
  "write_secs io 0 s b d = (True, d)"
| "write_secs io (Suc n) s b d =
     (case ata_wait_not_busy io d of
        (False, d) \<Rightarrow> (False, d)
      | (True, d) \<Rightarrow>
          (case ata_poll_drq io d of
             (False, d) \<Rightarrow> (False, d)
           | (True, d) \<Rightarrow>
               (case ata_wait_not_busy io (io_outb io (ATA_PRIMARY_BASE + ATA_REG_COMMAND) ATA_CMD_FLUSH
                       (write_words io 256 (s * 512) b d)) of
                  (False, d) \<Rightarrow> (False, d)
                | (True, d) \<Rightarrow> write_secs io n (s + 1) b d)))"

definition ata_read_sectors :: "'p ports \<Rightarrow> nat \<Rightarrow> u32 \<Rightarrow> u8 \<Rightarrow> 'p ata \<Rightarrow> int \<times> u8 list \<times> 'p ata" where
  "ata_read_sectors io drive lba count s =
     (if \<not> drive_present s ! drive then (- 1, [], s)
      else case ata_wait_not_busy io (hdw s) of
             (False, d) \<Rightarrow> (- 1, [], s\<lparr>hdw := d\<rparr>)
           | (True, d) \<Rightarrow>
               (case read_secs io (unat count) (ata_command io drive lba count ATA_CMD_READ_PIO d) of
                  (ok, bs, d) \<Rightarrow> (if ok then int (unat count) else - 1, bs, s\<lparr>hdw := d\<rparr>)))"

definition ata_write_sectors :: "'p ports \<Rightarrow> nat \<Rightarrow> u32 \<Rightarrow> u8 \<Rightarrow> u8 list \<Rightarrow> 'p ata \<Rightarrow> int \<times> 'p ata" where
  "ata_write_sectors io drive lba count b s =
     (if \<not> drive_present s ! drive then (- 1, s)
      else case ata_wait_not_busy io (hdw s) of
             (False, d) \<Rightarrow> (- 1, s\<lparr>hdw := d\<rparr>)
           | (True, d) \<Rightarrow>
               (case write_secs io (unat count) 0 b (ata_command io drive lba count ATA_CMD_WRITE_PIO d) of
                  (ok, d) \<Rightarrow> (if ok then 0 else - 1, s\<lparr>hdw := d\<rparr>)))"

section \<open>Drives\<close>

definition ata_kdrive_read_sectors :: "'p ports \<Rightarrow> nat \<Rightarrow> 'p ata \<Rightarrow> u64 \<Rightarrow> u8 list option \<times> 'p ata" where
  "ata_kdrive_read_sectors io drive s lba =
     (case ata_read_sectors io drive (ucast lba) 1 s of (r, bs, s) \<Rightarrow> (if r < 0 then None else Some bs, s))"

definition ata_kdrive_write_sectors :: "'p ports \<Rightarrow> nat \<Rightarrow> 'p ata \<Rightarrow> u64 \<Rightarrow> u8 list \<Rightarrow> bool \<times> 'p ata" where
  "ata_kdrive_write_sectors io drive s lba b =
     (case ata_write_sectors io drive (ucast lba) 1 b s of (r, s) \<Rightarrow> (\<not> r < 0, s))"

definition ata_kdrive :: "'p ports \<Rightarrow> nat \<Rightarrow> 'p ata kdrive" where
  "ata_kdrive io drive = \<lparr>sector_size = 512, userdata1 = of_nat drive,
     partitions = \<lparr>table_type = PARTITION_NONE, table_count = 0, table_partitions = []\<rparr>,
     kread = ata_kdrive_read_sectors io drive, kwrite = ata_kdrive_write_sectors io drive\<rparr>"

definition busses_by_drive :: "u16 list" where
  "busses_by_drive = [ATA_PRIMARY_BASE, ATA_PRIMARY_BASE, ATA_SECONDARY_BASE, ATA_SECONDARY_BASE]"

text \<open>The presence test up to the registration; the result tells whether the drive answered.\<close>

definition ata_probe :: "'p ports \<Rightarrow> nat \<Rightarrow> bool \<Rightarrow> 'p \<Rightarrow> bool \<times> 'p" where
  "ata_probe io drive bus d =
     (let base = (if \<not> bus then busses_by_drive ! drive else ATA_SECONDARY_BASE);
          select = (if even drive then ATA_SELECT_SLAVE else ATA_SELECT_MASTER);
          d = io_outb io (base + ATA_REG_HDDEVSEL) select d;
          d = (ata_delay io ^^ 5) d;
          (status, d) = io_inb io (base + ATA_REG_STATUS) d
      in if status = 0xFF then (False, d)
         else case ata_wait_not_busy io d of
                (False, d) \<Rightarrow> (False, d)
              | (True, d) \<Rightarrow>
                  let d = io_outb io (base + ATA_REG_HDDEVSEL) (if drive \<noteq> 0 then ATA_LBA_SLAVE else ATA_LBA_MASTER) d;
                      d = ata_delay io d;
                      d = io_outb io (base + ATA_REG_SECCOUNT) 1 d;
                      d = io_outb io (base + ATA_REG_LBA_LO) 0 d;
                      d = io_outb io (base + ATA_REG_LBA_MID) 0 d;
                      d = io_outb io (base + ATA_REG_LBA_HI) 0 d;
                      d = io_outb io (base + ATA_REG_COMMAND) ATA_CMD_READ_PIO d;
                      d = ata_delay io d
                  in case ata_wait_not_busy io d of
                       (False, d) \<Rightarrow> (False, d)
                     | (True, d) \<Rightarrow>
                         let (status, d) = io_inb io (base + ATA_REG_STATUS) d
                         in if status AND ATA_SR_ERR \<noteq> 0 \<or> status AND ATA_SR_DRQ = 0 then (False, d)
                            else (True, ((\<lambda>d. snd (io_inw io (base + ATA_REG_DATA) d)) ^^ 256) d))"

definition ata_check_drive :: "'p ports \<Rightarrow> nat \<Rightarrow> bool \<Rightarrow> 'p ata fs_state \<Rightarrow> (int \<times> 'p ata fs_state) option" where
  "ata_check_drive io drive bus st =
     (let a = fs_dev st; a = a\<lparr>drive_present := (drive_present a)[drive := False]\<rparr>
      in case ata_probe io drive bus (hdw a) of
           (False, d) \<Rightarrow> Some (0, st\<lparr>fs_dev := a\<lparr>hdw := d\<rparr>\<rparr>)
         | (True, d) \<Rightarrow> do {
             let a = a\<lparr>hdw := d, drive_present := (drive_present a)[drive := True]\<rparr>;
             st \<leftarrow> register_kdrive (ata_kdrive io drive) (st\<lparr>fs_dev := a\<rparr>);
             Some (1, st)
           })"

definition ata_init :: "'p ports \<Rightarrow> 'p ata fs_state \<Rightarrow> (int \<times> 'p ata fs_state) option" where
  "ata_init io st = do {
     let a = fs_dev st;
     st \<leftarrow> register_kdrive (ata_kdrive io 1) (st\<lparr>fs_dev := a\<lparr>drive_present := (drive_present a)[1 := True]\<rparr>\<rparr>);
     (r, st) \<leftarrow> ata_check_drive io 0 False st;
     (r, st) \<leftarrow> ata_check_drive io 1 False st;
     Some (of_bool (drive_present (fs_dev st) ! 0) + of_bool (drive_present (fs_dev st) ! 1), st)
   }"

definition ata_drive_present :: "int \<Rightarrow> 'p ata \<Rightarrow> bool" where
  "ata_drive_present drive s = (if drive < 0 \<or> 1 < drive then False else drive_present s ! nat drive)"

definition drives_init :: "'p ports \<Rightarrow> 'p ata fs_state \<Rightarrow> 'p ata fs_state option" where
  "drives_init io st = map_option snd (ata_init io (st\<lparr>fs_drives := map (\<lambda>_. None) (fs_drives st)\<rparr>))"

end
