(* ===== verification/Ata_Props.thy ===== *)
theory Ata_Props
  imports Ata
begin

unbundle bit_operations_syntax

text \<open>
  The ATA driver against the documented protocol of programmed transfers: one-sector reads and writes on
  an idle channel return, and act on the medium as the file system expects of a drive.
\<close>

section \<open>The protocol\<close>

text \<open>What software can tell about a channel: the registers last written, whether a transfer is under way (with the sector,
  the words transferred and the sectors left), for how many more status reads the channel is busy, and the sectors
  of the two devices, of 256 words each.\<close>

datatype ata_phase = Idle | DataIn u32 nat nat | DataOut u32 "u16 list" nat

record ata_view =
  v_sel :: u8
  v_cnt :: u8
  v_lo :: u8
  v_mid :: u8
  v_hi :: u8
  v_phase :: ata_phase
  v_busy :: nat
  v_medium :: "bool \<Rightarrow> u32 \<Rightarrow> u16 list"

definition lba28 :: "ata_view \<Rightarrow> u32" where
  "lba28 v = ucast (v_lo v) OR push_bit 8 (ucast (v_mid v)) OR push_bit 16 (ucast (v_hi v)) OR
     push_bit 24 (ucast (v_sel v AND 0x0F))"

definition v_slave :: "ata_view \<Rightarrow> bool" where
  "v_slave v = bit (v_sel v) 4"

definition quiet :: "ata_view \<Rightarrow> bool" where
  "quiet v \<longleftrightarrow> v_phase v = Idle \<and> v_busy v = 0"

text \<open>The phase after a word of a read, and the view after a word of a write.\<close>

definition next_in :: "u32 \<Rightarrow> nat \<Rightarrow> nat \<Rightarrow> ata_phase" where
  "next_in a i k = (if i < 255 then DataIn a (i + 1) k else if k = 1 then Idle else DataIn (a + 1) 0 (k - 1))"

definition put_word :: "u32 \<Rightarrow> u16 list \<Rightarrow> nat \<Rightarrow> u16 \<Rightarrow> ata_view \<Rightarrow> ata_view" where
  "put_word a ws k w v =
     (if length ws < 255 then v\<lparr>v_phase := DataOut a (ws @ [w]) k\<rparr>
      else v\<lparr>v_phase := (if k = 1 then Idle else DataOut (a + 1) [] (k - 1)),
             v_medium := (v_medium v)(v_slave v := (v_medium v (v_slave v))(a := ws @ [w]))\<rparr>)"

text \<open>\<open>busy_to v w\<close>: \<open>w\<close>, except that the channel may be busy for fewer than 100000 status reads.\<close>

definition busy_to :: "ata_view \<Rightarrow> ata_view \<Rightarrow> bool" where
  "busy_to v w \<longleftrightarrow> (\<exists>n < 100000. v = w\<lparr>v_busy := n\<rparr>)"

text \<open>After the last word of a sector the channel may become busy.\<close>

definition word_done :: "bool \<Rightarrow> ata_view \<Rightarrow> ata_view \<Rightarrow> bool" where
  "word_done final v w \<longleftrightarrow> (if final then busy_to v w else v = w)"

definition status_ok :: "u8 \<Rightarrow> ata_view \<Rightarrow> bool" where
  "status_ok st v \<longleftrightarrow> st \<noteq> 0xFF \<and> (if 0 < v_busy v then st AND ATA_SR_BSY \<noteq> 0
     else st AND ATA_SR_BSY = 0 \<and> st AND ATA_SR_ERR = 0 \<and> (st AND ATA_SR_DRQ \<noteq> 0) = (v_phase v \<noteq> Idle))"

text \<open>The behaviour of the hardware behind the ports that the driver relies on.\<close>

definition ata_channel :: "'p ports \<Rightarrow> ('p \<Rightarrow> ata_view) \<Rightarrow> bool" where
  "ata_channel io view \<longleftrightarrow> (\<forall>d.
     view (snd (io_inb io 0x3F6 d)) = view d \<and>
     view (snd (io_inb io 0x1F7 d)) = (view d)\<lparr>v_busy := v_busy (view d) - 1\<rparr> \<and>
     status_ok (fst (io_inb io 0x1F7 d)) (view d) \<and>
     (\<forall>dev a. length (v_medium (view d) dev a) = 256) \<and>
     (\<forall>x. quiet (view d) \<longrightarrow>
        view (io_outb io 0x1F6 x d) = (view d)\<lparr>v_sel := x\<rparr> \<and>
        view (io_outb io 0x1F2 x d) = (view d)\<lparr>v_cnt := x\<rparr> \<and>
        view (io_outb io 0x1F3 x d) = (view d)\<lparr>v_lo := x\<rparr> \<and>
        view (io_outb io 0x1F4 x d) = (view d)\<lparr>v_mid := x\<rparr> \<and>
        view (io_outb io 0x1F5 x d) = (view d)\<lparr>v_hi := x\<rparr>) \<and>
     (quiet (view d) \<longrightarrow> v_cnt (view d) \<noteq> 0 \<longrightarrow>
        busy_to (view (io_outb io 0x1F7 0x20 d)) ((view d)\<lparr>v_phase := DataIn (lba28 (view d)) 0 (unat (v_cnt (view d)))\<rparr>) \<and>
        busy_to (view (io_outb io 0x1F7 0x30 d)) ((view d)\<lparr>v_phase := DataOut (lba28 (view d)) [] (unat (v_cnt (view d)))\<rparr>)) \<and>
     (v_phase (view d) = Idle \<longrightarrow> busy_to (view (io_outb io 0x1F7 0xE7 d)) (view d)) \<and>
     (\<forall>a i k. v_phase (view d) = DataIn a i k \<longrightarrow> v_busy (view d) = 0 \<longrightarrow> i < 256 \<longrightarrow>
        fst (io_inw io 0x1F0 d) = v_medium (view d) (v_slave (view d)) a ! i \<and>
        word_done (i = 255) (view (snd (io_inw io 0x1F0 d))) ((view d)\<lparr>v_phase := next_in a i k\<rparr>)) \<and>
     (\<forall>a ws k w. v_phase (view d) = DataOut a ws k \<longrightarrow> v_busy (view d) = 0 \<longrightarrow> length ws < 256 \<longrightarrow>
        word_done (length ws = 255) (view (io_outw io 0x1F0 w d)) (put_word a ws k w (view d))))"

section \<open>Waiting\<close>

lemma ata_channelD:
  assumes "ata_channel io view"
  shows "view (snd (io_inb io 0x3F6 d)) = view d"
    "view (snd (io_inb io 0x1F7 d)) = (view d)\<lparr>v_busy := v_busy (view d) - 1\<rparr>" "status_ok (fst (io_inb io 0x1F7 d)) (view d)"
    "length (v_medium (view d) dev a) = 256"
    "quiet (view d) \<Longrightarrow> view (io_outb io 0x1F6 x d) = (view d)\<lparr>v_sel := x\<rparr>"
    "quiet (view d) \<Longrightarrow> view (io_outb io 0x1F2 x d) = (view d)\<lparr>v_cnt := x\<rparr>"
    "quiet (view d) \<Longrightarrow> view (io_outb io 0x1F3 x d) = (view d)\<lparr>v_lo := x\<rparr>"
    "quiet (view d) \<Longrightarrow> view (io_outb io 0x1F4 x d) = (view d)\<lparr>v_mid := x\<rparr>"
    "quiet (view d) \<Longrightarrow> view (io_outb io 0x1F5 x d) = (view d)\<lparr>v_hi := x\<rparr>"
    "quiet (view d) \<Longrightarrow> v_cnt (view d) \<noteq> 0 \<Longrightarrow>
       busy_to (view (io_outb io 0x1F7 0x20 d)) ((view d)\<lparr>v_phase := DataIn (lba28 (view d)) 0 (unat (v_cnt (view d)))\<rparr>)"
    "quiet (view d) \<Longrightarrow> v_cnt (view d) \<noteq> 0 \<Longrightarrow>
       busy_to (view (io_outb io 0x1F7 0x30 d)) ((view d)\<lparr>v_phase := DataOut (lba28 (view d)) [] (unat (v_cnt (view d)))\<rparr>)"
    "v_phase (view d) = Idle \<Longrightarrow> busy_to (view (io_outb io 0x1F7 0xE7 d)) (view d)"
  using assms unfolding ata_channel_def by blast+

lemma ata_channel_data:
  assumes "ata_channel io view" "v_busy (view d) = 0"
  shows "v_phase (view d) = DataIn a i k \<Longrightarrow> i < 256 \<Longrightarrow>
       fst (io_inw io 0x1F0 d) = v_medium (view d) (v_slave (view d)) a ! i \<and>
       word_done (i = 255) (view (snd (io_inw io 0x1F0 d))) ((view d)\<lparr>v_phase := next_in a i k\<rparr>)"
    "v_phase (view d) = DataOut a ws k \<Longrightarrow> length ws < 256 \<Longrightarrow>
       word_done (length ws = 255) (view (io_outw io 0x1F0 w d)) (put_word a ws k w (view d))"
  using assms unfolding ata_channel_def by blast+

lemma ata_ports [simp]:
  "ATA_PRIMARY_BASE + ATA_REG_STATUS = 0x1F7" "ATA_PRIMARY_BASE + ATA_REG_COMMAND = 0x1F7" "ATA_PRIMARY_BASE + ATA_REG_DATA = 0x1F0"
  "ATA_PRIMARY_BASE + ATA_REG_HDDEVSEL = 0x1F6" "ATA_PRIMARY_BASE + ATA_REG_SECCOUNT = 0x1F2"
  "ATA_PRIMARY_BASE + ATA_REG_LBA_LO = 0x1F3" "ATA_PRIMARY_BASE + ATA_REG_LBA_MID = 0x1F4" "ATA_PRIMARY_BASE + ATA_REG_LBA_HI = 0x1F5"
  by (simp_all add: ATA_PRIMARY_BASE_def ATA_REG_STATUS_def ATA_REG_COMMAND_def ATA_REG_DATA_def ATA_REG_HDDEVSEL_def
      ATA_REG_SECCOUNT_def ATA_REG_LBA_LO_def ATA_REG_LBA_MID_def ATA_REG_LBA_HI_def)

lemma wait_bsy_ok:
  assumes c: "ata_channel io view" and b: "v_busy (view d) < n"
  shows "\<exists>d'. wait_bsy io n d = (True, d') \<and> view d' = (view d)\<lparr>v_busy := 0\<rparr>"
  using b
proof (induction n arbitrary: d)
  case (Suc n)
  obtain st d1 where r: "io_inb io 0x1F7 d = (st, d1)" by fastforce
  have v: "view d1 = (view d)\<lparr>v_busy := v_busy (view d) - 1\<rparr>" "status_ok st (view d)"
    using ata_channelD(2,3) [OF c, of d] r by simp_all
  show ?case
  proof (cases "v_busy (view d) = 0")
    case True
    then show ?thesis using r v by (simp add: status_ok_def)
  next
    case False
    then have "v_busy (view d1) < n" using Suc.prems v(1) by simp
    from Suc.IH [OF this] show ?thesis using False r v by (simp add: status_ok_def)
  qed
qed simp

lemma wait_drq_ok:
  assumes c: "ata_channel io view" and b: "v_busy (view d) = 0" "v_phase (view d) \<noteq> Idle" "0 < n"
  shows "\<exists>d'. wait_drq io n d = (True, d') \<and> view d' = view d"
proof -
  obtain m where m: "n = Suc m" using b(3) by (cases n) auto
  obtain st d1 where r: "io_inb io 0x1F7 d = (st, d1)" by fastforce
  have "view d1 = view d" "status_ok st (view d)"
    using ata_channelD(2,3) [OF c, of d] r b(1) by simp_all
  then show ?thesis using r b m by (simp add: status_ok_def)
qed

lemma ata_delay_view: "ata_channel io view \<Longrightarrow> view (ata_delay io d) = view d"
  by (simp add: ata_delay_def ATA_PRIMARY_CTRL_def numeral_eq_Suc ata_channelD(1))

section \<open>One sector\<close>

lemma lba28_split:
  assumes "unat (lba :: u32) < 2 ^ 28"
  shows "ucast (ucast lba :: u8) OR push_bit 8 (ucast (ucast (drop_bit 8 lba) :: u8)) OR
     push_bit 16 (ucast (ucast (drop_bit 16 lba) :: u8)) OR
     push_bit 24 (ucast (((if s then ATA_LBA_SLAVE else ATA_LBA_MASTER) OR ucast (drop_bit 24 lba AND 0x0F) :: u8) AND 0x0F)) = lba"
    and "bit ((if s then ATA_LBA_SLAVE else ATA_LBA_MASTER) OR ucast (drop_bit 24 lba AND 0x0F) :: u8) 4 = s"
proof -
  have m: "(0x0F :: u8) = mask 4" "(0x0F :: u32) = mask 4" by (simp_all add: mask_eq_exp_minus_1)
  have hi: "\<not> bit lba n" if "28 \<le> n" for n
  proof -
    have "take_bit 28 lba = lba" using assms by (simp add: word_unat_eq_iff take_bit_eq_mod unat_mod)
    then show ?thesis using that by (metis bit_take_bit_iff not_le)
  qed
  have sel: "((if s then ATA_LBA_SLAVE else ATA_LBA_MASTER) OR ucast (drop_bit 24 lba AND 0x0F) :: u8) AND 0x0F =
      ucast (drop_bit 24 lba AND 0x0F)"
  proof -
    have "(ATA_LBA_SLAVE AND 0x0F) = 0" "(ATA_LBA_MASTER AND 0x0F) = 0" by (simp_all add: ATA_LBA_SLAVE_def ATA_LBA_MASTER_def)
    moreover have "(ucast (drop_bit 24 lba AND 0x0F) :: u8) AND 0x0F = ucast (drop_bit 24 lba AND 0x0F)"
      unfolding m by (rule bit_word_eqI) (auto simp: bit_simps)
    ultimately show ?thesis by (simp add: bit.conj_disj_distrib2)
  qed
  show "ucast (ucast lba :: u8) OR push_bit 8 (ucast (ucast (drop_bit 8 lba) :: u8)) OR
     push_bit 16 (ucast (ucast (drop_bit 16 lba) :: u8)) OR
     push_bit 24 (ucast (((if s then ATA_LBA_SLAVE else ATA_LBA_MASTER) OR ucast (drop_bit 24 lba AND 0x0F) :: u8) AND 0x0F)) = lba"
  proof (unfold sel, unfold m, rule bit_word_eqI)
    fix n :: nat
    assume n: "n < LENGTH(32)"
    consider "n < 8" | "8 \<le> n" "n < 16" | "16 \<le> n" "n < 24" | "24 \<le> n" "n < 28" | "28 \<le> n" by linarith
    then show "bit (ucast (ucast lba :: u8) OR push_bit 8 (ucast (ucast (drop_bit 8 lba) :: u8)) OR
        push_bit 16 (ucast (ucast (drop_bit 16 lba) :: u8)) OR
        push_bit 24 (ucast (ucast (drop_bit 24 lba AND mask 4) :: u8)) :: u32) n = bit lba n"
      using n hi [of n] by cases (auto simp: bit_simps)
  qed
  have "\<not> bit (ucast (drop_bit 24 lba AND 0x0F) :: u8) 4" unfolding m by (auto simp: bit_simps)
  moreover have "bit ATA_LBA_SLAVE 4" "\<not> bit ATA_LBA_MASTER 4"
    by (simp_all add: ATA_LBA_SLAVE_def ATA_LBA_MASTER_def)
  ultimately show "bit ((if s then ATA_LBA_SLAVE else ATA_LBA_MASTER) OR ucast (drop_bit 24 lba AND 0x0F) :: u8) 4 = s"
    by (simp add: bit_or_iff)
qed

text \<open>The registers that a command for one sector finds.\<close>

lemma ata_command_view:
  assumes c: "ata_channel io view" and q: "quiet (view d)" and lba: "unat lba < 2 ^ 28"
  obtains v where "quiet v" "v_cnt v = 1" "lba28 v = lba" "v_slave v = (drive \<noteq> 0)" "v_medium v = v_medium (view d)"
    "busy_to (view (ata_command io drive lba 1 ATA_CMD_READ_PIO d)) (v\<lparr>v_phase := DataIn lba 0 1\<rparr>)"
    "busy_to (view (ata_command io drive lba 1 ATA_CMD_WRITE_PIO d)) (v\<lparr>v_phase := DataOut lba [] 1\<rparr>)"
proof -
  define sel :: u8 where "sel = (if drive \<noteq> 0 then ATA_LBA_SLAVE else ATA_LBA_MASTER) OR ucast (drop_bit 24 lba AND 0x0F)"
  define v where "v = (view d)\<lparr>v_sel := sel, v_cnt := 1, v_lo := ucast lba, v_mid := ucast (drop_bit 8 lba),
     v_hi := ucast (drop_bit 16 lba)\<rparr>"
  define d6 where "d6 = io_outb io 0x1F5 (ucast (drop_bit 16 lba)) (io_outb io 0x1F4 (ucast (drop_bit 8 lba))
     (io_outb io 0x1F3 (ucast lba) (io_outb io 0x1F2 1 (ata_delay io (io_outb io 0x1F6 sel d)))))"
  have vd: "view d6 = v"
    using q unfolding d6_def v_def by (simp add: ata_channelD(5-9) [OF c] ata_delay_view [OF c] quiet_def)
  have l: "lba28 v = lba" "v_slave v = (drive \<noteq> 0)"
    using lba28_split [OF lba, of "drive \<noteq> 0"] by (simp_all add: lba28_def v_def sel_def v_slave_def)
  have q6: "quiet v" "v_cnt v = 1" "v_medium v = v_medium (view d)" using q by (simp_all add: v_def quiet_def)
  have cmd: "ata_command io drive lba 1 x d = io_outb io 0x1F7 x d6" for x
    by (simp add: ata_command_def Let_def d6_def sel_def)
  show thesis
    using ata_channelD(10,11) [OF c, of d6] q6 l unfolding vd
    by (intro that [of v]) (simp_all add: cmd ATA_CMD_READ_PIO_def ATA_CMD_WRITE_PIO_def)
qed

lemma read_words_view:
  assumes c: "ata_channel io view" and p: "v_phase (view d) = DataIn a i 1" "v_busy (view d) = 0" "i + n = 256" "0 < n"
  shows "fst (read_words io n d) = concat (map le16 (drop i (v_medium (view d) (v_slave (view d)) a))) \<and>
     busy_to (view (snd (read_words io n d))) ((view d)\<lparr>v_phase := Idle\<rparr>)"
  using p
proof (induction n arbitrary: d i)
  case (Suc n)
  obtain w d1 where r: "io_inw io 0x1F0 d = (w, d1)" by fastforce
  have i: "i < 256" using Suc.prems(3) by simp
  let ?ws = "v_medium (view d) (v_slave (view d)) a"
  have w: "w = ?ws ! i" "word_done (i = 255) (view d1) ((view d)\<lparr>v_phase := next_in a i 1\<rparr>)"
    using ata_channel_data(1) [OF c Suc.prems(2,1) i] r by simp_all
  have "drop i ?ws = w # drop (Suc i) ?ws" using i w(1) ata_channelD(4) [OF c] by (simp add: Cons_nth_drop_Suc)
  moreover obtain bs d2 where r2: "read_words io n d1 = (bs, d2)" by fastforce
  moreover have "bs = concat (map le16 (drop (Suc i) ?ws)) \<and> busy_to (view d2) ((view d)\<lparr>v_phase := Idle\<rparr>)"
  proof (cases n)
    case 0
    then show ?thesis using r2 w(2) Suc.prems(3) ata_channelD(4) [OF c] by (simp add: word_done_def next_in_def)
  next
    case (Suc m)
    then have v1: "view d1 = (view d)\<lparr>v_phase := DataIn a (Suc i) 1\<rparr>"
      using w(2) Suc.prems(3) by (simp add: word_done_def next_in_def)
    then have "v_slave (view d1) = v_slave (view d)" by (simp add: v_slave_def)
    then show ?thesis using Suc.IH [of d1 "Suc i"] v1 Suc.prems(2,3) Suc r2 by (simp add: v_slave_def)
  qed
  ultimately show ?case using r by simp
qed simp

lemma write_words_view:
  assumes c: "ata_channel io view" and b: "length b = 512"
    and p: "v_phase (view d) = DataOut a ws 1" "v_busy (view d) = 0" "length ws + n = 256" "0 < n" "j = 2 * length ws"
  shows "busy_to (view (write_words io n j b d)) ((view d)\<lparr>v_phase := Idle,
     v_medium := (v_medium (view d))(v_slave (view d) := (v_medium (view d) (v_slave (view d)))
        (a := ws @ map (\<lambda>k. buf16 b (j + 2 * k)) [0..<n]))\<rparr>)"
  using p
proof (induction n arbitrary: d ws j)
  case (Suc n)
  let ?d1 = "io_outw io 0x1F0 (buf16 b j) d"
  have w: "word_done (length ws = 255) (view ?d1) (put_word a ws 1 (buf16 b j) (view d))"
    using ata_channel_data(2) [OF c Suc.prems(2,1)] Suc.prems(3) by simp
  have ext: "ws @ map (\<lambda>k. buf16 b (j + 2 * k)) [0..<Suc n] = (ws @ [buf16 b j]) @ map (\<lambda>k. buf16 b (j + 2 + 2 * k)) [0..<n]"
    by (simp add: upt_conv_Cons map_Suc_upt [symmetric] del: upt_Suc)
  show ?case
  proof (cases n)
    case 0
    then have "length ws = 255" using Suc.prems(3) by simp
    then have "busy_to (view ?d1) (put_word a ws 1 (buf16 b j) (view d))" using w by (simp only: word_done_def if_True)
    then show ?thesis using \<open>length ws = 255\<close> unfolding ext 0
      by (simp add: put_word_def del: fun_upd_apply)
  next
    case (Suc m)
    then have v1: "view ?d1 = (view d)\<lparr>v_phase := DataOut a (ws @ [buf16 b j]) 1\<rparr>"
      using w Suc.prems(3) by (simp add: word_done_def put_word_def)
    then show ?thesis
      using Suc.IH [of ?d1 "ws @ [buf16 b j]" "j + 2"] Suc.prems(2,3,5) Suc unfolding ext by (simp add: v_slave_def)
  qed
qed simp

section \<open>Properties\<close>

definition sector_bytes :: "u16 list \<Rightarrow> u8 list" where
  "sector_bytes ws = concat (map le16 ws)"

text \<open>An idle channel, possibly still busy for less than a million status reads.\<close>

definition ata_ready :: "ata_view \<Rightarrow> bool" where
  "ata_ready v \<longleftrightarrow> v_phase v = Idle \<and> v_busy v < 1000000"

lemma busy_toE:
  assumes "busy_to v w" obtains n where "n < 100000" "v = w\<lparr>v_busy := n\<rparr>"
  using assms by (auto simp: busy_to_def)

lemma wait_then_command:
  assumes c: "ata_channel io view" and r: "ata_ready (view d)"
  obtains d1 where "ata_wait_not_busy io d = (True, d1)" "quiet (view d1)" "v_medium (view d1) = v_medium (view d)"
  using wait_bsy_ok [OF c, of d 1000000] r that by (auto simp: ata_wait_not_busy_def ata_ready_def quiet_def)

text \<open>After a command that starts a transfer: not busy any more, data requested.\<close>

lemma wait_for_data:
  assumes c: "ata_channel io view" and b: "busy_to (view d) v" "v_phase v \<noteq> Idle"
  obtains d1 d2 where "ata_wait_not_busy io d = (True, d1)" "ata_poll_drq io d1 = (True, d2)" "view d2 = v\<lparr>v_busy := 0\<rparr>"
proof -
  obtain n where n: "n < 100000" "view d = v\<lparr>v_busy := n\<rparr>" using b(1) by (rule busy_toE)
  then obtain d1 where d1: "ata_wait_not_busy io d = (True, d1)" "view d1 = v\<lparr>v_busy := 0\<rparr>"
    using wait_bsy_ok [OF c, of d 1000000] by (auto simp: ata_wait_not_busy_def)
  then obtain d2 where "ata_poll_drq io d1 = (True, d2)" "view d2 = view d1"
    using wait_drq_ok [OF c, of d1 100000] b(2) by (auto simp: ata_poll_drq_def)
  then show thesis using that d1 by simp
qed

lemma ata_read_one:
  assumes c: "ata_channel io view" and r: "ata_ready (view (hdw s))" and p: "drive_present s ! drive" and lba: "unat lba < 2 ^ 28"
  shows "\<exists>s'. ata_read_sectors io drive lba 1 s = (1, sector_bytes (v_medium (view (hdw s)) (drive \<noteq> 0) lba), s') \<and>
     ata_ready (view (hdw s')) \<and> v_medium (view (hdw s')) = v_medium (view (hdw s)) \<and> drive_present s' = drive_present s"
proof -
  obtain d1 where d1: "ata_wait_not_busy io (hdw s) = (True, d1)" "quiet (view d1)" "v_medium (view d1) = v_medium (view (hdw s))"
    using wait_then_command [OF c r] .
  obtain v where v: "v_slave v = (drive \<noteq> 0)" "v_medium v = v_medium (view d1)"
    "busy_to (view (ata_command io drive lba 1 ATA_CMD_READ_PIO d1)) (v\<lparr>v_phase := DataIn lba 0 1\<rparr>)"
    using ata_command_view [OF c d1(2) lba] by metis
  obtain d2 d3 where d3: "ata_wait_not_busy io (ata_command io drive lba 1 ATA_CMD_READ_PIO d1) = (True, d2)"
    "ata_poll_drq io d2 = (True, d3)" "view d3 = v\<lparr>v_phase := DataIn lba 0 1, v_busy := 0\<rparr>"
    using wait_for_data [OF c v(3)] by auto
  obtain bs d4 where rw: "read_words io 256 d3 = (bs, d4)" by fastforce
  have "bs = sector_bytes (v_medium v (v_slave v) lba)" "busy_to (view d4) (v\<lparr>v_busy := 0, v_phase := Idle\<rparr>)"
    using read_words_view [OF c, of d3 lba 0 256] d3(3) rw by (simp_all add: sector_bytes_def v_slave_def)
  moreover from this(2) have "ata_ready (view d4)" "v_medium (view d4) = v_medium v" by (auto simp: busy_to_def ata_ready_def)
  ultimately show ?thesis
    using p d1 d3(1,2) rw v(1,2) by (simp add: ata_read_sectors_def)
qed

lemma words_of_bytes:
  assumes "length b = 2 * n"
  shows "concat (map le16 (map (\<lambda>k. buf16 b (2 * k)) [0..<n])) = b"
proof -
  have le: "le16 (buf16 b (2 * k)) = [b ! (2 * k), b ! (2 * k + 1)]" if "k < n" for k
    unfolding le16_def buf16_def by (simp, safe; rule bit_word_eqI; auto simp: bit_simps dest: bit_imp_le_length)
  have "concat (map (\<lambda>k. [b ! (2 * k), b ! (2 * k + 1)]) [0..<m]) = take (2 * m) b" if "m \<le> n" for m
    using that assms by (induction m) (auto simp: take_Suc_conv_app_nth)
  from this [of n] have "concat (map (\<lambda>k. [b ! (2 * k), b ! (2 * k + 1)]) [0..<n]) = b" using assms by simp
  moreover have "map le16 (map (\<lambda>k. buf16 b (2 * k)) [0..<n]) = map (\<lambda>k. [b ! (2 * k), b ! (2 * k + 1)]) [0..<n]"
    using le by simp
  ultimately show ?thesis by (simp only:)
qed

lemma ata_write_one:
  assumes c: "ata_channel io view" and r: "ata_ready (view (hdw s))" and p: "drive_present s ! drive" and lba: "unat lba < 2 ^ 28"
    and b: "length b = 512"
  shows "\<exists>s'. ata_write_sectors io drive lba 1 b s = (0, s') \<and> ata_ready (view (hdw s')) \<and> drive_present s' = drive_present s \<and>
     v_medium (view (hdw s')) = (v_medium (view (hdw s)))(drive \<noteq> 0 := (v_medium (view (hdw s)) (drive \<noteq> 0))
        (lba := map (\<lambda>k. buf16 b (2 * k)) [0..<256]))"
proof -
  let ?ws = "map (\<lambda>k. buf16 b (2 * k)) [0..<256]"
  obtain d1 where d1: "ata_wait_not_busy io (hdw s) = (True, d1)" "quiet (view d1)" "v_medium (view d1) = v_medium (view (hdw s))"
    using wait_then_command [OF c r] .
  obtain v where v: "v_slave v = (drive \<noteq> 0)" "v_medium v = v_medium (view d1)"
    "busy_to (view (ata_command io drive lba 1 ATA_CMD_WRITE_PIO d1)) (v\<lparr>v_phase := DataOut lba [] 1\<rparr>)"
    using ata_command_view [OF c d1(2) lba] by metis
  obtain d2 d3 where d3: "ata_wait_not_busy io (ata_command io drive lba 1 ATA_CMD_WRITE_PIO d1) = (True, d2)"
    "ata_poll_drq io d2 = (True, d3)" "view d3 = v\<lparr>v_phase := DataOut lba [] 1, v_busy := 0\<rparr>"
    using wait_for_data [OF c v(3)] by auto
  let ?d4 = "write_words io 256 0 b d3"
  define w where "w = v\<lparr>v_busy := 0, v_phase := Idle, v_medium := (v_medium v)(v_slave v := (v_medium v (v_slave v))(lba := ?ws))\<rparr>"
  have "busy_to (view ?d4) w"
    using write_words_view [OF c b, of d3 lba "[]" 256 0] d3(3) unfolding w_def by (simp add: v_slave_def del: upt_rec_numeral)
  then have v4: "v_phase (view ?d4) = Idle" "v_medium (view ?d4) = v_medium w" by (auto simp: busy_to_def w_def)
  have "busy_to (view (io_outb io 0x1F7 ATA_CMD_FLUSH ?d4)) (view ?d4)"
    using ata_channelD(12) [OF c v4(1)] by (simp add: ATA_CMD_FLUSH_def)
  then obtain n where n: "n < 100000" "view (io_outb io 0x1F7 ATA_CMD_FLUSH ?d4) = (view ?d4)\<lparr>v_busy := n\<rparr>" by (rule busy_toE)
  then have rdy: "ata_ready (view (io_outb io 0x1F7 ATA_CMD_FLUSH ?d4))" using v4(1) by (simp add: ata_ready_def)
  obtain d5 where d5: "ata_wait_not_busy io (io_outb io 0x1F7 ATA_CMD_FLUSH ?d4) = (True, d5)" "quiet (view d5)"
    "v_medium (view d5) = v_medium (view (io_outb io 0x1F7 ATA_CMD_FLUSH ?d4))"
    using wait_then_command [OF c rdy] .
  then have "v_medium (view d5) = (v_medium v)(v_slave v := (v_medium v (v_slave v))(lba := ?ws))" "ata_ready (view d5)"
    using n(2) v4(2) by (simp_all add: w_def quiet_def ata_ready_def)
  then show ?thesis
    using p d1 d3(1,2) d5(1) v(1,2) by (simp add: ata_write_sectors_def del: upt_rec_numeral)
qed


text \<open>A device that follows the protocol, with a medium of sectors padded to 256 words.\<close>

definition pad256 :: "u16 list \<Rightarrow> u16 list" where
  "pad256 ws = take 256 (ws @ replicate 256 0)"

definition pio_view :: "ata_view \<Rightarrow> ata_view" where
  "pio_view d = d\<lparr>v_medium := (\<lambda>dev a. pad256 (v_medium d dev a))\<rparr>"

definition pio_outb :: "u16 \<Rightarrow> u8 \<Rightarrow> ata_view \<Rightarrow> ata_view" where
  "pio_outb port x d =
     (if port = 0x1F6 then d\<lparr>v_sel := x\<rparr> else if port = 0x1F2 then d\<lparr>v_cnt := x\<rparr> else if port = 0x1F3 then d\<lparr>v_lo := x\<rparr>
      else if port = 0x1F4 then d\<lparr>v_mid := x\<rparr> else if port = 0x1F5 then d\<lparr>v_hi := x\<rparr>
      else if port = 0x1F7 \<and> x = 0x20 then d\<lparr>v_busy := 3, v_phase := DataIn (lba28 d) 0 (unat (v_cnt d))\<rparr>
      else if port = 0x1F7 \<and> x = 0x30 then d\<lparr>v_busy := 2, v_phase := DataOut (lba28 d) [] (unat (v_cnt d))\<rparr>
      else if port = 0x1F7 \<and> x = 0xE7 then d\<lparr>v_busy := 5\<rparr> else d)"

definition pio_inw :: "ata_view \<Rightarrow> u16 \<times> ata_view" where
  "pio_inw d = (case v_phase d of
     DataIn a i k \<Rightarrow> (pad256 (v_medium d (v_slave d) a) ! i, d\<lparr>v_phase := next_in a i k\<rparr>) | _ \<Rightarrow> (0, d))"

definition pio_device :: "ata_view ports" where
  "pio_device = \<lparr>
     io_inb = (\<lambda>port d. if port = 0x1F7
        then (if 0 < v_busy d then 0x80 else if v_phase d = Idle then 0x40 else 0x48, d\<lparr>v_busy := v_busy d - 1\<rparr>) else (0, d)),
     io_outb = pio_outb, io_inw = (\<lambda>port. pio_inw),
     io_outw = (\<lambda>port w d. case v_phase d of DataOut a ws k \<Rightarrow> put_word a ws k w d | _ \<Rightarrow> d),
     io_inl = (\<lambda>port d. (0, d)), io_outl = (\<lambda>port w d. d)\<rparr>"

lemma pio_view_simps [simp]:
  "v_sel (pio_view d) = v_sel d" "v_cnt (pio_view d) = v_cnt d" "v_phase (pio_view d) = v_phase d" "v_busy (pio_view d) = v_busy d"
  "v_medium (pio_view d) dev a = pad256 (v_medium d dev a)" "v_slave (pio_view d) = v_slave d" "lba28 (pio_view d) = lba28 d"
  "length (pad256 ws) = 256" "quiet (pio_view d) = quiet d"
  by (simp_all add: pio_view_def pad256_def v_slave_def lba28_def quiet_def)

lemma pio_put_word: "length ws < 256 \<Longrightarrow> pio_view (put_word a ws k w d) = put_word a ws k w (pio_view d)"
proof -
  assume "length ws < 256"
  then have "length ws < 255 \<or> length ws = 255" by linarith
  moreover have "pad256 (ws @ [w]) = ws @ [w]" if "length ws = 255" using that by (simp add: pad256_def)
  ultimately show ?thesis by (auto simp: put_word_def pio_view_def v_slave_def fun_eq_iff)
qed

lemma busy_to_trivial: "v_busy w < 100000 \<Longrightarrow> busy_to w w"
  unfolding busy_to_def by (intro exI [of _ "v_busy w"]) simp

lemma pio_device_channel: "ata_channel pio_device pio_view"
proof -
  have cmd: "busy_to (pio_view (pio_outb 0x1F7 0x20 d)) ((pio_view d)\<lparr>v_phase := DataIn (lba28 d) 0 (unat (v_cnt d))\<rparr>)"
    "busy_to (pio_view (pio_outb 0x1F7 0x30 d)) ((pio_view d)\<lparr>v_phase := DataOut (lba28 d) [] (unat (v_cnt d))\<rparr>)"
    "busy_to (pio_view (pio_outb 0x1F7 0xE7 d)) (pio_view d)" for d
    unfolding busy_to_def
    by (rule exI [of _ 3], simp add: pio_outb_def pio_view_def, rule exI [of _ 2], simp add: pio_outb_def pio_view_def,
        rule exI [of _ 5], simp add: pio_outb_def pio_view_def)
  have sel: "pio_view (pio_outb 0x1F6 x d) = (pio_view d)\<lparr>v_sel := x\<rparr>" "pio_view (pio_outb 0x1F2 x d) = (pio_view d)\<lparr>v_cnt := x\<rparr>"
    "pio_view (pio_outb 0x1F3 x d) = (pio_view d)\<lparr>v_lo := x\<rparr>" "pio_view (pio_outb 0x1F4 x d) = (pio_view d)\<lparr>v_mid := x\<rparr>"
    "pio_view (pio_outb 0x1F5 x d) = (pio_view d)\<lparr>v_hi := x\<rparr>" for x d
    by (simp_all add: pio_outb_def pio_view_def)
  have st: "pio_view (d\<lparr>v_busy := n\<rparr>) = (pio_view d)\<lparr>v_busy := n\<rparr>" "pio_view (d\<lparr>v_phase := p\<rparr>) = (pio_view d)\<lparr>v_phase := p\<rparr>"
    for d n p by (simp_all add: pio_view_def)
  have wd: "word_done b v v" if "v_busy v = 0" for b v using that busy_to_trivial [of v] by (simp add: word_done_def)
  have pb: "v_busy (put_word a ws k w v) = v_busy v" for a ws k w v by (simp add: put_word_def)
  show ?thesis
    unfolding ata_channel_def
    by (intro allI conjI impI)
      (simp_all add: pio_device_def cmd sel st wd pb pio_inw_def pio_put_word status_ok_def
        ATA_SR_BSY_def ATA_SR_ERR_def ATA_SR_DRQ_def)
qed

definition pio_state :: "ata_view ata" where
  "pio_state = \<lparr>hdw = \<lparr>v_sel = 0, v_cnt = 0, v_lo = 0, v_mid = 0, v_hi = 0, v_phase = Idle, v_busy = 7,
     v_medium = (\<lambda>dev a. [ucast a])\<rparr>, drive_present = [True, True, False, False]\<rparr>"


end
