(* ===== verification/Interrupts.thy ===== *)
theory Interrupts
  imports Ports Paging "HOL-Library.Monad_Syntax"
begin

unbundle bit_operations_syntax

text \<open>
  Interrupts: the descriptor table (\<open>kernel/drivers/tables/idt\<close>), exceptions (\<open>tables/isr\<close>), interrupt requests
  (\<open>tables/irq\<close>) and the two interrupt controllers (\<open>kernel/drivers/apic\<close>).

  The processor and the controllers are a parameter: ports, the memory-mapped registers of the two controllers, by word
  index, model-specific registers and \<open>cpuid\<close>.  The entry points in assembly are tables of addresses.  A handler acts on
  the hardware and on the rest of the kernel, of type \<open>'s\<close>; \<open>None\<close> is an access outside an array, here or in a handler, and in \<open>send_ipi\<close> a wait
  that does not end.
\<close>

section \<open>Hardware\<close>

record 'p apic_hw =
  cpu_ports :: "'p ports"
  lapic_load :: "u32 \<Rightarrow> 'p \<Rightarrow> u32 \<times> 'p"
  lapic_store :: "u32 \<Rightarrow> u32 \<Rightarrow> 'p \<Rightarrow> 'p"
  ioapic_load :: "u32 \<Rightarrow> 'p \<Rightarrow> u32 \<times> 'p"
  ioapic_store :: "u32 \<Rightarrow> u32 \<Rightarrow> 'p \<Rightarrow> 'p"
  msr_read :: "u32 \<Rightarrow> 'p \<Rightarrow> u64"
  msr_write :: "u32 \<Rightarrow> u64 \<Rightarrow> 'p \<Rightarrow> 'p"
  cpuid_regs :: "u32 \<Rightarrow> u32 \<Rightarrow> u32 \<times> u32 \<times> u32 \<times> u32"

definition LAPIC_REG_ID :: u32 where "LAPIC_REG_ID = 0x020"
definition LAPIC_REG_VERSION :: u32 where "LAPIC_REG_VERSION = 0x030"
definition LAPIC_REG_TPR :: u32 where "LAPIC_REG_TPR = 0x080"
definition LAPIC_REG_EOI :: u32 where "LAPIC_REG_EOI = 0x0B0"
definition LAPIC_REG_SVR :: u32 where "LAPIC_REG_SVR = 0x0F0"
definition LAPIC_REG_ESR :: u32 where "LAPIC_REG_ESR = 0x280"
definition LAPIC_REG_ICR_LOW :: u32 where "LAPIC_REG_ICR_LOW = 0x300"
definition LAPIC_REG_ICR_HIGH :: u32 where "LAPIC_REG_ICR_HIGH = 0x310"
definition LAPIC_REG_TIMER_LVT :: u32 where "LAPIC_REG_TIMER_LVT = 0x320"
definition LAPIC_REG_LINT0_LVT :: u32 where "LAPIC_REG_LINT0_LVT = 0x350"
definition LAPIC_REG_LINT1_LVT :: u32 where "LAPIC_REG_LINT1_LVT = 0x360"
definition LAPIC_REG_TIMER_ICR :: u32 where "LAPIC_REG_TIMER_ICR = 0x380"
definition LAPIC_REG_TIMER_DCR :: u32 where "LAPIC_REG_TIMER_DCR = 0x3E0"
definition IOAPIC_IOREGSEL :: u32 where "IOAPIC_IOREGSEL = 0x00"
definition IOAPIC_IOWIN :: u32 where "IOAPIC_IOWIN = 0x10"
definition IOAPIC_REG_VER :: u32 where "IOAPIC_REG_VER = 0x01"
definition IOAPIC_REDTBL_BASE :: u32 where "IOAPIC_REDTBL_BASE = 0x10"
definition IA32_APIC_BASE_MSR :: u32 where "IA32_APIC_BASE_MSR = 0x1B"
definition IA32_APIC_BASE_MSR_ENABLE :: u64 where "IA32_APIC_BASE_MSR_ENABLE = push_bit 11 1"
definition CPUID_FEAT_EDX_APIC :: u32 where "CPUID_FEAT_EDX_APIC = push_bit 9 1"
definition CPUID_FEAT_ECX_X2APIC :: u32 where "CPUID_FEAT_ECX_X2APIC = push_bit 21 1"

section \<open>State\<close>

record idt_entry =
  base_lo :: u16
  sel :: u16
  ist :: u8
  idt_flags :: u8
  base_mid :: u16
  base_hi :: u32
  zero_field :: u32

record registers =
  saved :: "u64 list"
  int_no :: u64
  err_code :: u64
  cpu_frame :: "u64 list"

datatype ('p, 's) isr = Lapic_Timer_Handler | Isr "registers \<Rightarrow> 'p \<times> 's \<Rightarrow> ('p \<times> 's) option"

record ('p, 's) intr =
  ihw :: 'p
  ienv :: 's
  ivmm :: vmm
  idt_entries :: "idt_entry list"
  idt_ptr :: "(u16 \<times> u64) option"
  interrupts_on :: bool
  interrupt_handlers :: "('p, 's) isr option list"
  irq_routines_table :: "('p, 's) isr option list"
  lapic_timer_tick :: u64
  lapic :: u64
  ioapic :: u64
  acpi_lapic_base :: u64
  acpi_ioapic_base :: u64

section \<open>The descriptor table\<close>

definition idt_set_gate :: "u8 \<Rightarrow> u64 \<Rightarrow> u16 \<Rightarrow> u8 \<Rightarrow> ('p, 's) intr \<Rightarrow> ('p, 's) intr" where
  "idt_set_gate num base sl flags s = s\<lparr>idt_entries := (idt_entries s)[unat num :=
     \<lparr>base_lo = ucast (base AND 0xFFFF), sel = sl, ist = 0, idt_flags = flags,
      base_mid = ucast (drop_bit 16 base AND 0xFFFF), base_hi = ucast (drop_bit 32 base AND 0xFFFFFFFF), zero_field = 0\<rparr>]\<rparr>"

definition zero_gate :: idt_entry where
  "zero_gate = \<lparr>base_lo = 0, sel = 0, ist = 0, idt_flags = 0, base_mid = 0, base_hi = 0, zero_field = 0\<rparr>"

text \<open>The values written to the two legacy controllers.\<close>

definition pic_remap :: "(u16 \<times> u8) list" where
  "pic_remap = [(0x20, 0x11), (0xA0, 0x11), (0x21, 0x20), (0xA1, 0x28), (0x21, 0x04), (0xA1, 0x02), (0x21, 0x01), (0xA1, 0x01),
     (0x21, 0x0), (0xA1, 0x0)]"

definition init_idt :: "'p apic_hw \<Rightarrow> u64 \<Rightarrow> (nat \<Rightarrow> u64) \<Rightarrow> ('p, 's) intr \<Rightarrow> ('p, 's) intr" where
  "init_idt hw idt_addr isr_stub s =
     (let s = s\<lparr>idt_entries := replicate 256 zero_gate\<rparr>;
          s = s\<lparr>ihw := fold (\<lambda>(port, val). io_outb (cpu_ports hw) port val) pic_remap (ihw s)\<rparr>;
          s = fold (\<lambda>i. idt_set_gate (of_nat i) (isr_stub i) 0x08 0x8E) [0..<32] s
      in s\<lparr>idt_ptr := Some (16 * 256 - 1, idt_addr), interrupts_on := True\<rparr>)"

section \<open>The local controller\<close>

definition lapic_read :: "'p apic_hw \<Rightarrow> u32 \<Rightarrow> ('p, 's) intr \<Rightarrow> u32 \<times> ('p, 's) intr" where
  "lapic_read hw reg s = (case lapic_load hw (reg div 4) (ihw s) of (v, d) \<Rightarrow> (v, s\<lparr>ihw := d\<rparr>))"

definition lapic_write :: "'p apic_hw \<Rightarrow> u32 \<Rightarrow> u32 \<Rightarrow> ('p, 's) intr \<Rightarrow> ('p, 's) intr" where
  "lapic_write hw reg val s = s\<lparr>ihw := lapic_store hw (reg div 4) val (ihw s)\<rparr>"

definition cpu_has_apic :: "'p apic_hw \<Rightarrow> bool" where
  "cpu_has_apic hw = (case cpuid_regs hw 1 0 of (eax, ebx, ecx, edx) \<Rightarrow> edx AND CPUID_FEAT_EDX_APIC \<noteq> 0)"

definition cpu_has_x2apic :: "'p apic_hw \<Rightarrow> bool" where
  "cpu_has_x2apic hw = (case cpuid_regs hw 1 0 of (eax, ebx, ecx, edx) \<Rightarrow> ecx AND CPUID_FEAT_ECX_X2APIC \<noteq> 0)"

definition lapic_get_id :: "'p apic_hw \<Rightarrow> ('p, 's) intr \<Rightarrow> u32 \<times> ('p, 's) intr" where
  "lapic_get_id hw s = (case lapic_read hw LAPIC_REG_ID s of (v, s) \<Rightarrow> (drop_bit 24 v AND 0xFF, s))"

definition lapic_get_id_msr :: "'p apic_hw \<Rightarrow> ('p, 's) intr \<Rightarrow> u32 \<times> ('p, 's) intr" where
  "lapic_get_id_msr hw s =
     (if cpu_has_x2apic hw then (ucast (msr_read hw 0x802 (ihw s)), s) else lapic_get_id hw s)"

definition cpu_set_apic_base :: "'p apic_hw \<Rightarrow> u64 \<Rightarrow> ('p, 's) intr \<Rightarrow> ('p, 's) intr" where
  "cpu_set_apic_base hw apic s =
     s\<lparr>ihw := msr_write hw IA32_APIC_BASE_MSR ((apic AND 0xFFFFF000) OR IA32_APIC_BASE_MSR_ENABLE) (ihw s)\<rparr>"

definition cpu_get_apic_base :: "'p apic_hw \<Rightarrow> ('p, 's) intr \<Rightarrow> u64" where
  "cpu_get_apic_base hw s = msr_read hw IA32_APIC_BASE_MSR (ihw s) AND 0xFFFFF000"

definition lapic_init :: "'p apic_hw \<Rightarrow> ('p, 's) intr \<Rightarrow> int \<times> ('p, 's) intr" where
  "lapic_init hw s =
     (if \<not> cpu_has_apic hw then (- 1, s)
      else let s = s\<lparr>ihw := io_outb (cpu_ports hw) 0xA1 0xFF (io_outb (cpu_ports hw) 0x21 0xFF (ihw s))\<rparr>;
               lapic_phys = (if acpi_lapic_base s \<noteq> 0 then acpi_lapic_base s else cpu_get_apic_base hw s);
               (ok, vm) = vmm_map (vmm_get_pml4 (ivmm s)) lapic_phys lapic_phys (PTE_WRITABLE OR PTE_CACHE_DISABLE) (ivmm s);
               s = s\<lparr>ivmm := vm, lapic := lapic_phys\<rparr>;
               msr = msr_read hw IA32_APIC_BASE_MSR (ihw s) OR IA32_APIC_BASE_MSR_ENABLE;
               s = s\<lparr>ihw := msr_write hw IA32_APIC_BASE_MSR msr (ihw s)\<rparr>;
               (svr, s) = lapic_read hw LAPIC_REG_SVR s;
               s = lapic_write hw LAPIC_REG_SVR (0x100 OR 0xEF) s;
               s = lapic_write hw LAPIC_REG_TPR 0 s;
               s = lapic_write hw LAPIC_REG_LINT0_LVT (push_bit 16 1) s;
               s = lapic_write hw LAPIC_REG_LINT1_LVT (push_bit 16 1) s;
               s = lapic_write hw LAPIC_REG_TIMER_LVT (push_bit 16 1) s;
               s = lapic_write hw LAPIC_REG_ESR 0 s;
               s = lapic_write hw LAPIC_REG_ESR 0 s;
               s = lapic_write hw LAPIC_REG_EOI 0 s;
               (apic_id, s) = lapic_get_id hw s;
               (ver, s) = lapic_read hw LAPIC_REG_VERSION s
           in (0, s))"

text \<open>The wait for an earlier inter-processor interrupt to be delivered.\<close>

partial_function (option) wait_icr :: "'p apic_hw \<Rightarrow> ('p, 's) intr \<Rightarrow> ('p, 's) intr option" where
  "wait_icr hw s =
     (let r = lapic_read hw LAPIC_REG_ICR_LOW s
      in if fst r AND push_bit 12 1 \<noteq> 0 then wait_icr hw (snd r) else Some (snd r))"

definition send_ipi :: "'p apic_hw \<Rightarrow> u32 \<Rightarrow> u32 \<Rightarrow> u8 \<Rightarrow> ('p, 's) intr \<Rightarrow> ('p, 's) intr option" where
  "send_ipi hw apic_id mode vector s = do {
     s \<leftarrow> wait_icr hw s;
     let (high, s) = lapic_read hw LAPIC_REG_ICR_HIGH s;
     let s = lapic_write hw LAPIC_REG_ICR_HIGH (high AND 0x00ffffff OR push_bit 24 apic_id) s;
     let (low, s) = lapic_read hw LAPIC_REG_ICR_LOW s;
     let low = (low AND NOT 0xcdfff) OR push_bit 8 mode OR ucast vector;
     Some (lapic_write hw LAPIC_REG_ICR_LOW low s)
   }"

definition lapic_start_cores :: "'p apic_hw \<Rightarrow> ('p, 's) intr \<Rightarrow> ('p, 's) intr option" where
  "lapic_start_cores hw s = do {
     let vector = (ucast (drop_bit 12 AP_TRAMPOLINE_ADDR) :: u8);
     s \<leftarrow> send_ipi hw 1 0x05 0 s;
     s \<leftarrow> send_ipi hw 1 0x06 vector s;
     send_ipi hw 1 0x06 vector s
   }"

section \<open>The controller of external interrupts\<close>

definition ioapic_read :: "'p apic_hw \<Rightarrow> u32 \<Rightarrow> ('p, 's) intr \<Rightarrow> u32 \<times> ('p, 's) intr" where
  "ioapic_read hw reg s =
     (case ioapic_load hw (IOAPIC_IOWIN div 4) (ioapic_store hw (IOAPIC_IOREGSEL div 4) reg (ihw s)) of (v, d) \<Rightarrow> (v, s\<lparr>ihw := d\<rparr>))"

definition ioapic_write :: "'p apic_hw \<Rightarrow> u32 \<Rightarrow> u32 \<Rightarrow> ('p, 's) intr \<Rightarrow> ('p, 's) intr" where
  "ioapic_write hw reg val s =
     s\<lparr>ihw := ioapic_store hw (IOAPIC_IOWIN div 4) val (ioapic_store hw (IOAPIC_IOREGSEL div 4) reg (ihw s))\<rparr>"

definition ioapic_set_entry :: "'p apic_hw \<Rightarrow> u8 \<Rightarrow> u64 \<Rightarrow> ('p, 's) intr \<Rightarrow> ('p, 's) intr" where
  "ioapic_set_entry hw index data s =
     (let s = ioapic_write hw (IOAPIC_REDTBL_BASE + ucast index * 2) (ucast data) s
      in ioapic_write hw (IOAPIC_REDTBL_BASE + ucast index * 2 + 1) (ucast (drop_bit 32 data)) s)"

definition ioapic_init :: "'p apic_hw \<Rightarrow> ('p, 's) intr \<Rightarrow> ('p, 's) intr" where
  "ioapic_init hw s =
     (let base = acpi_ioapic_base s;
          (ok, vm) = vmm_map (vmm_get_pml4 (ivmm s)) base base (PTE_WRITABLE OR PTE_CACHE_DISABLE) (ivmm s);
          s = s\<lparr>ivmm := vm, ioapic := base\<rparr>;
          (version, s) = ioapic_read hw IOAPIC_REG_VER s;
          max_redir = unat (drop_bit 16 version AND 0xFF)
      in fold (\<lambda>i. ioapic_set_entry hw (of_nat i) (push_bit 16 1)) [0..<max_redir + 1] s)"

text \<open>The redirection entry for a vector.\<close>

definition redirection_entry :: "int \<Rightarrow> u16 \<Rightarrow> u32 \<Rightarrow> u64" where
  "redirection_entry vector flags apic_id =
     (let polarity = (if flags AND 0x3 = 3 then 1 else 0 :: u64);
          trigger = (if drop_bit 2 flags AND 0x3 = 3 then 1 else 0)
      in of_int vector OR push_bit 13 polarity OR push_bit 15 trigger OR push_bit 56 (ucast apic_id))"

definition ioapic_redirect_irq :: "'p apic_hw \<Rightarrow> int \<Rightarrow> int \<Rightarrow> u16 \<Rightarrow> ('p, 's) intr \<Rightarrow> ('p, 's) intr" where
  "ioapic_redirect_irq hw gsi vector flags s =
     (let (apic_id, s) = lapic_get_id hw s
      in ioapic_set_entry hw (of_int gsi) (redirection_entry vector flags apic_id) s)"

section \<open>Interrupt requests\<close>

definition MAX_IRQS :: nat where "MAX_IRQS = 223"

definition irq_install_handler :: "'p apic_hw \<Rightarrow> int \<Rightarrow> ('p, 's) isr \<Rightarrow> u16 \<Rightarrow> ('p, 's) intr \<Rightarrow> ('p, 's) intr option" where
  "irq_install_handler hw irq handler flags s =
     (if irq < 0 \<or> int MAX_IRQS \<le> irq then None
      else let s = s\<lparr>irq_routines_table := (irq_routines_table s)[nat irq := Some handler]\<rparr>
           in Some (ioapic_redirect_irq hw irq (irq + 32) flags s))"

definition irq_uninstall_handler :: "int \<Rightarrow> ('p, 's) intr \<Rightarrow> ('p, 's) intr option" where
  "irq_uninstall_handler irq s =
     (if irq < 0 \<or> int MAX_IRQS \<le> irq then None
      else Some (s\<lparr>irq_routines_table := (irq_routines_table s)[nat irq := None]\<rparr>))"

definition irq_install :: "(nat \<Rightarrow> u64) \<Rightarrow> ('p, 's) intr \<Rightarrow> ('p, 's) intr" where
  "irq_install irq_stub_table s =
     (let s = fold (\<lambda>i. idt_set_gate (of_nat i) (irq_stub_table (i - 32)) 0x08 0x8E) [32..<254] s
      in s\<lparr>irq_routines_table := (irq_routines_table s)[16 := Some Lapic_Timer_Handler]\<rparr>)"

definition lapic_timer_handler :: "('p, 's) intr \<Rightarrow> ('p, 's) intr" where
  "lapic_timer_handler s = s\<lparr>lapic_timer_tick := lapic_timer_tick s + 1\<rparr>"

definition call_isr :: "('p, 's) isr \<Rightarrow> registers \<Rightarrow> ('p, 's) intr \<Rightarrow> ('p, 's) intr option" where
  "call_isr h regs s =
     (case h of Lapic_Timer_Handler \<Rightarrow> Some (lapic_timer_handler s)
      | Isr f \<Rightarrow> do { (d, e) \<leftarrow> f regs (ihw s, ienv s); Some (s\<lparr>ihw := d, ienv := e\<rparr>) })"

definition irq_handler :: "'p apic_hw \<Rightarrow> registers \<Rightarrow> ('p, 's) intr \<Rightarrow> ('p, 's) intr option" where
  "irq_handler hw regs s =
     (let irq = sint (ucast (int_no regs - 32) :: u32)
      in if irq < 0 \<or> int MAX_IRQS \<le> irq then None
         else do {
           s \<leftarrow> (case irq_routines_table s ! nat irq of Some h \<Rightarrow> call_isr h regs s | None \<Rightarrow> Some s);
           Some (lapic_write hw 0xB0 0 s)
         })"

definition lapic_timer_start :: "'p apic_hw \<Rightarrow> ('p, 's) intr \<Rightarrow> ('p, 's) intr option" where
  "lapic_timer_start hw s =
     (let s = lapic_write hw LAPIC_REG_TIMER_ICR 0 s;
          s = lapic_write hw LAPIC_REG_TIMER_DCR 0x03 s;
          s = lapic_write hw LAPIC_REG_TIMER_LVT (48 OR push_bit 17 1) s;
          s = lapic_write hw LAPIC_REG_TIMER_ICR 0x100000 s
      in irq_install_handler hw 48 Lapic_Timer_Handler 0 s)"

section \<open>Exceptions\<close>

definition register_interrupt_handler :: "u8 \<Rightarrow> ('p, 's) isr \<Rightarrow> ('p, 's) intr \<Rightarrow> ('p, 's) intr" where
  "register_interrupt_handler n handler s = s\<lparr>interrupt_handlers := (interrupt_handlers s)[unat n := Some handler]\<rparr>"

text \<open>Without a handler a message is printed with the name of the exception, looked up in a table of 22 names.  \<open>check\<close> is
  0 or 1, so the table is consulted whatever the number.\<close>

definition isr_handler :: "registers \<Rightarrow> ('p, 's) intr \<Rightarrow> ('p, 's) intr option" where
  "isr_handler regs s =
     (if 256 \<le> unat (int_no regs) then None
      else case interrupt_handlers s ! unat (int_no regs) of
             Some h \<Rightarrow> call_isr h regs s
           | None \<Rightarrow>
               let check = of_bool (21 < int_no regs) :: nat
               in if 21 < check then Some s
                  else if unat (int_no regs) < 22 then Some s
                  else None)"

end
