(* ===== verification/Interrupt_Props.thy ===== *)
theory Interrupt_Props
  imports Interrupts
begin

unbundle bit_operations_syntax

text \<open>
  Interrupt routing: the descriptor table after initialisation, the redirection entry that an installed handler gets, and the
  dispatch from the vector back to the handler.
\<close>

section \<open>The descriptor table\<close>

definition gate_base :: "idt_entry \<Rightarrow> u64" where
  "gate_base g = ucast (base_lo g) OR push_bit 16 (ucast (base_mid g)) OR push_bit 32 (ucast (base_hi g))"

text \<open>A gate that is present, of type interrupt gate, in the kernel's code segment.\<close>

definition gate_to :: "idt_entry \<Rightarrow> u64 \<Rightarrow> bool" where
  "gate_to g a \<longleftrightarrow> gate_base g = a \<and> sel g = 0x08 \<and> idt_flags g = 0x8E \<and> ist g = 0"

lemma idt_entries_set_gate:
  assumes "n < 256"
  shows "idt_entries (idt_set_gate (of_nat n) a 0x08 0x8E s) = (idt_entries s)[n :=
     \<lparr>base_lo = ucast (a AND 0xFFFF), sel = 0x08, ist = 0, idt_flags = 0x8E,
      base_mid = ucast (drop_bit 16 a AND 0xFFFF), base_hi = ucast (drop_bit 32 a AND 0xFFFFFFFF), zero_field = 0\<rparr>]"
  using assms by (simp add: idt_set_gate_def unat_of_nat)

lemma split_address: "ucast (ucast (a AND 0xFFFF) :: u16) OR push_bit 16 (ucast (ucast (drop_bit 16 a AND 0xFFFF) :: u16)) OR
    push_bit 32 (ucast (ucast (drop_bit 32 a AND 0xFFFFFFFF) :: u32)) = (a :: u64)"
proof -
  have m: "(0xFFFF :: u64) = mask 16" "(0xFFFFFFFF :: u64) = mask 32" by (simp_all add: mask_eq_exp_minus_1)
  show ?thesis
  proof (unfold m, rule bit_word_eqI)
    fix n :: nat
    assume n: "n < LENGTH(64)"
    consider "n < 16" | "16 \<le> n" "n < 32" | "32 \<le> n" by linarith
    then show "bit (ucast (ucast (a AND mask 16) :: u16) OR push_bit 16 (ucast (ucast (drop_bit 16 a AND mask 16) :: u16)) OR
        push_bit 32 (ucast (ucast (drop_bit 32 a AND mask 32) :: u32)) :: u64) n = bit a n"
      using n by cases (auto simp: bit_simps)
  qed
qed

text \<open>Gates set for a range of vectors.\<close>

lemma set_gates:
  assumes "length (idt_entries s) = 256" "b \<le> 256"
  shows "length (idt_entries (fold (\<lambda>i. idt_set_gate (of_nat i) (f i) 0x08 0x8E) [a..<b] s)) = 256 \<and>
     (\<forall>n. (a \<le> n \<and> n < b \<longrightarrow> gate_to (idt_entries (fold (\<lambda>i. idt_set_gate (of_nat i) (f i) 0x08 0x8E) [a..<b] s) ! n) (f n)) \<and>
          (\<not> (a \<le> n \<and> n < b) \<longrightarrow> idt_entries (fold (\<lambda>i. idt_set_gate (of_nat i) (f i) 0x08 0x8E) [a..<b] s) ! n = idt_entries s ! n))"
  using assms(2)
proof (induction b)
  case 0
  then show ?case using assms(1) by simp
next
  case (Suc b)
  show ?case
  proof (cases "a \<le> b")
    case False
    then show ?thesis using assms(1) by auto
  next
    case True
    define t where "t = fold (\<lambda>i. idt_set_gate (of_nat i) (f i) 0x08 0x8E) [a..<b] s"
    have step: "fold (\<lambda>i. idt_set_gate (of_nat i) (f i) 0x08 0x8E) [a..<Suc b] s = idt_set_gate (of_nat b) (f b) 0x08 0x8E t"
      using True by (simp add: t_def)
    have t: "length (idt_entries t) = 256" "a \<le> n \<and> n < b \<Longrightarrow> gate_to (idt_entries t ! n) (f n)"
      "\<not> (a \<le> n \<and> n < b) \<Longrightarrow> idt_entries t ! n = idt_entries s ! n" for n
      using Suc by (auto simp: t_def)
    have e: "n \<noteq> b \<Longrightarrow> idt_entries (idt_set_gate (of_nat b) (f b) 0x08 0x8E t) ! n = idt_entries t ! n"
      "gate_to (idt_entries (idt_set_gate (of_nat b) (f b) 0x08 0x8E t) ! b) (f b)" for n
      using Suc.prems t(1) by (simp_all add: idt_entries_set_gate gate_to_def gate_base_def split_address)
    have "length (idt_entries (idt_set_gate (of_nat b) (f b) 0x08 0x8E t)) = 256"
      using t(1) Suc.prems by (simp add: idt_entries_set_gate)
    then show ?thesis
      unfolding step using t(2,3) e True by (auto simp: less_Suc_eq)
  qed
qed

lemma idt_initialised:
  assumes "n < 254"
  shows "gate_to (idt_entries (irq_install stubs (init_idt hw a isrs s)) ! n) (if n < 32 then isrs n else stubs (n - 32))"
proof -
  define s0 where "s0 = s\<lparr>idt_entries := replicate 256 zero_gate,
      ihw := fold (\<lambda>(port, val). io_outb (cpu_ports hw) port val) pic_remap (ihw s)\<rparr>"
  define s1 where "s1 = fold (\<lambda>i. idt_set_gate (of_nat i) (isrs i) 0x08 0x8E) [0..<32] s0"
  have "length (idt_entries s0) = 256" by (simp add: s0_def)
  note g1 = set_gates [OF this, of 32 isrs 0, folded s1_def]
  then have l1: "length (idt_entries s1) = 256" by simp
  have i: "idt_entries (init_idt hw a isrs s) = idt_entries s1"
    by (simp add: init_idt_def Let_def s1_def s0_def del: upt_rec_numeral)
  have "length (idt_entries (init_idt hw a isrs s)) = 256" using l1 i by simp
  note g2 = set_gates [OF this, of 254 "\<lambda>i. stubs (i - 32)" 32]
  have "idt_entries (irq_install stubs (init_idt hw a isrs s)) =
      idt_entries (fold (\<lambda>i. idt_set_gate (of_nat i) (stubs (i - 32)) 0x08 0x8E) [32..<254] (init_idt hw a isrs s))"
    by (simp add: irq_install_def Let_def del: upt_rec_numeral)
  then show ?thesis using g1 g2 assms unfolding i by (auto simp del: upt_rec_numeral)
qed

section \<open>Redirection\<close>

text \<open>What software can tell about the controller of external interrupts: the register selected and the bits of each
  register that can be written (bits 12 and 14 of a redirection register report a state).\<close>

record ioapic_view =
  va_sel :: u32
  va_reg :: "u32 \<Rightarrow> u32"

definition ioapic_protocol :: "'p apic_hw \<Rightarrow> ('p \<Rightarrow> ioapic_view) \<Rightarrow> bool" where
  "ioapic_protocol hw view \<longleftrightarrow> (\<forall>d x.
     view (ioapic_store hw 0 x d) = (view d)\<lparr>va_sel := x\<rparr> \<and>
     (0x10 \<le> va_sel (view d) \<longrightarrow> x AND 0x5000 = 0 \<longrightarrow>
        view (ioapic_store hw 4 x d) = (view d)\<lparr>va_reg := (va_reg (view d))(va_sel (view d) := x)\<rparr>) \<and>
     view (snd (lapic_load hw x d)) = view d)"

definition pin_entry :: "ioapic_view \<Rightarrow> nat \<Rightarrow> u64" where
  "pin_entry v pin = ucast (va_reg v (0x10 + 2 * of_nat pin)) OR push_bit 32 (ucast (va_reg v (0x11 + 2 * of_nat pin)))"

lemma ioapic_write_view:
  assumes "ioapic_protocol hw view" "0x10 \<le> reg" "x AND 0x5000 = 0"
  shows "va_reg (view (ihw (ioapic_write hw reg x s))) = (va_reg (view (ihw s)))(reg := x)"
proof -
  let ?d = "ioapic_store hw 0 reg (ihw s)"
  have v: "view ?d = (view (ihw s))\<lparr>va_sel := reg\<rparr>" using assms(1) by (simp add: ioapic_protocol_def)
  then have "view (ioapic_store hw 4 x ?d) = (view ?d)\<lparr>va_reg := (va_reg (view ?d))(va_sel (view ?d) := x)\<rparr>"
    using assms unfolding ioapic_protocol_def by simp
  then show ?thesis using v by (simp add: ioapic_write_def IOAPIC_IOWIN_def IOAPIC_IOREGSEL_def)
qed

lemma lapic_get_id_view:
  assumes "ioapic_protocol hw view" "lapic_get_id hw s = (apic_id, s')"
  shows "view (ihw s') = view (ihw s)" "s' = s\<lparr>ihw := ihw s'\<rparr>"
    "apic_id = drop_bit 24 (fst (lapic_load hw 8 (ihw s))) AND 0xFF"
proof -
  obtain v d where l: "lapic_load hw 8 (ihw s) = (v, d)" by fastforce
  have "view (snd (lapic_load hw 8 (ihw s))) = view (ihw s)" using assms(1) unfolding ioapic_protocol_def by blast
  then show "view (ihw s') = view (ihw s)" "s' = s\<lparr>ihw := ihw s'\<rparr>"
    "apic_id = drop_bit 24 (fst (lapic_load hw 8 (ihw s))) AND 0xFF"
    using assms(2) l by (auto simp: lapic_get_id_def lapic_read_def LAPIC_REG_ID_def)
qed

lemma bit_redirection_entry:
  assumes "0 \<le> vector" "vector < 256"
  shows "bit (redirection_entry vector flags apic_id) n \<longleftrightarrow>
     n < 8 \<and> bit vector n \<or> n = 13 \<and> flags AND 3 = 3 \<or> n = 15 \<and> drop_bit 2 flags AND 3 = 3 \<or>
     56 \<le> n \<and> n < 64 \<and> bit apic_id (n - 56)"
proof -
  have "take_bit 8 vector = vector" using assms by (simp add: take_bit_int_eq_self_iff)
  then have "bit vector n \<longleftrightarrow> n < 8 \<and> bit vector n" by (metis bit_take_bit_iff)
  then have "bit (of_int vector :: u64) n \<longleftrightarrow> n < 8 \<and> bit vector n" by (auto simp: bit_simps)
  then show ?thesis
    unfolding redirection_entry_def Let_def by (auto simp: bit_simps bit_1_iff split: if_splits)
qed

lemma redirection_fields:
  fixes flags :: u16
  assumes "0 \<le> vector" "vector < 256" "apic_id AND 0xFF = apic_id"
  defines "e \<equiv> redirection_entry vector flags apic_id"
  shows "take_bit 8 e = of_int vector" "\<not> bit e 16" "bit e 13 \<longleftrightarrow> flags AND 3 = 3" "bit e 15 \<longleftrightarrow> drop_bit 2 flags AND 3 = 3"
    "drop_bit 56 e = ucast apic_id" "(ucast e :: u32) AND 0x5000 = 0" "(ucast (drop_bit 32 e) :: u32) AND 0x5000 = 0"
    "e AND 0x1F00 = 0"
proof -
  note b = bit_redirection_entry [OF assms(1,2), of flags apic_id, folded e_def]
  show "take_bit 8 e = of_int vector"
  proof (rule bit_word_eqI)
    fix n :: nat
    have "take_bit 8 vector = vector" using assms by (simp add: take_bit_int_eq_self_iff)
    then have "bit vector n \<longleftrightarrow> n < 8 \<and> bit vector n" by (metis bit_take_bit_iff)
    then show "bit (take_bit 8 e) n = bit (of_int vector :: u64) n" by (auto simp: bit_simps b)
  qed
  show "\<not> bit e 16" "bit e 13 \<longleftrightarrow> flags AND 3 = 3" "bit e 15 \<longleftrightarrow> drop_bit 2 flags AND 3 = 3" by (simp_all add: b)
  have m: "(0xFF :: u32) = mask 8" by (simp add: mask_eq_exp_minus_1)
  have id: "bit apic_id n \<longleftrightarrow> n < 8 \<and> bit apic_id n" for n
    using arg_cong [OF assms(3), of "\<lambda>w. bit w n"] unfolding m by (auto simp: bit_simps)
  show "drop_bit 56 e = ucast apic_id"
  proof (rule bit_word_eqI)
    fix n :: nat
    assume "n < LENGTH(64)"
    then show "bit (drop_bit 56 e) n = bit (ucast apic_id :: u64) n" using id [of n] by (auto simp: bit_simps b)
  qed
  have q: "(0x5000 :: u32) = push_bit 12 1 OR push_bit 14 1" "(0x1F00 :: u64) = push_bit 8 (mask 5)"
    by (simp_all add: mask_eq_exp_minus_1)
  have "bit (0x5000 :: u32) n \<longleftrightarrow> n = 12 \<or> n = 14" "bit (0x1F00 :: u64) n \<longleftrightarrow> 8 \<le> n \<and> n < 13" for n
    unfolding q bit_or_iff bit_push_bit_iff bit_mask_iff bit_1_iff by auto
  note k = this
  show "(ucast e :: u32) AND 0x5000 = 0" "(ucast (drop_bit 32 e) :: u32) AND 0x5000 = 0" "e AND 0x1F00 = 0"
    by (rule bit_word_eqI, simp only: bit_and_iff bit_unsigned_iff bit_drop_bit_eq comp_def k b, auto)+
qed

lemma ioapic_set_entry_view:
  assumes p: "ioapic_protocol hw view" and pin: "pin < 24"
    and d: "(ucast data :: u32) AND 0x5000 = 0" "(ucast (drop_bit 32 data) :: u32) AND 0x5000 = 0"
  shows "pin_entry (view (ihw (ioapic_set_entry hw (of_nat pin) data s))) pin = data"
    and "q < 24 \<Longrightarrow> q \<noteq> pin \<Longrightarrow> pin_entry (view (ihw (ioapic_set_entry hw (of_nat pin) data s))) q = pin_entry (view (ihw s)) q"
proof -
  let ?lo = "\<lambda>k. 0x10 + 2 * of_nat k :: u32" and ?hi = "\<lambda>k. 0x11 + 2 * of_nat k :: u32"
  have u: "unat (?lo k) = 16 + 2 * k" "unat (?hi k) = 17 + 2 * k" if "k < 24" for k
    using that by (simp_all add: unat_word_ariths unat_of_nat)
  have ne: "?lo j = ?lo k \<longleftrightarrow> j = k" "?hi j = ?hi k \<longleftrightarrow> j = k" "?lo j \<noteq> ?hi k" "?hi k \<noteq> ?lo j" if "j < 24" "k < 24" for j k
    using u that by (simp_all only: word_unat_eq_iff) presburger+
  have ge: "0x10 \<le> ?lo pin" "0x10 \<le> ?hi pin" using u [OF pin] by (simp_all add: word_le_nat_alt)
  have c: "IOAPIC_REDTBL_BASE + ucast (of_nat pin :: u8) * 2 = ?lo pin" "?lo pin + 1 = ?hi pin"
    using pin by (simp_all add: IOAPIC_REDTBL_BASE_def word_unat_eq_iff unat_word_ariths unat_of_nat unsigned_ucast_eq take_bit_eq_mod)
  have r: "va_reg (view (ihw (ioapic_set_entry hw (of_nat pin) data s))) =
      (va_reg (view (ihw s)))(?lo pin := ucast data, ?hi pin := ucast (drop_bit 32 data))"
    unfolding ioapic_set_entry_def Let_def c
    by (simp only: ioapic_write_view [OF p ge(2) d(2)] ioapic_write_view [OF p ge(1) d(1)])
  have "ucast (ucast data :: u32) OR push_bit 32 (ucast (ucast (drop_bit 32 data) :: u32)) = data"
    by (rule bit_word_eqI) (auto simp: bit_simps)
  then show "pin_entry (view (ihw (ioapic_set_entry hw (of_nat pin) data s))) pin = data"
    unfolding pin_entry_def r using ne [OF pin pin] by simp
  show "pin_entry (view (ihw (ioapic_set_entry hw (of_nat pin) data s))) q = pin_entry (view (ihw s)) q" if "q < 24" "q \<noteq> pin"
    unfolding pin_entry_def r using ne [OF that(1) pin] ne [OF pin that(1)] that(2) by simp
qed

section \<open>Properties\<close>

lemma irq_install_handler_state:
  assumes p: "ioapic_protocol hw view" and irq: "0 \<le> irq" "irq < 24"
  shows "\<exists>s1. irq_install_handler hw irq h flags s = Some s1 \<and>
     irq_routines_table s1 = (irq_routines_table s)[nat irq := Some h] \<and> idt_entries s1 = idt_entries s \<and> ienv s1 = ienv s \<and>
     pin_entry (view (ihw s1)) (nat irq) =
       redirection_entry (irq + 32) flags (drop_bit 24 (fst (lapic_load hw 8 (ihw s))) AND 0xFF) \<and>
     (\<forall>q < 24. q \<noteq> nat irq \<longrightarrow> pin_entry (view (ihw s1)) q = pin_entry (view (ihw s)) q)"
proof -
  let ?t = "s\<lparr>irq_routines_table := (irq_routines_table s)[nat irq := Some h]\<rparr>"
  let ?id = "drop_bit 24 (fst (lapic_load hw 8 (ihw s))) AND 0xFF"
  obtain i s' where g: "lapic_get_id hw ?t = (i, s')" by fastforce
  have v: "view (ihw s') = view (ihw s)" "s' = ?t\<lparr>ihw := ihw s'\<rparr>" "i = ?id"
    using lapic_get_id_view [OF p g] by simp_all
  define e where "e = redirection_entry (irq + 32) flags ?id"
  have z: "(ucast e :: u32) AND 0x5000 = 0" "(ucast (drop_bit 32 e) :: u32) AND 0x5000 = 0"
    using redirection_fields(6,7) [of "irq + 32" ?id flags] irq by (simp_all add: e_def and.assoc)
  have pin: "nat irq < 24" "(of_int irq :: u8) = of_nat (nat irq)" using irq by simp_all
  let ?s1 = "ioapic_set_entry hw (of_nat (nat irq)) e s'"
  have "irq_install_handler hw irq h flags s = Some ?s1"
    using irq g v(3) pin(2) by (simp add: irq_install_handler_def MAX_IRQS_def Let_def ioapic_redirect_irq_def e_def)
  moreover have "irq_routines_table ?s1 = irq_routines_table s'" "idt_entries ?s1 = idt_entries s'" "ienv ?s1 = ienv s'"
    by (simp_all add: ioapic_set_entry_def ioapic_write_def Let_def)
  moreover have "irq_routines_table s' = (irq_routines_table s)[nat irq := Some h]" "idt_entries s' = idt_entries s" "ienv s' = ienv s"
    by (subst v(2), simp)+
  moreover note ioapic_set_entry_view(1) [OF p pin(1) z, where s = s'] ioapic_set_entry_view(2) [OF p pin(1) z, where s = s']
  ultimately show ?thesis using v(1) unfolding e_def by (intro exI [of _ ?s1]) (simp add: e_def)
qed

text \<open>C31. From a device to its handler: once the descriptor table is initialised, installing a handler for request line
  \<open>irq\<close> programs the line, and no other, to raise vector \<open>irq + 32\<close> on this processor, unmasked and with the polarity and trigger
  mode of the flags; the gate of this vector leads to the entry point of the request; and the dispatcher for this
  vector runs exactly the installed handler and then signals the end of the interrupt.\<close>

theorem interrupt_routed:
  assumes p: "ioapic_protocol hw view" and irq: "0 \<le> irq" "irq < 24" and len: "length (irq_routines_table s) = MAX_IRQS"
    and idt: "idt_entries s = idt_entries (irq_install stubs (init_idt hw a isrs s0))"
    and regs: "int_no regs = of_int (irq + 32)"
  shows "\<exists>s1. irq_install_handler hw irq (Isr f) flags s = Some s1 \<and>
     (let e = pin_entry (view (ihw s1)) (nat irq)
      in take_bit 8 e = int_no regs \<and> \<not> bit e 16 \<and> e AND 0x1F00 = 0 \<and> (bit e 13 \<longleftrightarrow> flags AND 3 = 3) \<and>
         (bit e 15 \<longleftrightarrow> drop_bit 2 flags AND 3 = 3) \<and>
         drop_bit 56 e = ucast (drop_bit 24 (fst (lapic_load hw 8 (ihw s))) AND 0xFF)) \<and>
     (\<forall>q < 24. q \<noteq> nat irq \<longrightarrow> pin_entry (view (ihw s1)) q = pin_entry (view (ihw s)) q) \<and>
     gate_to (idt_entries s1 ! unat (int_no regs)) (stubs (nat irq)) \<and>
     irq_handler hw regs s1 = map_option (\<lambda>(d, e). lapic_write hw LAPIC_REG_EOI 0 (s1\<lparr>ihw := d, ienv := e\<rparr>)) (f regs (ihw s1, ienv s))"
proof -
  let ?id = "drop_bit 24 (fst (lapic_load hw 8 (ihw s))) AND 0xFF"
  obtain s1 where s1: "irq_install_handler hw irq (Isr f) flags s = Some s1"
    "irq_routines_table s1 = (irq_routines_table s)[nat irq := Some (Isr f)]" "idt_entries s1 = idt_entries s" "ienv s1 = ienv s"
    "pin_entry (view (ihw s1)) (nat irq) = redirection_entry (irq + 32) flags ?id"
    "\<forall>q < 24. q \<noteq> nat irq \<longrightarrow> pin_entry (view (ihw s1)) q = pin_entry (view (ihw s)) q"
    using irq_install_handler_state [OF p irq] by blast
  have w: "int_no regs = of_nat (nat irq + 32)" using irq regs by simp
  have n: "unat (int_no regs) = nat irq + 32" using irq unfolding w by (subst unat_of_nat) simp
  have "gate_to (idt_entries s1 ! (nat irq + 32)) (stubs (nat irq))"
    using idt_initialised [of "nat irq + 32" stubs hw a isrs s0] irq unfolding s1(3) idt by simp
  moreover have "sint (ucast (int_no regs - 32) :: u32) = irq"
    using irq by (simp add: regs unsigned_of_int take_bit_int_eq_self sint_sbintrunc' signed_take_bit_int_eq_self)
  then have "irq_handler hw regs s1 = map_option (\<lambda>(d, e). lapic_write hw LAPIC_REG_EOI 0 (s1\<lparr>ihw := d, ienv := e\<rparr>)) (f regs (ihw s1, ienv s))"
    using irq len by (cases "f regs (ihw s1, ienv s)")
      (simp_all split: prod.split add: irq_handler_def s1(2,4) MAX_IRQS_def call_isr_def LAPIC_REG_EOI_def)
  moreover note redirection_fields [of "irq + 32" ?id flags]
  ultimately show ?thesis
    using s1(1,5,6) irq regs n by (intro exI [of _ s1]) (simp add: Let_def and.assoc)
qed

definition wire_hw :: "ioapic_view apic_hw" where
  "wire_hw = \<lparr>
     cpu_ports = \<lparr>io_inb = (\<lambda>_ d. (0, d)), io_outb = (\<lambda>_ _ d. d), io_inw = (\<lambda>_ d. (0, d)), io_outw = (\<lambda>_ _ d. d),
       io_inl = (\<lambda>_ d. (0, d)), io_outl = (\<lambda>_ _ d. d)\<rparr>,
     lapic_load = (\<lambda>_ d. (0x02000000, d)), lapic_store = (\<lambda>_ _ d. d), ioapic_load = (\<lambda>_ d. (va_reg d (va_sel d), d)),
     ioapic_store = (\<lambda>i x d. if i = 0 then d\<lparr>va_sel := x\<rparr> else d\<lparr>va_reg := (va_reg d)(va_sel d := x)\<rparr>),
     msr_read = (\<lambda>_ _. 0), msr_write = (\<lambda>_ _ d. d), cpuid_regs = (\<lambda>_ _. (0, 0, 0, 0x200))\<rparr>"

definition wire_state :: "(ioapic_view, nat) intr" where
  "wire_state = \<lparr>ihw = \<lparr>va_sel = 0, va_reg = (\<lambda>_. 0x10000)\<rparr>, ienv = 41,
     ivmm = \<lparr>phys = \<lparr>memory_map = (\<lambda>_. 0), max_blocks = 0, used_blocks = 0, bitmap_base = 0, bitmap_size_blocks = 0\<rparr>,
       pmem = (\<lambda>_. 0), current_pml4 = 0, mmio_virt_next = 0, cr3 = 0, flushed = []\<rparr>,
     idt_entries = [], idt_ptr = None, interrupts_on = False, interrupt_handlers = replicate 256 None,
     irq_routines_table = replicate 223 None, lapic_timer_tick = 0, lapic = 0, ioapic = 0, acpi_lapic_base = 0, acpi_ioapic_base = 0\<rparr>"

theorem interrupt_routed_witness:
  "let s = irq_install (\<lambda>i. of_nat i) (init_idt wire_hw 0x1000 (\<lambda>i. 0) wire_state);
       h = Isr (\<lambda>regs (d, n). Some (d, n + 1))
   in \<exists>s1. irq_install_handler wire_hw 12 h 0 s = Some s1 \<and> take_bit 8 (pin_entry (ihw s1) 12) = 44 \<and>
        irq_handler wire_hw \<lparr>saved = [], int_no = 44, err_code = 0, cpu_frame = []\<rparr> s1 =
          Some (lapic_write wire_hw LAPIC_REG_EOI 0 (s1\<lparr>ienv := 42\<rparr>))"
proof -
  have p: "ioapic_protocol wire_hw (\<lambda>d. d)" by (simp add: ioapic_protocol_def wire_hw_def)
  let ?s = "irq_install (\<lambda>i. of_nat i) (init_idt wire_hw 0x1000 (\<lambda>i. 0) wire_state)"
  have f: "irq_routines_table (fold (\<lambda>i. idt_set_gate (of_nat i) (g i) 8 x) is t) = irq_routines_table t \<and>
      ienv (fold (\<lambda>i. idt_set_gate (of_nat i) (g i) 8 x) is t) = ienv t" for g x "is" and t :: "(ioapic_view, nat) intr"
    by (induction "is" arbitrary: t) (simp_all add: idt_set_gate_def)
  have l: "length (irq_routines_table ?s) = MAX_IRQS" "ienv ?s = 41"
    using f by (simp_all add: irq_install_def init_idt_def Let_def wire_state_def MAX_IRQS_def del: upt_rec_numeral)
  show ?thesis
    using interrupt_routed [OF p _ _ l(1) refl, of 12 "\<lparr>saved = [], int_no = 44, err_code = 0, cpu_frame = []\<rparr>" "\<lambda>regs (d, n). Some (d, n + 1)" 0]
    by (simp add: Let_def l(2)) blast
qed

text \<open>An exception without a handler and with a number above 21 reads past the table of names.\<close>

lemma isr_handler_past_table:
  assumes "21 < int_no regs" "unat (int_no regs) < 256" "interrupt_handlers s ! unat (int_no regs) = None"
  shows "isr_handler regs s = None"
  using assms by (simp add: isr_handler_def word_less_nat_alt)

end
