(* ===== verification/Mouse.thy ===== *)
theory Mouse
  imports Interrupts Terminal
begin

unbundle bit_operations_syntax

text \<open>
  The PS/2 mouse, \<open>kernel/drivers/ps2mouse.c\<close>: commands to the controller, initialisation, and the interrupt handler that
  assembles packets of four bytes and reports them to a callback, which acts on the rest of the kernel, of type \<open>'s\<close>.  The
  positions are \<open>int\<close> variables and stay far from their bounds.  Messages are left out.
\<close>

section \<open>Data\<close>

definition MOUSE_CMD_SET_DEFAULTS :: u8 where "MOUSE_CMD_SET_DEFAULTS = 0xF6"
definition MOUSE_CMD_ENABLE_PACKET_STREAMING :: u8 where "MOUSE_CMD_ENABLE_PACKET_STREAMING = 0xF4"
definition MOUSE_CMD_SAMPLE_RATE :: u8 where "MOUSE_CMD_SAMPLE_RATE = 0xF3"
definition MOUSE_CMD_MOUSE_ID :: u8 where "MOUSE_CMD_MOUSE_ID = 0xF2"
definition MOUSE_CMD_CMD :: u8 where "MOUSE_CMD_CMD = 0xD4"
definition MOUSE_ACKNOWLEDGE :: u8 where "MOUSE_ACKNOWLEDGE = 0xFA"
definition PS2_CMD_PORT :: u16 where "PS2_CMD_PORT = 0x64"
definition MOUSE_DATA_PORT :: u16 where "MOUSE_DATA_PORT = 0x60"
definition VGA_TEXT_HEIGHT :: nat where "VGA_TEXT_HEIGHT = 48"

record MOUSE_STATUS =
  left_button :: bool
  right_button :: bool
  middle_button :: bool
  always_1 :: bool
  x_sign :: bool
  y_sign :: bool
  x_overflow :: bool
  y_overflow :: bool

record 's mouse =
  menv :: 's
  g_mouse_x_pos :: int
  g_mouse_y_pos :: int
  g_status :: MOUSE_STATUS
  mouse_event_run :: "(mouse_event_data \<Rightarrow> 's \<Rightarrow> 's option) option"
  mouse_cycle :: u8
  mouse_byte :: "u8 list"

definition mouse_getx :: "'s mouse \<Rightarrow> int" where "mouse_getx m = g_mouse_x_pos m"
definition mouse_gety :: "'s mouse \<Rightarrow> int" where "mouse_gety m = g_mouse_y_pos m"

section \<open>Commands\<close>

text \<open>At most \<open>time_out\<close> reads of the status, until it satisfies the condition.\<close>

fun wait_status :: "'p ports \<Rightarrow> (u8 \<Rightarrow> bool) \<Rightarrow> nat \<Rightarrow> 'p \<Rightarrow> 'p" where
  "wait_status io ok 0 d = d"
| "wait_status io ok (Suc time_out) d =
     (let (status, d) = io_inb io PS2_CMD_PORT d in if ok status then d else wait_status io ok time_out d)"

definition mouse_wait :: "'p ports \<Rightarrow> bool \<Rightarrow> 'p \<Rightarrow> 'p" where
  "mouse_wait io type d =
     (if \<not> type then wait_status io (\<lambda>st. st AND 1 = 1) 100000 d else wait_status io (\<lambda>st. st AND 2 = 0) 100000 d)"

definition mouse_read :: "'p ports \<Rightarrow> 'p \<Rightarrow> u8 \<times> 'p" where
  "mouse_read io d = io_inb io MOUSE_DATA_PORT (mouse_wait io False d)"

definition mouse_write :: "'p ports \<Rightarrow> u8 \<Rightarrow> 'p \<Rightarrow> u8 \<times> 'p" where
  "mouse_write io data d =
     (let d = mouse_wait io True d;
          d = io_outb io PS2_CMD_PORT MOUSE_CMD_CMD d;
          (ack, d) = mouse_read io d;
          d = mouse_wait io True d;
          d = io_outb io MOUSE_DATA_PORT data d
      in mouse_read io d)"

definition set_mouse_rate :: "'p ports \<Rightarrow> u8 \<Rightarrow> 'p \<Rightarrow> 'p" where
  "set_mouse_rate io rate d =
     (let d = mouse_wait io True d;
          d = io_outb io PS2_CMD_PORT MOUSE_CMD_CMD d;
          (ack, d) = mouse_read io d;
          d = io_outb io MOUSE_DATA_PORT MOUSE_CMD_SAMPLE_RATE d;
          (status, d) = mouse_read io d
      in if status \<noteq> MOUSE_ACKNOWLEDGE then d
         else let d = mouse_wait io True d;
                  d = io_outb io PS2_CMD_PORT MOUSE_CMD_CMD d;
                  (ack, d) = mouse_read io d;
                  d = io_outb io MOUSE_DATA_PORT rate d
              in snd (mouse_read io d))"

section \<open>The interrupt handler\<close>

definition get_mouse_status :: "u8 \<Rightarrow> MOUSE_STATUS" where
  "get_mouse_status b = \<lparr>left_button = b AND 0x01 \<noteq> 0, right_button = b AND 0x02 \<noteq> 0, middle_button = b AND 0x04 \<noteq> 0,
     always_1 = b AND 0x08 \<noteq> 0, x_sign = b AND 0x10 \<noteq> 0, y_sign = b AND 0x20 \<noteq> 0, x_overflow = b AND 0x40 \<noteq> 0,
     y_overflow = b AND 0x80 \<noteq> 0\<rparr>"

text \<open>The position after a packet: the two clamps as the code has them.\<close>

definition clamp :: "nat \<Rightarrow> int \<Rightarrow> int" where
  "clamp limit p = (let p = (if p < 0 then 0 else p) in if p > int limit then int limit - 1 else p)"

definition mouse_packet :: "'p apic_hw \<Rightarrow> 'p \<Rightarrow> 's mouse \<Rightarrow> ('p \<times> 's mouse) option" where
  "mouse_packet hw d m = do {
     let x = clamp VGA_TEXT_WIDTH (g_mouse_x_pos m + sint (mouse_byte m ! 1));
     let y = clamp VGA_TEXT_HEIGHT (g_mouse_y_pos m - sint (mouse_byte m ! 2));
     let m = m\<lparr>g_mouse_x_pos := x, g_mouse_y_pos := y, mouse_cycle := 0\<rparr>;
     let md = \<lparr>md_x = x, md_y = y, md_scroll = sint (mouse_byte m ! 3), md_buttons = mouse_byte m ! 0, md_event_type = 0\<rparr>;
     m \<leftarrow> (case mouse_event_run m of
             Some cb \<Rightarrow> do { e \<leftarrow> cb md (menv m); Some (m\<lparr>menv := e\<rparr>) }
           | None \<Rightarrow> Some m);
     Some (lapic_store hw (LAPIC_REG_EOI div 4) 0 d, m)
   }"

definition store_byte :: "'p apic_hw \<Rightarrow> nat \<Rightarrow> 'p \<Rightarrow> 's mouse \<Rightarrow> 'p \<times> 's mouse" where
  "store_byte hw i d m =
     (case mouse_read (cpu_ports hw) d of
        (b, d) \<Rightarrow> (d, m\<lparr>mouse_byte := (mouse_byte m)[i := b], mouse_cycle := mouse_cycle m + 1\<rparr>))"

definition mouse_handler :: "'p apic_hw \<Rightarrow> registers \<Rightarrow> 'p \<times> 's mouse \<Rightarrow> ('p \<times> 's mouse) option" where
  "mouse_handler hw r dm =
     (case dm of (d, m) \<Rightarrow>
        if mouse_cycle m = 0 then
          (case store_byte hw 0 d m of (d, m) \<Rightarrow> Some (d, m\<lparr>g_status := get_mouse_status (mouse_byte m ! 0)\<rparr>))
        else if mouse_cycle m = 1 then Some (store_byte hw 1 d m)
        else if mouse_cycle m = 2 then Some (store_byte hw 2 d m)
        else if mouse_cycle m = 3 then (case store_byte hw 3 d m of (d, m) \<Rightarrow> mouse_packet hw d m)
        else mouse_packet hw d m)"

definition register_mouse_callback :: "(mouse_event_data \<Rightarrow> 's \<Rightarrow> 's option) \<Rightarrow> 's mouse \<Rightarrow> 's mouse" where
  "register_mouse_callback callback m = m\<lparr>mouse_event_run := Some callback\<rparr>"

definition simulate_mouse_event :: "mouse_event_data \<Rightarrow> 's mouse \<Rightarrow> 's mouse option" where
  "simulate_mouse_event md m =
     (case mouse_event_run m of
        Some cb \<Rightarrow> do { e \<leftarrow> cb md (menv m); Some (m\<lparr>menv := e\<rparr>) }
      | None \<Rightarrow> Some m)"

section \<open>Initialisation\<close>

text \<open>The three sample rates whose sequence asks the mouse for more features.\<close>

definition magic_rates :: "'p ports \<Rightarrow> u8 list \<Rightarrow> 'p \<Rightarrow> 'p" where
  "magic_rates io rates d = fold (\<lambda>rate d. set_mouse_rate io rate (mouse_wait io True d)) rates d"

definition mouse_init :: "'p apic_hw \<Rightarrow> ('p, 's mouse) intr \<Rightarrow> ('p, 's mouse) intr option" where
  "mouse_init hw s =
     (let io = cpu_ports hw;
          s = s\<lparr>ienv := (ienv s)\<lparr>g_mouse_x_pos := 5, g_mouse_y_pos := 2\<rparr>\<rparr>;
          d = mouse_wait io True (ihw s);
          d = io_outb io PS2_CMD_PORT MOUSE_CMD_CMD d;
          (ack, d) = mouse_read io d;
          d = io_outb io PS2_CMD_PORT 0xA8 d;
          (ack, d) = mouse_write io MOUSE_CMD_MOUSE_ID d;
          d = (if ack \<noteq> MOUSE_ACKNOWLEDGE then d else snd (mouse_read io d));
          d = magic_rates io [200, 100, 80] d;
          (ack, d) = mouse_write io MOUSE_CMD_MOUSE_ID d;
          d = (if ack = MOUSE_ACKNOWLEDGE then snd (mouse_read io (mouse_wait io True d)) else d);
          d = magic_rates io [200, 200, 80] d;
          (ack, d) = mouse_write io MOUSE_CMD_MOUSE_ID d;
          d = (if ack = MOUSE_ACKNOWLEDGE then snd (mouse_read io d) else d);
          (status, d) = mouse_read io d;
          d = mouse_wait io True d;
          d = io_outb io PS2_CMD_PORT 0x20 d;
          d = mouse_wait io False d;
          (b, d) = io_inb io MOUSE_DATA_PORT d;
          d = mouse_wait io True d;
          d = io_outb io PS2_CMD_PORT (ucast MOUSE_DATA_PORT) d;
          d = mouse_wait io True d;
          d = io_outb io MOUSE_DATA_PORT (b OR 2) d;
          (ack, d) = mouse_write io MOUSE_CMD_SET_DEFAULTS d;
          (status, d) = mouse_read io d
      in if status \<noteq> MOUSE_ACKNOWLEDGE then Some (s\<lparr>ihw := d\<rparr>)
         else let (ack, d) = mouse_write io MOUSE_CMD_ENABLE_PACKET_STREAMING d;
                  (status, d) = mouse_read io d
              in if status \<noteq> MOUSE_ACKNOWLEDGE then Some (s\<lparr>ihw := d\<rparr>)
                 else irq_install_handler hw 12 (Isr (mouse_handler hw)) 0 (s\<lparr>ihw := d\<rparr>))"

section \<open>Packets\<close>

text \<open>Four interrupts, and the bytes that they read.\<close>

fun run_irqs :: "'p apic_hw \<Rightarrow> nat \<Rightarrow> 'p \<times> 's mouse \<Rightarrow> ('p \<times> 's mouse) option" where
  "run_irqs hw 0 dm = Some dm"
| "run_irqs hw (Suc n) dm = do { dm \<leftarrow> mouse_handler hw \<lparr>saved = [], int_no = 44, err_code = 0, cpu_frame = []\<rparr> dm; run_irqs hw n dm }"

fun read_bytes :: "'p ports \<Rightarrow> nat \<Rightarrow> 'p \<Rightarrow> u8 list \<times> 'p" where
  "read_bytes io 0 d = ([], d)"
| "read_bytes io (Suc n) d = (let (b, d) = mouse_read io d; (bs, d) = read_bytes io n d in (b # bs, d))"

definition mouse_ok :: "'s mouse \<Rightarrow> bool" where
  "mouse_ok m \<longleftrightarrow> mouse_cycle m < 4 \<and> length (mouse_byte m) = 4 \<and>
     0 \<le> g_mouse_x_pos m \<and> g_mouse_x_pos m \<le> int VGA_TEXT_WIDTH \<and> 0 \<le> g_mouse_y_pos m \<and> g_mouse_y_pos m \<le> int VGA_TEXT_HEIGHT"

lemma clamp_bounds: "0 < limit \<Longrightarrow> 0 \<le> clamp limit p \<and> clamp limit p \<le> int limit"
  by (simp add: clamp_def Let_def)

lemma mouse_packet_ok: "mouse_packet hw d m = Some (d', m') \<Longrightarrow> length (mouse_byte m) = 4 \<Longrightarrow> mouse_ok m'"
  using clamp_bounds [of VGA_TEXT_WIDTH "g_mouse_x_pos m + sint (mouse_byte m ! 1)"]
    clamp_bounds [of VGA_TEXT_HEIGHT "g_mouse_y_pos m - sint (mouse_byte m ! 2)"]
  by (auto simp: mouse_packet_def Let_def mouse_ok_def VGA_TEXT_WIDTH_def VGA_TEXT_HEIGHT_def split: option.splits bind_splits)

lemma mouse_handler_ok:
  assumes m: "mouse_ok m" and h: "mouse_handler hw r (d, m) = Some (d', m')"
  shows "mouse_ok m'"
proof -
  have "mouse_cycle m < 4" using m by (simp add: mouse_ok_def)
  then consider "mouse_cycle m = 0" | "mouse_cycle m = 1" | "mouse_cycle m = 2" | "mouse_cycle m = 3"
  proof -
    have "unat (mouse_cycle m) < 4" using \<open>mouse_cycle m < 4\<close> by (simp add: word_less_nat_alt)
    then have "unat (mouse_cycle m) = 0 \<or> unat (mouse_cycle m) = 1 \<or> unat (mouse_cycle m) = 2 \<or> unat (mouse_cycle m) = 3"
      by linarith
    then show thesis using that by (simp add: word_unat_eq_iff) blast
  qed
  then show ?thesis
    using m h by cases (auto simp: mouse_handler_def store_byte_def mouse_ok_def split: prod.splits dest!: mouse_packet_ok)
qed


definition mouse_port :: "u8 list ports" where
  "mouse_port = \<lparr>io_inb = (\<lambda>port bs. if port = 0x64 then (1, bs) else (hd bs, tl bs)), io_outb = (\<lambda>_ _ d. d),
     io_inw = (\<lambda>_ d. (0, d)), io_outw = (\<lambda>_ _ d. d), io_inl = (\<lambda>_ d. (0, d)), io_outl = (\<lambda>_ _ d. d)\<rparr>"

definition mouse_hw :: "u8 list apic_hw" where
  "mouse_hw = \<lparr>cpu_ports = mouse_port, lapic_load = (\<lambda>_ d. (0, d)), lapic_store = (\<lambda>_ _ d. d), ioapic_load = (\<lambda>_ d. (0, d)),
     ioapic_store = (\<lambda>_ _ d. d), msr_read = (\<lambda>_ _. 0), msr_write = (\<lambda>_ _ d. d), cpuid_regs = (\<lambda>_ _. (0, 0, 0, 0))\<rparr>"

definition mouse_start :: "mouse_event_data list mouse" where
  "mouse_start = \<lparr>menv = [], g_mouse_x_pos = 5, g_mouse_y_pos = 2, g_status = get_mouse_status 0,
     mouse_event_run = Some (\<lambda>md log. Some (md # log)), mouse_cycle = 0, mouse_byte = [0, 0, 0, 0]\<rparr>"

lemma mouse_port_read: "mouse_read mouse_port (b # bs) = (b, bs)"
proof -
  have "(100000 :: nat) = Suc 99999" by simp
  then have "mouse_wait mouse_port False d = d" for d
    unfolding mouse_wait_def by (simp only: wait_status.simps) (simp add: mouse_port_def PS2_CMD_PORT_def)
  then show ?thesis by (simp add: mouse_read_def mouse_port_def MOUSE_DATA_PORT_def)
qed


text \<open>The clamp lets the position reach the width itself, one past the last column, where the terminal's callback reads a cell
  outside of the row.\<close>

lemma clamp_reaches_limit: "clamp limit (int limit) = int limit"
  by (simp add: clamp_def Let_def)

lemma mouse_event_past_row:
  assumes "md_x md = int VGA_TEXT_WIDTH"
  shows "get_mouse_event font md t = None"
proof -
  have "draw_cursor font (int VGA_TEXT_WIDTH) y True t' = None" for y t'
    by (simp add: draw_cursor_def get_cell_def Let_def split: Option.bind_split)
  then show ?thesis using assms by (simp add: get_mouse_event_def Let_def split: Option.bind_split)
qed

end
