(* ===== verification/Pci.thy ===== *)
theory Pci
  imports Ports "HOL-Library.Monad_Syntax"
begin

unbundle bit_operations_syntax

text \<open>
  The PCI bus, \<open>kernel/drivers/pci.c\<close>: access to the configuration space through two ports, enumeration of the buses, and the
  walk over the buses that lists devices and starts the network card.

  The linked lists of devices and buses are lists, the tree of buses is a datatype; the back pointers \<open>parent\<close>, \<open>self\<close> and
  \<open>dev->bus\<close> are given by the position in the tree.  \<open>kmalloc\<close> is taken to succeed, as the code does.  The code leaves \<open>subordinate\<close> of
  a new bus uninitialised and never reads it; it starts from 0 here.  The mutual recursion of \<open>enumerate_pcibus\<close>,
  \<open>enumerate_pcidev\<close> and \<open>alloc_new_bus\<close> has no bound in the code; the first argument of \<open>enumerate_pcibus\<close> bounds its depth, and \<open>None\<close> means that
  the bound was reached.
\<close>

section \<open>Configuration space\<close>

definition PCI_CFG_ADDR :: u16 where "PCI_CFG_ADDR = 0xCF8"
definition PCI_CFG_DATA :: u16 where "PCI_CFG_DATA = 0xCFC"

definition cfg_addr :: "u32 \<Rightarrow> u32 \<Rightarrow> u32 \<Rightarrow> u32 \<Rightarrow> u32" where
  "cfg_addr bus slot func off =
     push_bit 16 bus OR push_bit 11 slot OR push_bit 8 func OR (off AND 0xFC) OR 0x80000000"

definition pci_readl :: "'p ports \<Rightarrow> u32 \<Rightarrow> u32 \<Rightarrow> u32 \<Rightarrow> u8 \<Rightarrow> 'p \<Rightarrow> u32 \<times> 'p" where
  "pci_readl io bus slot func off d =
     io_inl io PCI_CFG_DATA (io_outl io PCI_CFG_ADDR (cfg_addr bus slot func (ucast off)) d)"

definition pci_readw :: "'p ports \<Rightarrow> u32 \<Rightarrow> u32 \<Rightarrow> u32 \<Rightarrow> u8 \<Rightarrow> 'p \<Rightarrow> u16 \<times> 'p" where
  "pci_readw io bus slot func off d =
     (case pci_readl io bus slot func off d of (v, d) \<Rightarrow> (ucast (drop_bit (unat (off AND 2) * 8) v AND 0xffff), d))"

definition pci_readb :: "'p ports \<Rightarrow> u32 \<Rightarrow> u32 \<Rightarrow> u32 \<Rightarrow> u8 \<Rightarrow> 'p \<Rightarrow> u8 \<times> 'p" where
  "pci_readb io bus slot func off d =
     (case pci_readl io bus slot func (off AND NOT 3) d of (v, d) \<Rightarrow> (ucast (drop_bit (unat (off AND 3) * 8) v AND 0xff), d))"

definition pci_writel :: "'p ports \<Rightarrow> u32 \<Rightarrow> u32 \<Rightarrow> u32 \<Rightarrow> u32 \<Rightarrow> u32 \<Rightarrow> 'p \<Rightarrow> 'p" where
  "pci_writel io bus slot func off data d =
     io_outl io PCI_CFG_DATA data (io_outl io PCI_CFG_ADDR (cfg_addr bus slot func off) d)"

definition pci_writew :: "'p ports \<Rightarrow> u32 \<Rightarrow> u32 \<Rightarrow> u32 \<Rightarrow> u32 \<Rightarrow> u16 \<Rightarrow> 'p \<Rightarrow> 'p" where
  "pci_writew io bus slot func off data d =
     (let align = off AND NOT 3; shift = unat (off AND 2) * 8
      in case pci_readl io bus slot func (ucast align) d of
           (v, d) \<Rightarrow> pci_writel io bus slot func align ((v AND NOT (push_bit shift 0xffff)) OR push_bit shift (ucast data)) d)"

definition pci_writeb :: "'p ports \<Rightarrow> u32 \<Rightarrow> u32 \<Rightarrow> u32 \<Rightarrow> u32 \<Rightarrow> u8 \<Rightarrow> 'p \<Rightarrow> 'p" where
  "pci_writeb io bus slot func off data d =
     (let align = off AND NOT 3; shift = unat (off AND 3) * 8
      in case pci_readl io bus slot func (ucast align) d of
           (v, d) \<Rightarrow> pci_writel io bus slot func align ((v AND NOT (push_bit shift 0xff)) OR push_bit shift (ucast data)) d)"

section \<open>Enumeration\<close>

text \<open>Offsets of fields of \<open>struct pci_hdr\<close>.\<close>

definition off_vendid :: u8 where "off_vendid = 0x00"
definition off_subclass :: u8 where "off_subclass = 0x0A"
definition off_clas :: u8 where "off_clas = 0x0B"
definition off_htype :: u8 where "off_htype = 0x0E"
definition off_ss_busnum :: u8 where "off_ss_busnum = 0x1A"

record pci_dev =
  devfn :: u32
  vendor :: u16
  device :: u16
  dev_class :: u32

definition PCI_DEV :: "u32 \<Rightarrow> u32" where "PCI_DEV n = drop_bit 3 n"
definition PCI_FN :: "u32 \<Rightarrow> u32" where "PCI_FN n = n AND 7"

datatype pci_bus = Pci_Bus (pb_bus: u8) (pb_primary: u8) (pb_subordinate: u8) (devices: "pci_dev list") (children: "pci_bus list")

type_synonym 'p enum = "pci_bus \<Rightarrow> 'p \<Rightarrow> (pci_bus \<times> 'p) option"

definition alloc_new_bus :: "'p enum \<Rightarrow> 'p ports \<Rightarrow> pci_bus \<Rightarrow> pci_dev \<Rightarrow> 'p \<Rightarrow> (pci_bus \<times> 'p) option" where
  "alloc_new_bus rec_bus io parent self d = do {
     let (sec, d) = pci_readb io (ucast (pb_bus parent)) (PCI_DEV (devfn self)) (PCI_FN (devfn self)) off_ss_busnum d;
     let sub = (if sec = pb_bus parent then pb_subordinate parent + 1 else pb_subordinate parent);
     (child, d) \<leftarrow> rec_bus (Pci_Bus sec sec 0 [] []) d;
     Some (Pci_Bus (pb_bus parent) (pb_primary parent) sub (devices parent) (children parent @ [child]), d)
   }"

definition enumerate_pcidev :: "'p enum \<Rightarrow> 'p ports \<Rightarrow> u8 \<Rightarrow> u8 \<Rightarrow> pci_bus \<Rightarrow> 'p \<Rightarrow> (pci_bus \<times> 'p) option" where
  "enumerate_pcidev rec_bus io dev func parent d =
     (let p = ucast (pb_primary parent);
          (tmp, d) = pci_readl io p (ucast dev) (ucast func) off_vendid d
      in if tmp = 0xffffffff then Some (parent, d)
         else do {
           let (htype, d) = pci_readb io p (ucast dev) (ucast func) off_htype d;
           let (cls, d) = pci_readb io p (ucast dev) (ucast func) off_clas d;
           let self = \<lparr>devfn = push_bit 3 (ucast dev) OR (ucast func AND 7), vendor = ucast (tmp AND 0xffff),
                       device = ucast (drop_bit 16 tmp), dev_class = ucast cls\<rparr>;
           (b, d) \<leftarrow> (if htype AND 0x7f = 1 then alloc_new_bus rec_bus io parent self d else Some (parent, d));
           Some (Pci_Bus (pb_bus b) (pb_primary b) (pb_subordinate b) (devices b @ [self]) (children b), d)
         })"

text \<open>The two loops, over the functions of a device and over the devices.\<close>

fun scan_fns :: "'p enum \<Rightarrow> 'p ports \<Rightarrow> u8 \<Rightarrow> u8 list \<Rightarrow> pci_bus \<Rightarrow> 'p \<Rightarrow> (pci_bus \<times> 'p) option" where
  "scan_fns rec_bus io dev [] bus d = Some (bus, d)"
| "scan_fns rec_bus io dev (func # rest) bus d =
     (let (htype, d) = pci_readb io (ucast (pb_primary bus)) (ucast dev) (ucast func) off_htype d
      in if htype = 0xff then Some (bus, d)
         else do {
           (bus, d) \<leftarrow> enumerate_pcidev rec_bus io dev func bus d;
           if htype AND 0x80 = 0 then Some (bus, d) else scan_fns rec_bus io dev rest bus d
         })"

fun scan_devs :: "'p enum \<Rightarrow> 'p ports \<Rightarrow> u8 list \<Rightarrow> pci_bus \<Rightarrow> 'p \<Rightarrow> (pci_bus \<times> 'p) option" where
  "scan_devs rec_bus io [] bus d = Some (bus, d)"
| "scan_devs rec_bus io (dev # rest) bus d = do {
     (bus, d) \<leftarrow> scan_fns rec_bus io dev (map of_nat [0..<8]) bus d;
     scan_devs rec_bus io rest bus d
   }"

fun enumerate_pcibus :: "nat \<Rightarrow> 'p ports \<Rightarrow> pci_bus \<Rightarrow> 'p \<Rightarrow> (pci_bus \<times> 'p) option" where
  "enumerate_pcibus 0 io bus d = None"
| "enumerate_pcibus (Suc depth) io bus d = scan_devs (enumerate_pcibus depth io) io (map of_nat [0..<32]) bus d"

definition pci_enumarate :: "nat \<Rightarrow> 'p ports \<Rightarrow> 'p \<Rightarrow> (pci_bus \<times> 'p) option" where
  "pci_enumarate depth io d = enumerate_pcibus depth io (Pci_Bus 0 0 0 [] []) d"

section \<open>The walk\<close>

text \<open>The buses in the order of the walk, from a list of siblings: the first bus, then its children and nothing
  else if it has any, otherwise its siblings.  The array \<open>visited\<close> has no effect on a tree.\<close>

function walk_buses :: "pci_bus list \<Rightarrow> pci_bus list" where
  "walk_buses [] = []"
| "walk_buses (b # siblings) = b # walk_buses (if children b \<noteq> [] then children b else siblings)"
  by pat_completeness auto

termination
proof (relation "measure (size_list size)")
  fix b :: pci_bus and siblings :: "pci_bus list"
  show "(if children b \<noteq> [] then children b else siblings, b # siblings) \<in> measure (size_list size)"
    by (cases b) auto
qed simp

definition walk_devs :: "pci_bus \<Rightarrow> (u8 \<times> pci_dev) list" where
  "walk_devs root = concat (map (\<lambda>b. map (Pair (pb_primary b)) (devices b)) (walk_buses [root]))"

definition PCI_CLASSES_NUM :: nat where "PCI_CLASSES_NUM = 9"

definition pci_classes :: "string list" where
  "pci_classes = [''Unclassified'', ''Mass Storage Controller'', ''Network Controller'', ''Display Controller'',
     ''Multimedia Controller'', ''Memory Controller'', ''Bridge'', ''Simple Communication Controller'', ''Base System Peripheral'']"

definition class2str :: "u8 \<Rightarrow> string option" where
  "class2str c =
     (if PCI_CLASSES_NUM < unat c then Some ''Unknown''
      else if unat c < length pci_classes then Some (pci_classes ! unat c) else None)"

text \<open>The lines that \<open>pci_lspci\<close> prints, as bus, device, function and class name.\<close>

fun lspci_lines :: "(u8 \<times> pci_dev) list \<Rightarrow> (u8 \<times> u32 \<times> u32 \<times> string) list option" where
  "lspci_lines [] = Some []"
| "lspci_lines ((bus, dev) # rest) = do {
     name \<leftarrow> class2str (ucast (dev_class dev AND 0xff));
     lines \<leftarrow> lspci_lines rest;
     Some ((bus, PCI_DEV (devfn dev), PCI_FN (devfn dev), name) # lines)
   }"

definition pci_lspci :: "pci_bus \<Rightarrow> (u8 \<times> u32 \<times> u32 \<times> string) list option" where
  "pci_lspci root = lspci_lines (walk_devs root)"

definition PCI_CLASS_NETWORK :: u32 where "PCI_CLASS_NETWORK = 0x02"

text \<open>The subclass byte that it also reads is only printed.  The cards that \<open>pci_detect_nics\<close> initialises, as the arguments of \<open>e1000_init\<close>.\<close>

definition nic_detect_cb :: "u8 \<times> pci_dev \<Rightarrow> (u8 \<times> u8 \<times> u8) option" where
  "nic_detect_cb bd =
     (case bd of (bus, dev) \<Rightarrow>
        if dev_class dev AND 0xff \<noteq> PCI_CLASS_NETWORK then None
        else if vendor dev = 0x8086 \<and> device dev = 0x100E then Some (bus, ucast (PCI_DEV (devfn dev)), ucast (PCI_FN (devfn dev)))
        else None)"

definition pci_detect_nics :: "pci_bus \<Rightarrow> (u8 \<times> u8 \<times> u8) list" where
  "pci_detect_nics root = List.map_filter nic_detect_cb (walk_devs root)"

end
