(* ===== verification/Pci_Enum.thy ===== *)
theory Pci_Enum
  imports Pci_Props
begin

unbundle bit_operations_syntax

text \<open>
  The enumeration of the buses: which functions it lists, when it ends, and a configuration on which it does not.
\<close>

section \<open>What is to be found\<close>

text \<open>The header type, the first register and the bus behind a function, in terms of the registers \<open>c\<close>.\<close>

definition htype :: "(u32 \<Rightarrow> u32) \<Rightarrow> u8 \<Rightarrow> nat \<Rightarrow> nat \<Rightarrow> u8" where
  "htype c p dev func = cfg_byte c (ucast p) (of_nat dev) (of_nat func) off_htype"

definition vend :: "(u32 \<Rightarrow> u32) \<Rightarrow> u8 \<Rightarrow> nat \<Rightarrow> nat \<Rightarrow> u32" where
  "vend c p dev func = c (cfg_addr (ucast p) (of_nat dev) (of_nat func) 0)"

definition behind :: "(u32 \<Rightarrow> u32) \<Rightarrow> u8 \<Rightarrow> nat \<times> nat \<Rightarrow> u8" where
  "behind c p df = (case df of (dev, func) \<Rightarrow> cfg_byte c (ucast p) (of_nat dev) (of_nat func) off_ss_busnum)"

definition is_bridge :: "(u32 \<Rightarrow> u32) \<Rightarrow> u8 \<Rightarrow> nat \<times> nat \<Rightarrow> bool" where
  "is_bridge c p df = (case df of (dev, func) \<Rightarrow> htype c p dev func AND 0x7f = 1)"

text \<open>A function is listed when it answers and every lower function of its device is there and marked as one of several.\<close>

definition listed :: "(u32 \<Rightarrow> u32) \<Rightarrow> u8 \<Rightarrow> nat \<times> nat \<Rightarrow> bool" where
  "listed c p df = (case df of (dev, func) \<Rightarrow>
     (\<forall>g < func. htype c p dev g \<noteq> 0xff \<and> htype c p dev g AND 0x80 \<noteq> 0) \<and> htype c p dev func \<noteq> 0xff \<and> vend c p dev func \<noteq> 0xffffffff)"

definition listed_fns :: "(u32 \<Rightarrow> u32) \<Rightarrow> u8 \<Rightarrow> (nat \<times> nat) list" where
  "listed_fns c p = filter (listed c p) (concat (map (\<lambda>dev. map (Pair dev) [0..<8]) [0..<32]))"

definition describe :: "(u32 \<Rightarrow> u32) \<Rightarrow> u8 \<Rightarrow> nat \<times> nat \<Rightarrow> pci_dev" where
  "describe c p df = (case df of (dev, func) \<Rightarrow>
     \<lparr>devfn = of_nat (8 * dev + func), vendor = ucast (vend c p dev func), device = ucast (drop_bit 16 (vend c p dev func)),
      dev_class = ucast (cfg_byte c (ucast p) (of_nat dev) (of_nat func) off_clas)\<rparr>)"

text \<open>A bus that lists exactly these functions, and below it exactly the buses behind its bridges.\<close>

fun bus_ok :: "(u32 \<Rightarrow> u32) \<Rightarrow> pci_bus \<Rightarrow> bool" where
  "bus_ok c (Pci_Bus b p sub devs ch) \<longleftrightarrow>
     devs = map (describe c p) (listed_fns c p) \<and>
     map pb_primary ch = map (behind c p) (filter (is_bridge c p) (listed_fns c p)) \<and> (\<forall>x \<in> set ch. bus_ok c x)"

section \<open>The loops\<close>

text \<open>\<open>bus'\<close> is \<open>bus\<close> after the functions \<open>L\<close> have been added.\<close>

definition added :: "(u32 \<Rightarrow> u32) \<Rightarrow> u8 \<Rightarrow> (nat \<times> nat) list \<Rightarrow> pci_bus \<Rightarrow> pci_bus \<Rightarrow> bool" where
  "added c p L bus bus' \<longleftrightarrow> pb_bus bus' = pb_bus bus \<and> pb_primary bus' = pb_primary bus \<and>
     devices bus' = devices bus @ map (describe c p) L \<and>
     (\<exists>cs. children bus' = children bus @ cs \<and> map pb_primary cs = map (behind c p) (filter (is_bridge c p) L) \<and> (\<forall>x \<in> set cs. bus_ok c x))"

lemma added_refl [simp]: "added c p [] bus bus"
  by (simp add: added_def)

lemma added_trans: "added c p L1 b1 b2 \<Longrightarrow> added c p L2 b2 b3 \<Longrightarrow> added c p (L1 @ L2) b1 b3"
proof -
  assume a: "added c p L1 b1 b2" "added c p L2 b2 b3"
  then obtain cs cs' where "children b2 = children b1 @ cs" "map pb_primary cs = map (behind c p) (filter (is_bridge c p) L1)"
    "\<forall>x \<in> set cs. bus_ok c x" "children b3 = children b2 @ cs'"
    "map pb_primary cs' = map (behind c p) (filter (is_bridge c p) L2)" "\<forall>x \<in> set cs'. bus_ok c x"
    unfolding added_def by blast
  then show "added c p (L1 @ L2) b1 b3" using a unfolding added_def by (auto intro!: exI [of _ "cs @ cs'"])
qed

text \<open>What the recursive call does for every bus behind a bridge of bus \<open>p\<close>.\<close>

definition rec_ok :: "('p \<Rightarrow> pci_view) \<Rightarrow> (u32 \<Rightarrow> u32) \<Rightarrow> 'p enum \<Rightarrow> u8 \<Rightarrow> bool" where
  "rec_ok view c rec_bus p \<longleftrightarrow> (\<forall>df d. listed c p df \<longrightarrow> is_bridge c p df \<longrightarrow> fst df < 32 \<longrightarrow> snd df < 8 \<longrightarrow> regs (view d) = c \<longrightarrow>
     (\<exists>t d'. rec_bus (Pci_Bus (behind c p df) (behind c p df) 0 [] []) d = Some (t, d') \<and> bus_ok c t \<and>
        pb_primary t = behind c p df \<and> regs (view d') = c))"

lemma devfn_fields:
  assumes "dev < 32" "func < 8"
  shows "push_bit 3 (ucast (of_nat dev :: u8)) OR (ucast (of_nat func :: u8) AND 7) = (of_nat (8 * dev + func) :: u32)"
    "PCI_DEV (of_nat (8 * dev + func)) = of_nat dev" "PCI_FN (of_nat (8 * dev + func)) = of_nat func"
    "(ucast (of_nat dev :: u8) :: u32) = of_nat dev" "(ucast (of_nat func :: u8) :: u32) = of_nat func"
proof -
  have m: "(7 :: u32) = mask 3" by (simp add: mask_eq_exp_minus_1)
  have u: "unat (of_nat n :: u32) = n" "unat (of_nat n :: u8) = n" if "n < 256" for n using that by (simp_all add: unat_of_nat)
  show c: "(ucast (of_nat dev :: u8) :: u32) = of_nat dev" "(ucast (of_nat func :: u8) :: u32) = of_nat func"
    using assms by (simp_all add: word_unat_eq_iff unsigned_ucast_eq u take_bit_nat_eq_self)
  let ?x = "of_nat (8 * dev + func) :: u32"
  have ux: "unat ?x = 8 * dev + func" "unat (of_nat dev :: u32) = dev" "unat (of_nat func :: u32) = func" using assms by (simp_all only: u)
  show D: "PCI_DEV ?x = of_nat dev"
    using assms ux by (simp add: PCI_DEV_def word_unat_eq_iff unsigned_drop_bit_eq drop_bit_eq_div)
  show F: "PCI_FN ?x = of_nat func"
    unfolding PCI_FN_def m take_bit_eq_mask [symmetric] word_unat_eq_iff unsigned_take_bit_eq ux
    using assms by (simp add: take_bit_eq_mod)
  have "push_bit 3 (drop_bit 3 ?x) OR (?x AND 7) = ?x"
    unfolding m by (rule bit_word_eqI) (auto simp: bit_simps)
  moreover have "(of_nat func :: u32) AND 7 = of_nat func" using F by (metis PCI_FN_def and.assoc and.idem)
  ultimately show "push_bit 3 (ucast (of_nat dev :: u8)) OR (ucast (of_nat func :: u8) AND 7) = ?x"
    using D F by (simp only: c PCI_DEV_def PCI_FN_def)
qed

lemma enumerate_pcidev_adds:
  assumes p: "pci_protocol io view rw" and r: "rec_ok view c rec_bus (pb_primary bus)" and v: "regs (view d) = c"
    and b: "pb_bus bus = pb_primary bus" and df: "dev < 32" "func < 8"
    and l: "vend c (pb_primary bus) dev func \<noteq> 0xffffffff \<Longrightarrow> listed c (pb_primary bus) (dev, func)"
  shows "\<exists>bus' d'. enumerate_pcidev rec_bus io (of_nat dev) (of_nat func) bus d = Some (bus', d') \<and> regs (view d') = c \<and>
     added c (pb_primary bus) (if vend c (pb_primary bus) dev func = 0xffffffff then [] else [(dev, func)]) bus bus'"
proof -
  let ?p = "pb_primary bus" and ?P = "ucast (pb_primary bus) :: u32"
  let ?D = "of_nat dev :: u32" and ?F = "of_nat func :: u32"
  note fields = devfn_fields [OF df]
  obtain tmp d1 where r1: "pci_readl io ?P ?D ?F off_vendid d = (tmp, d1)" by fastforce
  have t: "tmp = vend c ?p dev func" "regs (view d1) = c"
    using readl_view [OF p, of ?P ?D ?F off_vendid d] r1 v by (simp_all add: vend_def off_vendid_def)
  show ?thesis
  proof (cases "tmp = 0xffffffff")
    case True
    then show ?thesis using r1 t fields by (simp add: enumerate_pcidev_def)
  next
    case False
    obtain h d2 where r2: "pci_readb io ?P ?D ?F off_htype d1 = (h, d2)" by fastforce
    have h: "h = htype c ?p dev func" "regs (view d2) = c"
      using readb_view [OF p, of ?P ?D ?F off_htype d1] r2 t(2) by (simp_all add: htype_def)
    obtain k d3 where r3: "pci_readb io ?P ?D ?F off_clas d2 = (k, d3)" by fastforce
    have k: "k = cfg_byte c ?P ?D ?F off_clas" "regs (view d3) = c"
      using readb_view [OF p, of ?P ?D ?F off_clas d2] r3 h(2) by simp_all
    let ?self = "describe c ?p (dev, func)"
    have m: "ucast (tmp AND 0xffff) = (ucast tmp :: u16)"
      by (rule bit_word_eqI) (simp only: bit_unsigned_iff bit_and_iff bit_masks comp_def, auto)
    define self where "self = \<lparr>devfn = push_bit 3 (ucast (of_nat dev :: u8)) OR (ucast (of_nat func :: u8) AND 7), vendor = ucast (tmp AND 0xffff),
        device = ucast (drop_bit 16 tmp), dev_class = ucast k\<rparr>"
    have self: "self = ?self" unfolding self_def m fields(1) k(1) using t(1) by (simp add: describe_def)
    have e: "enumerate_pcidev rec_bus io (of_nat dev) (of_nat func) bus d = do {
        (b, d) \<leftarrow> (if h AND 0x7f = 1 then alloc_new_bus rec_bus io bus ?self d3 else Some (bus, d3));
        Some (Pci_Bus (pb_bus b) (pb_primary b) (pb_subordinate b) (devices b @ [?self]) (children b), d) }"
      using False r1 r2 r3 unfolding enumerate_pcidev_def fields(4,5) self [symmetric] self_def by (simp add: Let_def)
    have li: "listed c ?p (dev, func)" using l False t(1) by simp
    show ?thesis
    proof (cases "is_bridge c ?p (dev, func)")
      case nb: False
      then have "\<not> h AND 0x7f = 1" by (simp add: is_bridge_def h)
      then show ?thesis using e k(2) False t(1) nb by (simp add: added_def)
    next
      case br: True
      then have hb: "h AND 0x7f = 1" by (simp add: is_bridge_def h)
      obtain q d4 where r4: "pci_readb io ?P ?D ?F off_ss_busnum d3 = (q, d4)" by fastforce
      have q: "q = behind c ?p (dev, func)" "regs (view d4) = c"
        using readb_view [OF p, of ?P ?D ?F off_ss_busnum d3] r4 k(2) by (simp_all add: behind_def)
      obtain ch d5 where ch: "rec_bus (Pci_Bus q q 0 [] []) d4 = Some (ch, d5)" "bus_ok c ch" "pb_primary ch = q" "regs (view d5) = c"
        using r li br df q unfolding rec_ok_def by fastforce
      have dv: "devfn ?self = of_nat (8 * dev + func)" by (simp add: describe_def)
      have "\<exists>sub. alloc_new_bus rec_bus io bus ?self d3 = Some (Pci_Bus (pb_bus bus) ?p sub (devices bus) (children bus @ [ch]), d5)"
        unfolding alloc_new_bus_def dv fields(2,3) b r4 using ch(1) by simp
      then show ?thesis using e hb br ch q(1) False t(1) by (auto simp: added_def)
    qed
  qed
qed

text \<open>The functions that a scan from \<open>k\<close> on finds, when every lower function asks to go on.\<close>

definition goes_on :: "(u32 \<Rightarrow> u32) \<Rightarrow> u8 \<Rightarrow> nat \<Rightarrow> nat \<Rightarrow> bool" where
  "goes_on c p dev k \<longleftrightarrow> (\<forall>g < k. htype c p dev g \<noteq> 0xff \<and> htype c p dev g AND 0x80 \<noteq> 0)"

lemma listed_stops:
  assumes "\<not> goes_on c p dev k"
  shows "filter (listed c p) (map (Pair dev) [k..<n]) = []"
  using assms by (force simp: filter_empty_conv listed_def goes_on_def dest: less_le_trans)

lemma scan_fns_adds:
  assumes p: "pci_protocol io view rw" and r: "rec_ok view c rec_bus (pb_primary bus)" and v: "regs (view d) = c"
    and b: "pb_bus bus = pb_primary bus" and dev: "dev < 32" and k: "k \<le> 8" "goes_on c (pb_primary bus) dev k"
  shows "\<exists>bus' d'. scan_fns rec_bus io (of_nat dev) (map of_nat [k..<8]) bus d = Some (bus', d') \<and> regs (view d') = c \<and>
     added c (pb_primary bus) (filter (listed c (pb_primary bus)) (map (Pair dev) [k..<8])) bus bus'"
  using r v b k
proof (induction "8 - k" arbitrary: k bus d)
  case 0
  then show ?case by simp
next
  case (Suc n)
  let ?p = "pb_primary bus"
  have k: "k < 8" using Suc.hyps(2) by simp
  then have up: "[k..<8] = k # [Suc k..<8]" by (simp add: upt_conv_Cons)
  note fields = devfn_fields(4,5) [OF dev k]
  obtain h d1 where r1: "pci_readb io (ucast ?p) (of_nat dev) (of_nat k) off_htype d = (h, d1)" by fastforce
  have h: "h = htype c ?p dev k" "regs (view d1) = c"
    using readb_view [OF p, of "ucast ?p" "of_nat dev" "of_nat k" off_htype d] r1 Suc.prems(2) by (simp_all add: htype_def)
  show ?case
  proof (cases "h = 0xff")
    case True
    then have "\<not> goes_on c ?p dev (Suc k)" "\<not> listed c ?p (dev, k)" using h(1) by (auto simp: goes_on_def listed_def)
    then show ?thesis using r1 h(2) True fields listed_stops [of c ?p dev "Suc k" 8] by (simp add: up del: upt_rec_numeral upt_Suc)
  next
    case False
    have li: "vend c ?p dev k \<noteq> 0xffffffff \<longleftrightarrow> listed c ?p (dev, k)"
      using False h(1) Suc.prems(5) by (auto simp: listed_def goes_on_def)
    obtain bus1 d2 where e: "enumerate_pcidev rec_bus io (of_nat dev) (of_nat k) bus d1 = Some (bus1, d2)" "regs (view d2) = c"
      "added c ?p (if vend c ?p dev k = 0xffffffff then [] else [(dev, k)]) bus bus1"
      using enumerate_pcidev_adds [OF p Suc.prems(1) h(2) Suc.prems(3) dev k] li by blast
    have a: "added c ?p (filter (listed c ?p) [(dev, k)]) bus bus1" using e(3) li by (cases "listed c ?p (dev, k)") auto
    have b1: "pb_primary bus1 = ?p" "pb_bus bus1 = ?p" using e(3) Suc.prems(3) by (simp_all add: added_def)
    show ?thesis
    proof (cases "h AND 0x80 = 0")
      case True
      then have "\<not> goes_on c ?p dev (Suc k)" using h(1) by (auto simp: goes_on_def)
      then have "filter (listed c ?p) (map (Pair dev) [k..<8]) = filter (listed c ?p) [(dev, k)]"
        using listed_stops [of c ?p dev "Suc k" 8] by (simp add: up del: upt_rec_numeral upt_Suc)
      then show ?thesis using r1 True False e(1,2) a fields by (simp only: up) (simp del: upt_rec_numeral upt_Suc)
    next
      case go: False
      have "goes_on c ?p dev (Suc k)" using Suc.prems(5) go False h(1) by (auto simp: goes_on_def less_Suc_eq)
      then obtain bus2 d3 where f: "scan_fns rec_bus io (of_nat dev) (map of_nat [Suc k..<8]) bus1 d2 = Some (bus2, d3)" "regs (view d3) = c"
        "added c ?p (filter (listed c ?p) (map (Pair dev) [Suc k..<8])) bus1 bus2"
        using Suc.hyps(1) [of "Suc k" bus1 d2, unfolded b1] Suc.hyps(2) Suc.prems(1) e(2) k by force
      have "added c ?p (filter (listed c ?p) (map (Pair dev) [k..<8])) bus bus2"
        using added_trans [OF a f(3)] by (simp add: up del: upt_rec_numeral upt_Suc split: if_splits)
      then show ?thesis using r1 go False e(1) f(1,2) fields by (simp add: up del: upt_rec_numeral upt_Suc)
    qed
  qed
qed

lemma scan_devs_adds:
  assumes p: "pci_protocol io view rw" and r: "rec_ok view c rec_bus (pb_primary bus)" and v: "regs (view d) = c"
    and b: "pb_bus bus = pb_primary bus" and devs: "\<forall>x \<in> set devs. x < 32"
  shows "\<exists>bus' d'. scan_devs rec_bus io (map of_nat devs) bus d = Some (bus', d') \<and> regs (view d') = c \<and>
     added c (pb_primary bus) (filter (listed c (pb_primary bus)) (concat (map (\<lambda>dev. map (Pair dev) [0..<8]) devs))) bus bus'"
  using r v b devs
proof (induction devs arbitrary: bus d)
  case (Cons dev devs)
  let ?p = "pb_primary bus"
  obtain bus1 d1 where e: "scan_fns rec_bus io (of_nat dev) (map of_nat [0..<8]) bus d = Some (bus1, d1)" "regs (view d1) = c"
    "added c ?p (filter (listed c ?p) (map (Pair dev) [0..<8])) bus bus1"
    using scan_fns_adds [OF p Cons.prems(1-3), of dev 0] Cons.prems(4) by (auto simp: goes_on_def)
  have b1: "pb_primary bus1 = ?p" "pb_bus bus1 = ?p" using e(3) Cons.prems(3) by (simp_all add: added_def)
  then obtain bus2 d2 where f: "scan_devs rec_bus io (map of_nat devs) bus1 d1 = Some (bus2, d2)" "regs (view d2) = c"
    "added c ?p (filter (listed c ?p) (concat (map (\<lambda>dev. map (Pair dev) [0..<8]) devs))) bus1 bus2"
    using Cons.IH [of bus1 d1] Cons.prems e(2) by auto
  show ?case using e(1) f(1,2) added_trans [OF e(3) f(3)] by (simp del: upt_rec_numeral)
qed simp

section \<open>Properties\<close>

text \<open>Every bridge leads to a bus with a higher number.\<close>

definition bridges_up :: "(u32 \<Rightarrow> u32) \<Rightarrow> bool" where
  "bridges_up c \<longleftrightarrow> (\<forall>p. \<forall>dev < 32. \<forall>func < 8. listed c p (dev, func) \<longrightarrow> is_bridge c p (dev, func) \<longrightarrow> p < behind c p (dev, func))"

lemma enumerate_pcibus_ends:
  assumes p: "pci_protocol io view rw" and up: "bridges_up c"
  shows "256 \<le> n + unat b \<Longrightarrow> regs (view d) = c \<Longrightarrow> \<exists>t d'. enumerate_pcibus n io (Pci_Bus b b 0 [] []) d = Some (t, d') \<and>
     bus_ok c t \<and> pb_primary t = b \<and> regs (view d') = c"
proof (induction n arbitrary: b d)
  case 0
  then show ?case using unat_u8_less [of b] by simp
next
  case (Suc n)
  have r: "rec_ok view c (enumerate_pcibus n io) b"
    unfolding rec_ok_def
  proof (intro allI impI)
    fix df :: "nat \<times> nat" and d
    assume a: "listed c b df" "is_bridge c b df" "fst df < 32" "snd df < 8" "regs (view d) = c"
    then have "b < behind c b df" using up by (cases df) (auto simp: bridges_up_def)
    then have "256 \<le> n + unat (behind c b df)" using Suc.prems(1) by (simp add: word_less_nat_alt)
    then show "\<exists>t d'. enumerate_pcibus n io (Pci_Bus (behind c b df) (behind c b df) 0 [] []) d = Some (t, d') \<and> bus_ok c t \<and>
        pb_primary t = behind c b df \<and> regs (view d') = c"
      using Suc.IH a(5) by blast
  qed
  obtain t d' where e: "scan_devs (enumerate_pcibus n io) io (map of_nat [0..<32]) (Pci_Bus b b 0 [] []) d = Some (t, d')" "regs (view d') = c"
    "added c b (listed_fns c b) (Pci_Bus b b 0 [] []) t"
    using scan_devs_adds [OF p, of c "enumerate_pcibus n io" "Pci_Bus b b 0 [] []" d "[0..<32]"] r Suc.prems(2)
    by (auto simp: listed_fns_def simp del: upt_rec_numeral)
  have "bus_ok c t" "pb_primary t = b" using e(3) by (cases t; auto simp: added_def)+
  then show ?case using e(1,2) by (simp del: upt_rec_numeral)
qed


text \<open>A machine with a bridge as device 1 of bus 0 and a network card on bus 1.\<close>

definition two_buses :: "u32 \<Rightarrow> u32" where
  "two_buses a = (if a = cfg_addr 0 1 0 0 then 0x29308086 else if a = cfg_addr 0 1 0 0x0C then 0x00010000
     else if a = cfg_addr 0 1 0 0x18 then 0x00010100 else if a = cfg_addr 0 1 0 8 then 0x06040000
     else if a = cfg_addr 1 0 0 0 then 0x100E8086 else if a = cfg_addr 1 0 0 0x0C then 0
     else if a = cfg_addr 1 0 0 8 then 0x02000000 else 0xffffffff)"

lemma coord_of_nat: "dev < 32 \<Longrightarrow> func < 8 \<Longrightarrow> coord (ucast (p :: u8)) (of_nat dev) (of_nat func)"
proof -
  assume "dev < 32" "func < 8"
  then have "unat (of_nat dev :: u32) = dev" "unat (of_nat func :: u32) = func" by (simp_all add: unat_of_nat)
  moreover have "unat (ucast p :: u32) < 256" using unat_u8_less [of p] by (simp add: unsigned_ucast_eq take_bit_nat_eq_self)
  ultimately show ?thesis using \<open>dev < 32\<close> \<open>func < 8\<close> by (simp add: coord_def word_less_nat_alt)
qed

lemma two_buses_header:
  assumes df: "dev < 32" "func < 8"
  shows "two_buses (cfg_addr (ucast (p :: u8)) (of_nat dev) (of_nat func) 0x0E) =
     (if p = 0 \<and> dev = 1 \<and> func = 0 then 0x00010000 else if p = 1 \<and> dev = 0 \<and> func = 0 then 0 else 0xffffffff)"
proof -
  note c = coord_of_nat [OF df, of p]
  have co: "coord 0 1 0" "coord 1 0 0" by (simp_all add: coord_def)
  have u: "unat (of_nat dev :: u32) = dev" "unat (of_nat func :: u32) = func" "unat (ucast p :: u32) = unat p"
    using df unat_u8_less [of p] by (simp_all add: unat_of_nat unsigned_ucast_eq take_bit_nat_eq_self)
  have z: "(ucast p :: u32) = 0 \<longleftrightarrow> p = 0" "(ucast p :: u32) = 1 \<longleftrightarrow> p = 1" "(of_nat dev :: u32) = 0 \<longleftrightarrow> dev = 0"
    "(of_nat dev :: u32) = 1 \<longleftrightarrow> dev = 1" "(of_nat func :: u32) = 0 \<longleftrightarrow> func = 0"
    unfolding word_unat_eq_iff u by simp_all
  define A where "A = cfg_addr (ucast p) (of_nat dev) (of_nat func) 0x0E"
  have e: "A = cfg_addr b s 0 off \<longleftrightarrow>
      ucast p = b \<and> of_nat dev = s \<and> of_nat func = (0 :: u32) \<and> drop_bit 2 (0x0E :: u8) = drop_bit 2 off8"
    if "coord b s 0" "off = ucast off8" for b s off and off8 :: u8
    using same_register [OF that(1) c, of "0x0E" off8] that(2) by (simp add: A_def)
  show ?thesis
    unfolding two_buses_def A_def [symmetric]
    using e [OF co(1), of 0 0] e [OF co(1), of "0x0C" "0x0C"] e [OF co(1), of "0x18" "0x18"] e [OF co(1), of 8 8]
      e [OF co(2), of 0 0] e [OF co(2), of "0x0C" "0x0C"] e [OF co(2), of 8 8]
    by (simp add: z)
qed

lemma two_buses_up: "bridges_up two_buses"
  unfolding bridges_up_def
proof (intro allI impI)
  fix p :: u8 and dev func :: nat
  assume df: "dev < 32" "func < 8" and br: "is_bridge two_buses p (dev, func)"
  have "htype two_buses p dev func = reg_byte 2 (two_buses (cfg_addr (ucast p) (of_nat dev) (of_nat func) 0x0E))"
    by (simp add: htype_def cfg_byte_def off_htype_def)
  with br have "p = 0 \<and> dev = 1 \<and> func = 0"
    unfolding two_buses_header [OF df] is_bridge_def by (auto simp: reg_byte_def split: if_splits)
  moreover have "behind two_buses 0 (1, 0) = 1"
  proof -
    have "coord 0 1 0" "coord 1 0 0" by (simp_all add: coord_def)
    then have "cfg_addr 0 1 0 0x1A = cfg_addr 0 1 0 0x18"
      using same_register [of 0 1 0 0 1 0 "0x1A" "0x18"] by simp
    moreover have "cfg_addr 0 1 0 0x18 \<noteq> cfg_addr 0 1 0 0" "cfg_addr 0 1 0 0x18 \<noteq> cfg_addr 0 1 0 0x0C"
      by (simp_all add: cfg_addr_def)
    ultimately show ?thesis by (simp add: behind_def cfg_byte_def off_ss_busnum_def two_buses_def reg_byte_def)
  qed
  ultimately show "p < behind two_buses p (dev, func)" by simp
qed


text \<open>A bridge that leads back to its own bus, for instance one that was not configured, on bus 0: no depth is enough.\<close>

lemma enumeration_diverges:
  assumes p: "pci_protocol io view rw" and l: "listed c 0 (0, 0)" "is_bridge c 0 (0, 0)" "behind c 0 (0, 0) = 0"
  shows "regs (view d) = c \<Longrightarrow> enumerate_pcibus n io (Pci_Bus 0 0 0 [] []) d = None"
proof (induction n arbitrary: d)
  case (Suc n)
  obtain h d1 where r1: "pci_readb io 0 0 0 off_htype d = (h, d1)" by fastforce
  have h: "h = htype c 0 0 0" "regs (view d1) = c"
    using readb_view [OF p, of 0 0 0 off_htype d] r1 Suc.prems by (simp_all add: htype_def)
  obtain v d2 where r2: "pci_readl io 0 0 0 off_vendid d1 = (v, d2)" by fastforce
  have v: "v = vend c 0 0 0" "regs (view d2) = c"
    using readl_view [OF p, of 0 0 0 off_vendid d1] r2 h by (simp_all add: vend_def off_vendid_def)
  obtain h' d3 where r3: "pci_readb io 0 0 0 off_htype d2 = (h', d3)" by fastforce
  have h': "h' = htype c 0 0 0" "regs (view d3) = c"
    using readb_view [OF p, of 0 0 0 off_htype d2] r3 v by (simp_all add: htype_def)
  obtain k d4 where r4: "pci_readb io 0 0 0 off_clas d3 = (k, d4)" by fastforce
  obtain q d5 where r5: "pci_readb io 0 0 0 off_ss_busnum d4 = (q, d5)" by fastforce
  have q: "q = 0" "regs (view d5) = c"
    using readb_view [OF p, of 0 0 0 off_clas d3] readb_view [OF p, of 0 0 0 off_ss_busnum d4] r4 r5 h' l(3)
    by (simp_all add: behind_def)
  have nf: "h \<noteq> 0xff" "v \<noteq> 0xffffffff" "h' AND 0x7f = 1" using l(1,2) h v h' by (simp_all add: listed_def is_bridge_def)
  have z: "map of_nat [0..<8] = (0 :: u8) # map of_nat [1..<8]" "map of_nat [0..<32] = (0 :: u8) # map of_nat [1..<32]"
    by (simp_all add: upt_conv_Cons)
  have "enumerate_pcidev (enumerate_pcibus n io) io 0 0 (Pci_Bus 0 0 0 [] []) d1 = None"
    using nf r2 r3 r4 r5 q Suc.IH [of d5]
    by (simp add: enumerate_pcidev_def Let_def alloc_new_bus_def PCI_DEV_def PCI_FN_def)
  then show ?case using nf r1 unfolding enumerate_pcibus.simps z(2) scan_devs.simps z(1) by (simp del: upt_rec_numeral)
qed simp

end
