(* ===== verification/Acpi.thy ===== *)
theory Acpi
  imports Vmm_Props "HOL-Library.Monad_Syntax"
begin

unbundle bit_operations_syntax

text \<open>
  Discovery of the ACPI tables (\<open>kernel/drivers/acpi.c\<close>, \<open>include/drivers/acpi.h\<close>).

  Every access goes through the page tables: a virtual address is translated by the table tree of the virtual
  memory manager, and the byte is read from physical memory (\<open>ram\<close>), which holds the tables of the firmware.  An access to
  an address that is not mapped is a page fault, whose handler halts the machine: \<open>None\<close>.  Tables are reached
  through windows of \<open>mmio_map\<close>; 0 is the C \<open>NULL\<close>.
\<close>

section \<open>State and memory accesses\<close>

text \<open>The virtual memory manager and the globals \<open>acpi_lapic_base\<close>, \<open>acpi_ioapic_base\<close> and \<open>fadt\<close>.\<close>

record acpi =
  ac_vmm :: vmm
  ac_lapic_base :: u64
  ac_ioapic_base :: u64
  ac_fadt :: u64

definition translated :: "vmm \<Rightarrow> u64 \<Rightarrow> bool" where
  "translated s a = pte_is_present (pte_of (current_pml4 s) s a)"

text \<open>Virtual memory as bytes.\<close>

definition vram :: "ram \<Rightarrow> vmm \<Rightarrow> ram" where
  "vram m s a = m (pte_get_phys (pte_of (current_pml4 s) s a) + of_nat (unat a mod 4096))"

definition readable :: "vmm \<Rightarrow> u64 \<Rightarrow> nat \<Rightarrow> bool" where
  "readable s a n = list_all (\<lambda>k. translated s (a + of_nat k)) [0..<n]"

definition read8 :: "ram \<Rightarrow> acpi \<Rightarrow> u64 \<Rightarrow> u8 option" where
  "read8 m s a = (if readable (ac_vmm s) a 1 then Some (vram m (ac_vmm s) a) else None)"

definition read32 :: "ram \<Rightarrow> acpi \<Rightarrow> u64 \<Rightarrow> u32 option" where
  "read32 m s a = (if readable (ac_vmm s) a 4 then Some (load32 (vram m (ac_vmm s)) a) else None)"

definition read64 :: "ram \<Rightarrow> acpi \<Rightarrow> u64 \<Rightarrow> u64 option" where
  "read64 m s a = (if readable (ac_vmm s) a 8 then Some (load64 (vram m (ac_vmm s)) a) else None)"

definition ac_map :: "u64 \<Rightarrow> u64 \<Rightarrow> acpi \<Rightarrow> u64 \<times> acpi" where
  "ac_map ph sz s = (let (a, v) = mmio_map ph sz (ac_vmm s) in (a, s\<lparr>ac_vmm := v\<rparr>))"

definition ac_unmap :: "u64 \<Rightarrow> u64 \<Rightarrow> acpi \<Rightarrow> acpi" where
  "ac_unmap a sz s = s\<lparr>ac_vmm := snd (mmio_unmap a sz (ac_vmm s))\<rparr>"

section \<open>Layout of the tables\<close>

definition sizeof_acpi_header :: u64 where "sizeof_acpi_header = 36"
definition sizeof_acpi_madt :: u64 where "sizeof_acpi_madt = 44"

definition off_length :: u64 where "off_length = 4"
definition off_revision :: u64 where "off_revision = 15"
definition off_rsdt_addr :: u64 where "off_rsdt_addr = 16"
definition off_xsdt_addr :: u64 where "off_xsdt_addr = 24"
definition off_lapic_addr :: u64 where "off_lapic_addr = 36"
definition off_ioapic_addr :: u64 where "off_ioapic_addr = 4"

definition RSDP_SIGNATURE :: u64 where "RSDP_SIGNATURE = 0x5253442050545220"
definition XSDT_SIGNATURE :: u32 where "XSDT_SIGNATURE = 0x54445358"
definition RSDT_SIGNATURE :: u32 where "RSDT_SIGNATURE = 0x54445352"
definition MADT_SIGNATURE :: u32 where "MADT_SIGNATURE = 0x43495041"
definition FADT_SIGNATURE :: u32 where "FADT_SIGNATURE = 0x50434146"

text \<open>What the XSDT branch compares with instead of the FADT's signature.\<close>

definition FADT_SIGNATURE_XSDT :: u32 where "FADT_SIGNATURE_XSDT = 0x50434141"

section \<open>Finding the RSDP\<close>

partial_function (option) scan_rsdp :: "ram \<Rightarrow> acpi \<Rightarrow> u64 \<Rightarrow> u64 \<Rightarrow> u64 \<Rightarrow> u64 option" where
  "scan_rsdp m s lim stp p =
     (if p < lim
      then Option.bind (read64 m s p) (\<lambda>v. if v = RSDP_SIGNATURE then Some p else scan_rsdp m s lim stp (p + stp))
      else Some 0)"

definition find_rsdp :: "ram \<Rightarrow> u64 \<Rightarrow> acpi \<Rightarrow> u64 option" where
  "find_rsdp m acpi_info_grub s =
     (if acpi_info_grub \<noteq> 0 then Some (acpi_info_grub + 8)
      else do {
        p \<leftarrow> scan_rsdp m s 0x000FFFFF 16 0x000E0000;
        if p \<noteq> 0 then Some p
        else scan_rsdp m s (0x40E + 1024) (0x10 div 8) ((0x40E * 0x10) AND 0x000FFFFF)
      })"

section \<open>Root tables\<close>

text \<open>The conversion of the number of entries to \<open>int\<close>; a length below that of the header gives a negative number.\<close>

definition table_count :: "u32 \<Rightarrow> u64 \<Rightarrow> nat" where
  "table_count len width = nat (sint (ucast ((ucast len - sizeof_acpi_header) div width) :: 32 word))"

definition entry64 :: "ram \<Rightarrow> u64 \<Rightarrow> nat \<Rightarrow> acpi \<Rightarrow> u64 option" where
  "entry64 m xsdt i s = read64 m s (xsdt + sizeof_acpi_header + 8 * of_nat i)"

definition entry32 :: "ram \<Rightarrow> u64 \<Rightarrow> nat \<Rightarrow> acpi \<Rightarrow> u64 option" where
  "entry32 m rsdt i s = map_option ucast (read32 m s (rsdt + sizeof_acpi_header + 4 * of_nat i))"

text \<open>The two unused functions that look for the MADT differ in the width of the entries (\<open>entry\<close> reads one) and
  in the signature of the root table only; the loop ends at the first MADT.\<close>

fun find_madt_loop :: "(nat \<Rightarrow> acpi \<Rightarrow> u64 option) \<Rightarrow> ram \<Rightarrow> nat list \<Rightarrow> acpi \<Rightarrow> (u64 \<times> acpi) option" where
  "find_madt_loop entry m [] s = Some (0, s)"
| "find_madt_loop entry m (i # is) s = do {
     e \<leftarrow> entry i s;
     let (hdr, s) = ac_map e sizeof_acpi_header s;
     if hdr = 0 then find_madt_loop entry m is s
     else do {
       sig \<leftarrow> read32 m s hdr;
       if sig = MADT_SIGNATURE
       then do {
         madt_len \<leftarrow> read32 m s (hdr + off_length);
         let s = ac_unmap hdr sizeof_acpi_header s;
         e \<leftarrow> entry i s;
         Some (ac_map e (ucast madt_len) s)
       }
       else find_madt_loop entry m is (ac_unmap hdr sizeof_acpi_header s)
     }
   }"

definition find_madt_via ::
    "(u64 \<Rightarrow> nat \<Rightarrow> acpi \<Rightarrow> u64 option) \<Rightarrow> u64 \<Rightarrow> u32 \<Rightarrow> ram \<Rightarrow> u64 \<Rightarrow> acpi \<Rightarrow> (u64 \<times> acpi) option" where
  "find_madt_via entry width sig m root_phys s =
     (let (header, s) = ac_map root_phys sizeof_acpi_header s in
      if header = 0 then Some (0, s)
      else do {
        sg \<leftarrow> read32 m s header;
        if sg \<noteq> sig then Some (0, s)
        else do {
          length \<leftarrow> read32 m s (header + off_length);
          let s = ac_unmap header sizeof_acpi_header s;
          let (root, s) = ac_map root_phys (ucast length) s;
          if root = 0 then Some (0, s)
          else do {
            len \<leftarrow> read32 m s (root + off_length);
            (madt, s) \<leftarrow> find_madt_loop (entry root) m [0..<table_count len width] s;
            Some (madt, ac_unmap root (ucast length) s)
          }
        }
      })"

definition find_madt_via_xsdt :: "ram \<Rightarrow> u64 \<Rightarrow> acpi \<Rightarrow> (u64 \<times> acpi) option" where
  "find_madt_via_xsdt m xsdt_phys s = find_madt_via (entry64 m) 8 XSDT_SIGNATURE m xsdt_phys s"

definition find_madt_via_rsdt :: "ram \<Rightarrow> u32 \<Rightarrow> acpi \<Rightarrow> (u64 \<times> acpi) option" where
  "find_madt_via_rsdt m rsdt_phys s = find_madt_via (entry32 m) 4 RSDT_SIGNATURE m (ucast rsdt_phys) s"

section \<open>The entries of the MADT\<close>

text \<open>The argument is the pointer, the value of \<open>found_ioapic\<close> and the state.\<close>

partial_function (option) madt_loop ::
    "ram \<Rightarrow> u64 \<Rightarrow> u64 \<Rightarrow> bool \<Rightarrow> acpi \<Rightarrow> (bool \<times> acpi) option" where
  "madt_loop m end_ptr ptr found s =
     (if ptr < end_ptr
      then Option.bind (read8 m s (ptr + 1)) (\<lambda>len.
        if len = 0 \<or> ptr + ucast len > end_ptr then Some (found, s)
        else Option.bind (read8 m s ptr) (\<lambda>type.
          if type = 1
          then Option.bind (read32 m s (ptr + off_ioapic_addr)) (\<lambda>addr.
                 madt_loop m end_ptr (ptr + ucast len) True (s\<lparr>ac_ioapic_base := ucast addr\<rparr>))
          else madt_loop m end_ptr (ptr + ucast len) found s))
      else Some (found, s))"

definition parse_madt_entries :: "ram \<Rightarrow> u64 \<Rightarrow> acpi \<Rightarrow> (bool \<times> acpi) option" where
  "parse_madt_entries m madt s =
     (if madt = 0 then Some (False, s)
      else do {
        lapic_addr \<leftarrow> read32 m s (madt + off_lapic_addr);
        let s = s\<lparr>ac_lapic_base := ucast lapic_addr\<rparr>;
        len \<leftarrow> read32 m s (madt + off_length);
        madt_loop m (madt + ucast len) (madt + sizeof_acpi_madt) False s
      })"

section \<open>Initialisation\<close>

text \<open>The body of the loop over the XSDT: the header window of a table that is neither MADT nor FADT stays
  mapped.  The pair is the local \<open>madt\<close> and the state.\<close>

definition xsdt_entry :: "ram \<Rightarrow> u64 \<Rightarrow> nat \<Rightarrow> u64 \<times> acpi \<Rightarrow> (u64 \<times> acpi) option" where
  "xsdt_entry m xsdt i ms =
     (let (madt, s) = ms in do {
        e \<leftarrow> entry64 m xsdt i s;
        let (hdr, s) = ac_map e sizeof_acpi_header s;
        if hdr = 0 then Some (madt, s)
        else do {
          length \<leftarrow> read32 m s (hdr + off_length);
          sig \<leftarrow> read32 m s hdr;
          if sig = MADT_SIGNATURE
          then do {
            let s = ac_unmap hdr sizeof_acpi_header s;
            e \<leftarrow> entry64 m xsdt i s;
            Some (ac_map e (ucast length) s)
          }
          else if sig = FADT_SIGNATURE_XSDT
          then do {
            let s = ac_unmap hdr sizeof_acpi_header s;
            e \<leftarrow> entry64 m xsdt i s;
            let (w, s) = ac_map e (ucast length) s;
            Some (madt, s\<lparr>ac_fadt := w\<rparr>)
          }
          else Some (madt, s)
        }
      })"

text \<open>The body of the loop over the RSDT.\<close>

definition rsdt_entry :: "ram \<Rightarrow> u64 \<Rightarrow> nat \<Rightarrow> u64 \<times> acpi \<Rightarrow> (u64 \<times> acpi) option" where
  "rsdt_entry m rsdt i ms =
     (let (madt, s) = ms in do {
        e \<leftarrow> entry32 m rsdt i s;
        let (hdr, s) = ac_map e sizeof_acpi_header s;
        if hdr = 0 then Some (madt, s)
        else do {
          sig \<leftarrow> read32 m s hdr;
          if sig = MADT_SIGNATURE
          then do {
            e \<leftarrow> entry32 m rsdt i s;
            length \<leftarrow> read32 m s (hdr + off_length);
            Some (ac_map e (ucast length) s)
          }
          else if sig = FADT_SIGNATURE
          then do {
            e \<leftarrow> entry32 m rsdt i s;
            length \<leftarrow> read32 m s (hdr + off_length);
            let (w, s) = ac_map e (ucast length) s;
            Some (madt, s\<lparr>ac_fadt := w\<rparr>)
          }
          else Some (madt, s)
        }
      })"

fun each_entry :: "(nat \<Rightarrow> 'b \<Rightarrow> 'b option) \<Rightarrow> nat list \<Rightarrow> 'b \<Rightarrow> 'b option" where
  "each_entry f [] x = Some x"
| "each_entry f (i # is) x = Option.bind (f i x) (each_entry f is)"

text \<open>The part that the two branches of \<open>acpi_init\<close> share: map the header, check the signature, map the whole
  table and visit its entries.\<close>

definition scan_root ::
    "(u64 \<Rightarrow> nat \<Rightarrow> u64 \<times> acpi \<Rightarrow> (u64 \<times> acpi) option) \<Rightarrow> u64 \<Rightarrow> u32 \<Rightarrow> ram \<Rightarrow> u64 \<Rightarrow>
     u64 \<times> acpi \<Rightarrow> (u64 \<times> acpi) option" where
  "scan_root body width sig m root_phys ms =
     (let (madt, s) = ms; (header, s) = ac_map root_phys sizeof_acpi_header s in
      if header = 0 then Some (madt, s)
      else do {
        sg \<leftarrow> read32 m s header;
        if sg = sig
        then do {
          length \<leftarrow> read32 m s (header + off_length);
          let (root, s) = ac_map root_phys (ucast length) s;
          if root = 0 then Some (madt, s)
          else do {
            len \<leftarrow> read32 m s (root + off_length);
            each_entry (body root) [0..<table_count len width] (madt, s)
          }
        }
        else Some (madt, s)
      })"

definition acpi_init :: "ram \<Rightarrow> u64 \<Rightarrow> acpi \<Rightarrow> (int \<times> acpi) option" where
  "acpi_init m acpi_info_grub s = do {
     rsdp \<leftarrow> find_rsdp m acpi_info_grub s;
     if rsdp = 0 then Some (- 1, s)
     else do {
       revision \<leftarrow> read8 m s (rsdp + off_revision);
       (madt, s) \<leftarrow>
         (if 2 \<le> revision
          then do {
            xsdt_addr \<leftarrow> read64 m s (rsdp + off_xsdt_addr);
            if xsdt_addr \<noteq> 0 then scan_root (xsdt_entry m) 8 XSDT_SIGNATURE m xsdt_addr (0, s) else Some (0, s)
          }
          else Some (0, s));
       (madt, s) \<leftarrow>
         (if madt = 0
          then do {
            rsdt_addr \<leftarrow> read32 m s (rsdp + off_rsdt_addr);
            if rsdt_addr \<noteq> 0 then scan_root (rsdt_entry m) 4 RSDT_SIGNATURE m (ucast rsdt_addr) (madt, s)
            else Some (madt, s)
          }
          else Some (madt, s));
       if madt = 0 then Some (- 2, s)
       else do {
         (found, s) \<leftarrow> parse_madt_entries m madt s;
         Some (0, s)
       }
     }
   }"

definition shutdown :: "acpi \<Rightarrow> int" where
  "shutdown s = (if ac_fadt s = 0 then - 1 else 0)"

end
