(* ===== verification/Acpi_Windows.thy ===== *)
theory Acpi_Windows
  imports Acpi
begin

unbundle bit_operations_syntax

text \<open>
  Windows into physical memory: while the virtual memory manager has pages of window space and frames left, every window
  that \<open>mmio_map\<close> opens shows the physical bytes asked for, and windows that are held stay as they are when others
  are opened and closed after them.
\<close>

section \<open>Window space\<close>

text \<open>\<open>vspace r N s\<close>: the table tree is well formed, and there is room for at least \<open>N\<close> more pages.\<close>

definition vspace :: "u64 \<Rightarrow> nat \<Rightarrow> vmm \<Rightarrow> bool" where
  "vspace r N s \<longleftrightarrow> pt_inv r s \<and> current_pml4 s = r \<and> r \<noteq> 0 \<and> unat (mmio_virt_next s) mod 4096 = 0 \<and>
     2 ^ 64 - 2 ^ 48 \<le> unat (mmio_virt_next s) \<and> unat (mmio_virt_next s) + 4096 * N < 2 ^ 64 \<and>
     3 * N \<le> avail (phys s)"

text \<open>The pages no later window will use.\<close>

definition below :: "vmm \<Rightarrow> u64 \<Rightarrow> bool" where
  "below s w \<longleftrightarrow> (\<forall>v. mmio_virt_next s \<le> v \<longrightarrow> vpn w \<noteq> vpn v)"

definition extends :: "vmm \<Rightarrow> vmm \<Rightarrow> bool" where
  "extends s s' \<longleftrightarrow> current_pml4 s' = current_pml4 s \<and>
     (\<forall>w. below s w \<longrightarrow> below s' w \<and> pte_of (current_pml4 s) s' w = pte_of (current_pml4 s) s w)"

definition shows_byte :: "vmm \<Rightarrow> u64 \<Rightarrow> u64 \<Rightarrow> bool" where
  "shows_byte s a p \<longleftrightarrow> translated s a \<and>
     pte_get_phys (pte_of (current_pml4 s) s a) + of_nat (unat a mod 4096) = p"

text \<open>\<open>held s a ph n\<close>: the \<open>n\<close> bytes from the virtual address \<open>a\<close> on are the physical ones from \<open>ph\<close> on, and
  no later window uses these pages.\<close>

definition held :: "vmm \<Rightarrow> u64 \<Rightarrow> u64 \<Rightarrow> nat \<Rightarrow> bool" where
  "held s a ph n \<longleftrightarrow> unat a + n + 4096 \<le> 2 ^ 64 \<and>
     (\<forall>k < n. below s (a + of_nat k) \<and> shows_byte s (a + of_nat k) (ph + of_nat k))"

lemma extends_refl [simp]: "extends s s"
  by (simp add: extends_def)

lemma extends_trans [trans]: "extends s t \<Longrightarrow> extends t u \<Longrightarrow> extends s u"
  by (simp add: extends_def)

lemma held_extends: "held s a ph n \<Longrightarrow> extends s s' \<Longrightarrow> held s' a ph n"
  by (simp add: held_def extends_def shows_byte_def translated_def)

lemma held_mono: "held s a ph n \<Longrightarrow> k \<le> n \<Longrightarrow> held s a ph k"
  by (simp add: held_def)

section \<open>Reading through a window\<close>

lemma held_readable:
  assumes "held s a ph n" "k + j \<le> n"
  shows "readable s (a + of_nat k) j"
proof -
  have "translated s (a + of_nat (k + i))" if "i < j" for i
    using assms that unfolding held_def shows_byte_def by (simp del: of_nat_add)
  then show ?thesis by (simp add: readable_def list_all_iff add.assoc)
qed

lemma held_vram:
  assumes "held s a ph n" "k < n"
  shows "vram m s (a + of_nat k) = m (ph + of_nat k)"
  using assms by (simp add: held_def shows_byte_def vram_def)

lemma held_read8:
  assumes "held (ac_vmm s) a ph n" "k < n"
  shows "read8 m s (a + of_nat k) = Some (m (ph + of_nat k))"
  using held_readable [OF assms(1), of k 1] held_vram [OF assms] assms(2) by (simp add: read8_def)

lemma load32_shift:
  assumes "\<And>k. k < 4 \<Longrightarrow> v (a + of_nat k) = m (b + of_nat k)"
  shows "load32 v a = load32 m b"
  using assms [of 0] assms [of 1] assms [of 2] assms [of 3]
  by (simp add: load32_def load16_def add.assoc)

lemma load64_shift:
  assumes "\<And>k. k < 8 \<Longrightarrow> v (a + of_nat k) = m (b + of_nat k)"
  shows "load64 v a = load64 m b"
proof -
  have "load32 v (a + of_nat j) = load32 m (b + of_nat j)" if "j \<le> 4" for j
  proof (rule load32_shift)
    fix k :: nat assume "k < 4"
    with that assms [of "j + k"] show "v (a + of_nat j + of_nat k) = m (b + of_nat j + of_nat k)"
      by (simp add: add.assoc)
  qed
  from this [of 0] this [of 4] show ?thesis by (simp add: load64_def)
qed

lemma held_read32:
  assumes "held (ac_vmm s) a ph n" "k + 4 \<le> n"
  shows "read32 m s (a + of_nat k) = Some (load32 m (ph + of_nat k))"
proof -
  have "load32 (vram m (ac_vmm s)) (a + of_nat k) = load32 m (ph + of_nat k)"
  proof (rule load32_shift)
    fix j :: nat assume "j < 4"
    with held_vram [OF assms(1), of "k + j" m] assms(2)
    show "vram m (ac_vmm s) (a + of_nat k + of_nat j) = m (ph + of_nat k + of_nat j)"
      by (simp add: add.assoc)
  qed
  with held_readable [OF assms] show ?thesis by (simp add: read32_def)
qed

lemma held_read64:
  assumes "held (ac_vmm s) a ph n" "k + 8 \<le> n"
  shows "read64 m s (a + of_nat k) = Some (load64 m (ph + of_nat k))"
proof -
  have "load64 (vram m (ac_vmm s)) (a + of_nat k) = load64 m (ph + of_nat k)"
  proof (rule load64_shift)
    fix j :: nat assume "j < 8"
    with held_vram [OF assms(1), of "k + j" m] assms(2)
    show "vram m (ac_vmm s) (a + of_nat k + of_nat j) = m (ph + of_nat k + of_nat j)"
      by (simp add: add.assoc)
  qed
  with held_readable [OF assms] show ?thesis by (simp add: read64_def)
qed

section \<open>Opening a window\<close>

definition window_size :: "u64 \<Rightarrow> u64 \<Rightarrow> nat" where
  "window_size ph sz = (unat sz + unat ph mod 4096 + 4095) div 4096"

lemma mmio_map_succeeds:
  assumes "vspace r N s" "unat sz \<le> 2 ^ 40" "window_size ph sz \<le> N"
  obtains a s' where "mmio_map ph sz s = (a, s')" "a \<noteq> 0" "current_pml4 s' = r"
    "3 * (N - window_size ph sz) \<le> avail (phys s')" "avail (phys s) - 3 * window_size ph sz \<le> avail (phys s')"
proof -
  let ?n = "window_size ph sz" and ?v = "mmio_virt_next s"
  let ?fl = "PTE_PRESENT OR PTE_WRITABLE OR PTE_CACHE_DISABLE"
  let ?s1 = "s\<lparr>mmio_virt_next := ?v + of_nat ?n * 4096\<rparr>"
  note vs = assms(1) [unfolded vspace_def]
  have inv: "pt_inv r ?s1" using vs by simp
  have "3 * ?n \<le> avail (phys ?s1)" using vs assms(3) by simp
  then obtain s' where mp: "map_pages ?n r (page_of ph) ?v ?fl ?s1 = (True, s')"
    and av: "avail (phys ?s1) - 3 * ?n \<le> avail (phys s')"
    using map_pages_avail [OF inv] by blast
  have "?n \<le> N" "4096 * N < 2 ^ 64" using vs assms(3) by linarith+
  then have un: "unat (of_nat ?n :: u64) = ?n" by (intro unat_of_nat_small) simp
  have m: "mmio_map ph sz s = (?v + of_nat (unat ph mod 4096), s')"
    using vs mp window_pages(1) [OF assms(2), of ph]
    unfolding mmio_map_def vmm_get_pml4_def page_of_and Let_def window_pages(2) [OF assms(2)]
      window_size_def [symmetric] un
    by (simp add: PAGE_SIZE_def)
  have "unat ph mod 4096 < 4096" by simp
  moreover have "unat ?v \<le> 2 ^ 64 - 4096"
  proof -
    have "unat ?v < 2 ^ 64" "unat ?v mod 4096 = 0" using vs by (simp_all add: unsigned_less)
    then show ?thesis by auto
  qed
  ultimately have "unat (?v + of_nat (unat ph mod 4096)) = unat ?v + unat ph mod 4096"
    using unat_of_nat_small [of "unat ph mod 4096", where 'a = 64]
    by (subst unat_add_small) simp_all
  then have a: "?v + of_nat (unat ph mod 4096) \<noteq> 0" using vs by auto
  have "3 * (N - ?n) \<le> avail (phys s')" using av vs by simp linarith
  then show thesis
    using that [OF m a] map_pages_fields [OF inv mp] vs av by simp
qed

lemma page_window:
  assumes "vspace r N s" "w = mmio_virt_next s + of_nat d" "unat (mmio_virt_next s) + d < 2 ^ 64"
  shows "unat w = unat (mmio_virt_next s) + d"
  using assms(2,3) unat_of_nat_small [of d, where 'a = 64] by (simp add: unat_add_small)

lemma high_vpn:
  assumes "2 ^ 64 - 2 ^ 48 \<le> unat a" "2 ^ 64 - 2 ^ 48 \<le> unat b"
  shows "vpn a = vpn b \<longleftrightarrow> unat a div 4096 = unat b div 4096"
proof -
  have hi: "unat x div 4096 mod 2 ^ 36 = unat x div 4096 - 65535 * 2 ^ 36" if "2 ^ 64 - 2 ^ 48 \<le> unat x" for x :: u64
  proof -
    have "unat x < 2 ^ 64" using unsigned_less [of x, where 'a = nat] by simp
    then have "unat x div 4096 < 65536 * 2 ^ 36" by (simp add: div_less_iff_less_mult)
    moreover have "65535 * 2 ^ 36 \<le> unat x div 4096" using that by simp
    ultimately obtain d where "unat x div 4096 = d + 65535 * 2 ^ 36" "d < 2 ^ 36"
      using le_Suc_ex [of "65535 * 2 ^ 36" "unat x div 4096"] by auto
    then show ?thesis by (simp only: mod_mult_self1 mod_less diff_add_inverse2)
  qed
  have "65535 * 2 ^ 36 \<le> unat x div 4096" if "2 ^ 64 - 2 ^ 48 \<le> unat x" for x :: u64
    using that by simp
  from this [OF assms(1)] this [OF assms(2)] show ?thesis
    unfolding vpn_eq_div hi [OF assms(1)] hi [OF assms(2)] by linarith
qed

text \<open>A page at or above the cursor before, and below it after, is out of reach of later windows.\<close>

lemma below_passed:
  assumes "2 ^ 64 - 2 ^ 48 \<le> unat (mmio_virt_next s)" "unat (mmio_virt_next s') mod 4096 = 0"
    "mmio_virt_next s \<le> w" "w < mmio_virt_next s'"
  shows "below s' w"
  unfolding below_def
proof (intro allI impI)
  fix v assume v: "mmio_virt_next s' \<le> v"
  have w: "unat (mmio_virt_next s) \<le> unat w" "unat w < unat (mmio_virt_next s')" "unat (mmio_virt_next s') \<le> unat v"
    using assms(3,4) v by (simp_all add: word_le_nat_alt word_less_nat_alt)
  obtain q where q: "unat (mmio_virt_next s') = 4096 * q" using assms(2) by auto
  with w(2) have "unat w div 4096 < unat (mmio_virt_next s') div 4096"
    by (simp add: div_less_iff_less_mult)
  also have "\<dots> \<le> unat v div 4096" using w(3) by (rule div_le_mono)
  finally show "vpn w \<noteq> vpn v" using high_vpn [of w v] w assms(1) by simp
qed

lemma shows_byte_I:
  assumes "vmm_get_phys (current_pml4 s) a s = p AND PTE_ADDR_MASK" "4096 \<le> unat p" "unat p < 2 ^ 52"
    "unat a mod 4096 = unat p mod 4096"
  shows "shows_byte s a p"
proof -
  have pm: "p AND PTE_ADDR_MASK = page_of p" by (rule page_of_frame) (use assms(3) in simp)
  have "0 < unat p div 4096" using assms(2) by (simp add: div_greater_zero_iff)
  then have "unat (page_of p) \<noteq> 0" by (simp add: unat_page_of)
  then have "page_of p \<noteq> 0" by auto
  with assms(1) pm have "translated s a" "pte_get_phys (pte_of (current_pml4 s) s a) = page_of p"
    by (auto simp: vmm_get_phys_pte_of translated_def split: if_splits)
  then show ?thesis
    using page_of_offset [of p] assms(4) by (simp add: shows_byte_def)
qed

lemma round_up_page: "(x :: nat) \<le> 4096 * ((x + 4095) div 4096)"
  by linarith

lemma mod_offset:
  fixes a b :: u64
  assumes "unat a mod 4096 = unat b mod 4096"
  shows "unat (a + of_nat k) mod 4096 = unat (b + of_nat k) mod 4096"
proof -
  have m: "unat (x + of_nat k) mod 4096 = (unat x mod 4096 + k mod 4096) mod 4096" for x :: u64
  proof -
    have "unat (x + of_nat k) mod 4096 = (unat x + k) mod 4096"
      by (simp add: unat_word_ariths unat_of_nat mod_mod_cancel mod_add_right_eq)
    then show ?thesis by (simp add: mod_add_eq)
  qed
  show ?thesis unfolding m assms ..
qed

lemma vspace_map:
  assumes vs: "vspace r N s" and sz: "unat sz \<le> 2 ^ 40" and n: "window_size ph sz \<le> N"
    and ph: "4096 \<le> unat ph" "unat ph + unat sz \<le> 2 ^ 52"
  obtains a s' where "mmio_map ph sz s = (a, s')" "a \<noteq> 0" "vspace r (N - window_size ph sz) s'"
    "held s' a ph (unat sz)" "extends s s'"
    "a = mmio_virt_next s + of_nat (unat ph mod 4096)"
proof -
  let ?n = "window_size ph sz" and ?v = "mmio_virt_next s"
  note v = vs [unfolded vspace_def]
  obtain a s' where m: "mmio_map ph sz s = (a, s')" "a \<noteq> 0" and r: "current_pml4 s' = r"
    and av: "3 * (N - ?n) \<le> avail (phys s')" by (rule mmio_map_succeeds [OF vs sz n])
  from mmio_map_spec [OF _ _ _ _ sz m] v
  have inv: "pt_inv r s'" and a: "a = ?v + of_nat (unat ph mod 4096)"
    and nx: "mmio_virt_next s' = ?v + of_nat ?n * 4096"
    and tr: "\<And>k. k < unat sz \<Longrightarrow> vmm_get_phys r (a + of_nat k) s' = (ph + of_nat k) AND PTE_ADDR_MASK"
    and fr: "\<And>w. (\<And>j. j < ?n \<Longrightarrow> vpn w \<noteq> vpn (?v + of_nat j * 4096)) \<Longrightarrow> pte_of r s' w = pte_of r s w"
    by (auto simp: window_size_def)
  have fit: "unat ?v + 4096 * ?n < 2 ^ 64" using v n by linarith
  have page: "unat (?v + of_nat j * 4096) = unat ?v + 4096 * j" if "j \<le> ?n" for j
  proof -
    have "?v + of_nat j * 4096 = ?v + of_nat (4096 * j)" by simp
    then show ?thesis using page_window [OF vs, of _ "4096 * j"] fit that by (simp add: mult.commute)
  qed
  have nu: "unat (mmio_virt_next s') = unat ?v + 4096 * ?n" unfolding nx by (rule page) simp
  have "unat (mmio_virt_next s') mod 4096 = 0" using v by (simp add: nu)
  then have vs': "vspace r (N - ?n) s'"
    using inv r v av nu n by (simp add: vspace_def) linarith
  have size: "unat ph mod 4096 + unat sz \<le> 4096 * ?n"
    unfolding window_size_def using round_up_page [of "unat sz + unat ph mod 4096"] by (simp add: ac_simps)
  have at: "unat (a + of_nat k) = unat ?v + (unat ph mod 4096 + k)" if "k \<le> unat sz" for k
  proof -
    have "a + of_nat k = ?v + of_nat (unat ph mod 4096 + k)" by (simp only: a add.assoc of_nat_add)
    moreover have "unat ?v + (unat ph mod 4096 + k) < 2 ^ 64"
      by (rule le_less_trans [OF add_left_mono [OF le_trans [OF add_left_mono [OF that] size]] fit])
    ultimately show ?thesis by (rule page_window [OF vs])
  qed
  have "held s' a ph (unat sz)"
    unfolding held_def
  proof (intro conjI allI impI)
    obtain q where q: "unat (mmio_virt_next s') = 4096 * q" using vs' by (auto simp: vspace_def)
    moreover have "unat (mmio_virt_next s') < 2 ^ 64" using unsigned_less [of "mmio_virt_next s'", where 'a = nat] by simp
    ultimately have "unat (mmio_virt_next s') + 4096 \<le> 2 ^ 64" by auto
    then show "unat a + unat sz + 4096 \<le> 2 ^ 64"
      using at [of 0] le_trans [OF add_left_mono [OF size] eq_refl [OF nu [symmetric]]] by simp
    fix k assume k: "k < unat sz"
    have "unat ?v \<le> unat (a + of_nat k)" "unat (a + of_nat k) < unat (mmio_virt_next s')"
      using at [of k] k size nu by simp_all
    then show "below s' (a + of_nat k)"
      using v vs' by (intro below_passed [of s]) (simp_all add: vspace_def word_le_nat_alt word_less_nat_alt)
    have p: "unat (ph + of_nat k) = unat ph + k"
      using ph k unat_of_nat_small [of k, where 'a = 64] by (subst unat_add_small) simp_all
    have "unat a mod 4096 = unat ph mod 4096" using at [of 0] v by (simp add: mod_add_eq [symmetric])
    then show "shows_byte s' (a + of_nat k) (ph + of_nat k)"
      using tr [OF k] ph k r p by (intro shows_byte_I mod_offset) simp_all
  qed
  moreover have "extends s s'"
    unfolding extends_def
  proof (intro conjI allI impI)
    show "current_pml4 s' = current_pml4 s" using r v by simp
    fix w assume b: "below s w"
    show "below s' w"
      using b nu by (auto simp: below_def word_le_nat_alt)
    have "vpn w \<noteq> vpn (?v + of_nat j * 4096)" if "j < ?n" for j
      using b page [of j] that by (simp add: below_def word_le_nat_alt)
    then show "pte_of (current_pml4 s) s' w = pte_of (current_pml4 s) s w"
      using fr [of w] v by simp
  qed
  ultimately show thesis using that [OF m vs'] a by blast
qed

section \<open>Closing a window\<close>

lemma unmap_pages_fields:
  "current_pml4 (unmap_pages n r v s) = current_pml4 s \<and> mmio_virt_next (unmap_pages n r v s) = mmio_virt_next s \<and>
   phys (unmap_pages n r v s) = phys s"
  by (induction n arbitrary: v s) simp_all

text \<open>The window that \<open>mmio_map\<close> opened in the state \<open>s\<close> is closed in a later state.\<close>

lemma vspace_unmap:
  assumes vs: "vspace r N s" and vs': "vspace r M s'" and ext: "extends s s'"
    and a: "a = mmio_virt_next s + of_nat (unat ph mod 4096)"
    and sz: "unat sz \<le> 2 ^ 40" "window_size ph sz \<le> N"
  shows "vspace r M (snd (mmio_unmap a sz s'))" "extends s (snd (mmio_unmap a sz s'))"
proof -
  let ?n = "window_size ph sz" and ?v = "mmio_virt_next s"
  note v = vs [unfolded vspace_def] and v' = vs' [unfolded vspace_def]
  have o: "unat ph mod 4096 < 4096" by simp
  have al: "unat ?v mod 4096 = 0" using v by blast
  have lim: "unat ?v + unat ph mod 4096 < 2 ^ 64"
  proof -
    have "unat ?v < 2 ^ 64" using unsigned_less [of ?v, where 'a = nat] by simp
    with al o show ?thesis by auto
  qed
  have ua: "unat a = unat ?v + unat ph mod 4096" by (rule page_window [OF vs a lim])
  have am: "unat a mod 4096 = unat ph mod 4096" using al unfolding ua by (simp add: mod_add_eq [symmetric])
  have "page_of a + of_nat (unat ph mod 4096) = ?v + of_nat (unat ph mod 4096)"
    using page_of_offset [of a] am a by metis
  then have pa: "page_of a = ?v" by simp
  note w = window_pages [OF sz(1), of a]
  have wn: "(unat sz + unat a mod 4096 + 4095) div 4096 = ?n" by (simp only: am window_size_def)
  have "?n \<le> N" "4096 * N < 2 ^ 64" using v sz(2) by linarith+
  then have un: "unat (of_nat ?n :: u64) = ?n" by (intro unat_of_nat_small) simp
  have eq: "snd (mmio_unmap a sz s') = unmap_pages ?n r ?v s'"
    using v' unfolding mmio_unmap_def vmm_get_pml4_def page_of_and Let_def w(2) wn un by (simp add: pa)
  show "vspace r M (snd (mmio_unmap a sz s'))"
    using v' aspace.unmap_range_inv [of r s' ?n ?v] unmap_pages_fields [of ?n r ?v s']
    by (simp add: eq vspace_def)
  have far: "unat ?v \<le> unat (?v + of_nat j * 4096)" if "j < ?n" for j
  proof -
    have "unat (of_nat j * 4096 :: u64) = j * 4096"
      using that v sz(2) unat_of_nat_small [of j, where 'a = 64] by (subst unat_mult_small) simp_all
    then show ?thesis using that v sz(2) by (subst unat_add_small) simp_all
  qed
  have "pte_of r (unmap_pages ?n r ?v s') w = pte_of r s' w" if "below s w" for w
    using that far aspace.unmap_range_entry [of r s' ?n ?v w] v'
    by (auto simp: below_def word_le_nat_alt)
  moreover have "below (unmap_pages ?n r ?v s') w \<longleftrightarrow> below s' w" for w
    using unmap_pages_fields [of ?n r ?v s'] by (simp add: below_def)
  ultimately show "extends s (snd (mmio_unmap a sz s'))"
    using ext v v' unmap_pages_fields [of ?n r ?v s'] by (simp add: eq extends_def)
qed

end
