(* ===== verification/Acpi_Props.thy ===== *)
theory Acpi_Props
  imports Acpi_Windows
begin

unbundle bit_operations_syntax

text \<open>
  What \<open>acpi_init\<close> finds: the physical tables decide, through whatever windows they are read.
\<close>

section \<open>Tables in physical memory\<close>

definition table_length :: "ram \<Rightarrow> u64 \<Rightarrow> nat" where
  "table_length m t = unat (load32 m (t + 4))"

text \<open>A table outside the first page whose length is between that of a header and 64 KiB.\<close>

definition table_ok :: "ram \<Rightarrow> u64 \<Rightarrow> bool" where
  "table_ok m t \<longleftrightarrow> 4096 \<le> unat t \<and> unat t + 0x10000 \<le> 2 ^ 52 \<and>
     36 \<le> table_length m t \<and> table_length m t \<le> 0x10000"

definition with_signature :: "ram \<Rightarrow> u32 \<Rightarrow> u64 list \<Rightarrow> u64 list" where
  "with_signature m sig ts = filter (\<lambda>t. load32 m t = sig) ts"

text \<open>\<open>found m sig ts s w0 w\<close>: the pointer \<open>w\<close> is the old one, or a window on the last table with this signature.\<close>

definition found :: "ram \<Rightarrow> u32 \<Rightarrow> u64 list \<Rightarrow> acpi \<Rightarrow> u64 \<Rightarrow> u64 \<Rightarrow> bool" where
  "found m sig ts s w0 w \<longleftrightarrow>
     (let fs = with_signature m sig ts in
      if fs = [] then w = w0 else w \<noteq> 0 \<and> held (ac_vmm s) w (last fs) (table_length m (last fs)))"

lemma found_Nil [simp]: "found m sig [] s w w"
  by (simp add: found_def with_signature_def)

lemma found_update [simp]:
  "found m sig ts (s\<lparr>ac_lapic_base := x, ac_ioapic_base := y\<rparr>) w0 w = found m sig ts s w0 w"
  by (simp add: found_def)

lemma found_Cons:
  assumes "found m sig [t] s1 w0 w1" "extends (ac_vmm s1) (ac_vmm s2)" "found m sig ts s2 w1 w2"
  shows "found m sig (t # ts) s2 w0 w2"
  using assms held_extends [OF _ assms(2)]
  by (auto simp: found_def with_signature_def Let_def split: if_splits)

lemma vspace_mono: "vspace r N s \<Longrightarrow> M \<le> N \<Longrightarrow> vspace r M s"
  by (auto simp: vspace_def)

lemma window_size_le:
  "unat sz \<le> 0x10000 \<Longrightarrow> window_size ph sz \<le> 17" "window_size ph 36 \<le> 2"
proof -
  have o: "unat ph mod 4096 \<le> 4095" using mod_less_divisor [of 4096 "unat ph"] by linarith
  { assume "unat sz \<le> 0x10000"
    then have "unat sz + unat ph mod 4096 + 4095 \<le> 0x10000 + 4095 + 4095"
      using o by (intro add_mono) simp_all
    from div_le_mono [OF this, of 4096] show "window_size ph sz \<le> 17" by (simp add: window_size_def) }
  have "unat (36 :: u64) + unat ph mod 4096 + 4095 \<le> 36 + 4095 + 4095"
    using o by (intro add_mono) simp_all
  from div_le_mono [OF this, of 4096] show "window_size ph 36 \<le> 2" by (simp add: window_size_def)
qed

section \<open>Windows of the ACPI code\<close>

lemma ac_map_window:
  assumes "vspace r N (ac_vmm s)" "k \<le> N" "window_size ph sz \<le> k" "unat sz \<le> 0x10000"
    "4096 \<le> unat ph" "unat ph + 0x10000 \<le> 2 ^ 52"
  obtains a v where "ac_map ph sz s = (a, s\<lparr>ac_vmm := v\<rparr>)" "a \<noteq> 0" "vspace r (N - k) v"
    "held v a ph (unat sz)" "extends (ac_vmm s) v"
    "a = mmio_virt_next (ac_vmm s) + of_nat (unat ph mod 4096)"
proof -
  have "unat sz \<le> 2 ^ 40" "window_size ph sz \<le> N" "unat ph + unat sz \<le> 2 ^ 52"
    using assms by simp_all
  from vspace_map [OF assms(1) this(1,2) assms(5) this(3)] obtain a v where
    w: "mmio_map ph sz (ac_vmm s) = (a, v)" "a \<noteq> 0" "vspace r (N - window_size ph sz) v"
    "held v a ph (unat sz)" "extends (ac_vmm s) v"
    "a = mmio_virt_next (ac_vmm s) + of_nat (unat ph mod 4096)" by metis
  moreover have "vspace r (N - k) v" using vspace_mono [OF w(3), of "N - k"] assms(3) by simp
  ultimately show thesis using that [of a v] by (simp add: ac_map_def)
qed

text \<open>The header of a table, and the whole of it.\<close>

lemma ac_map_header:
  assumes "vspace r (N + 2) (ac_vmm s)" "table_ok m t"
  obtains a v where "ac_map t sizeof_acpi_header s = (a, s\<lparr>ac_vmm := v\<rparr>)" "a \<noteq> 0" "vspace r N v"
    "held v a t 36" "extends (ac_vmm s) v"
    "a = mmio_virt_next (ac_vmm s) + of_nat (unat t mod 4096)"
  using ac_map_window [OF assms(1), of 2 t 36] window_size_le(2) assms(2) that
  by (auto simp: table_ok_def sizeof_acpi_header_def)

lemma ac_map_table:
  assumes "vspace r (N + 17) (ac_vmm s)" "table_ok m t"
  obtains a v where "ac_map t (ucast (load32 m (t + 4))) s = (a, s\<lparr>ac_vmm := v\<rparr>)" "a \<noteq> 0"
    "vspace r N v" "held v a t (table_length m t)" "extends (ac_vmm s) v"
  using ac_map_window [OF assms(1), of 17 t "ucast (load32 m (t + 4))"]
    window_size_le(1) [of "ucast (load32 m (t + 4))" t] assms(2) that
  by (auto simp: table_ok_def table_length_def)

text \<open>First the header, then the whole table.\<close>

lemma ac_map_both:
  assumes "vspace r (N + 20) (ac_vmm s)" "table_ok m t"
  obtains h v w v' where "ac_map t sizeof_acpi_header s = (h, s\<lparr>ac_vmm := v\<rparr>)" "h \<noteq> 0" "vspace r (N + 17) v"
    "held v h t 36" "extends (ac_vmm s) v" "h = mmio_virt_next (ac_vmm s) + of_nat (unat t mod 4096)"
    "ac_map t (ucast (load32 m (t + 4))) (s\<lparr>ac_vmm := v\<rparr>) = (w, s\<lparr>ac_vmm := v'\<rparr>)" "w \<noteq> 0" "vspace r N v'"
    "held v' w t (table_length m t)" "extends (ac_vmm s) v'" "extends v v'"
proof -
  have a: "vspace r ((N + 17) + 2) (ac_vmm s)" using vspace_mono [OF assms(1)] by simp
  obtain h v where h: "ac_map t sizeof_acpi_header s = (h, s\<lparr>ac_vmm := v\<rparr>)" "h \<noteq> 0" "vspace r (N + 17) v"
    "held v h t 36" "extends (ac_vmm s) v" "h = mmio_virt_next (ac_vmm s) + of_nat (unat t mod 4096)"
    by (rule ac_map_header [OF a assms(2)])
  let ?s = "s\<lparr>ac_vmm := v\<rparr>"
  have b: "vspace r (N + 17) (ac_vmm ?s)" using h(3) by simp
  obtain w v' where w: "ac_map t (ucast (load32 m (t + 4))) ?s = (w, ?s\<lparr>ac_vmm := v'\<rparr>)" "w \<noteq> 0"
    "vspace r N v'" "held v' w t (table_length m t)" "extends (ac_vmm ?s) v'"
    by (rule ac_map_table [OF b assms(2)])
  show thesis
    by (rule that [OF h, of w v']) (use w extends_trans [OF h(5)] in simp_all)
qed

lemma ac_unmap_header:
  fixes t :: u64
  assumes "vspace r N (ac_vmm s0)" "2 \<le> N" "vspace r M (ac_vmm s)" "extends (ac_vmm s0) (ac_vmm s)"
    "a = mmio_virt_next (ac_vmm s0) + of_nat (unat t mod 4096)"
  obtains v where "ac_unmap a sizeof_acpi_header s = s\<lparr>ac_vmm := v\<rparr>" "vspace r M v" "extends (ac_vmm s0) v"
  using vspace_unmap [OF assms(1,3,4,5), of 36] window_size_le(2) [of t] assms(2) that
  by (auto simp: ac_unmap_def sizeof_acpi_header_def)

lemma read_header:
  assumes "held (ac_vmm s) a t n" "8 \<le> n"
  shows "read32 m s a = Some (load32 m t)" "read32 m s (a + off_length) = Some (load32 m (t + 4))"
  using held_read32 [OF assms(1), of 0 m] held_read32 [OF assms(1), of 4 m] assms(2)
  by (simp_all add: off_length_def)

section \<open>Visiting the entries of a root table\<close>

text \<open>The contract of the loop bodies of \<open>acpi_init\<close>: with a window on a root table whose entry \<open>i\<close> names a table,
  the visit opens at most 20 pages of windows and leaves the pointers to the last MADT and FADT.\<close>

locale table_visitor =
  fixes visit :: "ram \<Rightarrow> u64 \<Rightarrow> nat \<Rightarrow> u64 \<times> acpi \<Rightarrow> (u64 \<times> acpi) option"
    and width :: nat
    and fetch :: "ram \<Rightarrow> u64 \<Rightarrow> nat \<Rightarrow> u64"
    and fsig :: u32
  assumes width_pos: "0 < width"
    and visit_spec: "vspace r (N + 20) (ac_vmm s) \<Longrightarrow> held (ac_vmm s) root rp n \<Longrightarrow>
      36 + width * Suc i \<le> n \<Longrightarrow> table_ok m (fetch m rp i) \<Longrightarrow>
      \<exists>madt' s'. visit m root i (madt, s) = Some (madt', s') \<and>
        vspace r N (ac_vmm s') \<and> extends (ac_vmm s) (ac_vmm s') \<and>
        ac_lapic_base s' = ac_lapic_base s \<and> ac_ioapic_base s' = ac_ioapic_base s \<and>
        found m MADT_SIGNATURE [fetch m rp i] s' madt madt' \<and>
        found m fsig [fetch m rp i] s' (ac_fadt s) (ac_fadt s')"
begin

lemma visit_all:
  assumes "vspace r (N + 20 * length is) (ac_vmm s)" "held (ac_vmm s) root rp n"
    "\<forall>i \<in> set is. 36 + width * Suc i \<le> n \<and> table_ok m (fetch m rp i)"
  shows "\<exists>madt' s'. each_entry (visit m root) is (madt, s) = Some (madt', s') \<and>
     vspace r N (ac_vmm s') \<and> extends (ac_vmm s) (ac_vmm s') \<and>
     ac_lapic_base s' = ac_lapic_base s \<and> ac_ioapic_base s' = ac_ioapic_base s \<and>
     found m MADT_SIGNATURE (map (fetch m rp) is) s' madt madt' \<and>
     found m fsig (map (fetch m rp) is) s' (ac_fadt s) (ac_fadt s')"
  using assms
proof (induction "is" arbitrary: madt s)
  case (Cons i "is")
  have "vspace r ((N + 20 * length is) + 20) (ac_vmm s)" using Cons.prems(1) by (simp add: ac_simps)
  from visit_spec [OF this Cons.prems(2)] Cons.prems(3) obtain madt1 s1 where
    1: "visit m root i (madt, s) = Some (madt1, s1)" "vspace r (N + 20 * length is) (ac_vmm s1)"
      "extends (ac_vmm s) (ac_vmm s1)" "ac_lapic_base s1 = ac_lapic_base s" "ac_ioapic_base s1 = ac_ioapic_base s"
      "found m MADT_SIGNATURE [fetch m rp i] s1 madt madt1" "found m fsig [fetch m rp i] s1 (ac_fadt s) (ac_fadt s1)"
    by fastforce
  from Cons.IH [OF 1(2) held_extends [OF Cons.prems(2) 1(3)]] Cons.prems(3) obtain madt2 s2 where
    2: "each_entry (visit m root) is (madt1, s1) = Some (madt2, s2)" "vspace r N (ac_vmm s2)"
      "extends (ac_vmm s1) (ac_vmm s2)" "ac_lapic_base s2 = ac_lapic_base s1" "ac_ioapic_base s2 = ac_ioapic_base s1"
      "found m MADT_SIGNATURE (map (fetch m rp) is) s2 madt1 madt2"
      "found m fsig (map (fetch m rp) is) s2 (ac_fadt s1) (ac_fadt s2)"
    by fastforce
  from 1 2 extends_trans [OF 1(3) 2(3)] found_Cons [OF 1(6) 2(3) 2(6)] found_Cons [OF 1(7) 2(3) 2(7)]
  show ?case by simp
qed simp

end

lemma table_count_small:
  assumes "36 \<le> unat len" "unat len \<le> 0x10000" "0 < w" "w < 256"
  shows "table_count len (of_nat w) = (unat len - 36) div w"
proof -
  have "unat (ucast len - 36 :: u64) = unat len - 36"
    using assms(1) by (subst unat_sub) (simp_all add: word_le_nat_alt)
  moreover have uw: "unat (of_nat w :: u64) = w" using assms(4) by (intro unat_of_nat_small) simp
  ultimately have d: "unat ((ucast len - 36 :: u64) div of_nat w) = (unat len - 36) div w"
    by (simp add: unat_div_distrib)
  have le: "(unat len - 36) div w \<le> 0x10000" using assms(2) div_le_dividend [of "unat len - 36" w] by linarith
  have "(ucast len - 36 :: u64) div of_nat w = of_nat ((unat len - 36) div w)"
    by (metis d of_nat_unat ucast_id)
  moreover have "unat (of_nat ((unat len - 36) div w) :: u64) = (unat len - 36) div w"
    using le by (intro unat_of_nat_small) simp
  ultimately have "(ucast ((ucast len - 36 :: u64) div of_nat w) :: 32 word) = of_nat ((unat len - 36) div w)"
    by (simp add: unsigned_ucast_eq word_unat_eq_iff unat_of_nat take_bit_eq_mod)
  then have "sint (ucast ((ucast len - 36 :: u64) div of_nat w) :: 32 word) = int ((unat len - 36) div w)"
    using le by (simp add: signed_of_nat signed_take_bit_int_eq_self)
  then show ?thesis by (simp add: table_count_def sizeof_acpi_header_def)
qed

definition root_entries :: "(ram \<Rightarrow> u64 \<Rightarrow> nat \<Rightarrow> u64) \<Rightarrow> nat \<Rightarrow> ram \<Rightarrow> u64 \<Rightarrow> u64 list" where
  "root_entries fetch width m rp = map (fetch m rp) [0..<(table_length m rp - 36) div width]"

context table_visitor
begin

lemma scan_root_result:
  assumes vs: "vspace r (20 * (length ts + 1)) (ac_vmm s)" and rp: "table_ok m rp" "load32 m rp = sig"
    and ts: "ts = root_entries fetch width m rp" "\<forall>t \<in> set ts. table_ok m t" and w: "width < 256"
  shows "\<exists>madt' s'. scan_root (visit m) (of_nat width) sig m rp (madt, s) = Some (madt', s') \<and>
     extends (ac_vmm s) (ac_vmm s') \<and> ac_lapic_base s' = ac_lapic_base s \<and> ac_ioapic_base s' = ac_ioapic_base s \<and>
     found m MADT_SIGNATURE ts s' madt madt' \<and> found m fsig ts s' (ac_fadt s) (ac_fadt s')"
proof -
  let ?n = "(table_length m rp - 36) div width"
  have "vspace r (20 * length ts + 20) (ac_vmm s)" using vs by (simp add: ac_simps)
  from ac_map_both [OF this rp(1)] obtain h v1 root v2 where
    h: "ac_map rp sizeof_acpi_header s = (h, s\<lparr>ac_vmm := v1\<rparr>)" "h \<noteq> 0" "held v1 h rp 36"
    and t: "ac_map rp (ucast (load32 m (rp + 4))) (s\<lparr>ac_vmm := v1\<rparr>) = (root, s\<lparr>ac_vmm := v2\<rparr>)" "root \<noteq> 0"
      "vspace r (20 * length ts) v2" "held v2 root rp (table_length m rp)" "extends (ac_vmm s) v2" by metis
  let ?s1 = "s\<lparr>ac_vmm := v1\<rparr>" and ?s2 = "s\<lparr>ac_vmm := v2\<rparr>"
  have cnt: "table_count (load32 m (rp + 4)) (of_nat width) = ?n"
    using rp(1) width_pos w by (simp add: table_ok_def table_length_def table_count_small)
  have len: "length ts = ?n" by (simp add: ts(1) root_entries_def)
  have "vspace r (0 + 20 * length [0..<?n]) (ac_vmm ?s2)"
    using t(3) len by simp
  moreover have "held (ac_vmm ?s2) root rp (table_length m rp)" using t(4) by simp
  moreover have "\<forall>i \<in> set [0..<?n]. 36 + width * Suc i \<le> table_length m rp \<and> table_ok m (fetch m rp i)"
  proof
    fix i assume i: "i \<in> set [0..<?n]"
    then have "width * Suc i \<le> width * ?n" by (intro mult_le_mono2) simp
    also have "\<dots> \<le> table_length m rp - 36" by (rule times_div_less_eq_dividend)
    finally show "36 + width * Suc i \<le> table_length m rp \<and> table_ok m (fetch m rp i)"
      using ts i rp(1) by (auto simp: root_entries_def table_ok_def)
  qed
  ultimately obtain madt' s' where
    e: "each_entry (visit m root) [0..<?n] (madt, ?s2) = Some (madt', s')"
      "extends (ac_vmm ?s2) (ac_vmm s')" "ac_lapic_base s' = ac_lapic_base ?s2" "ac_ioapic_base s' = ac_ioapic_base ?s2"
      "found m MADT_SIGNATURE (map (fetch m rp) [0..<?n]) s' madt madt'"
      "found m fsig (map (fetch m rp) [0..<?n]) s' (ac_fadt ?s2) (ac_fadt s')"
    using visit_all [of r 0 "[0..<?n]" ?s2 root rp "table_length m rp" m madt] by blast
  have "scan_root (visit m) (of_nat width) sig m rp (madt, s) = Some (madt', s')"
    using e(1) h(1,2) t(1,2) read_header [of ?s1 h rp 36 m] read_header(2) [of ?s2 root rp "table_length m rp" m]
      h(3) t(4) rp
    by (simp add: scan_root_def Let_def cnt table_ok_def)
  moreover have "extends (ac_vmm s) (ac_vmm s')"
    using extends_trans [OF t(5)] e(2) by simp
  ultimately show ?thesis using e(3-6) by (simp add: ts(1) root_entries_def)
qed

end

section \<open>The two loop bodies\<close>

definition fetch64 :: "ram \<Rightarrow> u64 \<Rightarrow> nat \<Rightarrow> u64" where
  "fetch64 m rp i = load64 m (rp + of_nat (36 + 8 * i))"

definition fetch32 :: "ram \<Rightarrow> u64 \<Rightarrow> nat \<Rightarrow> u64" where
  "fetch32 m rp i = ucast (load32 m (rp + of_nat (36 + 4 * i)))"

lemma entry64_held:
  assumes "held (ac_vmm s) root rp n" "36 + 8 * Suc i \<le> n"
  shows "entry64 m root i s = Some (fetch64 m rp i)"
  using held_read64 [OF assms(1), of "36 + 8 * i" m] assms(2)
  by (simp add: entry64_def fetch64_def sizeof_acpi_header_def add.assoc)

lemma entry32_held:
  assumes "held (ac_vmm s) root rp n" "36 + 4 * Suc i \<le> n"
  shows "entry32 m root i s = Some (fetch32 m rp i)"
  using held_read32 [OF assms(1), of "36 + 4 * i" m] assms(2)
  by (simp add: entry32_def fetch32_def sizeof_acpi_header_def add.assoc)

lemma found_one [simp]:
  "found m sig [t] s w0 w \<longleftrightarrow>
     (if load32 m t = sig then w \<noteq> 0 \<and> held (ac_vmm s) w t (table_length m t) else w = w0)"
  by (simp add: found_def with_signature_def)

lemma signatures_differ [simp]:
  "MADT_SIGNATURE \<noteq> FADT_SIGNATURE" "MADT_SIGNATURE \<noteq> FADT_SIGNATURE_XSDT"
  "FADT_SIGNATURE \<noteq> MADT_SIGNATURE" "FADT_SIGNATURE_XSDT \<noteq> MADT_SIGNATURE"
  by (simp_all add: MADT_SIGNATURE_def FADT_SIGNATURE_def FADT_SIGNATURE_XSDT_def)

interpretation rsdt: table_visitor rsdt_entry 4 fetch32 FADT_SIGNATURE
proof
  fix r N and s :: acpi and root rp n i m madt
  assume vs: "vspace r (N + 20) (ac_vmm s)" and hr: "held (ac_vmm s) root rp n"
    and i: "36 + 4 * Suc i \<le> n" and ok: "table_ok m (fetch32 m rp i)"
  let ?t = "fetch32 m rp i"
  from ac_map_both [OF vs ok] obtain h v1 w v2 where
    h: "ac_map ?t sizeof_acpi_header s = (h, s\<lparr>ac_vmm := v1\<rparr>)" "h \<noteq> 0" "vspace r (N + 17) v1"
      "held v1 h ?t 36" "extends (ac_vmm s) v1"
    and t: "ac_map ?t (ucast (load32 m (?t + 4))) (s\<lparr>ac_vmm := v1\<rparr>) = (w, s\<lparr>ac_vmm := v2\<rparr>)" "w \<noteq> 0"
      "vspace r N v2" "held v2 w ?t (table_length m ?t)" "extends (ac_vmm s) v2" by metis
  let ?s1 = "s\<lparr>ac_vmm := v1\<rparr>"
  have e: "entry32 m root i s = Some ?t" "entry32 m root i ?s1 = Some ?t"
    using entry32_held [OF hr i] entry32_held [of ?s1, OF _ i] held_extends [OF hr h(5)] by simp_all
  note hd = read_header [of ?s1 h ?t 36 m]
  have vN: "vspace r N v1" "vspace r N v2" using vspace_mono [OF h(3), of N] t(3) by simp_all
  show "\<exists>madt' s'. rsdt_entry m root i (madt, s) = Some (madt', s') \<and>
        vspace r N (ac_vmm s') \<and> extends (ac_vmm s) (ac_vmm s') \<and>
        ac_lapic_base s' = ac_lapic_base s \<and> ac_ioapic_base s' = ac_ioapic_base s \<and>
        found m MADT_SIGNATURE [?t] s' madt madt' \<and> found m FADT_SIGNATURE [?t] s' (ac_fadt s) (ac_fadt s')"
    using h t e hd vN by (simp add: rsdt_entry_def Let_def)
qed simp

interpretation xsdt: table_visitor xsdt_entry 8 fetch64 FADT_SIGNATURE_XSDT
proof
  fix r N and s :: acpi and root rp n i m madt
  assume vs: "vspace r (N + 20) (ac_vmm s)" and hr: "held (ac_vmm s) root rp n"
    and i: "36 + 8 * Suc i \<le> n" and ok: "table_ok m (fetch64 m rp i)"
  let ?t = "fetch64 m rp i"
  from ac_map_both [OF vs ok] obtain h v1 where
    h: "ac_map ?t sizeof_acpi_header s = (h, s\<lparr>ac_vmm := v1\<rparr>)" "h \<noteq> 0" "vspace r (N + 17) v1"
      "held v1 h ?t 36" "extends (ac_vmm s) v1" "h = mmio_virt_next (ac_vmm s) + of_nat (unat ?t mod 4096)" by metis
  let ?s1 = "s\<lparr>ac_vmm := v1\<rparr>"
  obtain v2 where u: "ac_unmap h sizeof_acpi_header ?s1 = ?s1\<lparr>ac_vmm := v2\<rparr>" "vspace r (N + 17) v2"
    "extends (ac_vmm s) v2"
    by (rule ac_unmap_header [OF vs _ _ _ h(6), where s = ?s1 and M = "N + 17"]) (use h in simp_all)
  let ?s2 = "s\<lparr>ac_vmm := v2\<rparr>"
  have vs2: "vspace r (N + 17) (ac_vmm ?s2)" using u(2) by simp
  obtain w v3 where t: "ac_map ?t (ucast (load32 m (?t + 4))) ?s2 = (w, ?s2\<lparr>ac_vmm := v3\<rparr>)" "w \<noteq> 0"
    "vspace r N v3" "held v3 w ?t (table_length m ?t)" "extends (ac_vmm ?s2) v3"
    by (rule ac_map_table [OF vs2 ok])
  have e: "entry64 m root i s = Some ?t" "entry64 m root i ?s2 = Some ?t"
    using entry64_held [OF hr i] entry64_held [of ?s2, OF _ i] held_extends [OF hr u(3)] by simp_all
  have ex: "extends (ac_vmm s) v3" using extends_trans [OF u(3)] t(5) by simp
  note hd = read_header [of ?s1 h ?t 36 m]
  show "\<exists>madt' s'. xsdt_entry m root i (madt, s) = Some (madt', s') \<and>
        vspace r N (ac_vmm s') \<and> extends (ac_vmm s) (ac_vmm s') \<and>
        ac_lapic_base s' = ac_lapic_base s \<and> ac_ioapic_base s' = ac_ioapic_base s \<and>
        found m MADT_SIGNATURE [?t] s' madt madt' \<and> found m FADT_SIGNATURE_XSDT [?t] s' (ac_fadt s) (ac_fadt s')"
    using h u t e hd vspace_mono [OF h(3), of N] ex by (simp add: xsdt_entry_def Let_def)
qed simp

section \<open>The entries of the MADT\<close>

text \<open>The addresses of the I/O APICs that the \<open>n\<close> bytes of the MADT at \<open>mp\<close> list from offset \<open>k\<close> on; reading stops at an
  entry of length 0 or one that ends past the table.  \<open>None\<close>: an entry is cut off, and the code would read past the table.\<close>

function ioapics :: "ram \<Rightarrow> u64 \<Rightarrow> nat \<Rightarrow> nat \<Rightarrow> u32 list option" where
  "ioapics m mp n k =
     (if n \<le> k then Some []
      else if n < k + 2 then None
      else let len = unat (m (mp + of_nat (k + 1))) in
        if len = 0 \<or> n < k + len then Some []
        else if m (mp + of_nat k) = 1
        then (if len < 8 then None
              else map_option (\<lambda>as. load32 m (mp + of_nat (k + 4)) # as) (ioapics m mp n (k + len)))
        else ioapics m mp n (k + len))"
  by pat_completeness auto
termination by (relation "measure (\<lambda>(m, mp, n, k). n - k)") auto

declare ioapics.simps [simp del]

definition last_or :: "u64 \<Rightarrow> u32 list \<Rightarrow> u64" where
  "last_or x as = (if as = [] then x else ucast (last as))"

lemma last_or_Cons: "last_or x (a # as) = last_or (ucast a) as"
  by (simp add: last_or_def)

lemma held_ptr:
  assumes "held s w mp n" "k \<le> n + 255"
  shows "unat (w + of_nat k) = unat w + k"
  using assms unat_of_nat_small [of k, where 'a = 64] by (simp add: held_def unat_add_small)

lemma madt_loop_result:
  "held (ac_vmm s) w mp n \<Longrightarrow> ioapics m mp n k = Some as \<Longrightarrow> k \<le> n \<Longrightarrow>
     madt_loop m (w + of_nat n) (w + of_nat k) f s =
       Some (f \<or> as \<noteq> [], s\<lparr>ac_ioapic_base := last_or (ac_ioapic_base s) as\<rparr>)"
proof (induction m mp n k arbitrary: as f s rule: ioapics.induct)
  case (1 m mp n k)
  note h = 1(3) and as = 1(4) and kn = 1(5)
  let ?l = "m (mp + of_nat (k + 1))"
  have cmp: "w + of_nat j < w + of_nat n \<longleftrightarrow> j < n" "w + of_nat n < w + of_nat j \<longleftrightarrow> n < j" if "j \<le> n + 255" for j
    using held_ptr [OF h that] held_ptr [OF h, of n] by (simp_all add: word_less_nat_alt)
  show ?case
  proof (cases "k < n")
    case False
    with kn as have "k = n" "as = []" by (simp_all add: ioapics.simps)
    then show ?thesis using cmp(1) [of n] by (subst madt_loop.simps) (simp add: last_or_def)
  next
    case True
    have k2: "k + 2 \<le> n" using as True by (auto simp: ioapics.simps [of m mp n k] split: if_splits)
    have len: "read8 m s (w + of_nat k + 1) = Some ?l"
      using held_read8 [OF h, of "k + 1" m] k2 by (simp add: ac_simps)
    have knd: "read8 m s (w + of_nat k) = Some (m (mp + of_nat k))" by (rule held_read8 [OF h True])
    have nxt: "w + of_nat k + ucast ?l = w + of_nat (k + unat ?l)" by (simp add: ac_simps)
    have l: "unat ?l < 256" by (rule unat_u8_less)
    have big: "w + of_nat n < w + of_nat (k + unat ?l) \<longleftrightarrow> n < k + unat ?l"
      using l True by (intro cmp(2)) simp
    have go: "w + of_nat k < w + of_nat n" using cmp(1) [of k] True by simp
    show ?thesis
    proof (cases "unat ?l = 0 \<or> n < k + unat ?l")
      case stop: True
      then have "as = []" using as k2 by (simp add: ioapics.simps [of m mp n k] Let_def)
      moreover have "?l = 0 \<or> w + of_nat n < w + of_nat k + ucast ?l"
        using stop unfolding nxt big by (simp add: unat_eq_zero)
      ultimately show ?thesis using go len by (subst madt_loop.simps) (simp add: last_or_def)
    next
      case False
      then have no: "\<not> (?l = 0 \<or> w + of_nat n < w + of_nat k + ucast ?l)" unfolding nxt big by auto
      have kl: "k + unat ?l \<le> n" using False by simp
      show ?thesis
      proof (cases "m (mp + of_nat k) = 1")
        case io: True
        from as k2 False io obtain bs where l8: "8 \<le> unat ?l" and bs: "ioapics m mp n (k + unat ?l) = Some bs"
          and asb: "as = load32 m (mp + of_nat (k + 4)) # bs"
          by (auto simp: ioapics.simps [of m mp n k] Let_def split: if_splits)
        have addr: "read32 m s (w + of_nat k + off_ioapic_addr) = Some (load32 m (mp + of_nat (k + 4)))"
          using held_read32 [OF h, of "k + 4" m] l8 kl by (simp add: off_ioapic_addr_def ac_simps)
        let ?s = "s\<lparr>ac_ioapic_base := ucast (load32 m (mp + of_nat (k + 4)))\<rparr>"
        have "held (ac_vmm ?s) w mp n" using h by simp
        from 1(1) [OF _ _ refl False io _ this bs kl, of True] k2 l8
        have "madt_loop m (w + of_nat n) (w + of_nat (k + unat ?l)) True ?s =
           Some (True, s\<lparr>ac_ioapic_base := last_or (ac_ioapic_base s) as\<rparr>)" by (simp add: asb last_or_Cons)
        then show ?thesis using go len knd no addr io asb by (subst madt_loop.simps) (simp add: add.assoc)
      next
        case other: False
        then have "ioapics m mp n (k + unat ?l) = Some as"
          using as k2 False by (simp add: ioapics.simps [of m mp n k] Let_def)
        from 1(2) [OF _ _ refl False other h this kl, of f] k2 other
        show ?thesis using go len knd no by (subst madt_loop.simps) (simp add: add.assoc)
      qed
    qed
  qed
qed

section \<open>Initialisation\<close>

text \<open>Which root table the RSDP at \<open>rp\<close> leads to, and the tables that one lists.\<close>

definition uses_xsdt :: "ram \<Rightarrow> u64 \<Rightarrow> bool" where
  "uses_xsdt m rp \<longleftrightarrow> 2 \<le> m (rp + 15) \<and> load64 m (rp + 24) \<noteq> 0"

definition acpi_root :: "ram \<Rightarrow> u64 \<Rightarrow> u64" where
  "acpi_root m rp = (if uses_xsdt m rp then load64 m (rp + 24) else ucast (load32 m (rp + 16)))"

definition acpi_root_signature :: "ram \<Rightarrow> u64 \<Rightarrow> u32" where
  "acpi_root_signature m rp = (if uses_xsdt m rp then XSDT_SIGNATURE else RSDT_SIGNATURE)"

definition acpi_tables :: "ram \<Rightarrow> u64 \<Rightarrow> u64 list" where
  "acpi_tables m rp =
     (if uses_xsdt m rp then root_entries fetch64 8 m (acpi_root m rp) else root_entries fetch32 4 m (acpi_root m rp))"

lemma parse_madt_entries_result:
  assumes "held (ac_vmm s) w mp (table_length m mp)" "w \<noteq> 0" "44 \<le> table_length m mp"
    "ioapics m mp (table_length m mp) 44 = Some as"
  shows "parse_madt_entries m w s = Some (as \<noteq> [], s\<lparr>ac_lapic_base := ucast (load32 m (mp + 36)),
     ac_ioapic_base := last_or (ac_ioapic_base s) as\<rparr>)"
proof -
  let ?s = "s\<lparr>ac_lapic_base := ucast (load32 m (mp + 36))\<rparr>"
  have h: "held (ac_vmm ?s) w mp (table_length m mp)" using assms(1) by simp
  have "read32 m s (w + off_lapic_addr) = Some (load32 m (mp + 36))"
    using held_read32 [OF assms(1), of 36 m] assms(3) by (simp add: off_lapic_addr_def)
  moreover have "read32 m ?s (w + off_length) = Some (load32 m (mp + 4))"
    using read_header(2) [OF h, of m] assms(3) by simp
  moreover have "(ucast (load32 m (mp + 4)) :: u64) = of_nat (table_length m mp)"
    by (simp add: table_length_def)
  ultimately show ?thesis
    using madt_loop_result [OF h assms(4,3), of False] assms(2)
    by (simp add: parse_madt_entries_def sizeof_acpi_madt_def)
qed

text \<open>The loop over the root table that is used, from the state before it.\<close>

lemma acpi_scan:
  assumes "vspace r (20 * (length ts + 1)) (ac_vmm s)" "held (ac_vmm s) rsdp rp 36" "rsdp \<noteq> 0" "rsdp \<noteq> 8"
    and "table_ok m (acpi_root m rp)" "load32 m (acpi_root m rp) = acpi_root_signature m rp"
    and "ts = acpi_tables m rp" "\<forall>t \<in> set ts. table_ok m t" "with_signature m MADT_SIGNATURE ts \<noteq> []"
  obtains madt s' where "acpi_init m (rsdp - 8) s =
      Option.bind (parse_madt_entries m madt s') (\<lambda>(found, s). Some (0, s))"
    "madt \<noteq> 0" "found m MADT_SIGNATURE ts s' 0 madt"
    "found m (if uses_xsdt m rp then FADT_SIGNATURE_XSDT else FADT_SIGNATURE) ts s' (ac_fadt s) (ac_fadt s')"
    "ac_lapic_base s' = ac_lapic_base s" "ac_ioapic_base s' = ac_ioapic_base s"
proof -
  have rd: "read8 m s (rsdp + off_revision) = Some (m (rp + 15))"
    "read64 m s (rsdp + off_xsdt_addr) = Some (load64 m (rp + 24))"
    "read32 m s (rsdp + off_rsdt_addr) = Some (load32 m (rp + 16))"
    using held_read8 [OF assms(2), of 15 m] held_read64 [OF assms(2), of 24 m] held_read32 [OF assms(2), of 16 m]
    by (simp_all add: off_revision_def off_xsdt_addr_def off_rsdt_addr_def)
  have nz: "acpi_root m rp \<noteq> 0" using assms(5) by (auto simp: table_ok_def)
  show thesis
  proof (cases "uses_xsdt m rp")
    case True
    have ts: "ts = root_entries fetch64 8 m (acpi_root m rp)" using True assms(7) by (simp add: acpi_tables_def)
    have sg: "load32 m (acpi_root m rp) = XSDT_SIGNATURE" using True assms(6) by (simp add: acpi_root_signature_def)
    obtain madt s' where sc: "scan_root (xsdt_entry m) (of_nat 8) XSDT_SIGNATURE m (acpi_root m rp) (0, s) = Some (madt, s')"
      "ac_lapic_base s' = ac_lapic_base s" "ac_ioapic_base s' = ac_ioapic_base s" "found m MADT_SIGNATURE ts s' 0 madt"
      "found m FADT_SIGNATURE_XSDT ts s' (ac_fadt s) (ac_fadt s')"
      using xsdt.scan_root_result [OF assms(1,5) sg ts assms(8), of 0] by auto
    have "madt \<noteq> 0" using sc(4) assms(9) by (simp add: found_def Let_def split: if_splits)
    then show ?thesis
      using that [of madt s'] sc True rd assms(3,4)
      by (simp add: acpi_init_def find_rsdp_def uses_xsdt_def acpi_root_def)
  next
    case False
    have ts: "ts = root_entries fetch32 4 m (acpi_root m rp)" using False assms(7) by (simp add: acpi_tables_def)
    have sg: "load32 m (acpi_root m rp) = RSDT_SIGNATURE" using False assms(6) by (simp add: acpi_root_signature_def)
    obtain madt s' where sc: "scan_root (rsdt_entry m) (of_nat 4) RSDT_SIGNATURE m (acpi_root m rp) (0, s) = Some (madt, s')"
      "ac_lapic_base s' = ac_lapic_base s" "ac_ioapic_base s' = ac_ioapic_base s" "found m MADT_SIGNATURE ts s' 0 madt"
      "found m FADT_SIGNATURE ts s' (ac_fadt s) (ac_fadt s')"
      using rsdt.scan_root_result [OF assms(1,5) sg ts assms(8), of 0] by auto
    have "madt \<noteq> 0" using sc(4) assms(9) by (simp add: found_def Let_def split: if_splits)
    moreover have "load32 m (rp + 16) \<noteq> 0" using nz False by (auto simp: acpi_root_def)
    ultimately show ?thesis
      using that [of madt s'] sc False rd assms(3,4)
      by (cases "2 \<le> m (rp + 15)") (simp_all add: acpi_init_def find_rsdp_def uses_xsdt_def acpi_root_def)
  qed
qed

text \<open>C35. With an RSDP in the boot information that leads to a well-formed root table, the XSDT from revision 2 on and
  otherwise the RSDT, and with room for the windows, \<open>acpi_init\<close> returns 0 without a page fault; the base of the local APIC
  is the one in the last MADT that the root table lists, the base of the I/O APIC is that of the last such entry of this MADT,
  and \<open>fadt\<close> is a window on the last table with the signature the code looks for.  All windows show the physical tables.\<close>

theorem acpi_init_finds_apics:
  assumes "vspace r (20 * (length ts + 1)) (ac_vmm s)" "held (ac_vmm s) rsdp rp 36" "rsdp \<noteq> 0" "rsdp \<noteq> 8"
    and "table_ok m (acpi_root m rp)" "load32 m (acpi_root m rp) = acpi_root_signature m rp"
    and "ts = acpi_tables m rp" "\<forall>t \<in> set ts. table_ok m t" "with_signature m MADT_SIGNATURE ts \<noteq> []"
    and "mp = last (with_signature m MADT_SIGNATURE ts)" "44 \<le> table_length m mp"
    and "ioapics m mp (table_length m mp) 44 = Some as"
  shows "\<exists>s'. acpi_init m (rsdp - 8) s = Some (0, s') \<and>
     ac_lapic_base s' = ucast (load32 m (mp + 36)) \<and> ac_ioapic_base s' = last_or (ac_ioapic_base s) as \<and>
     found m (if uses_xsdt m rp then FADT_SIGNATURE_XSDT else FADT_SIGNATURE) ts s' (ac_fadt s) (ac_fadt s')"
proof -
  from acpi_scan [OF assms(1-9)] obtain madt s1 where
    1: "acpi_init m (rsdp - 8) s = Option.bind (parse_madt_entries m madt s1) (\<lambda>(found, s). Some (0, s))"
      "madt \<noteq> 0" "found m MADT_SIGNATURE ts s1 0 madt"
      "found m (if uses_xsdt m rp then FADT_SIGNATURE_XSDT else FADT_SIGNATURE) ts s1 (ac_fadt s) (ac_fadt s1)"
      "ac_ioapic_base s1 = ac_ioapic_base s" by metis
  have "held (ac_vmm s1) madt mp (table_length m mp)"
    using 1(3) assms(9,10) by (simp add: found_def Let_def)
  from parse_madt_entries_result [OF this 1(2) assms(11,12)] 1 show ?thesis by simp
qed

section \<open>The search for the RSDP in memory\<close>

text \<open>The bytes \<open>RSD PTR\<close> and a space, read as a little-endian word.\<close>

definition rsdp_word :: u64 where
  "rsdp_word = 0x2052545020445352"

lemma scan_rsdp_misses:
  assumes "\<And>p. 0xE0000 \<le> p \<Longrightarrow> p < 0xFFFFF \<Longrightarrow> \<exists>v. read64 m s p = Some v \<and> v \<noteq> RSDP_SIGNATURE"
  shows "k \<le> 8192 \<Longrightarrow> scan_rsdp m s 0xFFFFF 16 (0xE0000 + of_nat (16 * (8192 - k))) = Some 0"
proof (induction k)
  case 0
  show ?case by (subst scan_rsdp.simps) simp
next
  case (Suc k)
  let ?p = "0xE0000 + of_nat (16 * (8192 - Suc k)) :: u64"
  have u: "unat ?p = 0xE0000 + 16 * (8192 - Suc k)"
    by (subst unat_add_small) (simp_all add: unat_of_nat_small del: of_nat_mult of_nat_diff)
  then have r: "0xE0000 \<le> ?p" "?p < 0xFFFFF"
    using Suc.prems by (simp_all add: word_le_nat_alt word_less_nat_alt del: of_nat_mult of_nat_diff)
  from assms [OF this] obtain v where v: "read64 m s ?p = Some v" "v \<noteq> RSDP_SIGNATURE" by blast
  have "16 * (8192 - k) = 16 * (8192 - Suc k) + 16" using Suc.prems by simp
  then have nxt: "?p + 16 = 0xE0000 + of_nat (16 * (8192 - k))" by (simp only: of_nat_add of_nat_numeral add.assoc)
  have "scan_rsdp m s 0xFFFFF 16 q = Some 0" if "read64 m s q = Some v" "q < 0xFFFFF"
    "scan_rsdp m s 0xFFFFF 16 (q + 16) = Some 0" for q
    using that v(2) by (subst scan_rsdp.simps) simp
  from this [OF v(1) r(2)] show ?case unfolding nxt using Suc by simp
qed

text \<open>Without an RSDP from the boot loader, a BIOS area that holds nothing but zeros and true RSDP signatures is
  searched in vain: the constant that is compared with has the bytes in the opposite order, and the second loop, meant for
  the extended BIOS data area, starts past its limit.\<close>

theorem find_rsdp_overlooks_signature:
  assumes "\<And>p. 0xE0000 \<le> p \<Longrightarrow> p < 0xFFFFF \<Longrightarrow> \<exists>v \<in> {0, rsdp_word}. read64 m s p = Some v"
  shows "find_rsdp m 0 s = Some 0"
proof -
  have "scan_rsdp m s 0xFFFFF 16 0xE0000 = Some 0"
    using scan_rsdp_misses [of m s 8192] assms by (force simp: rsdp_word_def RSDP_SIGNATURE_def)
  moreover have "scan_rsdp m s (0x40E + 1024) (0x10 div 8) ((0x40E * 0x10) AND 0x000FFFFF) = Some 0"
    by (subst scan_rsdp.simps) simp
  ultimately show ?thesis by (simp add: find_rsdp_def)
qed

section \<open>Witness\<close>

text \<open>An RSDP of revision 0 at 1 MiB, an RSDT with two entries, a MADT with one I/O APIC and an FADT.\<close>

definition rsdt_bytes :: "u8 list" where
  "rsdt_bytes = [0x52, 0x53, 0x44, 0x54, 44, 0, 0, 0] @ replicate 28 0 @ [0, 0x20, 0x10, 0, 0, 0x30, 0x10, 0]"

definition madt_bytes :: "u8 list" where
  "madt_bytes = [0x41, 0x50, 0x49, 0x43, 56, 0, 0, 0] @ replicate 28 0 @
     [0, 0, 0xE0, 0xFE, 0, 0, 0, 0, 1, 12, 0, 0, 0, 0, 0xC0, 0xFE, 0, 0, 0, 0]"

definition acpi_ram :: ram where
  "acpi_ram a =
     (if a = 0x100011 then 0x10 else if a = 0x100012 then 0x10
      else if 0x101000 \<le> a \<and> a < 0x101000 + 44 then rsdt_bytes ! unat (a - 0x101000)
      else if 0x102000 \<le> a \<and> a < 0x102000 + 56 then madt_bytes ! unat (a - 0x102000)
      else if a = 0x103000 then 0x46 else if a = 0x103001 then 0x41 else if a = 0x103002 then 0x43
      else if a = 0x103003 then 0x50 else if a = 0x103004 then 116 else 0)"

lemma acpi_ram_loads:
  "acpi_ram 0x10000F = 0" "load32 acpi_ram 0x100010 = 0x101000" "load32 acpi_ram 0x101000 = RSDT_SIGNATURE"
  "load32 acpi_ram 0x101004 = 44" "load32 acpi_ram 0x101024 = 0x102000" "load32 acpi_ram 0x101028 = 0x103000"
  "load32 acpi_ram 0x102000 = MADT_SIGNATURE" "load32 acpi_ram 0x102004 = 56" "load32 acpi_ram 0x102024 = 0xFEE00000"
  "load32 acpi_ram 0x103000 = FADT_SIGNATURE" "load32 acpi_ram 0x103004 = 116" "acpi_ram 0x10202C = 1"
  "acpi_ram 0x10202D = 12" "load32 acpi_ram 0x102030 = 0xFEC00000"
  by code_simp+

lemma acpi_ram_root: "uses_xsdt acpi_ram 0x100000 = False" "acpi_root acpi_ram 0x100000 = 0x101000"
  "acpi_tables acpi_ram 0x100000 = [0x102000, 0x103000]"
  by (simp_all add: uses_xsdt_def acpi_root_def acpi_tables_def root_entries_def table_length_def fetch32_def
      acpi_ram_loads upt_rec)

lemma acpi_ram_tables:
  "table_ok acpi_ram 0x101000" "table_ok acpi_ram 0x102000" "table_ok acpi_ram 0x103000"
  "with_signature acpi_ram MADT_SIGNATURE [0x102000, 0x103000] = [0x102000]"
  by (simp_all add: table_ok_def table_length_def with_signature_def acpi_ram_loads)

lemma acpi_ram_ioapics: "ioapics acpi_ram 0x102000 56 44 = Some [0xFEC00000]"
  by (subst ioapics.simps, simp add: acpi_ram_loads, subst ioapics.simps, simp)

theorem acpi_init_finds_apics_witness:
  "\<exists>grub s s'. acpi_init acpi_ram grub s = Some (0, s') \<and> ac_lapic_base s' = 0xFEE00000 \<and>
     ac_ioapic_base s' = 0xFEC00000 \<and> shutdown s' = 0"
proof -
  have vs: "vspace root_table 100 root_vmm" using root_vmm_ok root_vmm_next by (simp add: vspace_def)
  have w: "window_size 0x100000 36 \<le> 100" using window_size_le(2) [of "0x100000"] by simp
  obtain a v where "mmio_map 0x100000 36 root_vmm = (a, v)" "a \<noteq> 0"
    and h: "vspace root_table (100 - window_size 0x100000 36) v" "held v a 0x100000 (unat (36 :: u64))"
    and "extends root_vmm v" and a: "a = mmio_virt_next root_vmm + of_nat (unat (0x100000 :: u64) mod 4096)"
    by (rule vspace_map [OF vs, of 36 "0x100000"]) (use w in simp_all)
  have h3: "held v a 0x100000 36" "a = 0xFFFFFFFF90000000" using h(2) a root_vmm_next by simp_all
  let ?s = "\<lparr>ac_vmm = v, ac_lapic_base = 0, ac_ioapic_base = 0, ac_fadt = 0\<rparr>"
  have "vspace root_table (20 * (length [0x102000 :: u64, 0x103000] + 1)) (ac_vmm ?s)"
    using vspace_mono [OF h(1)] window_size_le(2) [of "0x100000"] by simp
  from acpi_init_finds_apics [OF this, of a "0x100000" acpi_ram "0x102000" "[0xFEC00000]"] h3
  show ?thesis
    by (auto simp: acpi_ram_root acpi_ram_tables acpi_root_signature_def acpi_ram_loads table_length_def
        acpi_ram_ioapics last_or_def shutdown_def found_def with_signature_def)
qed

end
