(* ===== verification/Elf.thy ===== *)
theory Elf
  imports Heap
begin

unbundle bit_operations_syntax

text \<open>
  The ELF loader (\<open>kernel/elf.c\<close>).  The file lies in byte memory at the address \<open>hdr\<close>; the structures of
  \<open>elf.h\<close> are the 64-bit ones of the System V ABI.  A result is \<open>None\<close> where the C code divides by zero, runs for ever
  or the allocator gives no result.  Output to the screen is left out.
\<close>

section \<open>Structures\<close>

definition EI_CLASS :: u64 where "EI_CLASS = 4"
definition EI_DATA :: u64 where "EI_DATA = 5"
definition EI_VERSION :: u64 where "EI_VERSION = 6"
definition ELFMAG :: u32 where "ELFMAG = 0x464C457F"
definition ELFCLASS64 :: u8 where "ELFCLASS64 = 2"
definition ELFDATA2LSB :: u8 where "ELFDATA2LSB = 1"
definition EV_CURRENT :: u8 where "EV_CURRENT = 1"
definition EM_386 :: u16 where "EM_386 = 3"
definition EM_X86_64 :: u16 where "EM_X86_64 = 62"
definition ET_REL :: u16 where "ET_REL = 1"
definition ET_EXEC :: u16 where "ET_EXEC = 2"
definition SHT_NOBITS :: u32 where "SHT_NOBITS = 8"
definition SHT_REL :: u32 where "SHT_REL = 9"
definition SHF_ALLOC :: u64 where "SHF_ALLOC = 2"
definition SHN_UNDEF :: u16 where "SHN_UNDEF = 0"
definition SHN_ABS :: u16 where "SHN_ABS = 0xFFF1"

definition e_type :: "ram \<Rightarrow> u64 \<Rightarrow> u16" where "e_type m ehdr = load16 m (ehdr + 16)"
definition e_machine :: "ram \<Rightarrow> u64 \<Rightarrow> u16" where "e_machine m ehdr = load16 m (ehdr + 18)"
definition e_shoff :: "ram \<Rightarrow> u64 \<Rightarrow> u64" where "e_shoff m ehdr = load64 m (ehdr + 40)"
definition e_shnum :: "ram \<Rightarrow> u64 \<Rightarrow> u16" where "e_shnum m ehdr = load16 m (ehdr + 60)"
definition e_shstrndx :: "ram \<Rightarrow> u64 \<Rightarrow> u16" where "e_shstrndx m ehdr = load16 m (ehdr + 62)"

definition sh_type :: "ram \<Rightarrow> u64 \<Rightarrow> u32" where "sh_type m s = load32 m (s + 4)"
definition sh_flags :: "ram \<Rightarrow> u64 \<Rightarrow> u64" where "sh_flags m s = load64 m (s + 8)"
definition sh_offset :: "ram \<Rightarrow> u64 \<Rightarrow> u64" where "sh_offset m s = load64 m (s + 24)"
definition sh_size :: "ram \<Rightarrow> u64 \<Rightarrow> u64" where "sh_size m s = load64 m (s + 32)"
definition sh_link :: "ram \<Rightarrow> u64 \<Rightarrow> u32" where "sh_link m s = load32 m (s + 40)"
definition sh_info :: "ram \<Rightarrow> u64 \<Rightarrow> u32" where "sh_info m s = load32 m (s + 44)"
definition sh_entsize :: "ram \<Rightarrow> u64 \<Rightarrow> u64" where "sh_entsize m s = load64 m (s + 56)"

definition sizeof_Shdr :: u64 where "sizeof_Shdr = 64"
definition sizeof_Sym :: u64 where "sizeof_Sym = 24"
definition sizeof_Rel :: u64 where "sizeof_Rel = 16"

definition store64 :: "u64 \<Rightarrow> u64 \<Rightarrow> ram \<Rightarrow> ram" where
  "store64 a v m = fold (\<lambda>k f. f(a + of_nat k := ucast (drop_bit (8 * k) v))) [0..<8] m"

section \<open>Checks\<close>

definition is_elf_valid :: "ram \<Rightarrow> u64 \<Rightarrow> bool" where
  "is_elf_valid m ehdr = (if ehdr = 0 then False else if load32 m ehdr \<noteq> ELFMAG then False else True)"

definition is_elf_supported :: "ram \<Rightarrow> u64 \<Rightarrow> bool" where
  "is_elf_supported m ehdr =
     (if \<not> is_elf_valid m ehdr then False
      else if m (ehdr + EI_CLASS) \<noteq> ELFCLASS64 then False
      else if m (ehdr + EI_DATA) \<noteq> ELFDATA2LSB then False
      else if e_machine m ehdr \<noteq> EM_386 then False
      else if m (ehdr + EI_VERSION) \<noteq> EV_CURRENT then False
      else if e_type m ehdr \<noteq> ET_REL \<and> e_type m ehdr \<noteq> ET_EXEC then False
      else True)"

section \<open>Sections, strings and symbols\<close>

definition elf_sheader :: "ram \<Rightarrow> u64 \<Rightarrow> u64" where
  "elf_sheader m ehdr = ehdr + e_shoff m ehdr"

text \<open>The index is an \<open>int\<close>, converted to the width of a pointer.\<close>

definition elf_section :: "ram \<Rightarrow> u64 \<Rightarrow> 32 word \<Rightarrow> u64" where
  "elf_section m ehdr idx = elf_sheader m ehdr + scast idx * sizeof_Shdr"

definition elf_str_table :: "ram \<Rightarrow> u64 \<Rightarrow> u64" where
  "elf_str_table m ehdr =
     (if e_shstrndx m ehdr = SHN_UNDEF then 0
      else ehdr + sh_offset m (elf_section m ehdr (ucast (e_shstrndx m ehdr))))"

definition elf_lookup_string :: "ram \<Rightarrow> u64 \<Rightarrow> 32 word \<Rightarrow> u64" where
  "elf_lookup_string m ehdr offset =
     (let strtab = elf_str_table m ehdr in if strtab = 0 then 0 else strtab + scast offset)"

text \<open>An external symbol makes the function print its name and loop for ever, before the lookup that is not implemented;
  the symbol table is reached through an address cut to 32 bits.\<close>

definition elf_get_symval :: "ram \<Rightarrow> u64 \<Rightarrow> 32 word \<Rightarrow> u32 \<Rightarrow> u64 option" where
  "elf_get_symval m ehdr table idx =
     (if table = ucast SHN_UNDEF \<or> idx = ucast SHN_UNDEF then Some 0
      else let symtab = elf_section m ehdr table in
        if sh_entsize m symtab = 0 then None
        else let symtab_entries = (ucast (sh_size m symtab div sh_entsize m symtab) :: u32) in
          if symtab_entries \<le> idx then Some (- 1)
          else let symaddr = (ucast (scast (ucast ehdr :: 32 word) + sh_offset m symtab) :: 32 word);
                   symbol = scast symaddr + ucast idx * sizeof_Sym;
                   st_shndx = load16 m (symbol + 6); st_value = load64 m (symbol + 8)
               in if st_shndx = SHN_UNDEF then None
                  else if st_shndx = SHN_ABS then Some st_value
                  else Some (ehdr + st_value + sh_offset m (elf_section m ehdr (ucast st_shndx))))"

section \<open>Loading\<close>

definition elf_section_at :: "ram \<Rightarrow> u64 \<Rightarrow> nat \<Rightarrow> u64" where
  "elf_section_at m ehdr i = elf_sheader m ehdr + of_nat i * sizeof_Shdr"

text \<open>The body of the loop of the first stage: memory for a section without bits.  The pointer to the section table is
  computed before the loop.\<close>

definition stage1_section :: "u64 \<Rightarrow> u64 \<Rightarrow> ram \<times> heap \<Rightarrow> (ram \<times> heap) option" where
  "stage1_section ehdr sec mh =
     (let (m, h) = mh in
      if sh_type m sec = SHT_NOBITS \<and> sh_size m sec \<noteq> 0 \<and> sh_flags m sec AND SHF_ALLOC \<noteq> 0
      then do {
        (p, h) \<leftarrow> kmalloc (sh_size m sec) h;
        Some (store64 (sec + 24) (p - ehdr) (memset p 0 (sh_size m sec) m), h)
      }
      else Some (m, h))"

fun stage1_loop :: "u64 \<Rightarrow> u64 \<Rightarrow> nat list \<Rightarrow> ram \<times> heap \<Rightarrow> (ram \<times> heap) option" where
  "stage1_loop ehdr shdr [] mh = Some mh"
| "stage1_loop ehdr shdr (i # is) mh =
     Option.bind (stage1_section ehdr (shdr + of_nat i * sizeof_Shdr) mh) (stage1_loop ehdr shdr is)"

definition elf_load_stage1 :: "u64 \<Rightarrow> ram \<times> heap \<Rightarrow> (int \<times> ram \<times> heap) option" where
  "elf_load_stage1 ehdr mh =
     map_option (\<lambda>mh. (1, mh))
       (stage1_loop ehdr (elf_sheader (fst mh) ehdr) [0..<unat (e_shnum (fst mh) ehdr)] mh)"

definition ELF64_R_SYM :: "u64 \<Rightarrow> u64" where "ELF64_R_SYM i = drop_bit 32 i"

text \<open>The symbol index is taken from the local \<open>symval\<close>, which is 0, and not from the relocation; the \<open>switch\<close> over the type of
  the relocation does nothing.\<close>

definition elf_do_reloc :: "ram \<Rightarrow> u64 \<Rightarrow> u64 \<Rightarrow> u64 \<Rightarrow> int option" where
  "elf_do_reloc m ehdr rel reltab =
     (let symval = (0 :: 32 word) in
      if ELF64_R_SYM (scast symval) \<noteq> ucast SHN_UNDEF
      then do {
        v \<leftarrow> elf_get_symval m ehdr (ucast (sh_link m reltab)) (ucast (ELF64_R_SYM (load64 m (rel + 8))));
        let symval = (ucast v :: 32 word);
        if symval = - 1 then Some (- 1) else Some (sint symval)
      }
      else Some (sint symval))"

fun stage2_rels :: "ram \<Rightarrow> u64 \<Rightarrow> u64 \<Rightarrow> nat list \<Rightarrow> int option" where
  "stage2_rels m ehdr sec [] = Some 0"
| "stage2_rels m ehdr sec (idx # is) = do {
     r \<leftarrow> elf_do_reloc m ehdr (ehdr + sh_offset m sec + of_nat idx * sizeof_Rel) sec;
     if r = - 1 then Some (- 1) else stage2_rels m ehdr sec is
   }"

fun stage2_loop :: "ram \<Rightarrow> u64 \<Rightarrow> nat list \<Rightarrow> int option" where
  "stage2_loop m ehdr [] = Some 0"
| "stage2_loop m ehdr (i # is) = do {
     let sec = elf_section_at m ehdr i;
     if sh_type m sec = SHT_REL
     then if sh_entsize m sec = 0 then None
       else do {
         r \<leftarrow> stage2_rels m ehdr sec [0..<unat (ucast (sh_size m sec div sh_entsize m sec) :: u32)];
         if r = - 1 then Some (- 1) else stage2_loop m ehdr is
       }
     else stage2_loop m ehdr is
   }"

definition elf_load_stage2 :: "ram \<Rightarrow> u64 \<Rightarrow> int option" where
  "elf_load_stage2 m ehdr = stage2_loop m ehdr [0..<unat (e_shnum m ehdr)]"

section \<open>What the loader does\<close>

text \<open>No 64-bit executable for the machine the kernel runs on passes the check.\<close>

theorem elf_x86_64_rejected: "e_machine m ehdr = EM_X86_64 \<Longrightarrow> \<not> is_elf_supported m ehdr"
  by (simp add: is_elf_supported_def EM_X86_64_def EM_386_def)

lemma elf_do_reloc_zero: "elf_do_reloc m ehdr rel reltab = Some 0"
  by (simp add: elf_do_reloc_def ELF64_R_SYM_def SHN_UNDEF_def)

lemma stage2_rels_zero: "stage2_rels m ehdr sec is = Some 0"
  by (induction "is") (simp_all add: elf_do_reloc_zero)

text \<open>The second stage only fails on a relocation section with entries of size 0; otherwise it reports success whatever the
  relocations are, and relocates nothing.\<close>

theorem elf_stage2_relocates_nothing:
  assumes "\<forall>i < unat (e_shnum m ehdr). sh_type m (elf_section_at m ehdr i) = SHT_REL \<longrightarrow>
     sh_entsize m (elf_section_at m ehdr i) \<noteq> 0"
  shows "elf_load_stage2 m ehdr = Some 0"
proof -
  have "stage2_loop m ehdr is = Some 0" if "\<forall>i \<in> set is. sh_type m (elf_section_at m ehdr i) = SHT_REL \<longrightarrow>
     sh_entsize m (elf_section_at m ehdr i) \<noteq> 0" for "is"
    using that by (induction "is") (auto simp: stage2_rels_zero Let_def)
  with assms show ?thesis by (simp add: elf_load_stage2_def)
qed

end
