(* ===== verification/Serial.thy ===== *)
theory Serial
  imports Ports "HOL-Library.Monad_Syntax"
begin

unbundle bit_operations_syntax

text \<open>
  The serial port (\<open>include/drivers/serial.h\<close>): polled output on COM1.  The state is the flag \<open>serial_initialized\<close> and
  the hardware behind the ports; a port that never gets ready makes the code wait for ever (\<open>None\<close>).
\<close>

type_synonym 'p serial = "bool \<times> 'p"

definition COM1 :: u16 where "COM1 = 0x3F8"

definition serial_can_send :: "'p ports \<Rightarrow> 'p \<Rightarrow> bool \<times> 'p" where
  "serial_can_send io p = (let (b, p) = io_inb io (COM1 + 5) p in (b AND 0x20 \<noteq> 0, p))"

definition serial_init :: "'p ports \<Rightarrow> 'p serial \<Rightarrow> 'p serial" where
  "serial_init io s =
     (let (ready, p) = s in
      if ready then s
      else (True, fold (\<lambda>(a, v). io_outb io (COM1 + a) v)
              [(1, 0x00), (3, 0x80), (0, 0x03), (1, 0x00), (3, 0x03), (2, 0xC7), (4, 0x0B)] p))"

partial_function (option) wait_send :: "'p ports \<Rightarrow> 'p \<Rightarrow> 'p option" where
  "wait_send io p = (case serial_can_send io p of (ok, p) \<Rightarrow> if ok then Some p else wait_send io p)"

definition serial_putc :: "'p ports \<Rightarrow> u8 \<Rightarrow> 'p serial \<Rightarrow> 'p serial option" where
  "serial_putc io c s =
     (let s = (if \<not> fst s then serial_init io s else s) in
      if \<not> fst s then Some s
      else do {
        p \<leftarrow> wait_send io (snd s);
        Some (fst s, io_outb io (COM1 + 0) c p)
      })"

fun serial_puts :: "'p ports \<Rightarrow> u8 list \<Rightarrow> 'p serial \<Rightarrow> 'p serial option" where
  "serial_puts io [] s = Some s"
| "serial_puts io (c # cs) s = Option.bind (serial_putc io c s) (serial_puts io cs)"

definition hex_digit :: "u64 \<Rightarrow> u8" where
  "hex_digit v = (if v < 10 then 0x30 + ucast v else 0x61 + ucast (v - 10))"

definition serial_put_hex :: "'p ports \<Rightarrow> u64 \<Rightarrow> 'p serial \<Rightarrow> 'p serial option" where
  "serial_put_hex io val s = do {
     s \<leftarrow> serial_puts io [0x30, 0x78] s;
     serial_puts io (map (\<lambda>i. hex_digit (drop_bit (60 - 4 * i) val AND 0xF)) [0..<16]) s
   }"

text \<open>The digits as the first loop stores them, the least significant first.\<close>

function dec_digits :: "u32 \<Rightarrow> u8 list" where
  "dec_digits val = (if val = 0 then [] else (0x30 + ucast (val mod 10)) # dec_digits (val div 10))"
  by pat_completeness auto
termination
proof (relation "measure unat", simp)
  fix val :: u32 assume "val \<noteq> 0"
  then have "unat (val div 10) < unat val" by (simp add: unat_gt_0)
  then show "(val div 10, val) \<in> measure unat" by simp
qed

declare dec_digits.simps [simp del]

definition serial_put_dec :: "'p ports \<Rightarrow> u32 \<Rightarrow> 'p serial \<Rightarrow> 'p serial option" where
  "serial_put_dec io val s =
     (if val = 0 then serial_putc io 0x30 s else serial_puts io (rev (dec_digits val)) s)"

section \<open>The digits\<close>

definition dec_value :: "u8 list \<Rightarrow> nat" where
  "dec_value = foldl (\<lambda>n c. 10 * n + (unat c - 48)) 0"

lemma digit_unat: "unat (0x30 + ucast (val mod 10) :: u8) = 48 + unat (val mod (10 :: u32))"
proof -
  have "unat (val mod 10) < 10" by (simp add: unat_mod)
  then have "unat (ucast (val mod 10) :: u8) = unat (val mod 10)" by (simp add: unsigned_ucast_eq take_bit_nat_eq_self)
  with \<open>unat (val mod 10) < 10\<close> show ?thesis by (subst unat_add_small) simp_all
qed

theorem dec_digits_value: "dec_value (rev (dec_digits val)) = unat val \<and> length (dec_digits val) \<le> 10"
proof -
  have v: "dec_value (rev (dec_digits val)) = unat val" for val
  proof (induction val rule: dec_digits.induct)
    case (1 val)
    show ?case
    proof (cases "val = 0")
      case False
      have "dec_value (rev (dec_digits val)) = 10 * dec_value (rev (dec_digits (val div 10))) + unat (val mod 10)"
        using False digit_unat [of val] by (subst dec_digits.simps) (simp add: dec_value_def)
      then show ?thesis using 1 [OF False] by (simp add: unat_mod)
    qed (simp add: dec_digits.simps dec_value_def)
  qed
  have "unat val < 10 ^ k \<Longrightarrow> length (dec_digits val) \<le> k" for k
  proof (induction k arbitrary: val)
    case 0
    then show ?case by (simp add: dec_digits.simps unat_eq_zero)
  next
    case (Suc k)
    then have "unat (val div 10) < 10 ^ k" by (simp add: div_less_iff_less_mult)
    from Suc.IH [OF this] show ?case by (subst dec_digits.simps) simp
  qed
  from this [of 10] unat_u32_less [of val] have "length (dec_digits val) \<le> 10" by simp
  with v show ?thesis by simp
qed

end
