(* ===== verification/Nanoprintf.thy ===== *)
theory Nanoprintf
  imports Gecko_Prelude "HOL-Library.Monad_Syntax"
begin

unbundle bit_operations_syntax

text \<open>
  Formatted output: \<open>include/terminal/npf.h\<close> in the configuration of \<open>include/terminal/printf.h\<close> (field widths and
  precisions, no floats, no large, small or binary conversions, no write-back, no alternative form) and
  \<open>kernel/terminal/printf.c\<close>.

  Text is a list of bytes without the final zero.  The arguments of a call are a list of values with the types
  they were passed with; \<open>None\<close> is undefined behaviour: an argument of another type or a missing one,
  or a width or precision outside of \<open>int\<close>.  The modifier for \<open>long double\<close> is only read with floats and is left out.
\<close>

section \<open>Data\<close>

datatype npf_opt = NPF_FMT_SPEC_OPT_NONE | NPF_FMT_SPEC_OPT_LITERAL | NPF_FMT_SPEC_OPT_STAR

datatype npf_len_mod = NPF_FMT_SPEC_LEN_MOD_NONE | NPF_FMT_SPEC_LEN_MOD_LONG

datatype npf_conv = NPF_FMT_SPEC_CONV_NONE | NPF_FMT_SPEC_CONV_PERCENT | NPF_FMT_SPEC_CONV_CHAR | NPF_FMT_SPEC_CONV_STRING
  | NPF_FMT_SPEC_CONV_SIGNED_INT | NPF_FMT_SPEC_CONV_OCTAL | NPF_FMT_SPEC_CONV_HEX_INT | NPF_FMT_SPEC_CONV_UNSIGNED_INT
  | NPF_FMT_SPEC_CONV_POINTER

record npf_format_spec =
  field_width :: int
  prec :: int
  prec_opt :: npf_opt
  field_width_opt :: npf_opt
  left_justified :: bool
  leading_zero_pad :: bool
  prepend :: u8
  case_adjust :: u8
  length_modifier :: npf_len_mod
  conv_spec :: npf_conv

text \<open>A variable argument: \<open>int\<close> or \<open>unsigned\<close>, \<open>long\<close> or \<open>unsigned long\<close>, a pointer, a string (or the null pointer).\<close>

datatype npf_arg = Arg_Int u32 | Arg_Long u64 | Arg_Pointer u64 | Arg_String "u8 list option"

section \<open>Format specifications\<close>

fun parse_flags :: "u8 list \<Rightarrow> npf_format_spec \<Rightarrow> npf_format_spec \<times> u8 list" where
  "parse_flags [] fs = (fs, [])"
| "parse_flags (c # cs) fs =
     (if c = 0x2D then parse_flags cs (fs\<lparr>left_justified := True\<rparr>)
      else if c = 0x30 then parse_flags cs (fs\<lparr>leading_zero_pad := True\<rparr>)
      else if c = 0x2B then parse_flags cs (fs\<lparr>prepend := 0x2B\<rparr>)
      else if c = 0x20 then parse_flags cs (if prepend fs = 0 then fs\<lparr>prepend := 0x20\<rparr> else fs)
      else (fs, c # cs))"

definition INT_MAX :: int where "INT_MAX = 2 ^ 31 - 1"

text \<open>Decimal digits; the value is an \<open>int\<close>.\<close>

fun parse_int :: "int \<Rightarrow> u8 list \<Rightarrow> (int \<times> u8 list) option" where
  "parse_int n [] = Some (n, [])"
| "parse_int n (c # cs) =
     (if 0x30 \<le> c \<and> c \<le> 0x39
      then let n' = n * 10 + uint (c - 0x30) in if INT_MAX < n' then None else parse_int n' cs
      else Some (n, c # cs))"

definition parse_width :: "u8 list \<Rightarrow> npf_format_spec \<Rightarrow> (npf_format_spec \<times> u8 list) option" where
  "parse_width cs fs =
     (let fs = fs\<lparr>field_width := 0, field_width_opt := NPF_FMT_SPEC_OPT_NONE\<rparr> in
      if cs \<noteq> [] \<and> hd cs = 0x2A then Some (fs\<lparr>field_width_opt := NPF_FMT_SPEC_OPT_STAR\<rparr>, tl cs)
      else do {
        (n, cs') \<leftarrow> parse_int 0 cs;
        Some (fs\<lparr>field_width := n,
               field_width_opt := (if cs' = cs then NPF_FMT_SPEC_OPT_NONE else NPF_FMT_SPEC_OPT_LITERAL)\<rparr>, cs')
      })"

definition parse_prec :: "u8 list \<Rightarrow> npf_format_spec \<Rightarrow> (npf_format_spec \<times> u8 list) option" where
  "parse_prec cs fs =
     (let fs = fs\<lparr>prec := 0, prec_opt := NPF_FMT_SPEC_OPT_NONE\<rparr> in
      if cs = [] \<or> hd cs \<noteq> 0x2E then Some (fs, cs)
      else let cs = tl cs in
        if cs \<noteq> [] \<and> hd cs = 0x2A then Some (fs\<lparr>prec_opt := NPF_FMT_SPEC_OPT_STAR\<rparr>, tl cs)
        else let neg = (cs \<noteq> [] \<and> hd cs = 0x2D) in do {
          (n, cs') \<leftarrow> parse_int 0 (if neg then tl cs else cs);
          Some (fs\<lparr>prec := n, prec_opt := (if neg then NPF_FMT_SPEC_OPT_NONE else NPF_FMT_SPEC_OPT_LITERAL)\<rparr>, cs')
        })"

definition parse_length :: "u8 list \<Rightarrow> npf_format_spec \<Rightarrow> npf_format_spec \<times> u8 list" where
  "parse_length cs fs =
     (if cs \<noteq> [] \<and> hd cs = 0x6C then (fs\<lparr>length_modifier := NPF_FMT_SPEC_LEN_MOD_LONG\<rparr>, tl cs)
      else (fs\<lparr>length_modifier := NPF_FMT_SPEC_LEN_MOD_NONE\<rparr>, cs))"

fun parse_conv :: "u8 list \<Rightarrow> npf_format_spec \<Rightarrow> (npf_format_spec \<times> u8 list) option" where
  "parse_conv [] fs = None"
| "parse_conv (c # cs) fs =
     (if c = 0x25 then Some (fs\<lparr>conv_spec := NPF_FMT_SPEC_CONV_PERCENT\<rparr>, cs)
      else if c = 0x63 then Some (fs\<lparr>conv_spec := NPF_FMT_SPEC_CONV_CHAR\<rparr>, cs)
      else if c = 0x73 then Some (fs\<lparr>conv_spec := NPF_FMT_SPEC_CONV_STRING\<rparr>, cs)
      else if c = 0x69 \<or> c = 0x64 then Some (fs\<lparr>conv_spec := NPF_FMT_SPEC_CONV_SIGNED_INT\<rparr>, cs)
      else if c = 0x6F then Some (fs\<lparr>conv_spec := NPF_FMT_SPEC_CONV_OCTAL\<rparr>, cs)
      else if c = 0x75 then Some (fs\<lparr>conv_spec := NPF_FMT_SPEC_CONV_UNSIGNED_INT\<rparr>, cs)
      else if c = 0x58 then Some (fs\<lparr>case_adjust := 0, conv_spec := NPF_FMT_SPEC_CONV_HEX_INT\<rparr>, cs)
      else if c = 0x78 then Some (fs\<lparr>conv_spec := NPF_FMT_SPEC_CONV_HEX_INT\<rparr>, cs)
      else if c = 0x70 then Some (fs\<lparr>conv_spec := NPF_FMT_SPEC_CONV_POINTER\<rparr>, cs)
      else None)"

definition initial_spec :: npf_format_spec where
  "initial_spec = \<lparr>field_width = 0, prec = 0, prec_opt = NPF_FMT_SPEC_OPT_NONE, field_width_opt = NPF_FMT_SPEC_OPT_NONE,
     left_justified = False, leading_zero_pad = False, prepend = 0, case_adjust = 0x20,
     length_modifier = NPF_FMT_SPEC_LEN_MOD_NONE, conv_spec = NPF_FMT_SPEC_CONV_NONE\<rparr>"

text \<open>The argument is the text after the percent sign; \<open>Some None\<close> is the result 0 of the code, no specification.\<close>

definition npf_parse_format_spec :: "u8 list \<Rightarrow> (npf_format_spec \<times> u8 list) option option" where
  "npf_parse_format_spec cs =
     (case parse_flags cs initial_spec of (fs, cs) \<Rightarrow> do {
        (fs, cs) \<leftarrow> parse_width cs fs;
        (fs, cs) \<leftarrow> parse_prec cs fs;
        (case parse_length cs fs of (fs, cs) \<Rightarrow> Some (parse_conv cs fs))
      })"

section \<open>Numbers\<close>

text \<open>The digits, least significant first.  The base is 8, 10 or 16 in all calls.\<close>

function npf_utoa_rev :: "u64 \<Rightarrow> u64 \<Rightarrow> u8 \<Rightarrow> u8 list" where
  "npf_utoa_rev val base case_adj =
     (let d = val mod base;
          c = (if d < 10 then 0x30 else 0x41 - 10 + case_adj) + ucast d
      in c # (if base < 2 \<or> val div base = 0 then [] else npf_utoa_rev (val div base) base case_adj))"
  by pat_completeness auto

termination
proof (relation "measure (\<lambda>(v, b, c). unat v)")
  fix val base :: u64 and c d x
  assume "\<not> (base < 2 \<or> val div base = 0)"
  then have b: "2 \<le> unat base" and v: "val \<noteq> 0" by (auto simp: word_less_nat_alt)
  from v have "0 < unat val" by (simp add: unat_gt_0)
  with b have "unat val div unat base < unat val" by (intro div_less_dividend) simp_all
  then show "((val div base, base, c), val, base, c) \<in> measure (\<lambda>(v, b, c). unat v)"
    by (simp add: unat_div)
qed simp

declare npf_utoa_rev.simps [simp del]

section \<open>Arguments\<close>

fun va_int :: "npf_arg list \<Rightarrow> (u32 \<times> npf_arg list) option" where
  "va_int (Arg_Int v # as) = Some (v, as)"
| "va_int as = None"

fun va_long :: "npf_arg list \<Rightarrow> (u64 \<times> npf_arg list) option" where
  "va_long (Arg_Long v # as) = Some (v, as)"
| "va_long as = None"

fun va_pointer :: "npf_arg list \<Rightarrow> (u64 \<times> npf_arg list) option" where
  "va_pointer (Arg_Pointer v # as) = Some (v, as)"
| "va_pointer as = None"

fun va_string :: "npf_arg list \<Rightarrow> (u8 list option \<times> npf_arg list) option" where
  "va_string (Arg_String v # as) = Some (v, as)"
| "va_string as = None"

text \<open>Widths and precisions given as arguments; the negation of the least \<open>int\<close> is undefined.\<close>

definition star_width :: "npf_format_spec \<Rightarrow> npf_arg list \<Rightarrow> (npf_format_spec \<times> npf_arg list) option" where
  "star_width fs as =
     (if field_width_opt fs = NPF_FMT_SPEC_OPT_STAR
      then do {
        (v, as) \<leftarrow> va_int as;
        if sint v < - INT_MAX then None
        else if sint v < 0 then Some (fs\<lparr>field_width := - sint v, left_justified := True\<rparr>, as)
        else Some (fs\<lparr>field_width := sint v\<rparr>, as)
      }
      else Some (fs, as))"

definition star_prec :: "npf_format_spec \<Rightarrow> npf_arg list \<Rightarrow> (npf_format_spec \<times> npf_arg list) option" where
  "star_prec fs as =
     (if prec_opt fs = NPF_FMT_SPEC_OPT_STAR
      then do {
        (v, as) \<leftarrow> va_int as;
        if sint v < 0 then Some (fs\<lparr>prec := 0, prec_opt := NPF_FMT_SPEC_OPT_NONE\<rparr>, as)
        else Some (fs\<lparr>prec := sint v\<rparr>, as)
      }
      else Some (fs, as))"

definition int_conv :: "npf_conv \<Rightarrow> bool" where
  "int_conv c \<longleftrightarrow> c \<in> {NPF_FMT_SPEC_CONV_SIGNED_INT, NPF_FMT_SPEC_CONV_OCTAL, NPF_FMT_SPEC_CONV_HEX_INT,
     NPF_FMT_SPEC_CONV_UNSIGNED_INT}"

text \<open>The default precision of pointers, and the zero flag that a precision overrides.\<close>

definition adjust_spec :: "npf_format_spec \<Rightarrow> npf_format_spec" where
  "adjust_spec fs =
     (let fs = (if prec_opt fs = NPF_FMT_SPEC_OPT_NONE \<and> conv_spec fs = NPF_FMT_SPEC_CONV_POINTER then fs\<lparr>prec := 16\<rparr> else fs)
      in if prec_opt fs \<noteq> NPF_FMT_SPEC_OPT_NONE \<and> int_conv (conv_spec fs) then fs\<lparr>leading_zero_pad := False\<rparr> else fs)"

section \<open>One conversion\<close>

text \<open>A converted argument: the buffer (reversed for everything but strings), the sign or 0, and whether a number was zero.\<close>

record npf_text =
  cbuf :: "u8 list"
  sign_c :: u8
  zero_val :: bool

definition skips_zero :: "npf_format_spec \<Rightarrow> bool" where
  "skips_zero fs \<longleftrightarrow> prec_opt fs \<noteq> NPF_FMT_SPEC_OPT_NONE \<and> prec fs = 0"

definition convert_signed :: "npf_format_spec \<Rightarrow> u64 \<Rightarrow> npf_text" where
  "convert_signed fs val =
     \<lparr>cbuf = (if val = 0 \<and> skips_zero fs then []
              else npf_utoa_rev (if sint val < 0 then 0 - val else val) 10 (case_adjust fs)),
      sign_c = (if sint val < 0 then 0x2D else prepend fs), zero_val = (val = 0)\<rparr>"

definition npf_base :: "npf_conv \<Rightarrow> u64" where
  "npf_base c = (if c = NPF_FMT_SPEC_CONV_OCTAL then 8 else if c = NPF_FMT_SPEC_CONV_UNSIGNED_INT then 10 else 16)"

definition convert_unsigned :: "npf_format_spec \<Rightarrow> u64 \<Rightarrow> npf_text" where
  "convert_unsigned fs val =
     \<lparr>cbuf = (if val = 0 \<and> skips_zero fs then [] else npf_utoa_rev val (npf_base (conv_spec fs)) (case_adjust fs)),
      sign_c = 0, zero_val = (val = 0)\<rparr>"

definition va_signed :: "npf_len_mod \<Rightarrow> npf_arg list \<Rightarrow> (u64 \<times> npf_arg list) option" where
  "va_signed m as =
     (case m of NPF_FMT_SPEC_LEN_MOD_NONE \<Rightarrow> map_option (\<lambda>(v, as). (scast v, as)) (va_int as)
      | NPF_FMT_SPEC_LEN_MOD_LONG \<Rightarrow> va_long as)"

definition va_unsigned :: "npf_len_mod \<Rightarrow> npf_arg list \<Rightarrow> (u64 \<times> npf_arg list) option" where
  "va_unsigned m as =
     (case m of NPF_FMT_SPEC_LEN_MOD_NONE \<Rightarrow> map_option (\<lambda>(v, as). (ucast v, as)) (va_int as)
      | NPF_FMT_SPEC_LEN_MOD_LONG \<Rightarrow> va_long as)"

definition npf_convert :: "npf_format_spec \<Rightarrow> npf_arg list \<Rightarrow> (npf_text \<times> npf_arg list) option" where
  "npf_convert fs as =
     (case conv_spec fs of
        NPF_FMT_SPEC_CONV_PERCENT \<Rightarrow> Some (\<lparr>cbuf = [0x25], sign_c = 0, zero_val = False\<rparr>, as)
      | NPF_FMT_SPEC_CONV_CHAR \<Rightarrow> map_option (\<lambda>(v, as). (\<lparr>cbuf = [ucast v], sign_c = 0, zero_val = False\<rparr>, as)) (va_int as)
      | NPF_FMT_SPEC_CONV_STRING \<Rightarrow> map_option (\<lambda>(v, as).
          (\<lparr>cbuf = (case v of None \<Rightarrow> []
             | Some cs \<Rightarrow> if prec_opt fs = NPF_FMT_SPEC_OPT_NONE then cs else take (nat (prec fs)) cs),
            sign_c = 0, zero_val = False\<rparr>, as)) (va_string as)
      | NPF_FMT_SPEC_CONV_SIGNED_INT \<Rightarrow> map_option (\<lambda>(v, as). (convert_signed fs v, as)) (va_signed (length_modifier fs) as)
      | NPF_FMT_SPEC_CONV_POINTER \<Rightarrow> map_option (\<lambda>(v, as). (convert_unsigned fs v, as)) (va_pointer as)
      | NPF_FMT_SPEC_CONV_NONE \<Rightarrow> Some (\<lparr>cbuf = [], sign_c = 0, zero_val = False\<rparr>, as)
      | _ \<Rightarrow> map_option (\<lambda>(v, as). (convert_unsigned fs v, as)) (va_unsigned (length_modifier fs) as))"

definition npf_pad_c :: "npf_format_spec \<Rightarrow> bool \<Rightarrow> u8" where
  "npf_pad_c fs zero =
     (if field_width_opt fs = NPF_FMT_SPEC_OPT_NONE then 0
      else if leading_zero_pad fs \<and> \<not> left_justified fs \<and> \<not> (skips_zero fs \<and> zero) then 0x30 else 0x20)"

definition prec_pad :: "npf_format_spec \<Rightarrow> npf_text \<Rightarrow> int" where
  "prec_pad fs t = (if conv_spec fs = NPF_FMT_SPEC_CONV_STRING then 0 else max 0 (prec fs - int (length (cbuf t))))"

definition field_pad :: "npf_format_spec \<Rightarrow> npf_text \<Rightarrow> int" where
  "field_pad fs t =
     max 0 (field_width fs - int (length (cbuf t)) - (if sign_c t = 0 then 0 else 1) - prec_pad fs t)"

text \<open>The order of sign, padding and text.  A sign that was written before zeros is not written again.\<close>

definition npf_layout :: "npf_format_spec \<Rightarrow> npf_text \<Rightarrow> u8 list" where
  "npf_layout fs t =
     (let pad_c = npf_pad_c fs (zero_val t);
          pads = replicate (nat (field_pad fs t)) pad_c;
          sign = (if sign_c t = 0 then [] else [sign_c t]);
          right = (\<not> left_justified fs \<and> pad_c \<noteq> 0);
          early = (right \<and> pad_c = 0x30);
          payload = (if conv_spec fs = NPF_FMT_SPEC_CONV_STRING then cbuf t
                     else (if early then [] else sign) @ replicate (nat (prec_pad fs t)) 0x30 @ rev (cbuf t))
      in (if early then sign else []) @ (if right then pads else []) @ payload @
         (if left_justified fs \<and> pad_c \<noteq> 0 then pads else []))"

definition npf_one :: "npf_format_spec \<Rightarrow> npf_arg list \<Rightarrow> (u8 list \<times> npf_arg list) option" where
  "npf_one fs as = do {
     (fs, as) \<leftarrow> star_width fs as;
     (fs, as) \<leftarrow> star_prec fs as;
     let fs = adjust_spec fs;
     (t, as) \<leftarrow> npf_convert fs as;
     Some (npf_layout fs t, as)
   }"

section \<open>The formatter\<close>

lemma parse_flags_length: "parse_flags cs fs = (fs', cs') \<Longrightarrow> length cs' \<le> length cs"
  by (induction cs fs rule: parse_flags.induct) (auto split: if_splits)

lemma parse_int_length: "parse_int n cs = Some (m, cs') \<Longrightarrow> length cs' \<le> length cs"
  by (induction n cs rule: parse_int.induct) (auto simp: Let_def split: if_splits)

lemma parse_width_length: "parse_width cs fs = Some (fs', cs') \<Longrightarrow> length cs' \<le> length cs"
  by (auto simp: parse_width_def Let_def bind_eq_Some_conv split: if_splits dest: parse_int_length)

lemma parse_prec_length: "parse_prec cs fs = Some (fs', cs') \<Longrightarrow> length cs' \<le> length cs"
  by (force simp: parse_prec_def Let_def bind_eq_Some_conv split: if_splits dest: parse_int_length)

lemma parse_length_length: "parse_length cs fs = (fs', cs') \<Longrightarrow> length cs' \<le> length cs"
  by (auto simp: parse_length_def split: if_splits)

lemma parse_conv_length: "parse_conv cs fs = Some (fs', cs') \<Longrightarrow> length cs' \<le> length cs"
  by (cases cs) (auto split: if_splits)

lemma parse_format_length:
  assumes "npf_parse_format_spec cs = Some (Some (fs, rest))"
  shows "length rest \<le> length cs"
proof -
  obtain f1 c1 f2 c2 f3 c3 f4 c4 where "parse_flags cs initial_spec = (f1, c1)" "parse_width c1 f1 = Some (f2, c2)"
    "parse_prec c2 f2 = Some (f3, c3)" "parse_length c3 f3 = (f4, c4)" "parse_conv c4 f4 = Some (fs, rest)"
    using assms by (auto simp: npf_parse_format_spec_def bind_eq_Some_conv split: prod.splits) (metis surj_pair)
  then show ?thesis
    using parse_flags_length parse_width_length parse_prec_length parse_length_length parse_conv_length by (meson le_trans)
qed

function npf_vpprintf :: "u8 list \<Rightarrow> npf_arg list \<Rightarrow> u8 list option" where
  "npf_vpprintf [] as = Some []"
| "npf_vpprintf (c # cs) as =
     (if c \<noteq> 0x25 then map_option ((#) c) (npf_vpprintf cs as)
      else case npf_parse_format_spec cs of
             None \<Rightarrow> None
           | Some None \<Rightarrow> map_option ((#) c) (npf_vpprintf cs as)
           | Some (Some (fs, rest)) \<Rightarrow>
               (case npf_one fs as of
                  None \<Rightarrow> None
                | Some (out, as) \<Rightarrow> map_option ((@) out) (npf_vpprintf rest as)))"
  by pat_completeness auto

termination
  by (relation "measure (\<lambda>(cs, as). length cs)") (auto dest: parse_format_length)

declare npf_vpprintf.simps(2) [simp del]

text \<open>The result of \<open>printf\<close> is what it writes; its return value is the number of bytes.  \<open>npf_vsnprintf\<close> returns the same number;
  with a buffer of \<open>bufsz\<close> bytes it stores what fits and ends it with a zero.\<close>

definition npf_bufputc :: "u8 \<Rightarrow> u8 list \<times> nat \<times> nat \<Rightarrow> u8 list \<times> nat \<times> nat" where
  "npf_bufputc c bpc = (case bpc of (dst, len, cur) \<Rightarrow> if cur < len then (dst[cur := c], len, cur + 1) else (dst, len, cur))"

definition npf_vsnprintf :: "u8 list \<Rightarrow> nat \<Rightarrow> u8 list \<Rightarrow> npf_arg list \<Rightarrow> (nat \<times> u8 list) option" where
  "npf_vsnprintf buffer bufsz fmt as = do {
     out \<leftarrow> npf_vpprintf fmt as;
     let (dst, len, cur) = fold npf_bufputc out (buffer, bufsz, 0);
     let n = length out;
     Some (n, if bufsz = 0 then dst else dst[min n (bufsz - 1) := 0])
   }"

end
