(* ===== verification/Kb_Layouts.thy ===== *)
theory Kb_Layouts
  imports Keyboard
begin

text \<open>
  The keyboard layouts (\<open>kernel/layouts/kb_layouts.c\<close>): the bytes of \<open>LAYOUTS\<close>.  An entry that the initialiser leaves out is 0.
\<close>

definition us_lower :: "u8 list" where
  "us_lower =
    [0, 27, 49, 50, 51, 52, 53, 54, 55, 56, 57, 48, 45, 61, 8, 9, 113, 119, 101, 114, 116, 121, 117, 105, 111, 112,
     91, 93, 10, 0, 97, 115, 100, 102, 103, 104, 106, 107, 108, 59, 39, 96, 0, 92, 122, 120, 99, 118, 98, 110, 109,
     44, 46, 47, 0, 42, 0, 32] @ replicate 70 0"

definition us_upper :: "u8 list" where
  "us_upper =
    [0, 27, 33, 64, 35, 36, 37, 94, 38, 42, 40, 41, 95, 43, 8, 9, 81, 87, 69, 82, 84, 89, 85, 73, 79, 80, 123, 125,
     10, 0, 65, 83, 68, 70, 71, 72, 74, 75, 76, 58, 34, 126, 0, 124, 90, 88, 67, 86, 66, 78, 77, 60, 62, 63, 0, 42,
     0, 32] @ replicate 70 0"

definition swe_lower :: "u8 list" where
  "swe_lower =
    [0, 27, 49, 50, 51, 52, 53, 54, 55, 56, 57, 48, 43, 61, 8, 9, 113, 119, 101, 114, 116, 121, 117, 105, 111, 112,
     134, 126, 10, 0, 97, 115, 100, 102, 103, 104, 106, 107, 108, 148, 132, 39, 0, 60, 122, 120, 99, 118, 98, 110,
     109, 44, 46, 45, 0, 42, 0, 32] @ replicate 70 0"

definition swe_upper :: "u8 list" where
  "swe_upper =
    [0, 27, 33, 64, 35, 36, 37, 38, 47, 40, 41, 61, 63, 43, 8, 9, 81, 87, 69, 82, 84, 89, 85, 73, 79, 80, 143, 126,
     10, 0, 65, 83, 68, 70, 71, 72, 74, 75, 76, 153, 142, 42, 0, 124, 90, 88, 67, 86, 66, 78, 77, 59, 58, 95, 0,
     42, 0, 32] @ replicate 70 0"

definition uk_lower :: "u8 list" where
  "uk_lower =
    [0, 27, 49, 50, 51, 52, 53, 54, 55, 56, 57, 48, 45, 61, 8, 9, 113, 119, 101, 114, 116, 121, 117, 105, 111, 112,
     91, 93, 10, 0, 97, 115, 100, 102, 103, 104, 106, 107, 108, 59, 39, 96, 0, 35, 122, 120, 99, 118, 98, 110, 109,
     44, 46, 47, 0, 42, 0, 32] @ replicate 28 0 @ [92] @ replicate 41 0"

definition uk_upper :: "u8 list" where
  "uk_upper =
    [0, 27, 33, 34, 36, 36, 37, 94, 38, 42, 40, 41, 95, 43, 8, 9, 81, 87, 69, 82, 84, 89, 85, 73, 79, 80, 123, 125,
     10, 0, 65, 83, 68, 70, 71, 72, 74, 75, 76, 58, 64, 96, 0, 126, 90, 88, 67, 86, 66, 78, 77, 60, 62, 63, 0, 42,
     0, 32] @ replicate 28 0 @ [124] @ replicate 41 0"

definition LAYOUTS :: "KeyboardLayout list" where
  "LAYOUTS = [\<lparr>lower = us_lower, upper_case = us_upper\<rparr>, \<lparr>lower = swe_lower, upper_case = swe_upper\<rparr>,
     \<lparr>lower = uk_lower, upper_case = uk_upper\<rparr>]"

end
