(* ===== verification/Shell.thy ===== *)
theory Shell
  imports Fs Editor Net Gk_Interp Pci Elf Serial Nanoprintf Kb_Layouts
begin

unbundle bit_operations_syntax

text \<open>
  The command shell, \<open>kernel/commands.c\<close>.

  A command is a function of the shell's state: the terminal, the keyboard, the file-system layer, the network stack, the
  script interpreter, the serial port and memory.  Everything outside the kernel is in the world \<open>w\<close>: the font, the
  network card, the ports and the readings of the timer (one for each time the code reads \<open>lapic_timer_tick\<close>).
  \<open>None\<close> is a call without a result: a wait that does not end or an undefined access.  The script interpreter keeps its output in its own state.
\<close>

section \<open>State\<close>

record ('n, 'p) world =
  w_font :: font
  w_nic :: "'n e1000_hw"
  w_io :: "'p ports"
  w_clock :: "nat \<Rightarrow> u64"
  w_memsize_grub :: u32
  w_nr_processes :: u32
  w_pci_root :: pci_bus
  w_fuel :: nat

record ('d, 'n, 'p) shell =
  sh_term :: terminal
  sh_kb :: keyboard
  sh_fs :: "'d fs_state"
  sh_net :: "'n net_state"
  sh_gk :: GkState
  sh_serial :: "'p serial"
  sh_ram :: ram
  sh_reads :: nat

type_synonym ('d, 'n, 'p) command = "u8 \<Rightarrow> ('d, 'n, 'p) shell \<Rightarrow> ('d, 'n, 'p) shell option"

definition VGA_COLOR_RED :: u8 where "VGA_COLOR_RED = 4"
definition VGA_COLOR_LIGHT_GREY :: u8 where "VGA_COLOR_LIGHT_GREY = 7"
definition VGA_COLOR_DARK_GREY :: u8 where "VGA_COLOR_DARK_GREY = 8"
definition VGA_COLOR_LIGHT_BLUE :: u8 where "VGA_COLOR_LIGHT_BLUE = 9"
definition VGA_COLOR_LIGHT_GREEN :: u8 where "VGA_COLOR_LIGHT_GREEN = 10"
definition VGA_COLOR_LIGHT_CYAN :: u8 where "VGA_COLOR_LIGHT_CYAN = 11"
definition VGA_COLOR_LIGHT_RED :: u8 where "VGA_COLOR_LIGHT_RED = 12"
definition BG_COLOR :: u8 where "BG_COLOR = 0"
definition TERM_COLOR :: u8 where "TERM_COLOR = VGA_COLOR_WHITE OR push_bit 4 BG_COLOR"
definition PROMPT_COLOR :: u8 where "PROMPT_COLOR = VGA_COLOR_LIGHT_GREEN OR push_bit 4 BG_COLOR"
definition BOLD_COLOR :: u8 where "BOLD_COLOR = VGA_COLOR_LIGHT_GREY OR push_bit 4 BG_COLOR"

section \<open>Output and input\<close>

definition sh_printc :: "('n, 'p) world \<Rightarrow> u8 list \<Rightarrow> ('d, 'n, 'p) command" where
  "sh_printc w cs color s = map_option (\<lambda>t. s\<lparr>sh_term := t\<rparr>) (printc (w_font w) cs color (sh_term s))"

abbreviation sh_text :: "('n, 'p) world \<Rightarrow> string \<Rightarrow> ('d, 'n, 'p) command" where
  "sh_text w str \<equiv> sh_printc w (ascii str)"

text \<open>\<open>print\<close>, \<open>kprintf\<close> and \<open>printf\<close> all write in white.\<close>

abbreviation sh_print :: "('n, 'p) world \<Rightarrow> string \<Rightarrow> ('d, 'n, 'p) shell \<Rightarrow> ('d, 'n, 'p) shell option" where
  "sh_print w str \<equiv> sh_printc w (ascii str) VGA_COLOR_WHITE"

definition sh_printf :: "('n, 'p) world \<Rightarrow> string \<Rightarrow> npf_arg list \<Rightarrow> ('d, 'n, 'p) shell \<Rightarrow> ('d, 'n, 'p) shell option" where
  "sh_printf w fmt args s = do { cs \<leftarrow> npf_vpprintf (ascii fmt) args; sh_printc w cs VGA_COLOR_WHITE s }"

definition sh_print_int :: "('n, 'p) world \<Rightarrow> u32 \<Rightarrow> ('d, 'n, 'p) shell \<Rightarrow> ('d, 'n, 'p) shell option" where
  "sh_print_int w n = sh_printc w (ascii (int_to_str n)) VGA_COLOR_WHITE"

definition sh_input :: "('n, 'p) world \<Rightarrow> nat \<Rightarrow> u8 \<Rightarrow> ('d, 'n, 'p) shell \<Rightarrow>
    (u8 list \<times> ('d, 'n, 'p) shell) option" where
  "sh_input w n color s =
     map_option (\<lambda>(line, k, t). (line, s\<lparr>sh_kb := k, sh_term := t\<rparr>)) (input (w_font w) n color (sh_kb s) (sh_term s))"

text \<open>A read of \<open>lapic_timer_tick\<close>.\<close>

definition sh_tick :: "('n, 'p) world \<Rightarrow> ('d, 'n, 'p) shell \<Rightarrow> u64 \<times> ('d, 'n, 'p) shell" where
  "sh_tick w s = (w_clock w (sh_reads s), s\<lparr>sh_reads := sh_reads s + 1\<rparr>)"

definition sh_puts :: "('n, 'p) world \<Rightarrow> u8 list \<Rightarrow> ('d, 'n, 'p) shell \<Rightarrow> ('d, 'n, 'p) shell option" where
  "sh_puts w cs s = map_option (\<lambda>p. s\<lparr>sh_serial := p\<rparr>) (serial_puts (w_io w) cs (sh_serial s))"

definition sh_put_dec :: "('n, 'p) world \<Rightarrow> u32 \<Rightarrow> ('d, 'n, 'p) shell \<Rightarrow> ('d, 'n, 'p) shell option" where
  "sh_put_dec w n s = map_option (\<lambda>p. s\<lparr>sh_serial := p\<rparr>) (serial_put_dec (w_io w) n (sh_serial s))"

section \<open>System commands\<close>

definition help_lines :: "string list" where
  "help_lines =
    [''--- System ---'',
     ''help        - Show this message'',
     ''hello       - Say hello'',
     ''contributors- List contributors'',
     ''clear       - Clear the screen'',
     ''version     - OS version'',
     ''chars       - Print available characters'',
     ''uptime      - Show system uptime (ticks)'',
     ''meminfo     - Show memory info'',
     ''lspci       - List PCI devices'',
     '''',
     ''--- Keyboard ---'',
     ''setkeyswe   - Swedish QWERTY layout'',
     ''setkeyus    - US QWERTY layout'',
     ''setkeyuk    - UK QWERTY layout'',
     '''',
     ''--- Timer / Power ---'',
     ''sleep       - Sleep 5 seconds'',
     ''ticks       - Print timer tick count'',
     ''reboot      - Reboot'',
     '''',
     ''--- Scripting ---'',
     ''gk          - GK scripting language (demo)'',
     ''gk <file>   - Run a .gk script from the FS'',
     '''',
     ''--- FAT32 Filesystem ---'',
     ''fsmount     - Mount the FAT32 data disk (fat32.img)'',
     ''ls          - List files in root directory'',
     ''cat         - Read and display a file'',
     ''fsinfo      - Show volume info (label, size, clusters)'',
     ''touch       - Create a new file with content'',
     ''rm          - Delete a file'',
     ''cp          - Copy a file to a new name'',
     ''mv          - Move/rename a file'',
     ''mkdir       - Create a new directory'',
     ''echo        - Print text to screen'',
     ''write       - Append text to an existing file'',
     ''runelf      - Runs an ELF file'',
     '''',
     ''--- Network ---'',
     ''ping <ip>   - Ping an IP address (e.g. ping 10.0.2.2)'',
     '''',
     ''--- ACPI ---'',
     ''showrsdt    - Show the entries of the ACPI (The qemu ACPI is very old)'',
     '''']"

definition SPACE_SC :: scancode where "SPACE_SC = 0x39"
definition ENTER_SC :: scancode where "ENTER_SC = 0x1C"
definition HELP_ROWS :: nat where "HELP_ROWS = 20"

fun print_help_lines :: "('n, 'p) world \<Rightarrow> string list \<Rightarrow> ('d, 'n, 'p) command" where
  "print_help_lines w [] color s = Some s"
| "print_help_lines w (l # ls) color s = do {
     s \<leftarrow> (if l = [] then sh_text w ''\<newline>'' color s
          else if hd l = CHR ''-'' then sh_text w l VGA_COLOR_LIGHT_CYAN s
          else sh_text w l color s);
     s \<leftarrow> sh_text w ''\<newline>'' color s;
     print_help_lines w ls color s
   }"

text \<open>The inner loop waits for a key: the result is whether the help is left.\<close>

partial_function (option) help_key :: "nat \<Rightarrow> keyboard \<Rightarrow> (bool \<times> keyboard) option" where
  "help_key pages k = do {
     (sc, k) \<leftarrow> ps2_kb_wfi k;
     if sc AND 0x80 \<noteq> 0 then help_key pages k
     else if sc = 0 then help_key pages k
     else if sc = ENTER_SC then Some (True, k)
     else if pages \<le> 1 then Some (True, k)
     else if sc = SPACE_SC then Some (False, k)
     else help_key pages k
   }"

definition help_page :: "('n, 'p) world \<Rightarrow> nat \<Rightarrow> nat \<Rightarrow> ('d, 'n, 'p) command" where
  "help_page w pages page color s = do {
     let s = s\<lparr>sh_term := terminal_clear color (sh_term s)\<rparr>;
     s \<leftarrow> print_help_lines w (take HELP_ROWS (drop (page * HELP_ROWS) help_lines)) color s;
     if 1 < pages then do {
       s \<leftarrow> sh_text w ''\<newline>'' color s;
       s \<leftarrow> sh_text w ''[Space: next page  Enter: exit]  Page '' VGA_COLOR_DARK_GREY s;
       s \<leftarrow> sh_print_int w (of_nat (page + 1)) s;
       s \<leftarrow> sh_text w ''/'' VGA_COLOR_DARK_GREY s;
       s \<leftarrow> sh_print_int w (of_nat pages) s;
       sh_text w ''\<newline>'' color s
     }
     else Some s
   }"

partial_function (option) help_loop ::
  "('n, 'p) world \<Rightarrow> nat \<Rightarrow> u8 \<Rightarrow> nat \<times> ('d, 'n, 'p) shell \<Rightarrow> ('d, 'n, 'p) shell option" where
  "help_loop w pages color ps = do {
     s \<leftarrow> help_page w pages (fst ps) color (snd ps);
     (leave, k) \<leftarrow> help_key pages (sh_kb s);
     if leave then Some (s\<lparr>sh_kb := k\<rparr>)
     else help_loop w pages color ((fst ps + 1) mod pages, s\<lparr>sh_kb := k\<rparr>)
   }"

definition cmd_help :: "('n, 'p) world \<Rightarrow> ('d, 'n, 'p) command" where
  "cmd_help w color s = help_loop w ((length help_lines + HELP_ROWS - 1) div HELP_ROWS) color (0, s)"

definition cmd_hello :: "('n, 'p) world \<Rightarrow> ('d, 'n, 'p) command" where
  "cmd_hello w color s = sh_text w ''\<newline>Hello, world!\<newline>'' color s"

text \<open>The names, and whether they are in bold.\<close>

definition contributors :: "(string \<times> bool) list" where
  "contributors =
    [(''Ember2819 - Founder'', True), (''Sifi11'', False), (''Crim'', False), (''CheeseFunnel23'', False),
     (''bonk enjoyer/dorito girl'', True), (''KaleidoscopeOld5841'', False), (''billythemoon'', False),
     (''TheGirl790'', False), (''kotofyt'', False), (''xtn59'', False), (''c-bass'', False),
     (''u/EastConsequence3792'', False), (''MorganPG1'', False), (''Zorx555'', False), (''mckaylap2304'', False),
     (''TheOtterMonarch'', False), (''codecrafter01001'', False), (''Pumpkicks'', False), (''DarkThemeGeek'', False),
     (''nfoxers'', False)]"

fun print_contributors :: "('n, 'p) world \<Rightarrow> (string \<times> bool) list \<Rightarrow> ('d, 'n, 'p) command" where
  "print_contributors w [] color s = Some s"
| "print_contributors w ((c, bold) # cs) color s = do {
     s \<leftarrow> sh_text w (c @ ''\<newline>'') (if bold then BOLD_COLOR else color) s;
     print_contributors w cs color s
   }"

definition cmd_contributors :: "('n, 'p) world \<Rightarrow> ('d, 'n, 'p) command" where
  "cmd_contributors w color s = do {
     s \<leftarrow> sh_text w ''\<newline>--- Contributors ---\<newline>'' color s;
     print_contributors w contributors color s
   }"

definition use_layout :: "('n, 'p) world \<Rightarrow> nat \<Rightarrow> string \<Rightarrow> ('d, 'n, 'p) command" where
  "use_layout w i msg color s = sh_text w msg color (s\<lparr>sh_kb := set_layout (LAYOUTS ! i) (sh_kb s)\<rparr>)"

definition cmd_setkeyswe :: "('n, 'p) world \<Rightarrow> ('d, 'n, 'p) command" where
  "cmd_setkeyswe w = use_layout w 1 ''\<newline>Keyboard layout set to Swedish QWERTY\<newline>''"

definition cmd_setkeyus :: "('n, 'p) world \<Rightarrow> ('d, 'n, 'p) command" where
  "cmd_setkeyus w = use_layout w 0 ''\<newline>Keyboard layout set to US QWERTY\<newline>''"

definition cmd_setkeyuk :: "('n, 'p) world \<Rightarrow> ('d, 'n, 'p) command" where
  "cmd_setkeyuk w = use_layout w 2 ''\<newline>Keyboard layout set to UK QWERTY\<newline>''"

definition cmd_clear :: "('n, 'p) world \<Rightarrow> ('d, 'n, 'p) command" where
  "cmd_clear w color s = Some (s\<lparr>sh_term := terminal_clear color (sh_term s)\<rparr>)"

definition cmd_version :: "('n, 'p) world \<Rightarrow> ('d, 'n, 'p) command" where
  "cmd_version w color s = sh_text w ''\<newline>GeckoOS v2.0 (GRUB/Multiboot2)\<newline>'' color s"

fun print_chars :: "('n, 'p) world \<Rightarrow> nat list \<Rightarrow> ('d, 'n, 'p) command" where
  "print_chars w [] color s = Some s"
| "print_chars w (i # is) color s = do {
     s \<leftarrow> sh_printc w (if i = 9 \<or> i = 10 then [32] else [of_nat i]) color s;
     s \<leftarrow> sh_text w '' '' color s;
     s \<leftarrow> (if (i + 1) mod 16 = 0 then sh_text w ''\<newline>'' color s else Some s);
     print_chars w is color s
   }"

definition cmd_chars :: "('n, 'p) world \<Rightarrow> ('d, 'n, 'p) command" where
  "cmd_chars w color s = do {
     s \<leftarrow> sh_text w ''\<newline>\<newline>  '' color s;
     s \<leftarrow> print_chars w [1..<256] color s;
     sh_text w ''\<newline>'' color s
   }"

definition cmd_sleep5 :: "('n, 'p) world \<Rightarrow> ('d, 'n, 'p) command" where
  "cmd_sleep5 w color s = do {
     s \<leftarrow> sh_print w ''\<newline>Sleeping for 5 seconds...\<newline>'' s;
     sh_print w ''Done!\<newline>'' s
   }"

definition cmd_reboot :: "('n, 'p) world \<Rightarrow> ('d, 'n, 'p) command" where
  "cmd_reboot w color s = do {
     s \<leftarrow> sh_print w ''\<newline>Rebooting...'' s;
     Some (s\<lparr>sh_serial := (fst (sh_serial s), io_outb (w_io w) 0x64 0xFE (snd (sh_serial s)))\<rparr>)
   }"

definition cmd_print_ticks :: "('n, 'p) world \<Rightarrow> ('d, 'n, 'p) command" where
  "cmd_print_ticks w color s = do {
     s \<leftarrow> sh_print w ''\<newline>Tick: '' s;
     let (t, s) = sh_tick w s;
     s \<leftarrow> sh_print_int w (ucast t) s;
     sh_print w ''\<newline>'' s
   }"

definition uptime_of :: "u32 \<Rightarrow> u32 \<times> u32 \<times> u32" where
  "uptime_of ticks =
     (let seconds = ticks div 50; minutes = seconds div 60; hours = minutes div 60
      in (hours, minutes mod 60, seconds mod 60))"

definition cmd_uptime :: "('n, 'p) world \<Rightarrow> ('d, 'n, 'p) command" where
  "cmd_uptime w color s = do {
     let (t, s) = sh_tick w s;
     let ticks = (ucast t :: u32);
     let (hours, minutes, seconds) = uptime_of ticks;
     s \<leftarrow> sh_text w ''\<newline>Uptime: '' color s;
     s \<leftarrow> sh_print_int w hours s;
     s \<leftarrow> sh_text w ''h '' color s;
     s \<leftarrow> sh_print_int w minutes s;
     s \<leftarrow> sh_text w ''m '' color s;
     s \<leftarrow> sh_print_int w seconds s;
     s \<leftarrow> sh_text w ''s  ('' color s;
     s \<leftarrow> sh_print_int w ticks s;
     sh_text w '' ticks)\<newline>'' color s
   }"

definition cmd_meminfo :: "('n, 'p) world \<Rightarrow> ('d, 'n, 'p) command" where
  "cmd_meminfo w color s = do {
     s \<leftarrow> sh_text w ''\<newline>Memory:\<newline>'' color s;
     s \<leftarrow> sh_text w ''  Heap base : 0x200000\<newline>'' color s;
     s \<leftarrow> sh_text w ''  Heap end  : 0x500000 (3 MB window, hardcoded)\<newline>'' color s;
     s \<leftarrow> sh_printf w (''  Memory size (This isn'' @ [CHR 0x27] @
            ''t exact, This will be less for around 42%%)  : %dMb\<newline>'') [Arg_Int (w_memsize_grub w div 1048576)] s;
     s \<leftarrow> sh_text w ''  TODO: wire up Multiboot2 memory map (Phase 1)\<newline>'' color s;
     sh_text w ''\<newline>'' color s
   }"

text \<open>The lines of \<open>pci_lspci\<close>, each with bus, device, function and class name.\<close>

fun print_lspci :: "('n, 'p) world \<Rightarrow> (u8 \<times> u32 \<times> u32 \<times> string) list \<Rightarrow> ('d, 'n, 'p) shell \<Rightarrow> ('d, 'n, 'p) shell option" where
  "print_lspci w [] s = Some s"
| "print_lspci w ((bus, dev, func, name) # lines) s = do {
     s \<leftarrow> sh_printf w ''%02x:%02x.%d %s\<newline>''
           [Arg_Int (ucast bus), Arg_Int dev, Arg_Int func, Arg_String (Some (ascii name))] s;
     print_lspci w lines s
   }"

definition cmd_lspci :: "('n, 'p) world \<Rightarrow> ('d, 'n, 'p) command" where
  "cmd_lspci w color s = do {
     s \<leftarrow> sh_print w ''\<newline>'' s;
     lines \<leftarrow> pci_lspci (w_pci_root w);
     print_lspci w lines s
   }"

definition cmd_processes :: "('n, 'p) world \<Rightarrow> ('d, 'n, 'p) command" where
  "cmd_processes w color s = sh_printf w ''\<newline>Processes count: %d\<newline>'' [Arg_Int (w_nr_processes w)] s"

definition cmd_showrsdt :: "('n, 'p) world \<Rightarrow> ('d, 'n, 'p) command" where
  "cmd_showrsdt w color s =
     sh_print w ''\<newline>This commands only shows output if this OS was compiled in DEBUG mode\<newline>'' s"

definition cmd_gk :: "('n, 'p) world \<Rightarrow> ('d, 'n, 'p) command" where
  "cmd_gk w color s = sh_text w ''\<newline>GeckoOS scripting language is running!\<newline>'' color s"

definition cmd_echo :: "('n, 'p) world \<Rightarrow> ('d, 'n, 'p) command" where
  "cmd_echo w color s = do {
     s \<leftarrow> sh_text w ''\<newline>'' color s;
     (msg, s) \<leftarrow> sh_input w 256 color s;
     s \<leftarrow> sh_text w ''\<newline>'' color s;
     s \<leftarrow> sh_printc w msg color s;
     sh_text w ''\<newline>'' color s
   }"

end
