(* ===== verification/Shell_Run.thy ===== *)
theory Shell_Run
  imports Shell
begin

unbundle bit_operations_syntax

text \<open>
  The commands of the shell that use the file system, the network and the loaders, the dispatcher \<open>run_command\<close>
  (all of \<open>kernel/commands.c\<close>), and the loop of \<open>kmain\<close> (\<open>kernel/kernel.c\<close>).
\<close>

section \<open>Files\<close>

abbreviation sh_mounted :: "('d, 'n, 'p) shell \<Rightarrow> 'd drive_fs option" where
  "sh_mounted s \<equiv> fs_mounted (sh_fs s)"

definition not_mounted :: "('n, 'p) world \<Rightarrow> ('d, 'n, 'p) shell \<Rightarrow> ('d, 'n, 'p) shell option" where
  "not_mounted w s = sh_print w ''Not mounted\<newline>'' s"

text \<open>\<open>fs->get_entries\<close>, and the calls on the mounted volume that only use the device.\<close>

definition sh_entries :: "'d drive_fs \<Rightarrow> ('d, 'n, 'p) shell \<Rightarrow> (drive_entry list \<times> ('d, 'n, 'p) shell) option" where
  "sh_entries fs s = do {
     (es, h, d) \<leftarrow> fat32_get_root_entries fs (fs_heap (sh_fs s)) (fs_dev (sh_fs s));
     Some (es, s\<lparr>sh_fs := (sh_fs s)\<lparr>fs_heap := h, fs_dev := d\<rparr>\<rparr>)
   }"

definition sh_dev :: "('d \<Rightarrow> ('a \<times> 'd) option) \<Rightarrow> ('d, 'n, 'p) shell \<Rightarrow> ('a \<times> ('d, 'n, 'p) shell) option" where
  "sh_dev f s = do {
     (r, d) \<leftarrow> f (fs_dev (sh_fs s));
     Some (r, s\<lparr>sh_fs := (sh_fs s)\<lparr>fs_dev := d\<rparr>\<rparr>)
   }"

fun try_drives :: "('n, 'p) world \<Rightarrow> nat list \<Rightarrow> ('d, 'n, 'p) shell \<Rightarrow> ('d, 'n, 'p) shell option" where
  "try_drives w [] s = Some s"
| "try_drives w (i # is) s = do {
     s \<leftarrow> sh_printf w ''Trying drive %d'' [Arg_Int (of_nat i)] s;
     (r, st) \<leftarrow> fsmount i (sh_fs s);
     let s = s\<lparr>sh_fs := st\<rparr>;
     if r \<noteq> 0 then Some s else try_drives w is s
   }"

definition cmd_fsmount :: "('n, 'p) world \<Rightarrow> ('d, 'n, 'p) command" where
  "cmd_fsmount w color s = do {
     s \<leftarrow> sh_text w ''\<newline>'' color s;
     try_drives w [1..<6] s
   }"

text \<open>The entries are a union whose members start with the type and the name.\<close>

fun print_entries :: "('n, 'p) world \<Rightarrow> drive_entry list \<Rightarrow> ('d, 'n, 'p) command" where
  "print_entries w [] color s = Some s"
| "print_entries w (e # es) color s = do {
     s \<leftarrow> (case e of ENTRY_FILE f \<Rightarrow> sh_text w ''[FILE] '' VGA_COLOR_LIGHT_GREEN s
                   | ENTRY_DIRECTORY d \<Rightarrow> sh_text w ''[DIR]  '' VGA_COLOR_LIGHT_BLUE s);
     s \<leftarrow> sh_printc w (cstr (case e of ENTRY_FILE f \<Rightarrow> file_name f | ENTRY_DIRECTORY d \<Rightarrow> dir_name d)) color s;
     s \<leftarrow> sh_text w ''\<newline>'' color s;
     print_entries w es color s
   }"

definition cmd_ls :: "('n, 'p) world \<Rightarrow> ('d, 'n, 'p) command" where
  "cmd_ls w color s = do {
     s \<leftarrow> sh_print w ''\<newline>'' s;
     case sh_mounted s of
       None \<Rightarrow> not_mounted w s
     | Some fs \<Rightarrow> do {
         (es, s) \<leftarrow> sh_entries fs s;
         print_entries w es color s
       }
   }"

partial_function (option) cat_loop ::
  "('n, 'p) world \<Rightarrow> 'd drive_fs \<Rightarrow> drive_file \<Rightarrow> u8 \<Rightarrow> nat \<times> ('d, 'n, 'p) shell \<Rightarrow> ('d, 'n, 'p) shell option" where
  "cat_loop w fs f color js = do {
     (bytes, readbuf, d) \<leftarrow> fat32_file_read fs f (fst js * 128) 128 (fs_dev (sh_fs (snd js)));
     let s = (snd js)\<lparr>sh_fs := (sh_fs (snd js))\<lparr>fs_dev := d\<rparr>\<rparr>;
     if bytes \<le> 0 then Some s
     else do {
       s \<leftarrow> sh_printc w (take (nat bytes) readbuf) color s;
       cat_loop w fs f color (fst js + 1, s)
     }
   }"

definition cmd_cat :: "('n, 'p) world \<Rightarrow> ('d, 'n, 'p) command" where
  "cmd_cat w color s =
     (case sh_mounted s of
        None \<Rightarrow> not_mounted w s
      | Some fs \<Rightarrow> do {
          s \<leftarrow> sh_text w ''\<newline>Enter filename: '' color s;
          (fname, s) \<leftarrow> sh_input w 32 color s;
          s \<leftarrow> sh_text w ''\<newline>'' color s;
          (es, s) \<leftarrow> sh_entries fs s;
          case find_file es fname of
            None \<Rightarrow> do {
              s \<leftarrow> sh_text w ''File not found: '' VGA_COLOR_RED s;
              s \<leftarrow> sh_printc w fname VGA_COLOR_RED s;
              sh_text w ''\<newline>'' color s
            }
          | Some f \<Rightarrow> do {
              s \<leftarrow> cat_loop w fs f color (0, s);
              sh_text w ''\<newline>'' color s
            }
        })"

text \<open>\<open>fat32_print_info\<close> of \<open>kernel/fs/fat32.c\<close>: a label and a number per line.\<close>

fun print_fields :: "('n, 'p) world \<Rightarrow> (string \<times> u32) list \<Rightarrow> ('d, 'n, 'p) command" where
  "print_fields w [] color s = Some s"
| "print_fields w ((l, n) # fs) color s = do {
     s \<leftarrow> sh_text w l color s;
     s \<leftarrow> sh_print_int w n s;
     s \<leftarrow> sh_text w ''\<newline>'' color s;
     print_fields w fs color s
   }"

definition fat32_print_info :: "('n, 'p) world \<Rightarrow> 'd drive_fs \<Rightarrow> ('d, 'n, 'p) command" where
  "fat32_print_info w fs color s = do {
     let v = fs_volume fs;
     s \<leftarrow> sh_text w ''-- FAT32 Volume Info --\<newline>'' color s;
     s \<leftarrow> print_fields w
       [(''  Bytes/sector:      '', ucast (bytes_per_sector (bpb v))),
        (''  Sectors/cluster:   '', ucast (sectors_per_cluster (bpb v))),
        (''  Reserved sectors:  '', ucast (reserved_sectors (bpb v))),
        (''  FATs:              '', ucast (num_fats (bpb v))),
        (''  Sectors/FAT:       '', sectors_per_fat v),
        (''  Root cluster:      '', root_cluster v),
        (''  Total sectors:     '', total_sectors v),
        (''  FAT LBA:           '', fat_lba v),
        (''  Data area LBA:     '', data_lba v)] color s;
     sh_text w ''-----------------------\<newline>'' color s
   }"

definition cmd_fsinfo :: "('n, 'p) world \<Rightarrow> ('d, 'n, 'p) command" where
  "cmd_fsinfo w color s =
     (case sh_mounted s of
        None \<Rightarrow> sh_text w (''\<newline>Filesystem not mounted. Run '' @ [CHR 0x27] @ ''fsmount'' @ [CHR 0x27] @ '' first.\<newline>'') VGA_COLOR_RED s
      | Some fs \<Rightarrow> do {
          s \<leftarrow> sh_text w ''\<newline>'' color s;
          fat32_print_info w fs color s
        })"

text \<open>The message about the result of a call: the name follows the text of success.\<close>

definition report_result ::
    "('n, 'p) world \<Rightarrow> int \<Rightarrow> string \<Rightarrow> u8 list \<Rightarrow> string \<Rightarrow> ('d, 'n, 'p) command" where
  "report_result w result good name bad color s =
     (if result = 0
      then do {
        s \<leftarrow> sh_text w good color s;
        s \<leftarrow> sh_printc w name color s;
        sh_text w ''\<newline>'' color s
      }
      else sh_text w bad VGA_COLOR_RED s)"

definition cmd_touch :: "('n, 'p) world \<Rightarrow> ('d, 'n, 'p) command" where
  "cmd_touch w color s =
     (case sh_mounted s of
        None \<Rightarrow> not_mounted w s
      | Some fs \<Rightarrow> do {
          s \<leftarrow> sh_text w ''\<newline>Filename: '' color s;
          (fname, s) \<leftarrow> sh_input w 32 color s;
          s \<leftarrow> sh_text w ''\<newline>Content (single line): '' color s;
          (content, s) \<leftarrow> sh_input w 255 color s;
          s \<leftarrow> sh_text w ''\<newline>'' color s;
          (result, s) \<leftarrow> sh_dev (fat32_create_file fs fname (Some content) (length (cstr content))) s;
          report_result w result ''File created: '' fname
            ''Failed to create file (disk full or root dir full?)\<newline>'' color s
        })"

definition cmd_rm :: "('n, 'p) world \<Rightarrow> ('d, 'n, 'p) command" where
  "cmd_rm w color s =
     (case sh_mounted s of
        None \<Rightarrow> not_mounted w s
      | Some fs \<Rightarrow> do {
          s \<leftarrow> sh_text w ''\<newline>Filename to delete: '' color s;
          (fname, s) \<leftarrow> sh_input w 32 color s;
          s \<leftarrow> sh_text w ''\<newline>'' color s;
          s \<leftarrow> sh_text w ''Are you sure? (y/n): '' VGA_COLOR_LIGHT_RED s;
          (confirm, s) \<leftarrow> sh_input w 4 color s;
          s \<leftarrow> sh_text w ''\<newline>'' color s;
          if hd (confirm @ [0]) \<noteq> of_char (CHR ''y'') \<and> hd (confirm @ [0]) \<noteq> of_char (CHR ''Y'')
          then sh_text w ''Cancelled.\<newline>'' color s
          else do {
            (result, s) \<leftarrow> sh_dev (fat32_delete_file (Some fs) fname) s;
            report_result w result ''Deleted: '' fname ''Failed to delete (file not found or FS error).\<newline>'' color s
          }
        })"

text \<open>The loop of \<open>cp\<close> and \<open>mv\<close> into a buffer of 4096 bytes.\<close>

partial_function (option) copy_read ::
  "'d drive_fs \<Rightarrow> drive_file \<Rightarrow> nat \<Rightarrow> u8 list \<Rightarrow> 'd \<Rightarrow> (u8 list \<times> 'd) option" where
  "copy_read fs f j buf d =
     (if 4096 \<le> length buf then Some (buf, d)
      else do {
        (chunk, tmp, d) \<leftarrow> fat32_file_read fs f (j * 128) 128 d;
        if chunk \<le> 0 then Some (buf, d)
        else copy_read fs f (j + 1) (buf @ take (4096 - length buf) (take (nat chunk) tmp)) d
      })"

definition ask_names :: "('n, 'p) world \<Rightarrow> u8 \<Rightarrow> ('d, 'n, 'p) shell \<Rightarrow>
    (u8 list \<times> u8 list \<times> ('d, 'n, 'p) shell) option" where
  "ask_names w color s = do {
     s \<leftarrow> sh_text w ''\<newline>Source filename: '' color s;
     (src, s) \<leftarrow> sh_input w 32 color s;
     s \<leftarrow> sh_text w ''\<newline>Destination filename: '' color s;
     (dst, s) \<leftarrow> sh_input w 32 color s;
     s \<leftarrow> sh_text w ''\<newline>'' color s;
     Some (src, dst, s)
   }"

definition cmd_cp :: "('n, 'p) world \<Rightarrow> ('d, 'n, 'p) command" where
  "cmd_cp w color s =
     (case sh_mounted s of
        None \<Rightarrow> not_mounted w s
      | Some fs \<Rightarrow> do {
          (src, dst, s) \<leftarrow> ask_names w color s;
          (es, s) \<leftarrow> sh_entries fs s;
          case find_file es src of
            None \<Rightarrow> sh_text w ''Source not found.\<newline>'' VGA_COLOR_RED s
          | Some f \<Rightarrow> do {
              (copybuf, s) \<leftarrow> sh_dev (copy_read fs f 0 []) s;
              (result, s) \<leftarrow> sh_dev (fat32_create_file fs dst (Some copybuf) (length copybuf)) s;
              report_result w result ''Copied to: '' dst ''Copy failed.\<newline>'' color s
            }
        })"

definition cmd_mv :: "('n, 'p) world \<Rightarrow> ('d, 'n, 'p) command" where
  "cmd_mv w color s =
     (case sh_mounted s of
        None \<Rightarrow> not_mounted w s
      | Some fs \<Rightarrow> do {
          (src, dst, s) \<leftarrow> ask_names w color s;
          (es, s) \<leftarrow> sh_entries fs s;
          case find_file es src of
            None \<Rightarrow> sh_text w ''Source not found.\<newline>'' VGA_COLOR_RED s
          | Some f \<Rightarrow> do {
              (mvbuf, s) \<leftarrow> sh_dev (copy_read fs f 0 []) s;
              (rc, s) \<leftarrow> sh_dev (fat32_create_file fs dst (Some mvbuf) (length mvbuf)) s;
              if rc \<noteq> 0 then sh_text w ''Move failed (could not create dst).\<newline>'' VGA_COLOR_RED s
              else do {
                (r, s) \<leftarrow> sh_dev (fat32_delete_file (Some fs) src) s;
                s \<leftarrow> sh_text w ''Moved: '' color s;
                s \<leftarrow> sh_printc w src color s;
                s \<leftarrow> sh_text w '' -> '' color s;
                s \<leftarrow> sh_printc w dst color s;
                sh_text w ''\<newline>'' color s
              }
            }
        })"

definition cmd_mkdir :: "('n, 'p) world \<Rightarrow> ('d, 'n, 'p) command" where
  "cmd_mkdir w color s =
     (case sh_mounted s of
        None \<Rightarrow> not_mounted w s
      | Some fs \<Rightarrow> do {
          s \<leftarrow> sh_text w ''\<newline>Directory name: '' color s;
          (dname, s) \<leftarrow> sh_input w 32 color s;
          s \<leftarrow> sh_text w ''\<newline>'' color s;
          (result, s) \<leftarrow> sh_dev (fat32_mkdir (Some fs) dname) s;
          report_result w result ''Directory created: '' dname ''Failed to create directory.\<newline>'' color s
        })"

definition cmd_write :: "('n, 'p) world \<Rightarrow> ('d, 'n, 'p) command" where
  "cmd_write w color s =
     (case sh_mounted s of
        None \<Rightarrow> not_mounted w s
      | Some fs \<Rightarrow> do {
          s \<leftarrow> sh_text w ''\<newline>Filename: '' color s;
          (fname, s) \<leftarrow> sh_input w 32 color s;
          s \<leftarrow> sh_text w ''\<newline>Text to append: '' color s;
          (content, s) \<leftarrow> sh_input w 255 color s;
          s \<leftarrow> sh_text w ''\<newline>'' color s;
          (result, h, d) \<leftarrow> fat32_append_file (Some fs) fname content (length (cstr content))
             (fs_heap (sh_fs s)) (fs_dev (sh_fs s));
          report_result w result ''Appended to: '' fname ''Failed (file not found or FS error).\<newline>'' color
            (s\<lparr>sh_fs := (sh_fs s)\<lparr>fs_heap := h, fs_dev := d\<rparr>\<rparr>)
        })"

section \<open>Loaders\<close>

definition GK_MAX_SRC :: nat where "GK_MAX_SRC = 8192"

partial_function (option) script_read ::
  "'d drive_fs \<Rightarrow> drive_file \<Rightarrow> nat \<Rightarrow> u8 list \<Rightarrow> 'd \<Rightarrow> (u8 list \<times> 'd) option" where
  "script_read fs f offset buf d =
     (if GK_MAX_SRC - 1 \<le> length buf then Some (buf, d)
      else do {
        (chunk, tmp, d) \<leftarrow> fat32_file_read fs f offset 128 d;
        if chunk \<le> 0 then Some (buf, d)
        else script_read fs f (offset + nat chunk) (buf @ take (GK_MAX_SRC - 1 - length buf) (take (nat chunk) tmp)) d
      })"

definition cmd_gk_run_file :: "('n, 'p) world \<Rightarrow> u8 list \<Rightarrow> ('d, 'n, 'p) command" where
  "cmd_gk_run_file w filename color s =
     (case sh_mounted s of
        None \<Rightarrow> sh_text w (''\<newline>Filesystem not mounted. Run '' @ [CHR 0x27] @ ''fsmount'' @ [CHR 0x27] @ '' first.\<newline>'') VGA_COLOR_RED s
      | Some fs \<Rightarrow> do {
          (es, s) \<leftarrow> sh_entries fs s;
          case find_file es filename of
            None \<Rightarrow> do {
              s \<leftarrow> sh_text w ''\<newline>File not found: '' VGA_COLOR_RED s;
              s \<leftarrow> sh_printc w filename VGA_COLOR_RED s;
              sh_text w ''\<newline>'' color s
            }
          | Some f \<Rightarrow> do {
              (src_buf, s) \<leftarrow> sh_dev (script_read fs f 0 []) s;
              s \<leftarrow> sh_text w ''\<newline>'' color s;
              (ok, g) \<leftarrow> gk_run (w_fuel w) (map (\<lambda>c. char_of (unat c)) (cstr src_buf)) (gk_init (sh_gk s));
              Some (s\<lparr>sh_gk := g\<rparr>)
            }
        })"

text \<open>The bytes of a buffer in memory.\<close>

definition place :: "u64 \<Rightarrow> u8 list \<Rightarrow> ram \<Rightarrow> ram" where
  "place a bs m = (\<lambda>x. if unat (x - a) < length bs then bs ! unat (x - a) else m x)"

definition cmd_runelf :: "('n, 'p) world \<Rightarrow> ('d, 'n, 'p) command" where
  "cmd_runelf w color s = do {
     s \<leftarrow> sh_print w ''\<newline>Enter the filename: '' s;
     (filename, s) \<leftarrow> sh_input w 32 color s;
     (buffer, st) \<leftarrow> readfile filename (sh_fs s);
     let s = s\<lparr>sh_fs := st\<rparr>;
     s \<leftarrow> sh_print w ''\<newline>'' s;
     case buffer of
       None \<Rightarrow> sh_print w (''That file dosen'' @ [CHR 0x27] @ ''t exists!\<newline>'') s
     | Some (a, bytes, n) \<Rightarrow> do {
         (r, m, h) \<leftarrow> elf_load_stage1 a (place a bytes (sh_ram s), fs_heap (sh_fs s));
         r \<leftarrow> elf_load_stage2 m a;
         Some (s\<lparr>sh_ram := m, sh_fs := (sh_fs s)\<lparr>fs_heap := kfree a h\<rparr>\<rparr>)
       }
   }"

section \<open>Network\<close>

fun parse_num :: "u8 list \<Rightarrow> u32 \<Rightarrow> u32 \<times> u8 list" where
  "parse_num [] a = (a, [])"
| "parse_num (c # cs) a = (if 48 \<le> c \<and> c \<le> 57 then parse_num cs (a * 10 + ucast (c - 48)) else (a, c # cs))"

fun skip_dot :: "u8 list \<Rightarrow> u8 list" where
  "skip_dot [] = []"
| "skip_dot (c # cs) = (if c = 46 then cs else c # cs)"

definition parse_ip :: "u8 list \<Rightarrow> u32" where
  "parse_ip str =
     (let (a, str) = parse_num str 0;
          (b, str) = parse_num (skip_dot str) 0;
          (c, str) = parse_num (skip_dot str) 0;
          (d, str) = parse_num (skip_dot str) 0
      in IP_addr a b c d)"

definition octets :: "u32 \<Rightarrow> u32 list" where
  "octets ip = [drop_bit 24 ip AND 0xFF, drop_bit 16 ip AND 0xFF, drop_bit 8 ip AND 0xFF, ip AND 0xFF]"

fun print_octets :: "('n, 'p) world \<Rightarrow> u32 list \<Rightarrow> ('d, 'n, 'p) shell \<Rightarrow> ('d, 'n, 'p) shell option" where
  "print_octets w [] s = Some s"
| "print_octets w [o1] s = sh_print_int w o1 s"
| "print_octets w (o1 # os) s = do {
     s \<leftarrow> sh_print_int w o1 s;
     s \<leftarrow> sh_text w ''.'' VGA_COLOR_LIGHT_GREY s;
     print_octets w os s
   }"

definition print_ip :: "('n, 'p) world \<Rightarrow> u32 \<Rightarrow> ('d, 'n, 'p) shell \<Rightarrow> ('d, 'n, 'p) shell option" where
  "print_ip w ip s = print_octets w (octets ip) s"

partial_function (option) process_rx_packets :: "'n e1000_hw \<Rightarrow> 'n net_state \<Rightarrow> 'n net_state option" where
  "process_rx_packets nic n =
     (case e1000_receive nic (card n) of
        (None, c) \<Rightarrow> Some (n\<lparr>card := c\<rparr>)
      | (Some buf, c) \<Rightarrow> Option.bind (net_handle_packet nic buf (of_nat (length buf)) (n\<lparr>card := c\<rparr>)) (process_rx_packets nic))"

text \<open>\<open>int start = lapic_timer_tick\<close>, and the comparison of the difference as an unsigned 64-bit number.\<close>

definition tick_start :: "u64 \<Rightarrow> u64" where
  "tick_start t = scast (ucast t :: 32 word)"

partial_function (option) wait_for ::
  "('n, 'p) world \<Rightarrow> u64 \<Rightarrow> ('n net_state \<Rightarrow> bool) \<Rightarrow> ('d, 'n, 'p) shell \<Rightarrow> (bool \<times> ('d, 'n, 'p) shell) option" where
  "wait_for w start P s =
     (case sh_tick w s of (t, s) \<Rightarrow>
        if t - start < 100
        then Option.bind (process_rx_packets (w_nic w) (sh_net s)) (\<lambda>n.
          let s = s\<lparr>sh_net := n\<rparr> in if P n then Some (True, s) else wait_for w start P s)
        else Some (False, s))"

fun serial_octets :: "('n, 'p) world \<Rightarrow> u32 list \<Rightarrow> ('d, 'n, 'p) shell \<Rightarrow> ('d, 'n, 'p) shell option" where
  "serial_octets w [] s = Some s"
| "serial_octets w [o1] s = sh_put_dec w o1 s"
| "serial_octets w (o1 # os) s = do {
     s \<leftarrow> sh_put_dec w o1 s;
     s \<leftarrow> sh_puts w (ascii ''.'') s;
     serial_octets w os s
   }"

text \<open>One echo request; the result is the number of replies so far.\<close>

definition ping_once :: "('n, 'p) world \<Rightarrow> u32 \<Rightarrow> u8 \<Rightarrow> nat \<Rightarrow> u32 \<times> ('d, 'n, 'p) shell \<Rightarrow>
    (u32 \<times> ('d, 'n, 'p) shell) option" where
  "ping_once w target color i rs =
     (let (received, s) = rs in do {
        n \<leftarrow> icmp_send_echo_request (w_nic w) target 0x1234 (of_nat i) (icmp_clear_reply (sh_net s));
        let s = s\<lparr>sh_net := n\<rparr>;
        let (t, s) = sh_tick w s;
        (got_reply, s) \<leftarrow> wait_for w (tick_start t) icmp_got_reply s;
        if got_reply
        then do {
          s \<leftarrow> sh_puts w (ascii ''Reply from '') s;
          s \<leftarrow> serial_octets w (octets target) s;
          s \<leftarrow> sh_puts w (ascii ''\<newline>'') s;
          s \<leftarrow> sh_text w ''Reply from '' VGA_COLOR_LIGHT_GREEN s;
          s \<leftarrow> print_ip w target s;
          s \<leftarrow> sh_text w ''\<newline>'' color s;
          Some (received + 1, s)
        }
        else do {
          s \<leftarrow> sh_puts w (ascii ''Request timed out\<newline>'') s;
          s \<leftarrow> sh_text w ''Request timed out\<newline>'' VGA_COLOR_RED s;
          Some (received, s)
        }
      })"

fun ping_loop :: "('n, 'p) world \<Rightarrow> u32 \<Rightarrow> u8 \<Rightarrow> nat list \<Rightarrow> u32 \<times> ('d, 'n, 'p) shell \<Rightarrow>
    (u32 \<times> ('d, 'n, 'p) shell) option" where
  "ping_loop w target color [] rs = Some rs"
| "ping_loop w target color (i # is) rs =
     Option.bind (ping_once w target color i rs) (ping_loop w target color is)"

definition ping_statistics :: "('n, 'p) world \<Rightarrow> u32 \<Rightarrow> u32 \<Rightarrow> ('d, 'n, 'p) command" where
  "ping_statistics w sent received color s = do {
     s \<leftarrow> sh_puts w (ascii ''\<newline>--- Ping Statistics ---\<newline>'') s;
     s \<leftarrow> sh_puts w (ascii ''Sent: '') s;
     s \<leftarrow> sh_put_dec w sent s;
     s \<leftarrow> sh_puts w (ascii '', Received: '') s;
     s \<leftarrow> sh_put_dec w received s;
     s \<leftarrow> sh_puts w (ascii '', Lost: '') s;
     s \<leftarrow> sh_put_dec w (sent - received) s;
     s \<leftarrow> sh_puts w (ascii ''\<newline>'') s;
     s \<leftarrow> sh_text w ''\<newline>--- Ping Statistics ---\<newline>'' VGA_COLOR_LIGHT_CYAN s;
     s \<leftarrow> sh_text w ''Sent: '' color s;
     s \<leftarrow> sh_print_int w sent s;
     s \<leftarrow> sh_text w '', Received: '' color s;
     s \<leftarrow> sh_print_int w received s;
     s \<leftarrow> sh_text w '', Lost: '' color s;
     s \<leftarrow> sh_print_int w (sent - received) s;
     sh_text w ''\<newline>'' color s
   }"

definition cmd_ping :: "('n, 'p) world \<Rightarrow> ('d, 'n, 'p) command" where
  "cmd_ping w color s = do {
     s \<leftarrow> sh_text w ''\<newline>Usage: ping <ip> (e.g. ping 10.0.2.2)\<newline>'' VGA_COLOR_LIGHT_GREY s;
     s \<leftarrow> sh_text w ''Our IP: '' VGA_COLOR_LIGHT_CYAN s;
     s \<leftarrow> print_ip w (net_ip (sh_net s)) s;
     s \<leftarrow> sh_text w ''\<newline>'' VGA_COLOR_LIGHT_GREY s;
     s \<leftarrow> sh_text w ''\<newline>Enter IP to ping: '' color s;
     (ip_str, s) \<leftarrow> sh_input w 32 color s;
     s \<leftarrow> sh_text w ''\<newline>'' color s;
     if cstr ip_str = [] then sh_text w ''No IP specified.\<newline>'' VGA_COLOR_RED s
     else do {
       let target = parse_ip ip_str;
       s \<leftarrow> sh_text w ''Pinging '' color s;
       s \<leftarrow> print_ip w target s;
       s \<leftarrow> sh_text w '' ...\<newline>'' color s;
       n \<leftarrow> arp_request (w_nic w) target (sh_net s);
       let s = s\<lparr>sh_net := n\<rparr>;
       let (t, s) = sh_tick w s;
       (resolved, s) \<leftarrow> wait_for w (tick_start t) (\<lambda>n. arp_resolve target n \<noteq> None) s;
       if \<not> resolved then sh_text w ''ARP timeout - could not resolve MAC address\<newline>'' VGA_COLOR_RED s
       else do {
         s \<leftarrow> sh_text w ''ARP resolved, sending echo requests...\<newline>'' VGA_COLOR_LIGHT_GREEN s;
         (received, s) \<leftarrow> ping_loop w target color [0..<4] (0, s);
         ping_statistics w 4 received color s
       }
     }
   }"

section \<open>The dispatcher\<close>

fun streq :: "u8 list \<Rightarrow> u8 list \<Rightarrow> bool" where
  "streq (a # as) (b # bs) = (if a \<noteq> b then False else streq as bs)"
| "streq as bs = (as = [] \<and> bs = [])"

fun starts_with :: "u8 list \<Rightarrow> u8 list \<Rightarrow> u8 list option" where
  "starts_with str [] = Some str"
| "starts_with [] (p # ps) = None"
| "starts_with (c # cs) (p # ps) = (if c \<noteq> p then None else starts_with cs ps)"

definition commands :: "('n, 'p) world \<Rightarrow> (string \<times> ('d, 'n, 'p) command) list" where
  "commands w =
    [(''help'', cmd_help w), (''hello'', cmd_hello w), (''contributors'', cmd_contributors w), (''clear'', cmd_clear w),
     (''version'', cmd_version w), (''chars'', cmd_chars w), (''uptime'', cmd_uptime w), (''meminfo'', cmd_meminfo w),
     (''lspci'', cmd_lspci w), (''setkeyswe'', cmd_setkeyswe w), (''setkeyus'', cmd_setkeyus w), (''setkeyuk'', cmd_setkeyuk w),
     (''sleep'', cmd_sleep5 w), (''reboot'', cmd_reboot w), (''ticks'', cmd_print_ticks w), (''gk'', cmd_gk w),
     (''fsmount'', cmd_fsmount w), (''ls'', cmd_ls w), (''cat'', cmd_cat w), (''fsinfo'', cmd_fsinfo w),
     (''touch'', cmd_touch w), (''rm'', cmd_rm w), (''cp'', cmd_cp w), (''mv'', cmd_mv w), (''mkdir'', cmd_mkdir w),
     (''echo'', cmd_echo w), (''write'', cmd_write w), (''runelf'', cmd_runelf w), (''ping'', cmd_ping w),
     (''processes'', cmd_processes w), (''showrsdt'', cmd_showrsdt w)]"

fun dispatch :: "(string \<times> ('d, 'n, 'p) command) list \<Rightarrow> u8 list \<Rightarrow> ('d, 'n, 'p) command option" where
  "dispatch [] cmd = None"
| "dispatch ((name, f) # cs) cmd = (if streq cmd (ascii name) then Some f else dispatch cs cmd)"

definition run_table :: "('n, 'p) world \<Rightarrow> u8 list \<Rightarrow> ('d, 'n, 'p) command" where
  "run_table w cmd color s =
     (case dispatch (commands w) cmd of
        Some f \<Rightarrow> f color s
      | None \<Rightarrow>
          if cmd \<noteq> []
          then sh_text w (''\<newline>Unknown command. Type '' @ [CHR 0x27] @ ''help'' @ [CHR 0x27] @ '' for available commands\<newline>'') color s
          else sh_text w ''\<newline>'' color s)"

definition run_command :: "('n, 'p) world \<Rightarrow> u8 list \<Rightarrow> ('d, 'n, 'p) command" where
  "run_command w cmd color s =
     (case starts_with cmd (ascii ''gk '') of
        Some after_gk \<Rightarrow>
          (let filename = dropWhile (\<lambda>c. c = 32) after_gk in
           if filename \<noteq> [] then cmd_gk_run_file w filename color s else run_table w cmd color s)
      | None \<Rightarrow> run_table w cmd color s)"

section \<open>The main loop\<close>

definition process_input :: "('n, 'p) world \<Rightarrow> u8 list \<Rightarrow> ('d, 'n, 'p) shell \<Rightarrow> ('d, 'n, 'p) shell option" where
  "process_input w line s = run_command w line TERM_COLOR s"

text \<open>What \<open>kmain\<close> does before its loop, and one round of the loop.\<close>

definition kmain_start :: "('n, 'p) world \<Rightarrow> ('d, 'n, 'p) shell \<Rightarrow> ('d, 'n, 'p) shell option" where
  "kmain_start w s = do {
     s \<leftarrow> try_drives w [1..<5] s;
     if sh_mounted s = None
     then sh_text w (''The drives 1 - 4 don'' @ [CHR 0x27] @
            ''t have any disk attached (Or it failed when mounting the FAT32 filesystem)\<newline>\<newline>'') VGA_COLOR_RED s
     else Some s
   }"

definition kmain_round :: "('n, 'p) world \<Rightarrow> ('d, 'n, 'p) shell \<Rightarrow> ('d, 'n, 'p) shell option" where
  "kmain_round w s = do {
     s \<leftarrow> sh_text w ''gecko> '' PROMPT_COLOR s;
     (line, s) \<leftarrow> sh_input w 512 TERM_COLOR s;
     process_input w line s
   }"

end
