(* ===== verification/Shell_Props.thy ===== *)
theory Shell_Props
  imports Shell_Run Terminal_Props
begin

unbundle bit_operations_syntax

text \<open>
  What the shell does, from the keys typed at the prompt to the sectors of the disk.
\<close>

section \<open>Commands that return\<close>

text \<open>Total correctness of a command: it returns, and the result satisfies the condition.\<close>

definition returns :: "'a option \<Rightarrow> ('a \<Rightarrow> bool) \<Rightarrow> bool" where
  "returns x P \<longleftrightarrow> (\<exists>a. x = Some a \<and> P a)"

named_theorems returns_intros

lemma returns_bind [returns_intros]: "returns x (\<lambda>a. returns (f a) P) \<Longrightarrow> returns (Option.bind x f) P"
  by (auto simp: returns_def)

lemma returns_Some [returns_intros]: "P a \<Longrightarrow> returns (Some a) P"
  by (simp add: returns_def)

lemma returns_eq: "x = Some a \<Longrightarrow> P a \<Longrightarrow> returns x P"
  by (simp add: returns_def)

lemma returns_mono: "returns x P \<Longrightarrow> (\<And>a. P a \<Longrightarrow> Q a) \<Longrightarrow> returns x Q"
  by (auto simp: returns_def)

text \<open>The console works: the terminal is well formed and the keyboard has a full table and no key pending.\<close>

definition kb_ok :: "keyboard \<Rightarrow> bool" where
  "kb_ok k \<longleftrightarrow> \<not> kb_ready k \<and> length (kb_table k) = 128"

definition sh_ok :: "('d, 'n, 'p) shell \<Rightarrow> bool" where
  "sh_ok s \<longleftrightarrow> term_ok (sh_term s) \<and> kb_ok (sh_kb s)"

lemma sh_ok_update [simp]:
  "sh_ok (s\<lparr>sh_term := t\<rparr>) \<longleftrightarrow> term_ok t \<and> kb_ok (sh_kb s)"
  "sh_ok (s\<lparr>sh_kb := k\<rparr>) \<longleftrightarrow> term_ok (sh_term s) \<and> kb_ok k"
  "sh_ok (s\<lparr>sh_fs := f\<rparr>) \<longleftrightarrow> sh_ok s"
  by (simp_all add: sh_ok_def)

lemma sh_okD: "sh_ok s \<Longrightarrow> term_ok (sh_term s)" "sh_ok s \<Longrightarrow> kb_ok (sh_kb s)"
  by (simp_all add: sh_ok_def)

lemma returns_printc [returns_intros]:
  assumes "sh_ok s" "\<And>t. term_ok t \<Longrightarrow> P (s\<lparr>sh_term := t\<rparr>)"
  shows "returns (sh_printc w cs color s) P"
proof -
  obtain t where "write_chars (w_font w) cs color (sh_term s) = Some t" "term_ok t"
    using write_chars_ok [OF sh_okD(1) [OF assms(1)]] by blast
  with assms(2) show ?thesis by (simp add: returns_def sh_printc_def printc_def)
qed

text \<open>\<open>types tb ls bs rest\<close>: with the key table \<open>tb\<close>, the bytes \<open>bs\<close> are the keys of the lines \<open>ls\<close>, each ended by a key for
  newline, and then \<open>rest\<close>.\<close>

fun types :: "u8 list \<Rightarrow> u8 list list \<Rightarrow> u8 list \<Rightarrow> u8 list \<Rightarrow> bool" where
  "types tb [] bs rest \<longleftrightarrow> bs = rest"
| "types tb (l # ls) bs rest \<longleftrightarrow> (\<exists>ks enter bs'. bs = ks @ enter # bs' \<and> list_all plain_key (ks @ [enter]) \<and>
     list_all (\<lambda>sc. 0x20 \<le> tb ! unat sc) ks \<and> tb ! unat enter = 10 \<and> l = map (\<lambda>sc. tb ! unat sc) ks \<and>
     types tb ls bs' rest)"

lemma returns_input:
  assumes "sh_ok s" "types (kb_table (sh_kb s)) (l # ls) (kb_bytes (sh_kb s)) rest"
    and "\<And>t k. term_ok t \<Longrightarrow> kb_ok k \<Longrightarrow> kb_table k = kb_table (sh_kb s) \<Longrightarrow>
      types (kb_table (sh_kb s)) ls (kb_bytes k) rest \<Longrightarrow> P (take (n - 1) l, s\<lparr>sh_kb := k, sh_term := t\<rparr>)"
  shows "returns (sh_input w n color s) P"
proof -
  let ?k = "sh_kb s"
  from assms(2) obtain ks enter bs where
    ks: "kb_bytes ?k = ks @ enter # bs" "list_all plain_key (ks @ [enter])"
      "list_all (\<lambda>sc. 0x20 \<le> kb_table ?k ! unat sc) ks" "kb_table ?k ! unat enter = 10"
      "l = map (\<lambda>sc. kb_table ?k ! unat sc) ks" "types (kb_table ?k) ls bs rest" by auto
  have k: "\<not> kb_ready ?k" "length (kb_table ?k) = 128" using assms(1) by (simp_all add: sh_ok_def kb_ok_def)
  obtain t where t: "input (w_font w) n color ?k (sh_term s) =
      Some (take (n - 1) l, ?k\<lparr>kb_bytes := bs, last_scancode := enter\<rparr>, t)" "term_ok t"
    using input_line [OF sh_okD(1) [OF assms(1)] k(1) ks(1,2) k(2) ks(3,4), of "w_font w" n color] ks(5) by metis
  have "kb_ok (?k\<lparr>kb_bytes := bs, last_scancode := enter\<rparr>)" using k by (simp add: kb_ok_def)
  from assms(3) [OF t(2) this] ks(6) t(1) show ?thesis
    by (simp add: returns_def sh_input_def)
qed

lemma returns_report [returns_intros]:
  assumes "sh_ok s" "\<And>t. term_ok t \<Longrightarrow> P (s\<lparr>sh_term := t\<rparr>)"
  shows "returns (report_result w r good name bad color s) P"
  using assms by (auto simp: report_result_def sh_okD intro!: returns_intros)

lemma returns_ask_names:
  assumes "sh_ok s" "types (kb_table (sh_kb s)) [src, dst] (kb_bytes (sh_kb s)) rest"
    and "length src \<le> 31" "length dst \<le> 31"
    and "\<And>t k. term_ok t \<Longrightarrow> kb_ok k \<Longrightarrow> kb_bytes k = rest \<Longrightarrow> kb_table k = kb_table (sh_kb s) \<Longrightarrow>
      P (src, dst, s\<lparr>sh_kb := k, sh_term := t\<rparr>)"
  shows "returns (ask_names w color s) P"
  unfolding ask_names_def
proof (intro returns_bind returns_printc)
  fix t assume t: "term_ok t"
  show "returns (sh_input w 32 color (s\<lparr>sh_term := t\<rparr>)) (\<lambda>a. returns (case a of (src, s) \<Rightarrow>
     Option.bind (sh_text w ''\<newline>Destination filename: '' color s) (\<lambda>s. Option.bind (sh_input w 32 color s)
       (\<lambda>(dst, s). Option.bind (sh_text w ''\<newline>'' color s) (\<lambda>s. Some (src, dst, s))))) P)"
  proof (rule returns_input [where l = src and ls = "[dst]" and rest = rest])
    fix t' k
    assume k: "term_ok t'" "kb_ok k" "kb_table k = kb_table (sh_kb (s\<lparr>sh_term := t\<rparr>))"
      "types (kb_table (sh_kb (s\<lparr>sh_term := t\<rparr>))) [dst] (kb_bytes k) rest"
    show "returns (case (take (32 - 1) src, s\<lparr>sh_term := t, sh_kb := k, sh_term := t'\<rparr>) of (src, s) \<Rightarrow>
     Option.bind (sh_text w ''\<newline>Destination filename: '' color s) (\<lambda>s. Option.bind (sh_input w 32 color s)
       (\<lambda>(dst, s). Option.bind (sh_text w ''\<newline>'' color s) (\<lambda>s. Some (src, dst, s))))) P"
      unfolding prod.case
    proof (intro returns_bind returns_printc)
      fix t'' assume t'': "term_ok t''"
      show "returns (sh_input w 32 color (s\<lparr>sh_term := t, sh_kb := k, sh_term := t', sh_term := t''\<rparr>))
        (\<lambda>a. returns (case a of (dst, s) \<Rightarrow> Option.bind (sh_text w ''\<newline>'' color s) (\<lambda>s. Some (take (32 - 1) src, dst, s))) P)"
        by (rule returns_input [where l = dst and ls = "[]" and rest = rest])
          (use k t'' assms(3-5) in \<open>auto intro!: returns_intros\<close>)
    qed (use k in simp)
  qed (use assms t in \<open>simp_all add: sh_okD\<close>)
qed (use assms in simp)

section \<open>Copying a file\<close>

lemma copy_step:
  assumes "m + 128 \<le> 4096" "m < length c"
  shows "take m c @ take (4096 - length (take m c)) (take (nat (int (min 128 (length c - m)))) (take 128 (drop m c))) =
     take (m + 128) c"
proof -
  have "length (take 128 (drop m c)) \<le> 4096 - m" using assms(1) by auto
  then have "take (4096 - m) (take 128 (drop m c)) = take 128 (drop m c)" by (rule take_all)
  moreover have "take (min 128 (length c - m)) (take 128 (drop m c)) = take 128 (drop m c)" by (simp add: min_def)
  ultimately show ?thesis using assms(2) by (simp only: nat_int length_take min.absorb2 [OF less_imp_le] take_add)
qed

lemma copy_read_step:
  assumes "length buf < 4096" "fat32_file_read fs f (j * 128) 128 d = Some (int n, tmp, d1)" "0 < n"
  shows "copy_read fs f j buf d = copy_read fs f (Suc j) (buf @ take (4096 - length buf) (take n tmp)) d1"
  using assms by (subst copy_read.simps) simp

lemma copy_read_correct:
  assumes dev: "block_device (fs_drive fs) blk cap" and vol: "volume_ok (fs_volume fs) cap"
    and on: "file_on (blk d) (fs_volume fs) (file_cluster f) cs content" "file_size f = length content"
    and size: "length content < 2 ^ 31"
  shows "\<exists>d'. copy_read fs f 0 [] d = Some (take 4096 content, d') \<and> blk d' = blk d"
proof -
  have "\<exists>d'. copy_read fs f (32 - i) (take ((32 - i) * 128) content) d = Some (take 4096 content, d') \<and> blk d' = blk d"
    if "i \<le> 32" "file_on (blk d) (fs_volume fs) (file_cluster f) cs content" for i d
    using that
  proof (induction i arbitrary: d)
    case 0
    obtain d1 where r: "fat32_file_read fs f (32 * 128) 128 d =
        Some (int (min 128 (length content - 32 * 128)), take 128 (drop (32 * 128) content), d1)" "blk d1 = blk d"
      using file_read_correct [OF dev vol 0(2) on(2) size] by blast
    then show ?case by (subst copy_read.simps) auto
  next
    case (Suc i)
    let ?j = "32 - Suc i"
    have j: "32 - i = Suc ?j" "?j * 128 + 128 \<le> 4096" using Suc.prems(1) by simp_all
    obtain d1 where r: "fat32_file_read fs f (?j * 128) 128 d =
        Some (int (min 128 (length content - ?j * 128)), take 128 (drop (?j * 128) content), d1)" "blk d1 = blk d"
      using file_read_correct [OF dev vol Suc.prems(2) on(2) size] by blast
    show ?case
    proof (cases "length content \<le> ?j * 128")
      case True
      then show ?thesis using r j(2) by (subst copy_read.simps) auto
    next
      case False
      have step: "take (?j * 128) content @ take (4096 - length (take (?j * 128) content))
          (take (nat (int (min 128 (length content - ?j * 128)))) (take 128 (drop (?j * 128) content))) =
          take (Suc ?j * 128) content"
        using copy_step [of "?j * 128" content] False j(2) by (simp add: add.commute)
      have "length (take (?j * 128) content) < 4096" using j(2) False by simp
      moreover have "0 < min 128 (length content - ?j * 128)" using False by simp
      ultimately have "copy_read fs f ?j (take (?j * 128) content) d =
          copy_read fs f (Suc ?j) (take (Suc ?j * 128) content) d1"
        using copy_read_step [OF _ r(1), of "take (?j * 128) content"] step by (simp only: nat_int)
      with Suc.IH [of d1] Suc.prems r(2) j(1) show ?thesis by auto
    qed
  qed
  from this [of 32 d] on(1) show ?thesis by simp
qed

text \<open>A file on the mounted volume, and room for a new one.\<close>

definition mounted_file where
  "mounted_file fs blk cap d rc src f cs content \<longleftrightarrow>
     block_device (fs_drive fs) blk cap \<and> volume_ok (fs_volume fs) cap \<and>
     is_chain (fat (blk d) (fs_volume fs)) (fs_volume fs) (root_cluster (fs_volume fs)) rc \<and>
     find_file (listing (dir_slots (blk d) (fs_volume fs) rc)) src = Some f \<and>
     file_on (blk d) (fs_volume fs) (file_cluster f) cs content \<and> file_size f = length content \<and>
     length content < 2 ^ 31 \<and> set cs \<inter> set rc = {}"

definition room_for where
  "room_for fs blk d rc dst n \<longleftrightarrow>
     find slot_free (dir_slots (blk d) (fs_volume fs) rc) \<noteq> None \<and>
     clusters_needed (fs_volume fs) n \<le> Finite_Set.card (free_set (blk d) (fs_volume fs)) \<and>
     lookup_slot (dir_slots (blk d) (fs_volume fs) rc) dst = None \<and>
     fst (encode_83_name dst) ! 0 \<noteq> FAT32_ENTRY_END \<and> fst (encode_83_name dst) ! 0 \<noteq> FAT32_ENTRY_FREE"

text \<open>The new file can be found and reads as \<open>content\<close>.\<close>

definition file_reads where
  "file_reads fs dst d content \<longleftrightarrow>
     (\<exists>ctx d1 f. search_name fs dst d = Some (ctx, d1) \<and> found ctx \<and> to_drive_entry (search_result ctx) = ENTRY_FILE f \<and>
        (\<forall>offset len. \<exists>d2. fat32_file_read fs f offset len d1 =
           Some (int (min len (length content - offset)), take len (drop offset content), d2)))"

lemma file_readsI:
  assumes dev: "block_device (fs_drive fs) blk cap" and vol: "volume_ok (fs_volume fs) cap"
    and root: "is_chain (fat (blk d) (fs_volume fs)) (fs_volume fs) (root_cluster (fs_volume fs)) rc"
    and hit: "lookup_slot (dir_slots (blk d) (fs_volume fs) rc) name = Some (e, p)"
    and e: "to_drive_entry e = ENTRY_FILE \<lparr>file_name = nm, file_size = length content, file_cluster = first\<rparr>"
    and on: "file_on (blk d) (fs_volume fs) first cs content" and size: "length content < 2 ^ 31"
  shows "file_reads fs name d content"
proof -
  obtain ctx d1 where sn: "search_name fs name d = Some (ctx, d1)" "blk d1 = blk d" "found ctx" "search_result ctx = e"
    using search_name_correct [OF dev vol root, of name] hit by (cases p) auto
  let ?f = "\<lparr>file_name = nm, file_size = length content, file_cluster = first\<rparr>"
  have "\<exists>d2. fat32_file_read fs ?f offset len d1 =
      Some (int (min len (length content - offset)), take len (drop offset content), d2)" for offset len
    using file_read_correct [OF dev vol, of d1 ?f cs content offset len] on sn(2) size by auto
  with sn e show ?thesis unfolding file_reads_def by (intro exI [of _ ctx] exI [of _ d1] exI [of _ ?f]) simp
qed

text \<open>The medium \<open>m'\<close> is \<open>m\<close> with the new file \<open>dst\<close>; files outside the directory's clusters and other names stay.\<close>

definition added where
  "added fs m m' rc dst content \<longleftrightarrow>
     (\<exists>e q nm first cs. is_chain (fat m' (fs_volume fs)) (fs_volume fs) (root_cluster (fs_volume fs)) rc \<and>
        lookup_slot (dir_slots m' (fs_volume fs) rc) dst = Some (e, q) \<and>
        to_drive_entry e = ENTRY_FILE \<lparr>file_name = nm, file_size = length content, file_cluster = first\<rparr> \<and>
        file_on m' (fs_volume fs) first cs content \<and> set cs \<subseteq> free_set m (fs_volume fs)) \<and>
     (\<forall>c cs old. file_on m (fs_volume fs) c cs old \<and> set cs \<inter> set rc = {} \<longrightarrow> file_on m' (fs_volume fs) c cs old) \<and>
     (\<forall>other x. lookup_slot (dir_slots m (fs_volume fs) rc) other = Some x \<longrightarrow>
        encode_83_name other \<noteq> encode_83_name dst \<longrightarrow> lookup_slot (dir_slots m' (fs_volume fs) rc) other = Some x)"

lemma create_adds:
  assumes "block_device (fs_drive fs) blk cap" "volume_ok (fs_volume fs) cap"
    and "is_chain (fat (blk d) (fs_volume fs)) (fs_volume fs) (root_cluster (fs_volume fs)) rc"
    and "room_for fs blk d rc dst (length content)" "length content < 2 ^ 31"
  shows "\<exists>d'. fat32_create_file fs dst (Some content) (length content) d = Some (0, d') \<and> added fs (blk d) (blk d') rc dst content"
proof -
  have r: "find slot_free (dir_slots (blk d) (fs_volume fs) rc) \<noteq> None"
    "clusters_needed (fs_volume fs) (length content) \<le> Finite_Set.card (free_set (blk d) (fs_volume fs))"
    "lookup_slot (dir_slots (blk d) (fs_volume fs) rc) dst = None"
    "fst (encode_83_name dst) ! 0 \<noteq> FAT32_ENTRY_END" "fst (encode_83_name dst) ! 0 \<noteq> FAT32_ENTRY_FREE"
    using assms(4) by (simp_all add: room_for_def)
  obtain d' e p first cs where
    sp: "fat32_create_file fs dst (Some content) (length content) d = Some (0, d')"
      "is_chain (fat (blk d') (fs_volume fs)) (fs_volume fs) (root_cluster (fs_volume fs)) rc"
      "lookup_slot (dir_slots (blk d') (fs_volume fs) rc) dst = Some (e, p)"
      "to_drive_entry e = ENTRY_FILE \<lparr>file_name = format_83_name (e_name e) (e_ext e), file_size = length content,
         file_cluster = first\<rparr>"
      "file_on (blk d') (fs_volume fs) first cs content" "set cs \<subseteq> free_set (blk d) (fs_volume fs)"
      "\<forall>c cs old. file_on (blk d) (fs_volume fs) c cs old \<and> set cs \<inter> set rc = {} \<longrightarrow> file_on (blk d') (fs_volume fs) c cs old"
      "\<forall>other x. lookup_slot (dir_slots (blk d) (fs_volume fs) rc) other = Some x \<longrightarrow>
         encode_83_name other \<noteq> encode_83_name dst \<longrightarrow> lookup_slot (dir_slots (blk d') (fs_volume fs) rc) other = Some x"
    using create_file_spec [OF assms(1-3) r(1,2) assms(5) r(3-5)] by blast
  have "added fs (blk d) (blk d') rc dst content" unfolding added_def using sp(2-8) by blast
  with sp(1) show ?thesis by blast
qed

text \<open>The work that \<open>cp\<close> and \<open>mv\<close> share: the listing, the copy into the buffer, and the new file.\<close>

lemma copy_work:
  assumes mf: "mounted_file fs blk cap (fs_dev st) rc src f cs content"
    and rf: "room_for fs blk (fs_dev st) rc dst (length (take 4096 content))"
    and heap: "kmalloc (of_nat (length (listing (dir_slots (blk (fs_dev st)) (fs_volume fs) rc))) * sizeof_drive_entry)
      (fs_heap st) = Some (p, h)" "p \<noteq> 0"
  obtains es d1 d2 d3 where
    "fat32_get_root_entries fs (fs_heap st) (fs_dev st) = Some (es, h, d1)" "find_file es src = Some f"
    "copy_read fs f 0 [] d1 = Some (take 4096 content, d2)"
    "fat32_create_file fs dst (Some (take 4096 content)) (length (take 4096 content)) d2 = Some (0, d3)"
    "added fs (blk (fs_dev st)) (blk d3) rc dst (take 4096 content)"
proof -
  note m = mf [unfolded mounted_file_def]
  let ?es = "listing (dir_slots (blk (fs_dev st)) (fs_volume fs) rc)" and ?c = "take 4096 content"
  have dev: "block_device (fs_drive fs) blk cap" and vol: "volume_ok (fs_volume fs) cap" using m by blast+
  have "?es \<noteq> []" using m by auto
  then obtain d1 where g: "fat32_get_root_entries fs (fs_heap st) (fs_dev st) = Some (?es, h, d1)"
      "blk d1 = blk (fs_dev st)"
    using get_root_entries_correct [OF dev vol _ refl, of "fs_dev st" rc "fs_heap st" p h] m heap by auto
  obtain d2 where c: "copy_read fs f 0 [] d1 = Some (?c, d2)" "blk d2 = blk (fs_dev st)"
    using copy_read_correct [OF dev vol, of d1 f cs content] m g(2) by auto
  have "is_chain (fat (blk d2) (fs_volume fs)) (fs_volume fs) (root_cluster (fs_volume fs)) rc"
    "room_for fs blk d2 rc dst (length ?c)" "length ?c < 2 ^ 31"
    using m rf c(2) by (simp_all add: room_for_def)
  from create_adds [OF dev vol this] obtain d3 where
    "fat32_create_file fs dst (Some ?c) (length ?c) d2 = Some (0, d3)" "added fs (blk d2) (blk d3) rc dst ?c" by blast
  with g c m show thesis by (intro that [of ?es d1 d2 d3]) simp_all
qed

lemma added_reads:
  assumes "block_device (fs_drive fs) blk cap" "volume_ok (fs_volume fs) cap" "length content < 2 ^ 31"
    and "added fs m (blk d) rc dst content"
  shows "file_reads fs dst d content"
  using assms(4) file_readsI [OF assms(1,2) _ _ _ _ assms(3)] unfolding added_def by blast

lemma streq_eq: "streq as bs \<longleftrightarrow> as = bs"
  by (induction as bs rule: streq.induct) auto

lemma starts_with_eq: "starts_with cs ps = (if take (length ps) cs = ps then Some (drop (length ps) cs) else None)"
  by (induction cs ps rule: starts_with.induct) auto

lemma run_cp: "run_command w (ascii ''cp'') color s = cmd_cp w color s"
  by (simp add: run_command_def run_table_def commands_def starts_with_eq streq_eq ascii_def)

lemma run_mv: "run_command w (ascii ''mv'') color s = cmd_mv w color s"
  by (simp add: run_command_def run_table_def commands_def starts_with_eq streq_eq ascii_def)

text \<open>A round of the main loop: the prompt, the line, the command.\<close>

lemma returns_round:
  assumes "sh_ok s" "types (kb_table (sh_kb s)) (l # ls) (kb_bytes (sh_kb s)) rest" "length l \<le> 511"
    and "\<And>t k. term_ok t \<Longrightarrow> kb_ok k \<Longrightarrow> kb_table k = kb_table (sh_kb s) \<Longrightarrow>
      types (kb_table (sh_kb s)) ls (kb_bytes k) rest \<Longrightarrow>
      returns (run_command w l TERM_COLOR (s\<lparr>sh_kb := k, sh_term := t\<rparr>)) P"
  shows "returns (kmain_round w s) P"
  unfolding kmain_round_def process_input_def
proof (intro returns_bind returns_printc)
  fix t assume t: "term_ok t"
  show "returns (sh_input w 512 TERM_COLOR (s\<lparr>sh_term := t\<rparr>))
     (\<lambda>a. returns (case a of (line, s) \<Rightarrow> run_command w line TERM_COLOR s) P)"
    by (rule returns_input [where l = l and ls = ls and rest = rest]) (use assms t in \<open>auto simp: sh_okD\<close>)
qed (rule assms(1))

lemma returns_cp:
  assumes ok: "sh_ok s" and ty: "types (kb_table (sh_kb s)) [src, dst] (kb_bytes (sh_kb s)) rest"
    and len: "length src \<le> 31" "length dst \<le> 31" and mnt: "fs_mounted (sh_fs s) = Some fs"
    and mf: "mounted_file fs blk cap (fs_dev (sh_fs s)) rc src f cs content"
    and rf: "room_for fs blk (fs_dev (sh_fs s)) rc dst (length (take 4096 content))"
    and heap: "kmalloc (of_nat (length (listing (dir_slots (blk (fs_dev (sh_fs s))) (fs_volume fs) rc))) * sizeof_drive_entry)
      (fs_heap (sh_fs s)) = Some (p, h)" "p \<noteq> 0"
  shows "returns (cmd_cp w color s) (\<lambda>s'. sh_ok s' \<and> kb_bytes (sh_kb s') = rest \<and>
     file_reads fs dst (fs_dev (sh_fs s')) (take 4096 content) \<and>
     file_on (blk (fs_dev (sh_fs s'))) (fs_volume fs) (file_cluster f) cs content)"
  unfolding cmd_cp_def mnt option.case
proof (rule returns_bind, rule returns_ask_names [OF ok ty len], unfold prod.case)
  fix t k assume k: "term_ok t" "kb_ok k" "kb_bytes k = rest"
  let ?s = "s\<lparr>sh_kb := k, sh_term := t\<rparr>"
  note m = mf [unfolded mounted_file_def]
  obtain es d1 d2 d3 where w:
    "fat32_get_root_entries fs (fs_heap (sh_fs s)) (fs_dev (sh_fs s)) = Some (es, h, d1)" "find_file es src = Some f"
    "copy_read fs f 0 [] d1 = Some (take 4096 content, d2)"
    "fat32_create_file fs dst (Some (take 4096 content)) (length (take 4096 content)) d2 = Some (0, d3)"
    "added fs (blk (fs_dev (sh_fs s))) (blk d3) rc dst (take 4096 content)"
    by (rule copy_work [OF mf rf heap])
  have "file_reads fs dst d3 (take 4096 content)" using added_reads [of fs blk cap _ _ d3] w(5) m by simp
  moreover have "file_on (blk d3) (fs_volume fs) (file_cluster f) cs content" using w(5) m by (simp add: added_def)
  ultimately show "returns (Option.bind (sh_entries fs ?s) (\<lambda>(es, s). case find_file es src of
       None \<Rightarrow> sh_text w ''Source not found.\<newline>'' VGA_COLOR_RED s
     | Some f \<Rightarrow> Option.bind (sh_dev (copy_read fs f 0 []) s) (\<lambda>(copybuf, s).
         Option.bind (sh_dev (fat32_create_file fs dst (Some copybuf) (length copybuf)) s) (\<lambda>(result, s).
           report_result w result ''Copied to: '' dst ''Copy failed.\<newline>'' color s))))
     (\<lambda>s'. sh_ok s' \<and> kb_bytes (sh_kb s') = rest \<and>
       file_reads fs dst (fs_dev (sh_fs s')) (take 4096 content) \<and>
       file_on (blk (fs_dev (sh_fs s'))) (fs_volume fs) (file_cluster f) cs content)"
    using w k by (auto simp: sh_entries_def sh_dev_def sh_ok_def intro!: returns_intros)
qed

lemma delete_after_add:
  assumes mf: "mounted_file fs blk cap d rc src f cs content"
    and hit: "lookup_slot (dir_slots (blk d) (fs_volume fs) rc) src = Some (e, p)" "dir_entry_cluster e = file_cluster f"
    and new: "lookup_slot (dir_slots (blk d) (fs_volume fs) rc) dst = None"
    and ad: "added fs (blk d) (blk d3) rc dst c" and size: "length c < 2 ^ 31"
  shows "\<exists>d4. fat32_delete_file (Some fs) src d3 = Some (0, d4) \<and> file_reads fs dst d4 c \<and>
     (\<forall>x \<in> set cs. fat (blk d4) (fs_volume fs) x = FAT32_CLUSTER_FREE)"
proof -
  let ?v = "fs_volume fs"
  note m = mf [unfolded mounted_file_def]
  have dev: "block_device (fs_drive fs) blk cap" and vol: "volume_ok ?v cap" using m by blast+
  from ad obtain e' q nm first cs' where
    a: "is_chain (fat (blk d3) ?v) ?v (root_cluster ?v) rc" "lookup_slot (dir_slots (blk d3) ?v rc) dst = Some (e', q)"
      "to_drive_entry e' = ENTRY_FILE \<lparr>file_name = nm, file_size = length c, file_cluster = first\<rparr>"
      "file_on (blk d3) ?v first cs' c" "set cs' \<subseteq> free_set (blk d) ?v"
    unfolding added_def by blast
  have enc: "encode_83_name src \<noteq> encode_83_name dst" using hit(1) new by (auto simp: lookup_slot_def)
  have hit3: "lookup_slot (dir_slots (blk d3) ?v rc) src = Some (e, p)" using ad hit(1) enc unfolding added_def by blast
  have "file_on (blk d3) ?v (file_cluster f) cs content" using ad m by (simp add: added_def)
  then have ch3: "is_chain (fat (blk d3) ?v) ?v (dir_entry_cluster e) cs" by (simp add: file_on_def hit(2))
  have ch: "is_chain (fat (blk d) ?v) ?v (file_cluster f) cs" "is_chain (fat (blk d) ?v) ?v (root_cluster ?v) rc"
    using m by (simp_all add: file_on_def)
  have dj: "set cs \<inter> set rc = {}" using m by simp
  obtain d4 where
    del: "fat32_delete_file (Some fs) src d3 = Some (0, d4)"
      "\<forall>x. unat x < fat_entries ?v \<longrightarrow> fat (blk d4) ?v x = (if x \<in> set cs then FAT32_CLUSTER_FREE else fat (blk d3) ?v x)"
      "\<forall>c cs' old. file_on (blk d3) ?v c cs' old \<and> set cs' \<inter> (set cs \<union> set rc) = {} \<longrightarrow> file_on (blk d4) ?v c cs' old"
      "\<forall>other. encode_83_name other \<noteq> encode_83_name src \<longrightarrow>
         lookup_slot (dir_slots (blk d4) ?v rc) other = lookup_slot (dir_slots (blk d3) ?v rc) other"
    using delete_file_spec [OF dev vol a(1) hit3 ch3 dj] by blast
  have "x \<notin> set cs'" if "x \<in> set cs \<union> set rc" for x
    using that is_chain_used [OF vol ch(1)] is_chain_used [OF vol ch(2)] a(5) by (auto simp: free_set_def)
  then have "file_on (blk d4) ?v first cs' c" using del(3) a(4) by blast
  moreover have "lookup_slot (dir_slots (blk d4) ?v rc) dst = Some (e', q)" using del(4) a(2) enc by simp
  moreover have "fat (blk d4) ?v x = fat (blk d3) ?v x" if "x \<in> set rc" for x
    using that del(2) dj is_chain_valid [OF a(1)] by (auto simp: valid_cluster_def)
  then have "is_chain (fat (blk d4) ?v) ?v (root_cluster ?v) rc"
    using a(1) is_chain_cong [of rc "fat (blk d4) ?v" "fat (blk d3) ?v"] by blast
  ultimately have "file_reads fs dst d4 c" using file_readsI [OF dev vol _ _ a(3) _ size] by blast
  moreover have "\<forall>x \<in> set cs. fat (blk d4) ?v x = FAT32_CLUSTER_FREE"
    using del(2) is_chain_valid [OF ch(1)] by (auto simp: valid_cluster_def)
  ultimately show ?thesis using del(1) by blast
qed

lemma returns_mv:
  assumes ok: "sh_ok s" and ty: "types (kb_table (sh_kb s)) [src, dst] (kb_bytes (sh_kb s)) rest"
    and len: "length src \<le> 31" "length dst \<le> 31" and mnt: "fs_mounted (sh_fs s) = Some fs"
    and mf: "mounted_file fs blk cap (fs_dev (sh_fs s)) rc src f cs content"
    and hit: "lookup_slot (dir_slots (blk (fs_dev (sh_fs s))) (fs_volume fs) rc) src = Some (e, q)"
      "dir_entry_cluster e = file_cluster f"
    and rf: "room_for fs blk (fs_dev (sh_fs s)) rc dst (length (take 4096 content))"
    and heap: "kmalloc (of_nat (length (listing (dir_slots (blk (fs_dev (sh_fs s))) (fs_volume fs) rc))) * sizeof_drive_entry)
      (fs_heap (sh_fs s)) = Some (p, h)" "p \<noteq> 0"
  shows "returns (cmd_mv w color s) (\<lambda>s'. sh_ok s' \<and> kb_bytes (sh_kb s') = rest \<and>
     file_reads fs dst (fs_dev (sh_fs s')) (take 4096 content) \<and>
     (\<forall>x \<in> set cs. fat (blk (fs_dev (sh_fs s'))) (fs_volume fs) x = FAT32_CLUSTER_FREE))"
  unfolding cmd_mv_def mnt option.case
proof (rule returns_bind, rule returns_ask_names [OF ok ty len], unfold prod.case)
  fix t k assume k: "term_ok t" "kb_ok k" "kb_bytes k = rest"
  let ?s = "s\<lparr>sh_kb := k, sh_term := t\<rparr>"
  note m = mf [unfolded mounted_file_def]
  obtain es d1 d2 d3 where w:
    "fat32_get_root_entries fs (fs_heap (sh_fs s)) (fs_dev (sh_fs s)) = Some (es, h, d1)" "find_file es src = Some f"
    "copy_read fs f 0 [] d1 = Some (take 4096 content, d2)"
    "fat32_create_file fs dst (Some (take 4096 content)) (length (take 4096 content)) d2 = Some (0, d3)"
    "added fs (blk (fs_dev (sh_fs s))) (blk d3) rc dst (take 4096 content)"
    by (rule copy_work [OF mf rf heap])
  have "lookup_slot (dir_slots (blk (fs_dev (sh_fs s))) (fs_volume fs) rc) dst = None" "length (take 4096 content) < 2 ^ 31"
    using rf by (simp_all add: room_for_def)
  from delete_after_add [OF mf hit this(1) w(5) this(2)] obtain d4 where
    "fat32_delete_file (Some fs) src d3 = Some (0, d4)" "file_reads fs dst d4 (take 4096 content)"
    "\<forall>x \<in> set cs. fat (blk d4) (fs_volume fs) x = FAT32_CLUSTER_FREE" by blast
  then show "returns (Option.bind (sh_entries fs ?s) (\<lambda>(es, s). case find_file es src of
       None \<Rightarrow> sh_text w ''Source not found.\<newline>'' VGA_COLOR_RED s
     | Some f \<Rightarrow> Option.bind (sh_dev (copy_read fs f 0 []) s) (\<lambda>(mvbuf, s).
         Option.bind (sh_dev (fat32_create_file fs dst (Some mvbuf) (length mvbuf)) s) (\<lambda>(rc, s).
           if rc \<noteq> 0 then sh_text w ''Move failed (could not create dst).\<newline>'' VGA_COLOR_RED s
           else Option.bind (sh_dev (fat32_delete_file (Some fs) src) s) (\<lambda>(r, s).
             Option.bind (sh_text w ''Moved: '' color s) (\<lambda>s. Option.bind (sh_printc w src color s) (\<lambda>s.
             Option.bind (sh_text w '' -> '' color s) (\<lambda>s. Option.bind (sh_printc w dst color s)
               (sh_text w ''\<newline>'' color)))))))))
     (\<lambda>s'. sh_ok s' \<and> kb_bytes (sh_kb s') = rest \<and>
       file_reads fs dst (fs_dev (sh_fs s')) (take 4096 content) \<and>
       (\<forall>x \<in> set cs. fat (blk (fs_dev (sh_fs s'))) (fs_volume fs) x = FAT32_CLUSTER_FREE))"
    using w k by (auto simp: sh_entries_def sh_dev_def sh_ok_def intro!: returns_intros)
qed

section \<open>Properties\<close>

text \<open>C34. The command \<open>cp\<close>, from the keyboard to the disk.  A round of \<open>kmain\<close>'s loop in which the keys of the
  line \<open>cp\<close> and of the two names are typed, on a mounted volume that holds the source and has a free slot
  and enough free clusters for the copy, ends; the console stays well formed, exactly the three lines are
  consumed, the destination is found on the disk and every read of it returns the bytes of the source's
  first 4096, and the source is intact.\<close>

theorem shell_cp_copies:
  assumes "sh_ok s" "types (kb_table (sh_kb s)) [ascii ''cp'', src, dst] (kb_bytes (sh_kb s)) rest"
    and "length src \<le> 31" "length dst \<le> 31" "fs_mounted (sh_fs s) = Some fs"
    and "mounted_file fs blk cap (fs_dev (sh_fs s)) rc src f cs content"
    and "room_for fs blk (fs_dev (sh_fs s)) rc dst (length (take 4096 content))"
    and "kmalloc (of_nat (length (listing (dir_slots (blk (fs_dev (sh_fs s))) (fs_volume fs) rc))) * sizeof_drive_entry)
      (fs_heap (sh_fs s)) = Some (p, h)" "p \<noteq> 0"
  shows "\<exists>s'. kmain_round w s = Some s' \<and> sh_ok s' \<and> kb_bytes (sh_kb s') = rest \<and>
     file_reads fs dst (fs_dev (sh_fs s')) (take 4096 content) \<and>
     file_on (blk (fs_dev (sh_fs s'))) (fs_volume fs) (file_cluster f) cs content"
proof -
  have "returns (kmain_round w s) (\<lambda>s'. sh_ok s' \<and> kb_bytes (sh_kb s') = rest \<and>
     file_reads fs dst (fs_dev (sh_fs s')) (take 4096 content) \<and>
     file_on (blk (fs_dev (sh_fs s'))) (fs_volume fs) (file_cluster f) cs content)"
    by (rule returns_round [OF assms(1,2)], simp add: ascii_def, unfold run_cp, rule returns_cp)
      (use assms in \<open>auto simp: sh_ok_def\<close>)
  then show ?thesis by (simp add: returns_def)
qed

text \<open>The command \<open>mv\<close>, from the keyboard to the disk: as for \<open>cp\<close>, the destination reads as the first 4096
  bytes of the source, and every cluster of the source is then free.  So a file of more than 4096
  bytes loses the rest.\<close>

theorem shell_mv_moves:
  assumes "sh_ok s" "types (kb_table (sh_kb s)) [ascii ''mv'', src, dst] (kb_bytes (sh_kb s)) rest"
    and "length src \<le> 31" "length dst \<le> 31" "fs_mounted (sh_fs s) = Some fs"
    and "mounted_file fs blk cap (fs_dev (sh_fs s)) rc src f cs content"
    and "lookup_slot (dir_slots (blk (fs_dev (sh_fs s))) (fs_volume fs) rc) src = Some (e, q)"
      "dir_entry_cluster e = file_cluster f"
    and "room_for fs blk (fs_dev (sh_fs s)) rc dst (length (take 4096 content))"
    and "kmalloc (of_nat (length (listing (dir_slots (blk (fs_dev (sh_fs s))) (fs_volume fs) rc))) * sizeof_drive_entry)
      (fs_heap (sh_fs s)) = Some (p, h)" "p \<noteq> 0"
  shows "\<exists>s'. kmain_round w s = Some s' \<and> sh_ok s' \<and> kb_bytes (sh_kb s') = rest \<and>
     file_reads fs dst (fs_dev (sh_fs s')) (take 4096 content) \<and>
     (\<forall>x \<in> set cs. fat (blk (fs_dev (sh_fs s'))) (fs_volume fs) x = FAT32_CLUSTER_FREE)"
proof -
  have "returns (kmain_round w s) (\<lambda>s'. sh_ok s' \<and> kb_bytes (sh_kb s') = rest \<and>
     file_reads fs dst (fs_dev (sh_fs s')) (take 4096 content) \<and>
     (\<forall>x \<in> set cs. fat (blk (fs_dev (sh_fs s'))) (fs_volume fs) x = FAT32_CLUSTER_FREE))"
    by (rule returns_round [OF assms(1,2)], simp add: ascii_def, unfold run_mv, rule returns_mv)
      (use assms in \<open>auto simp: sh_ok_def\<close>)
  then show ?thesis by (simp add: returns_def)
qed

text \<open>Witnesses: the small volume with the two-byte file \<open>A\<close>, and the keys of \<open>cp\<close> or \<open>mv\<close>, \<open>a\<close> and \<open>b\<close>.\<close>

definition key_table :: "u8 list" where
  "key_table = (replicate 128 0)[0x2E := 99, 0x19 := 112, 0x32 := 109, 0x2F := 118, 0x1E := 97, 0x30 := 98, 0x1C := 10]"

definition typed_keyboard :: "u8 list \<Rightarrow> keyboard" where
  "typed_keyboard bs = ps2_kb_init \<lparr>ScASCII = key_table, ScASCII_UPPER = key_table, kb_ready = False, last_scancode = 0,
     KEYSTATE = \<lparr>ShiftL = False, ShiftR = False, AltL = False, AltR = False, CtrlL = False, CtrlR = False, CapsLock = False\<rparr>,
     kb_bytes = bs\<rparr>"

definition hello_shell :: "u8 list \<Rightarrow> 'n net_state \<Rightarrow> GkState \<Rightarrow> 'p serial \<Rightarrow> ram \<Rightarrow> (medium, 'n, 'p) shell" where
  "hello_shell bs net gk ser r = \<lparr>sh_term = sample_terminal, sh_kb = typed_keyboard bs,
     sh_fs = \<lparr>fs_heap = empty_heap, fs_dev = hello_medium, fs_drives = [], fs_mounted = Some small_fs\<rparr>,
     sh_net = net, sh_gk = gk, sh_serial = ser, sh_ram = r, sh_reads = 0\<rparr>"

lemma hello_shell_simps [simp]:
  "sh_fs (hello_shell bs net gk ser r) = \<lparr>fs_heap = empty_heap, fs_dev = hello_medium, fs_drives = [], fs_mounted = Some small_fs\<rparr>"
  "kb_table (sh_kb (hello_shell bs net gk ser r)) = key_table" "kb_bytes (sh_kb (hello_shell bs net gk ser r)) = bs"
  "sh_ok (hello_shell bs net gk ser r)"
  using sample_terminal_ok
  by (simp_all add: hello_shell_def typed_keyboard_def ps2_kb_init_def kb_table_def sh_ok_def kb_ok_def key_table_def)

lemma types_line:
  "list_all plain_key (ks @ [enter]) \<Longrightarrow> list_all (\<lambda>sc. 0x20 \<le> tb ! unat sc) ks \<Longrightarrow> tb ! unat enter = 10 \<Longrightarrow>
   l = map (\<lambda>sc. tb ! unat sc) ks \<Longrightarrow> types tb ls bs rest \<Longrightarrow> types tb (l # ls) (ks @ enter # bs) rest"
  by auto

lemma types_names: "types key_table [[97], [98]] [0x1E, 0x1C, 0x30, 0x1C] []"
  using types_line [of "[0x1E]" "0x1C" key_table "[97]" "[[98]]" "[0x30, 0x1C]" "[]"]
    types_line [of "[0x30]" "0x1C" key_table "[98]" "[]" "[]" "[]"]
  by (simp add: plain_key_def KEY_UP_def KEY_DOWN_def LEFT_SHIFT_SC_def RIGHT_SHIFT_SC_def CAPS_LOCK_SC_def key_table_def
      del: types.simps) simp

lemma types_cp: "types key_table [ascii ''cp'', [97], [98]] [0x2E, 0x19, 0x1C, 0x1E, 0x1C, 0x30, 0x1C] []"
  using types_line [of "[0x2E, 0x19]" "0x1C" key_table "ascii ''cp''", OF _ _ _ _ types_names]
  by (simp add: plain_key_def KEY_UP_def KEY_DOWN_def LEFT_SHIFT_SC_def RIGHT_SHIFT_SC_def CAPS_LOCK_SC_def key_table_def
      ascii_def del: types.simps)

lemma types_mv: "types key_table [ascii ''mv'', [97], [98]] [0x32, 0x2F, 0x1C, 0x1E, 0x1C, 0x30, 0x1C] []"
  using types_line [of "[0x32, 0x2F]" "0x1C" key_table "ascii ''mv''", OF _ _ _ _ types_names]
  by (simp add: plain_key_def KEY_UP_def KEY_DOWN_def LEFT_SHIFT_SC_def RIGHT_SHIFT_SC_def CAPS_LOCK_SC_def key_table_def
      ascii_def del: types.simps)

abbreviation hello_file :: drive_file where
  "hello_file \<equiv> \<lparr>file_name = [0x41], file_size = 2, file_cluster = 3\<rparr>"

lemma hello_mounted: "mounted_file small_fs ram_blk 162 hello_medium [2] [97] hello_file [3] [0x48, 0x69]"
  using ramdisk_device small_volume_ok hello_root hello_file_on
  by (simp add: mounted_file_def small_fs_def hello_listing cstr_def upper_def)

lemma hello_lookup:
  "lookup_slot (dir_slots (ram_blk hello_medium) small_volume [2]) [97] = Some (file_entry [0x61] 3 2, 34, 0)"
  "lookup_slot (dir_slots (ram_blk hello_medium) small_volume [2]) [98] = None"
  "find slot_free (dir_slots (ram_blk hello_medium) small_volume [2]) \<noteq> None"
proof -
  obtain e xs where sl: "dir_slots (ram_blk hello_medium) small_volume [2] = (file_entry [0x61] 3 2, 34, 0) # (e, 34, 1) # xs"
    and e: "e_name e ! 0 = FAT32_ENTRY_END" using hello_slots by blast
  have n: "encode_83_name [0x61] = (0x41 # replicate 7 SPACE, replicate 3 SPACE)"
    "encode_83_name [0x62] = (0x42 # replicate 7 SPACE, replicate 3 SPACE)"
    by (simp_all add: encode_83_name_def pad_field_def upper_def)
  show "lookup_slot (dir_slots (ram_blk hello_medium) small_volume [2]) [97] = Some (file_entry [0x61] 3 2, 34, 0)"
    "lookup_slot (dir_slots (ram_blk hello_medium) small_volume [2]) [98] = None"
    "find slot_free (dir_slots (ram_blk hello_medium) small_volume [2]) \<noteq> None"
    unfolding sl using e by (simp_all add: lookup_slot_def slot_end_def slot_match_def skipped_def slot_free_def n)
qed

lemma hello_room: "room_for small_fs ram_blk hello_medium [2] [98] (length (take 4096 [0x48, 0x69 :: u8]))"
proof -
  have "fat (ram_blk hello_medium) small_volume 4 = FAT32_CLUSTER_FREE" "valid_cluster small_volume 4"
    by (simp_all add: fat_def fat_raw_def small_volume_def hello_sectors one_file_sectors buf32_def buf16_def le32_def
        valid_cluster_def fat_entries_def)
  then have "{4} \<subseteq> free_set (ram_blk hello_medium) small_volume" by (simp add: free_set_def)
  from card_mono [OF finite_free_set this] have "1 \<le> Finite_Set.card (free_set (ram_blk hello_medium) small_volume)" by simp
  moreover have "clusters_needed small_volume (Suc (Suc 0)) = 1" by (simp add: clusters_needed_def cluster_bytes_def small_volume_def)
  ultimately show ?thesis
    using hello_lookup(2,3) by (simp add: room_for_def small_fs_def encode_83_name_def pad_field_def upper_def)
qed

lemma hello_kmalloc:
  "\<exists>h. kmalloc (of_nat (length (listing (dir_slots (ram_blk hello_medium) (fs_volume small_fs) [2]))) * sizeof_drive_entry)
     empty_heap = Some (0x200010, h)"
  by (simp add: small_fs_def hello_listing sizeof_drive_entry_def kmalloc_def find_free_block_def find_from.simps ALIGN8_def
      empty_heap_def create_block_def sizeof_block_def)

theorem shell_cp_copies_witness:
  "\<forall>w net gk ser r. \<exists>s'. kmain_round w (hello_shell [0x2E, 0x19, 0x1C, 0x1E, 0x1C, 0x30, 0x1C] net gk ser r) = Some s' \<and>
     file_reads small_fs [98] (fs_dev (sh_fs s')) [0x48, 0x69]"
proof (intro allI)
  fix w net gk ser r
  let ?s = "hello_shell [0x2E, 0x19, 0x1C, 0x1E, 0x1C, 0x30, 0x1C] net gk ser r"
  obtain h where h: "kmalloc (of_nat (length (listing (dir_slots (ram_blk hello_medium) (fs_volume small_fs) [2]))) *
      sizeof_drive_entry) empty_heap = Some (0x200010, h)" using hello_kmalloc by blast
  show "\<exists>s'. kmain_round w ?s = Some s' \<and> file_reads small_fs [98] (fs_dev (sh_fs s')) [0x48, 0x69]"
    using shell_cp_copies [of ?s "[97]" "[98]" "[]" small_fs ram_blk 162 "[2]" hello_file "[3]" "[0x48, 0x69]" "0x200010" h w]
      types_cp hello_mounted hello_room h by (auto simp del: types.simps)
qed

theorem shell_mv_moves_witness:
  "\<forall>w net gk ser r. \<exists>s'. kmain_round w (hello_shell [0x32, 0x2F, 0x1C, 0x1E, 0x1C, 0x30, 0x1C] net gk ser r) = Some s' \<and>
     file_reads small_fs [98] (fs_dev (sh_fs s')) [0x48, 0x69] \<and>
     fat (ram_blk (fs_dev (sh_fs s'))) (fs_volume small_fs) 3 = FAT32_CLUSTER_FREE"
proof (intro allI)
  fix w net gk ser r
  let ?s = "hello_shell [0x32, 0x2F, 0x1C, 0x1E, 0x1C, 0x30, 0x1C] net gk ser r"
  obtain h where h: "kmalloc (of_nat (length (listing (dir_slots (ram_blk hello_medium) (fs_volume small_fs) [2]))) *
      sizeof_drive_entry) empty_heap = Some (0x200010, h)" using hello_kmalloc by blast
  have "lookup_slot (dir_slots (ram_blk hello_medium) (fs_volume small_fs) [2]) [97] = Some (file_entry [0x61] 3 2, 34, 0)"
    using hello_lookup(1) by (simp add: small_fs_def)
  then show "\<exists>s'. kmain_round w ?s = Some s' \<and> file_reads small_fs [98] (fs_dev (sh_fs s')) [0x48, 0x69] \<and>
     fat (ram_blk (fs_dev (sh_fs s'))) (fs_volume small_fs) 3 = FAT32_CLUSTER_FREE"
    using shell_mv_moves [of ?s "[97]" "[98]" "[]" small_fs ram_blk 162 "[2]" hello_file "[3]" "[0x48, 0x69]"
        "file_entry [0x61] 3 2" "(34, 0)" "0x200010" h w]
      types_mv hello_mounted hello_room h by (auto simp: file_entry_simps simp del: types.simps)
qed

end
