(* ===== verification/Nanoprintf_Props.thy ===== *)
theory Nanoprintf_Props
  imports Nanoprintf Gk_Interp_Props Editor
begin

unbundle bit_operations_syntax

text \<open>
  What the formatter prints: numbers in their base within the conversion buffer, fields of the requested
  width, decimal numbers as the terminal's own \<open>print_int\<close> does, and strings cut to the caller's buffer.
\<close>

section \<open>Digits\<close>

definition digit_of :: "u8 \<Rightarrow> nat" where
  "digit_of c = (if c < 0x3A then unat c - 48 else if c < 0x61 then unat c - 55 else unat c - 87)"

text \<open>The value of digits, least significant first.\<close>

fun digits_value :: "nat \<Rightarrow> u8 list \<Rightarrow> nat" where
  "digits_value b [] = 0"
| "digits_value b (c # cs) = digit_of c + b * digits_value b cs"

lemma digit_of_char:
  assumes d: "unat (d :: u64) < 16" and adj: "adj \<in> {0, 0x20 :: u8}"
  shows "digit_of ((if d < 10 then 0x30 else 0x41 - 10 + adj) + ucast d) = unat d"
proof -
  have u: "unat (ucast d :: u8) = unat d" using d by (simp add: unsigned_ucast_eq take_bit_nat_eq_self)
  have plus: "unat (x + ucast d :: u8) = unat x + unat d" if "unat x < 200" for x
    using that d u by (subst unat_add_small) simp_all
  have "d < 10 \<longleftrightarrow> unat d < 10" by (simp add: word_less_nat_alt)
  then consider "d < 10" "unat d < 10" | "\<not> d < 10" "10 \<le> unat d" by linarith
  then show ?thesis
  proof cases
    case 1
    then show ?thesis using plus [of "0x30"] by (simp add: digit_of_def word_less_nat_alt)
  next
    case 2
    then show ?thesis using plus [of "0x37"] plus [of "0x57"] d adj by (auto simp: digit_of_def word_less_nat_alt)
  qed
qed

lemma utoa_unfold:
  assumes "base \<in> {8, 10, 16}"
  shows "npf_utoa_rev val base adj =
     ((if val mod base < 10 then 0x30 else 0x41 - 10 + adj) + ucast (val mod base)) #
       (if unat val < unat base then [] else npf_utoa_rev (val div base) base adj)"
proof -
  have b: "0 < unat base" "\<not> base < 2" using assms by auto
  have "val div base = 0 \<longleftrightarrow> unat val div unat base = 0" by (metis unat_div unat_eq_zero)
  also have "\<dots> \<longleftrightarrow> unat val < unat base" using b by (simp add: div_eq_0_iff)
  finally show ?thesis using b by (subst npf_utoa_rev.simps) (simp add: Let_def)
qed

lemma utoa_value:
  assumes b: "base \<in> {8, 10, 16}" and adj: "adj \<in> {0, 0x20}"
  shows "digits_value (unat base) (npf_utoa_rev val base adj) = unat val"
proof (induction "unat val" arbitrary: val rule: less_induct)
  case less
  have ub: "2 \<le> unat base" "unat base \<le> 16" using b by auto
  have m: "unat (val mod base) = unat val mod unat base" by (rule unat_mod)
  also have "\<dots> < 16" using ub mod_less_divisor [of "unat base" "unat val"] by linarith
  finally have d: "digit_of ((if val mod base < 10 then 0x30 else 0x41 - 10 + adj) + ucast (val mod base)) = unat val mod unat base"
    using digit_of_char [OF _ adj, of "val mod base"] m by simp
  show ?case
  proof (cases "unat val < unat base")
    case True
    then show ?thesis using d by (simp add: utoa_unfold [OF b])
  next
    case False
    then have "unat (val div base) < unat val" using ub by (simp add: unat_div)
    from less [OF this] show ?thesis using d False by (simp add: utoa_unfold [OF b, of val] unat_div)
  qed
qed

lemma utoa_length:
  assumes b: "base \<in> {8, 10, 16}" and "unat val < 8 ^ n" "0 < n"
  shows "length (npf_utoa_rev val base adj) \<le> n"
  using assms(2,3)
proof (induction n arbitrary: val)
  case (Suc n)
  show ?case
  proof (cases "unat val < unat base")
    case True
    then show ?thesis by (simp add: utoa_unfold [OF b])
  next
    case False
    have ub: "8 \<le> unat base" using b by auto
    have "unat val div unat base \<le> unat val div 8" using ub by (simp add: div_le_mono2)
    also have "\<dots> < 8 ^ n" using Suc.prems(1) by (simp add: less_mult_imp_div_less mult.commute)
    finally have lt: "unat (val div base) < 8 ^ n" by (simp add: unat_div)
    have "0 < n" using Suc.prems(1) False ub by (cases n) auto
    from Suc.IH [OF lt this] show ?thesis using False by (simp add: utoa_unfold [OF b, of val])
  qed
qed simp

lemma utoa_fits: "base \<in> {8, 10, 16} \<Longrightarrow> length (npf_utoa_rev val base adj) \<le> 22"
proof -
  assume b: "base \<in> {8, 10, 16}"
  have "unat val < 2 ^ 64" using unsigned_less [of val, where 'a = nat] by simp
  then have "unat val < 8 ^ 22" by (rule less_le_trans) simp
  then show ?thesis by (rule utoa_length [OF b]) simp
qed

section \<open>Layout\<close>

lemma npf_layout_length:
  "length (npf_layout fs t) =
     (if conv_spec fs = NPF_FMT_SPEC_CONV_STRING then 0 else if sign_c t = 0 then 0 else 1) +
     nat (prec_pad fs t) + length (cbuf t) +
     (if npf_pad_c fs (zero_val t) = 0 then 0 else nat (field_pad fs t)) +
     (if conv_spec fs = NPF_FMT_SPEC_CONV_STRING \<and> sign_c t \<noteq> 0 \<and> \<not> left_justified fs \<and>
         npf_pad_c fs (zero_val t) = 0x30 then 1 else 0)"
  by (auto simp: npf_layout_def Let_def prec_pad_def)

lemma convert_sign: "npf_convert fs as = Some (t, as') \<Longrightarrow> conv_spec fs = NPF_FMT_SPEC_CONV_STRING \<Longrightarrow> sign_c t = 0"
  by (auto simp: npf_convert_def)

text \<open>A converted number fits the 23 bytes of the conversion buffer, whatever the conversion, its flags and the argument; strings
  do not use the buffer.\<close>

theorem conversion_fits:
  assumes "npf_convert fs as = Some (t, as')" "conv_spec fs \<noteq> NPF_FMT_SPEC_CONV_STRING"
  shows "length (cbuf t) \<le> 22"
proof -
  have "npf_base c \<in> {8, 10, 16}" for c by (simp add: npf_base_def)
  then show ?thesis using assms utoa_fits
    by (auto simp: npf_convert_def convert_signed_def convert_unsigned_def split: npf_conv.splits)
qed

theorem conversion_fits_witness:
  "length (cbuf (convert_unsigned (initial_spec\<lparr>conv_spec := NPF_FMT_SPEC_CONV_OCTAL\<rparr>) (- 1))) \<le> 22"
  by (rule conversion_fits [where fs = "initial_spec\<lparr>conv_spec := NPF_FMT_SPEC_CONV_OCTAL, length_modifier := NPF_FMT_SPEC_LEN_MOD_LONG\<rparr>"
        and as = "[Arg_Long (- 1)]" and as' = "[]"])
    (simp_all add: npf_convert_def va_unsigned_def initial_spec_def convert_unsigned_def skips_zero_def)

lemma field_width_reached:
  assumes "npf_convert fs as = Some (t, as')" "field_width_opt fs \<noteq> NPF_FMT_SPEC_OPT_NONE"
  shows "int (length (npf_layout fs t)) =
    max (field_width fs) (int (length (cbuf t)) + prec_pad fs t + (if sign_c t = 0 then 0 else 1))"
proof -
  have "npf_pad_c fs (zero_val t) \<noteq> 0" using assms(2) by (simp add: npf_pad_c_def)
  moreover have "0 \<le> prec_pad fs t" by (simp add: prec_pad_def)
  ultimately show ?thesis using convert_sign [OF assms(1)] by (auto simp: npf_layout_length field_pad_def)
qed

section \<open>Strings in a buffer\<close>

lemma bufputc_fold:
  "cur + length ws \<le> len \<Longrightarrow> len \<le> length dst \<Longrightarrow>
   fold npf_bufputc ws (dst, len, cur) = (take cur dst @ ws @ drop (cur + length ws) dst, len, cur + length ws)"
proof (induction ws arbitrary: dst cur)
  case (Cons c cs)
  then have "cur < length dst" by simp
  then show ?case using Cons
    by (simp add: npf_bufputc_def upd_conv_take_nth_drop take_Suc_conv_app_nth [symmetric] min_def)
       (simp add: add.commute)
qed simp

lemma bufputc_full: "len \<le> cur \<Longrightarrow> fold npf_bufputc ws (dst, len, cur) = (dst, len, cur)"
  by (induction ws) (simp_all add: npf_bufputc_def)

lemma bufputc_all:
  assumes "len \<le> length dst"
  shows "fst (fold npf_bufputc ws (dst, len, 0)) = take len ws @ drop (min len (length ws)) dst"
proof -
  have "fold npf_bufputc (take len ws) (dst, len, 0) = (take len ws @ drop (min len (length ws)) dst, len, min len (length ws))"
    using bufputc_fold [of 0 "take len ws" len dst] assms by (simp add: min.commute)
  moreover have "drop len ws = [] \<or> min len (length ws) = len" by auto
  moreover have "fold npf_bufputc ws (dst, len, 0) = fold npf_bufputc (drop len ws) (fold npf_bufputc (take len ws) (dst, len, 0))"
    by (metis append_take_drop_id fold_append o_apply)
  ultimately show ?thesis by (auto simp: bufputc_full)
qed

text \<open>\<open>snprintf\<close> stores the beginning of the text that \<open>printf\<close> would write, as many bytes as the given size leaves room for
  beside the final zero, and nothing beyond the given size; it returns the length of the whole text.\<close>

theorem snprintf_bounded:
  assumes "npf_vpprintf fmt as = Some ws" "bufsz \<le> length buffer" "0 < bufsz"
  shows "\<exists>buffer'. npf_vsnprintf buffer bufsz fmt as = Some (length ws, buffer') \<and>
    take (min (length ws) (bufsz - 1) + 1) buffer' = take (bufsz - 1) ws @ [0] \<and>
    drop bufsz buffer' = drop bufsz buffer \<and> length buffer' = length buffer"
proof -
  let ?m = "min (length ws) (bufsz - 1)"
  let ?d = "take bufsz ws @ drop (min bufsz (length ws)) buffer"
  obtain len cur where f: "fold npf_bufputc ws (buffer, bufsz, 0) = (?d, len, cur)"
    using bufputc_all [OF assms(2), of ws] by (metis prod.collapse)
  have len: "length ?d = length buffer" using assms(2) by simp
  have m: "?m < length ?d" using assms(2,3) unfolding len by linarith
  have "npf_vsnprintf buffer bufsz fmt as = Some (length ws, ?d[?m := 0])"
    using assms(1,3) f by (simp add: npf_vsnprintf_def Let_def)
  moreover have "take (?m + 1) (?d[?m := 0]) = take ?m ?d @ [0]"
    using m by (simp add: take_Suc_conv_app_nth del: length_append)
  moreover have "take ?m ?d = take (bufsz - 1) ws" using assms(3) by (auto simp: min_def)
  moreover have "drop bufsz (?d[?m := 0]) = drop bufsz buffer" using assms(3) by (auto simp: drop_update_cancel min_def)
  ultimately show ?thesis using len by (auto simp del: length_append)
qed

section \<open>Arguments\<close>

text \<open>The types of the arguments that a format asks for; a format with a width or precision taken from the arguments, or with a
  number beyond \<open>int\<close>, has none here.\<close>

datatype arg_kind = K_Int | K_Long | K_Pointer | K_String

fun kind_of :: "npf_arg \<Rightarrow> arg_kind" where
  "kind_of (Arg_Int v) = K_Int"
| "kind_of (Arg_Long v) = K_Long"
| "kind_of (Arg_Pointer v) = K_Pointer"
| "kind_of (Arg_String v) = K_String"

definition spec_kinds :: "npf_format_spec \<Rightarrow> arg_kind list" where
  "spec_kinds fs =
     (case conv_spec fs of
        NPF_FMT_SPEC_CONV_NONE \<Rightarrow> [] | NPF_FMT_SPEC_CONV_PERCENT \<Rightarrow> []
      | NPF_FMT_SPEC_CONV_CHAR \<Rightarrow> [K_Int] | NPF_FMT_SPEC_CONV_STRING \<Rightarrow> [K_String] | NPF_FMT_SPEC_CONV_POINTER \<Rightarrow> [K_Pointer]
      | _ \<Rightarrow> [case length_modifier fs of NPF_FMT_SPEC_LEN_MOD_NONE \<Rightarrow> K_Int | NPF_FMT_SPEC_LEN_MOD_LONG \<Rightarrow> K_Long])"

function format_kinds :: "u8 list \<Rightarrow> arg_kind list option" where
  "format_kinds [] = Some []"
| "format_kinds (c # cs) =
     (if c \<noteq> 0x25 then format_kinds cs
      else case npf_parse_format_spec cs of
             None \<Rightarrow> None
           | Some None \<Rightarrow> format_kinds cs
           | Some (Some (fs, rest)) \<Rightarrow>
               if field_width_opt fs = NPF_FMT_SPEC_OPT_STAR \<or> prec_opt fs = NPF_FMT_SPEC_OPT_STAR then None
               else map_option ((@) (spec_kinds fs)) (format_kinds rest))"
  by pat_completeness auto

termination
  by (relation "measure length") (auto dest: parse_format_length)

declare format_kinds.simps(2) [simp del]

lemma one_defined:
  assumes "field_width_opt fs \<noteq> NPF_FMT_SPEC_OPT_STAR" "prec_opt fs \<noteq> NPF_FMT_SPEC_OPT_STAR"
    "map kind_of as = spec_kinds fs @ ks"
  shows "\<exists>cs as'. npf_one fs as = Some (cs, as') \<and> map kind_of as' = ks"
proof -
  have k: "kind_of a = K_Int \<longleftrightarrow> (\<exists>v. a = Arg_Int v)" "kind_of a = K_Long \<longleftrightarrow> (\<exists>v. a = Arg_Long v)"
    "kind_of a = K_Pointer \<longleftrightarrow> (\<exists>v. a = Arg_Pointer v)" "kind_of a = K_String \<longleftrightarrow> (\<exists>v. a = Arg_String v)" for a
    by (cases a; simp)+
  have a: "conv_spec (adjust_spec fs) = conv_spec fs" "length_modifier (adjust_spec fs) = length_modifier fs"
    by (simp_all add: adjust_spec_def Let_def)
  have "\<exists>t as'. npf_convert (adjust_spec fs) as = Some (t, as') \<and> map kind_of as' = ks"
    using assms(3) by (auto simp: spec_kinds_def npf_convert_def a va_signed_def va_unsigned_def k map_eq_Cons_conv split: npf_conv.splits npf_len_mod.splits)
  then show ?thesis using assms(1,2) by (auto simp: npf_one_def star_width_def star_prec_def Let_def)
qed

lemma format_defined:
  "format_kinds fmt = Some (map kind_of as) \<Longrightarrow> \<exists>cs. npf_vpprintf fmt as = Some cs"
proof (induction fmt as rule: npf_vpprintf.induct)
  case (2 c cs as)
  show ?case
  proof (cases "c = 0x25")
    case True
    show ?thesis
    proof (cases "npf_parse_format_spec cs")
      case (Some r)
      show ?thesis
      proof (cases r)
        case None
        then show ?thesis using 2(2) [OF _ Some] 2(4) True Some by (auto simp: npf_vpprintf.simps(2) format_kinds.simps(2))
      next
        case (Some fr)
        obtain fs rest where fr: "fr = (fs, rest)" by fastforce
        note p = \<open>npf_parse_format_spec cs = Some r\<close> [unfolded Some fr]
        from 2(4) True p obtain ks where ks: "field_width_opt fs \<noteq> NPF_FMT_SPEC_OPT_STAR" "prec_opt fs \<noteq> NPF_FMT_SPEC_OPT_STAR"
          "spec_kinds fs @ ks = map kind_of as" "format_kinds rest = Some ks"
          by (auto simp: format_kinds.simps(2) split: if_splits)
        obtain out' as' where o: "npf_one fs as = Some (out', as')" "map kind_of as' = ks" using one_defined [OF ks(1,2) ks(3) [symmetric]] by blast
        have "\<exists>cs. npf_vpprintf rest as' = Some cs"
          using 2(3) True p o ks(4) by auto
        then show ?thesis using True p o(1) by (auto simp: npf_vpprintf.simps(2))
      qed
    qed (use 2(4) True in \<open>simp add: format_kinds.simps(2)\<close>)
  qed (use 2(1) 2(4) in \<open>auto simp: npf_vpprintf.simps(2) format_kinds.simps(2)\<close>)
qed simp


text \<open>Formats of the kernel's calls of \<open>printf\<close>, with the types of the arguments they are called with.\<close>

definition kernel_formats :: "(string \<times> arg_kind list) list" where
  "kernel_formats =
    [(''%02x:%02x.%d %s'', [K_Int, K_Int, K_Int, K_String]), (''Trying drive %d'', [K_Int]),
     (''around 42%%)  : %dMb'', [K_Int]), (''Processes count: %d'', [K_Int]), (''GeckoOS Version %s'', [K_String]),
     (''e1000: MAC %02x:%02x:%02x:%02x:%02x:%02x'', [K_Int, K_Int, K_Int, K_Int, K_Int, K_Int]),
     (''  [%02x:%02x.%d] %s %s'', [K_Int, K_Int, K_Int, K_String, K_String]),
     (''  [%02x:%02x.%d] %s (device %04x, subclass %02x)'', [K_Int, K_Int, K_Int, K_String, K_Int, K_Int]),
     (''Symbol Index out of Range (%d:%u).'', [K_Int, K_Int]), (''Allocated memory for a section (%ld).'', [K_Long]),
     (''GSI %d: 0x%016lx | vector=%u | mask=%u | trigger=%u | polarity=%u | dest=%u'',
      [K_Int, K_Long, K_Int, K_Int, K_Int, K_Int, K_Int])]"

lemma kernel_formats_kinds: "list_all (\<lambda>(f, ks). format_kinds (ascii f) = Some ks) kernel_formats"
  by code_simp

text \<open>The call in \<open>execute_process\<close> passes two 64-bit integers where the format has a pointer and an \<open>unsigned\<close>.\<close>

lemma execute_process_format: "npf_vpprintf (ascii ''%x %p 0x%x'') [Arg_Int b, Arg_Long entry_point, Arg_Long proc_stack] = None"
proof -
  have p: "npf_parse_format_spec (0x78 # cs) = Some (Some (initial_spec\<lparr>conv_spec := NPF_FMT_SPEC_CONV_HEX_INT\<rparr>, cs))"
    "npf_parse_format_spec (0x70 # cs) = Some (Some (initial_spec\<lparr>conv_spec := NPF_FMT_SPEC_CONV_POINTER\<rparr>, cs))" for cs
    by (simp_all add: npf_parse_format_spec_def parse_width_def parse_prec_def parse_length_def initial_spec_def)
  obtain cs where o: "npf_one (initial_spec\<lparr>conv_spec := NPF_FMT_SPEC_CONV_HEX_INT\<rparr>) [Arg_Int b, Arg_Long entry_point, Arg_Long proc_stack] =
      Some (cs, [Arg_Long entry_point, Arg_Long proc_stack])"
    by (simp add: npf_one_def star_width_def star_prec_def adjust_spec_def int_conv_def npf_convert_def va_unsigned_def initial_spec_def Let_def)
  have "npf_one (initial_spec\<lparr>conv_spec := NPF_FMT_SPEC_CONV_POINTER\<rparr>) [Arg_Long entry_point, Arg_Long proc_stack] = None"
    by (simp add: npf_one_def star_width_def star_prec_def adjust_spec_def int_conv_def npf_convert_def initial_spec_def Let_def)
  then show ?thesis by (simp add: ascii_def npf_vpprintf.simps(2) p o)
qed


theorem snprintf_bounded_witness:
  "\<exists>buffer'. npf_vsnprintf [1, 1, 1, 1] 3 (ascii ''abc'') [] = Some (3, buffer') \<and> take 3 buffer' = [0x61, 0x62, 0] \<and> drop 3 buffer' = [1]"
  using snprintf_bounded [of "ascii ''abc''" "[]" "[0x61, 0x62, 0x63]" 3 "[1, 1, 1, 1]"]
  by (auto simp: ascii_def npf_vpprintf.simps(2) numeral_3_eq_3)

section \<open>Decimal numbers\<close>

lemma ascii_char: "n < 256 \<Longrightarrow> of_char (char_of n) = (of_nat n :: u8)"
  using of_nat_of_char [of "char_of n", where 'a = "8 word"] by (simp del: of_nat_of_char)

lemma digit_byte:
  assumes "n < 10"
  shows "of_char (char_of (48 + n)) = (of_nat (48 + n) :: u8)" "48 \<le> (of_nat (48 + n) :: u8)" "(of_nat (48 + n) :: u8) \<le> 57"
    "ucast (of_nat (48 + n) - 48 :: u8) = (of_nat n :: u32)"
proof -
  have c: "of_char (char_of (48 + n)) = (of_nat (48 + n) :: u8)" using assms by (intro ascii_char) simp
  have "n \<in> {0, 1, 2, 3, 4, 5, 6, 7, 8, 9}" using assms by auto
  then show "of_char (char_of (48 + n)) = (of_nat (48 + n) :: u8)" "48 \<le> (of_nat (48 + n) :: u8)"
    "(of_nat (48 + n) :: u8) \<le> 57" "ucast (of_nat (48 + n) - 48 :: u8) = (of_nat n :: u32)"
    using c by auto
qed

lemma utoa_dec_rev:
  assumes "val \<noteq> 0"
  shows "npf_utoa_rev val 10 adj = ascii (dec_rev (unat val))"
  using assms
proof (induction "unat val" arbitrary: val rule: less_induct)
  case less
  have m: "unat (val mod 10) = unat val mod 10" by (simp add: unat_mod)
  then have d: "val mod 10 < 10" by (simp add: word_less_nat_alt)
  have "0x30 + ucast (val mod 10) = (of_nat (48 + unat val mod 10) :: u8)" by (simp add: m [symmetric])
  also have "\<dots> = of_char (char_of (48 + unat val mod 10))" by (simp only: digit_byte(1) [of "unat val mod 10"] mod_less_divisor zero_less_numeral)
  finally have c: "(if val mod 10 < 10 then 0x30 else 0x41 - 10 + adj) + ucast (val mod 10) =
      (of_char (char_of (48 + unat val mod 10)) :: u8)"
    using d by simp
  have nz: "unat val \<noteq> 0" using less.prems by (simp add: unat_eq_zero)
  show ?case
  proof (cases "unat val < 10")
    case True
    then show ?thesis using c nz by (simp add: utoa_unfold dec_rev.simps [of "unat val"] dec_rev.simps [of 0] ascii_def)
  next
    case False
    have dv: "unat (val div 10) = unat val div 10" by (simp add: unat_div)
    then have "unat (val div 10) < unat val" "val div 10 \<noteq> 0" using False by (auto simp: unat_eq_zero [symmetric])
    from less.hyps [OF this] show ?thesis using c nz False dv
      by (simp add: utoa_unfold [of 10 val] dec_rev.simps [of "unat val"] ascii_def)
  qed
qed

text \<open>\<open>%d\<close> as a specification.\<close>

lemma parse_d: "npf_parse_format_spec (0x64 # cs) = Some (Some (initial_spec\<lparr>conv_spec := NPF_FMT_SPEC_CONV_SIGNED_INT\<rparr>, cs))"
  by (simp add: npf_parse_format_spec_def parse_width_def parse_prec_def parse_length_def initial_spec_def)

lemma int_to_str_neg:
  assumes "sint (v :: u32) < 0" "v \<noteq> 0x80000000"
  shows "int_to_str v = CHR ''-'' # rev (dec_rev (nat (- sint v)))"
  using assms sint_uminus [OF assms(2)] by (auto simp: int_to_str_def Let_def)

lemma sint_scast_up: "sint (scast (v :: u32) :: u64) = sint v"
proof -
  have "- (2 ^ 63) \<le> sint v" "sint v < 2 ^ 63" using sint_bounds [of v] by simp_all
  then show ?thesis by (simp add: signed_scast_eq signed_take_bit_int_eq_self)
qed

lemma unat_of_int:
  assumes "0 \<le> k" "k < 2 ^ 64"
  shows "unat (of_int k :: u64) = nat k"
proof -
  obtain n where k: "k = int n" using assms(1) nonneg_int_cases by blast
  have "n < 2 ^ 64" using assms(2) unfolding k by simp
  then have "unat (of_nat n :: u64) = n" by (subst unat_of_nat) simp
  then show ?thesis unfolding k of_int_of_nat_eq nat_int .
qed

lemma magnitude:
  fixes v :: u32
  shows "0 \<le> sint v \<Longrightarrow> unat (scast v :: u64) = nat (sint v)" "sint v < 0 \<Longrightarrow> unat (- scast v :: u64) = nat (- sint v)"
proof -
  have e: "(scast v :: u64) = of_int (sint v)" by (rule scast_eq)
  show "0 \<le> sint v \<Longrightarrow> unat (scast v :: u64) = nat (sint v)"
    using sint_bounds [of v] unfolding e by (intro unat_of_int) simp_all
  have "- scast v = (of_int (- sint v) :: u64)" by (simp only: e of_int_minus)
  then show "sint v < 0 \<Longrightarrow> unat (- scast v :: u64) = nat (- sint v)"
    using sint_bounds [of v] by (simp only:) (intro unat_of_int, simp_all)
qed

lemma one_d:
  "npf_one (initial_spec\<lparr>conv_spec := NPF_FMT_SPEC_CONV_SIGNED_INT\<rparr>) (Arg_Int v # as) =
     Some ((if sint v < 0 then [0x2D] else []) @ rev (npf_utoa_rev (if sint v < 0 then - scast v else scast v) 10 0x20), as)"
  by (simp add: npf_one_def star_width_def star_prec_def adjust_spec_def int_conv_def npf_convert_def va_signed_def
      convert_signed_def skips_zero_def npf_layout_def npf_pad_c_def prec_pad_def field_pad_def initial_spec_def Let_def sint_scast_up)

text \<open>C38. \<open>printf\<close> with \<open>%d\<close> and the terminal's \<open>print_int\<close> agree on every number but the least one, which \<open>printf\<close> writes
  in full and \<open>print_int\<close> as a minus sign only.\<close>

theorem printf_decimal:
  "npf_vpprintf (ascii ''%d'') [Arg_Int v] =
     Some (if v = 0x80000000 then ascii ''-2147483648'' else ascii (int_to_str v))"
proof -
  have f: "ascii ''%d'' = [0x25, 0x64]" by (simp add: ascii_def)
  let ?m = "if sint v < 0 then - scast v else scast v :: u64"
  have run: "npf_vpprintf (ascii ''%d'') [Arg_Int v] = Some ((if sint v < 0 then [0x2D] else []) @ rev (npf_utoa_rev ?m 10 0x20))"
    unfolding f npf_vpprintf.simps(2) by (simp add: parse_d one_d)
  show ?thesis
  proof (cases "v = 0 \<or> v = 0x80000000")
    case True
    then show ?thesis
    proof
      assume "v = 0"
      then show ?thesis unfolding run by (simp add: utoa_unfold int_to_str_def ascii_def)
    next
      assume v: "v = 0x80000000"
      then have m: "?m = 2147483648" by simp
      show ?thesis unfolding run m by (simp add: v utoa_dec_rev dec_rev.simps ascii_def ascii_char)
    qed
  next
    case False
    then have nz: "sint v \<noteq> 0" by (simp add: signed_eq_0_iff)
    have m: "unat ?m = nat \<bar>sint v\<bar>"
    proof (cases "sint v < 0")
      case True
      then show ?thesis by (simp only: magnitude if_True abs_of_neg)
    next
      case False
      then have "0 \<le> sint v" by linarith
      with False show ?thesis by (simp only: magnitude if_False abs_of_nonneg)
    qed
    have "?m \<noteq> 0"
    proof
      assume "?m = 0"
      then have "nat \<bar>sint v\<bar> = 0" unfolding m [symmetric] by (simp only: unat_0)
      then show False using nz by linarith
    qed
    with m have "npf_utoa_rev ?m 10 0x20 = ascii (dec_rev (nat \<bar>sint v\<bar>))" using utoa_dec_rev [of ?m "0x20"] by simp
    then show ?thesis using False nz unfolding run
      by (auto simp: int_to_str_neg ascii_def rev_map) (simp add: int_to_str_def Let_def)
  qed
qed

end
