(* ===== verification/Shell_Text.thy ===== *)
theory Shell_Text
  imports Shell_Props Nanoprintf_Props
begin

unbundle bit_operations_syntax

text \<open>
  What the shell makes of the text typed at it: addresses, unknown commands, and the wait of \<open>ping\<close>.
\<close>

section \<open>Addresses as text\<close>

text \<open>The text that \<open>print_ip\<close> writes for a list of octets.\<close>

fun dotted :: "u32 list \<Rightarrow> u8 list" where
  "dotted [] = []"
| "dotted [n] = ascii (int_to_str n)"
| "dotted (n # ns) = ascii (int_to_str n) @ 46 # dotted ns"

lemma parse_num_dec: "parse_num (ascii (rev (dec_rev n)) @ rest) 0 = parse_num rest (of_nat n)"
proof (induction n arbitrary: rest rule: dec_rev.induct)
  case (1 n)
  show ?case
  proof (cases "n = 0")
    case False
    have "(of_nat (n div 10) * 10 + of_nat (n mod 10) :: u32) = of_nat n"
      by (metis div_mult_mod_eq of_nat_add of_nat_mult of_nat_numeral)
    with 1 [OF False, of "of_char (char_of (48 + n mod 10)) # rest"] digit_byte [of "n mod 10"] False show ?thesis
      by (simp add: dec_rev.simps [of n] ascii_def)
  qed (simp add: dec_rev.simps [of 0] ascii_def)
qed

lemma parse_num_octet:
  assumes "unat n < 2 ^ 31"
  shows "parse_num (ascii (int_to_str n) @ rest) 0 = parse_num rest n"
proof -
  have "int (unat n) < int (2 ^ 31)" using assms by (simp only: of_nat_less_iff)
  then have "uint n < 2 ^ 31" by simp
  moreover have "- (2 ^ 31) \<le> uint n" by (rule order_trans [OF _ uint_ge_0]) simp
  ultimately have e: "sint n = uint n" unfolding sint_uint by (simp add: signed_take_bit_int_eq_self)
  have "nat (sint n) = unat n" "\<not> sint n < 0" unfolding e by simp_all
  then have "int_to_str n = (if n = 0 then ''0'' else rev (dec_rev (unat n)))" by (simp add: int_to_str_def Let_def)
  then show ?thesis using parse_num_dec [of "unat n" rest] by (cases "n = 0") (simp_all add: ascii_def)
qed

lemma and_FF: "n AND 0xFF = (take_bit 8 n :: u32)"
  by (simp add: take_bit_eq_mask mask_eq_exp_minus_1)

lemma octet_small: "unat (n AND 0xFF :: u32) < 2 ^ 31"
proof -
  have "unat (take_bit 8 n :: u32) = unat n mod 256" by (simp add: take_bit_eq_mod unat_mod_distrib)
  then show ?thesis by (simp add: and_FF)
qed

lemma ip_octets: "IP_addr (drop_bit 24 ip AND 0xFF) (drop_bit 16 ip AND 0xFF) (drop_bit 8 ip AND 0xFF) (ip AND 0xFF) = ip"
  unfolding IP_addr_def and_FF
proof (rule bit_word_eqI)
  fix n assume "n < LENGTH(32)"
  then consider "n < 8" | "8 \<le> n" "n < 16" | "16 \<le> n" "n < 24" | "24 \<le> n" "n < 32" by force
  then show "bit (push_bit 24 (take_bit 8 (take_bit 8 (drop_bit 24 ip))) OR push_bit 16 (take_bit 8 (take_bit 8 (drop_bit 16 ip))) OR
      push_bit 8 (take_bit 8 (take_bit 8 (drop_bit 8 ip))) OR take_bit 8 (take_bit 8 ip)) n = bit ip n"
    by cases (auto simp: bit_simps)
qed

text \<open>\<open>parse_ip\<close> inverts the text that \<open>print_ip\<close> writes: the dotted decimal form of every address reads back as that
  address.\<close>

theorem parse_ip_inverts_print: "parse_ip (dotted (octets ip)) = ip"
proof -
  note p = parse_num_octet [OF octet_small]
  have d: "parse_num (46 # r) a = (a, 46 # r)" for r a by simp
  have last: "parse_num (ascii (int_to_str (n AND 0xFF))) 0 = (n AND 0xFF, [])" for n
    using p [of n "[]"] by simp
  show ?thesis using ip_octets [of ip] by (simp add: parse_ip_def octets_def p d last del: parse_num.simps)
qed

section \<open>Unknown commands\<close>

lemma dispatch_None: "dispatch cs cmd = None \<longleftrightarrow> cmd \<notin> (\<lambda>c. ascii (fst c)) ` set cs"
  by (induction cs cmd rule: dispatch.induct) (auto simp: streq_eq)

text \<open>A line that names no command does no harm: when it does not start with \<open>gk\<close> and a space and is not one of
  the names in the table, the round of the main loop ends and only the terminal and the
  keyboard have changed, whose line is consumed; the disk, the network, the heap and the interpreter are untouched.\<close>

theorem shell_unknown_command:
  fixes s :: "('d, 'n, 'p) shell"
  assumes "sh_ok s" "types (kb_table (sh_kb s)) [l] (kb_bytes (sh_kb s)) rest" "length l \<le> 511"
    and "take 3 l \<noteq> ascii ''gk ''" "l \<notin> (\<lambda>c. ascii (fst c)) ` set (commands w :: (string \<times> ('d, 'n, 'p) command) list)"
  shows "\<exists>t k. kmain_round w s = Some (s\<lparr>sh_kb := k, sh_term := t\<rparr>) \<and> term_ok t \<and> kb_ok k \<and> kb_bytes k = rest"
proof -
  have d: "dispatch (commands w :: (string \<times> ('d, 'n, 'p) command) list) l = None" using assms(5) by (simp add: dispatch_None)
  have g: "starts_with l (ascii ''gk '') = None" using assms(4) by (simp add: starts_with_eq ascii_def numeral_3_eq_3)
  have "returns (kmain_round w s) (\<lambda>s'. \<exists>t k. s' = s\<lparr>sh_kb := k, sh_term := t\<rparr> \<and> term_ok t \<and> kb_ok k \<and> kb_bytes k = rest)"
    by (rule returns_round [OF assms(1,2,3)])
      (auto simp: run_command_def run_table_def d g intro!: returns_intros, auto)
  then show ?thesis by (auto simp: returns_def)
qed

theorem shell_unknown_command_witness:
  "\<forall>w :: ('n, 'p) world. \<forall>net gk ser r. \<exists>t k. kmain_round w (hello_shell [0x1E, 0x30, 0x1C] net gk ser r) =
     Some ((hello_shell [0x1E, 0x30, 0x1C] net gk ser r)\<lparr>sh_kb := k, sh_term := t\<rparr>)"
proof (intro allI)
  fix w :: "('n, 'p) world" and net :: "'n net_state" and gk and ser :: "'p serial" and r
  let ?s = "hello_shell [0x1E, 0x30, 0x1C] net gk ser r"
  have "types key_table [[97, 98]] [0x1E, 0x30, 0x1C] []"
    using types_line [of "[0x1E, 0x30]" "0x1C" key_table "[97, 98]" "[]" "[]" "[]"]
    by (simp add: plain_key_def KEY_UP_def KEY_DOWN_def LEFT_SHIFT_SC_def RIGHT_SHIFT_SC_def CAPS_LOCK_SC_def key_table_def
        del: types.simps) simp
  moreover have "[97, 98] \<notin> (\<lambda>c. ascii (fst c)) ` set (commands w :: (string \<times> (medium, 'n, 'p) command) list)" by (simp add: commands_def ascii_def)
  ultimately show "\<exists>t k. kmain_round w ?s = Some (?s\<lparr>sh_kb := k, sh_term := t\<rparr>)"
    using shell_unknown_command [of ?s "[97, 98]" "[]" w] by (auto simp: ascii_def simp del: types.simps)
qed

section \<open>The wait of ping\<close>

text \<open>The start of a wait is kept in an \<open>int\<close>.  Once the tick counter has reached $2^{31}$ (and until it reaches $2^{32}$)
  the start becomes negative, and the first comparison of the wait already times out: no packet is looked at.\<close>

lemma tick_start_late:
  fixes t :: u64
  assumes "2 ^ 31 \<le> uint t" "uint t < 2 ^ 32"
  shows "tick_start t = t - 2 ^ 32"
proof -
  have u: "uint (ucast t :: u32) = uint t"
    using assms(2) by (simp add: unsigned_ucast_eq take_bit_int_eq_self)
  have "uint t div 2 ^ 31 = 1" using assms by (intro int_div_pos_eq [where r = "uint t - 2 ^ 31"]) simp_all
  then have "bit (uint t) 31" by (simp add: bit_iff_odd)
  then have "signed_take_bit 31 (uint t) = uint t - 2 ^ 32"
    using assms by (simp add: signed_take_bit_eq_take_bit_minus take_bit_int_eq_self)
  then have "sint (ucast t :: u32) = uint t - 2 ^ 32" by (simp add: sint_uint u)
  then show ?thesis by (simp add: tick_start_def scast_eq)
qed

theorem ping_wait_times_out_late:
  assumes "2 ^ 31 \<le> uint t" "uint t \<le> uint (w_clock w (sh_reads s))" "uint (w_clock w (sh_reads s)) < 2 ^ 32"
  shows "wait_for w (tick_start t) P s = Some (False, snd (sh_tick w s))"
proof -
  let ?c = "w_clock w (sh_reads s)"
  have "uint (?c - t) = uint ?c - uint t" using assms(2) by (simp add: uint_sub_lem)
  moreover have "?c - tick_start t = (?c - t) + 2 ^ 32" using tick_start_late [of t] assms by simp
  moreover have "uint (?c - t + 2 ^ 32) = uint (?c - t) + 2 ^ 32"
    using calculation(1) assms uint_ge_0 [of t] by (subst uint_add_lem [THEN iffD1]) simp_all
  ultimately have "100 \<le> uint (?c - tick_start t)" using assms(2) by (simp only:) simp
  then have "\<not> ?c - tick_start t < 100" by (simp add: word_less_def)
  then show ?thesis by (subst wait_for.simps) (simp add: sh_tick_def)
qed

end
