(* ===== verification/E1000_Init.thy ===== *)
theory E1000_Init
  imports E1000 Pci Interrupts Acpi_Windows
begin

unbundle bit_operations_syntax

text \<open>
  Starting the network card: \<open>e1000_init\<close> of \<open>kernel/drivers/e1000.c\<close>, which uses the PCI configuration
  space, the virtual and the physical memory manager and the interrupt controller.

  The state is the interrupt state of \<open>Interrupts\<close> with the driver's variables as its environment.  Before the
  driver owns them, the DMA areas are frames of the physical memory, whose bytes are decoded here; from
  then on the rings and buffers live in the driver state.  The delay loop after the reset has no effect in the model.
\<close>

section \<open>Registers\<close>

definition E1000_MTA :: u32 where "E1000_MTA = 0x5200"
definition E1000_RAL :: u32 where "E1000_RAL = 0x5400"
definition E1000_RAH :: u32 where "E1000_RAH = 0x5404"
definition E1000_CTRL_RST :: u32 where "E1000_CTRL_RST = push_bit 26 1"
definition E1000_CTRL_SLU :: u32 where "E1000_CTRL_SLU = push_bit 6 1"
definition E1000_CTRL_ASDE :: u32 where "E1000_CTRL_ASDE = push_bit 5 1"
definition E1000_ICR_TXDW :: u32 where "E1000_ICR_TXDW = push_bit 0 1"
definition E1000_RAH_AV :: u32 where "E1000_RAH_AV = push_bit 31 1"

section \<open>DMA areas\<close>

definition frame_byte :: "vmm \<Rightarrow> u64 \<Rightarrow> u8" where
  "frame_byte v a = ucast (drop_bit (8 * unat (a AND 7)) (pmem v (a AND NOT 7)))"

definition rx_desc_at :: "vmm \<Rightarrow> u64 \<Rightarrow> e1000_rx_desc" where
  "rx_desc_at v a =
     (let w = pmem v (a + 8)
      in \<lparr>rxd_addr = pmem v a, rxd_length = ucast w, rxd_checksum = ucast (drop_bit 16 w),
          rxd_status = ucast (drop_bit 32 w), rxd_errors = ucast (drop_bit 40 w), rxd_special = ucast (drop_bit 48 w)\<rparr>)"

definition tx_desc_at :: "vmm \<Rightarrow> u64 \<Rightarrow> e1000_tx_desc" where
  "tx_desc_at v a =
     (let w = pmem v (a + 8)
      in \<lparr>txd_addr = pmem v a, txd_length = ucast w, txd_cso = ucast (drop_bit 16 w), txd_cmd = ucast (drop_bit 24 w),
          txd_status = ucast (drop_bit 32 w), txd_css = ucast (drop_bit 40 w), txd_special = ucast (drop_bit 48 w)\<rparr>)"

definition alloc_areas :: "vmm \<Rightarrow> (u64 \<times> u64 \<times> u64 \<times> u64) \<times> vmm" where
  "alloc_areas v =
     (let (rd, p) = allocate_blocks 1 (phys v);
          (td, p) = allocate_blocks 1 p;
          (rb, p) = allocate_blocks (of_nat E1000_NUM_RX_DESC) p;
          (tb, p) = allocate_blocks 1 p
      in ((rd, td, rb, tb), v\<lparr>phys := p\<rparr>))"

text \<open>The pointers are set whether or not the allocations succeeded; the contents are read only after they have.\<close>

definition set_areas :: "vmm \<Rightarrow> u64 \<times> u64 \<times> u64 \<times> u64 \<Rightarrow> 'n nic \<Rightarrow> 'n nic" where
  "set_areas v as n =
     (case as of (rd, td, rb, tb) \<Rightarrow>
        n\<lparr>rx_descs := map (\<lambda>i. rx_desc_at v (rd + of_nat (16 * i))) [0..<E1000_NUM_RX_DESC],
          tx_descs := map (\<lambda>i. tx_desc_at v (td + of_nat (16 * i))) [0..<E1000_NUM_TX_DESC],
          rx_bufs := map (\<lambda>i. frame_byte v (rb + of_nat i)) [0..<E1000_NUM_RX_DESC * 4096],
          tx_buf := map (\<lambda>i. frame_byte v (tb + of_nat i)) [0..<E1000_TX_BUF_SIZE]\<rparr>)"

section \<open>The card\<close>

definition e1000_reset :: "'n e1000_hw \<Rightarrow> 'n nic \<Rightarrow> bool \<times> 'n nic" where
  "e1000_reset dev n =
     (let (c, n) = e1000_read dev E1000_CTRL n;
          n = e1000_write dev E1000_CTRL (c OR E1000_CTRL_RST) n;
          (c, n) = e1000_read dev E1000_CTRL n
      in (c AND E1000_CTRL_RST = 0, n))"

definition e1000_link_up :: "'n e1000_hw \<Rightarrow> 'n nic \<Rightarrow> 'n nic" where
  "e1000_link_up dev n =
     (let (c, n) = e1000_read dev E1000_CTRL n
      in e1000_write dev E1000_CTRL (c OR E1000_CTRL_SLU OR E1000_CTRL_ASDE) n)"

definition clear_multicast :: "'n e1000_hw \<Rightarrow> 'n nic \<Rightarrow> 'n nic" where
  "clear_multicast dev n = fold (\<lambda>i. e1000_write dev (E1000_MTA + of_nat (i * 4)) 0) [0..<128] n"

definition set_receive_address :: "'n e1000_hw \<Rightarrow> 'n nic \<Rightarrow> 'n nic" where
  "set_receive_address dev n =
     (let m = (\<lambda>i. ucast (mac n ! i) :: u32);
          n = e1000_write dev E1000_RAL (m 0 OR push_bit 8 (m 1) OR push_bit 16 (m 2) OR push_bit 24 (m 3)) n
      in e1000_write dev E1000_RAH (m 4 OR push_bit 8 (m 5) OR E1000_RAH_AV) n)"

definition e1000_isr :: "'n e1000_hw \<Rightarrow> ('p, 'n nic) isr" where
  "e1000_isr dev = Isr (\<lambda>regs (p, n). Some (p, e1000_irq_handler dev n))"

text \<open>From the DMA areas to the interrupt handler.\<close>

definition e1000_start :: "'p apic_hw \<Rightarrow> 'n e1000_hw \<Rightarrow> u8 \<Rightarrow> u8 \<Rightarrow> u8 \<Rightarrow> ('p, 'n nic) intr \<Rightarrow> (bool \<times> ('p, 'n nic) intr) option" where
  "e1000_start ahw dev bus slot func s =
     (case alloc_areas (ivmm s) of ((rd, td, rb, tb), v) \<Rightarrow>
        let s = s\<lparr>ivmm := v, ienv := (ienv s)\<lparr>rx_descs_phys := rd, tx_descs_phys := td, rx_bufs_phys := rb, tx_buf_phys := tb\<rparr>\<rparr>
        in if rd = 0 \<or> td = 0 \<or> rb = 0 \<or> tb = 0 then Some (False, s)
           else do {
             n \<leftarrow> read_mac dev (set_areas v (rd, td, rb, tb) (ienv s));
             let n = tx_init dev (rx_init dev (set_receive_address dev n));
             let n = e1000_write dev E1000_IMS (E1000_ICR_TXDW OR E1000_ICR_RXT0 OR E1000_ICR_LSC OR E1000_ICR_RXO) n;
             let (irq_line, p) = pci_readb (cpu_ports ahw) (ucast bus) (ucast slot) (ucast func) 0x3C (ihw s);
             s \<leftarrow> irq_install_handler ahw (int (unat irq_line)) (e1000_isr dev) 0x9 (s\<lparr>ienv := n, ihw := p\<rparr>);
             Some (True, s)
           })"

definition e1000_init :: "'p apic_hw \<Rightarrow> 'n e1000_hw \<Rightarrow> u8 \<Rightarrow> u8 \<Rightarrow> u8 \<Rightarrow> ('p, 'n nic) intr \<Rightarrow> (bool \<times> ('p, 'n nic) intr) option" where
  "e1000_init ahw dev bus slot func s =
     (let io = cpu_ports ahw;
          (bar, p) = pci_readl io (ucast bus) (ucast slot) (ucast func) 0x10 (ihw s);
          bar0 = bar AND NOT 0xF;
          s = s\<lparr>ihw := p\<rparr>
      in if bar0 = 0 then Some (False, s)
         else let (virt, v) = mmio_map (ucast bar0) 0x20000 (ivmm s); s = s\<lparr>ivmm := v\<rparr> in
           if virt = 0 then Some (False, s)
           else let (cmd, p) = pci_readw io (ucast bus) (ucast slot) (ucast func) 0x04 (ihw s);
                    p = pci_writew io (ucast bus) (ucast slot) (ucast func) 0x04 (cmd OR push_bit 1 1 OR push_bit 2 1) p;
                    (ok, n) = e1000_reset dev ((ienv s)\<lparr>mmio_base := virt\<rparr>)
                in if \<not> ok then Some (False, s\<lparr>ihw := p, ienv := n\<rparr>)
                   else e1000_start ahw dev bus slot func
                          (s\<lparr>ihw := p, ienv := clear_multicast dev (e1000_link_up dev n)\<rparr>))"

end
