(* ===== verification/E1000_Props.thy ===== *)
theory E1000_Props
  imports E1000_Init "HOL-Library.Disjoint_Sets"
begin

unbundle bit_operations_syntax

text \<open>
  What \<open>e1000_init\<close> leaves: a driver state that \<open>E1000\<close>'s operations accept, DMA areas that belong to nobody
  else, and an installed interrupt handler.
\<close>

section \<open>Memory stays the same size\<close>

lemma allocate_blocks_max: "max_blocks (snd (allocate_blocks n s)) = max_blocks s"
  by (simp add: allocate_blocks_def Let_def)

lemma alloc_table_max: "max_blocks (phys (snd (alloc_table s))) = max_blocks (phys s)"
  using allocate_blocks_max [of 1 "phys s"] by (auto simp: alloc_table_def split: prod.split)

lemma get_table_max: "max_blocks (phys (snd (get_table ea c s))) = max_blocks (phys s)"
  using alloc_table_max [of s] by (auto simp: get_table_def Let_def split: prod.split)

lemma get_pte_max: "max_blocks (phys (snd (get_pte r v c s))) = max_blocks (phys s)"
  unfolding get_pte_def
  by (auto split: prod.split option.split) (metis get_table_max snd_conv)+

lemma vmm_map_max: "max_blocks (phys (snd (vmm_map r p v f s))) = max_blocks (phys s)"
  using get_pte_max [of r v True s] by (auto simp: vmm_map_def flush_tlb_def split: prod.split option.split)

lemma map_pages_max: "max_blocks (phys (snd (map_pages n r p v f s))) = max_blocks (phys s)"
proof (induction n arbitrary: p v s)
  case (Suc n)
  then show ?case using vmm_map_max [of r p v f s] by (auto split: prod.split bool.split)
qed simp

lemma mmio_map_max: "max_blocks (phys (snd (mmio_map ph sz s))) = max_blocks (phys s)"
proof (cases "vmm_get_pml4 s = 0")
  case False
  let ?pa = "ph AND NOT (PAGE_SIZE - 1)"
  let ?n = "(sz + (ph - ?pa) + PAGE_SIZE - 1) div PAGE_SIZE"
  let ?m = "map_pages (unat ?n) (vmm_get_pml4 s) ?pa (mmio_virt_next s) (PTE_PRESENT OR PTE_WRITABLE OR PTE_CACHE_DISABLE)
      (s\<lparr>mmio_virt_next := mmio_virt_next s + ?n * PAGE_SIZE\<rparr>)"
  have "snd (mmio_map ph sz s) = snd ?m"
    unfolding mmio_map_def Let_def using False by (simp split: prod.split bool.split)
  then show ?thesis by (simp only: map_pages_max) simp
qed (simp add: mmio_map_def)

section \<open>The DMA areas\<close>

text \<open>The blocks of \<open>n\<close> pages at the address \<open>a\<close>.\<close>

definition area :: "u64 \<Rightarrow> nat \<Rightarrow> nat set" where
  "area a n = {unat a div 4096..<unat a div 4096 + n}"

text \<open>When fewer blocks are in use than the bitmap has words, some word is free, which is a run of 32 blocks.\<close>

lemma free_word:
  assumes "Finite_Set.card (used_set s) < unat (max_blocks s) div 32"
  shows "\<exists>b < unat (max_blocks s) div 32 * 32. free_run s b 32"
proof (rule ccontr)
  let ?W = "unat (max_blocks s) div 32"
  assume no: "\<not> (\<exists>b < ?W * 32. free_run s b 32)"
  have "i \<in> (\<lambda>c. c div 32) ` used_set s" if "i < ?W" for i
  proof -
    have "i * 32 + 32 \<le> unat (max_blocks s)" using that by linarith
    moreover have "\<not> free_run s (i * 32) 32" using no that by auto
    ultimately obtain c where "i * 32 \<le> c" "c < i * 32 + 32" "c \<in> used_set s"
      by (auto simp: free_run_def used_set_def)
    then show ?thesis by (intro image_eqI [of _ _ c]) auto
  qed
  then have "{..<?W} \<subseteq> (\<lambda>c. c div 32) ` used_set s" by blast
  then have "Finite_Set.card {..<?W} \<le> Finite_Set.card (used_set s)"
    by (meson card_image_le card_mono finite_imageI finite_used_set le_trans)
  with assms show False by simp
qed

lemma allocate_area:
  assumes ok: "frames_ok s" and a: "allocate_blocks n s = (a, s')" "a \<noteq> 0"
  shows "frames_ok s'" "used_set s' = used_set s \<union> area a (unat n)" "used_set s \<inter> area a (unat n) = {}"
    "unat a mod 4096 = 0" "max_blocks s' = max_blocks s" "Finite_Set.card (used_set s') = Finite_Set.card (used_set s) + unat n"
proof -
  obtain b where b: "unat a = b * 4096" "used_set s \<inter> {b..<b + unat n} = {}" "used_set s' = used_set s \<union> {b..<b + unat n}"
    "frames_ok s'"
    using allocate_blocks_spec [OF ok a] by blast
  moreover from b(1) have "area a (unat n) = {b..<b + unat n}" by (simp add: area_def)
  moreover have "max_blocks s' = max_blocks s" using allocate_blocks_max [of n s] a(1) by simp
  moreover have "Finite_Set.card (used_set s \<union> {b..<b + unat n}) = Finite_Set.card (used_set s) + unat n"
    using b(2) by (subst card_Un_disjoint) simp_all
  ultimately show "frames_ok s'" "used_set s' = used_set s \<union> area a (unat n)" "used_set s \<inter> area a (unat n) = {}"
    "unat a mod 4096 = 0" "max_blocks s' = max_blocks s" "Finite_Set.card (used_set s') = Finite_Set.card (used_set s) + unat n"
    by simp_all
qed

lemma allocate_succeeds:
  assumes ok: "frames_ok s" and n: "n = 1 \<or> n = 32" and few: "Finite_Set.card (used_set s) + 1 < unat (max_blocks s) div 32"
  shows "fst (allocate_blocks n s) \<noteq> 0"
proof -
  obtain b where b: "b < unat (max_blocks s) div 32 * 32" "free_run s b 32" using free_word [of s] few by auto
  then have "free_run s b (unat n)" using n by (auto simp: free_run_def)
  moreover have "\<not> unat (max_blocks s) - Finite_Set.card (used_set s) \<le> unat n" using few n by auto
  ultimately show ?thesis using allocate_null_iff [OF ok, of n] b(1) n by auto
qed

lemma alloc_areas_spec:
  assumes ok: "frames_ok (phys v)" and a: "alloc_areas v = ((rd, td, rb, tb), v')"
    and nz: "rd \<noteq> 0" "td \<noteq> 0" "rb \<noteq> 0" "tb \<noteq> 0"
  shows "frames_ok (phys v')"
    "used_set (phys v') = used_set (phys v) \<union> area rd 1 \<union> area td 1 \<union> area rb 32 \<union> area tb 1"
    "disjoint_family_on (\<lambda>i. [used_set (phys v), area rd 1, area td 1, area rb 32, area tb 1] ! i) {..<5}"
proof -
  obtain p1 p2 p3 p4 where al: "allocate_blocks 1 (phys v) = (rd, p1)" "allocate_blocks 1 p1 = (td, p2)"
    "allocate_blocks 32 p2 = (rb, p3)" "allocate_blocks 1 p3 = (tb, p4)" "v' = v\<lparr>phys := p4\<rparr>"
    using a by (auto simp: alloc_areas_def E1000_NUM_RX_DESC_def Let_def split: prod.splits)
  note a1 = allocate_area [OF ok al(1) nz(1)]
  note a2 = allocate_area [OF a1(1) al(2) nz(2)]
  note a3 = allocate_area [OF a2(1) al(3) nz(3)]
  note a4 = allocate_area [OF a3(1) al(4) nz(4)]
  show "frames_ok (phys v')" using a4(1) al(5) by simp
  show u: "used_set (phys v') = used_set (phys v) \<union> area rd 1 \<union> area td 1 \<union> area rb 32 \<union> area tb 1"
    using a1(2) a2(2) a3(2) a4(2) al(5) by simp
  have five: "{..<5 :: nat} = {0, 1, 2, 3, 4}" by auto
  show "disjoint_family_on (\<lambda>i. [used_set (phys v), area rd 1, area td 1, area rb 32, area tb 1] ! i) {..<5}"
    using a1(2,3) a2(2,3) a3(2,3) a4(3) unfolding disjoint_family_on_def five by auto
qed

lemma alloc_areas_succeeds:
  assumes ok: "frames_ok (phys v)" and few: "Finite_Set.card (used_set (phys v)) + 35 < unat (max_blocks (phys v)) div 32"
  obtains rd td rb tb v' where "alloc_areas v = ((rd, td, rb, tb), v')" "rd \<noteq> 0" "td \<noteq> 0" "rb \<noteq> 0" "tb \<noteq> 0"
proof -
  obtain rd p1 where a1: "allocate_blocks 1 (phys v) = (rd, p1)" by fastforce
  obtain td p2 where a2: "allocate_blocks 1 p1 = (td, p2)" by fastforce
  obtain rb p3 where a3: "allocate_blocks 32 p2 = (rb, p3)" by fastforce
  obtain tb p4 where a4: "allocate_blocks 1 p3 = (tb, p4)" by fastforce
  have n1: "rd \<noteq> 0" using allocate_succeeds [OF ok, of 1] few a1 by simp
  note s1 = allocate_area [OF ok a1 n1]
  have n2: "td \<noteq> 0" using allocate_succeeds [OF s1(1), of 1] few a2 s1(5,6) by simp
  note s2 = allocate_area [OF s1(1) a2 n2]
  have n3: "rb \<noteq> 0" using allocate_succeeds [OF s2(1), of 32] few a3 s1(5,6) s2(5,6) by simp
  note s3 = allocate_area [OF s2(1) a3 n3]
  have n4: "tb \<noteq> 0" using allocate_succeeds [OF s3(1), of 1] few a4 s1(5,6) s2(5,6) s3(5,6) by simp
  show thesis using that [of rd td rb tb "v\<lparr>phys := p4\<rparr>"] a1 a2 a3 a4 n1 n2 n3 n4
    by (simp add: alloc_areas_def E1000_NUM_RX_DESC_def)
qed

section \<open>The address of the card\<close>

text \<open>What the register of the EEPROM shows at the \<open>k\<close>-th look.\<close>

fun eerd_look :: "'n e1000_hw \<Rightarrow> nat \<Rightarrow> 'n \<Rightarrow> u32 \<times> 'n" where
  "eerd_look dev 0 n = hw_read dev (E1000_EERD div 4) n"
| "eerd_look dev (Suc k) n = eerd_look dev k (snd (hw_read dev (E1000_EERD div 4) n))"

text \<open>The documented behaviour of the EEPROM: after a read of the word \<open>a\<close> was started, the done bit
  appears at some look, together with the word.\<close>

definition eeprom_ok :: "'n e1000_hw \<Rightarrow> (u8 \<Rightarrow> u16) \<Rightarrow> bool" where
  "eeprom_ok dev rom \<longleftrightarrow> (\<forall>a n. let look = (\<lambda>k. fst (eerd_look dev k
       (hw_write dev (E1000_EERD div 4) (1 OR push_bit 8 (ucast a)) n))) in
     (\<exists>k. look k AND push_bit 4 1 \<noteq> 0) \<and>
     (\<forall>k. look k AND push_bit 4 1 \<noteq> 0 \<longrightarrow> drop_bit 16 (look k) AND 0xFFFF = ucast (rom a)))"

text \<open>Only the state of the card differs.\<close>

definition same_driver :: "'n nic \<Rightarrow> 'n nic \<Rightarrow> bool" where
  "same_driver s s' \<longleftrightarrow> (\<exists>n. s' = s\<lparr>hw := n\<rparr>)"

lemma same_driver_refl [simp]: "same_driver s s"
  by (auto simp: same_driver_def intro: exI [of _ "hw s"])

lemma same_driver_trans [trans]: "same_driver s t \<Longrightarrow> same_driver t u \<Longrightarrow> same_driver s u"
  by (auto simp: same_driver_def)

lemma same_driver_write [simp]: "same_driver s (e1000_write dev r v s)"
  by (auto simp: same_driver_def e1000_write_def)

lemma same_driver_read [simp]: "same_driver s (snd (e1000_read dev r s))"
  by (auto simp: same_driver_def e1000_read_def split: prod.split)

lemma eeprom_wait_done:
  assumes "fst (eerd_look dev k (hw s)) AND push_bit 4 1 \<noteq> 0"
  shows "\<exists>j s'. eeprom_wait dev s = Some (fst (eerd_look dev j (hw s)), s') \<and>
     fst (eerd_look dev j (hw s)) AND push_bit 4 1 \<noteq> 0 \<and> same_driver s s'"
  using assms
proof (induction k arbitrary: s)
  case (Suc k)
  obtain v n where r: "hw_read dev (E1000_EERD div 4) (hw s) = (v, n)" by fastforce
  show ?case
  proof (cases "v AND push_bit 4 1 = 0")
    case True
    have "fst (eerd_look dev k (hw (s\<lparr>hw := n\<rparr>))) AND push_bit 4 1 \<noteq> 0" using Suc.prems r by simp
    from Suc.IH [OF this] obtain j s' where
      j: "eeprom_wait dev (s\<lparr>hw := n\<rparr>) = Some (fst (eerd_look dev j n), s')" "fst (eerd_look dev j n) AND push_bit 4 1 \<noteq> 0"
        "same_driver (s\<lparr>hw := n\<rparr>) s'" by auto
    have "eeprom_wait dev s = Some (fst (eerd_look dev (Suc j) (hw s)), s')"
      using j(1) r True by (subst eeprom_wait.simps) (simp add: e1000_read_def)
    moreover have "same_driver s s'" using j(3) by (auto simp: same_driver_def)
    ultimately show ?thesis using j(2) r by (intro exI [of _ "Suc j"] exI [of _ s']) simp
  next
    case False
    then have "eeprom_wait dev s = Some (v, s\<lparr>hw := n\<rparr>)" using r by (subst eeprom_wait.simps) (simp add: e1000_read_def)
    then show ?thesis using False r by (intro exI [of _ 0] exI [of _ "s\<lparr>hw := n\<rparr>"]) (auto simp: same_driver_def)
  qed
next
  case 0
  obtain v n where r: "hw_read dev (E1000_EERD div 4) (hw s) = (v, n)" by fastforce
  then have "eeprom_wait dev s = Some (v, s\<lparr>hw := n\<rparr>)" using 0 by (subst eeprom_wait.simps) (simp add: e1000_read_def)
  then show ?case using 0 r by (intro exI [of _ 0] exI [of _ "s\<lparr>hw := n\<rparr>"]) (auto simp: same_driver_def)
qed

lemma eeprom_read_word:
  assumes "eeprom_ok dev rom"
  obtains s' where "eeprom_read dev a s = Some (ucast (rom a), s')" "same_driver s s'"
proof -
  let ?s = "e1000_write dev E1000_EERD (1 OR push_bit 8 (ucast a)) s"
  have w: "hw ?s = hw_write dev (E1000_EERD div 4) (1 OR push_bit 8 (ucast a)) (hw s)" by (simp add: e1000_write_def)
  have ok: "\<exists>k. fst (eerd_look dev k (hw ?s)) AND push_bit 4 1 \<noteq> 0"
    "\<And>k. fst (eerd_look dev k (hw ?s)) AND push_bit 4 1 \<noteq> 0 \<Longrightarrow> drop_bit 16 (fst (eerd_look dev k (hw ?s))) AND 0xFFFF = ucast (rom a)"
    using assms unfolding w eeprom_ok_def Let_def by blast+
  from ok(1) obtain k where "fst (eerd_look dev k (hw ?s)) AND push_bit 4 1 \<noteq> 0" by blast
  from eeprom_wait_done [OF this] obtain j s' where
    j: "eeprom_wait dev ?s = Some (fst (eerd_look dev j (hw ?s)), s')" "fst (eerd_look dev j (hw ?s)) AND push_bit 4 1 \<noteq> 0"
      "same_driver ?s s'" by blast
  have "same_driver s s'" using same_driver_write j(3) by (rule same_driver_trans)
  with j(1) ok(2) [OF j(2)] show thesis by (intro that [of s']) (simp_all add: eeprom_read_def)
qed

definition rom_mac :: "(u8 \<Rightarrow> u16) \<Rightarrow> u8 list" where
  "rom_mac rom = concat (map (\<lambda>a. [ucast (rom a), ucast (drop_bit 8 (rom a))]) [0, 1, 2])"

lemma rom_bytes:
  "ucast ((ucast (x :: u16) :: u32) AND 0xFF) = (ucast x :: u8)" "ucast (drop_bit 8 (ucast (x :: u16) :: u32) AND 0xFF) = (ucast (drop_bit 8 x) :: u8)"
proof -
  have "n AND 0xFF = (take_bit 8 n :: u32)" for n by (simp add: take_bit_eq_mask mask_eq_exp_minus_1)
  then show "ucast ((ucast (x :: u16) :: u32) AND 0xFF) = (ucast x :: u8)"
    "ucast (drop_bit 8 (ucast (x :: u16) :: u32) AND 0xFF) = (ucast (drop_bit 8 x) :: u8)"
    by (auto intro!: bit_word_eqI simp: bit_simps dest: bit_imp_le_length)
qed

lemma read_mac_rom:
  assumes "eeprom_ok dev rom"
  obtains s' where "read_mac dev s = Some s'" "same_driver (s\<lparr>mac := rom_mac rom\<rparr>) s'"
proof -
  obtain s1 where s1: "eeprom_read dev 0 s = Some (ucast (rom 0), s1)" "same_driver s s1" by (rule eeprom_read_word [OF assms])
  obtain s2 where s2: "eeprom_read dev 1 s1 = Some (ucast (rom 1), s2)" "same_driver s1 s2" by (rule eeprom_read_word [OF assms])
  obtain s3 where s3: "eeprom_read dev 2 s2 = Some (ucast (rom 2), s3)" "same_driver s2 s3" by (rule eeprom_read_word [OF assms])
  have "same_driver s s3" using s1(2) s2(2) s3(2) by (blast intro: same_driver_trans)
  then obtain w where "s3 = s\<lparr>hw := w\<rparr>" by (auto simp: same_driver_def)
  then have "same_driver (s\<lparr>mac := rom_mac rom\<rparr>) (s3\<lparr>mac := rom_mac rom\<rparr>)"
    unfolding same_driver_def by (intro exI [of _ w]) simp
  with s1(1) s2(1) s3(1) show thesis
    by (intro that [of "s3\<lparr>mac := rom_mac rom\<rparr>"]) (simp_all add: read_mac_def rom_mac_def rom_bytes)
qed

section \<open>The rings\<close>

lemma card_started:
  assumes "same_driver (set_areas v (rd, td, rb, tb) n\<lparr>mac := m\<rparr>) n1" "length m = 6"
    and "rx_bufs_phys n = rb" "tx_buf_phys n = tb" "rx_descs_phys n = rd" "tx_descs_phys n = td"
    and n2_def: "n2 = e1000_write dev E1000_IMS x (tx_init dev (rx_init dev (set_receive_address dev n1)))"
  shows "nic_ok n2" "mac n2 = m" "mmio_base n2 = mmio_base n"
    "\<forall>i < 32. rxd_addr (rx_descs n2 ! i) = rb + of_nat (i * 2048) \<and> rxd_status (rx_descs n2 ! i) = 0"
    "\<forall>i < 8. txd_status (tx_descs n2 ! i) = E1000_TXD_STAT_DD"
    "(rx_descs_phys n2, tx_descs_phys n2, rx_bufs_phys n2, tx_buf_phys n2) = (rd, td, rb, tb)"
proof -
  obtain w where n1: "n1 = set_areas v (rd, td, rb, tb) n\<lparr>mac := m, hw := w\<rparr>" using assms(1) by (auto simp: same_driver_def)
  note defs = n2_def n1 tx_init_def rx_init_def set_receive_address_def Let_def e1000_write_def set_areas_def
    E1000_NUM_RX_DESC_def E1000_NUM_TX_DESC_def E1000_TX_BUF_SIZE_def E1000_RX_BUF_SIZE_def
  show "nic_ok n2" using assms(2) by (simp add: defs nic_ok_def del: upt_rec_numeral)
  show "mac n2 = m" "mmio_base n2 = mmio_base n" by (simp_all add: defs del: upt_rec_numeral)
  show "\<forall>i < 32. rxd_addr (rx_descs n2 ! i) = rb + of_nat (i * 2048) \<and> rxd_status (rx_descs n2 ! i) = 0"
    using assms(3) by (simp add: defs del: upt_rec_numeral)
  show "\<forall>i < 8. txd_status (tx_descs n2 ! i) = E1000_TXD_STAT_DD" by (simp add: defs del: upt_rec_numeral)
  show "(rx_descs_phys n2, tx_descs_phys n2, rx_bufs_phys n2, tx_buf_phys n2) = (rd, td, rb, tb)"
    using assms(3-6) by (simp add: defs del: upt_rec_numeral)
qed

section \<open>Properties\<close>

text \<open>The card answers at a 16-byte aligned address, and its interrupt line is one the kernel has an entry for.\<close>

definition card_present :: "'p apic_hw \<Rightarrow> u8 \<Rightarrow> u8 \<Rightarrow> u8 \<Rightarrow> u32 \<Rightarrow> u8 \<Rightarrow> bool" where
  "card_present ahw bus slot func bar0 line \<longleftrightarrow> bar0 \<noteq> 0 \<and> unat line < MAX_IRQS \<and>
     (\<forall>p. fst (pci_readl (cpu_ports ahw) (ucast bus) (ucast slot) (ucast func) 0x10 p) AND NOT 0xF = bar0) \<and>
     (\<forall>p. fst (pci_readb (cpu_ports ahw) (ucast bus) (ucast slot) (ucast func) 0x3C p) = line)"

text \<open>The reset bit clears itself.\<close>

definition resets :: "'n e1000_hw \<Rightarrow> bool" where
  "resets dev \<longleftrightarrow> (\<forall>n. fst (e1000_reset dev n))"

lemma same_driver_reset: "same_driver n (snd (e1000_reset dev n))"
  unfolding e1000_reset_def Let_def case_prod_beta snd_conv
  by (blast intro: same_driver_trans same_driver_read same_driver_write)

lemma same_driver_multicast: "same_driver n (clear_multicast dev (e1000_link_up dev n))"
proof -
  have f: "same_driver n (fold (\<lambda>i. e1000_write dev (f i) 0) is n)" for f :: "nat \<Rightarrow> u32" and "is" n
    by (induction "is" arbitrary: n) (auto intro: same_driver_trans [OF same_driver_write])
  have l: "same_driver n (e1000_link_up dev n)"
    unfolding e1000_link_up_def Let_def case_prod_beta by (blast intro: same_driver_trans same_driver_read same_driver_write)
  show ?thesis unfolding clear_multicast_def by (rule same_driver_trans [OF l f])
qed

lemma few_arith:
  fixes M U U' A A' :: nat
  assumes "M div 32 * 32 - U - 1 \<le> A" "A' \<le> M - U' - 1" "A - 99 \<le> A'" "U + 166 < M div 32"
  shows "U' + 35 < M div 32"
proof -
  define W where "W = M div 32"
  have "M < 32 * W + 32" "32 * W \<le> M" by (simp_all add: W_def)
  then show ?thesis using assms unfolding W_def [symmetric] by linarith
qed

lemma few_after_map:
  assumes "avail (phys s) - 99 \<le> avail (phys s')" "max_blocks (phys s') = max_blocks (phys s)"
    and "Finite_Set.card (used_set (phys s)) + 166 < unat (max_blocks (phys s)) div 32"
  shows "Finite_Set.card (used_set (phys s')) + 35 < unat (max_blocks (phys s')) div 32"
proof -
  let ?M = "unat (max_blocks (phys s))" and ?U = "Finite_Set.card (used_set (phys s))"
  have "Finite_Set.card {..<?M div 32 * 32} - ?U \<le> Finite_Set.card ({..<?M div 32 * 32} - used_set (phys s))"
    by (rule diff_card_le_card_Diff) simp
  then have "?M div 32 * 32 - ?U - 1 \<le> avail (phys s)" by (simp add: avail_def) linarith
  moreover have "avail (phys s') \<le> ?M - Finite_Set.card (used_set (phys s')) - 1" using assms(2) by (simp add: avail_def)
  ultimately show ?thesis using few_arith assms by metis
qed

text \<open>The window of the registers, and what is left of memory.\<close>

lemma registers_mapped:
  assumes vs: "vspace r 33 s" and few: "Finite_Set.card (used_set (phys s)) + 166 < unat (max_blocks (phys s)) div 32"
  obtains a v where "mmio_map ph 0x20000 s = (a, v)" "a \<noteq> 0" "pt_inv r v"
    "\<forall>k < 0x20000. vmm_get_phys r (a + of_nat k) v = (ph + of_nat k) AND PTE_ADDR_MASK"
    "Finite_Set.card (used_set (phys v)) + 35 < unat (max_blocks (phys v)) div 32"
proof -
  have w: "window_size ph 0x20000 \<le> 33" by (simp add: window_size_def)
  obtain a v where m: "mmio_map ph 0x20000 s = (a, v)" "a \<noteq> 0" "avail (phys s) - 3 * window_size ph 0x20000 \<le> avail (phys v)"
    by (rule mmio_map_succeeds [OF vs _ w]) simp_all
  have v: "pt_inv r s" "current_pml4 s = r" "r \<noteq> 0" "unat (mmio_virt_next s) mod 4096 = 0" using vs by (simp_all add: vspace_def)
  have "unat (0x20000 :: u64) = 0x20000" "unat (0x20000 :: u64) \<le> 2 ^ 40" by simp_all
  note sp = mmio_map_spec [OF v(1-4) this(2) m(1,2), unfolded this(1)]
  have "avail (phys s) - 99 \<le> avail (phys v)" using m(3) w by linarith
  moreover have "max_blocks (phys v) = max_blocks (phys s)" using mmio_map_max [of ph "0x20000" s] m(1) by simp
  ultimately have "Finite_Set.card (used_set (phys v)) + 35 < unat (max_blocks (phys v)) div 32"
    by (rule few_after_map [OF _ _ few])
  with m(1,2) sp show thesis by (intro that [of a v]) blast+
qed

lemma redirect_fields [simp]:
  "ienv (ioapic_redirect_irq ahw g v fl s) = ienv s" "ivmm (ioapic_redirect_irq ahw g v fl s) = ivmm s"
  "irq_routines_table (ioapic_redirect_irq ahw g v fl s) = irq_routines_table s"
  by (simp_all add: ioapic_redirect_irq_def ioapic_set_entry_def ioapic_write_def lapic_get_id_def lapic_read_def Let_def
      split: prod.split)

lemma e1000_start_ready:
  assumes inv: "pt_inv r (ivmm s)" and few: "Finite_Set.card (used_set (phys (ivmm s))) + 35 < unat (max_blocks (phys (ivmm s))) div 32"
    and rom: "eeprom_ok dev rom" and card: "card_present ahw bus slot func bar0 line"
    and t: "length (irq_routines_table s) = MAX_IRQS"
  obtains s' v n where "e1000_start ahw dev bus slot func s = Some (True, s')" "n = ienv s'" "v = ivmm s'"
    "nic_ok n" "mac n = rom_mac rom" "mmio_base n = mmio_base (ienv s)"
    "\<forall>i < 32. rxd_addr (rx_descs n ! i) = rx_bufs_phys n + of_nat (i * 2048) \<and> rxd_status (rx_descs n ! i) = 0"
    "\<forall>i < 8. txd_status (tx_descs n ! i) = E1000_TXD_STAT_DD"
    "irq_routines_table s' = (irq_routines_table s)[unat line := Some (e1000_isr dev)]"
    "pt_inv r v" "pmem v = pmem (ivmm s)"
    "disjoint_family_on (\<lambda>i. [used_set (phys (ivmm s)), area (rx_descs_phys n) 1, area (tx_descs_phys n) 1,
       area (rx_bufs_phys n) 32, area (tx_buf_phys n) 1] ! i) {..<5}"
proof -
  have ok: "frames_ok (phys (ivmm s))" using inv by (simp add: pt_inv_def)
  obtain rd td rb tb v where al: "alloc_areas (ivmm s) = ((rd, td, rb, tb), v)" and nz: "rd \<noteq> 0" "td \<noteq> 0" "rb \<noteq> 0" "tb \<noteq> 0"
    by (rule alloc_areas_succeeds [OF ok few])
  note ar = alloc_areas_spec [OF ok al nz]
  obtain p4 where v: "v = ivmm s\<lparr>phys := p4\<rparr>" using al by (auto simp: alloc_areas_def Let_def split: prod.splits)
  have pi: "pt_inv r v" using inv ar(1,2) by (auto simp: pt_inv_def v)
  let ?n0 = "ienv s\<lparr>rx_descs_phys := rd, tx_descs_phys := td, rx_bufs_phys := rb, tx_buf_phys := tb\<rparr>"
  obtain n1 where rm: "read_mac dev (set_areas v (rd, td, rb, tb) ?n0) = Some n1"
    and sd: "same_driver (set_areas v (rd, td, rb, tb) ?n0\<lparr>mac := rom_mac rom\<rparr>) n1"
    by (rule read_mac_rom [OF rom])
  let ?x = "E1000_ICR_TXDW OR E1000_ICR_RXT0 OR E1000_ICR_LSC OR E1000_ICR_RXO"
  define n2 where "n2 = e1000_write dev E1000_IMS ?x (tx_init dev (rx_init dev (set_receive_address dev n1)))"
  have "length (rom_mac rom) = 6" by (simp add: rom_mac_def)
  note st = card_started [OF sd this _ _ _ _ n2_def, simplified]
  obtain p where pb: "pci_readb (cpu_ports ahw) (ucast bus) (ucast slot) (ucast func) 0x3C (ihw s) = (line, p)"
    using card unfolding card_present_def by (metis prod.collapse)
  let ?s = "s\<lparr>ivmm := v, ienv := n2, ihw := p\<rparr>"
  have "int (unat line) < int MAX_IRQS" using card unfolding card_present_def of_nat_less_iff by blast
  then have "\<not> int MAX_IRQS \<le> uint line" by simp
  then have ih: "irq_install_handler ahw (int (unat line)) (e1000_isr dev) 0x9 ?s =
      Some (ioapic_redirect_irq ahw (int (unat line)) (int (unat line) + 32) 0x9
        (?s\<lparr>irq_routines_table := (irq_routines_table s)[unat line := Some (e1000_isr dev)]\<rparr>))"
    by (simp add: irq_install_handler_def)
  let ?s' = "ioapic_redirect_irq ahw (int (unat line)) (int (unat line) + 32) 0x9
        (?s\<lparr>irq_routines_table := (irq_routines_table s)[unat line := Some (e1000_isr dev)]\<rparr>)"
  have f: "ienv ?s' = n2" "ivmm ?s' = v" "irq_routines_table ?s' = (irq_routines_table s)[unat line := Some (e1000_isr dev)]"
    by simp_all
  have run: "e1000_start ahw dev bus slot func s = Some (True, ?s')"
    unfolding e1000_start_def al prod.case Let_def using nz rm pb ih by (simp add: n2_def)
  have b: "rx_descs_phys n2 = rd" "tx_descs_phys n2 = td" "rx_bufs_phys n2 = rb" "tx_buf_phys n2 = tb" using st(6) by simp_all
  show thesis
    by (rule that [OF run f(1) [symmetric] f(2) [symmetric] st(1-3) _ st(5) f(3) pi]) (use st(4) ar(3) v b in simp_all)
qed

text \<open>C36. \<open>e1000_init\<close> makes the card usable.  With a card that answers on the PCI bus, resets, and reads its
  EEPROM out in some number of looks, with room for its register window and with fewer blocks in use than the bitmap has
  words less 166, it returns true: its registers are mapped, the driver state is one that sending and receiving
  accept, the address is the one in the EEPROM, every receive descriptor points to its own 2048 bytes, every
  transmit descriptor is free, the handler is installed for the card's line and no other, the page tables stay well
  formed, and the four DMA areas overlap neither each other nor any frame that was in use.\<close>

theorem e1000_init_ready:
  assumes "vspace r 33 (ivmm s)"
    and "Finite_Set.card (used_set (phys (ivmm s))) + 166 < unat (max_blocks (phys (ivmm s))) div 32"
    and "card_present ahw bus slot func bar0 line" "resets dev" "eeprom_ok dev rom"
    and "length (irq_routines_table s) = MAX_IRQS"
  shows "\<exists>s' n. e1000_init ahw dev bus slot func s = Some (True, s') \<and> n = ienv s' \<and> nic_ok n \<and> mmio_base n \<noteq> 0 \<and>
     mac n = rom_mac rom \<and>
     (\<forall>k < 0x20000. vmm_get_phys r (mmio_base n + of_nat k) (ivmm s') = (ucast bar0 + of_nat k) AND PTE_ADDR_MASK) \<and>
     (\<forall>i < 32. rxd_addr (rx_descs n ! i) = rx_bufs_phys n + of_nat (i * 2048) \<and> rxd_status (rx_descs n ! i) = 0) \<and>
     (\<forall>i < 8. txd_status (tx_descs n ! i) = E1000_TXD_STAT_DD) \<and>
     irq_routines_table s' = (irq_routines_table s)[unat line := Some (e1000_isr dev)] \<and> pt_inv r (ivmm s') \<and>
     disjoint_family_on (\<lambda>i. [used_set (phys (snd (mmio_map (ucast bar0) 0x20000 (ivmm s)))),
       area (rx_descs_phys n) 1, area (tx_descs_phys n) 1, area (rx_bufs_phys n) 32, area (tx_buf_phys n) 1] ! i) {..<5}"
proof -
  let ?io = "cpu_ports ahw"
  obtain bar p where bar: "pci_readl ?io (ucast bus) (ucast slot) (ucast func) 0x10 (ihw s) = (bar, p)" by fastforce
  have b0: "bar AND NOT 0xF = bar0" "bar0 \<noteq> 0" using assms(3) bar unfolding card_present_def by (metis fst_conv)+
  obtain a v where m: "mmio_map (ucast bar0) 0x20000 (ivmm s) = (a, v)" "a \<noteq> 0" "pt_inv r v"
    "\<forall>k < 0x20000. vmm_get_phys r (a + of_nat k) v = (ucast bar0 + of_nat k) AND PTE_ADDR_MASK"
    "Finite_Set.card (used_set (phys v)) + 35 < unat (max_blocks (phys v)) div 32"
    by (rule registers_mapped [OF assms(1,2)])
  obtain cmd q where cmd: "pci_readw ?io (ucast bus) (ucast slot) (ucast func) 0x04 p = (cmd, q)" by fastforce
  let ?q = "pci_writew ?io (ucast bus) (ucast slot) (ucast func) 0x04 (cmd OR push_bit 1 1 OR push_bit 2 1) q"
  obtain n where n: "e1000_reset dev ((ienv s)\<lparr>mmio_base := a\<rparr>) = (True, n)"
    using assms(4) unfolding resets_def by (metis prod.collapse)
  let ?n = "clear_multicast dev (e1000_link_up dev n)"
  have "same_driver ((ienv s)\<lparr>mmio_base := a\<rparr>) ?n"
    using same_driver_reset [of "(ienv s)\<lparr>mmio_base := a\<rparr>" dev] same_driver_multicast [of n dev] n
    by (auto intro: same_driver_trans)
  then have base: "mmio_base ?n = a" by (auto simp: same_driver_def)
  let ?s = "s\<lparr>ivmm := v, ihw := ?q, ienv := ?n\<rparr>"
  have run: "e1000_init ahw dev bus slot func s = e1000_start ahw dev bus slot func ?s"
    using bar b0 m(1,2) cmd n by (simp add: e1000_init_def Let_def)
  obtain s' w n' where st: "e1000_start ahw dev bus slot func ?s = Some (True, s')" "n' = ienv s'" "w = ivmm s'"
    "nic_ok n'" "mac n' = rom_mac rom" "mmio_base n' = mmio_base (ienv ?s)"
    "\<forall>i < 32. rxd_addr (rx_descs n' ! i) = rx_bufs_phys n' + of_nat (i * 2048) \<and> rxd_status (rx_descs n' ! i) = 0"
    "\<forall>i < 8. txd_status (tx_descs n' ! i) = E1000_TXD_STAT_DD"
    "irq_routines_table s' = (irq_routines_table ?s)[unat line := Some (e1000_isr dev)]"
    "pt_inv r w" "pmem w = pmem (ivmm ?s)"
    "disjoint_family_on (\<lambda>i. [used_set (phys (ivmm ?s)), area (rx_descs_phys n') 1, area (tx_descs_phys n') 1,
       area (rx_bufs_phys n') 32, area (tx_buf_phys n') 1] ! i) {..<5}"
    by (rule e1000_start_ready [of r ?s, OF _ _ assms(5,3)]) (use m assms(6) in simp_all)
  have "pmem w = pmem v" using st(11) by simp
  then have "vmm_get_phys r x w = vmm_get_phys r x v" for x unfolding vmm_get_phys_pte_of pte_of_def by (simp only:)
  with st m base run show ?thesis by (intro exI [of _ s'] exI [of _ n']) simp
qed

text \<open>Witness: a card whose every register reads \<open>0x12340010\<close> and a PCI bus on which every register reads \<open>0xFEB0000B\<close>.\<close>

definition const_card :: "unit e1000_hw" where
  "const_card = \<lparr>hw_read = (\<lambda>_ n. (0x12340010, n)), hw_write = (\<lambda>_ _ n. n), hw_dma = (\<lambda>s. s)\<rparr>"

definition const_apic :: "unit apic_hw" where
  "const_apic = \<lparr>
     cpu_ports = \<lparr>io_inb = (\<lambda>_ d. (0, d)), io_outb = (\<lambda>_ _ d. d), io_inw = (\<lambda>_ d. (0, d)), io_outw = (\<lambda>_ _ d. d),
       io_inl = (\<lambda>_ d. (0xFEB0000B, d)), io_outl = (\<lambda>_ _ d. d)\<rparr>,
     lapic_load = (\<lambda>_ d. (0, d)), lapic_store = (\<lambda>_ _ d. d), ioapic_load = (\<lambda>_ d. (0, d)), ioapic_store = (\<lambda>_ _ d. d),
     msr_read = (\<lambda>_ _. 0), msr_write = (\<lambda>_ _ d. d), cpuid_regs = (\<lambda>_ _. (0, 0, 0, 0x200))\<rparr>"

definition cold_nic :: "unit nic" where
  "cold_nic = \<lparr>hw = (), mmio_base = 0, mac = [], rx_descs_phys = 0, tx_descs_phys = 0, rx_bufs_phys = 0, tx_buf_phys = 0,
     rx_descs = [], tx_descs = [], rx_bufs = [], tx_buf = [], rx_tail = 0, tx_tail = 0, rx_pending = False\<rparr>"

definition cold_kernel :: "(unit, unit nic) intr" where
  "cold_kernel = \<lparr>ihw = (), ienv = cold_nic, ivmm = root_vmm,
     idt_entries = [], idt_ptr = None, interrupts_on = False, interrupt_handlers = replicate 256 None,
     irq_routines_table = replicate 223 None, lapic_timer_tick = 0, lapic = 0, ioapic = 0, acpi_lapic_base = 0, acpi_ioapic_base = 0\<rparr>"

lemma root_vmm_few: "Finite_Set.card (used_set (phys root_vmm)) + 166 < unat (max_blocks (phys root_vmm)) div 32"
proof -
  obtain a p where al: "allocate_blocks 1 boot_pmm = (a, p)" by fastforce
  have "0 < avail boot_pmm" by (simp add: boot_pmm_avail)
  then have "a \<noteq> 0" using allocate_one_avail [OF boot_pmm_ok al] by simp
  note ar = allocate_area [OF boot_pmm_ok al this]
  have "phys root_vmm = p" using al \<open>a \<noteq> 0\<close> by (simp add: root_vmm_def alloc_table_def boot_vmm_def)
  then show ?thesis using ar(5,6) by (simp add: boot_pmm_used) (simp add: boot_pmm_def)
qed

lemma const_card_ok: "resets const_card" "eeprom_ok const_card (\<lambda>_. 0x1234)"
proof -
  have "fst (eerd_look const_card k n) = 0x12340010" for k n by (induction k arbitrary: n) (simp_all add: const_card_def)
  then show "eeprom_ok const_card (\<lambda>_. 0x1234)" by (simp add: eeprom_ok_def Let_def)
  show "resets const_card"
    by (simp add: resets_def e1000_reset_def e1000_read_def e1000_write_def const_card_def E1000_CTRL_RST_def Let_def)
qed

lemma const_card_present: "card_present const_apic 0 3 0 0xFEB00000 11"
  by (simp add: card_present_def const_apic_def pci_readl_def pci_readb_def MAX_IRQS_def)

theorem e1000_init_ready_witness:
  "\<exists>s'. e1000_init const_apic const_card 0 3 0 cold_kernel = Some (True, s') \<and> nic_ok (ienv s') \<and>
     mac (ienv s') = [0x34, 0x12, 0x34, 0x12, 0x34, 0x12] \<and>
     irq_routines_table s' ! 11 = Some (e1000_isr const_card)"
proof -
  have vs: "vspace root_table 33 (ivmm cold_kernel)" using root_vmm_ok root_vmm_next by (simp add: vspace_def cold_kernel_def)
  have few: "Finite_Set.card (used_set (phys (ivmm cold_kernel))) + 166 < unat (max_blocks (phys (ivmm cold_kernel))) div 32"
    using root_vmm_few by (simp add: cold_kernel_def)
  have len: "length (irq_routines_table cold_kernel) = MAX_IRQS" by (simp add: cold_kernel_def MAX_IRQS_def)
  have "rom_mac (\<lambda>_. 0x1234) = [0x34, 0x12, 0x34, 0x12, 0x34, 0x12]" by (simp add: rom_mac_def)
  with e1000_init_ready [OF vs few const_card_present const_card_ok len] len show ?thesis by (auto simp: MAX_IRQS_def)
qed

end
