(* ===== verification/Boot_Entry.thy ===== *)
theory Boot_Entry
  imports Pmm_Boot Framebuffer
begin

unbundle bit_operations_syntax

text \<open>
  The first C function of the kernel, \<open>multiboot2_main\<close> of \<open>kernel/boot/multiboot2_entry.c\<close>, and the hand-over
  of what it finds to \<open>initialize_memory_manager_from_mbi\<close>.

  The Multiboot2 structure is read from the same byte memory the physical memory manager reads it from.  The globals
  the function sets are the fields of \<open>boot_info\<close>; the frame-buffer globals are those of the \<open>screen\<close>.
  A wrong magic number halts the machine for ever and a zero size makes a loop run for ever: both are \<open>None\<close>.
\<close>

section \<open>State\<close>

record boot_info =
  g_mbi_addr :: u64
  g_multiboot2_magic :: u64
  memsize_grub :: u32
  acpi_info_grub :: u64
  max_addr_used :: u64
  boot_scr :: screen

definition MULTIBOOT2_BOOTLOADER_MAGIC :: u32 where
  "MULTIBOOT2_BOOTLOADER_MAGIC = 0x36D76289"

definition MULTIBOOT2_TAG_TYPE_BASIC_MEMINFO :: u32 where
  "MULTIBOOT2_TAG_TYPE_BASIC_MEMINFO = 4"

definition MULTIBOOT2_TAG_TYPE_FRAMEBUFFER :: u32 where
  "MULTIBOOT2_TAG_TYPE_FRAMEBUFFER = 8"

definition MULTIBOOT2_TAG_TYPE_ACPI_OLD :: u32 where
  "MULTIBOOT2_TAG_TYPE_ACPI_OLD = 14"

definition MULTIBOOT2_TAG_TYPE_ACPI_NEW :: u32 where
  "MULTIBOOT2_TAG_TYPE_ACPI_NEW = 15"

section \<open>The tag loop\<close>

text \<open>\<open>MULTIBOOT2_TAG_NEXT\<close>: the complement of the 32-bit constant clears the upper half of the address too.\<close>

definition MULTIBOOT2_TAG_NEXT :: "ram \<Rightarrow> u64 \<Rightarrow> u64" where
  "MULTIBOOT2_TAG_NEXT m tag = (tag + ucast (load32 m (tag + 4)) + 7) AND ucast (NOT (7 :: u32))"

definition raise_max :: "u64 \<Rightarrow> u64 \<Rightarrow> u64 \<Rightarrow> u64" where
  "raise_max base len mx = (let region_end = base + len in if region_end > mx then region_end else mx)"

partial_function (option) scan_entries :: "ram \<Rightarrow> u64 \<Rightarrow> u64 \<Rightarrow> u64 \<Rightarrow> u64 option" where
  "scan_entries m tag entry mx =
     (if entry < tag + ucast (load32 m (tag + 4))
      then scan_entries m tag (entry + ucast (load32 m (tag + 8)))
             (if load32 m (entry + 16) = MULTIBOOT2_MEMORY_AVAILABLE
              then raise_max (load64 m entry) (load64 m (entry + 8)) mx else mx)
      else Some mx)"

definition framebuffer_tag :: "ram \<Rightarrow> u64 \<Rightarrow> fb_info" where
  "framebuffer_tag m tag =
     \<lparr>fi_addr = load64 m (tag + 8), fi_width = load32 m (tag + 20), fi_height = load32 m (tag + 24),
      fi_pitch = load32 m (tag + 16), fi_bpp = m (tag + 28)\<rparr>"

definition set_framebuffer :: "fb_info \<Rightarrow> screen \<Rightarrow> screen" where
  "set_framebuffer i s =
     fb_init (fi_addr i) (fi_width i) (fi_height i) (fi_pitch i) (fi_bpp i) (s\<lparr>g_fb := i\<rparr>)"

text \<open>The \<open>switch\<close> over the type of one tag, the end tag apart.\<close>

definition handle_tag :: "ram \<Rightarrow> u64 \<Rightarrow> boot_info \<Rightarrow> boot_info option" where
  "handle_tag m tag b =
     (let type = load32 m tag in
      if type = MULTIBOOT2_TAG_TYPE_FRAMEBUFFER
      then Some (b\<lparr>boot_scr := set_framebuffer (framebuffer_tag m tag) (boot_scr b)\<rparr>)
      else if type = MULTIBOOT2_TAG_TYPE_BASIC_MEMINFO
      then Some (b\<lparr>memsize_grub := load32 m (tag + 8) * load32 m (tag + 12)\<rparr>)
      else if type = MULTIBOOT2_TAG_TYPE_ACPI_NEW \<or> type = MULTIBOOT2_TAG_TYPE_ACPI_OLD
      then Some (b\<lparr>acpi_info_grub := tag\<rparr>)
      else if type = MULTIBOOT2_TAG_TYPE_MMAP
      then map_option (\<lambda>mx. b\<lparr>max_addr_used := mx\<rparr>) (scan_entries m tag (tag + 16) (max_addr_used b))
      else Some b)"

partial_function (option) scan_tags :: "ram \<Rightarrow> u64 \<Rightarrow> boot_info \<Rightarrow> boot_info option" where
  "scan_tags m tag b =
     (if load32 m tag = MULTIBOOT2_TAG_TYPE_END then Some b
      else Option.bind (handle_tag m tag b) (\<lambda>b'. scan_tags m (MULTIBOOT2_TAG_NEXT m tag) b'))"

text \<open>The result is the state in which \<open>_entry\<close> is called with \<open>mbi_addr\<close>.\<close>

definition multiboot2_main :: "ram \<Rightarrow> u64 \<Rightarrow> u64 \<Rightarrow> boot_info \<Rightarrow> boot_info option" where
  "multiboot2_main m magic mbi_addr b =
     (let b = b\<lparr>g_multiboot2_magic := magic, g_mbi_addr := mbi_addr\<rparr> in
      if magic \<noteq> ucast MULTIBOOT2_BOOTLOADER_MAGIC then None
      else scan_tags m (mbi_addr + 8) b)"

section \<open>What a Multiboot2 structure says\<close>

datatype mb_tag =
    Mb_Mmap "(u64 \<times> u64) list"
  | Mb_Framebuffer fb_info
  | Mb_Meminfo u32 u32
  | Mb_Acpi u64
  | Mb_Other

fun regions :: "mb_tag \<Rightarrow> (u64 \<times> u64) list" where
  "regions (Mb_Mmap rs) = rs"
| "regions _ = []"

text \<open>A tag that is neither a memory map nor the end.\<close>

definition plain_tag :: "ram \<Rightarrow> u64 \<Rightarrow> mb_tag" where
  "plain_tag m tag =
     (if load32 m tag = MULTIBOOT2_TAG_TYPE_FRAMEBUFFER then Mb_Framebuffer (framebuffer_tag m tag)
      else if load32 m tag = MULTIBOOT2_TAG_TYPE_BASIC_MEMINFO
      then Mb_Meminfo (load32 m (tag + 8)) (load32 m (tag + 12))
      else if load32 m tag \<in> {MULTIBOOT2_TAG_TYPE_ACPI_NEW, MULTIBOOT2_TAG_TYPE_ACPI_OLD} then Mb_Acpi tag
      else Mb_Other)"

text \<open>\<open>mbi_at R m e tag ts\<close>: from \<open>tag\<close> on, the structure that ends at \<open>e\<close> holds the tags \<open>ts\<close> and an end tag;
  tags are 8-byte aligned and below 4 GiB, and the bytes consulted lie in \<open>R\<close>.\<close>

inductive mbi_at :: "u64 set \<Rightarrow> ram \<Rightarrow> u64 \<Rightarrow> u64 \<Rightarrow> mb_tag list \<Rightarrow> bool" for R m mbi_end where
  mbi_end: "tag < mbi_end \<Longrightarrow> byte_span tag 4 \<subseteq> R \<Longrightarrow> load32 m tag = MULTIBOOT2_TAG_TYPE_END \<Longrightarrow>
     mbi_at R m mbi_end tag []"
| mbi_mmap: "tag < mbi_end \<Longrightarrow> byte_span tag 8 \<subseteq> R \<Longrightarrow> load32 m tag = MULTIBOOT2_TAG_TYPE_MMAP \<Longrightarrow>
     8 dvd unat tag \<Longrightarrow> unat tag + unat (load32 m (tag + 4)) + 8 \<le> 2 ^ 32 \<Longrightarrow>
     entries_at R m tag (tag + 16) rs \<Longrightarrow>
     mbi_at R m mbi_end (MULTIBOOT2_TAG_NEXT m tag) ts \<Longrightarrow>
     mbi_at R m mbi_end tag (Mb_Mmap rs # ts)"
| mbi_plain: "tag < mbi_end \<Longrightarrow> byte_span tag 8 \<subseteq> R \<Longrightarrow> load32 m tag \<noteq> MULTIBOOT2_TAG_TYPE_MMAP \<Longrightarrow>
     load32 m tag \<noteq> MULTIBOOT2_TAG_TYPE_END \<Longrightarrow>
     8 dvd unat tag \<Longrightarrow> unat tag + unat (load32 m (tag + 4)) + 8 \<le> 2 ^ 32 \<Longrightarrow>
     mbi_at R m mbi_end (MULTIBOOT2_TAG_NEXT m tag) ts \<Longrightarrow>
     mbi_at R m mbi_end tag (plain_tag m tag # ts)"

text \<open>The effect of one tag on the boot state.\<close>

fun apply_tag :: "mb_tag \<Rightarrow> boot_info \<Rightarrow> boot_info" where
  "apply_tag (Mb_Mmap rs) b = b\<lparr>max_addr_used := fold (\<lambda>(a, l) mx. max mx (a + l)) rs (max_addr_used b)\<rparr>"
| "apply_tag (Mb_Framebuffer i) b = b\<lparr>boot_scr := set_framebuffer i (boot_scr b)\<rparr>"
| "apply_tag (Mb_Meminfo lo up) b = b\<lparr>memsize_grub := lo * up\<rparr>"
| "apply_tag (Mb_Acpi a) b = b\<lparr>acpi_info_grub := a\<rparr>"
| "apply_tag Mb_Other b = b"

lemma raise_max_alt: "raise_max a l mx = max mx (a + l)"
  by (auto simp: raise_max_def Let_def max_def)

lemma scan_entries_result:
  "entries_at R m tag entry rs \<Longrightarrow>
     scan_entries m tag entry mx = Some (fold (\<lambda>(a, l) mx. max mx (a + l)) rs mx)"
  by (induction arbitrary: mx rule: entries_at.induct)
    (subst scan_entries.simps, simp add: raise_max_alt)+

lemma handle_tag_plain:
  "load32 m tag \<noteq> MULTIBOOT2_TAG_TYPE_MMAP \<Longrightarrow> handle_tag m tag b = Some (apply_tag (plain_tag m tag) b)"
  by (simp add: handle_tag_def plain_tag_def Let_def)

lemma handle_tag_mmap:
  "load32 m tag = MULTIBOOT2_TAG_TYPE_MMAP \<Longrightarrow> entries_at R m tag (tag + 16) rs \<Longrightarrow>
     handle_tag m tag b = Some (apply_tag (Mb_Mmap rs) b)"
  by (simp add: handle_tag_def Let_def scan_entries_result MULTIBOOT2_TAG_TYPE_MMAP_def
      MULTIBOOT2_TAG_TYPE_FRAMEBUFFER_def MULTIBOOT2_TAG_TYPE_BASIC_MEMINFO_def
      MULTIBOOT2_TAG_TYPE_ACPI_NEW_def MULTIBOOT2_TAG_TYPE_ACPI_OLD_def)

lemma scan_tags_result: "mbi_at R m e tag ts \<Longrightarrow> scan_tags m tag b = Some (fold apply_tag ts b)"
proof (induction arbitrary: b rule: mbi_at.induct)
  case (mbi_end tag)
  then show ?case by (subst scan_tags.simps) simp
next
  case (mbi_mmap tag rs ts)
  have "load32 m tag \<noteq> MULTIBOOT2_TAG_TYPE_END"
    using mbi_mmap.hyps(3) by (simp add: MULTIBOOT2_TAG_TYPE_MMAP_def MULTIBOOT2_TAG_TYPE_END_def)
  with mbi_mmap show ?case
    by (subst scan_tags.simps) (simp add: handle_tag_mmap del: apply_tag.simps)
next
  case (mbi_plain tag ts)
  then show ?case by (subst scan_tags.simps) (simp add: handle_tag_plain)
qed

text \<open>The two walks over the structure step to the same tags.\<close>

lemma tag_next_same:
  assumes "8 dvd unat tag" "unat tag + unat (load32 m (tag + 4)) + 8 \<le> 2 ^ 32"
  shows "MULTIBOOT2_TAG_NEXT m tag = tag + ucast ((load32 m (tag + 4) + 7) AND NOT 7)"
proof -
  let ?sz = "load32 m (tag + 4)"
  have m7: "(7 :: u32) = mask 3" "(7 :: u64) = mask 3" by (simp_all add: mask_eq_exp_minus_1)
  have less: "unat (tag + ucast ?sz + 7) = unat tag + unat ?sz + 7"
    using assms(2) by (simp add: unat_word_ariths)
  have sz: "unat (?sz + 7) = unat ?sz + 7" using assms(2) by (simp add: unat_word_ariths)
  have clear: "unat (push_bit 3 (drop_bit 3 (w :: 'a::len word))) = 8 * (unat w div 8)" for w
    using unat_push_drop_bit [of 3 w] by simp
  have "ucast (NOT (7 :: u32)) = (mask 32 AND NOT (mask 3) :: u64)"
    by (rule bit_eqI) (auto simp: m7(1) bit_simps simp del: bit_numeral_word_iff)
  then have "MULTIBOOT2_TAG_NEXT m tag = take_bit 32 (push_bit 3 (drop_bit 3 (tag + ucast ?sz + 7)))"
    by (simp add: MULTIBOOT2_TAG_NEXT_def and_not_mask [symmetric] take_bit_eq_mask ac_simps)
  then have l: "unat (MULTIBOOT2_TAG_NEXT m tag) = 8 * ((unat tag + unat ?sz + 7) div 8)"
    using assms(2) by (simp add: unsigned_take_bit_eq clear less)
      (subst take_bit_nat_eq_self, auto)
  have "unat (ucast ((?sz + 7) AND NOT 7) :: u64) = 8 * ((unat ?sz + 7) div 8)"
    using sz clear [of "?sz + 7"] and_not_mask [of "?sz + 7" 3] by (simp add: m7(1) [symmetric])
  moreover obtain k where "unat tag = 8 * k" using assms(1) by blast
  ultimately have "unat (tag + ucast ((?sz + 7) AND NOT 7)) = 8 * ((unat tag + unat ?sz + 7) div 8)"
    using assms(2) by (simp add: unat_word_ariths add.assoc)
  with l show ?thesis by (metis word_unat_eq_iff)
qed

lemma mbi_at_tags_at: "mbi_at R m e tag ts \<Longrightarrow> tags_at R m e tag (concat (map regions ts))"
proof (induction rule: mbi_at.induct)
  case (mbi_end tag)
  then show ?case by (simp add: tags_end)
next
  case (mbi_mmap tag rs ts)
  from tags_mmap [OF mbi_mmap.hyps(1-3,6) mbi_mmap.IH [unfolded tag_next_same [OF mbi_mmap.hyps(4,5)]]]
  show ?case by simp
next
  case (mbi_plain tag ts)
  have "regions (plain_tag m tag) = []" by (simp add: plain_tag_def)
  with tags_other [OF mbi_plain.hyps(1-4) mbi_plain.IH [unfolded tag_next_same [OF mbi_plain.hyps(5,6)]]]
  show ?case by simp
qed

section \<open>From the boot loader to the free-block bitmap\<close>

definition regions_end :: "(u64 \<times> u64) list \<Rightarrow> u64" where
  "regions_end rs = fold (\<lambda>(a, l) mx. max mx (a + l)) rs 0"

lemma apply_tag_max:
  "max_addr_used (apply_tag t b) = fold (\<lambda>(a, l) mx. max mx (a + l)) (regions t) (max_addr_used b)"
  by (cases t) simp_all

lemma apply_tags_max:
  "max_addr_used (fold apply_tag ts b) =
     fold (\<lambda>(a, l) mx. max mx (a + l)) (concat (map regions ts)) (max_addr_used b)"
  by (induction ts arbitrary: b) (simp_all add: apply_tag_max)

lemma fold_max_ge:
  fixes mx :: u64
  shows "mx \<le> fold (\<lambda>(a, l) mx. max mx (a + l)) rs mx"
    "(a, l) \<in> set rs \<Longrightarrow> a + l \<le> fold (\<lambda>(a, l) mx. max mx (a + l)) rs mx"
proof (induction rs arbitrary: mx)
  case (Cons r rs)
  obtain a' l' where r: "r = (a', l')" by (cases r)
  { case 1 show ?case using Cons(1) [of "max mx (a' + l')"] r by simp }
  { case 2 then show ?case
      using Cons(1) [of "max mx (a' + l')"] Cons(2) [of "max mx (a' + l')"] r by auto }
qed simp_all

text \<open>A region that does not wrap lies within the blocks the bitmap covers.\<close>

lemma region_covered:
  assumes "(a, l) \<in> set rs" "unat a + unat l < 2 ^ 64" "regions_end rs \<le> 2 ^ 44"
    "x \<in> region_blocks a l"
  shows "x < unat ((regions_end rs + BLOCK_SIZE - 1) div BLOCK_SIZE)"
proof -
  let ?e = "unat (regions_end rs)"
  have sum: "unat (a + l) = unat a + unat l" using assms(2) by (simp add: unat_add_small)
  have "unat (a + l) \<le> ?e"
    using fold_max_ge(2) [OF assms(1), of 0] by (simp add: regions_end_def word_le_nat_alt)
  moreover have e: "?e \<le> 2 ^ 44" using assms(3) by (simp add: word_le_nat_alt)
  ultimately have le: "unat a + unat l \<le> ?e" "unat l \<le> 2 ^ 44" using sum by linarith+
  have "unat ((l + 4095) div 4096) = (unat l + 4095) div 4096" using le(2) by (simp add: unat_word_ariths)
  with assms(4) have "x < unat a div 4096 + (unat l + 4095) div 4096" by (simp add: region_blocks_def)
  moreover have "unat ((regions_end rs + 4095) div 4096) = (?e + 4095) div 4096"
    using e by (simp add: unat_word_ariths)
  ultimately show ?thesis using le(1) unfolding region_num_blocks by linarith
qed

lemma boot_result:
  fixes ks :: u64
  assumes mbi: "mbi_at R m (mbi_addr + ucast (load32 m mbi_addr)) (mbi_addr + 8) ts"
    and fresh: "max_addr_used b = 0"
    and rs: "rs = concat (map regions ts)"
    and fit: "\<forall>(a, l) \<in> set rs. unat a + unat l < 2 ^ 64" "0 < regions_end rs" "regions_end rs \<le> 2 ^ 44"
    and apart: "R \<inter> map_region (pmm_setup m ke (regions_end rs)) = {}"
  defines "b' \<equiv> fold apply_tag ts (b\<lparr>g_multiboot2_magic := ucast MULTIBOOT2_BOOTLOADER_MAGIC, g_mbi_addr := mbi_addr\<rparr>)"
    and "s \<equiv> pmm_reserve_boot ks ke mbi_addr (load32 m mbi_addr) (free_all rs (pmm_setup m ke (regions_end rs)))"
  shows "multiboot2_main m (ucast MULTIBOOT2_BOOTLOADER_MAGIC) mbi_addr b = Some b'" "max_addr_used b' = regions_end rs"
    "initialize_memory_manager_from_mbi m ks ke (regions_end rs) mbi_addr = Some s"
    "max_blocks s = max_blocks (pmm_setup m ke (regions_end rs))" "bitmap_base s = bitmap_base (pmm_setup m ke (regions_end rs))"
    "0 < unat (max_blocks s)" "unat (max_blocks s) \<le> 2 ^ 32"
    "{..<unat (max_blocks s)} - used_set s =
       (\<Union>(a, l) \<in> set rs. region_blocks a l) -
       insert 0 (region_blocks ks (ke - ks) \<union> region_blocks mbi_addr (ucast (load32 m mbi_addr)) \<union>
         region_blocks (bitmap_base s) (bitmap_bytes (max_blocks s)) \<union>
         region_blocks AP_TRAMPOLINE_ADDR AP_TRAMPOLINE_SIZE)"
proof -
  let ?init = "pmm_setup m ke (regions_end rs)"
  let ?n = "unat (max_blocks ?init)"
  have e: "unat (regions_end rs) \<le> 2 ^ 44" "0 < unat (regions_end rs)"
    using fit(2,3) by (simp_all add: word_le_nat_alt word_less_nat_alt)
  then have n: "0 < ?n" "?n \<le> 2 ^ 32"
    unfolding pmm_setup_fields region_num_blocks by (simp_all add: unat_word_ariths)
  show "multiboot2_main m (ucast MULTIBOOT2_BOOTLOADER_MAGIC) mbi_addr b = Some b'"
    using scan_tags_result [OF mbi] by (simp add: multiboot2_main_def Let_def b'_def)
  show "max_addr_used b' = regions_end rs"
    using fresh by (simp add: apply_tags_max regions_end_def rs b'_def)
  show "initialize_memory_manager_from_mbi m ks ke (regions_end rs) mbi_addr = Some s"
    using initialize_memory_manager_result [OF mbi_at_tags_at [OF mbi] _ n(2)] apart by (simp add: rs s_def)
  show f: "max_blocks s = max_blocks ?init" "bitmap_base s = bitmap_base ?init"
    by (simp_all add: s_def pmm_reserve_boot_def Let_def set_block_def)
  show "0 < unat (max_blocks s)" "unat (max_blocks s) \<le> 2 ^ 32" unfolding f by (rule n)+
  have "(\<Union>(a, l) \<in> set rs. region_blocks a l) \<subseteq> {..<?n}"
    using fit(1) region_covered [OF _ _ fit(3)] by fastforce
  moreover have "used_set s = used_set (free_all rs ?init) \<union> (insert 0 (region_blocks ks (ke - ks) \<union>
       region_blocks mbi_addr (ucast (load32 m mbi_addr)) \<union>
       region_blocks (bitmap_base ?init) (bitmap_bytes (max_blocks ?init)) \<union>
       region_blocks AP_TRAMPOLINE_ADDR AP_TRAMPOLINE_SIZE) \<inter> {..<?n})"
    using pmm_reserve_boot_used [of "free_all rs ?init" ks ke mbi_addr "load32 m mbi_addr"] n
    by (simp add: s_def del: pmm_setup_fields)
  moreover have "used_set (free_all rs ?init) = {..<?n} - (\<Union>(a, l) \<in> set rs. region_blocks a l)"
    using used_set_free_all [OF n(2)] pmm_setup_used by (simp del: pmm_setup_fields)
  ultimately show "{..<unat (max_blocks s)} - used_set s =
       (\<Union>(a, l) \<in> set rs. region_blocks a l) -
       insert 0 (region_blocks ks (ke - ks) \<union> region_blocks mbi_addr (ucast (load32 m mbi_addr)) \<union>
         region_blocks (bitmap_base s) (bitmap_bytes (max_blocks s)) \<union>
         region_blocks AP_TRAMPOLINE_ADDR AP_TRAMPOLINE_SIZE)"
    unfolding f by (auto simp del: pmm_setup_fields)
qed

text \<open>C3. A Multiboot2 structure that parses into the tags \<open>ts\<close>, with available regions that do not wrap and end at
  or below \<open>2\<^sup>4\<^sup>4\<close> bytes, makes \<open>multiboot2_main\<close> reach \<open>_entry\<close> with exactly the effects of these
  tags, the highest end of an available region in \<open>max_addr_used\<close> among them; and the memory manager that \<open>_entry\<close>
  then initialises with this limit has exactly these blocks free: the blocks of the available regions, less block 0, the
  kernel, the Multiboot2 structure, the bitmap and the AP trampoline.  No available memory is lost to the limit.\<close>

theorem boot_frees_available_memory:
  assumes mbi: "mbi_at R m (mbi_addr + ucast (load32 m mbi_addr)) (mbi_addr + 8) ts"
    and fresh: "max_addr_used b = 0"
    and rs: "rs = concat (map regions ts)"
    and fit: "\<forall>(a, l) \<in> set rs. unat a + unat l < 2 ^ 64" "0 < regions_end rs" "regions_end rs \<le> 2 ^ 44"
    and apart: "R \<inter> map_region (pmm_setup m ke (regions_end rs)) = {}"
  shows "\<exists>b' s. multiboot2_main m (ucast MULTIBOOT2_BOOTLOADER_MAGIC) mbi_addr b = Some b' \<and>
     b' = fold apply_tag ts (b\<lparr>g_multiboot2_magic := ucast MULTIBOOT2_BOOTLOADER_MAGIC, g_mbi_addr := mbi_addr\<rparr>) \<and>
     max_addr_used b' = regions_end rs \<and>
     initialize_memory_manager_from_mbi m ks ke (max_addr_used b') mbi_addr = Some s \<and>
     {..<unat (max_blocks s)} - used_set s =
       (\<Union>(a, l) \<in> set rs. region_blocks a l) -
       insert 0 (region_blocks ks (ke - ks) \<union> region_blocks mbi_addr (ucast (load32 m mbi_addr)) \<union>
         region_blocks (bitmap_base s) (bitmap_bytes (max_blocks s)) \<union>
         region_blocks AP_TRAMPOLINE_ADDR AP_TRAMPOLINE_SIZE)"
  using boot_result(1,2) [OF assms] boot_result(3,8) [OF assms, where ks = ks] by metis

section \<open>Witness\<close>

lemma boot_mbi: "mbi_at (byte_span 0x10000 64) boot_ram (0x10000 + ucast (load32 boot_ram 0x10000)) (0x10000 + 8)
    [Mb_Mmap [(0, 0x8000000)]]"
proof -
  have span: "byte_span (0x10000 + of_nat k) n \<subseteq> byte_span 0x10000 64" if "k + n \<le> 64" for k n
    using byte_span_sub [OF subset_refl that] .
  have nxt: "MULTIBOOT2_TAG_NEXT boot_ram 0x10008 = 0x10030"
    by (simp add: MULTIBOOT2_TAG_NEXT_def boot_ram_loads)
  have "mbi_at (byte_span 0x10000 64) boot_ram 0x10038 (MULTIBOOT2_TAG_NEXT boot_ram 0x10008) []"
    unfolding nxt
    by (rule mbi_end) (use span [of 48 4] in \<open>simp_all add: boot_ram_loads MULTIBOOT2_TAG_TYPE_END_def\<close>)
  from mbi_mmap [OF _ _ _ _ _ _ this] show ?thesis
    using span [of 8 8] boot_entries by (simp add: boot_ram_loads MULTIBOOT2_TAG_TYPE_MMAP_def)
qed

lemma boot_regions_end: "regions_end [(0, 0x8000000)] = 0x8000000"
  by (simp add: regions_end_def max_def)

theorem boot_frees_available_memory_witness:
  "\<exists>b s. multiboot2_main boot_ram (ucast MULTIBOOT2_BOOTLOADER_MAGIC) 0x10000
      \<lparr>g_mbi_addr = 0, g_multiboot2_magic = 0, memsize_grub = 0, acpi_info_grub = 0, max_addr_used = 0,
       boot_scr = sample_screen\<rparr> = Some b \<and>
     max_addr_used b = 0x8000000 \<and>
     initialize_memory_manager_from_mbi boot_ram 0x100000 0x180000 (max_addr_used b) 0x10000 = Some s"
  using boot_frees_available_memory [OF boot_mbi, where ks = "0x100000" and ke = "0x180000" and
      rs = "[(0, 0x8000000)]" and b = "\<lparr>g_mbi_addr = 0, g_multiboot2_magic = 0, memsize_grub = 0,
       acpi_info_grub = 0, max_addr_used = 0, boot_scr = sample_screen\<rparr>"] boot_apart
  by (auto simp: boot_regions_end)

end
