(* ===== verification/Layouts.thy ===== *)
theory Layouts
  imports Shell_Props
begin

unbundle bit_operations_syntax

text \<open>
  What can be typed with the layouts of \<open>kernel/layouts/kb_layouts.c\<close>.
\<close>

section \<open>Typing\<close>

text \<open>The keys of the letters from \<open>a\<close> to \<open>z\<close>, the same on every layout.\<close>

definition letter_keys :: "u8 list" where
  "letter_keys = [0x1E, 0x30, 0x2E, 0x20, 0x12, 0x21, 0x22, 0x23, 0x17, 0x24, 0x25, 0x26, 0x32, 0x31, 0x18, 0x19, 0x10, 0x13, 0x1F, 0x14, 0x16, 0x2F, 0x11, 0x2D, 0x15, 0x2C]"

definition letters :: "u8 list" where
  "letters = [97, 98, 99, 100, 101, 102, 103, 104, 105, 106, 107, 108, 109, 110, 111, 112, 113, 114, 115, 116, 117, 118, 119, 120, 121, 122]"

lemma letters_printable: "list_all (\<lambda>c. 0x20 \<le> c) letters"
  by (simp add: letters_def)

lemma layout_length: "L \<in> set LAYOUTS \<Longrightarrow> length (lower L) = 128 \<and> length (upper_case L) = 128"
  by (auto simp: LAYOUTS_def us_lower_def us_upper_def swe_lower_def swe_upper_def uk_lower_def uk_upper_def)

lemma layout_letters:
  assumes "L \<in> set LAYOUTS"
  shows "map (\<lambda>sc. lower L ! unat sc) letter_keys = letters" "lower L ! 0x1C = 10"
  using assms by (auto simp: LAYOUTS_def us_lower_def swe_lower_def uk_lower_def letter_keys_def letters_def)

lemma letter_plain: "list_all plain_key (0x1C # letter_keys)"
  by (simp add: letter_keys_def plain_key_def KEY_UP_def KEY_DOWN_def LEFT_SHIFT_SC_def RIGHT_SHIFT_SC_def CAPS_LOCK_SC_def)

lemma letter_key:
  assumes L: "L \<in> set LAYOUTS" and c: "c \<in> set letters"
  shows "\<exists>sc. plain_key sc \<and> lower L ! unat sc = c"
proof -
  have "c \<in> (\<lambda>sc. lower L ! unat sc) ` set letter_keys" using c unfolding layout_letters(1) [OF L, symmetric] by simp
  then show ?thesis using letter_plain by (auto simp: list_all_iff)
qed

lemma types_word:
  assumes L: "L \<in> set LAYOUTS" and cs: "set cs \<subseteq> set letters"
  shows "\<exists>ks. types (lower L) [cs] (ks @ [0x1C]) []"
proof -
  obtain key where key: "\<And>c. c \<in> set letters \<Longrightarrow> plain_key (key c) \<and> lower L ! unat (key c) = c"
    using letter_key [OF L] by metis
  have big: "0x20 \<le> c" if "c \<in> set letters" for c using that letters_printable by (simp add: list_all_iff)
  have "list_all plain_key (map key cs @ [0x1C])" using cs key letter_plain by (auto simp: list_all_iff)
  moreover have "list_all (\<lambda>sc. 0x20 \<le> lower L ! unat sc) (map key cs)" using cs key big by (fastforce simp: list_all_iff)
  moreover have "cs = map (\<lambda>sc. lower L ! unat sc) (map key cs)" using cs key by (induction cs) auto
  ultimately show ?thesis using layout_letters(2) [OF L] types_line [of "map key cs" "0x1C" "lower L" cs "[]" "[]" "[]"]
    by (intro exI [of _ "map key cs"]) simp
qed

text \<open>Every command of the shell can be typed with plain keys on every layout.\<close>

theorem commands_typable:
  assumes "L \<in> set LAYOUTS" "(name, f) \<in> set (commands w)"
  shows "\<exists>ks. types (lower L) [ascii name] (ks @ [0x1C]) []"
proof -
  have "list_all (\<lambda>c. set (ascii (fst c)) \<subseteq> set letters) (commands w)"
    by (simp add: commands_def ascii_def letters_def)
  then have "set (ascii name) \<subseteq> set letters" using assms(2) by (fastforce simp: list_all_iff)
  then show ?thesis by (rule types_word [OF assms(1)])
qed

text \<open>After \<open>set_layout\<close> the keyboard is one that the shell's rounds accept.\<close>

theorem set_layout_ok:
  assumes "L \<in> set LAYOUTS" "\<not> kb_ready k"
  shows "kb_ok (set_layout L k)"
  using assms by (simp add: kb_ok_def set_layout_def kb_table_def)

end
