(* ===== verification/Kernel_Entry.thy ===== *)
theory Kernel_Entry
  imports Boot_Entry Vmm_Props Heap Acpi E1000_Init Mouse Pci_Enum Ata Shell_Run Layouts
begin

unbundle bit_operations_syntax

text \<open>
  The start of the kernel, \<open>_entry\<close> of \<open>kernel/kernel.c\<close>: memory, interrupts, devices, in the order of the code.

  The state of the kernel joins the states of its components; each step takes the parts that the called function
  works on and puts them back.  Handlers of interrupts act on the devices: the keyboard, the mouse with the terminal, and the
  network stack with its card.  \<open>None\<close> is a halt or undefined behaviour.  No interrupt is taken during \<open>_entry\<close>.  The messages before
  \<open>terminal_clear\<close>, which erases them, are left out, as in the components.
\<close>

section \<open>State\<close>

record 'n devices =
  dv_kb :: keyboard
  dv_mouse :: "terminal mouse"
  dv_net :: "'n net_state"

record ('p, 'n) kernel =
  k_ram :: ram
  k_heap :: heap
  k_intr :: "('p, 'n devices) intr"
  k_fadt :: u64
  k_pci :: pci_bus
  k_present :: "bool list"
  k_drives :: "'p ata kdrive option list"
  k_mounted :: "'p ata drive_fs option"

text \<open>The hardware, the addresses of the linker and of the assembly entry points, and the font.\<close>

record ('p, 'n) machine =
  mc_cpu :: "'p apic_hw"
  mc_card :: "'n e1000_hw"
  mc_font :: font
  mc_kernel_start :: u64
  mc_kernel_end :: u64
  mc_idt_addr :: u64
  mc_isr_stubs :: "nat \<Rightarrow> u64"
  mc_irq_stubs :: "nat \<Rightarrow> u64"

section \<open>Drivers on parts of the devices\<close>

definition lift_isr :: "('e \<Rightarrow> 'x) \<Rightarrow> ('x \<Rightarrow> 'e \<Rightarrow> 'e) \<Rightarrow> ('p, 'x) isr \<Rightarrow> ('p, 'e) isr" where
  "lift_isr get put h =
     (case h of Lapic_Timer_Handler \<Rightarrow> Lapic_Timer_Handler
      | Isr f \<Rightarrow> Isr (\<lambda>regs (p, e). map_option (\<lambda>(p, x). (p, put x e)) (f regs (p, get e))))"

text \<open>A driver sees its own part of the devices and tables without handlers; the handlers it installs are entered in the
  tables of the kernel.\<close>

definition part_of :: "('e \<Rightarrow> 'x) \<Rightarrow> ('p, 'e) intr \<Rightarrow> ('p, 'x) intr" where
  "part_of get s =
     \<lparr>ihw = ihw s, ienv = get (ienv s), ivmm = ivmm s, idt_entries = idt_entries s, idt_ptr = idt_ptr s,
      interrupts_on = interrupts_on s, interrupt_handlers = map (\<lambda>_. None) (interrupt_handlers s),
      irq_routines_table = map (\<lambda>_. None) (irq_routines_table s), lapic_timer_tick = lapic_timer_tick s,
      lapic = lapic s, ioapic = ioapic s, acpi_lapic_base = acpi_lapic_base s, acpi_ioapic_base = acpi_ioapic_base s\<rparr>"

definition merge_handlers :: "(('p, 'x) isr \<Rightarrow> ('p, 'e) isr) \<Rightarrow> ('p, 'e) isr option list \<Rightarrow> ('p, 'x) isr option list \<Rightarrow>
    ('p, 'e) isr option list" where
  "merge_handlers lift olds news =
     map2 (\<lambda>old new. case new of None \<Rightarrow> old | Some h \<Rightarrow> Some (lift h)) olds news"

definition with_part :: "('e \<Rightarrow> 'x) \<Rightarrow> ('x \<Rightarrow> 'e \<Rightarrow> 'e) \<Rightarrow> ('p, 'x) intr \<Rightarrow> ('p, 'e) intr \<Rightarrow> ('p, 'e) intr" where
  "with_part get put t s =
     \<lparr>ihw = ihw t, ienv = put (ienv t) (ienv s), ivmm = ivmm t, idt_entries = idt_entries t, idt_ptr = idt_ptr t,
      interrupts_on = interrupts_on t,
      interrupt_handlers = merge_handlers (lift_isr get put) (interrupt_handlers s) (interrupt_handlers t),
      irq_routines_table = merge_handlers (lift_isr get put) (irq_routines_table s) (irq_routines_table t),
      lapic_timer_tick = lapic_timer_tick t, lapic = lapic t, ioapic = ioapic t,
      acpi_lapic_base = acpi_lapic_base t, acpi_ioapic_base = acpi_ioapic_base t\<rparr>"

definition put_mouse :: "terminal mouse \<Rightarrow> 'n devices \<Rightarrow> 'n devices" where
  "put_mouse m d = d\<lparr>dv_mouse := m\<rparr>"

definition get_card :: "'n devices \<Rightarrow> 'n nic" where
  "get_card d = card (dv_net d)"

definition put_card :: "'n nic \<Rightarrow> 'n devices \<Rightarrow> 'n devices" where
  "put_card n d = d\<lparr>dv_net := (dv_net d)\<lparr>card := n\<rparr>\<rparr>"

section \<open>Memory\<close>

definition MMIO_VIRT_BASE :: u64 where "MMIO_VIRT_BASE = 0xFFFFFFFF90000000"

text \<open>The virtual memory manager before \<open>vmm_init\<close>: the initial values of its variables, over the memory that the
  physical memory manager has left; \<open>boot_cr3\<close> is the root table of the assembly start-up code.\<close>

definition initial_vmm :: "ram \<Rightarrow> u64 \<Rightarrow> pmm \<Rightarrow> vmm" where
  "initial_vmm m boot_cr3 p =
     \<lparr>phys = p, pmem = load64 (ram_view m p), current_pml4 = 0, mmio_virt_next = MMIO_VIRT_BASE, cr3 = boot_cr3, flushed = []\<rparr>"

definition entry_memory :: "ram \<Rightarrow> u64 \<Rightarrow> u64 \<Rightarrow> boot_info \<Rightarrow> u64 \<Rightarrow> heap \<Rightarrow> (heap \<times> vmm) option" where
  "entry_memory m kernel_start kernel_end b boot_cr3 h = do {
     p \<leftarrow> initialize_memory_manager_from_mbi m kernel_start kernel_end (max_addr_used b) (g_mbi_addr b);
     let h = kalloc_init h;
     let f = g_fb (boot_scr b);
     (ok, v) \<leftarrow> vmm_init (fi_addr f) (fi_height f) (fi_pitch f) (initial_vmm m boot_cr3 p);
     if ok then Some (h, v) else None
   }"

section \<open>Interrupts\<close>

definition entry_acpi :: "ram \<Rightarrow> u64 \<Rightarrow> ('p, 's) intr \<times> u64 \<Rightarrow> (int \<times> ('p, 's) intr \<times> u64) option" where
  "entry_acpi m acpi_info sf = do {
     let (s, fadt) = sf;
     (ret, a) \<leftarrow> acpi_init m acpi_info
       \<lparr>ac_vmm = ivmm s, ac_lapic_base = acpi_lapic_base s, ac_ioapic_base = acpi_ioapic_base s, ac_fadt = fadt\<rparr>;
     Some (ret, s\<lparr>ivmm := ac_vmm a, acpi_lapic_base := ac_lapic_base a, acpi_ioapic_base := ac_ioapic_base a\<rparr>, ac_fadt a)
   }"

definition entry_interrupts :: "('p, 'n) machine \<Rightarrow> ('p, 's) intr \<Rightarrow> ('p, 's) intr" where
  "entry_interrupts mc s =
     (if cpu_has_apic (mc_cpu mc)
      then let s = s\<lparr>interrupts_on := False\<rparr>;
               s = init_idt (mc_cpu mc) (mc_idt_addr mc) (mc_isr_stubs mc) s;
               s = irq_install (mc_irq_stubs mc) s;
               (ret, s) = lapic_init (mc_cpu mc) s;
               s = ioapic_init (mc_cpu mc) s
           in s\<lparr>interrupts_on := True\<rparr>
      else s)"

section \<open>Devices\<close>

definition keyboard_isr :: "('p, 'n devices) isr" where
  "keyboard_isr = Isr (\<lambda>regs (p, d). map_option (\<lambda>k. (p, d\<lparr>dv_kb := k\<rparr>)) (keyboard_handler (dv_kb d)))"

definition keyboard_install :: "'p apic_hw \<Rightarrow> ('p, 'n devices) intr \<Rightarrow> ('p, 'n devices) intr option" where
  "keyboard_install cpu s = irq_install_handler cpu 1 keyboard_isr 0 s"

definition entry_mouse :: "'p apic_hw \<Rightarrow> ('p, 'n devices) intr \<Rightarrow> ('p, 'n devices) intr option" where
  "entry_mouse cpu s = map_option (\<lambda>t. with_part dv_mouse put_mouse t s) (mouse_init cpu (part_of dv_mouse s))"

text \<open>\<open>terminal_init\<close> also registers the callback of the mouse.\<close>

definition entry_terminal :: "font \<Rightarrow> ('p, 'n devices) intr \<Rightarrow> ('p, 'n devices) intr" where
  "entry_terminal font s =
     (let m = dv_mouse (ienv s)
      in s\<lparr>ienv := put_mouse (m\<lparr>menv := terminal_init (menv m), mouse_event_run := Some (get_mouse_event font)\<rparr>) (ienv s)\<rparr>)"

text \<open>The timer, the keyboard, the mouse and the terminal.\<close>

definition entry_ps2 :: "('p, 'n) machine \<Rightarrow> ('p, 'n devices) intr \<Rightarrow> ('p, 'n devices) intr option" where
  "entry_ps2 mc s = do {
     let cpu = mc_cpu mc;
     s \<leftarrow> lapic_timer_start cpu s;
     s \<leftarrow> keyboard_install cpu s;
     let s = s\<lparr>ienv := (ienv s)\<lparr>dv_kb := set_layout (LAYOUTS ! 0) (dv_kb (ienv s))\<rparr>\<rparr>;
     s \<leftarrow> entry_mouse cpu s;
     Some (entry_terminal (mc_font mc) s)
   }"

text \<open>The line that \<open>nic_detect_cb\<close> prints for a network card.\<close>

definition nic_vendor_str :: "u16 \<Rightarrow> string option" where
  "nic_vendor_str v = map_of [(0x8086, ''Intel''), (0x10EC, ''Realtek''), (0x14E4, ''Broadcom''), (0x1022, ''AMD''), (0x15AD, ''VMware'')] v"

definition nic_model_str :: "u16 \<Rightarrow> u16 \<Rightarrow> string option" where
  "nic_model_str v dev =
     (if v = 0x8086 then map_of [(0x100E, ''82540EM''), (0x100F, ''82545EM''), (0x10D3, ''82574L''), (0x1533, ''I210''), (0x15B8, ''I219-V'')] dev
      else if v = 0x10EC then map_of [(0x8139, ''RTL8139''), (0x8168, ''RTL8111/8168B''), (0x8125, ''RTL8125'')] dev
      else if v = 0x15AD then map_of [(0x0720, ''VMXNET3''), (0x0740, ''PCnet32'')] dev
      else None)"

definition nic_line :: "u8 \<Rightarrow> u8 \<Rightarrow> u8 \<Rightarrow> u16 \<Rightarrow> u16 \<Rightarrow> u8 \<Rightarrow> u8 list option" where
  "nic_line bus slot fn v dev subclass =
     (let place = [Arg_Int (ucast bus), Arg_Int (ucast slot), Arg_Int (ucast fn)]; str = (\<lambda>n. Arg_String (Some (ascii n))) in
      case (nic_vendor_str v, nic_model_str v dev) of
        (Some n, Some k) \<Rightarrow> npf_vpprintf (ascii ''  [%02x:%02x.%d] %s %s\<newline>'') (place @ [str n, str k])
      | (Some n, None) \<Rightarrow> npf_vpprintf (ascii ''  [%02x:%02x.%d] %s (device %04x, subclass %02x)\<newline>'')
          (place @ [str n, Arg_Int (ucast dev), Arg_Int (ucast subclass)])
      | (None, _) \<Rightarrow> npf_vpprintf (ascii ''  [%02x:%02x.%d] Unknown NIC (%04x:%04x, subclass %02x)\<newline>'')
          (place @ [Arg_Int (ucast v), Arg_Int (ucast dev), Arg_Int (ucast subclass)]))"

text \<open>\<open>nic_detect_cb\<close> for one device: the read of the subclass and the start of a card of the known model.\<close>

definition entry_nic :: "('p, 'n) machine \<Rightarrow> u8 \<times> pci_dev \<Rightarrow> ('p, 'n devices) intr \<Rightarrow> ('p, 'n devices) intr option" where
  "entry_nic mc bd s =
     (let (bus, dev) = bd in
      if dev_class dev AND 0xff \<noteq> PCI_CLASS_NETWORK then Some s
      else let slot = ucast (PCI_DEV (devfn dev)) :: u8;
               fn = ucast (PCI_FN (devfn dev)) :: u8;
               (subclass, p) = pci_readb (cpu_ports (mc_cpu mc)) (ucast bus) (ucast slot) (ucast fn) 0x0A (ihw s);
               s = s\<lparr>ihw := p\<rparr>
           in case nic_detect_cb bd of
                None \<Rightarrow> Some s
              | Some (bus, slot, fn) \<Rightarrow>
                  map_option (\<lambda>(ok, t). with_part get_card put_card t s)
                    (e1000_init (mc_cpu mc) (mc_card mc) bus slot fn (part_of get_card s)))"

fun entry_nics :: "('p, 'n) machine \<Rightarrow> (u8 \<times> pci_dev) list \<Rightarrow> ('p, 'n devices) intr \<Rightarrow> ('p, 'n devices) intr option" where
  "entry_nics mc [] s = Some s"
| "entry_nics mc (bd # bds) s = do { s \<leftarrow> entry_nic mc bd s; entry_nics mc bds s }"

definition entry_net :: "('p, 'n devices) intr \<Rightarrow> ('p, 'n devices) intr" where
  "entry_net s = s\<lparr>ienv := (ienv s)\<lparr>dv_net := arp_init (net_init (dv_net (ienv s)))\<rparr>\<rparr>"

definition entry_drives :: "'p ports \<Rightarrow> ('p, 'n) kernel \<Rightarrow> ('p, 'n) kernel option" where
  "entry_drives io k = do {
     f \<leftarrow> drives_init io \<lparr>fs_heap = k_heap k, fs_dev = \<lparr>hdw = ihw (k_intr k), drive_present = k_present k\<rparr>,
           fs_drives = k_drives k, fs_mounted = k_mounted k\<rparr>;
     Some (k\<lparr>k_heap := fs_heap f, k_intr := (k_intr k)\<lparr>ihw := hdw (fs_dev f)\<rparr>, k_present := drive_present (fs_dev f),
       k_drives := fs_drives f, k_mounted := fs_mounted f\<rparr>)
   }"

section \<open>The whole sequence\<close>

definition k_terminal :: "('p, 'n) kernel \<Rightarrow> terminal" where
  "k_terminal k = menv (dv_mouse (ienv (k_intr k)))"

definition k_set_terminal :: "terminal \<Rightarrow> ('p, 'n) kernel \<Rightarrow> ('p, 'n) kernel" where
  "k_set_terminal t k =
     (let s = k_intr k; d = ienv s
      in k\<lparr>k_intr := s\<lparr>ienv := put_mouse ((dv_mouse d)\<lparr>menv := t\<rparr>) d\<rparr>\<rparr>)"

definition GECKO_VERSION :: string where "GECKO_VERSION = ''2.2''"

text \<open>The screen that \<open>kmain\<close> starts with.\<close>

definition entry_banner :: "font \<Rightarrow> terminal \<Rightarrow> terminal option" where
  "entry_banner font t = do {
     let t = terminal_clear TERM_COLOR t;
     cs \<leftarrow> npf_vpprintf (ascii ''GeckoOS Version %s\<newline>'') [Arg_String (Some (ascii GECKO_VERSION))];
     t \<leftarrow> write_chars font cs VGA_COLOR_WHITE t;
     t \<leftarrow> printc font (ascii ''Booted via GRUB/Multiboot2.\<newline>'') TERM_COLOR t;
     write_chars font (ascii ''\<newline>'') VGA_COLOR_WHITE t
   }"

definition entry_devices :: "('p, 'n) machine \<Rightarrow> nat \<Rightarrow> ('p, 'n) kernel \<Rightarrow> ('p, 'n) kernel option" where
  "entry_devices mc depth k = do {
     let cpu = mc_cpu mc;
     s \<leftarrow> entry_ps2 mc (k_intr k);
     (root, p) \<leftarrow> pci_enumarate depth (cpu_ports cpu) (ihw s);
     s \<leftarrow> entry_nics mc (walk_devs root) (s\<lparr>ihw := p\<rparr>);
     s \<leftarrow> lapic_start_cores cpu s;
     let s = entry_net s;
     k \<leftarrow> entry_drives (cpu_ports cpu) (k\<lparr>k_intr := s, k_pci := root\<rparr>);
     t \<leftarrow> entry_banner (mc_font mc) (k_terminal k);
     Some (k_set_terminal t k)
   }"

definition kernel_entry :: "('p, 'n) machine \<Rightarrow> nat \<Rightarrow> boot_info \<Rightarrow> u64 \<Rightarrow> ('p, 'n) kernel \<Rightarrow> ('p, 'n) kernel option" where
  "kernel_entry mc depth b boot_cr3 k = do {
     (h, v) \<leftarrow> entry_memory (k_ram k) (mc_kernel_start mc) (mc_kernel_end mc) b boot_cr3 (k_heap k);
     let io = cpu_ports (mc_cpu mc);
     let s = (k_intr k)\<lparr>ivmm := v, ihw := io_outb io 0x23 0x01 (io_outb io 0x22 0x70 (ihw (k_intr k)))\<rparr>;
     (ret, s, fadt) \<leftarrow> entry_acpi (k_ram k) (acpi_info_grub b) (s, k_fadt k);
     let s = entry_interrupts mc s;
     entry_devices mc depth (k\<lparr>k_heap := h, k_intr := s, k_fadt := fadt\<rparr>)
   }"

end
