(* ===== verification/Kernel_Entry_Props.thy ===== *)
theory Kernel_Entry_Props
  imports Kernel_Entry Interrupt_Props Net_Props Nanoprintf_Props
begin

unbundle bit_operations_syntax

text \<open>
  What the start of the kernel establishes: from the structure of the boot loader to the first address space, that the
  window of the heap stays available to the allocator of blocks, and that keys reach the keyboard driver.
\<close>

section \<open>The memory managers at boot\<close>

lemma pmm_reserve_boot_inv:
  assumes n: "unat (max_blocks s) \<le> 2 ^ 32" "0 < unat (max_blocks s)" and inv: "pmm_inv s"
    and zero: "0 \<notin> used_set s" "0 \<notin> region_blocks ks (ke - ks)" "0 \<notin> region_blocks mbi (ucast tsz)"
      "0 \<notin> region_blocks (bitmap_base s) (bitmap_bytes (max_blocks s))"
  shows "pmm_inv (pmm_reserve_boot ks ke mbi tsz s)"
proof -
  define s3 where "s3 = reserve_region (bitmap_base s) (bitmap_bytes (max_blocks s))
    (reserve_region mbi (ucast tsz) (reserve_region ks (ke - ks) s))"
  have f: "max_blocks s3 = max_blocks s" by (simp add: s3_def)
  have i3: "pmm_inv s3" using n inv by (simp add: s3_def reserve_region_inv)
  have "0 \<notin> used_set s3" using n zero by (simp add: s3_def used_set_reserve_region)
  moreover let ?s4 = "(set_block 0 s3)\<lparr>used_blocks := used_blocks s3 + 1\<rparr>"
  have "used_set ?s4 = insert 0 (used_set s3)" using n used_set_set_block [of 0 s3] by (simp add: f used_set_def block_used_def)
  ultimately have "pmm_inv ?s4" using i3 by (simp add: pmm_inv_def)
  then show ?thesis using n by (simp add: pmm_reserve_boot_def Let_def s3_def [symmetric] f reserve_region_inv)
qed

text \<open>The counter of used blocks is right after boot when block 0 is available memory and nothing else has reserved it.\<close>

lemma boot_frames_ok:
  fixes b :: boot_info
  assumes boot: "mbi_at R m (mbi_addr + ucast (load32 m mbi_addr)) (mbi_addr + 8) ts" "max_addr_used b = 0"
      "rs = concat (map regions ts)" "\<forall>(a, l) \<in> set rs. unat a + unat l < 2 ^ 64" "0 < regions_end rs" "regions_end rs \<le> 2 ^ 43"
      "R \<inter> map_region (pmm_setup m ke (regions_end rs)) = {}"
    and init: "initialize_memory_manager_from_mbi m ks ke (regions_end rs) mbi_addr = Some p"
    and zero: "0 \<in> (\<Union>(a, l) \<in> set rs. region_blocks a l)" "0 \<notin> region_blocks ks (ke - ks)"
      "0 \<notin> region_blocks mbi_addr (ucast (load32 m mbi_addr))" "0 \<notin> region_blocks (bitmap_base p) (bitmap_bytes (max_blocks p))"
  shows "frames_ok p"
proof -
  have e44: "regions_end rs \<le> 2 ^ 44" using boot(6) by (rule order_trans) simp
  note r = boot_result [OF boot(1-5) e44 boot(7)]
  let ?init = "pmm_setup m ke (regions_end rs)"
  have p: "p = pmm_reserve_boot ks ke mbi_addr (load32 m mbi_addr) (free_all rs ?init)"
    using r(3) [of ks] init by simp
  have n: "unat (max_blocks ?init) \<le> 2 ^ 32" "0 < unat (max_blocks ?init)" using r(4,6,7) [of ks] by simp_all
  have f: "max_blocks p = max_blocks ?init" "bitmap_base p = bitmap_base ?init" using r(4,5) [of ks] by (simp_all add: p)
  have "unat (regions_end rs) \<le> 2 ^ 43" using boot(6) by (simp add: word_le_nat_alt)
  then have small: "unat (max_blocks p) \<le> 2 ^ 31"
    unfolding f pmm_setup_fields region_num_blocks by (simp add: unat_word_ariths)
  have "0 \<notin> used_set (free_all rs ?init)" using zero(1) n(1) by (simp add: used_set_free_all)
  then have "pmm_inv p" unfolding p using n zero(2-4)
    by (intro pmm_reserve_boot_inv) (simp_all add: free_all_inv pmm_setup_inv f del: pmm_setup_fields)
  moreover have "0 \<in> used_set p" using r(8) [of ks] r(6) [of ks] by (auto simp: p)
  ultimately show ?thesis using small by (simp add: frames_ok_def)
qed

section \<open>The first address space\<close>

text \<open>The number of pages \<open>map_framebuffer\<close> maps.\<close>

definition fb_pages :: "u32 \<Rightarrow> u32 \<Rightarrow> nat" where
  "fb_pages h p = unat ((ucast h * ucast p + PAGE_SIZE - 1) div PAGE_SIZE + 1 :: u64)"

lemma apply_tags_mbi: "g_mbi_addr (fold apply_tag ts b) = g_mbi_addr b"
proof (induction ts arbitrary: b)
  case (Cons t ts)
  then show ?case by (cases t) simp_all
qed simp

lemma vmm_init_enough_frames:
  assumes ok: "frames_ok (phys s)" and av: "3 * (5120 + fb_pages h p) + 1 \<le> avail (phys s)"
  shows "\<exists>s'. vmm_init addr h p s = Some (True, s')"
proof -
  obtain r s1 where al: "alloc_table s = (r, s1)" by fastforce
  have r: "r \<noteq> 0" "avail (phys s1) = avail (phys s) - 1"
    using alloc_table_avail [OF ok _ al] av by simp_all
  have i1: "pt_inv r s1" by (rule alloc_table_root [OF ok al r(1)])
  obtain s2 where m2: "map_pages 4096 r 0 0 (PTE_PRESENT OR PTE_WRITABLE) s1 = (True, s2)"
    "avail (phys s1) - 3 * 4096 \<le> avail (phys s2)"
    using map_pages_avail [OF i1, of 4096] r av by fastforce
  have i2: "pt_inv r s2" by (rule aspace.map_range_inv [OF i1 m2(1)])
  have "\<exists>s3. map_framebuffer addr h p r s2 = (True, s3) \<and> avail (phys s2) - 3 * fb_pages h p \<le> avail (phys s3) \<and> pt_inv r s3"
  proof (cases "addr = 0")
    case False
    have "3 * fb_pages h p \<le> avail (phys s2)" using m2(2) r av by simp
    from map_pages_avail [OF i2 this] show ?thesis
      using False aspace.map_range_inv [OF i2] by (fastforce simp: map_framebuffer_def fb_pages_def Let_def)
  qed (simp add: map_framebuffer_def i2)
  then obtain s3 where m3: "map_framebuffer addr h p r s2 = (True, s3)" "avail (phys s2) - 3 * fb_pages h p \<le> avail (phys s3)" "pt_inv r s3"
    by blast
  obtain s4 where m4: "map_pages 1024 r 0x100000 0xFFFFFFFF80100000 (PTE_PRESENT OR PTE_WRITABLE) s3 = (True, s4)"
    using map_pages_avail [OF m3(3), of 1024] m2(2) m3(2) r av by fastforce
  show ?thesis
    using al r m2 m3 m4 by (simp add: vmm_init_def vmm_set_pml4_def del: map_pages.simps)
qed

text \<open>C4. From the boot loader's structure to the first address space: when \<open>multiboot2_main\<close> has read it, available memory contains
  block 0, which nothing else occupies, and enough blocks are free, \<open>_entry\<close> does not halt while it sets up memory.  The heap is then
  empty and has its window, and the address space in \<open>cr3\<close> is well formed, identity-maps the first 16 MiB and the whole
  frame buffer of the loader, and maps 4 MiB from 1 MiB on at the kernel's upper-half address.\<close>

theorem entry_memory_ready:
  fixes b :: boot_info
  assumes boot: "mbi_at R m (mbi_addr + ucast (load32 m mbi_addr)) (mbi_addr + 8) ts" "max_addr_used b = 0"
      "rs = concat (map regions ts)" "\<forall>(a, l) \<in> set rs. unat a + unat l < 2 ^ 64" "0 < regions_end rs" "regions_end rs \<le> 2 ^ 43"
      "R \<inter> map_region (pmm_setup m ke (regions_end rs)) = {}"
    and main: "multiboot2_main m (ucast MULTIBOOT2_BOOTLOADER_MAGIC) mbi_addr b = Some b'"
    and init: "initialize_memory_manager_from_mbi m ks ke (max_addr_used b') mbi_addr = Some p"
    and zero: "0 \<in> (\<Union>(a, l) \<in> set rs. region_blocks a l)" "0 \<notin> region_blocks ks (ke - ks)"
      "0 \<notin> region_blocks mbi_addr (ucast (load32 m mbi_addr))" "0 \<notin> region_blocks (bitmap_base p) (bitmap_bytes (max_blocks p))"
    and f: "f = g_fb (boot_scr b')" "unat (fi_addr f) + unat (fi_height f) * unat (fi_pitch f) + 8192 \<le> 2 ^ 47"
    and frames: "3 * (5120 + fb_pages (fi_height f) (fi_pitch f)) + 1 \<le> avail p"
  shows "\<exists>h' v. entry_memory m ks ke b' boot_cr3 h = Some (h', v) \<and>
    heap_ptr h' = 0x200000 \<and> heap_end h' = 0x500000 \<and> free_list_head h' = 0 \<and>
    current_pml4 v \<noteq> 0 \<and> cr3 v = current_pml4 v \<and> pt_inv (current_pml4 v) v \<and>
    (\<forall>a. unat a < 0x1000000 \<longrightarrow> vmm_get_phys (current_pml4 v) a v = page_of a) \<and>
    (\<forall>a. fi_addr f \<noteq> 0 \<longrightarrow> unat (fi_addr f) \<le> unat a \<longrightarrow> unat a < unat (fi_addr f) + unat (fi_height f) * unat (fi_pitch f) \<longrightarrow>
       vmm_get_phys (current_pml4 v) a v = page_of a) \<and>
    (\<forall>off < 0x400000. vmm_get_phys (current_pml4 v) (0xFFFFFFFF80100000 + of_nat off) v = page_of (0x100000 + of_nat off))"
proof -
  have e44: "regions_end rs \<le> 2 ^ 44" using boot(6) by (rule order_trans) simp
  note r = boot_result [OF boot(1-5) e44 boot(7)]
  have b': "max_addr_used b' = regions_end rs" "g_mbi_addr b' = mbi_addr"
    using r(1,2) main by (simp_all add: apply_tags_mbi)
  have "frames_ok p" using boot_frames_ok [OF boot _ zero] init by (simp add: b')
  then have ok: "frames_ok (phys (initial_vmm m boot_cr3 p))" by (simp add: initial_vmm_def)
  obtain v where v: "vmm_init (fi_addr f) (fi_height f) (fi_pitch f) (initial_vmm m boot_cr3 p) = Some (True, v)"
    using vmm_init_enough_frames [OF ok] frames by (force simp: initial_vmm_def)
  have "entry_memory m ks ke b' boot_cr3 h = Some (kalloc_init h, v)"
    using init v by (simp add: entry_memory_def Let_def b' f(1) [symmetric])
  then show ?thesis using vmm_init_maps [OF ok v f(2)] by (auto simp: kalloc_init_def)
qed

section \<open>The window of the heap\<close>

lemma kmalloc_first: "kmalloc 16 (kalloc_init h) = Some (0x200010, snd (create_block 16 (kalloc_init h)))"
  by (simp add: kmalloc_def find_free_block_def find_from.simps kalloc_init_def create_block_def ALIGN8_def sizeof_block_def)

text \<open>C5. Nothing reserves the window of the heap, \<open>0x200000\<close> to \<open>0x500000\<close>.  When the kernel, the structure of the boot loader and the
  bitmap lie outside of it and it is available memory, an allocation of 512 blocks right after boot returns memory
  that contains the first block that \<open>kmalloc\<close> hands out.\<close>

theorem heap_window_allocatable:
  fixes b :: boot_info
  assumes boot: "mbi_at R m (mbi_addr + ucast (load32 m mbi_addr)) (mbi_addr + 8) ts" "max_addr_used b = 0"
      "rs = concat (map regions ts)" "\<forall>(a, l) \<in> set rs. unat a + unat l < 2 ^ 64" "0 < regions_end rs" "regions_end rs \<le> 2 ^ 43"
      "R \<inter> map_region (pmm_setup m ke (regions_end rs)) = {}"
    and init: "initialize_memory_manager_from_mbi m ks ke (regions_end rs) mbi_addr = Some p"
    and zero: "0 \<in> (\<Union>(a, l) \<in> set rs. region_blocks a l)" "0 \<notin> region_blocks ks (ke - ks)"
      "0 \<notin> region_blocks mbi_addr (ucast (load32 m mbi_addr))" "0 \<notin> region_blocks (bitmap_base p) (bitmap_bytes (max_blocks p))"
    and window: "{0x200..<0x500} \<subseteq> (\<Union>(a, l) \<in> set rs. region_blocks a l)"
      "{0x200..<0x500} \<inter> (region_blocks ks (ke - ks) \<union> region_blocks mbi_addr (ucast (load32 m mbi_addr)) \<union>
         region_blocks (bitmap_base p) (bitmap_bytes (max_blocks p))) = {}"
  shows "\<exists>a p' r h'. allocate_blocks 512 p = (a, p') \<and> a \<noteq> 0 \<and> kmalloc 16 (kalloc_init h) = Some (r, h') \<and> r \<noteq> 0 \<and>
    unat a \<le> unat r \<and> unat r + 16 \<le> unat a + 512 * 4096"
proof -
  have e44: "regions_end rs \<le> 2 ^ 44" using boot(6) by (rule order_trans) simp
  note res = boot_result [OF boot(1-5) e44 boot(7)]
  have p: "p = pmm_reserve_boot ks ke mbi_addr (load32 m mbi_addr) (free_all rs (pmm_setup m ke (regions_end rs)))"
    using res(3) [of ks] init by simp
  have ok: "frames_ok p" by (rule boot_frames_ok [OF boot init zero])
  have "x \<notin> region_blocks AP_TRAMPOLINE_ADDR AP_TRAMPOLINE_SIZE" if "0x200 \<le> x" for x
    using that by (simp add: region_blocks_def AP_TRAMPOLINE_ADDR_def AP_TRAMPOLINE_SIZE_def)
  then have free: "{0x200..<0x500} \<subseteq> {..<unat (max_blocks p)} - used_set p"
    using window res(8) [of ks, folded p] by auto
  then have max: "0x500 \<le> unat (max_blocks p)" by (auto simp: subset_iff dest!: spec [of _ "0x4FF"])
  have run: "free_run p 0x200 512" using free by (auto simp: free_run_def used_set_def subset_iff)
  have "768 \<le> Finite_Set.card ({..<unat (max_blocks p)} - used_set p)"
    using card_mono [OF _ free] by simp
  also have "\<dots> = unat (max_blocks p) - Finite_Set.card (used_set p)"
    by (subst card_Diff_subset) (auto simp: used_set_def)
  finally have "\<not> unat (max_blocks p) - Finite_Set.card (used_set p) \<le> unat (512 :: u32)" by simp
  moreover have "0x200 < unat (max_blocks p) div 32 * 32" using max by linarith
  ultimately have "fst (allocate_blocks 512 p) \<noteq> 0" using allocate_null_iff [OF ok, of 512] run by auto
  then obtain a p' where a: "allocate_blocks 512 p = (a, p')" "a \<noteq> 0" by (metis prod.collapse)
  obtain c where c: "unat a = c * 4096" "used_set p \<inter> {c..<c + 512} = {}" "\<forall>d < c. \<not> free_run p d 512"
    using allocate_blocks_spec [OF ok a] by auto
  have "c \<le> 0x200" using c(3) run by (metis not_less)
  moreover have "0 < c" using c(2) ok by (cases c) (auto simp: frames_ok_def)
  ultimately show ?thesis using a c(1) kmalloc_first [of h] by (intro exI [of _ a] exI [of _ p'] exI [of _ "0x200010"] exI) auto
qed

section \<open>Gates\<close>

lemma lapic_init_keeps:
  "idt_entries (snd (lapic_init cpu s)) = idt_entries s" "irq_routines_table (snd (lapic_init cpu s)) = irq_routines_table s"
  by (simp_all add: lapic_init_def lapic_write_def lapic_read_def lapic_get_id_def Let_def case_prod_beta)

lemma ioapic_entries_keep:
  fixes s :: "('a, 'b) intr"
  shows "idt_entries (ioapic_set_entry cpu i x s) = idt_entries s" "irq_routines_table (ioapic_set_entry cpu i x s) = irq_routines_table s"
  "idt_entries (fold (\<lambda>i. ioapic_set_entry cpu (of_nat i) x) is s) = idt_entries s"
  "irq_routines_table (fold (\<lambda>i. ioapic_set_entry cpu (of_nat i) x) is s) = irq_routines_table s"
proof -
  have e: "idt_entries (ioapic_set_entry cpu i x s) = idt_entries s \<and> irq_routines_table (ioapic_set_entry cpu i x s) = irq_routines_table s"
    for i and s :: "('a, 'b) intr" by (simp add: ioapic_set_entry_def ioapic_write_def Let_def)
  then show "idt_entries (ioapic_set_entry cpu i x s) = idt_entries s" "irq_routines_table (ioapic_set_entry cpu i x s) = irq_routines_table s"
    by simp_all
  from e show "idt_entries (fold (\<lambda>i. ioapic_set_entry cpu (of_nat i) x) is s) = idt_entries s"
    "irq_routines_table (fold (\<lambda>i. ioapic_set_entry cpu (of_nat i) x) is s) = irq_routines_table s"
    by (induction "is" arbitrary: s) simp_all
qed

lemma ioapic_init_keeps:
  "idt_entries (ioapic_init cpu s) = idt_entries s" "irq_routines_table (ioapic_init cpu s) = irq_routines_table s"
  by (simp_all add: ioapic_init_def ioapic_read_def ioapic_write_def ioapic_entries_keep Let_def case_prod_beta)

text \<open>On a processor with a local interrupt controller, \<open>_entry\<close> turns interrupts on with the gates of all 32 exceptions and
  222 request lines leading to their entry points.\<close>

theorem entry_gates_installed:
  assumes "cpu_has_apic (mc_cpu mc)" "n < 254"
  shows "gate_to (idt_entries (entry_interrupts mc s) ! n) (if n < 32 then mc_isr_stubs mc n else mc_irq_stubs mc (n - 32)) \<and>
    interrupts_on (entry_interrupts mc s)"
proof -
  let ?s = "irq_install (mc_irq_stubs mc) (init_idt (mc_cpu mc) (mc_idt_addr mc) (mc_isr_stubs mc) (s\<lparr>interrupts_on := False\<rparr>))"
  have "entry_interrupts mc s = (ioapic_init (mc_cpu mc) (snd (lapic_init (mc_cpu mc) ?s)))\<lparr>interrupts_on := True\<rparr>"
    using assms(1) by (simp add: entry_interrupts_def Let_def case_prod_beta)
  moreover have "idt_entries \<dots> = idt_entries ?s" by (simp add: ioapic_init_keeps lapic_init_keeps)
  ultimately show ?thesis
    using idt_initialised [OF assms(2), of "mc_irq_stubs mc" "mc_cpu mc" "mc_idt_addr mc" "mc_isr_stubs mc" "s\<lparr>interrupts_on := False\<rparr>"]
    by simp
qed

theorem entry_gates_installed_witness:
  "gate_to (idt_entries (entry_interrupts (\<lparr>mc_cpu = wire_hw, mc_card = ready_card, mc_font = (\<lambda>_ _. 0), mc_kernel_start = 0x100000,
     mc_kernel_end = 0x180000, mc_idt_addr = 0x100000, mc_isr_stubs = of_nat, mc_irq_stubs = of_nat\<rparr>) wire_state) ! 33) 1"
  using entry_gates_installed [of "\<lparr>mc_cpu = wire_hw, mc_card = ready_card, mc_font = (\<lambda>_ _. 0), mc_kernel_start = 0x100000,
     mc_kernel_end = 0x180000, mc_idt_addr = 0x100000, mc_isr_stubs = of_nat, mc_irq_stubs = of_nat\<rparr>" 33 wire_state]
  by (simp add: cpu_has_apic_def wire_hw_def CPUID_FEAT_EDX_APIC_def)

section \<open>The banner\<close>

text \<open>The banner is written without leaving the scroll-back buffer, whatever the screen showed before.\<close>

lemma entry_banner_shown:
  assumes "term_base t"
  shows "\<exists>t'. entry_banner font t = Some t' \<and> term_ok t'"
proof -
  have ok: "term_ok (terminal_clear TERM_COLOR t)"
    using assms by (auto simp: term_ok_def term_base_def terminal_clear_def SCROLLBACK_LINES_def)
  have "format_kinds (ascii ''GeckoOS Version %s\<newline>'') = Some [K_String]" by code_simp
  then obtain cs where cs: "npf_vpprintf (ascii ''GeckoOS Version %s\<newline>'') [Arg_String (Some (ascii GECKO_VERSION))] = Some cs"
    using format_defined [of "ascii ''GeckoOS Version %s\<newline>''" "[Arg_String (Some (ascii GECKO_VERSION))]"] by auto
  obtain t1 where t1: "write_chars font cs VGA_COLOR_WHITE (terminal_clear TERM_COLOR t) = Some t1" "term_ok t1"
    using write_chars_ok [OF ok] by blast
  obtain t2 where t2: "write_chars font (ascii ''Booted via GRUB/Multiboot2.\<newline>'') TERM_COLOR t1 = Some t2" "term_ok t2"
    using write_chars_ok [OF t1(2)] by blast
  obtain t3 where t3: "write_chars font (ascii ''\<newline>'') VGA_COLOR_WHITE t2 = Some t3" "term_ok t3"
    using write_chars_ok [OF t2(2)] by blast
  have "entry_banner font t = Some t3"
    unfolding entry_banner_def printc_def Let_def cs bind.bind_lunit t1(1) t2(1) t3(1) ..
  then show ?thesis using t3(2) by blast
qed

section \<open>Handlers\<close>

lemma irq_install_handler_keeps:
  assumes "irq_install_handler cpu irq h fl s = Some s1"
  shows "irq_routines_table s1 = (irq_routines_table s)[nat irq := Some h]" "ienv s1 = ienv s"
  using assms
  by (auto simp: irq_install_handler_def ioapic_redirect_irq_def ioapic_set_entry_def ioapic_write_def lapic_get_id_def lapic_read_def
      Let_def split: if_splits prod.splits)

lemma irq_install_handler_returns: "0 \<le> irq \<Longrightarrow> irq < 223 \<Longrightarrow> \<exists>s1. irq_install_handler cpu irq h fl s = Some s1"
  by (simp add: irq_install_handler_def MAX_IRQS_def Let_def)

text \<open>A property of every outcome of a sequence of bindings.\<close>

lemma every_let: "(\<And>x. x = e \<Longrightarrow> P (f x)) \<Longrightarrow> P (Let e f)"
  by simp

lemma every_pair: "(\<And>x y. P (f x y)) \<Longrightarrow> P (case p of (x, y) \<Rightarrow> f x y)"
  by (cases p) simp

lemma every_if: "P x \<Longrightarrow> P y \<Longrightarrow> P (if c then x else y)"
  by simp

lemma mouse_init_keeps:
  fixes s :: "('a, 'b mouse) intr"
  shows
  "\<exists>t. mouse_init cpu s = Some t \<and>
     (\<exists>h. irq_routines_table t = irq_routines_table s \<or> irq_routines_table t = (irq_routines_table s)[12 := Some h])"
proof -
  define P where "P r \<longleftrightarrow> (\<exists>t. r = Some t \<and>
     (\<exists>h. irq_routines_table t = irq_routines_table s \<or> irq_routines_table t = (irq_routines_table s)[12 := Some h]))" for r :: "('a, 'b mouse) intr option"
  have last: "P (irq_install_handler cpu 12 h 0 u)" if "irq_routines_table u = irq_routines_table s" for h u
    using irq_install_handler_returns [of 12 cpu h 0 u] irq_install_handler_keeps(1) [of cpu 12 h 0 u] that by (auto simp: P_def)
  have "P (mouse_init cpu s)"
    unfolding mouse_init_def
    by (intro every_let [where P = P] every_pair [where P = P] every_if [where P = P]) (simp_all add: last, simp_all add: P_def)
  then show ?thesis by (simp add: P_def)
qed

lemma entry_mouse_keeps:
  assumes "length (irq_routines_table s) = MAX_IRQS"
  shows "\<exists>t. entry_mouse cpu s = Some t \<and> length (irq_routines_table t) = MAX_IRQS \<and>
     (\<forall>i < MAX_IRQS. i \<noteq> 12 \<longrightarrow> irq_routines_table t ! i = irq_routines_table s ! i) \<and>
     dv_kb (ienv t) = dv_kb (ienv s) \<and> dv_net (ienv t) = dv_net (ienv s)"
proof -
  obtain t h where t: "mouse_init cpu (part_of dv_mouse s) = Some t"
    "irq_routines_table t = irq_routines_table (part_of dv_mouse s) \<or>
     irq_routines_table t = (irq_routines_table (part_of dv_mouse s))[12 := Some h]"
    using mouse_init_keeps by blast
  have "irq_routines_table (part_of dv_mouse s) = replicate MAX_IRQS None" using assms by (simp add: part_of_def map_replicate_const)
  with t(2) have len: "length (irq_routines_table t) = MAX_IRQS" and none: "\<forall>i < MAX_IRQS. i \<noteq> 12 \<longrightarrow> irq_routines_table t ! i = None"
    by auto
  then show ?thesis using t(1) assms
    by (auto simp: entry_mouse_def with_part_def merge_handlers_def put_mouse_def)
qed

text \<open>The line for a network card is always defined: the arguments fit the three formats.\<close>

lemma nic_line_defined: "\<exists>cs. nic_line bus slot fn v dev subclass = Some cs"
proof -
  have "format_kinds (ascii ''  [%02x:%02x.%d] %s %s\<newline>'') = Some [K_Int, K_Int, K_Int, K_String, K_String]"
    "format_kinds (ascii ''  [%02x:%02x.%d] %s (device %04x, subclass %02x)\<newline>'') = Some [K_Int, K_Int, K_Int, K_String, K_Int, K_Int]"
    "format_kinds (ascii ''  [%02x:%02x.%d] Unknown NIC (%04x:%04x, subclass %02x)\<newline>'') = Some [K_Int, K_Int, K_Int, K_Int, K_Int, K_Int]"
    by code_simp+
  then show ?thesis by (auto simp: nic_line_def Let_def intro!: format_defined split: option.splits)
qed

lemma entry_ps2_returns:
  assumes len: "length (irq_routines_table s) = MAX_IRQS"
  shows "\<exists>t. entry_ps2 mc s = Some t \<and> irq_routines_table t ! 1 = Some keyboard_isr \<and>
     dv_kb (ienv t) = set_layout (LAYOUTS ! 0) (dv_kb (ienv s)) \<and> dv_net (ienv t) = dv_net (ienv s)"
proof -
  obtain s1 where s1: "lapic_timer_start (mc_cpu mc) s = Some s1"
    "irq_routines_table s1 = (irq_routines_table s)[48 := Some Lapic_Timer_Handler]" "ienv s1 = ienv s"
  proof -
    let ?u = "lapic_write (mc_cpu mc) LAPIC_REG_TIMER_ICR 0x100000 (lapic_write (mc_cpu mc) LAPIC_REG_TIMER_LVT (48 OR push_bit 17 1)
      (lapic_write (mc_cpu mc) LAPIC_REG_TIMER_DCR 0x03 (lapic_write (mc_cpu mc) LAPIC_REG_TIMER_ICR 0 s)))"
    have u: "irq_routines_table ?u = irq_routines_table s" "ienv ?u = ienv s" by (simp_all add: lapic_write_def)
    obtain s1 where i: "irq_install_handler (mc_cpu mc) 48 Lapic_Timer_Handler 0 ?u = Some s1"
      using irq_install_handler_returns [of 48 "mc_cpu mc" Lapic_Timer_Handler 0 ?u] by auto
    show thesis
      by (rule that [of s1]) (use i irq_install_handler_keeps [OF i] u in \<open>simp_all add: lapic_timer_start_def Let_def\<close>)
  qed
  obtain s2 where i2: "keyboard_install (mc_cpu mc) s1 = Some s2"
    using irq_install_handler_returns [of 1 "mc_cpu mc" keyboard_isr 0 s1] by (auto simp: keyboard_install_def)
  note k2 = irq_install_handler_keeps [OF i2 [unfolded keyboard_install_def]]
  let ?s3 = "s2\<lparr>ienv := (ienv s2)\<lparr>dv_kb := set_layout (LAYOUTS ! 0) (dv_kb (ienv s2))\<rparr>\<rparr>"
  have l3: "length (irq_routines_table ?s3) = MAX_IRQS" "irq_routines_table ?s3 ! 1 = Some keyboard_isr"
    using k2(1) s1(2) len by (simp_all add: MAX_IRQS_def)
  obtain t where t: "entry_mouse (mc_cpu mc) ?s3 = Some t" "irq_routines_table t ! 1 = irq_routines_table ?s3 ! 1"
    "dv_kb (ienv t) = dv_kb (ienv ?s3)" "dv_net (ienv t) = dv_net (ienv ?s3)"
    using entry_mouse_keeps [OF l3(1), of "mc_cpu mc"] by (auto simp: MAX_IRQS_def)
  have "entry_ps2 mc s = Some (entry_terminal (mc_font mc) t)"
    using s1(1) i2 t(1) by (simp add: entry_ps2_def Let_def)
  then show ?thesis using t l3 k2 s1(3) by (simp add: entry_terminal_def Let_def put_mouse_def)
qed

text \<open>C37. Once \<open>_entry\<close> has started the keyboard and the mouse, the interrupt 33 of a key puts its byte where the shell waits for it:
  \<open>ps2_kb_wfi\<close> returns it at once, its character is the one of the US layout, and mouse and network are not touched.\<close>

theorem key_press_delivered:
  assumes len: "length (irq_routines_table s) = MAX_IRQS" and saved_regs: "int_no saved_regs = 33"
    and key: "kb_bytes (dv_kb (ienv s)) = b # bs" "b < 0x80" "b \<notin> {LEFT_SHIFT_SC, RIGHT_SHIFT_SC, CAPS_LOCK_SC}"
    and plain: "\<not> ShiftL (KEYSTATE (dv_kb (ienv s)))" "\<not> ShiftR (KEYSTATE (dv_kb (ienv s)))" "\<not> CapsLock (KEYSTATE (dv_kb (ienv s)))"
  shows "\<exists>s1 s2 k. entry_ps2 mc s = Some s1 \<and> irq_handler (mc_cpu mc) saved_regs s1 = Some s2 \<and>
    dv_mouse (ienv s2) = dv_mouse (ienv s1) \<and> dv_net (ienv s2) = dv_net (ienv s) \<and>
    ps2_kb_wfi (dv_kb (ienv s2)) = Some (b, k) \<and> scancode_to_ascii b k = Some (us_lower ! unat b) \<and> kb_bytes k = bs"
proof -
  obtain t where t: "entry_ps2 mc s = Some t" "irq_routines_table t ! 1 = Some keyboard_isr"
    "dv_kb (ienv t) = set_layout (LAYOUTS ! 0) (dv_kb (ienv s))" "dv_net (ienv t) = dv_net (ienv s)"
    using entry_ps2_returns [OF len] by blast
  let ?k = "(dv_kb (ienv t))\<lparr>kb_bytes := bs, last_scancode := b, kb_ready := True\<rparr>"
  have h: "keyboard_handler (dv_kb (ienv t)) = Some ?k"
    using key(1) by (simp add: keyboard_handler_def inb_data_def t(3) set_layout_def)
  have irq: "irq_handler (mc_cpu mc) saved_regs t = Some (lapic_write (mc_cpu mc) 0xB0 0 (t\<lparr>ihw := ihw t, ienv := (ienv t)\<lparr>dv_kb := ?k\<rparr>\<rparr>))"
    using t(2) h by (simp add: irq_handler_def saved_regs MAX_IRQS_def call_isr_def keyboard_isr_def Let_def)
  have "b AND 0x7F = take_bit 7 b" by (simp add: take_bit_eq_mask mask_eq_exp_minus_1)
  also have "\<dots> = b" using key(2) by (simp add: word_unat_eq_iff word_less_nat_alt unsigned_take_bit_eq take_bit_nat_eq_self)
  finally have b7: "b AND 0x7F = b" .
  have "b \<noteq> 0xE0" using key(2) by auto
  then have "ps2_kb_wfi ?k = Some (b, ?k\<lparr>kb_ready := False\<rparr>)"
    using key(3) by (simp add: ps2_kb_wfi_def process_keypress_def Let_def b7)
  moreover have "scancode_to_ascii b (?k\<lparr>kb_ready := False\<rparr>) = Some (us_lower ! unat b)"
    using plain key(2) by (simp add: scancode_to_ascii_def t(3) set_layout_def LAYOUTS_def word_less_nat_alt)
  ultimately show ?thesis using t irq by (auto simp: lapic_write_def)
qed

section \<open>Witnesses\<close>

text \<open>A machine with 128 MiB, the kernel from 1 MiB on, and the frame buffer that the loader has set up before.\<close>

definition sample_boot :: boot_info where
  "sample_boot = \<lparr>g_mbi_addr = 0, g_multiboot2_magic = 0, memsize_grub = 0, acpi_info_grub = 0, max_addr_used = 0,
     boot_scr = sample_screen\<rparr>"

definition sample_pmm :: pmm where
  "sample_pmm = pmm_reserve_boot 0x100000 0x180000 0x10000 (load32 boot_ram 0x10000)
     (free_all [(0, 0x8000000)] (pmm_setup boot_ram 0x180000 (regions_end [(0, 0x8000000)])))"

definition sample_started :: boot_info where
  "sample_started = fold apply_tag [Mb_Mmap [(0, 0x8000000)]]
     (sample_boot\<lparr>g_multiboot2_magic := ucast MULTIBOOT2_BOOTLOADER_MAGIC, g_mbi_addr := 0x10000\<rparr>)"

lemma sample_regions: "region_blocks 0 0x8000000 = {0..<32768}" "region_blocks 0x100000 0x80000 = {256..<384}"
  "region_blocks 0x10000 56 = {16}" "region_blocks 0x180000 (bitmap_bytes 32768) = {384}"
  "region_blocks AP_TRAMPOLINE_ADDR AP_TRAMPOLINE_SIZE = {8}"
  by (auto simp: region_blocks_def bitmap_bytes_def AP_TRAMPOLINE_ADDR_def AP_TRAMPOLINE_SIZE_def)

lemma sample_hyps:
  "max_addr_used sample_boot = 0" "[(0, 0x8000000)] = concat (map regions [Mb_Mmap [(0, 0x8000000)]])"
  "\<forall>(a, l) \<in> set [(0 :: u64, 0x8000000 :: u64)]. unat a + unat l < 2 ^ 64"
  "0 < regions_end [(0, 0x8000000)]" "regions_end [(0, 0x8000000)] \<le> 2 ^ 43" "regions_end [(0, 0x8000000)] \<le> 2 ^ 44"
  "byte_span 0x10000 64 \<inter> map_region (pmm_setup boot_ram 0x180000 (regions_end [(0, 0x8000000)])) = {}"
  using boot_apart by (simp_all add: sample_boot_def boot_regions_end)

lemmas sample_boot_result = boot_result [OF boot_mbi sample_hyps(1-4,6,7)]

lemma sample_result:
  "multiboot2_main boot_ram (ucast MULTIBOOT2_BOOTLOADER_MAGIC) 0x10000 sample_boot = Some sample_started"
  "max_addr_used sample_started = regions_end [(0, 0x8000000)]"
  "initialize_memory_manager_from_mbi boot_ram 0x100000 0x180000 (regions_end [(0, 0x8000000)]) 0x10000 = Some sample_pmm"
  "max_blocks sample_pmm = 32768" "bitmap_base sample_pmm = 0x180000"
  unfolding sample_started_def sample_pmm_def
  by (rule sample_boot_result)+ (simp_all only: sample_boot_result(4,5), simp_all only: boot_regions_end boot_setup)

lemma sample_free: "{..<32768} - used_set sample_pmm = {..<32768} - insert 0 (insert 8 (insert 16 {256..<385}))"
proof -
  have "{..<unat (max_blocks sample_pmm)} - used_set sample_pmm =
      (\<Union>(a, l) \<in> set [(0, 0x8000000)]. region_blocks a l) -
      insert 0 (region_blocks 0x100000 (0x180000 - 0x100000) \<union> region_blocks 0x10000 (ucast (load32 boot_ram 0x10000)) \<union>
        region_blocks (bitmap_base sample_pmm) (bitmap_bytes (max_blocks sample_pmm)) \<union>
        region_blocks AP_TRAMPOLINE_ADDR AP_TRAMPOLINE_SIZE)"
    unfolding sample_pmm_def by (rule sample_boot_result(8))
  also have "\<dots> = {0..<32768} - insert 0 ({256..<384} \<union> {16} \<union> {384} \<union> {8})"
    by (simp add: sample_result boot_ram_loads sample_regions)
  also have "\<dots> = {..<32768} - insert 0 (insert 8 (insert 16 {256..<385}))" by auto
  finally show ?thesis by (simp add: sample_result)
qed

lemma sample_used: "used_set sample_pmm = insert 0 (insert 8 (insert 16 {256..<385}))"
proof -
  have "used_set sample_pmm \<subseteq> {..<32768}" by (auto simp: used_set_def sample_result)
  then have "used_set sample_pmm = {..<32768} - ({..<32768} - used_set sample_pmm)" by auto
  also have "\<dots> = insert 0 (insert 8 (insert 16 {256..<385}))" unfolding sample_free by auto
  finally show ?thesis .
qed

lemma sample_avail: "avail sample_pmm = 32635"
proof -
  have c: "Finite_Set.card (used_set sample_pmm) = 132" unfolding sample_used by simp
  have "Finite_Set.card ({..<32768} - used_set sample_pmm) = 32768 - Finite_Set.card (used_set sample_pmm)"
    by (subst card_Diff_subset) (auto simp: used_set_def sample_result)
  then show ?thesis by (simp add: avail_def sample_result c)
qed

lemma sample_started_fb: "g_fb (boot_scr sample_started) = g_fb sample_screen"
  by (simp add: sample_started_def sample_boot_def)

lemma sample_zero: "0 \<in> (\<Union>(a, l) \<in> set [(0, 0x8000000)]. region_blocks a l)" "0 \<notin> region_blocks 0x100000 (0x180000 - 0x100000)"
  "0 \<notin> region_blocks 0x10000 (ucast (load32 boot_ram 0x10000))"
  "0 \<notin> region_blocks (bitmap_base sample_pmm) (bitmap_bytes (max_blocks sample_pmm))"
  by (simp_all add: sample_regions boot_ram_loads sample_result)

theorem entry_memory_ready_witness:
  "\<exists>h' v. entry_memory boot_ram 0x100000 0x180000 sample_started 0 \<lparr>hdr = (\<lambda>_. \<lparr>bsize = 0, bfree = 0, bnext = 0\<rparr>), heap_ptr = 0, heap_end = 0, free_list_head = 0\<rparr> =
      Some (h', v) \<and> heap_ptr h' = 0x200000 \<and> vmm_get_phys (current_pml4 v) 0xB8123 v = 0xB8000"
proof -
  let ?f = "g_fb (boot_scr sample_started)"
  have f: "unat (fi_addr ?f) + unat (fi_height ?f) * unat (fi_pitch ?f) + 8192 \<le> 2 ^ 47"
    "3 * (5120 + fb_pages (fi_height ?f) (fi_pitch ?f)) + 1 \<le> avail sample_pmm"
    unfolding sample_avail sample_started_fb by (simp_all add: sample_screen_def fb_init_def fb_pages_def PAGE_SIZE_def)
  have "page_of 0xB8123 = 0xB8000" by (simp add: page_of_def push_bit_eq_mult drop_bit_eq_div)
  then show ?thesis
    using entry_memory_ready [OF boot_mbi sample_hyps(1-5,7) sample_result(1) sample_result(3) [folded sample_result(2)] sample_zero refl f]
    by fastforce
qed

theorem heap_window_allocatable_witness:
  "\<exists>a p'. allocate_blocks 512 sample_pmm = (a, p') \<and> a \<noteq> 0 \<and> unat a \<le> 0x200010 \<and> 0x200020 \<le> unat a + 512 * 4096"
proof -
  have w: "{0x200..<0x500} \<subseteq> (\<Union>(a, l) \<in> set [(0, 0x8000000)]. region_blocks a l)"
    "{0x200..<0x500} \<inter> (region_blocks 0x100000 (0x180000 - 0x100000) \<union> region_blocks 0x10000 (ucast (load32 boot_ram 0x10000)) \<union>
         region_blocks (bitmap_base sample_pmm) (bitmap_bytes (max_blocks sample_pmm))) = {}"
    by (auto simp: sample_regions boot_ram_loads sample_result)
  show ?thesis
    using heap_window_allocatable [OF boot_mbi sample_hyps(1-5,7) sample_result(3) sample_zero w] by (fastforce simp: kmalloc_first)
qed

text \<open>The devices at power-on, a silent processor, and a key in the controller of the keyboard.\<close>

definition sample_machine :: "(ioapic_view, unit) machine" where
  "sample_machine = \<lparr>mc_cpu = wire_hw, mc_card = ready_card, mc_font = (\<lambda>_ _. 0), mc_kernel_start = 0x100000,
     mc_kernel_end = 0x180000, mc_idt_addr = 0x100000, mc_isr_stubs = of_nat, mc_irq_stubs = of_nat\<rparr>"

definition sample_devices :: "unit devices" where
  "sample_devices = \<lparr>dv_kb = sample_keyboard\<lparr>kb_bytes := [0x1E]\<rparr>,
     dv_mouse = \<lparr>menv = sample_terminal, g_mouse_x_pos = 0, g_mouse_y_pos = 0, g_status = get_mouse_status 0, mouse_event_run = None,
       mouse_cycle = 0, mouse_byte = [0, 0, 0, 0]\<rparr>,
     dv_net = sample_net\<rparr>"

definition sample_intr :: "(ioapic_view, unit devices) intr" where
  "sample_intr = \<lparr>ihw = \<lparr>va_sel = 0, va_reg = (\<lambda>_. 0x10000)\<rparr>, ienv = sample_devices, ivmm = boot_vmm,
     idt_entries = [], idt_ptr = None, interrupts_on = True, interrupt_handlers = replicate 256 None,
     irq_routines_table = replicate 223 None, lapic_timer_tick = 0, lapic = 0, ioapic = 0, acpi_lapic_base = 0, acpi_ioapic_base = 0\<rparr>"

theorem key_press_delivered_witness:
  "\<exists>s1 s2 k. entry_ps2 sample_machine sample_intr = Some s1 \<and>
     irq_handler (mc_cpu sample_machine) \<lparr>saved = [], int_no = 33, err_code = 0, cpu_frame = []\<rparr> s1 = Some s2 \<and>
     ps2_kb_wfi (dv_kb (ienv s2)) = Some (0x1E, k) \<and> scancode_to_ascii 0x1E k = Some 97"
proof -
  have "us_lower ! 0x1E = 97" by (simp add: us_lower_def)
  then show ?thesis
    using key_press_delivered [of sample_intr "\<lparr>saved = [], int_no = 33, err_code = 0, cpu_frame = []\<rparr>" "0x1E" "[]" sample_machine]
    by (auto simp: sample_intr_def sample_devices_def sample_keyboard_def ps2_kb_init_def MAX_IRQS_def LEFT_SHIFT_SC_def RIGHT_SHIFT_SC_def
        CAPS_LOCK_SC_def)
qed

end
