(* ===== verification/Boot_Loader.thy ===== *)
theory Boot_Loader
  imports Ata_Props
begin

unbundle bit_operations_syntax

text \<open>
  The second stage of the boot loader, \<open>bootloader/boot.c\<close> (\<open>bootloader/legacy/boot.c\<close> is the same file): it reads 256 sectors of the
  first drive, from sector 16 on, to address \<open>0x100000\<close> and jumps there.  \<open>None\<close> is a wait that does not end.
\<close>

section \<open>The loader\<close>

text \<open>The loops that read the status register until a bit is as expected.\<close>

partial_function (option) poll :: "'p ports \<Rightarrow> (u8 \<Rightarrow> bool) \<Rightarrow> 'p \<Rightarrow> 'p option" where
  "poll io ok d = (let r = io_inb io 0x1F7 d in if ok (fst r) then Some (snd r) else poll io ok (snd r))"

definition not_busy :: "u8 \<Rightarrow> bool" where "not_busy st \<longleftrightarrow> st AND 0x80 = 0"
definition has_data :: "u8 \<Rightarrow> bool" where "has_data st \<longleftrightarrow> st AND 0x08 \<noteq> 0"

definition store16 :: "ram \<Rightarrow> u64 \<Rightarrow> u16 \<Rightarrow> ram" where
  "store16 m a w = m(a := ucast w, a + 1 := ucast (drop_bit 8 w))"

fun load_words :: "'p ports \<Rightarrow> nat \<Rightarrow> u64 \<Rightarrow> ram \<times> 'p \<Rightarrow> ram \<times> 'p" where
  "load_words io 0 a md = md"
| "load_words io (Suc n) a (m, d) = (let (w, d) = io_inw io 0x1F0 d in load_words io n (a + 2) (store16 m a w, d))"

fun load_sectors :: "'p ports \<Rightarrow> nat \<Rightarrow> u64 \<Rightarrow> ram \<times> 'p \<Rightarrow> (ram \<times> 'p) option" where
  "load_sectors io 0 a md = Some md"
| "load_sectors io (Suc n) a (m, d) = do {
     d \<leftarrow> poll io has_data d;
     load_sectors io n (a + 512) (load_words io 256 a (m, d))
   }"

text \<open>The result is the address of the jump, memory and the hardware.\<close>

definition loader_entry :: "'p ports \<Rightarrow> ram \<Rightarrow> 'p \<Rightarrow> (u64 \<times> ram \<times> 'p) option" where
  "loader_entry io m d = do {
     let mem = 0x100000;
     d \<leftarrow> poll io not_busy d;
     let d = io_outb io 0x1F6 0xE0 d;
     let d = io_outb io 0x1F2 0 d;
     let d = io_outb io 0x1F3 16 d;
     let d = io_outb io 0x1F4 0 d;
     let d = io_outb io 0x1F5 0 d;
     let d = io_outb io 0x1F7 0x20 d;
     d \<leftarrow> poll io not_busy d;
     (m, d) \<leftarrow> load_sectors io 256 mem (m, d);
     Some (mem, m, d)
   }"

section \<open>Hardware\<close>

text \<open>Beyond the protocol that the driver of the kernel needs: a sector count of 0 stands for 256 sectors, and the drive does not
  show data while it is busy, which the loader needs because it looks at that bit only.\<close>

definition loader_channel :: "'p ports \<Rightarrow> ('p \<Rightarrow> ata_view) \<Rightarrow> bool" where
  "loader_channel io view \<longleftrightarrow> ata_channel io view \<and>
     (\<forall>d. quiet (view d) \<longrightarrow> v_cnt (view d) = 0 \<longrightarrow>
        busy_to (view (io_outb io 0x1F7 0x20 d)) ((view d)\<lparr>v_phase := DataIn (lba28 (view d)) 0 256\<rparr>)) \<and>
     (\<forall>d. 0 < v_busy (view d) \<longrightarrow> fst (io_inb io 0x1F7 d) AND 0x08 = 0)"

lemma poll_not_busy:
  assumes c: "ata_channel io view"
  shows "\<exists>d'. poll io not_busy d = Some d' \<and> view d' = (view d)\<lparr>v_busy := 0\<rparr>"
proof (induction "v_busy (view d)" arbitrary: d)
  case 0
  then show ?case using ata_channelD(2,3) [OF c, of d]
    by (subst poll.simps) (simp add: Let_def not_busy_def status_ok_def ATA_SR_BSY_def)
next
  case (Suc n)
  let ?d = "snd (io_inb io 0x1F7 d)"
  have b: "v_busy (view d) = Suc n" by (rule Suc.hyps(2) [symmetric])
  have v: "view ?d = (view d)\<lparr>v_busy := n\<rparr>" "status_ok (fst (io_inb io 0x1F7 d)) (view d)"
    using ata_channelD(2,3) [OF c, of d] by (simp_all add: b)
  then obtain d' where "poll io not_busy ?d = Some d'" "view d' = (view ?d)\<lparr>v_busy := 0\<rparr>" using Suc.hyps(1) [of ?d] by auto
  then show ?case using v
    by (subst poll.simps) (simp add: Let_def not_busy_def status_ok_def ATA_SR_BSY_def b)
qed

lemma poll_has_data:
  assumes c: "loader_channel io view" and p: "v_phase (view d) \<noteq> Idle"
  shows "\<exists>d'. poll io has_data d = Some d' \<and> view d' = (view d)\<lparr>v_busy := 0\<rparr>"
  using p
proof (induction "v_busy (view d)" arbitrary: d)
  case 0
  have "ata_channel io view" using c by (simp add: loader_channel_def)
  then show ?case using ata_channelD(2,3) [of io view d] 0
    by (subst poll.simps) (simp add: Let_def has_data_def status_ok_def ATA_SR_DRQ_def)
next
  case (Suc n)
  let ?d = "snd (io_inb io 0x1F7 d)"
  have b: "v_busy (view d) = Suc n" by (rule Suc.hyps(2) [symmetric])
  have "ata_channel io view" using c by (simp add: loader_channel_def)
  then have v: "view ?d = (view d)\<lparr>v_busy := n\<rparr>" using ata_channelD(2) [of io view d] by (simp add: b)
  have "fst (io_inb io 0x1F7 d) AND 0x08 = 0" using c by (simp add: loader_channel_def b)
  moreover obtain d' where "poll io has_data ?d = Some d'" "view d' = (view ?d)\<lparr>v_busy := 0\<rparr>"
    using Suc.hyps(1) [of ?d] Suc.prems v by auto
  ultimately show ?case using v by (subst poll.simps) (simp add: Let_def has_data_def)
qed

section \<open>Words in memory\<close>

fun store_words :: "ram \<Rightarrow> u64 \<Rightarrow> u16 list \<Rightarrow> ram" where
  "store_words m a [] = m"
| "store_words m a (w # ws) = store_words (store16 m a w) (a + 2) ws"

lemma store_words_append: "store_words m a (ws @ vs) = store_words (store_words m a ws) (a + 2 * of_nat (length ws)) vs"
  by (induction ws arbitrary: m a) (simp_all add: algebra_simps)

lemma store_words_outside:
  assumes "\<And>j. j < 2 * length ws \<Longrightarrow> x \<noteq> a + of_nat j"
  shows "store_words m a ws x = m x"
  using assms
proof (induction ws arbitrary: m a)
  case (Cons w ws)
  have "x \<noteq> a + 2 + of_nat j" if "j < 2 * length ws" for j using Cons.prems [of "j + 2"] that by (simp add: add.assoc)
  from Cons.IH [OF this] show ?case using Cons.prems [of 0] Cons.prems [of 1] by (simp add: store16_def)
qed simp

lemma load_store16: "load16 (store16 m a w) a = w"
  by (rule bit_word_eqI) (auto simp: load16_def store16_def bit_simps)

lemma store_words_load:
  assumes "j < length ws" "2 * length ws < 2 ^ 63"
  shows "load16 (store_words m a ws) (a + 2 * of_nat j) = ws ! j"
  using assms
proof (induction ws arbitrary: m a j)
  case (Cons w ws)
  show ?case
  proof (cases j)
    case 0
    have "a + k \<noteq> a + 2 + of_nat i" if "i < 2 * length ws" "k \<in> {0, 1}" for i k
    proof -
      have "unat (2 + of_nat i :: u64) = 2 + i" using that(1) Cons.prems(2) by (simp add: unat_word_ariths unat_of_nat_small)
      then show ?thesis using that(2) by (auto simp: add.assoc)
    qed
    from this [of _ 0] this [of _ 1] have "load16 (store_words (store16 m a w) (a + 2) ws) a = load16 (store16 m a w) a"
      unfolding load16_def by (simp add: store_words_outside)
    then show ?thesis by (simp add: 0 load_store16)
  next
    case (Suc i)
    then show ?thesis using Cons.IH [of i "store16 m a w" "a + 2"] Cons.prems by (simp add: algebra_simps)
  qed
qed simp

section \<open>Transfers\<close>

definition after_sector :: "u32 \<Rightarrow> nat \<Rightarrow> ata_phase" where
  "after_sector a k = (if k = 1 then Idle else DataIn (a + 1) 0 (k - 1))"

lemma load_words_view:
  assumes c: "ata_channel io view"
    and p: "v_phase (view d) = DataIn a i k" "v_busy (view d) = 0" "i + n = 256" "0 < n"
  shows "fst (load_words io n at (m, d)) = store_words m at (drop i (v_medium (view d) (v_slave (view d)) a)) \<and>
     busy_to (view (snd (load_words io n at (m, d)))) ((view d)\<lparr>v_phase := after_sector a k\<rparr>)"
  using p
proof (induction n arbitrary: d i at m)
  case (Suc n)
  obtain w d1 where r: "io_inw io 0x1F0 d = (w, d1)" by fastforce
  have i: "i < 256" using Suc.prems(3) by simp
  let ?ws = "v_medium (view d) (v_slave (view d)) a"
  have w: "w = ?ws ! i" "word_done (i = 255) (view d1) ((view d)\<lparr>v_phase := next_in a i k\<rparr>)"
    using ata_channel_data(1) [OF c Suc.prems(2,1) i] r by simp_all
  have drop: "drop i ?ws = w # drop (Suc i) ?ws" using i w(1) ata_channelD(4) [OF c] by (simp add: Cons_nth_drop_Suc)
  show ?case
  proof (cases n)
    case 0
    then have "i = 255" using Suc.prems(3) by simp
    then have "busy_to (view d1) ((view d)\<lparr>v_phase := after_sector a k\<rparr>)" using w(2) by (simp add: word_done_def next_in_def after_sector_def)
    then show ?thesis using 0 r drop \<open>i = 255\<close> ata_channelD(4) [OF c] by simp
  next
    case (Suc j)
    then have v1: "view d1 = (view d)\<lparr>v_phase := DataIn a (Suc i) k\<rparr>"
      using w(2) Suc.prems(3) by (simp add: word_done_def next_in_def)
    then show ?thesis using Suc.IH [of d1 "Suc i" "at + 2" "store16 m at w"] Suc.prems(2,3) Suc r drop by (simp add: v_slave_def)
  qed
qed simp

lemma load_sectors_view:
  assumes c: "loader_channel io view"
    and p: "v_phase (view d) = DataIn a 0 k" "0 < k"
  shows "\<exists>d'. load_sectors io k at (m, d) =
       Some (store_words m at (concat (map (\<lambda>s. v_medium (view d) (v_slave (view d)) (a + of_nat s)) [0..<k])), d') \<and>
     v_phase (view d') = Idle \<and> v_medium (view d') = v_medium (view d)"
  using p
proof (induction k arbitrary: d a at m)
  case (Suc k)
  have ch: "ata_channel io view" using c by (simp add: loader_channel_def)
  obtain d1 where d1: "poll io has_data d = Some d1" "view d1 = (view d)\<lparr>v_busy := 0\<rparr>"
    using poll_has_data [OF c, of d] Suc.prems(1) by auto
  obtain m2 d2 where r2: "load_words io 256 at (m, d1) = (m2, d2)" by fastforce
  let ?ws = "v_medium (view d) (v_slave (view d))"
  have l: "length (?ws b) = 256" for b using ata_channelD(4) [OF ch] by simp
  have m2: "m2 = store_words m at (?ws a)" and b2: "busy_to (view d2) ((view d1)\<lparr>v_phase := after_sector a (Suc k)\<rparr>)"
    using load_words_view [OF ch, of d1 a 0 "Suc k" 256 at m] Suc.prems(1) d1(2) r2 by (simp_all add: v_slave_def)
  have split: "concat (map (\<lambda>s. ?ws (a + of_nat s)) [0..<Suc k]) = ?ws a @ concat (map (\<lambda>s. ?ws (a + 1 + of_nat s)) [0..<k])"
    by (simp add: upt_conv_Cons map_Suc_upt [symmetric] comp_def add.assoc del: upt_Suc)
  obtain n where n: "view d2 = (view d1)\<lparr>v_phase := after_sector a (Suc k), v_busy := n\<rparr>" using b2 by (rule busy_toE) simp
  show ?case
  proof (cases "k = 0")
    case True
    then show ?thesis using d1 r2 m2 n by (simp add: after_sector_def)
  next
    case False
    then have "v_phase (view d2) = DataIn (a + 1) 0 k" "0 < k" "v_medium (view d2) = v_medium (view d)" "v_slave (view d2) = v_slave (view d)"
      using n d1(2) by (simp_all add: after_sector_def v_slave_def)
    from Suc.IH [OF this(1,2), of "at + 512" m2] this(3,4) show ?thesis
      unfolding split using d1(1) r2 m2 l by (auto simp: store_words_append)
  qed
qed simp

lemma nth_concat_256:
  "(\<And>xs. xs \<in> set xss \<Longrightarrow> length xs = 256) \<Longrightarrow> s < length xss \<Longrightarrow> i < 256 \<Longrightarrow> concat xss ! (256 * s + i) = xss ! s ! i"
proof (induction xss arbitrary: s)
  case (Cons x xss)
  then show ?case by (cases s) (auto simp: nth_append)
qed simp


section \<open>Witness\<close>

definition full_device :: "ata_view ports" where
  "full_device = pio_device\<lparr>io_outb := (\<lambda>port x d.
     if port = 0x1F7 \<and> x = 0x20 \<and> v_cnt d = 0 then d\<lparr>v_phase := DataIn (lba28 d) 0 256, v_busy := 3\<rparr> else pio_outb port x d)\<rparr>"

lemma full_device_ports:
  "io_inb full_device = io_inb pio_device" "io_inw full_device = io_inw pio_device" "io_outw full_device = io_outw pio_device"
  "v_cnt d \<noteq> 0 \<or> port \<noteq> 0x1F7 \<or> x \<noteq> 0x20 \<Longrightarrow> io_outb full_device port x d = io_outb pio_device port x d"
  by (auto simp: full_device_def pio_device_def)

lemma full_device_channel: "loader_channel full_device pio_view"
proof -
  have "ata_channel full_device pio_view"
    using pio_device_channel unfolding ata_channel_def by (simp add: full_device_ports)
  moreover have "busy_to (pio_view (io_outb full_device 0x1F7 0x20 d)) ((pio_view d)\<lparr>v_phase := DataIn (lba28 d) 0 256\<rparr>)" if "v_cnt d = 0" for d
    using that unfolding busy_to_def by (intro exI [of _ 3]) (simp add: full_device_def pio_view_def)
  moreover have "fst (io_inb full_device 0x1F7 d) AND 0x08 = 0" if "0 < v_busy d" for d
    using that by (simp add: full_device_def pio_device_def)
  ultimately show ?thesis by (simp add: loader_channel_def)
qed


end
