(* ===== verification/Spec2Isabelle.thy ===== *)
theory Spec2Isabelle
  imports Gk_Interp_Props Fs Process Net_Props Terminal_Props Editor_Props Ata_Props Interrupt_Props Mouse Pci_Enum
    Acpi_Props Shell_Text E1000_Props Kernel_Entry_Props Boot_Loader
begin

text \<open>
  A model of GeckoOS, a 64-bit kernel written in C, and the theorems that make its parts correct.

  \<^bold>\<open>The program.\<close>  The boot loader (\<open>bootloader/boot.c\<close>, or GRUB) loads the kernel and passes a Multiboot2 structure to
  \<open>multiboot2_main\<close> (\<open>kernel/boot/multiboot2_entry.c\<close>), which records the memory size, the frame buffer and the
  ACPI tables.  \<open>_entry\<close> (\<open>kernel/kernel.c\<close>) starts the physical memory manager, the heap and the virtual memory manager, reads the
  ACPI tables, sets up the interrupt controllers, and starts the devices: keyboard, mouse, terminal, PCI bus, network card, drives.
  \<open>kmain\<close> then mounts a FAT32 volume and runs the shell (\<open>kernel/commands.c\<close>) for ever.  The commands use the file system, the network
  stack, the text editor, the ELF loader and the interpreter of the scripting language GK.  Interrupt handlers act on the
  state of the keyboard, the mouse (and through a callback the terminal) and the network card.

  \<^bold>\<open>How the code is modelled.\<close>  Machine integers are words of their width, with the wrap-around of C; \<open>int\<close> values are words or \<open>int\<close>s where
  the code keeps them in range.  A structure or a group of static variables is a record, an operation is a function from
  the state to a result and the new state.  Memory is a function from addresses to bytes (\<open>ram\<close>), to 8-byte words for page
  tables, or a list for a C array.  \<open>None\<close> is what has no C result: a loop that does not end, a halt, an access outside of an
  array, an argument of the wrong type.  Where C code returns a null pointer or an error code, the model returns 0 or that
  code.  Loops are structural recursions over their bound; loops that wait for hardware or follow pointers are
  \<open>partial_function (option)\<close>, and that they return is part of the theorems.  Only the interpreter takes fuel: it bounds the depth of the
  evaluation, running out of it is \<open>None\<close>, and \<open>eval_fuel_irrelevant\<close> says that a result does not depend on it.  The
  enumeration of the PCI buses takes a depth in the same way; depth 256 is enough when bridges lead to higher bus numbers.
  The timeouts of the drivers are the constants of the code.

  \<^bold>\<open>What is a parameter.\<close>  Hardware: the port instructions (\<open>ports\<close>), the interrupt controllers, model-specific registers and
  \<open>cpuid\<close> (\<open>apic_hw\<close>), the network card (\<open>e1000_hw\<close>), and the state behind them; the bytes that the keyboard delivers; the firmware's
  tables in memory.  The theorems about drivers name the behaviour they rely on as predicates on these parameters
  (\<open>ata_channel\<close>, \<open>loader_channel\<close>, \<open>ioapic_protocol\<close>, \<open>card_ok\<close>, \<open>pci_protocol\<close> and others), which state documented protocols; every such theorem has a
  witness on a concrete device.  The file system sees a drive through the two function pointers of \<open>kdrive_t\<close> and the predicate
  \<open>block_device\<close>, which asks for the contract in every device state; theory \<open>Ata_Props\<close> shows the same behaviour of the ATA driver from every idle
  state of its channel.  The font, the linker's addresses and the assembly entry points are parameters, too.

  \<^bold>\<open>Theories.\<close>

  \<^item> \<open>Gecko_Prelude\<close>: word types, loads from memory, shared facts and fact collections.
  \<^item> \<open>Phys_Mem\<close>, \<open>Pmm_Boot\<close>: \<open>kernel/mem/physical_mem\<close>.  The bitmap, first-fit search, allocation and release, the set-up from the
    memory map.  The locale \<open>frame_allocator\<close> is what clients rely on.  Shown: what an allocation returns and when it fails, that
    release inverts it, which blocks are free after boot.
  \<^item> \<open>Paging\<close>, \<open>Page_Walk\<close>, \<open>Address_Space\<close>, \<open>Vmm_Props\<close>: \<open>kernel/mem/virtual_mem\<close>.  The page tables as a tree in physical frames; the locales
    \<open>address_space\<close> and \<open>address_range\<close> describe one-page and range operations and are interpreted on \<open>vmm_map\<close> and \<open>vmm_unmap\<close>.  Shown: mapping refines
    the update of a finite map, the boot address space, windows of \<open>mmio_map\<close>.
  \<^item> \<open>Heap\<close>: \<open>kernel/mem.c\<close>.  Headers, free list, splitting; \<open>memcpy\<close>, \<open>memmove\<close>, \<open>memset\<close>, \<open>strlen\<close>.  Shown: safety and termination of \<open>kmalloc\<close> on an acyclic
    list, and that \<open>kfree\<close> of a reused block makes the list cyclic.
  \<^item> \<open>Gk_State\<close>, \<open>Gk_Lexer\<close>, \<open>Gk_Parser\<close>, \<open>Gk_Parser_Props\<close>, \<open>Gk_Interp\<close>, \<open>Gk_Interp_Props\<close>: \<open>kernel/gk\<close>.  Shown: token bounds and balanced indentation, totality of
    the parser, scoping of evaluation, conversions of integers.
  \<^item> \<open>Block_Device\<close>, \<open>Fat32\<close>, \<open>Fat32_File\<close>, \<open>Fat_Table\<close>, \<open>Fat_Chain\<close>, \<open>Fat_Read\<close>, \<open>Fat_Dir\<close>, \<open>Fat_Ops\<close>: \<open>kernel/fs/fat32.c\<close> over the sectors of a drive.  The abstract view is a table
    of clusters, the bytes of clusters, and the slots of the root directory.  Shown: what creating, reading, deleting and allocating do to this
    view, that the chain loops end, names.
  \<^item> \<open>Fs\<close>: \<open>kernel/drivers/drives.c\<close> and \<open>kernel/fs/fs.c\<close>: the table of drives, mounting, \<open>readfile\<close>.
  \<^item> \<open>Ports\<close>, \<open>Ata\<close>, \<open>Ata_Props\<close>: \<open>include/ports.h\<close>, \<open>kernel/drivers/ata.c\<close> against the protocol of programmed transfers.
  \<^item> \<open>Boot_Loader\<close>: \<open>bootloader/boot.c\<close> against the same protocol: the loader ends with the 256 sectors in place.
  \<^item> \<open>Process\<close>: \<open>kernel/process/process.c\<close>.  The ring of processes refines a bounded queue (locale \<open>bounded_queue\<close>); the address space of a new process.
  \<^item> \<open>E1000\<close>, \<open>E1000_Init\<close>, \<open>E1000_Props\<close>: \<open>kernel/drivers/e1000.c\<close>.  Sending, receiving, the start of the card with its windows, DMA areas and handler.
  \<^item> \<open>Net\<close>, \<open>Net_Props\<close>: \<open>kernel/net\<close>.  Checksums, the address cache as a finite map, the answer to a ping.
  \<^item> \<open>Framebuffer\<close>, \<open>Terminal\<close>, \<open>Terminal_Props\<close>: \<open>kernel/drivers/framebuffer.c\<close>, \<open>vga.c\<close>, \<open>kernel/terminal/terminal.c\<close>.  Pixels of a character, output within the
    scroll-back buffer, line input.
  \<^item> \<open>Keyboard\<close>, \<open>Kb_Layouts\<close>, \<open>Layouts\<close>: \<open>kernel/drivers/ps2keyboard.c\<close>, \<open>kernel/layouts/kb_layouts.c\<close>.  Scan codes, and that the name of every command can be typed in every layout.
  \<^item> \<open>Mouse\<close>: \<open>kernel/drivers/ps2mouse.c\<close>.  Initialisation, packets, the callback.
  \<^item> \<open>Editor\<close>, \<open>Editor_Props\<close>: \<open>kernel/editor/editor.c\<close> refines an editor on lines and a cursor.
  \<^item> \<open>Interrupts\<close>, \<open>Interrupt_Props\<close>: \<open>kernel/drivers/tables\<close>, \<open>kernel/drivers/apic\<close>.  Routing from a request line to its handler.
  \<^item> \<open>Pci\<close>, \<open>Pci_Props\<close>, \<open>Pci_Enum\<close>: \<open>kernel/drivers/pci.c\<close>.  The configuration space, the tree of buses, when the enumeration ends.
  \<^item> \<open>Acpi\<close>, \<open>Acpi_Windows\<close>, \<open>Acpi_Props\<close>: \<open>kernel/drivers/acpi.c\<close>, read through the page tables; the locale \<open>table_visitor\<close> covers both root tables.
  \<^item> \<open>Nanoprintf\<close>, \<open>Nanoprintf_Props\<close>: \<open>include/terminal/npf.h\<close> as \<open>printf.h\<close> configures it, \<open>kernel/terminal/printf.c\<close>.  Definedness for arguments of the right types,
    decimal numbers, the sizes of the conversion buffer and of the caller's buffer.
  \<^item> \<open>Elf\<close>, \<open>Serial\<close>: \<open>kernel/elf.c\<close>, \<open>include/drivers/serial.h\<close>.
  \<^item> \<open>Shell\<close>, \<open>Shell_Run\<close>, \<open>Shell_Props\<close>, \<open>Shell_Text\<close>: \<open>kernel/commands.c\<close> and the loop of \<open>kmain\<close>.  One round of the loop, from the keys typed to the sectors
    written, for copying and moving files; unknown commands; addresses.
  \<^item> \<open>Boot_Entry\<close>, \<open>Kernel_Entry\<close>, \<open>Kernel_Entry_Props\<close>: \<open>multiboot2_main\<close> and \<open>_entry\<close> as one sequence over the joined state.  Shown: from the structure of the loader to
    the first address space, that the heap's window is left to the block allocator, that a key reaches the shell.

  \<^bold>\<open>Not modelled.\<close>  Assembly (\<open>kernel/boot/multiboot2_entry.s\<close>, the interrupt stubs, the trampoline of the second processor, \<open>iretq\<close>, the stages of the boot
  loader before C) and the linker script: they are not C, and their addresses are parameters.  The glyphs of \<open>include/fonts\<close>: data, a parameter of
  drawing.  The branches of \<open>npf.h\<close> that \<open>printf.h\<close> compiles out (floats, large and small modifiers, binary, write-back, alternative form).  Code
  under \<open>DEBUG\<close> and diagnostic messages of drivers, which change only the screen.  Interrupts during an operation: handlers run between the
  steps of the model, never inside them.  The second processor after its start.  \<open>usb.c\<close> (one call of \<open>pci_enumarate\<close>, never used) and
  \<open>sata.c\<close> (empty).
\<close>

end
